(* ===== verification/PyPrelude.thy ===== *)
theory PyPrelude
  imports Complex_Main "HOL-Library.AList" "HOL-Library.Char_ord" "HOL-Library.List_Lexorder"
begin

text \<open>
  Shared vocabulary of the development: the Python values the modelled code handles, the
  string and dictionary operations it uses, the error monad in which raising code is
  written, and the generic lemmas the component theories share.

  A dictionary is an association list in insertion order (\<open>AList.update\<close> overwrites in
  place or appends, exactly as \<open>d[k] = v\<close> does).  A \<open>str\<close> is a \<open>string\<close>, so the code
  points modelled are those below 256.  A \<open>float\<close> is an exact rational or one of the
  three non-finite values: rounding is not modelled.
\<close>

named_theorems py_simps \<open>unfolding rules of the Python vocabulary\<close>
named_theorems py_dict \<open>laws of insertion-ordered dictionaries\<close>

section \<open>Python values\<close>

datatype pyfloat = Fin rat | PosInf | NegInf | NaN

datatype pykey = KStr string | KInt int | KBool bool | KNone

datatype pyval =
    VNone
  | VBool bool
  | VInt int
  | VFloat pyfloat
  | VStr string
  | VList "pyval list"
  | VDict "(pykey \<times> pyval) list"

type_synonym pydict = "(pykey \<times> pyval) list"

text \<open>\<open>d.get(k)\<close> for a string key, with Python's \<open>None\<close> for a missing one.\<close>

definition dict_lookup :: "pydict \<Rightarrow> string \<Rightarrow> pyval option" where
  "dict_lookup d k = map_of d (KStr k)"

definition dict_get :: "pydict \<Rightarrow> string \<Rightarrow> pyval" where
  "dict_get d k = (case dict_lookup d k of None \<Rightarrow> VNone | Some v \<Rightarrow> v)"

definition dict_get_default :: "pydict \<Rightarrow> string \<Rightarrow> pyval \<Rightarrow> pyval" where
  "dict_get_default d k dflt = (case dict_lookup d k of None \<Rightarrow> dflt | Some v \<Rightarrow> v)"

fun is_dict :: "pyval \<Rightarrow> bool" where
  "is_dict (VDict d) = True" | "is_dict _ = False"

fun is_list :: "pyval \<Rightarrow> bool" where
  "is_list (VList xs) = True" | "is_list _ = False"

fun is_str :: "pyval \<Rightarrow> bool" where
  "is_str (VStr s) = True" | "is_str _ = False"

text \<open>Truth value testing (\<open>bool(v)\<close>).\<close>

fun truthy :: "pyval \<Rightarrow> bool" where
  "truthy VNone = False"
| "truthy (VBool b) = b"
| "truthy (VInt i) = (i \<noteq> 0)"
| "truthy (VFloat f) = (f \<noteq> Fin 0)"
| "truthy (VStr s) = (s \<noteq> [])"
| "truthy (VList xs) = (xs \<noteq> [])"
| "truthy (VDict d) = (d \<noteq> [])"

text \<open>The numeric reading of a value: \<open>bool\<close> is a subtype of \<open>int\<close>.\<close>

fun num_of :: "pyval \<Rightarrow> pyfloat option" where
  "num_of (VBool b) = Some (Fin (if b then 1 else 0))"
| "num_of (VInt i) = Some (Fin (of_int i))"
| "num_of (VFloat f) = Some f"
| "num_of _ = None"

text \<open>The least integer that \<open>float()\<close> cannot represent even after rounding.\<close>

definition float_limit :: int where "float_limit = 2 ^ 1024 - 2 ^ 970"

text \<open>Hash-table key equality: \<open>True\<close> and \<open>1\<close>, \<open>False\<close> and \<open>0\<close> are one key.\<close>

fun key_norm :: "pykey \<Rightarrow> pykey" where
  "key_norm (KBool b) = KInt (if b then 1 else 0)"
| "key_norm k = k"

text \<open>
  \<open>a == b\<close>: numbers compare across \<open>bool\<close>, \<open>int\<close> and \<open>float\<close>, \<open>NaN\<close> differs from
  itself, lists compare pointwise and dictionaries regardless of order.
\<close>

fun py_eq :: "pyval \<Rightarrow> pyval \<Rightarrow> bool"
  and py_eq_list :: "pyval list \<Rightarrow> pyval list \<Rightarrow> bool"
  and py_eq_items :: "pydict \<Rightarrow> pydict \<Rightarrow> bool" where
  "py_eq VNone b = (b = VNone)"
| "py_eq (VStr s) b = (b = VStr s)"
| "py_eq (VBool x) b = (num_of b = Some (Fin (if x then 1 else 0)))"
| "py_eq (VInt i) b = (num_of b = Some (Fin (of_int i)))"
| "py_eq (VFloat f) b = (f \<noteq> NaN \<and> num_of b = Some f)"
| "py_eq (VList xs) b = (case b of VList ys \<Rightarrow> py_eq_list xs ys | _ \<Rightarrow> False)"
| "py_eq (VDict d) b = (case b of VDict e \<Rightarrow> length d = length e \<and> py_eq_items d e | _ \<Rightarrow> False)"
| "py_eq_list [] ys = (ys = [])"
| "py_eq_list (x # xs) ys = (case ys of [] \<Rightarrow> False | y # zs \<Rightarrow> py_eq x y \<and> py_eq_list xs zs)"
| "py_eq_items [] e = True"
| "py_eq_items ((k, v) # d) e =
     ((case map_of (map (\<lambda>(k', w). (key_norm k', w)) e) (key_norm k) of
         None \<Rightarrow> False | Some w \<Rightarrow> py_eq v w) \<and> py_eq_items d e)"

lemma py_eq_str [simp]: "py_eq (VStr s) v \<longleftrightarrow> v = VStr s" by simp

text \<open>
  Iteration, hashing and membership, with \<open>Inl ()\<close> for the \<open>TypeError\<close> Python raises.
\<close>

definition py_iter :: "pyval \<Rightarrow> unit + pyval list" where
  "py_iter v =
     (case v of
        VList xs \<Rightarrow> Inr xs
      | VStr s \<Rightarrow> Inr (map (\<lambda>c. VStr [c]) s)
      | VDict d \<Rightarrow> Inr (map (\<lambda>(k, _). case k of KStr s \<Rightarrow> VStr s | KInt i \<Rightarrow> VInt i
                                       | KBool b \<Rightarrow> VBool b | KNone \<Rightarrow> VNone) d)
      | _ \<Rightarrow> Inl ())"

definition key_in_dict :: "pyval \<Rightarrow> pydict \<Rightarrow> unit + bool" where
  "key_in_dict v d =
     (let has = (\<lambda>k. key_norm k \<in> (key_norm \<circ> fst) ` set d) in
      case v of
        VStr s \<Rightarrow> Inr (has (KStr s))
      | VInt i \<Rightarrow> Inr (has (KInt i))
      | VBool b \<Rightarrow> Inr (has (KBool b))
      | VNone \<Rightarrow> Inr (has KNone)
      | VFloat (Fin r) \<Rightarrow> Inr (r = of_int (floor r) \<and> has (KInt (floor r)))
      | VFloat _ \<Rightarrow> Inr False
      | _ \<Rightarrow> Inl ())"

fun is_infix :: "string \<Rightarrow> string \<Rightarrow> bool" where
  "is_infix t [] = (t = [])"
| "is_infix t (c # cs) = (take (length t) (c # cs) = t \<or> is_infix t cs)"

definition py_in :: "pyval \<Rightarrow> pyval \<Rightarrow> unit + bool" where
  "py_in v c =
     (case c of
        VList xs \<Rightarrow> Inr (list_ex (py_eq v) xs)
      | VDict d \<Rightarrow> key_in_dict v d
      | VStr s \<Rightarrow> (case v of VStr t \<Rightarrow> Inr (is_infix t s) | _ \<Rightarrow> Inl ())
      | _ \<Rightarrow> Inl ())"

lemma size_dict_entry: "(k, v) \<in> set d \<Longrightarrow> size v < size (VDict d)"
proof -
  assume "(k, v) \<in> set d"
  then have "size_prod (\<lambda>_. 0) size (k, v) \<le> size_list (size_prod (\<lambda>_. 0) size) d"
    by (rule size_list_estimation') simp
  then show ?thesis by simp
qed

lemma dict_lookup_size: "dict_lookup d k = Some v \<Longrightarrow> size v < size (VDict d)"
  unfolding dict_lookup_def by (drule map_of_SomeD) (rule size_dict_entry)

lemma dict_get_size: "dict_get d k = VDict e \<Longrightarrow> size (VDict e) < size (VDict d)"
  unfolding dict_get_def by (auto split: option.splits dest: dict_lookup_size)

lemma dict_get_sub_size:
  "dict_get d k = VDict e \<Longrightarrow> (a, b) \<in> set e \<Longrightarrow> size b < Suc (size_list (size_prod (\<lambda>x. 0) size) d)"
  using dict_get_size[of d k e] size_dict_entry[of a b e] by simp

section \<open>Strings\<close>

text \<open>\<open>str.isspace\<close> on the modelled code points, and \<open>strip\<close>, \<open>lstrip\<close>, \<open>rstrip\<close>.\<close>

definition is_space :: "char \<Rightarrow> bool" where
  "is_space c = (let n = (of_char c :: nat) in
     (9 \<le> n \<and> n \<le> 13) \<or> (28 \<le> n \<and> n \<le> 32) \<or> n = 133 \<or> n = 160)"

definition lstrip :: "string \<Rightarrow> string" where
  "lstrip s = dropWhile is_space s"

definition rstrip :: "string \<Rightarrow> string" where
  "rstrip s = rev (dropWhile is_space (rev s))"

definition strip :: "string \<Rightarrow> string" where
  "strip s = rstrip (lstrip s)"

text \<open>\<open>str.lower\<close> on ASCII and Latin-1 letters.\<close>

definition lower_char :: "char \<Rightarrow> char" where
  "lower_char c = (let n = (of_char c :: nat) in
     if (65 \<le> n \<and> n \<le> 90) \<or> (192 \<le> n \<and> n \<le> 222 \<and> n \<noteq> 215) then char_of (n + 32) else c)"

definition lower :: "string \<Rightarrow> string" where
  "lower s = map lower_char s"

definition is_digit_char :: "char \<Rightarrow> bool" where
  "is_digit_char c = (let n = (of_char c :: nat) in 48 \<le> n \<and> n \<le> 57)"

text \<open>\<open>s.split(c)\<close> for a one-character separator.\<close>

fun split_on :: "char \<Rightarrow> string \<Rightarrow> string list" where
  "split_on c [] = [[]]"
| "split_on c (x # xs) =
     (if x = c then [] # split_on c xs
      else (case split_on c xs of [] \<Rightarrow> [[x]] | w # ws \<Rightarrow> (x # w) # ws))"

text \<open>\<open>sep.join(parts)\<close>.\<close>

fun join :: "string \<Rightarrow> string list \<Rightarrow> string" where
  "join sep [] = []"
| "join sep [x] = x"
| "join sep (x # y # ys) = x @ sep @ join sep (y # ys)"

definition starts_with :: "string \<Rightarrow> string \<Rightarrow> bool" where
  "starts_with p s = (take (length p) s = p)"

text \<open>\<open>text.replace(old, new)\<close> for a non-empty \<open>old\<close>: leftmost, non-overlapping.\<close>

function str_replace :: "string \<Rightarrow> string \<Rightarrow> string \<Rightarrow> string" where
  "str_replace old new s =
     (if old = [] then s
      else case s of
        [] \<Rightarrow> []
      | c # cs \<Rightarrow> if starts_with old s then new @ str_replace old new (drop (length old) s)
                  else c # str_replace old new cs)"
  by pat_completeness auto
termination
  by (relation "measure (\<lambda>(old, new, s). length s)") (auto simp: starts_with_def)

declare str_replace.simps [simp del]

lemma str_replace_Nil [simp]: "str_replace old new [] = []"
  by (simp add: str_replace.simps)

lemma str_replace_Cons:
  "old \<noteq> [] \<Longrightarrow> str_replace old new (c # cs) =
     (if starts_with old (c # cs) then new @ str_replace old new (drop (length old) (c # cs))
      else c # str_replace old new cs)"
  by (simp add: str_replace.simps)

text \<open>
  \<open>pattern.sub(new, s)\<close>: leftmost, non-overlapping replacement.  A pattern is its match
  function: given the preceding character and the rest of the text, the length of the match
  at the head of the rest, 0 for none (no pattern of the code matches the empty string).
\<close>

type_synonym pattern = "char option \<Rightarrow> string \<Rightarrow> nat"

function re_sub :: "pattern \<Rightarrow> string \<Rightarrow> char option \<Rightarrow> string \<Rightarrow> string" where
  "re_sub m new prev [] = []"
| "re_sub m new prev (c # cs) =
     (let n = m prev (c # cs) in
      if 0 < n then new @ re_sub m new (Some (last (take n (c # cs)))) (drop n (c # cs))
      else c # re_sub m new (Some c) cs)"
  by pat_completeness auto
termination
  by (relation "measure (\<lambda>(m, new, prev, s). length s)") auto

declare re_sub.simps(2) [simp del]

text \<open>Decimal rendering of integers (\<open>str(i)\<close>).\<close>

definition digit_char :: "nat \<Rightarrow> char" where
  "digit_char d = char_of (48 + d)"

fun show_nat :: "nat \<Rightarrow> string" where
  "show_nat n = (if n < 10 then [digit_char n] else show_nat (n div 10) @ [digit_char (n mod 10)])"

declare show_nat.simps [simp del]

definition show_int :: "int \<Rightarrow> string" where
  "show_int i = (if i < 0 then CHR ''-'' # show_nat (nat (- i)) else show_nat (nat i))"

text \<open>Reading a run of digits back.\<close>

definition digit_val :: "char \<Rightarrow> nat" where
  "digit_val c = of_char c - 48"

definition read_nat :: "string \<Rightarrow> nat" where
  "read_nat s = fold (\<lambda>c n. 10 * n + digit_val c) s 0"

text \<open>\<open>str(k)\<close> of a dictionary key.\<close>

fun key_str :: "pykey \<Rightarrow> string" where
  "key_str (KStr s) = s"
| "key_str (KInt i) = show_int i"
| "key_str (KBool b) = (if b then ''True'' else ''False'')"
| "key_str KNone = ''None''"

section \<open>The error monad\<close>

text \<open>Code that may raise returns \<open>Inl\<close> of its error or \<open>Inr\<close> of its result.\<close>

definition ebind :: "'e + 'a \<Rightarrow> ('a \<Rightarrow> 'e + 'b) \<Rightarrow> 'e + 'b" where
  "ebind m f = (case m of Inl e \<Rightarrow> Inl e | Inr x \<Rightarrow> f x)"

definition emap_err :: "('e \<Rightarrow> 'd) \<Rightarrow> 'e + 'a \<Rightarrow> 'd + 'a" where
  "emap_err h m = (case m of Inl e \<Rightarrow> Inl (h e) | Inr x \<Rightarrow> Inr x)"

text \<open>A loop that builds a list and a loop that threads a state; both stop at a raise.\<close>

fun traverse :: "('a \<Rightarrow> 'e + 'b) \<Rightarrow> 'a list \<Rightarrow> 'e + 'b list" where
  "traverse f [] = Inr []"
| "traverse f (x # xs) =
     (case f x of Inl e \<Rightarrow> Inl e
      | Inr y \<Rightarrow> (case traverse f xs of Inl e \<Rightarrow> Inl e | Inr ys \<Rightarrow> Inr (y # ys)))"

fun efold :: "('s \<Rightarrow> 'a \<Rightarrow> 'e + 's) \<Rightarrow> 's \<Rightarrow> 'a list \<Rightarrow> 'e + 's" where
  "efold f s [] = Inr s"
| "efold f s (x # xs) = (case f s x of Inl e \<Rightarrow> Inl e | Inr s' \<Rightarrow> efold f s' xs)"

lemma ebind_simps [simp, py_simps]:
  "ebind (Inl e) f = Inl e" "ebind (Inr x) f = f x"
  by (simp_all add: ebind_def)

lemma ebind_Inr_iff [simp]: "ebind m f = Inr y \<longleftrightarrow> (\<exists>x. m = Inr x \<and> f x = Inr y)"
  by (cases m) auto

lemma ebind_cong [fundef_cong]:
  "m = m' \<Longrightarrow> (\<And>x. m' = Inr x \<Longrightarrow> f x = g x) \<Longrightarrow> ebind m f = ebind m' g"
  by (cases m') auto

lemma traverse_cong [fundef_cong]:
  "xs = ys \<Longrightarrow> (\<And>x. x \<in> set ys \<Longrightarrow> f x = g x) \<Longrightarrow> traverse f xs = traverse g ys"
proof (induction xs arbitrary: ys)
  case Nil
  then show ?case by simp
next
  case (Cons x xs)
  then have "traverse f xs = traverse g xs" and "f x = g x" by auto
  with Cons(2) show ?case by (simp only: traverse.simps flip: Cons(2))
qed

lemma emap_err_Inr [simp]: "emap_err h m = Inr x \<longleftrightarrow> m = Inr x"
  by (cases m) (auto simp: emap_err_def)

lemma traverse_Cons_Inr:
  "traverse f (x # xs) = Inr zs \<longleftrightarrow> (\<exists>y ys. zs = y # ys \<and> f x = Inr y \<and> traverse f xs = Inr ys)"
  by (auto split: sum.splits)

lemma traverse_Inr_iff:
  "traverse f xs = Inr ys \<longleftrightarrow> list_all2 (\<lambda>x y. f x = Inr y) xs ys"
proof (induction xs arbitrary: ys)
  case Nil
  then show ?case by (cases ys) auto
next
  case (Cons x xs)
  show ?case by (cases ys) (auto simp flip: Cons.IH split: sum.splits)
qed

lemma traverse_length: "traverse f xs = Inr ys \<Longrightarrow> length ys = length xs"
  by (auto simp: traverse_Inr_iff dest: list_all2_lengthD)

text \<open>An invariant of the loop body is an invariant of the loop.\<close>

lemma efold_invariant:
  assumes "efold f s xs = Inr t" and "P s"
    and "\<And>s x s'. x \<in> set xs \<Longrightarrow> P s \<Longrightarrow> f s x = Inr s' \<Longrightarrow> P s'"
  shows "P t"
  using assms
proof (induction xs arbitrary: s)
  case Nil
  then show ?case by simp
next
  case (Cons x xs)
  then obtain s' where s': "f s x = Inr s'" "efold f s' xs = Inr t"
    by (auto split: sum.splits)
  moreover have "P s'" using Cons.prems s' by auto
  ultimately show ?case using Cons.IH[of s'] Cons.prems(3) by auto
qed

section \<open>Building dictionaries\<close>

lemma update_fresh: "k \<notin> fst ` set d \<Longrightarrow> AList.update k v d = d @ [(k, v)]"
  by (induction d) auto

lemma fold_update_fresh [py_dict]:
  "distinct (map fst kvs) \<Longrightarrow> fst ` set kvs \<inter> fst ` set d = {} \<Longrightarrow>
     fold (\<lambda>(k, v) out. AList.update k v out) kvs d = d @ kvs"
proof (induction kvs arbitrary: d)
  case Nil
  then show ?case by simp
next
  case (Cons kv kvs)
  obtain k v where kv: "kv = (k, v)" by fastforce
  have "fold (\<lambda>(k, v) out. AList.update k v out) kvs (d @ [(k, v)]) = (d @ [(k, v)]) @ kvs"
    by (rule Cons.IH) (use Cons.prems kv in auto)
  moreover have "k \<notin> fst ` set d" using Cons.prems kv by auto
  ultimately show ?case by (simp add: kv update_fresh)
qed

lemma fold_update_distinct [py_dict]:
  "distinct (map fst kvs) \<Longrightarrow> fold (\<lambda>(k, v) out. AList.update k v out) kvs [] = kvs"
  by (simp add: fold_update_fresh)

end
