(* ===== verification/Decide_Types.thy ===== *)
theory Decide_Types
  imports PyPrelude "HOL-Library.Sublist"
begin

text \<open>
  The typed questions and answers of \<open>src/fabri/decide/types.py\<close>: the validation a
  \<open>Question\<close> runs on construction, the values it allows, the redaction of error text, the
  \<open>Answer\<close> record and the even split of a request's token counts over its answers.
\<close>

section \<open>Redaction of error text\<close>

definition is_word :: "char \<Rightarrow> bool" where
  "is_word c = (let n = (of_char c :: nat) in
     (48 \<le> n \<and> n \<le> 57) \<or> (65 \<le> n \<and> n \<le> 90) \<or> n = 95 \<or> (97 \<le> n \<and> n \<le> 122)
     \<or> n \<in> {170, 178, 179, 181, 185, 186, 188, 189, 190}
     \<or> (192 \<le> n \<and> n \<noteq> 215 \<and> n \<noteq> 247))"

definition is_sk_char :: "char \<Rightarrow> bool" where
  "is_sk_char c = (let n = (of_char c :: nat) in
     (48 \<le> n \<and> n \<le> 57) \<or> (65 \<le> n \<and> n \<le> 90) \<or> (97 \<le> n \<and> n \<le> 122) \<or> n = 95 \<or> n = 45)"

definition is_bearer_char :: "char \<Rightarrow> bool" where
  "is_bearer_char c = (\<not> is_space c \<and> c \<noteq> CHR '','' \<and> c \<noteq> CHR '';'')"

text \<open>
  The length of the match of \<open>_SK_TOKEN\<close> (respectively \<open>_BEARER_TOKEN\<close>) at the head of the
  text; 0 when there is none.  After a word character, \<open>\\b\<close> fails.
\<close>

definition after_word :: "char option \<Rightarrow> bool" where
  "after_word prev = (case prev of None \<Rightarrow> False | Some c \<Rightarrow> is_word c)"

definition sk_match :: pattern where
  "sk_match prev s =
     (if \<not> after_word prev \<and> starts_with ''sk-'' s \<and> takeWhile is_sk_char (drop 3 s) \<noteq> []
      then 3 + length (takeWhile is_sk_char (drop 3 s)) else 0)"

definition bearer_match :: pattern where
  "bearer_match prev s =
     (let blanks = takeWhile is_space (drop 6 s);
          token = takeWhile is_bearer_char (dropWhile is_space (drop 6 s))
      in if \<not> after_word prev \<and> lower (take 6 s) = ''bearer'' \<and> blanks \<noteq> [] \<and> token \<noteq> []
         then 6 + length blanks + length token else 0)"

definition redact_secrets :: "string list \<Rightarrow> string \<Rightarrow> string" where
  "redact_secrets secrets text =
     fold (\<lambda>secret r. if secret \<noteq> [] then str_replace secret ''***'' r else r) secrets text"

definition sanitize :: "string \<Rightarrow> string list \<Rightarrow> string" where
  "sanitize text secrets =
     re_sub sk_match ''***'' None
       (re_sub bearer_match ''Bearer ***'' None (redact_secrets secrets text))"

section \<open>Questions\<close>

datatype qkind = Choice | Score | YesNo

record question =
  q_key :: string
  q_kind :: qkind
  q_instructions :: string
  q_options :: "(string \<times> pyval) list option"
  q_levels :: "string list option"

datatype question_error =
    QKeyEmpty
  | QUnknownKind pyval
  | QInstructionsEmpty
  | QNeedsOptions
  | QOptionBool bool
  | QOptionName pykey
  | QTooManyOptions nat
  | QLevelsMisplaced
  | QLevelCount
  | QLevelBool bool
  | QLevelName pyval
  | QLevelsNotUnique
  | QOptionsMisplaced
  | QYesNoOptions
  | QNotMapping

definition max_options :: nat where "max_options = 255"
definition min_levels :: nat where "min_levels = 2"
definition max_levels :: nat where "max_levels = 10"

definition parse_kind :: "pyval \<Rightarrow> qkind option" where
  "parse_kind v =
     (if v = VStr ''choice'' then Some Choice
      else if v = VStr ''score'' then Some Score
      else if v = VStr ''yesno'' then Some YesNo else None)"

definition check_option_name :: "pykey \<times> pyval \<Rightarrow> question_error + string \<times> pyval" where
  "check_option_name kv =
     (case fst kv of
        KBool b \<Rightarrow> Inl (QOptionBool b)
      | KStr s \<Rightarrow> if s = [] then Inl (QOptionName (KStr s)) else Inr (s, snd kv)
      | k \<Rightarrow> Inl (QOptionName k))"

definition check_level :: "pyval \<Rightarrow> question_error + string" where
  "check_level v =
     (case v of
        VBool b \<Rightarrow> Inl (QLevelBool b)
      | VStr s \<Rightarrow> if s = [] then Inl (QLevelName v) else Inr s
      | _ \<Rightarrow> Inl (QLevelName v))"

text \<open>The keys of an accepted yesno mapping are strings, so nothing is lost here.\<close>

fun str_items :: "pydict \<Rightarrow> (string \<times> pyval) list" where
  "str_items [] = []"
| "str_items ((KStr s, v) # d) = (s, v) # str_items d"
| "str_items (_ # d) = str_items d"

definition choice_fields ::
  "pyval \<Rightarrow> pyval \<Rightarrow> question_error + (string \<times> pyval) list option \<times> string list option" where
  "choice_fields options levels =
     (case options of
        VDict d \<Rightarrow>
          if d = [] then Inl QNeedsOptions
          else ebind (traverse check_option_name d) (\<lambda>items.
            if max_options < length d then Inl (QTooManyOptions (length d))
            else if levels \<noteq> VNone then Inl QLevelsMisplaced
            else Inr (Some items, None))
      | _ \<Rightarrow> Inl QNeedsOptions)"

definition score_fields ::
  "pyval \<Rightarrow> pyval \<Rightarrow> question_error + (string \<times> pyval) list option \<times> string list option" where
  "score_fields options levels =
     (case levels of
        VList ls \<Rightarrow>
          if \<not> (min_levels \<le> length ls \<and> length ls \<le> max_levels) then Inl QLevelCount
          else ebind (traverse check_level ls) (\<lambda>names.
            if \<not> distinct names then Inl QLevelsNotUnique
            else if options \<noteq> VNone then Inl QOptionsMisplaced
            else Inr (None, Some names))
      | _ \<Rightarrow> Inl QLevelCount)"

definition yesno_fields ::
  "pyval \<Rightarrow> pyval \<Rightarrow> question_error + (string \<times> pyval) list option \<times> string list option" where
  "yesno_fields options levels =
     ebind
       (case options of
          VNone \<Rightarrow> Inr None
        | VDict d \<Rightarrow>
            if \<exists>kv \<in> set d. fst kv \<notin> {KStr ''true'', KStr ''false''} then Inl QYesNoOptions
            else Inr (Some (str_items d))
        | _ \<Rightarrow> Inl QYesNoOptions)
       (\<lambda>opts. if levels \<noteq> VNone then Inl QLevelsMisplaced else Inr (opts, None))"

text \<open>\<open>Question(...)\<close> with the checks of \<open>__post_init__\<close>, in their order.\<close>

definition make_question ::
  "pyval \<Rightarrow> pyval \<Rightarrow> pyval \<Rightarrow> pyval \<Rightarrow> pyval \<Rightarrow> question_error + question" where
  "make_question key kind instructions options levels =
     (case key of
        VStr k \<Rightarrow>
          if k = [] then Inl QKeyEmpty
          else (case parse_kind kind of
             None \<Rightarrow> Inl (QUnknownKind kind)
           | Some kd \<Rightarrow>
               (case instructions of
                  VStr ins \<Rightarrow>
                    if strip ins = [] then Inl QInstructionsEmpty
                    else ebind
                      (case kd of
                         Choice \<Rightarrow> choice_fields options levels
                       | Score \<Rightarrow> score_fields options levels
                       | YesNo \<Rightarrow> yesno_fields options levels)
                      (\<lambda>(opts, lvls). Inr \<lparr>q_key = k, q_kind = kd, q_instructions = ins,
                                       q_options = opts, q_levels = lvls\<rparr>)
                | _ \<Rightarrow> Inl QInstructionsEmpty))
      | _ \<Rightarrow> Inl QKeyEmpty)"

definition side_key :: "pykey \<Rightarrow> string" where
  "side_key k = (case k of KBool b \<Rightarrow> if b then ''true'' else ''false'' | _ \<Rightarrow> key_str k)"

definition question_from_dict :: "string \<Rightarrow> pyval \<Rightarrow> question_error + question" where
  "question_from_dict key data =
     (case data of
        VDict d \<Rightarrow>
          (let options = dict_get d ''options'';
               options = (case options of
                   VDict o' \<Rightarrow>
                     if dict_get d ''kind'' = VStr ''yesno''
                     then VDict (fold (\<lambda>(k, v) out. AList.update (KStr (side_key k)) v out) o' [])
                     else VDict o'
                 | v \<Rightarrow> v)
           in make_question (VStr key) (dict_get d ''kind'')
                (dict_get_default d ''instructions'' (VStr '''')) options (dict_get d ''levels''))
      | _ \<Rightarrow> Inl QNotMapping)"

section \<open>Answers\<close>

datatype ansval = AStr string | ABool bool

datatype answer_source = Jev | LLM

record answer =
  a_key :: string
  a_kind :: qkind
  a_value :: "ansval option"
  a_probabilities :: "(string \<times> rat) list"
  a_confidence :: "rat option"
  a_source :: answer_source
  a_latency_ms :: rat
  a_input_tokens :: int
  a_output_tokens :: int
  a_cost_usd :: rat
  a_model :: string
  a_escalated :: bool
  a_error :: "string option"
  a_cost_known :: bool

text \<open>\<open>Answer(key, kind, value=None, source=source, error=err)\<close> with the other defaults.\<close>

definition blank_answer :: "question \<Rightarrow> answer_source \<Rightarrow> string option \<Rightarrow> answer" where
  "blank_answer q src err =
     \<lparr>a_key = q_key q, a_kind = q_kind q, a_value = None, a_probabilities = [],
      a_confidence = None, a_source = src, a_latency_ms = 0, a_input_tokens = 0,
      a_output_tokens = 0, a_cost_usd = 0, a_model = [], a_escalated = False,
      a_error = err, a_cost_known = True\<rparr>"

section \<open>Decision errors and the contract of a decider\<close>

datatype decide_error =
    JevNoKey string
  | JevRequestFailed string
  | JevHttp int bool string
  | JevBadJson
  | JevNoAnswers
  | JevUnparsable
  | LlmFailed string
  | CascadeFailed "decide_error option" decide_error
  | TreeNoAnswer string
  | TreeUnusable string "string option"
  | TreeNoBranch string ansval
  | TreeTooDeep

text \<open>What \<open>decide\<close> may raise: a \<open>DecideError\<close>, the \<open>ValueError\<close> on a repeated key, or the
  \<open>TypeError\<close> of a malformed schema.\<close>

datatype decide_exc = DecideErr decide_error | DuplicateKey string | SchemaRaised

type_synonym answers = "(string \<times> answer) list"

definition allowed_values :: "question \<Rightarrow> ansval list" where
  "allowed_values q =
     (case q_kind q of
        Choice \<Rightarrow> map (AStr \<circ> fst) (case q_options q of None \<Rightarrow> [] | Some d \<Rightarrow> d)
      | Score \<Rightarrow> map AStr (case q_levels q of None \<Rightarrow> [] | Some ls \<Rightarrow> ls)
      | YesNo \<Rightarrow> [ABool True, ABool False])"

text \<open>\<open>_side_key\<close> on an answer value.\<close>

fun value_key :: "ansval \<Rightarrow> string" where
  "value_key (AStr s) = s"
| "value_key (ABool b) = (if b then ''true'' else ''false'')"

definition split_evenly :: "int \<Rightarrow> nat \<Rightarrow> int list" where
  "split_evenly amount n =
     (let base = amount div int n; rem = amount mod int n
      in map (\<lambda>i. base + (if int i < rem then 1 else 0)) [0..<n])"

section \<open>Lemmas\<close>

subsection \<open>Redaction\<close>

lemma starts_with_iff: "starts_with p s \<longleftrightarrow> prefix p s"
  by (metis append_take_drop_id append_eq_conv_conj prefix_def starts_with_def)

lemma prefix_str_replace:
  assumes "CHR ''*'' \<notin> set p" and "old \<noteq> []"
  shows "prefix p (str_replace old ''***'' s) \<Longrightarrow> prefix p s"
  using assms
proof (induction old "''***''" s arbitrary: p rule: str_replace.induct)
  case (1 old s)
  show ?case
  proof (cases s)
    case Nil
    with 1 show ?thesis by simp
  next
    case (Cons c cs)
    with 1 show ?thesis
      by (cases p) (auto simp: str_replace_Cons split: if_splits)
  qed
qed

lemma str_replace_removes:
  assumes "CHR ''*'' \<notin> set old" and "old \<noteq> []"
  shows "\<not> sublist old (str_replace old ''***'' s)"
  using assms
proof (induction old "''***''" s rule: str_replace.induct)
  case (1 old s)
  let ?R = "str_replace old ''***''"
  have star: "\<not> sublist old (''***'' @ r)" if "\<not> sublist old r" for r
    using that "1.prems" by (cases old) (auto simp: sublist_Cons_right)
  show ?case
  proof (cases s)
    case Nil
    with 1 show ?thesis by simp
  next
    case s: (Cons c cs)
    show ?thesis
    proof (cases "starts_with old s")
      case True
      have "\<not> sublist old (?R (drop (length old) s))"
        using 1 s True by simp
      then show ?thesis
        using True s "1.prems" star by (simp add: str_replace_Cons)
    next
      case False
      have "\<not> prefix old (c # ?R cs)"
      proof
        assume "prefix old (c # ?R cs)"
        then have "prefix old (c # cs)"
          using prefix_str_replace[of "tl old" old cs] "1.prems"
          by (cases old) auto
        with False s show False by (simp add: starts_with_iff)
      qed
      moreover have "\<not> sublist old (?R cs)"
        using 1 s False by simp
      ultimately show ?thesis
        using False s "1.prems" by (simp add: str_replace_Cons sublist_Cons_right)
    qed
  qed
qed

lemma redact_secrets_snoc:
  "secret \<noteq> [] \<Longrightarrow>
   redact_secrets (secrets @ [secret]) text = str_replace secret ''***'' (redact_secrets secrets text)"
  by (simp add: redact_secrets_def)

text \<open>Where in a text does a pattern match?\<close>

fun has_match :: "pattern \<Rightarrow> char option \<Rightarrow> string \<Rightarrow> bool" where
  "has_match m pw [] = False"
| "has_match m pw (c # cs) = (0 < m pw (c # cs) \<or> has_match m (Some c) cs)"

lemma prefix_re_sub:
  assumes "CHR ''*'' \<notin> set p"
  shows "prefix p (re_sub m ''***'' pw s) \<Longrightarrow> prefix p s"
  using assms
proof (induction m "''***''" pw s arbitrary: p rule: re_sub.induct)
  case (1 m pw)
  then show ?case by simp
next
  case (2 m pw c cs)
  then show ?case
    by (cases p) (auto simp: re_sub.simps(2)[of m _ pw c cs] Let_def split: if_splits)
qed

lemma sk_match_iff:
  "0 < sk_match pw s \<longleftrightarrow> \<not> after_word pw \<and> (\<exists>x. is_sk_char x \<and> prefix (''sk-'' @ [x]) s)"
proof -
  have "takeWhile is_sk_char (drop 3 s) \<noteq> [] \<longleftrightarrow> (\<exists>x. is_sk_char x \<and> prefix (''sk-'' @ [x]) s)"
    if "prefix ''sk-'' s"
  proof -
    from that obtain r where "s = ''sk-'' @ r" by (auto simp: prefix_def)
    then show ?thesis by (cases r) auto
  qed
  moreover have "prefix (''sk-'' @ [x]) s \<Longrightarrow> prefix ''sk-'' s" for x
    by (rule append_prefixD)
  ultimately show ?thesis by (auto simp: sk_match_def starts_with_iff)
qed

lemma sk_match_stops:
  assumes "0 < sk_match pw s" and "drop (sk_match pw s) s = d # ds"
  shows "\<not> is_sk_char d"
proof -
  let ?t = "takeWhile is_sk_char (drop 3 s)"
  from assms(1) have "sk_match pw s = 3 + length ?t" by (auto simp: sk_match_def split: if_splits)
  then have "drop (sk_match pw s) s = drop (length ?t) (drop 3 s)" by (simp add: add.commute)
  also have "\<dots> = dropWhile is_sk_char (drop 3 s)" by (rule dropWhile_eq_drop[symmetric])
  finally show ?thesis using assms(2) by (metis hd_dropWhile list.distinct(1) list.sel(1))
qed

lemma has_match_flag:
  assumes "\<not> has_match sk_match pw r" and "r = [] \<or> \<not> is_sk_char (hd r)"
  shows "\<not> has_match sk_match pw' r"
proof (cases r)
  case (Cons c cs)
  have "\<not> prefix (''sk-'' @ [x]) r" for x
    using assms(2) Cons by (auto simp: is_sk_char_def)
  then show ?thesis using assms(1) Cons by (auto simp: sk_match_iff)
qed simp

lemma star_not_sk: "is_sk_char x \<Longrightarrow> CHR ''*'' \<noteq> x"
  by (auto simp: is_sk_char_def)

lemma re_sub_sk_clean: "\<not> has_match sk_match pw (re_sub sk_match ''***'' pw s)"
proof (induction sk_match "''***''" pw s rule: re_sub.induct)
  case (1 pw)
  then show ?case by simp
next
  case (2 pw c cs)
  let ?n = "sk_match pw (c # cs)"
  let ?R = "re_sub sk_match ''***''"
  show ?case
  proof (cases "0 < ?n")
    case True
    let ?w = "Some (last (take ?n (c # cs)))"
    let ?r = "?R ?w (drop ?n (c # cs))"
    have clean: "\<not> has_match sk_match ?w ?r" using 2 True by simp
    have "?r = [] \<or> \<not> is_sk_char (hd ?r)"
    proof (cases "drop ?n (c # cs)")
      case (Cons d ds)
      then have d: "\<not> is_sk_char d" using True sk_match_stops by blast
      then have "sk_match ?w (d # ds) = 0" by (auto simp: sk_match_def starts_with_def is_sk_char_def)
      then show ?thesis using d Cons by (simp add: re_sub.simps(2))
    qed simp
    then have "\<not> has_match sk_match (Some CHR ''*'') ?r" by (rule has_match_flag[OF clean])
    moreover have "sk_match b (CHR ''*'' # t) = 0" for b t by (simp add: sk_match_def starts_with_def)
    ultimately show ?thesis using True by (simp add: re_sub.simps(2) Let_def)
  next
    case False
    let ?r = "?R (Some c) cs"
    have "\<not> 0 < sk_match pw (c # ?r)"
    proof
      assume "0 < sk_match pw (c # ?r)"
      then obtain x where x: "\<not> after_word pw" "is_sk_char x" "prefix (''sk-'' @ [x]) (c # ?r)"
        by (auto simp: sk_match_iff)
      then have "prefix (''sk-'' @ [x]) (c # cs)"
        using prefix_re_sub[of "''k-'' @ [x]" sk_match "Some c" cs]
        by (auto dest: star_not_sk)
      with x False show False by (auto simp: sk_match_iff)
    qed
    moreover have "\<not> has_match sk_match (Some c) ?r" using 2 False by simp
    ultimately show ?thesis using False by (simp add: re_sub.simps(2))
  qed
qed

lemma sanitize_no_sk_token: "\<not> has_match sk_match None (sanitize text secrets)"
  unfolding sanitize_def by (rule re_sub_sk_clean)

subsection \<open>Token shares\<close>

lemma length_split_evenly [simp]: "length (split_evenly amount n) = n"
  by (simp add: split_evenly_def Let_def)

lemma sum_list_indicator: "(\<Sum>i\<leftarrow>[0..<n]. if int i < r then 1 else 0) = max 0 (min r (int n))"
  by (induction n) auto

lemma sum_split_evenly: "0 < n \<Longrightarrow> sum_list (split_evenly amount n) = amount"
proof -
  assume n: "0 < n"
  let ?r = "amount mod int n" and ?b = "amount div int n"
  have r: "0 \<le> ?r" "?r < int n" using n by simp_all
  have "sum_list (split_evenly amount n)
      = (\<Sum>i\<leftarrow>[0..<n]. ?b + (if int i < ?r then 1 else 0))"
    by (simp add: split_evenly_def Let_def)
  also have "\<dots> = (\<Sum>i\<leftarrow>[0..<n]. ?b) + (\<Sum>i\<leftarrow>[0..<n]. if int i < ?r then 1 else 0)"
    by (simp add: sum_list_addf)
  also have "\<dots> = int n * ?b + ?r"
    using r by (simp add: sum_list_indicator sum_list_triv)
  finally show ?thesis by simp
qed

lemma split_evenly_bounds:
  "i < n \<Longrightarrow> split_evenly amount n ! i \<in> {amount div int n, amount div int n + 1}"
  by (simp add: split_evenly_def Let_def)

subsection \<open>Well-formed questions\<close>

text \<open>What every later component may rely on.\<close>

definition wf_question :: "question \<Rightarrow> bool" where
  "wf_question q \<longleftrightarrow>
     q_key q \<noteq> [] \<and> strip (q_instructions q) \<noteq> [] \<and>
     (case q_kind q of
        Choice \<Rightarrow> (\<exists>d. q_options q = Some d \<and> 1 \<le> length d \<and> length d \<le> max_options
                      \<and> (\<forall>kv \<in> set d. fst kv \<noteq> [])) \<and> q_levels q = None
      | Score \<Rightarrow> (\<exists>ls. q_levels q = Some ls \<and> min_levels \<le> length ls \<and> length ls \<le> max_levels
                      \<and> distinct ls \<and> [] \<notin> set ls) \<and> q_options q = None
      | YesNo \<Rightarrow> (case q_options q of None \<Rightarrow> True
                      | Some d \<Rightarrow> fst ` set d \<subseteq> {''true'', ''false''}) \<and> q_levels q = None)"

lemma check_option_name_Inr:
  "check_option_name kv = Inr (s, v) \<longleftrightarrow> kv = (KStr s, v) \<and> s \<noteq> []"
  by (cases kv; cases "fst kv") (auto simp: check_option_name_def)

lemma check_level_Inr: "check_level v = Inr s \<longleftrightarrow> v = VStr s \<and> s \<noteq> []"
  by (cases v) (auto simp: check_level_def)

lemma traverse_option_names:
  "traverse check_option_name d = Inr items \<longleftrightarrow>
     d = map (\<lambda>(s, v). (KStr s, v)) items \<and> (\<forall>kv \<in> set items. fst kv \<noteq> [])"
proof (induction d arbitrary: items)
  case Nil
  then show ?case by auto
next
  case (Cons kv d)
  obtain k v where "kv = (k, v)" by fastforce
  then show ?case
    by (cases items) (auto simp: traverse_Cons_Inr Cons.IH check_option_name_Inr simp del: traverse.simps)
qed

lemma traverse_levels:
  "traverse check_level ls = Inr names \<longleftrightarrow> ls = map VStr names \<and> [] \<notin> set names"
proof (induction ls arbitrary: names)
  case Nil
  then show ?case by auto
next
  case (Cons l ls)
  show ?case
    by (cases names) (auto simp: traverse_Cons_Inr Cons.IH check_level_Inr simp del: traverse.simps)
qed

lemma str_items_sides:
  "(a, b) \<in> set (str_items d) \<Longrightarrow> \<forall>kv \<in> set d. fst kv = KStr ''true'' \<or> fst kv = KStr ''false'' \<Longrightarrow>
     a = ''true'' \<or> a = ''false''"
  by (induction d rule: str_items.induct) auto

lemma make_question_wf: "make_question k kd ins opts lvls = Inr q \<Longrightarrow> wf_question q"
  by (auto simp: make_question_def choice_fields_def score_fields_def yesno_fields_def wf_question_def
      traverse_option_names traverse_levels Suc_le_eq dest: str_items_sides
      split: pyval.splits if_splits option.splits qkind.splits)

lemma question_from_dict_wf: "question_from_dict k d = Inr q \<Longrightarrow> wf_question q"
  by (auto simp: question_from_dict_def Let_def dest!: make_question_wf split: pyval.splits)

lemma make_question_key: "make_question (VStr k) kd ins opts lvls = Inr q \<Longrightarrow> q_key q = k"
  by (auto simp: make_question_def split: if_splits option.splits pyval.splits)

lemma question_from_dict_key: "question_from_dict k d = Inr q \<Longrightarrow> q_key q = k"
  by (auto simp: question_from_dict_def Let_def dest!: make_question_key split: pyval.splits)

lemma wf_allowed_nonempty: "wf_question q \<Longrightarrow> allowed_values q \<noteq> []"
  by (auto simp: wf_question_def allowed_values_def min_levels_def split: qkind.splits)

lemma wf_allowed_typed:
  "wf_question q \<Longrightarrow> v \<in> set (allowed_values q) \<Longrightarrow> (\<exists>b. v = ABool b) \<longleftrightarrow> q_kind q = YesNo"
  by (auto simp: wf_question_def allowed_values_def split: qkind.splits)

lemma value_key_inj:
  "wf_question q \<Longrightarrow> inj_on value_key (set (allowed_values q))"
  by (cases "q_kind q") (auto simp: inj_on_def wf_question_def allowed_values_def)

subsection \<open>The contract of a decider\<close>

text \<open>
  \<open>Decider\<close> (the protocol of \<open>decide/types.py\<close>): when a call returns, every question of the
  call has an answer under its key, and the value of an answer is one the question allows.
\<close>

definition answers_question :: "question \<Rightarrow> answer \<Rightarrow> bool" where
  "answers_question q a \<longleftrightarrow>
     a_key a = q_key q \<and> (\<forall>v. a_value a = Some v \<longrightarrow> v \<in> set (allowed_values q))"

locale decider =
  fixes decide :: "pyval \<Rightarrow> question list \<Rightarrow> decide_exc + answers"
  assumes answered:
    "decide st qs = Inr ans \<Longrightarrow> distinct (map q_key qs) \<Longrightarrow> q \<in> set qs \<Longrightarrow>
       \<exists>a. map_of ans (q_key q) = Some a \<and> answers_question q a"
begin

lemma single_question:
  assumes "decide st [q] = Inr ans"
  obtains a where "map_of ans (q_key q) = Some a" "answers_question q a"
  using answered[OF assms, of q] by auto

lemma single_value_allowed:
  assumes "decide st [q] = Inr ans" and "map_of ans (q_key q) = Some a" and "a_value a = Some v"
  shows "v \<in> set (allowed_values q)"
  using single_question[OF assms(1)] assms(2,3) by (auto simp: answers_question_def)

end

lemma answered_list:
  assumes "list_all2 (\<lambda>q ka. fst ka = q_key q \<and> answers_question q (snd ka)) qs ans"
    and "distinct (map q_key qs)" and "q \<in> set qs"
  shows "\<exists>a. map_of ans (q_key q) = Some a \<and> answers_question q a"
proof -
  have "map fst ans = map q_key qs"
    using assms(1) by (induction rule: list_all2_induct) auto
  then have "distinct (map fst ans)" using assms(2) by simp
  moreover from assms(3) obtain i where i: "i < length qs" "q = qs ! i" by (auto simp: in_set_conv_nth)
  with assms(1) have "fst (ans ! i) = q_key q" "answers_question q (snd (ans ! i))"
    and "ans ! i \<in> set ans"
    by (auto simp: list_all2_conv_all_nth)
  ultimately show ?thesis by (metis map_of_is_SomeI prod.collapse)
qed

lemma answered_list_keys:
  "list_all2 (\<lambda>q ka. fst ka = q_key q \<and> answers_question q (snd ka)) qs ans \<Longrightarrow> map fst ans = map q_key qs"
  by (induction rule: list_all2_induct) auto

section \<open>Properties\<close>

lemma sublist_of_str_replace:
  assumes "CHR ''*'' \<notin> set p" and "old \<noteq> []"
  shows "sublist p (str_replace old ''***'' s) \<Longrightarrow> sublist p s"
  using assms
proof (induction old "''***''" s rule: str_replace.induct)
  case (1 old s)
  let ?R = "str_replace old ''***''"
  show ?case
  proof (cases s)
    case Nil
    with 1 show ?thesis by simp
  next
    case s: (Cons c cs)
    show ?thesis
    proof (cases "starts_with old s")
      case True
      have skip: "sublist p (''***'' @ r) \<Longrightarrow> sublist p r" for r
        using "1.prems"(2) by (cases p) (auto simp: sublist_Cons_right)
      from True s "1.prems" have "sublist p (''***'' @ ?R (drop (length old) s))"
        by (simp add: str_replace_Cons)
      then have "sublist p (drop (length old) s)" using 1 s True skip by simp
      then show ?thesis by (meson sublist_drop sublist_order.order_trans)
    next
      case False
      with s "1.prems" have "prefix p (c # ?R cs) \<or> sublist p (?R cs)"
        by (simp add: str_replace_Cons sublist_Cons_right)
      then show ?thesis
      proof
        assume "prefix p (c # ?R cs)"
        moreover have "?R s = c # ?R cs" using False s "1.prems" by (simp add: str_replace_Cons)
        ultimately have "prefix p s" using prefix_str_replace "1.prems" by metis
        then show ?thesis by (rule prefix_imp_sublist)
      next
        assume "sublist p (?R cs)"
        then show ?thesis using 1 s False by (simp add: sublist_Cons_right)
      qed
    qed
  qed
qed

lemma redact_secrets_sublist:
  "CHR ''*'' \<notin> set p \<Longrightarrow> sublist p (redact_secrets secrets msg) \<Longrightarrow> sublist p msg"
proof (induction secrets arbitrary: msg)
  case Nil
  then show ?case by (simp add: redact_secrets_def)
next
  case (Cons s ss)
  let ?m = "if s \<noteq> [] then str_replace s ''***'' msg else msg"
  have "redact_secrets (s # ss) msg = redact_secrets ss ?m" by (simp add: redact_secrets_def)
  with Cons have "sublist p ?m" by simp
  with Cons.prems(1) sublist_of_str_replace show ?case by (cases "s = []") simp_all
qed

lemma redact_secrets_removes:
  assumes "secret \<in> set secrets" and "secret \<noteq> []" and "CHR ''*'' \<notin> set secret"
  shows "\<not> sublist secret (redact_secrets secrets text)"
proof -
  from assms(1) obtain xs ys where "secrets = xs @ secret # ys" by (meson split_list)
  then have "redact_secrets secrets text
      = redact_secrets ys (str_replace secret ''***'' (redact_secrets xs text))"
    using assms(2) by (simp add: redact_secrets_def)
  then show ?thesis using assms str_replace_removes redact_secrets_sublist by metis
qed

text \<open>
  Every configured secret disappears from the text before it is shown, whatever the other
  secrets are (\<open>sanitize\<close>), and no API token of the form \<open>sk-...\<close> survives anywhere in the
  final text, not even one that the replacements put together.
\<close>

theorem sanitize_redacts:
  "(secret \<in> set secrets \<longrightarrow> secret \<noteq> [] \<longrightarrow> CHR ''*'' \<notin> set secret \<longrightarrow>
      \<not> sublist secret (redact_secrets secrets text))
   \<and> \<not> has_match sk_match None (sanitize text secrets)"
  using redact_secrets_removes sanitize_no_sk_token by blast

theorem sanitize_redacts_witness:
  "\<not> sublist ''abc'' (redact_secrets [''abc'', ''zz''] ''key abc zz'')"
  using sanitize_redacts[of "''abc''" "[''abc'', ''zz'']" "''key abc zz''"] by simp

text \<open>
  A question read from a mapping is well formed (\<open>Question.from_dict\<close>): a non-empty key
  and instructions, 1 to 255 named options for a choice, 2 to 10 distinct levels for a score;
  it has at least one allowed answer and its answers have distinct branch keys.
\<close>

theorem question_from_dict_valid:
  assumes "question_from_dict k d = Inr q"
  shows "q_key q = k \<and> wf_question q \<and> allowed_values q \<noteq> [] \<and> inj_on value_key (set (allowed_values q))"
  using assms question_from_dict_wf question_from_dict_key wf_allowed_nonempty value_key_inj by metis

theorem question_from_dict_valid_witness:
  "\<exists>q. question_from_dict ''go''
      (VDict [(KStr ''kind'', VStr ''yesno''), (KStr ''instructions'', VStr ''ok?'')]) = Inr q
    \<and> wf_question q"
proof -
  let ?d = "VDict [(KStr ''kind'', VStr ''yesno''), (KStr ''instructions'', VStr ''ok?'')]"
  have "\<not> isl (question_from_dict ''go'' ?d)" by code_simp
  then have "\<exists>q. question_from_dict ''go'' ?d = Inr q" by (cases "question_from_dict ''go'' ?d") simp_all
  then show ?thesis using question_from_dict_valid by blast
qed

text \<open>
  \<open>_split_evenly\<close> shares a token count out exactly: the shares add up to it and no two
  differ by more than one.
\<close>

theorem split_evenly_fair:
  assumes "0 < n"
  shows "sum_list (split_evenly amount n) = amount \<and> length (split_evenly amount n) = n
    \<and> (\<forall>x \<in> set (split_evenly amount n). \<forall>y \<in> set (split_evenly amount n). \<bar>x - y\<bar> \<le> 1)"
  using assms sum_split_evenly by (auto simp: split_evenly_def Let_def)

theorem split_evenly_fair_witness:
  "sum_list (split_evenly 10 3) = 10 \<and> split_evenly 10 3 = [4, 3, 3]"
  using split_evenly_fair[of 3 10] by (simp add: split_evenly_def upt_rec)

end
