(* ===== verification/Pricing.thy ===== *)
theory Pricing
  imports PyPrelude
begin

text \<open>
  Token accounting and pricing: the usage and response records of
  \<open>src/fabri/core/llm.py\<close> with the retry policy every backend shares, and the rate
  resolution and cost formula of \<open>src/fabri/pricing.py\<close>.  litellm's \<open>model_cost\<close> map is
  not part of the repository and is an argument (\<open>None\<close> when the package is absent);
  rates and costs are exact rationals.
\<close>

section \<open>Usage, tool calls and responses\<close>

record usage =
  u_input :: int
  u_output :: int
  u_cache_creation :: int
  u_cache_read :: int
  u_transient_retries :: int
  u_max_token_retries :: int
  u_model :: "string option"

definition empty_usage :: usage where
  "empty_usage = \<lparr>u_input = 0, u_output = 0, u_cache_creation = 0, u_cache_read = 0,
     u_transient_retries = 0, u_max_token_retries = 0, u_model = None\<rparr>"

record tool_call =
  tc_name :: string
  tc_args :: pydict
  tc_id :: "string option"

record llm_response =
  r_tool_calls :: "tool_call list"
  r_final_text :: "string option"
  r_stop_reason :: "string option"
  r_thinking_text :: "string option"
  r_usage :: "usage option"

text \<open>\<open>LLMResponse(...)\<close> with \<open>__post_init__\<close> folding a single call into the list.\<close>

definition make_response ::
  "tool_call option \<Rightarrow> tool_call list \<Rightarrow> string option \<Rightarrow> string option \<Rightarrow> string option \<Rightarrow>
   usage option \<Rightarrow> llm_response" where
  "make_response call calls final stop thinking usg =
     \<lparr>r_tool_calls = (case call of Some c \<Rightarrow> if calls = [] then [c] else calls | None \<Rightarrow> calls),
      r_final_text = final, r_stop_reason = stop, r_thinking_text = thinking, r_usage = usg\<rparr>"

section \<open>The shared retry policy\<close>

definition retry_cap :: "nat \<Rightarrow> nat \<Rightarrow> nat" where
  "retry_cap current cap_limit = min (current * 2) cap_limit"

definition non_cached :: "int \<Rightarrow> int \<Rightarrow> int" where
  "non_cached prompt cached = max 0 (prompt - cached)"

text \<open>
  One provider call: it returns, raises an error listed as transient, or raises another
  exception.  \<open>fn i\<close> is the outcome of the \<open>i\<close>-th attempt.
\<close>

datatype ('a, 'x) attempt = Returned 'a | Transient 'x | Raised 'x

datatype 'x retry_error = Exhausted nat "'x option" | Propagated 'x

text \<open>
  The result with the delays slept before each retry, in order (\<open>on_retry\<close> is called once
  per delay).
\<close>

fun retry_loop ::
  "(nat \<Rightarrow> ('a, 'x) attempt) \<Rightarrow> nat \<Rightarrow> rat \<Rightarrow> nat \<Rightarrow> nat \<Rightarrow> 'x option \<Rightarrow> rat list \<Rightarrow>
   ('x retry_error + 'a) \<times> rat list" where
  "retry_loop fn attempts base_delay i 0 final_error slept = (Inl (Exhausted attempts final_error), slept)"
| "retry_loop fn attempts base_delay i (Suc left) final_error slept =
     (case fn i of
        Returned x \<Rightarrow> (Inr x, slept)
      | Raised e \<Rightarrow> (Inl (Propagated e), slept)
      | Transient e \<Rightarrow>
          retry_loop fn attempts base_delay (Suc i) left (Some e)
            (if i + 1 < attempts then slept @ [base_delay * 2 ^ i] else slept))"

definition call_with_retry ::
  "(nat \<Rightarrow> ('a, 'x) attempt) \<Rightarrow> nat \<Rightarrow> rat \<Rightarrow> ('x retry_error + 'a) \<times> rat list" where
  "call_with_retry fn attempts base_delay = retry_loop fn attempts base_delay 0 attempts None []"

section \<open>Rates\<close>

type_synonym rates = "rat \<times> rat"

definition per_mtok :: rat where "per_mtok = 1000000"
definition cache_write_mult :: rat where "cache_write_mult = 5 / 4"
definition cache_read_mult :: rat where "cache_read_mult = 1 / 10"

definition pricing_table :: "(string \<times> rates) list" where
  "pricing_table =
     [(''claude-sonnet-4-6'', (3, 15)),
      (''claude-haiku-4-5'', (1, 5)),
      (''claude-opus-4-8'', (5, 25)),
      (''claude-opus-4-7'', (5, 25)),
      (''claude-opus-4-6'', (5, 25)),
      (''gpt-4o'', (5 / 2, 10)),
      (''gpt-4o-mini'', (3 / 20, 3 / 5)),
      (''gpt-5'', (5 / 4, 10)),
      (''gpt-5-mini'', (1 / 4, 2)),
      (''gpt-5-nano'', (1 / 20, 2 / 5)),
      (''gpt-5.1'', (5 / 4, 10)),
      (''gpt-5.2'', (7 / 4, 14)),
      (''gpt-5.4'', (5 / 2, 15)),
      (''gpt-5.4-mini'', (3 / 4, 9 / 2)),
      (''gpt-5.4-nano'', (1 / 5, 5 / 4)),
      (''gpt-5.5'', (5, 30)),
      (''gpt-5.5-pro'', (30, 180)),
      (''gpt-5.6-terra'', (5 / 2, 15)),
      (''gpt-5.6-luna'', (1, 6)),
      (''gpt-5.6-sol'', (5, 30)),
      (''anthropic/claude-haiku-4-5'', (1, 5)),
      (''anthropic/claude-sonnet-4-6'', (3, 15)),
      (''anthropic/claude-opus-4-8'', (5, 25)),
      (''openai/gpt-4o'', (5 / 2, 10)),
      (''openai/gpt-4o-mini'', (3 / 20, 3 / 5)),
      (''gemini-2.5-pro'', (5 / 4, 10)),
      (''gemini-2.5-flash'', (3 / 10, 5 / 2)),
      (''gemini-2.5-flash-lite'', (1 / 10, 2 / 5)),
      (''gemini-2.0-flash'', (1 / 10, 2 / 5)),
      (''anthropic.claude-3-5-sonnet'', (3, 15)),
      (''us.anthropic.claude-3-5-sonnet'', (3, 15)),
      (''anthropic.claude-3-5-haiku'', (4 / 5, 4)),
      (''us.anthropic.claude-3-5-haiku'', (4 / 5, 4)),
      (''openai.gpt-oss-120b'', (3 / 20, 3 / 5)),
      (''openai.gpt-oss-20b'', (7 / 100, 3 / 10)),
      (''moonshot.kimi-k2-thinking'', (3 / 5, 5 / 2)),
      (''moonshotai.kimi-k2.5'', (3 / 5, 3)),
      (''jev-1.13.0'', (21 / 500, 0)),
      (''jev-1.14.0'', (21 / 500, 0)),
      (''typesafe/jev-1.13'', (21 / 500, 0)),
      (''typesafe/jev-1.14'', (21 / 500, 0))]"

definition best_prefix_key :: "string \<Rightarrow> string list \<Rightarrow> string option" where
  "best_prefix_key model keys =
     fold (\<lambda>key best.
        if starts_with key model \<and> (case best of None \<Rightarrow> True | Some b \<Rightarrow> length b < length key)
        then Some key else best) keys None"

definition litellm_rates_for ::
  "(string \<times> (rat option \<times> rat option)) list option \<Rightarrow> string \<Rightarrow> rates option" where
  "litellm_rates_for litellm model =
     (case litellm of
        None \<Rightarrow> None
      | Some cost_map \<Rightarrow>
          if cost_map = [] then None
          else (let key = (if model \<in> fst ` set cost_map then Some model
                           else best_prefix_key model (map fst cost_map))
            in case key of
                 None \<Rightarrow> None
               | Some k \<Rightarrow>
                   (case map_of cost_map k of
                      Some (Some in_cost, Some out_cost) \<Rightarrow>
                        Some (in_cost * per_mtok, out_cost * per_mtok)
                    | _ \<Rightarrow> None)))"

definition rates_for ::
  "(string \<times> (rat option \<times> rat option)) list option \<Rightarrow> string option \<Rightarrow> rates option" where
  "rates_for litellm model_opt =
     (case model_opt of
        None \<Rightarrow> None
      | Some model \<Rightarrow>
          if model = [] then None
          else (case litellm_rates_for litellm model of
              Some r \<Rightarrow> Some r
            | None \<Rightarrow>
                (case map_of pricing_table model of
                   Some r \<Rightarrow> Some r
                 | None \<Rightarrow>
                     (case best_prefix_key model (map fst pricing_table) of
                        None \<Rightarrow> None
                      | Some k \<Rightarrow> if k = [] then None else map_of pricing_table k))))"

text \<open>\<open>round(x, 6)\<close>: to the nearest millionth, halves to even.\<close>

definition round6 :: "rat \<Rightarrow> rat" where
  "round6 x =
     (let y = x * 1000000; f = floor y; d = y - of_int f
      in of_int (if d < 1 / 2 then f else if d > 1 / 2 then f + 1
                 else if even f then f else f + 1) / 1000000)"

definition cost_for ::
  "(string \<times> (rat option \<times> rat option)) list option \<Rightarrow> usage \<Rightarrow> rat option" where
  "cost_for litellm u =
     (case rates_for litellm (u_model u) of
        None \<Rightarrow> None
      | Some (in_rate, out_rate) \<Rightarrow>
          Some (round6
            ((of_int (u_input u) * in_rate
              + of_int (u_output u) * out_rate
              + of_int (u_cache_creation u) * in_rate * cache_write_mult
              + of_int (u_cache_read u) * in_rate * cache_read_mult) / per_mtok)))"

section \<open>Lemmas\<close>

subsection \<open>Retries\<close>

lemma retry_loop_all_transient:
  assumes "\<And>j. i \<le> j \<Longrightarrow> j < i + left \<Longrightarrow> fn j = Transient (err j)" and "i + left = attempts"
  shows "retry_loop fn attempts base i left le slept =
     (Inl (Exhausted attempts (if left = 0 then le else Some (err (attempts - 1)))),
      slept @ map (\<lambda>j. base * 2 ^ j) [i..<attempts - 1])"
  using assms
proof (induction left arbitrary: i le slept)
  case 0
  then show ?case by simp
next
  case (Suc left)
  have "fn i = Transient (err i)" using Suc.prems(1)[of i] by simp
  moreover have "retry_loop fn attempts base (Suc i) left (Some (err i)) sl =
     (Inl (Exhausted attempts (if left = 0 then Some (err i) else Some (err (attempts - 1)))),
      sl @ map (\<lambda>j. base * 2 ^ j) [Suc i..<attempts - 1])" for sl
    by (rule Suc.IH) (use Suc.prems in auto)
  ultimately show ?case
    using Suc.prems(2) by (auto simp: upt_rec[of i "i + left"])
qed

lemma retry_loop_first_success:
  assumes "\<And>j. i \<le> j \<Longrightarrow> j < k \<Longrightarrow> fn j = Transient (err j)" and "fn k = Returned x"
    and "i \<le> k" and "k < i + left" and "i + left \<le> attempts"
  shows "retry_loop fn attempts base i left le slept = (Inr x, slept @ map (\<lambda>j. base * 2 ^ j) [i..<k])"
  using assms
proof (induction left arbitrary: i le slept)
  case 0
  then show ?case by simp
next
  case (Suc left)
  show ?case
  proof (cases "i = k")
    case True
    then show ?thesis using Suc.prems by simp
  next
    case False
    then have "fn i = Transient (err i)" "Suc i \<le> k" using Suc.prems by auto
    moreover have "retry_loop fn attempts base (Suc i) left (Some (err i)) sl =
        (Inr x, sl @ map (\<lambda>j. base * 2 ^ j) [Suc i..<k])" for sl
      by (rule Suc.IH) (use Suc.prems False in auto)
    ultimately show ?thesis using Suc.prems by (simp add: upt_conv_Cons)
  qed
qed

subsection \<open>Rates\<close>

definition prefix_step :: "string \<Rightarrow> string \<Rightarrow> string option \<Rightarrow> string option" where
  "prefix_step model key best =
     (if starts_with key model \<and> (case best of None \<Rightarrow> True | Some b \<Rightarrow> length b < length key)
      then Some key else best)"

lemma best_prefix_key_step: "best_prefix_key model keys = fold (prefix_step model) keys None"
  by (simp add: best_prefix_key_def prefix_step_def[abs_def])

lemma fold_prefix_step_Some:
  "fold (prefix_step model) keys best = Some k \<Longrightarrow>
     (k \<in> set keys \<and> starts_with k model \<or> best = Some k)
     \<and> (\<forall>k' \<in> set keys. starts_with k' model \<longrightarrow> length k' \<le> length k)
     \<and> (\<forall>b. best = Some b \<longrightarrow> length b \<le> length k)"
proof (induction keys arbitrary: best)
  case Nil
  then show ?case by simp
next
  case (Cons a keys)
  then have "fold (prefix_step model) keys (prefix_step model a best) = Some k" by simp
  from Cons.IH[OF this] show ?case
    by (auto simp: prefix_step_def split: if_splits option.splits)
qed

lemma fold_prefix_step_None:
  "fold (prefix_step model) keys best = None \<longleftrightarrow>
     best = None \<and> (\<forall>k \<in> set keys. \<not> starts_with k model)"
  by (induction keys arbitrary: best) (auto simp: prefix_step_def split: option.splits)

lemma best_prefix_key_Some:
  assumes "best_prefix_key model keys = Some k"
  shows "k \<in> set keys" "starts_with k model"
    "\<And>k'. k' \<in> set keys \<Longrightarrow> starts_with k' model \<Longrightarrow> length k' \<le> length k"
  using fold_prefix_step_Some[of model keys None k] assms
  by (auto simp: best_prefix_key_step)

lemma best_prefix_key_None:
  "best_prefix_key model keys = None \<longleftrightarrow> (\<forall>k \<in> set keys. \<not> starts_with k model)"
  by (simp add: best_prefix_key_step fold_prefix_step_None)

lemma pricing_table_nonneg: "(k, r) \<in> set pricing_table \<Longrightarrow> 0 \<le> fst r \<and> 0 \<le> snd r"
  by (auto simp: pricing_table_def)

lemma round6_error: "\<bar>round6 x - x\<bar> \<le> 1 / 2000000"
proof -
  define y where "y = x * 1000000"
  define f where "f = floor y"
  have d: "0 \<le> y - of_int f" "y - of_int f < 1"
    unfolding f_def by linarith+
  have "\<bar>round6 x * 1000000 - y\<bar> \<le> 1 / 2"
    using d unfolding round6_def Let_def y_def[symmetric] f_def[symmetric]
    by (auto simp: abs_if)
  then show ?thesis unfolding y_def by (auto simp: abs_if field_simps split: if_splits)
qed

lemma round6_nonneg: "0 \<le> x \<Longrightarrow> 0 \<le> round6 x"
  by (auto simp: round6_def Let_def)

section \<open>Properties\<close>

text \<open>
  \<open>_call_with_retry\<close> returns the first result that is not a transient failure, after
  waiting \<open>base\<close>, \<open>2 * base\<close>, \<open>4 * base\<close>, ... before each retry.
\<close>

theorem call_with_retry_succeeds:
  assumes "\<And>j. j < k \<Longrightarrow> fn j = Transient (err j)" and "fn k = Returned x" and "k < attempts"
  shows "call_with_retry fn attempts base = (Inr x, map (\<lambda>j. base * 2 ^ j) [0..<k])"
  using retry_loop_first_success[of 0 k fn err x attempts attempts base None "[]"] assms
  by (simp add: call_with_retry_def)

theorem call_with_retry_succeeds_witness:
  "call_with_retry (\<lambda>j. if j < 2 then Transient ''busy'' else Returned True) 4 (1 / 2)
     = (Inr True, [1 / 2, 1])"
proof -
  have "call_with_retry (\<lambda>j. if j < 2 then Transient ''busy'' else Returned True) 4 (1 / 2)
     = (Inr True, map (\<lambda>j. 1 / 2 * 2 ^ j) [0..<2])"
    by (rule call_with_retry_succeeds[where err = "\<lambda>_. ''busy''"]) auto
  then show ?thesis by (simp add: upt_rec)
qed

text \<open>
  When every attempt fails transiently, \<open>_call_with_retry\<close> gives up after exactly
  \<open>attempts\<close> calls with the last error, and never waits after the last one.
\<close>

theorem call_with_retry_exhausts:
  assumes "\<And>j. j < attempts \<Longrightarrow> fn j = Transient (err j)" and "0 < attempts"
  shows "call_with_retry fn attempts base =
     (Inl (Exhausted attempts (Some (err (attempts - 1)))), map (\<lambda>j. base * 2 ^ j) [0..<attempts - 1])"
  using retry_loop_all_transient[of 0 attempts fn err attempts base None "[]"] assms
  by (simp add: call_with_retry_def)

theorem call_with_retry_exhausts_witness:
  "fst (call_with_retry (\<lambda>_. Transient ''busy'' :: (bool, string) attempt) 3 1) = Inl (Exhausted 3 (Some ''busy''))"
  using call_with_retry_exhausts[of 3 "\<lambda>_. Transient ''busy'' :: (bool, string) attempt" "\<lambda>_. ''busy''" 1]
  by simp

text \<open>
  \<open>_best_prefix_key\<close> picks a longest key that is a prefix of the model name, and finds
  none only when there is none; the rates of the built-in table are never negative.
\<close>

theorem best_prefix_key_longest:
  "(case best_prefix_key model keys of
      Some k \<Rightarrow> k \<in> set keys \<and> starts_with k model
        \<and> (\<forall>k' \<in> set keys. starts_with k' model \<longrightarrow> length k' \<le> length k)
    | None \<Rightarrow> (\<forall>k \<in> set keys. \<not> starts_with k model))
   \<and> (\<forall>(k, i, j) \<in> set pricing_table. 0 \<le> i \<and> 0 \<le> j)"
proof -
  have "\<forall>(k, i, j) \<in> set pricing_table. 0 \<le> i \<and> 0 \<le> j" using pricing_table_nonneg by auto
  then show ?thesis
    using best_prefix_key_None[of model keys]
    by (cases "best_prefix_key model keys") (auto dest: best_prefix_key_Some)
qed

theorem best_prefix_key_longest_witness:
  "best_prefix_key ''gpt-4o-mini-x'' [''gpt-4o'', ''gpt-4o-mini''] = Some ''gpt-4o-mini''
   \<and> starts_with ''gpt-4o-mini'' ''gpt-4o-mini-x'' \<and> length ''gpt-4o'' \<le> length ''gpt-4o-mini''"
proof -
  have b: "best_prefix_key ''gpt-4o-mini-x'' [''gpt-4o'', ''gpt-4o-mini''] = Some ''gpt-4o-mini''"
    by code_simp
  show ?thesis
    using best_prefix_key_longest[where model = "''gpt-4o-mini-x''" and keys = "[''gpt-4o'', ''gpt-4o-mini'']"] b
    by simp
qed

end
