(* ===== verification/Decide_Jev.thy ===== *)
theory Decide_Jev
  imports Decide_Types Pricing
begin

text \<open>
  The Jev decider of \<open>src/fabri/decide/jev.py\<close>: the request it sends, the retry of one
  HTTP attempt, the validation of a wire answer and the accounting of a call.  The HTTP
  transport, the JSON parser, the environment, the clock and the wording of messages are
  arguments, gathered in \<open>jev_world\<close>.  A malformed answer is an \<open>answer\<close> with an error;
  the one exception the parser does not catch (\<open>float()\<close> of an integer beyond the float
  range raises \<open>OverflowError\<close>) is the \<open>Inl\<close> branch.
\<close>

section \<open>Errors\<close>

datatype jev_fault =
    FMissing
  | FNotAllowed pyval
  | FKeyError string
  | FNotNumber string pyval
  | FOutOfRange string pyval
  | FProbsNotObject pyval
  | FLegendNotObject pyval
  | FLegendOrder
  | FUnknownLabels nat
  | FIncomplete
  | FNotNormalized
  | FNotMostProbable

text \<open>Raised inside the parser: caught and reported in the answer, or an \<open>OverflowError\<close>.\<close>

datatype parse_exc = Caught jev_fault | FloatOverflow

section \<open>Numbers\<close>

definition float_of_num :: "pyval \<Rightarrow> parse_exc + pyfloat option" where
  "float_of_num v =
     (case v of
        VInt i \<Rightarrow> if float_limit \<le> \<bar>i\<bar> then Inl FloatOverflow else Inr (Some (Fin (of_int i)))
      | VFloat f \<Rightarrow> Inr (Some f)
      | _ \<Rightarrow> Inr None)"

definition prob_tolerance :: rat where "prob_tolerance = 1 / 1000000000"

definition probability :: "pyval \<Rightarrow> string \<Rightarrow> parse_exc + rat" where
  "probability x what =
     ebind (float_of_num x) (\<lambda>f. case f of
        None \<Rightarrow> Inl (Caught (FNotNumber what x))
      | Some (Fin p) \<Rightarrow>
          if p < - prob_tolerance \<or> 1 + prob_tolerance < p then Inl (Caught (FOutOfRange what x))
          else Inr (min 1 (max 0 p))
      | Some _ \<Rightarrow> Inl (Caught (FOutOfRange what x)))"

definition normalized_confidence :: "rat option \<Rightarrow> nat \<Rightarrow> rat option" where
  "normalized_confidence p_max n =
     (case p_max of
        None \<Rightarrow> None
      | Some p \<Rightarrow>
          if n = 1 then Some 1
          else Some (min 1 (max 0 ((p - 1 / of_nat n) / (1 - 1 / of_nat n)))))"

definition tokens :: "pyval \<Rightarrow> int option \<Rightarrow> int option" where
  "tokens x dflt =
     (case x of
        VInt i \<Rightarrow> if 0 \<le> i then Some i else dflt
      | VFloat (Fin r) \<Rightarrow> if 0 \<le> r \<and> r = of_int (floor r) then Some (floor r) else dflt
      | _ \<Rightarrow> dflt)"

section \<open>Probability maps\<close>

definition level_index :: "pykey \<Rightarrow> nat \<Rightarrow> nat option" where
  "level_index label count =
     (let ranged = (\<lambda>i. if 0 \<le> i \<and> i < int count then Some (nat i) else None) in
      case label of
        KInt i \<Rightarrow> ranged i
      | KStr s \<Rightarrow> if s \<noteq> [] \<and> list_all is_digit_char s then ranged (int (read_nat s)) else None
      | _ \<Rightarrow> None)"

definition validate_distribution ::
  "(string \<times> rat) list \<Rightarrow> string set \<Rightarrow> parse_exc + (string \<times> rat) list" where
  "validate_distribution probs labels =
     (let s = sum_list (map snd probs) in
      if \<not> labels \<subseteq> fst ` set probs \<and> 1 / 1000000 < \<bar>s - 1\<bar> then Inl (Caught FIncomplete)
      else if 1 / 50 < \<bar>s - 1\<bar> then Inl (Caught FNotNormalized)
      else Inr probs)"

text \<open>The keys of a JSON object are strings, so the label comparison is on strings.\<close>

definition choice_probabilities ::
  "pydict \<Rightarrow> string list \<Rightarrow> parse_exc + (string \<times> rat) list" where
  "choice_probabilities raw_probs allowed =
     (let unknown = length (filter (\<lambda>kv. fst kv \<notin> KStr ` set allowed) raw_probs) in
      if 0 < unknown then Inl (Caught (FUnknownLabels unknown))
      else ebind (traverse (\<lambda>(k, v). ebind (probability v ''probability'') (\<lambda>p. Inr (key_str k, p))) raw_probs)
        (\<lambda>probs. validate_distribution probs (set allowed)))"

definition legend_step :: "string list \<Rightarrow> nat \<Rightarrow> pykey \<times> pyval \<Rightarrow> parse_exc + nat" where
  "legend_step levels unknown kv =
     (case level_index (fst kv) (length levels) of
        None \<Rightarrow> Inr (unknown + 1)
      | Some i \<Rightarrow>
          if snd kv \<notin> VStr ` set levels then Inr (unknown + 1)
          else if VStr (levels ! i) \<noteq> snd kv then Inl (Caught FLegendOrder)
          else Inr unknown)"

definition score_step ::
  "string list \<Rightarrow> nat \<times> (string \<times> rat) list \<Rightarrow> pykey \<times> pyval
     \<Rightarrow> parse_exc + nat \<times> (string \<times> rat) list" where
  "score_step levels st kv =
     (case level_index (fst kv) (length levels) of
        None \<Rightarrow> Inr (fst st + 1, snd st)
      | Some i \<Rightarrow>
          if levels ! i \<in> fst ` set (snd st) then Inr (fst st + 1, snd st)
          else ebind (probability (snd kv) ''probability'')
            (\<lambda>p. Inr (fst st, snd st @ [(levels ! i, p)])))"

definition score_probabilities ::
  "pydict \<Rightarrow> pyval \<Rightarrow> string list \<Rightarrow> parse_exc + (string \<times> rat) list" where
  "score_probabilities raw_probs raw_legend levels =
     ebind
       (case raw_legend of
          VNone \<Rightarrow> Inr 0
        | VDict legend \<Rightarrow> efold (legend_step levels) 0 legend
        | _ \<Rightarrow> Inl (Caught (FLegendNotObject raw_legend)))
       (\<lambda>unknown. ebind (efold (score_step levels) (unknown, []) raw_probs)
         (\<lambda>(unknown, probs).
            if 0 < unknown then Inl (Caught (FUnknownLabels unknown))
            else validate_distribution probs (set levels)))"

text \<open>\<open>max(probs, key=probs.__getitem__)\<close>: the first label of largest probability.\<close>

fun argmax :: "(string \<times> rat) list \<Rightarrow> (string \<times> rat) option" where
  "argmax [] = None"
| "argmax (x # xs) =
     (case argmax xs of None \<Rightarrow> Some x | Some y \<Rightarrow> if snd x < snd y then Some y else Some x)"

section \<open>One wire answer\<close>

definition yesno_answer :: "question \<Rightarrow> pydict \<Rightarrow> parse_exc + answer" where
  "yesno_answer q raw =
     (case dict_lookup raw ''noul'' of
        None \<Rightarrow> Inl (Caught (FKeyError ''noul''))
      | Some v \<Rightarrow> ebind (probability v ''noul'') (\<lambda>p.
          Inr ((blank_answer q Jev None)
            \<lparr>a_value := Some (ABool (1 / 2 \<le> p)),
             a_probabilities := [(''true'', p), (''false'', 1 - p)],
             a_confidence := Some \<bar>2 * p - 1\<bar>\<rparr>)))"

text \<open>The checks shared by choice and score once the value and its map are known.\<close>

definition checked_answer ::
  "question \<Rightarrow> pydict \<Rightarrow> string \<Rightarrow> (string \<times> rat) list \<Rightarrow> parse_exc + answer" where
  "checked_answer q raw value probs =
     (case map_of probs value of
        None \<Rightarrow> Inl (Caught (FKeyError value))
      | Some p \<Rightarrow>
          if argmax probs \<noteq> None \<and> p \<noteq> snd (the (argmax probs)) then Inl (Caught FNotMostProbable)
          else ebind
            (if dict_get raw ''confidence'' \<noteq> VNone
             then ebind (probability (dict_get raw ''confidence'') ''confidence'') (\<lambda>c. Inr (Some c))
             else Inr (normalized_confidence (Some p) (length (allowed_values q))))
            (\<lambda>conf. Inr ((blank_answer q Jev None)
               \<lparr>a_value := Some (AStr value), a_probabilities := probs, a_confidence := conf\<rparr>)))"

definition score_answer :: "question \<Rightarrow> pydict \<Rightarrow> parse_exc + answer" where
  "score_answer q raw =
     (let levels = (case q_levels q of None \<Rightarrow> [] | Some ls \<Rightarrow> ls) in
      case dict_get raw ''probabilities'' of
        VDict raw_probs \<Rightarrow>
          ebind (score_probabilities raw_probs (dict_get raw ''legend'') levels) (\<lambda>probs.
            case argmax probs of
              None \<Rightarrow> Inl (Caught FIncomplete)
            | Some (value, _) \<Rightarrow>
                if value \<notin> set levels then Inl (Caught (FNotAllowed (VStr value)))
                else checked_answer q raw value probs)
      | v \<Rightarrow> Inl (Caught (FProbsNotObject v)))"

definition choice_answer :: "question \<Rightarrow> pydict \<Rightarrow> parse_exc + answer" where
  "choice_answer q raw =
     (let names = map fst (case q_options q of None \<Rightarrow> [] | Some d \<Rightarrow> d) in
      case dict_lookup raw ''choice'' of
        None \<Rightarrow> Inl (Caught (FKeyError ''choice''))
      | Some (VStr value) \<Rightarrow>
          if value \<notin> set names then Inl (Caught (FNotAllowed (VStr value)))
          else (case dict_get raw ''probabilities'' of
              VDict raw_probs \<Rightarrow>
                ebind (choice_probabilities raw_probs names) (\<lambda>probs. checked_answer q raw value probs)
            | v \<Rightarrow> Inl (Caught (FProbsNotObject v)))
      | Some v \<Rightarrow> Inl (Caught (FNotAllowed v)))"

text \<open>
  \<open>_parse_answer\<close>: every caught fault becomes an answer without value, probabilities or
  confidence that carries the message.
\<close>

definition parse_answer :: "(jev_fault \<Rightarrow> string) \<Rightarrow> question \<Rightarrow> pyval option \<Rightarrow> unit + answer" where
  "parse_answer render q raw =
     (case raw of
        Some (VDict d) \<Rightarrow>
          (case (case q_kind q of YesNo \<Rightarrow> yesno_answer q d | Score \<Rightarrow> score_answer q d
                 | Choice \<Rightarrow> choice_answer q d) of
             Inr a \<Rightarrow> Inr a
           | Inl (Caught f) \<Rightarrow> Inr (blank_answer q Jev (Some (render f)))
           | Inl FloatOverflow \<Rightarrow> Inl ())
      | _ \<Rightarrow> Inr (blank_answer q Jev (Some (render FMissing))))"

section \<open>One call\<close>

record jev_world =
  w_env :: "string \<Rightarrow> string option"
  w_send :: "pydict \<Rightarrow> string \<Rightarrow> nat \<Rightarrow> string + int \<times> string"
  w_loads :: "string \<Rightarrow> pyval option"
  w_latency_ms :: rat
  w_str :: "pyval \<Rightarrow> string"
  w_render :: "jev_fault \<Rightarrow> string"
  w_litellm :: "(string \<times> (rat option \<times> rat option)) list option"

record jev_config =
  j_model :: string
  j_api_key_env :: string

definition call_cost ::
  "(string \<times> (rat option \<times> rat option)) list option \<Rightarrow> pydict \<Rightarrow> int \<Rightarrow> int \<Rightarrow> string \<Rightarrow> string
     \<Rightarrow> bool \<Rightarrow> unit + rat \<times> bool" where
  "call_cost litellm usage in_tok out_tok model requested tokens_ok =
     (case float_of_num (dict_get usage ''cost'') of
        Inl _ \<Rightarrow> Inl ()
      | Inr reported \<Rightarrow>
          (case (case reported of Some (Fin c) \<Rightarrow> if 0 \<le> c then Some c else None | _ \<Rightarrow> None) of
             Some c \<Rightarrow> Inr (c, True)
           | None \<Rightarrow>
               if \<not> tokens_ok then Inr (0, False)
               else (let priced = (\<lambda>m. cost_for litellm
                         (empty_usage\<lparr>u_input := in_tok, u_output := out_tok, u_model := Some m\<rparr>))
                     in case priced model of
                          Some c \<Rightarrow> Inr (c, True)
                        | None \<Rightarrow>
                            (case priced requested of
                               Some c \<Rightarrow> Inr (c, True)
                             | None \<Rightarrow> Inr (0, False)))))"

definition wire_type :: "qkind \<Rightarrow> string" where
  "wire_type k = (case k of Choice \<Rightarrow> ''choice'' | Score \<Rightarrow> ''score'' | YesNo \<Rightarrow> ''noul'')"

definition wire_entry :: "question \<Rightarrow> pydict" where
  "wire_entry q =
     [(KStr ''type'', VStr (wire_type (q_kind q))), (KStr ''instructions'', VStr (q_instructions q))] @
     (let opts = (case q_options q of None \<Rightarrow> [] | Some d \<Rightarrow> map (\<lambda>(k, v). (KStr k, v)) d) in
      case q_kind q of
        Choice \<Rightarrow> [(KStr ''criteria'', VDict opts)]
      | Score \<Rightarrow> [(KStr ''criteria'', VList (map VStr (case q_levels q of None \<Rightarrow> [] | Some ls \<Rightarrow> ls)))]
      | YesNo \<Rightarrow> if opts \<noteq> [] then [(KStr ''criteria'', VDict opts)] else [])"

definition build_request :: "jev_config \<Rightarrow> pyval \<Rightarrow> question list \<Rightarrow> pydict" where
  "build_request cfg state questions =
     [(KStr ''model'', VStr (j_model cfg)), (KStr ''state'', state),
      (KStr ''questions'',
         VDict (fold (\<lambda>q w. AList.update (KStr (q_key q)) (VDict (wire_entry q)) w) questions []))]"

text \<open>\<open>_check_unique_keys\<close>: the first key seen twice.\<close>

fun first_duplicate :: "string list \<Rightarrow> string set \<Rightarrow> string option" where
  "first_duplicate [] seen = None"
| "first_duplicate (k # ks) seen = (if k \<in> seen then Some k else first_duplicate ks (insert k seen))"

text \<open>The two HTTP attempts of \<open>_post\<close>, and the shape check of the payload.\<close>

definition retryable :: "int \<Rightarrow> bool" where
  "retryable status \<longleftrightarrow> status = 429 \<or> 500 \<le> status"

fun post_attempts ::
  "(nat \<Rightarrow> string + int \<times> string) \<Rightarrow> string \<Rightarrow> nat list \<Rightarrow> decide_error + string" where
  "post_attempts send key [] = Inl JevBadJson"
| "post_attempts send key (attempt # later) =
     (case send attempt of
        Inl text \<Rightarrow> Inl (JevRequestFailed (sanitize text [key]))
      | Inr (status, raw) \<Rightarrow>
          if 200 \<le> status \<and> status < 300 then Inr raw
          else if attempt = 1 \<and> retryable status then post_attempts send key later
          else Inl (JevHttp status (status \<in> {401, 403}) (sanitize (take 200 raw) [key])))"

definition post ::
  "(nat \<Rightarrow> string + int \<times> string) \<Rightarrow> (string \<Rightarrow> pyval option) \<Rightarrow> string \<Rightarrow> decide_error + pydict \<times> pydict" where
  "post send loads key =
     ebind (post_attempts send key [1, 2]) (\<lambda>raw.
       case loads raw of
         None \<Rightarrow> Inl JevBadJson
       | Some (VDict payload) \<Rightarrow>
           (case dict_get payload ''answers'' of
              VDict answers_raw \<Rightarrow> Inr (payload, answers_raw)
            | _ \<Rightarrow> Inl JevNoAnswers)
       | Some _ \<Rightarrow> Inl JevNoAnswers)"

definition fill_answer ::
  "string list \<Rightarrow> rat \<Rightarrow> string \<Rightarrow> rat \<Rightarrow> bool \<Rightarrow> int \<Rightarrow> int \<Rightarrow> answer \<Rightarrow> answer" where
  "fill_answer secrets latency model cost known in_share out_share a =
     a\<lparr>a_error := map_option (\<lambda>e. sanitize e secrets) (a_error a), a_latency_ms := latency,
       a_input_tokens := in_share, a_output_tokens := out_share, a_cost_usd := cost,
       a_cost_known := known, a_model := model\<rparr>"

definition parse_one ::
  "jev_world \<Rightarrow> pydict \<Rightarrow> string list \<Rightarrow> string \<Rightarrow> rat \<Rightarrow> bool \<Rightarrow> question \<times> int \<times> int
     \<Rightarrow> unit + string \<times> answer" where
  "parse_one w answers_raw secrets model cost known =
     (\<lambda>(q, in_share, out_share).
        ebind (parse_answer (w_render w) q (dict_lookup answers_raw (q_key q)))
          (\<lambda>a. Inr (q_key q, fill_answer secrets (w_latency_ms w) model cost known in_share out_share a)))"

definition payload_usage :: "pydict \<Rightarrow> pydict" where
  "payload_usage payload = (case dict_get payload ''usage'' of VDict u \<Rightarrow> u | _ \<Rightarrow> [])"

text \<open>A token count of the payload, 0 when it is absent or malformed.\<close>

definition payload_tokens :: "pydict \<Rightarrow> string \<Rightarrow> int" where
  "payload_tokens payload field = the (tokens (dict_get (payload_usage payload) field) (Some 0))"

definition usage_ok :: "pydict \<Rightarrow> bool" where
  "usage_ok payload \<longleftrightarrow>
     (dict_get payload ''usage'' = VNone \<or> is_dict (dict_get payload ''usage''))
     \<and> list_all (\<lambda>v. v = VNone \<or> tokens v None \<noteq> None)
         [dict_get (payload_usage payload) ''input_tokens'', dict_get (payload_usage payload) ''output_tokens'']"

definition parse_payload ::
  "jev_world \<Rightarrow> jev_config \<Rightarrow> pydict \<Rightarrow> pydict \<Rightarrow> question list \<Rightarrow> string list \<Rightarrow> unit + answers" where
  "parse_payload w cfg payload answers_raw questions secrets =
     (let reported = dict_get payload ''model'';
          model = sanitize (if truthy reported then w_str w reported else j_model cfg) secrets;
          in_tok = payload_tokens payload ''input_tokens'';
          out_tok = payload_tokens payload ''output_tokens'';
          n = length questions
      in ebind (call_cost (w_litellm w) (payload_usage payload) in_tok out_tok model
                  (sanitize (j_model cfg) secrets) (usage_ok payload))
        (\<lambda>(total_cost, cost_known).
          ebind (traverse (parse_one w answers_raw secrets model (total_cost / of_nat n) cost_known)
                  (zip questions (zip (split_evenly in_tok n) (split_evenly out_tok n))))
          (\<lambda>pairs. Inr (fold (\<lambda>(k, a) out. AList.update k a out) pairs []))))"

definition jev_decide ::
  "jev_world \<Rightarrow> jev_config \<Rightarrow> pyval \<Rightarrow> question list \<Rightarrow> decide_exc + answers" where
  "jev_decide w cfg state questions =
     (if questions = [] then Inr []
      else case first_duplicate (map q_key questions) {} of
        Some k \<Rightarrow> Inl (DuplicateKey k)
      | None \<Rightarrow>
          (let key = (case w_env w (j_api_key_env cfg) of None \<Rightarrow> [] | Some k \<Rightarrow> k) in
           if key = [] then Inl (DecideErr (JevNoKey (j_api_key_env cfg)))
           else (case post (w_send w (build_request cfg state questions) key) (w_loads w) key of
               Inl e \<Rightarrow> Inl (DecideErr e)
             | Inr (payload, answers_raw) \<Rightarrow>
                 (case parse_payload w cfg payload answers_raw questions [key] of
                    Inl _ \<Rightarrow> Inl (DecideErr JevUnparsable)
                  | Inr out \<Rightarrow> Inr out))))"

section \<open>Lemmas\<close>

lemma probability_range: "probability x what = Inr p \<Longrightarrow> 0 \<le> p \<and> p \<le> 1"
  by (cases "float_of_num x")
    (auto simp: probability_def split: option.splits pyfloat.splits if_splits)

lemma normalized_confidence_range:
  "normalized_confidence p n = Some c \<Longrightarrow> 0 \<le> c \<and> c \<le> 1"
  by (auto simp: normalized_confidence_def split: option.splits if_splits)

lemma argmax_None [simp]: "argmax xs = None \<longleftrightarrow> xs = []"
  by (cases xs) (auto split: option.splits)

lemma argmax_Some: "argmax xs = Some x \<Longrightarrow> x \<in> set xs \<and> (\<forall>y \<in> set xs. snd y \<le> snd x)"
proof (induction xs arbitrary: x)
  case Nil
  then show ?case by simp
next
  case (Cons a xs)
  show ?case
  proof (cases "argmax xs")
    case None
    with Cons.prems show ?thesis by simp
  next
    case (Some y)
    with Cons show ?thesis by (fastforce split: if_splits)
  qed
qed

text \<open>What a validated probability map satisfies.\<close>

definition near_distribution :: "(string \<times> rat) list \<Rightarrow> bool" where
  "near_distribution probs \<longleftrightarrow>
     (\<forall>kp \<in> set probs. 0 \<le> snd kp \<and> snd kp \<le> 1) \<and> \<bar>sum_list (map snd probs) - 1\<bar> \<le> 1 / 50"

lemma validate_distribution_Inr:
  "validate_distribution probs labels = Inr r \<Longrightarrow> r = probs \<and> \<bar>sum_list (map snd probs) - 1\<bar> \<le> 1 / 50"
  by (auto simp: validate_distribution_def Let_def not_less split: if_splits)

lemma choice_probabilities_near:
  assumes "choice_probabilities raw allowed = Inr probs"
  shows "near_distribution probs"
proof -
  let ?f = "\<lambda>(k, v). ebind (probability v ''probability'') (\<lambda>p. Inr (key_str k, p))"
  from assms have tr: "traverse ?f raw = Inr probs" and s: "\<bar>sum_list (map snd probs) - 1\<bar> \<le> 1 / 50"
    by (auto simp: choice_probabilities_def Let_def dest!: validate_distribution_Inr split: if_splits)
  from tr have "list_all2 (\<lambda>x y. ?f x = Inr y) raw probs" by (simp only: traverse_Inr_iff)
  then have "\<forall>kp \<in> set probs. 0 \<le> snd kp \<and> snd kp \<le> 1"
    by (induction rule: list_all2_induct) (auto dest: probability_range)
  with s show ?thesis by (simp add: near_distribution_def)
qed

lemma score_step_range:
  assumes "score_step levels st kv = Inr st'" and "\<forall>kp \<in> set (snd st). 0 \<le> snd kp \<and> snd kp \<le> 1"
  shows "\<forall>kp \<in> set (snd st'). 0 \<le> snd kp \<and> snd kp \<le> 1"
proof (cases "snd st' = snd st")
  case True
  with assms(2) show ?thesis by simp
next
  case False
  with assms(1) obtain l p where "probability (snd kv) ''probability'' = Inr p" "snd st' = snd st @ [(l, p)]"
    by (auto simp: score_step_def split: option.splits if_splits)
  with assms(2) probability_range[of "snd kv" "''probability''" p] show ?thesis by simp
qed

lemma score_probabilities_near:
  assumes "score_probabilities raw legend levels = Inr probs"
  shows "near_distribution probs"
proof -
  from assms obtain n where
    e: "efold (score_step levels) (n, []) raw = Inr (0, probs)"
    and s: "\<bar>sum_list (map snd probs) - 1\<bar> \<le> 1 / 50"
    by (fastforce simp: score_probabilities_def dest!: validate_distribution_Inr split: if_splits prod.splits)
  have "\<forall>kp \<in> set (snd (0 :: nat, probs)). 0 \<le> snd kp \<and> snd kp \<le> 1"
    by (rule efold_invariant[OF e, where P = "\<lambda>st. \<forall>kp \<in> set (snd st). 0 \<le> snd kp \<and> snd kp \<le> 1"])
      (simp, blast dest: score_step_range)
  with s show ?thesis by (simp add: near_distribution_def)
qed

text \<open>An accepted wire answer, whatever the question kind.\<close>

definition accepted_answer :: "question \<Rightarrow> answer \<Rightarrow> bool" where
  "accepted_answer q a \<longleftrightarrow>
     (\<exists>v c. a_value a = Some v \<and> a_confidence a = Some c \<and> v \<in> set (allowed_values q)
        \<and> 0 \<le> c \<and> c \<le> 1 \<and> near_distribution (a_probabilities a)
        \<and> (\<exists>p. map_of (a_probabilities a) (value_key v) = Some p
              \<and> (\<forall>kp \<in> set (a_probabilities a). q_kind q \<noteq> YesNo \<longrightarrow> snd kp \<le> p)))"

lemma checked_answer_accepted:
  assumes "checked_answer q raw value probs = Inr a" and "AStr value \<in> set (allowed_values q)"
    and "near_distribution probs"
  shows "accepted_answer q a \<and> a_error a = None"
proof -
  from assms(1) obtain p c where p: "map_of probs value = Some p"
    and mx: "argmax probs = None \<or> p = snd (the (argmax probs))"
    and a: "a = (blank_answer q Jev None)\<lparr>a_value := Some (AStr value), a_probabilities := probs, a_confidence := c\<rparr>"
    and c: "c = normalized_confidence (Some p) (length (allowed_values q))
        \<or> (\<exists>x d. probability x ''confidence'' = Inr d \<and> c = Some d)"
    by (auto simp: checked_answer_def split: option.splits if_splits)
  from p have ne: "probs \<noteq> []" by auto
  then obtain m where m: "argmax probs = Some m" by (cases "argmax probs") auto
  have "\<forall>kp \<in> set probs. snd kp \<le> p" using argmax_Some[OF m] mx m by auto
  moreover obtain d where "c = Some d" "0 \<le> d" "d \<le> 1"
    using c
  proof
    assume "c = normalized_confidence (Some p) (length (allowed_values q))"
    moreover obtain d where "normalized_confidence (Some p) (length (allowed_values q)) = Some d"
      by (cases "length (allowed_values q) = 1") (simp_all add: normalized_confidence_def)
    ultimately show thesis using that normalized_confidence_range by metis
  next
    assume "\<exists>x d. probability x ''confidence'' = Inr d \<and> c = Some d"
    then show thesis using that probability_range by blast
  qed
  ultimately show ?thesis
    using a p assms(2,3) by (auto simp: accepted_answer_def blank_answer_def)
qed

lemma yesno_answer_accepted:
  assumes "yesno_answer q raw = Inr a" and "q_kind q = YesNo"
  shows "accepted_answer q a \<and> a_error a = None"
proof -
  from assms(1) obtain v p where p: "probability v ''noul'' = Inr p"
    and a: "a = (blank_answer q Jev None)\<lparr>a_value := Some (ABool (1 / 2 \<le> p)),
       a_probabilities := [(''true'', p), (''false'', 1 - p)], a_confidence := Some \<bar>2 * p - 1\<bar>\<rparr>"
    by (auto simp: yesno_answer_def split: option.splits)
  from probability_range[OF p] have "\<bar>2 * p - 1\<bar> \<le> 1" by (auto simp: abs_if)
  with probability_range[OF p] a assms(2) show ?thesis
    by (auto simp: accepted_answer_def near_distribution_def allowed_values_def blank_answer_def)
qed

lemma choice_answer_Inr:
  assumes "choice_answer q raw = Inr a"
  obtains val probs raw_probs where
    "val \<in> set (map fst (case q_options q of None \<Rightarrow> [] | Some d \<Rightarrow> d))"
    "choice_probabilities raw_probs (map fst (case q_options q of None \<Rightarrow> [] | Some d \<Rightarrow> d)) = Inr probs"
    "checked_answer q raw val probs = Inr a"
proof -
  let ?names = "map fst (case q_options q of None \<Rightarrow> [] | Some d \<Rightarrow> d)"
  from assms obtain val where v: "dict_lookup raw ''choice'' = Some (VStr val)" "val \<in> set ?names"
    by (simp add: choice_answer_def Let_def split: option.splits pyval.splits if_splits)
  with assms obtain raw_probs where "dict_get raw ''probabilities'' = VDict raw_probs"
    by (simp add: choice_answer_def Let_def del: set_map split: pyval.splits)
  with assms v that show ?thesis by (auto simp: choice_answer_def Let_def simp del: set_map)
qed

lemma score_answer_Inr:
  assumes "score_answer q raw = Inr a"
  obtains val probs raw_probs where
    "val \<in> set (case q_levels q of None \<Rightarrow> [] | Some ls \<Rightarrow> ls)"
    "score_probabilities raw_probs (dict_get raw ''legend'') (case q_levels q of None \<Rightarrow> [] | Some ls \<Rightarrow> ls)
       = Inr probs"
    "checked_answer q raw val probs = Inr a"
proof -
  let ?levels = "case q_levels q of None \<Rightarrow> [] | Some ls \<Rightarrow> ls"
  from assms obtain raw_probs where rp: "dict_get raw ''probabilities'' = VDict raw_probs"
    by (simp add: score_answer_def Let_def split: pyval.splits)
  with assms obtain probs where pr: "score_probabilities raw_probs (dict_get raw ''legend'') ?levels = Inr probs"
    by (auto simp: score_answer_def Let_def)
  with assms rp obtain val p where "argmax probs = Some (val, p)"
    by (cases "argmax probs") (auto simp: score_answer_def Let_def)
  with assms rp pr that show ?thesis by (auto simp: score_answer_def Let_def split: if_splits)
qed

lemma choice_answer_accepted:
  assumes "choice_answer q raw = Inr a" and "q_kind q = Choice"
  shows "accepted_answer q a \<and> a_error a = None"
  using assms(1)
proof (rule choice_answer_Inr)
  fix val probs raw_probs
  assume "val \<in> set (map fst (case q_options q of None \<Rightarrow> [] | Some d \<Rightarrow> d))"
    and "choice_probabilities raw_probs (map fst (case q_options q of None \<Rightarrow> [] | Some d \<Rightarrow> d)) = Inr probs"
    and "checked_answer q raw val probs = Inr a"
  then show ?thesis
    using assms(2) checked_answer_accepted[of q raw val probs a] choice_probabilities_near
    by (auto simp: allowed_values_def)
qed

lemma score_answer_accepted:
  assumes "score_answer q raw = Inr a" and "q_kind q = Score"
  shows "accepted_answer q a \<and> a_error a = None"
  using assms(1)
proof (rule score_answer_Inr)
  fix val probs raw_probs
  assume "val \<in> set (case q_levels q of None \<Rightarrow> [] | Some ls \<Rightarrow> ls)"
    and "score_probabilities raw_probs (dict_get raw ''legend'') (case q_levels q of None \<Rightarrow> [] | Some ls \<Rightarrow> ls)
       = Inr probs"
    and "checked_answer q raw val probs = Inr a"
  then show ?thesis
    using assms(2) checked_answer_accepted[of q raw val probs a] score_probabilities_near
    by (auto simp: allowed_values_def)
qed

text \<open>Every answer the parser returns is either accepted or carries an error and no value.\<close>

definition parsed_ok :: "question \<Rightarrow> answer \<Rightarrow> bool" where
  "parsed_ok q a \<longleftrightarrow>
     (if a_error a = None then accepted_answer q a
      else a_value a = None \<and> a_confidence a = None \<and> a_probabilities a = [])"

lemma parse_answer_ok: "parse_answer render q raw = Inr a \<Longrightarrow> parsed_ok q a"
  by (auto simp: parse_answer_def parsed_ok_def blank_answer_def
      dest: yesno_answer_accepted choice_answer_accepted score_answer_accepted
      split: option.splits pyval.splits qkind.splits sum.splits parse_exc.splits)

lemma checked_answer_key:
  "checked_answer q raw val probs = Inr a \<Longrightarrow> a_key a = q_key q \<and> a_kind a = q_kind q"
  by (auto simp: checked_answer_def blank_answer_def split: option.splits if_splits)

lemma yesno_answer_key: "yesno_answer q raw = Inr a \<Longrightarrow> a_key a = q_key q \<and> a_kind a = q_kind q"
  by (auto simp: yesno_answer_def blank_answer_def split: option.splits)

lemma choice_answer_key: "choice_answer q raw = Inr a \<Longrightarrow> a_key a = q_key q \<and> a_kind a = q_kind q"
  by (erule choice_answer_Inr) (rule checked_answer_key)

lemma score_answer_key: "score_answer q raw = Inr a \<Longrightarrow> a_key a = q_key q \<and> a_kind a = q_kind q"
  by (erule score_answer_Inr) (rule checked_answer_key)

lemma blank_answer_key [simp]:
  "a_key (blank_answer q src e) = q_key q" "a_kind (blank_answer q src e) = q_kind q"
  by (simp_all add: blank_answer_def)

lemma parse_answer_key:
  assumes "parse_answer render q raw = Inr a"
  shows "a_key a = q_key q \<and> a_kind a = q_kind q"
proof -
  consider (blank) e where "a = blank_answer q Jev (Some e)"
    | (yes) d where "yesno_answer q d = Inr a"
    | (score) d where "score_answer q d = Inr a"
    | (choice) d where "choice_answer q d = Inr a"
    using assms
    by (auto simp: parse_answer_def split: option.splits pyval.splits qkind.splits sum.splits parse_exc.splits)
  then show ?thesis
    by cases (auto dest: yesno_answer_key score_answer_key choice_answer_key)
qed

subsection \<open>A whole call\<close>

lemma fill_answer_fields [simp]:
  "a_key (fill_answer ss l m c k i j a) = a_key a"
  "a_value (fill_answer ss l m c k i j a) = a_value a"
  "a_input_tokens (fill_answer ss l m c k i j a) = i"
  "a_output_tokens (fill_answer ss l m c k i j a) = j"
  "a_cost_usd (fill_answer ss l m c k i j a) = c"
  "a_cost_known (fill_answer ss l m c k i j a) = k"
  "a_error (fill_answer ss l m c k i j a) = map_option (\<lambda>e. sanitize e ss) (a_error a)"
  by (simp_all add: fill_answer_def)

lemma parsed_ok_answers: "parsed_ok q a \<Longrightarrow> v \<in> set (allowed_values q) \<or> a_value a \<noteq> Some v"
  by (auto simp: parsed_ok_def accepted_answer_def split: if_splits)

text \<open>The answers of a payload, in question order, with their shares.\<close>

lemma parse_payload_pairs:
  assumes "parse_payload w cfg payload answers_raw qs secrets = Inr out"
  obtains total known model pairs where
    "out = fold (\<lambda>(k, a) out. AList.update k a out) pairs []"
    "list_all2 (\<lambda>x ka. parse_one w answers_raw secrets model (total / of_nat (length qs)) known x = Inr ka)
       (zip qs (zip (split_evenly (payload_tokens payload ''input_tokens'') (length qs))
                    (split_evenly (payload_tokens payload ''output_tokens'') (length qs)))) pairs"
proof -
  obtain total known model pairs where
    "out = fold (\<lambda>(k, a) out. AList.update k a out) pairs []"
    "traverse (parse_one w answers_raw secrets model (total / of_nat (length qs)) known)
       (zip qs (zip (split_evenly (payload_tokens payload ''input_tokens'') (length qs))
                    (split_evenly (payload_tokens payload ''output_tokens'') (length qs)))) = Inr pairs"
    using assms unfolding parse_payload_def Let_def ebind_Inr_iff by (auto split: prod.splits)
  then show thesis using that by (simp add: traverse_Inr_iff)
qed

lemma parse_one_Inr:
  "parse_one w raw ss m c k (q, i, j) = Inr ka \<longleftrightarrow>
     (\<exists>a. parse_answer (w_render w) q (dict_lookup raw (q_key q)) = Inr a
        \<and> ka = (q_key q, fill_answer ss (w_latency_ms w) m c k i j a))"
  by (auto simp: parse_one_def)

text \<open>A loop over questions zipped with two share lists keeps each share in its place.\<close>

lemma shares_of_pairs:
  assumes "list_all2 R (zip qs (zip is js)) pairs"
    and "length is = length qs" and "length js = length qs"
    and "\<And>q i j ka. R (q, i, j) ka \<Longrightarrow> S q ka \<and> g ka = i \<and> h ka = j"
  shows "list_all2 S qs pairs" and "map g pairs = is" and "map h pairs = js"
proof -
  have len: "length pairs = length qs" using assms(1-3) by (auto dest: list_all2_lengthD)
  have nth: "S (qs ! k) (pairs ! k) \<and> g (pairs ! k) = is ! k \<and> h (pairs ! k) = js ! k"
    if "k < length qs" for k
    using list_all2_nthD2[OF assms(1), of k] that assms(2-4) len by simp
  show "list_all2 S qs pairs" using nth len by (simp add: list_all2_conv_all_nth)
  show "map g pairs = is" using nth len assms(2) by (simp add: list_eq_iff_nth_eq)
  show "map h pairs = js" using nth len assms(3) by (simp add: list_eq_iff_nth_eq)
qed

lemma parse_payload_shares:
  assumes "parse_payload w cfg payload answers_raw qs secrets = Inr out" and "distinct (map q_key qs)"
  shows "list_all2 (\<lambda>q ka. fst ka = q_key q \<and> answers_question q (snd ka)) qs out"
    and "map (a_input_tokens \<circ> snd) out = split_evenly (payload_tokens payload ''input_tokens'') (length qs)"
    and "map (a_output_tokens \<circ> snd) out = split_evenly (payload_tokens payload ''output_tokens'') (length qs)"
proof -
  let ?i = "split_evenly (payload_tokens payload ''input_tokens'') (length qs)"
  let ?j = "split_evenly (payload_tokens payload ''output_tokens'') (length qs)"
  obtain total known model pairs where
    out: "out = fold (\<lambda>(k, a) out. AList.update k a out) pairs []" and
    all: "list_all2 (\<lambda>x ka. parse_one w answers_raw secrets model (total / of_nat (length qs)) known x = Inr ka)
       (zip qs (zip ?i ?j)) pairs"
    by (rule parse_payload_pairs[OF assms(1)])
  let ?S = "\<lambda>q ka. fst ka = q_key q \<and> answers_question q (snd ka)"
  have step: "?S q ka \<and> (a_input_tokens \<circ> snd) ka = i \<and> (a_output_tokens \<circ> snd) ka = j"
    if "parse_one w answers_raw secrets model (total / of_nat (length qs)) known (q, i, j) = Inr ka" for q i j ka
    using that
    by (auto simp: parse_one_Inr answers_question_def dest: parse_answer_key parsed_ok_answers[OF parse_answer_ok])
  note sh_rules = shares_of_pairs[OF all, where S = ?S and g = "a_input_tokens \<circ> snd" and h = "a_output_tokens \<circ> snd"]
  have sh1: "list_all2 ?S qs pairs" by (rule sh_rules(1); (erule step | simp))
  have sh2: "map (a_input_tokens \<circ> snd) pairs = ?i" by (rule sh_rules(2); (erule step | simp))
  have sh3: "map (a_output_tokens \<circ> snd) pairs = ?j" by (rule sh_rules(3); (erule step | simp))
  have "out = pairs" using assms(2) sh1 by (simp add: out fold_update_distinct answered_list_keys)
  with sh1 sh2 sh3 show "list_all2 ?S qs out"
    and "map (a_input_tokens \<circ> snd) out = ?i" and "map (a_output_tokens \<circ> snd) out = ?j"
    by simp_all
qed

lemmas parse_payload_answered = answered_list[OF parse_payload_shares(1)]

interpretation jev: decider "jev_decide w cfg" for w cfg
proof
  fix st qs ans q
  assume a: "jev_decide w cfg st qs = Inr ans" "distinct (map q_key qs)" "q \<in> set qs"
  then obtain payload answers_raw key where
    "parse_payload w cfg payload answers_raw qs [key] = Inr ans"
    by (auto simp: jev_decide_def Let_def split: if_splits option.splits sum.splits prod.splits)
  then show "\<exists>a. map_of ans (q_key q) = Some a \<and> answers_question q a"
    using a by (blast intro: parse_payload_answered)
qed

section \<open>Properties\<close>



text \<open>
  The answers of one Jev request share out its reported tokens: one answer per question,
  in order, and their input and output tokens add up to the counts of the payload.
\<close>

theorem jev_tokens_conserved:
  assumes "parse_payload w cfg payload answers_raw qs secrets = Inr out"
    and "distinct (map q_key qs)" and "qs \<noteq> []"
  shows "map fst out = map q_key qs
    \<and> sum_list (map (a_input_tokens \<circ> snd) out) = payload_tokens payload ''input_tokens''
    \<and> sum_list (map (a_output_tokens \<circ> snd) out) = payload_tokens payload ''output_tokens''"
proof -
  note sh = parse_payload_shares[OF assms(1,2)]
  have "0 < length qs" using assms(3) by simp
  then show ?thesis using answered_list_keys[OF sh(1)] by (simp add: sh(2,3) sum_split_evenly)
qed

theorem jev_tokens_conserved_witness:
  "\<exists>out. parse_payload
      \<lparr>w_env = (\<lambda>_. None), w_send = (\<lambda>_ _ _. Inl []), w_loads = (\<lambda>_. None), w_latency_ms = 1,
       w_str = (\<lambda>_. ''m''), w_render = (\<lambda>_. ''bad''), w_litellm = None\<rparr>
      \<lparr>j_model = ''m'', j_api_key_env = ''K''\<rparr>
      [(KStr ''usage'', VDict [(KStr ''input_tokens'', VInt 7), (KStr ''output_tokens'', VInt 2)])] []
      [\<lparr>q_key = ''a'', q_kind = YesNo, q_instructions = ''?'', q_options = None, q_levels = None\<rparr>,
       \<lparr>q_key = ''b'', q_kind = YesNo, q_instructions = ''?'', q_options = None, q_levels = None\<rparr>] [] = Inr out
    \<and> sum_list (map (a_input_tokens \<circ> snd) out) = 7"
proof -
  let ?w = "\<lparr>w_env = (\<lambda>_. None), w_send = (\<lambda>_ _ _. Inl []), w_loads = (\<lambda>_. None), w_latency_ms = 1,
       w_str = (\<lambda>_. ''m''), w_render = (\<lambda>_. ''bad''), w_litellm = None\<rparr>"
  let ?c = "\<lparr>j_model = ''m'', j_api_key_env = ''K''\<rparr>"
  let ?p = "[(KStr ''usage'', VDict [(KStr ''input_tokens'', VInt 7), (KStr ''output_tokens'', VInt 2)])]"
  let ?qs = "[\<lparr>q_key = ''a'', q_kind = YesNo, q_instructions = ''?'', q_options = None, q_levels = None\<rparr>,
       \<lparr>q_key = ''b'', q_kind = YesNo, q_instructions = ''?'', q_options = None, q_levels = None\<rparr>]"
  have "\<not> isl (parse_payload ?w ?c ?p [] ?qs [])" by code_simp
  then obtain out where out: "parse_payload ?w ?c ?p [] ?qs [] = Inr out"
    by (cases "parse_payload ?w ?c ?p [] ?qs []") simp_all
  have "payload_tokens ?p ''input_tokens'' = 7" by code_simp
  with jev_tokens_conserved[OF out] out show ?thesis by auto
qed

end
