(* ===== verification/Structured.thy ===== *)
theory Structured
  imports PyPrelude
begin

text \<open>
  Structured output (\<open>src/fabri/core/structured.py\<close>): the Markdown fences stripped from a
  model's answer (\<open>_strip_fences\<close> of \<open>core/decompose.py\<close>) and the validation of the parsed
  value against the supported JSON-Schema subset.  \<open>json.loads\<close> is an argument.  A malformed
  schema can make \<open>validate\<close> itself raise; that is the \<open>Inl ()\<close> branch.
\<close>

section \<open>Fences\<close>

text \<open>
  \<open>_FENCE_RE\<close>: at a line start three backquotes, an optional language tag and the following
  white space; elsewhere an optional newline, three backquotes and white space up to a line
  end (the end of the text, or the last newline of the run, where \<open>$\<close> matches).
\<close>

definition fence :: string where "fence = ''```''"

definition at_line_start :: "char option \<Rightarrow> bool" where
  "at_line_start prev = (case prev of None \<Rightarrow> True | Some c \<Rightarrow> c = CHR 0x0A)"

definition closing_fence :: "string \<Rightarrow> nat" where
  "closing_fence s =
     (if starts_with fence s
      then (let blanks = takeWhile is_space (drop 3 s)
            in if 3 + length blanks = length s then length s
               else if CHR 0x0A \<in> set blanks
                    then 3 + length (dropWhile (\<lambda>c. c \<noteq> CHR 0x0A) (rev blanks)) - 1
                    else 0)
      else 0)"

definition fence_match :: pattern where
  "fence_match prev s =
     (if at_line_start prev \<and> starts_with fence s
      then (let r = drop 3 s; t = (if starts_with ''json'' r \<or> starts_with ''toon'' r then 4 else 0)
            in 3 + t + length (takeWhile is_space (drop t r)))
      else case s of
        c # cs \<Rightarrow>
          if c = CHR 0x0A \<and> 0 < closing_fence cs then 1 + closing_fence cs else closing_fence s
      | [] \<Rightarrow> 0)"

definition strip_fences :: "string \<Rightarrow> string" where
  "strip_fences text = strip (re_sub fence_match [] None text)"

section \<open>Validation\<close>

datatype schema_error =
    WrongType string pyval pyval
  | NotInEnum string pyval pyval
  | MissingProperty string pyval

text \<open>\<open>_TYPE_CHECKS.get(t, lambda _v: True)(value)\<close>; an unhashable \<open>t\<close> raises.\<close>

fun type_check :: "pyval \<Rightarrow> pyval \<Rightarrow> unit + bool" where
  "type_check (VStr t) v =
     (if t = ''object'' then Inr (is_dict v)
      else if t = ''array'' then Inr (is_list v)
      else if t = ''string'' then Inr (is_str v)
      else if t = ''integer'' then Inr (case v of VInt _ \<Rightarrow> True | _ \<Rightarrow> False)
      else if t = ''number'' then Inr (case v of VInt _ \<Rightarrow> True | VFloat _ \<Rightarrow> True | _ \<Rightarrow> False)
      else if t = ''boolean'' then Inr (case v of VBool _ \<Rightarrow> True | _ \<Rightarrow> False)
      else if t = ''null'' then Inr (v = VNone)
      else Inr True)"
| "type_check (VList _) v = Inl ()"
| "type_check (VDict _) v = Inl ()"
| "type_check _ v = Inr True"

fun any_type :: "pyval list \<Rightarrow> pyval \<Rightarrow> unit + bool" where
  "any_type [] v = Inr False"
| "any_type (t # ts) v = ebind (type_check t v) (\<lambda>b. if b then Inr True else any_type ts v)"

definition check_type :: "pydict \<Rightarrow> pyval \<Rightarrow> unit + bool" where
  "check_type schema v =
     (case dict_get schema ''type'' of
        VNone \<Rightarrow> Inr True
      | VList ts \<Rightarrow> any_type ts v
      | t \<Rightarrow> any_type [t] v)"

definition check_enum :: "pydict \<Rightarrow> pyval \<Rightarrow> string \<Rightarrow> unit + schema_error list" where
  "check_enum schema v path =
     (let enum = dict_get schema ''enum'' in
      if enum = VNone then Inr []
      else ebind (py_in v enum) (\<lambda>b. Inr (if b then [] else [NotInEnum path v enum])))"

text \<open>\<open>schema.get("required", []) or []\<close>.\<close>

definition check_required :: "pydict \<Rightarrow> pydict \<Rightarrow> string \<Rightarrow> unit + schema_error list" where
  "check_required schema d path =
     (let required = dict_get_default schema ''required'' (VList []) in
      ebind (py_iter (if truthy required then required else VList [])) (\<lambda>keys.
      ebind (traverse (\<lambda>k. ebind (key_in_dict k d)
               (\<lambda>b. Inr (if b then [] else [MissingProperty path k]))) keys)
        (\<lambda>errs. Inr (concat errs))))"

function validate :: "pyval \<Rightarrow> pyval \<Rightarrow> string \<Rightarrow> unit + schema_error list" where
  "validate value schema path =
     (case schema of
        VDict sd \<Rightarrow>
          ebind (check_type sd value) (\<lambda>typed.
          if \<not> typed then Inr [WrongType path (dict_get sd ''type'') value]
          else
          ebind (check_enum sd value path) (\<lambda>errs.
          case value of
            VDict d \<Rightarrow>
              ebind (check_required sd d path) (\<lambda>missing.
              ebind
                (case dict_get sd ''properties'' of
                   VDict props \<Rightarrow>
                     traverse (\<lambda>(k, sub).
                       case map_of (map (\<lambda>(k', w). (key_norm k', w)) d) (key_norm k) of
                         None \<Rightarrow> Inr []
                       | Some w \<Rightarrow> validate w sub (path @ ''.'' @ key_str k)) props
                 | v \<Rightarrow> if truthy v then Inl () else Inr [])
                (\<lambda>nested. Inr (errs @ missing @ concat nested)))
          | VList xs \<Rightarrow>
              (case dict_get sd ''items'' of
                 VDict sub \<Rightarrow>
                   ebind (traverse (\<lambda>(i, x). validate x (VDict sub) (path @ ''['' @ show_nat i @ '']''))
                            (zip [0..<length xs] xs))
                     (\<lambda>nested. Inr (errs @ concat nested))
               | _ \<Rightarrow> Inr errs)
          | _ \<Rightarrow> Inr errs))
      | _ \<Rightarrow> Inr [])"
  by pat_completeness auto
termination
proof (relation "measure (\<lambda>(v, s, p). size s)")
  show "wf (measure (\<lambda>(v :: pyval, s :: pyval, p :: string). size s))" by simp
qed (auto dest: dict_get_size dict_get_sub_size)

declare validate.simps [simp del]

text \<open>The value and its errors; a text that is not JSON has no value and one parse error.\<close>

definition parse_response ::
  "(string \<Rightarrow> pyval option) \<Rightarrow> string \<Rightarrow> pyval \<Rightarrow> unit + pyval \<times> schema_error list option" where
  "parse_response loads text schema =
     (case loads (strip_fences text) of
        None \<Rightarrow> Inr (VNone, None)
      | Some value \<Rightarrow> ebind (validate value schema ''$'') (\<lambda>errs. Inr (value, Some errs)))"

definition typename :: "pyval \<Rightarrow> string" where
  "typename v =
     (case v of VNone \<Rightarrow> ''null'' | VBool _ \<Rightarrow> ''boolean'' | VStr _ \<Rightarrow> ''string'' | VList _ \<Rightarrow> ''array''
      | VDict _ \<Rightarrow> ''object'' | VInt _ \<Rightarrow> ''integer'' | VFloat _ \<Rightarrow> ''number'')"

text \<open>The message of an error; \<open>repr\<close> renders a value.\<close>

fun schema_error_text :: "(pyval \<Rightarrow> string) \<Rightarrow> schema_error \<Rightarrow> string" where
  "schema_error_text repr (WrongType path expected v) =
     path @ '': expected type '' @ repr expected @ '', got '' @ typename v"
| "schema_error_text repr (NotInEnum path v enum) = path @ '': '' @ repr v @ '' is not one of '' @ repr enum"
| "schema_error_text repr (MissingProperty path k) = path @ '': missing required property '' @ repr k"

section \<open>A declarative reading of the schema subset\<close>

text \<open>
  When does a value conform to a schema?  The clauses speak about the schema's keywords one
  by one and mention no path, no order and no error list.
\<close>

definition key_value :: "pydict \<Rightarrow> pykey \<Rightarrow> pyval option" where
  "key_value d k = map_of (map (\<lambda>(k', w). (key_norm k', w)) d) (key_norm k)"

inductive conforms :: "pyval \<Rightarrow> pyval \<Rightarrow> bool" where
  no_schema: "\<not> is_dict s \<Longrightarrow> conforms v s"
| schema:
    "check_type sd v = Inr True \<Longrightarrow>
     dict_get sd ''enum'' = VNone \<or> py_in v (dict_get sd ''enum'') = Inr True \<Longrightarrow>
     (\<And>d. v = VDict d \<Longrightarrow> check_required sd d [] = Inr []) \<Longrightarrow>
     (\<And>d props k sub w. v = VDict d \<Longrightarrow> dict_get sd ''properties'' = VDict props \<Longrightarrow> (k, sub) \<in> set props \<Longrightarrow>
        key_value d k = Some w \<Longrightarrow> conforms w sub) \<Longrightarrow>
     (\<And>xs items x. v = VList xs \<Longrightarrow> dict_get sd ''items'' = VDict items \<Longrightarrow> x \<in> set xs \<Longrightarrow>
        conforms x (VDict items)) \<Longrightarrow>
     conforms v (VDict sd)"

inductive_simps conforms_dict_iff: "conforms v (VDict sd)"

lemma conforms_scalar_iff:
  "\<not> is_dict v \<Longrightarrow> \<not> is_list v \<Longrightarrow> conforms v (VDict sd) \<longleftrightarrow>
     check_type sd v = Inr True \<and> (dict_get sd ''enum'' = VNone \<or> py_in v (dict_get sd ''enum'') = Inr True)"
  by (auto simp: conforms_dict_iff[of v sd])

lemma traverse_concat_Nil:
  assumes "traverse f xs = Inr yss" and "\<And>x ys. x \<in> set xs \<Longrightarrow> f x = Inr ys \<Longrightarrow> ys = [] \<longleftrightarrow> Q x"
  shows "concat yss = [] \<longleftrightarrow> (\<forall>x \<in> set xs. Q x)"
  using assms
proof (induction xs arbitrary: yss)
  case Nil
  then show ?case by simp
next
  case (Cons x xs)
  then obtain ys yss' where y: "yss = ys # yss'" "f x = Inr ys" "traverse f xs = Inr yss'"
    by (auto simp only: traverse_Cons_Inr)
  from Cons.IH[OF y(3)] Cons.prems(2) have "concat yss' = [] \<longleftrightarrow> (\<forall>x \<in> set xs. Q x)" by auto
  moreover have "ys = [] \<longleftrightarrow> Q x" using Cons.prems(2) y(2) by auto
  ultimately show ?case using y(1) by simp
qed

lemma check_enum_Nil:
  "check_enum sd v path = Inr errs \<Longrightarrow>
     errs = [] \<longleftrightarrow> dict_get sd ''enum'' = VNone \<or> py_in v (dict_get sd ''enum'') = Inr True"
  by (auto simp: check_enum_def Let_def split: if_splits)

lemma check_required_Nil:
  assumes "check_required sd d path = Inr errs"
  shows "errs = [] \<longleftrightarrow> check_required sd d [] = Inr []"
proof -
  let ?r = "dict_get_default sd ''required'' (VList [])"
  let ?f = "\<lambda>path k. ebind (key_in_dict k d) (\<lambda>b. Inr (if b then [] else [MissingProperty path k]))"
  from assms obtain keys yss where k: "py_iter (if truthy ?r then ?r else VList []) = Inr keys"
    and y: "traverse (?f path) keys = Inr yss" "errs = concat yss"
    by (auto simp: check_required_def Let_def)
  from y(1) have ok: "\<forall>k \<in> set keys. \<exists>b. key_in_dict k d = Inr b"
    by (induction keys arbitrary: yss) (auto simp: traverse_Cons_Inr simp del: traverse.simps)
  then have "\<exists>zss. traverse (?f []) keys = Inr zss"
    by (induction keys) (auto simp: traverse_Cons_Inr simp del: traverse.simps, auto)
  then obtain zss where z: "traverse (?f []) keys = Inr zss" by blast
  have "concat yss = [] \<longleftrightarrow> (\<forall>k \<in> set keys. key_in_dict k d = Inr True)"
    by (rule traverse_concat_Nil[OF y(1)]) (auto split: if_splits)
  moreover have "concat zss = [] \<longleftrightarrow> (\<forall>k \<in> set keys. key_in_dict k d = Inr True)"
    by (rule traverse_concat_Nil[OF z]) (auto split: if_splits)
  ultimately show ?thesis using k z y(2) by (simp add: check_required_def Let_def)
qed

lemma validate_array:
  assumes "traverse (\<lambda>(i, x). validate x sub (p i)) (zip [0..<length xs] xs) = Inr nested"
    and IH: "\<And>i x errs. (i, x) \<in> set (zip [0..<length xs] xs) \<Longrightarrow> validate x sub (p i) = Inr errs \<Longrightarrow>
               errs = [] \<longleftrightarrow> conforms x sub"
  shows "concat nested = [] \<longleftrightarrow> (\<forall>x \<in> set xs. conforms x sub)"
proof -
  have "concat nested = [] \<longleftrightarrow> (\<forall>ix \<in> set (zip [0..<length xs] xs). conforms (snd ix) sub)"
    by (rule traverse_concat_Nil[OF assms(1)]) (clarsimp simp: IH)
  also have "\<dots> \<longleftrightarrow> (\<forall>x \<in> snd ` set (zip [0..<length xs] xs). conforms x sub)" by simp
  also have "snd ` set (zip [0..<length xs] xs) = set xs"
    by (simp flip: set_map)
  finally show ?thesis .
qed

lemma validate_no_schema: "\<not> is_dict s \<Longrightarrow> validate v s path = Inr []"
  by (cases s) (simp_all add: validate.simps)

lemma validate_conforms: "validate v s path = Inr errs \<Longrightarrow> errs = [] \<longleftrightarrow> conforms v s"
proof (induction v s path arbitrary: errs rule: validate.induct)
  case (1 v s path)
  show ?case
  proof (cases s)
    case (VDict sd)
    note s = VDict
    note pr = trans[OF validate.simps[of v "VDict sd" path, symmetric] "1.prems"[unfolded s], simplified]
    from pr obtain typed where ty: "check_type sd v = Inr typed"
      by auto
    show ?thesis
    proof (cases typed)
      case False
      with pr ty show ?thesis
        by (auto simp: s conforms_dict_iff[of v sd])
    next
      case True
      with pr ty obtain e1 where e1: "check_enum sd v path = Inr e1"
        by auto
      note en = check_enum_Nil[OF e1]
      show ?thesis
      proof (cases v)
        case v: (VDict d)
        from pr ty True e1 obtain e2 where e2: "check_required sd d path = Inr e2"
          by (auto simp: v)
        note rq = check_required_Nil[OF e2]
        show ?thesis
        proof (cases "\<exists>props. dict_get sd ''properties'' = VDict props")
          case False
          then have "errs = e1 @ e2"
            using pr ty True e1 e2
            by (auto simp: v split: pyval.splits if_splits)
          with False en rq ty True v s show ?thesis by (auto simp: conforms_dict_iff[of "VDict d" sd])
        next
          case pd: True
          then obtain props where props: "dict_get sd ''properties'' = VDict props" by blast
          let ?f = "\<lambda>(k, sub). case key_value d k of None \<Rightarrow> Inr []
             | Some w \<Rightarrow> validate w sub (path @ ''.'' @ key_str k)"
          from pr ty True e1 e2 obtain nested where
            n: "traverse ?f props = Inr nested" "errs = e1 @ e2 @ concat nested"
            by (auto simp: v props key_value_def)
          have "concat nested = [] \<longleftrightarrow> (\<forall>ks \<in> set props. \<forall>w. key_value d (fst ks) = Some w \<longrightarrow> conforms w (snd ks))"
            by (rule traverse_concat_Nil[OF n(1)])
              (use "1.IH"(2)[OF s ty _ e1 v e2 props] True in \<open>fastforce simp: key_value_def split: option.splits\<close>)
          with n(2) en rq ty True v s props show ?thesis by (auto simp: conforms_dict_iff[of "VDict d" sd])
        qed
      next
        case v: (VList xs)
        show ?thesis
        proof (cases "\<exists>sub. dict_get sd ''items'' = VDict sub")
          case False
          then have "errs = e1"
            using pr ty True e1
            by (auto simp: v split: pyval.splits)
          with False en ty True v s show ?thesis by (auto simp: conforms_dict_iff[of "VList xs" sd])
        next
          case pd: True
          then obtain sub where sub: "dict_get sd ''items'' = VDict sub" by blast
          from pr ty True e1 obtain nested where
            n: "traverse (\<lambda>(i, x). validate x (VDict sub) (path @ ''['' @ show_nat i @ '']''))
                  (zip [0..<length xs] xs) = Inr nested" "errs = e1 @ concat nested"
            by (auto simp: v sub)
          have "concat nested = [] \<longleftrightarrow> (\<forall>x \<in> set xs. conforms x (VDict sub))"
            by (rule validate_array[OF n(1)])
              (use "1.IH"(1)[OF s ty _ e1 v sub] True in auto)
          with n(2) en ty True v s sub show ?thesis by (auto simp: conforms_dict_iff[of "VList xs" sd])
        qed
      qed (use pr ty True e1 en s in \<open>auto simp: conforms_scalar_iff\<close>)
    qed
  qed (use "1.prems" validate_no_schema[of s v path] in \<open>auto intro: no_schema\<close>)
qed

section \<open>Properties\<close>



end
