(* ===== verification/Decide_Llm.thy ===== *)
theory Decide_Llm
  imports Decide_Jev Structured
begin

text \<open>
  The chat-model decider of \<open>src/fabri/decide/llm.py\<close>: the prompt it builds, the schema it
  asks for, the coercion of the parsed answers and the accounting of the call.  The backend's
  \<open>step\<close>, the JSON parser and printer, \<open>str\<close> of a non-string and the wording of rejected
  answers are arguments, gathered in \<open>llm_world\<close>.
\<close>

datatype llm_fault = LNotBoolean pyval | LNotAllowed pyval "ansval list"

record llm_world =
  l_step :: "string \<Rightarrow> string \<Rightarrow> string + llm_response"
  l_loads :: "string \<Rightarrow> pyval option"
  l_dumps :: "pyval \<Rightarrow> string"
  l_str :: "pyval \<Rightarrow> string"
  l_latency_ms :: rat
  l_render :: "llm_fault \<Rightarrow> string"
  l_litellm :: "(string \<times> (rat option \<times> rat option)) list option"
  l_env :: "string \<Rightarrow> string option"

record llm_config =
  lc_model :: string
  lc_api_key_env :: "string option"

text \<open>The system prompt \<open>_SYSTEM\<close> is a constant of the module, passed in as a string.\<close>

definition opt_items :: "question \<Rightarrow> (string \<times> pyval) list" where
  "opt_items q = (case q_options q of None \<Rightarrow> [] | Some d \<Rightarrow> d)"

definition question_lines :: "llm_world \<Rightarrow> question \<Rightarrow> string list" where
  "question_lines w q =
     [''- key: '' @ q_key q,
      ''  kind: '' @ (case q_kind q of Choice \<Rightarrow> ''choice'' | Score \<Rightarrow> ''score'' | YesNo \<Rightarrow> ''yesno''),
      ''  instructions: '' @ q_instructions q] @
     (case q_kind q of
        Choice \<Rightarrow> ''  options:'' #
          map (\<lambda>(name, desc). ''    - '' @ name @ (if truthy desc then '': '' @ l_str w desc else [])) (opt_items q)
      | Score \<Rightarrow> [''  levels (lowest to highest): '' @ join '', '' (case q_levels q of None \<Rightarrow> [] | Some ls \<Rightarrow> ls)]
      | YesNo \<Rightarrow> ''  answer: true or false'' #
          map (\<lambda>(side, desc). ''    '' @ side @ '' means: '' @ l_str w desc)
            (filter (\<lambda>(side, desc). truthy desc) (opt_items q)))"

definition build_messages :: "llm_world \<Rightarrow> pyval \<Rightarrow> question list \<Rightarrow> string" where
  "build_messages w state questions =
     join [CHR 0x0A]
       ([''State:'', (case state of VStr s \<Rightarrow> s | _ \<Rightarrow> l_dumps w state), '''', ''Questions:'']
        @ concat (map (question_lines w) questions)
        @ ['''', ''Return a JSON object with exactly these keys: '' @ join '', '' (map q_key questions)])"

definition question_schema :: "question \<Rightarrow> pyval" where
  "question_schema q =
     (if q_kind q = YesNo then VDict [(KStr ''type'', VStr ''boolean'')]
      else VDict [(KStr ''type'', VStr ''string''),
             (KStr ''enum'', VList (map (\<lambda>v. case v of AStr s \<Rightarrow> VStr s | ABool b \<Rightarrow> VBool b) (allowed_values q)))])"

definition llm_schema :: "question list \<Rightarrow> pyval" where
  "llm_schema questions =
     VDict [(KStr ''type'', VStr ''object''),
       (KStr ''required'', VList (map (\<lambda>q. VStr (q_key q)) questions)),
       (KStr ''properties'',
          VDict (fold (\<lambda>q p. AList.update (KStr (q_key q)) (question_schema q) p) questions []))]"

definition llm_coerce ::
  "(llm_fault \<Rightarrow> string) \<Rightarrow> question \<Rightarrow> pyval \<Rightarrow> string list \<Rightarrow> ansval option \<times> string option" where
  "llm_coerce render q raw secrets =
     (case q_kind q of
        YesNo \<Rightarrow>
          (case raw of
             VBool b \<Rightarrow> (Some (ABool b), None)
           | VStr s \<Rightarrow>
               if lower (strip s) \<in> {''true'', ''false''} then (Some (ABool (lower (strip s) = ''true'')), None)
               else (None, Some (sanitize (render (LNotBoolean raw)) secrets))
           | _ \<Rightarrow> (None, Some (sanitize (render (LNotBoolean raw)) secrets)))
      | _ \<Rightarrow>
          (case raw of
             VStr s \<Rightarrow>
               if AStr s \<in> set (allowed_values q) then (Some (AStr s), None)
               else (None, Some (sanitize (render (LNotAllowed raw (allowed_values q))) secrets))
           | _ \<Rightarrow> (None, Some (sanitize (render (LNotAllowed raw (allowed_values q))) secrets))))"

text \<open>\<open>_secrets\<close>: the configured key, when the environment holds one.\<close>

definition llm_secrets :: "llm_world \<Rightarrow> llm_config \<Rightarrow> string list" where
  "llm_secrets w cfg =
     (case lc_api_key_env cfg of
        None \<Rightarrow> []
      | Some v \<Rightarrow> (case l_env w v of None \<Rightarrow> [] | Some key \<Rightarrow> if key = [] then [] else [key]))"

definition llm_read ::
  "llm_world \<Rightarrow> string list \<Rightarrow> pyval \<Rightarrow> question \<Rightarrow> ansval option \<times> string option" where
  "llm_read w secrets value q =
     (case value of
        VDict d \<Rightarrow>
          (case dict_lookup d (q_key q) of
             None \<Rightarrow> (None, Some ''llm response has no answer for this question'')
           | Some raw \<Rightarrow> llm_coerce (l_render w) q raw secrets)
      | _ \<Rightarrow> (None, Some ''llm response is not a JSON object''))"

definition llm_answer_one ::
  "llm_world \<Rightarrow> string list \<Rightarrow> pyval \<Rightarrow> string \<Rightarrow> rat \<Rightarrow> bool \<Rightarrow> question \<times> int \<times> int \<Rightarrow> string \<times> answer" where
  "llm_answer_one w secrets value model cost known =
     (\<lambda>(q, in_share, out_share).
        (q_key q, (blank_answer q LLM (snd (llm_read w secrets value q)))
           \<lparr>a_value := fst (llm_read w secrets value q), a_latency_ms := l_latency_ms w,
            a_input_tokens := in_share, a_output_tokens := out_share, a_cost_usd := cost,
            a_cost_known := known, a_model := model\<rparr>))"

definition llm_decide ::
  "llm_world \<Rightarrow> string \<Rightarrow> llm_config \<Rightarrow> pyval \<Rightarrow> question list \<Rightarrow> decide_exc + answers" where
  "llm_decide w system cfg state questions =
     (if questions = [] then Inr []
      else (let secrets = llm_secrets w cfg in
        case l_step w system (build_messages w state questions) of
          Inl err \<Rightarrow> Inl (DecideErr (LlmFailed (sanitize err secrets)))
        | Inr resp \<Rightarrow>
            (let usage = (case r_usage resp of None \<Rightarrow> empty_usage | Some u \<Rightarrow> u);
                 reported = (case u_model usage of None \<Rightarrow> [] | Some m \<Rightarrow> m);
                 model = sanitize (if reported \<noteq> [] then reported else lc_model cfg) secrets;
                 priced = cost_for (l_litellm w) (usage\<lparr>u_model := Some model\<rparr>);
                 total_cost = (case priced of None \<Rightarrow> 0 | Some c \<Rightarrow> c);
                 n = length questions
             in case parse_response (l_loads w) (case r_final_text resp of None \<Rightarrow> [] | Some t \<Rightarrow> t)
                       (llm_schema questions) of
                  Inl _ \<Rightarrow> Inl SchemaRaised
                | Inr (value, _) \<Rightarrow>
                    Inr (fold (\<lambda>(k, a) out. AList.update k a out)
                      (map (llm_answer_one w secrets value model (total_cost / of_nat n) (priced \<noteq> None))
                         (zip questions (zip (split_evenly (u_input usage) n) (split_evenly (u_output usage) n))))
                      []))))"

section \<open>Lemmas\<close>

lemma llm_coerce_allowed:
  "llm_coerce render q raw secrets = (Some v, err) \<Longrightarrow> v \<in> set (allowed_values q) \<and> err = None"
  by (auto simp: llm_coerce_def allowed_values_def split: qkind.splits pyval.splits if_splits)

lemma llm_coerce_rejects:
  "llm_coerce render q raw secrets = (None, err) \<Longrightarrow> err \<noteq> None"
  by (auto simp: llm_coerce_def split: qkind.splits pyval.splits if_splits)

lemma llm_read_ok:
  "fst (llm_read w ss value q) = Some v \<Longrightarrow> v \<in> set (allowed_values q)"
  by (cases "llm_coerce (l_render w) q (the (dict_lookup (case value of VDict d \<Rightarrow> d) (q_key q))) ss")
    (auto simp: llm_read_def dest: llm_coerce_allowed split: pyval.splits option.splits)

lemma llm_answer_one_ok [simp]:
  "fst (llm_answer_one w ss parsed m c k (q, i, j)) = q_key q"
  "answers_question q (snd (llm_answer_one w ss parsed m c k (q, i, j)))"
  "a_input_tokens (snd (llm_answer_one w ss parsed m c k (q, i, j))) = i"
  "a_output_tokens (snd (llm_answer_one w ss parsed m c k (q, i, j))) = j"
  by (auto simp: llm_answer_one_def answers_question_def blank_answer_def dest: llm_read_ok)

lemma llm_answers_all2:
  assumes "length is = length qs" and "length js = length qs"
  shows "list_all2 (\<lambda>q ka. fst ka = q_key q \<and> answers_question q (snd ka)) qs
     (map (llm_answer_one w ss parsed m c k) (zip qs (zip is js)))"
  using assms by (auto simp: list_all2_conv_all_nth)

text \<open>The answers of a call come back in question order.\<close>

lemma llm_decide_pairs:
  assumes "llm_decide w system cfg st qs = Inr ans" and "distinct (map q_key qs)" and "qs \<noteq> []"
  obtains resp parsed m c k where
    "l_step w system (build_messages w st qs) = Inr resp"
    "ans = map (llm_answer_one w (llm_secrets w cfg) parsed m c k)
        (zip qs (zip (split_evenly (u_input (case r_usage resp of None \<Rightarrow> empty_usage | Some u \<Rightarrow> u)) (length qs))
                     (split_evenly (u_output (case r_usage resp of None \<Rightarrow> empty_usage | Some u \<Rightarrow> u)) (length qs))))"
proof -
  from assms(1,3) obtain resp where r: "l_step w system (build_messages w st qs) = Inr resp"
    by (auto simp: llm_decide_def Let_def split: sum.splits)
  let ?u = "case r_usage resp of None \<Rightarrow> empty_usage | Some u \<Rightarrow> u"
  from assms(1,3) r obtain parsed m c k where
    ans: "ans = fold (\<lambda>(k, a) out. AList.update k a out) (map (llm_answer_one w (llm_secrets w cfg) parsed m c k)
        (zip qs (zip (split_evenly (u_input ?u) (length qs)) (split_evenly (u_output ?u) (length qs))))) []"
    unfolding llm_decide_def Let_def by (force split: sum.splits prod.splits)
  have "map fst (map (llm_answer_one w (llm_secrets w cfg) parsed m c k)
        (zip qs (zip (split_evenly (u_input ?u) (length qs)) (split_evenly (u_output ?u) (length qs)))))
      = map q_key qs"
    by (rule answered_list_keys[OF llm_answers_all2]) simp_all
  with assms(2) have "ans = map (llm_answer_one w (llm_secrets w cfg) parsed m c k)
        (zip qs (zip (split_evenly (u_input ?u) (length qs)) (split_evenly (u_output ?u) (length qs))))"
    unfolding ans by (simp only: fold_update_distinct)
  with r show thesis by (rule that)
qed

interpretation llm: decider "llm_decide w system cfg" for w system cfg
proof
  fix st qs ans q
  assume a: "llm_decide w system cfg st qs = Inr ans" "distinct (map q_key qs)" "q \<in> set qs"
  then have "qs \<noteq> []" by auto
  from llm_decide_pairs[OF a(1,2) this]
  have "list_all2 (\<lambda>q ka. fst ka = q_key q \<and> answers_question q (snd ka)) qs ans"
    by (metis (no_types, lifting) length_split_evenly llm_answers_all2)
  then show "\<exists>a. map_of ans (q_key q) = Some a \<and> answers_question q a"
    by (rule answered_list) (use a in auto)
qed

section \<open>Properties\<close>

text \<open>
  C36: \<open>LLMDecider.decide\<close> answers every question of the call, in order, with a value the
  question allows or with none, and the token shares of the answers add up to the usage the
  backend reported.
\<close>

theorem llm_decide_answers:
  assumes "llm_decide w system cfg st qs = Inr ans" and "distinct (map q_key qs)" and "qs \<noteq> []"
  shows "\<exists>resp. l_step w system (build_messages w st qs) = Inr resp
    \<and> list_all2 (\<lambda>q ka. fst ka = q_key q \<and> answers_question q (snd ka)) qs ans
    \<and> sum_list (map (a_input_tokens \<circ> snd) ans)
        = u_input (case r_usage resp of None \<Rightarrow> empty_usage | Some u \<Rightarrow> u)
    \<and> sum_list (map (a_output_tokens \<circ> snd) ans)
        = u_output (case r_usage resp of None \<Rightarrow> empty_usage | Some u \<Rightarrow> u)"
proof -
  obtain resp parsed m c k where r: "l_step w system (build_messages w st qs) = Inr resp"
    and ans: "ans = map (llm_answer_one w (llm_secrets w cfg) parsed m c k)
        (zip qs (zip (split_evenly (u_input (case r_usage resp of None \<Rightarrow> empty_usage | Some u \<Rightarrow> u)) (length qs))
                     (split_evenly (u_output (case r_usage resp of None \<Rightarrow> empty_usage | Some u \<Rightarrow> u)) (length qs))))"
    using llm_decide_pairs[OF assms] by metis
  let ?u = "case r_usage resp of None \<Rightarrow> empty_usage | Some u \<Rightarrow> u"
  have "map (a_input_tokens \<circ> snd) ans = split_evenly (u_input ?u) (length qs)"
    "map (a_output_tokens \<circ> snd) ans = split_evenly (u_output ?u) (length qs)"
    unfolding ans by (auto simp: list_eq_iff_nth_eq)
  moreover have "0 < length qs" using assms(3) by simp
  moreover have "list_all2 (\<lambda>q ka. fst ka = q_key q \<and> answers_question q (snd ka)) qs ans"
    unfolding ans by (rule llm_answers_all2) simp_all
  ultimately show ?thesis using r by (auto simp: sum_split_evenly)
qed

theorem llm_decide_answers_witness:
  "\<exists>ans. llm_decide
      \<lparr>l_step = (\<lambda>_ _. Inr (make_response None [] (Some ''{}'') None None (Some (empty_usage\<lparr>u_input := 5\<rparr>)))),
       l_loads = (\<lambda>_. Some (VDict [(KStr ''a'', VBool True)])), l_dumps = (\<lambda>_. ''{}''), l_str = (\<lambda>_. []),
       l_latency_ms = 1, l_render = (\<lambda>_. ''bad''), l_litellm = None, l_env = (\<lambda>_. None)\<rparr>
      [] \<lparr>lc_model = ''m'', lc_api_key_env = None\<rparr> VNone
      [\<lparr>q_key = ''a'', q_kind = YesNo, q_instructions = ''?'', q_options = None, q_levels = None\<rparr>] = Inr ans
    \<and> sum_list (map (a_input_tokens \<circ> snd) ans) = 5"
proof -
  let ?w = "\<lparr>l_step = (\<lambda>_ _. Inr (make_response None [] (Some ''{}'') None None (Some (empty_usage\<lparr>u_input := 5\<rparr>)))),
       l_loads = (\<lambda>_. Some (VDict [(KStr ''a'', VBool True)])), l_dumps = (\<lambda>_. ''{}''), l_str = (\<lambda>_. []),
       l_latency_ms = 1, l_render = (\<lambda>_. ''bad''), l_litellm = None, l_env = (\<lambda>_. None)\<rparr>"
  let ?c = "\<lparr>lc_model = ''m'', lc_api_key_env = None\<rparr>"
  let ?qs = "[\<lparr>q_key = ''a'', q_kind = YesNo, q_instructions = ''?'', q_options = None, q_levels = None\<rparr>]"
  have "\<not> isl (llm_decide ?w [] ?c VNone ?qs)" by code_simp
  then obtain ans where a: "llm_decide ?w [] ?c VNone ?qs = Inr ans"
    by (cases "llm_decide ?w [] ?c VNone ?qs") simp_all
  with llm_decide_answers[OF a] show ?thesis by (auto simp: make_response_def)
qed

end
