(* ===== verification/Decide_Cascade.thy ===== *)
theory Decide_Cascade
  imports Decide_Types
begin

text \<open>
  The cascade of \<open>src/fabri/decide/cascade.py\<close>: every question goes to a primary decider, the
  ones it leaves unanswered or unsure go to a fallback in one batch, and an escalated answer
  carries the cost of both attempts.  The two deciders are arguments (their contract is the
  locale \<open>decider\<close>); the wall time of the primary call is an argument too.  The code
  mutates the fallback's answer objects in place, so the loop threads the fallback's
  dictionary along with the result.
\<close>

section \<open>Construction\<close>

datatype cascade_error =
    UnknownThreshold pykey
  | NotAFloat pyval
  | ThresholdRange pykey pyfloat

definition kind_of_key :: "pykey \<Rightarrow> qkind option" where
  "kind_of_key k = (case k of KStr s \<Rightarrow> parse_kind (VStr s) | _ \<Rightarrow> None)"

text \<open>\<open>float(v)\<close>; reading a string is the argument.\<close>

definition to_float :: "(string \<Rightarrow> pyfloat option) \<Rightarrow> pyval \<Rightarrow> pyfloat option" where
  "to_float parse_float v = (case v of VStr s \<Rightarrow> parse_float s | _ \<Rightarrow> num_of v)"

definition default_thresholds :: "qkind \<Rightarrow> rat" where
  "default_thresholds k = 3 / 5"

definition cascade_init ::
  "(string \<Rightarrow> pyfloat option) \<Rightarrow> pydict \<Rightarrow> cascade_error + (qkind \<Rightarrow> rat)" where
  "cascade_init parse_float thresholds =
     efold (\<lambda>merged (key, v).
        case kind_of_key key of
          None \<Rightarrow> Inl (UnknownThreshold key)
        | Some kind \<Rightarrow>
            (case to_float parse_float v of
               None \<Rightarrow> Inl (NotAFloat v)
             | Some (Fin r) \<Rightarrow>
                 if 0 \<le> r \<and> r \<le> 1 then Inr (merged(kind := r)) else Inl (ThresholdRange key (Fin r))
             | Some f \<Rightarrow> Inl (ThresholdRange key f)))
       default_thresholds thresholds"

section \<open>Deciding\<close>

definition needs_fallback :: "(qkind \<Rightarrow> rat) \<Rightarrow> question \<Rightarrow> answer option \<Rightarrow> bool" where
  "needs_fallback thr q ans =
     (case ans of
        None \<Rightarrow> True
      | Some a \<Rightarrow>
          if a_error a \<noteq> None \<or> a_value a = None then True
          else (case a_confidence a of
                  None \<Rightarrow> a_source a \<noteq> LLM
                | Some c \<Rightarrow> c < thr (q_kind q)))"

text \<open>The answer of an escalated question, charged with the primary attempt.\<close>

definition escalate_answer :: "rat \<Rightarrow> question \<Rightarrow> answer option \<Rightarrow> answer option \<Rightarrow> answer" where
  "escalate_answer primary_wall_ms q first fb =
     (let a = (case fb of Some a \<Rightarrow> a
               | None \<Rightarrow> blank_answer q LLM (Some ''fallback returned no answer for this question''));
          a = a\<lparr>a_escalated := True\<rparr>
      in case first of
           Some f \<Rightarrow>
             a\<lparr>a_cost_usd := a_cost_usd a + a_cost_usd f,
               a_input_tokens := a_input_tokens a + a_input_tokens f,
               a_output_tokens := a_output_tokens a + a_output_tokens f,
               a_latency_ms := a_latency_ms a + a_latency_ms f,
               a_cost_known := a_cost_known a \<and> a_cost_known f\<rparr>
         | None \<Rightarrow> a\<lparr>a_latency_ms := a_latency_ms a + primary_wall_ms\<rparr>)"

definition cascade_step ::
  "rat \<Rightarrow> answers \<Rightarrow> string set \<Rightarrow> question \<Rightarrow> answers \<times> answers \<Rightarrow> answers \<times> answers" where
  "cascade_step primary_wall_ms primary escalated_keys q = (\<lambda>(fallback, out).
     if q_key q \<notin> escalated_keys
     then (fallback, (case map_of primary (q_key q) of
                        None \<Rightarrow> out | Some a \<Rightarrow> AList.update (q_key q) a out))
     else (let a = escalate_answer primary_wall_ms q (map_of primary (q_key q)) (map_of fallback (q_key q))
           in ((if map_of fallback (q_key q) = None then fallback else AList.update (q_key q) a fallback),
               AList.update (q_key q) a out)))"

definition cascade_merge ::
  "rat \<Rightarrow> answers \<Rightarrow> question list \<Rightarrow> answers \<Rightarrow> question list \<Rightarrow> answers" where
  "cascade_merge primary_wall_ms primary escalated fallback questions =
     snd (fold (cascade_step primary_wall_ms primary (q_key ` set escalated)) questions (fallback, []))"

definition cascade_decide ::
  "(qkind \<Rightarrow> rat) \<Rightarrow> rat \<Rightarrow> (pyval \<Rightarrow> question list \<Rightarrow> decide_exc + answers)
     \<Rightarrow> (pyval \<Rightarrow> question list \<Rightarrow> decide_exc + answers)
     \<Rightarrow> pyval \<Rightarrow> question list \<Rightarrow> decide_exc + answers" where
  "cascade_decide thr primary_wall_ms primary_decide fallback_decide state questions =
     (if questions = [] then Inr []
      else ebind
        (case primary_decide state questions of
           Inr p \<Rightarrow> Inr (p, None)
         | Inl (DecideErr e) \<Rightarrow> Inr ([], Some e)
         | Inl e \<Rightarrow> Inl e)
        (\<lambda>(primary, primary_error).
          let escalated = filter (\<lambda>q. needs_fallback thr q (map_of primary (q_key q))) questions in
          if escalated = [] then Inr (cascade_merge primary_wall_ms primary [] [] questions)
          else (case fallback_decide state escalated of
                  Inr fallback \<Rightarrow> Inr (cascade_merge primary_wall_ms primary escalated fallback questions)
                | Inl (DecideErr e) \<Rightarrow> Inl (DecideErr (CascadeFailed primary_error e))
                | Inl e \<Rightarrow> Inl e)))"

section \<open>Lemmas\<close>

lemma cascade_init_range:
  assumes "cascade_init pf thresholds = Inr thr"
  shows "0 \<le> thr k \<and> thr k \<le> 1"
proof -
  have "\<forall>k. 0 \<le> thr k \<and> thr k \<le> 1"
    by (rule efold_invariant[OF assms[unfolded cascade_init_def]])
      (auto simp: default_thresholds_def split: option.splits pyfloat.splits if_splits)
  then show ?thesis by blast
qed

text \<open>With distinct keys no mutated object is met again: the merge is a map over the questions.\<close>

definition merged_answer ::
  "rat \<Rightarrow> answers \<Rightarrow> question list \<Rightarrow> answers \<Rightarrow> question \<Rightarrow> answer" where
  "merged_answer wall primary escalated fallback q =
     (if q_key q \<in> q_key ` set escalated
      then escalate_answer wall q (map_of primary (q_key q)) (map_of fallback (q_key q))
      else the (map_of primary (q_key q)))"

lemma map_of_update_other: "k \<noteq> k' \<Longrightarrow> map_of (AList.update k v d) k' = map_of d k'"
  by (simp add: update_conv')

lemma cascade_fold:
  assumes "distinct (map q_key qs)" and "fst ` set out \<inter> q_key ` set qs = {}"
    and "\<And>q. q \<in> set qs \<Longrightarrow> q_key q \<notin> q_key ` set esc \<Longrightarrow> map_of primary (q_key q) \<noteq> None"
    and "\<And>q. q \<in> set qs \<Longrightarrow> map_of fb (q_key q) = map_of fb0 (q_key q)"
  shows "snd (fold (cascade_step wall primary (q_key ` set esc)) qs (fb, out))
     = out @ map (\<lambda>q. (q_key q, merged_answer wall primary esc fb0 q)) qs"
  using assms
proof (induction qs arbitrary: fb out)
  case Nil
  then show ?case by simp
next
  case (Cons q qs)
  let ?a = "merged_answer wall primary esc fb0 q"
  obtain fb' where step: "cascade_step wall primary (q_key ` set esc) q (fb, out) = (fb', out @ [(q_key q, ?a)])"
    and fb': "\<And>k. k \<noteq> q_key q \<Longrightarrow> map_of fb' k = map_of fb k"
  proof (cases "q_key q \<in> q_key ` set esc")
    case True
    then show ?thesis
      using Cons.prems(2) Cons.prems(4)[of q] that
      by (auto simp: cascade_step_def merged_answer_def Let_def update_fresh map_of_update_other)
  next
    case False
    with Cons.prems(2) Cons.prems(3)[of q] that show ?thesis
      by (auto simp: cascade_step_def merged_answer_def update_fresh)
  qed
  have "snd (fold (cascade_step wall primary (q_key ` set esc)) qs (fb', out @ [(q_key q, ?a)]))
     = (out @ [(q_key q, ?a)]) @ map (\<lambda>q. (q_key q, merged_answer wall primary esc fb0 q)) qs"
  proof (rule Cons.IH)
    show "distinct (map q_key qs)" using Cons.prems(1) by simp
    show "fst ` set (out @ [(q_key q, ?a)]) \<inter> q_key ` set qs = {}"
      using Cons.prems(1,2) by auto
    show "map_of primary (q_key q') \<noteq> None" if "q' \<in> set qs" "q_key q' \<notin> q_key ` set esc" for q'
      using Cons.prems(3) that by simp
    show "map_of fb' (q_key q') = map_of fb0 (q_key q')" if "q' \<in> set qs" for q'
    proof -
      from that have "q_key q' \<in> q_key ` set qs" by simp
      with Cons.prems(1) have "q_key q' \<noteq> q_key q" by auto
      with Cons.prems(4) that show ?thesis by (simp add: fb')
    qed
  qed
  with step show ?case by simp
qed

lemma cascade_merge_map:
  assumes "distinct (map q_key qs)"
    and "\<And>q. q \<in> set qs \<Longrightarrow> q_key q \<notin> q_key ` set esc \<Longrightarrow> map_of primary (q_key q) \<noteq> None"
  shows "cascade_merge wall primary esc fb qs = map (\<lambda>q. (q_key q, merged_answer wall primary esc fb q)) qs"
proof -
  have "snd (fold (cascade_step wall primary (q_key ` set esc)) qs (fb, []))
     = [] @ map (\<lambda>q. (q_key q, merged_answer wall primary esc fb q)) qs"
    by (rule cascade_fold) (use assms in auto)
  then show ?thesis by (simp add: cascade_merge_def)
qed

text \<open>What a successful call computed: the primary's answers, the escalated questions, the fallback's.\<close>

lemma cascade_decide_Inr:
  assumes "cascade_decide thr wall pd fd st qs = Inr out" and "distinct (map q_key qs)"
  obtains primary esc fb where
    "esc = filter (\<lambda>q. needs_fallback thr q (map_of primary (q_key q))) qs"
    "pd st qs = Inr primary \<or> (\<exists>e. pd st qs = Inl (DecideErr e) \<and> primary = []) \<or> qs = []"
    "esc = [] \<and> fb = [] \<or> fd st esc = Inr fb"
    "out = map (\<lambda>q. (q_key q, merged_answer wall primary esc fb q)) qs"
proof (cases "qs = []")
  case True
  with assms(1) show ?thesis by (intro that[of "[]" "[]" "[]"]) (auto simp: cascade_decide_def)
next
  case False
  from assms(1) False obtain primary perr where
    p: "pd st qs = Inr primary \<or> (\<exists>e. pd st qs = Inl (DecideErr e) \<and> primary = [])" and
    rest: "(let escalated = filter (\<lambda>q. needs_fallback thr q (map_of primary (q_key q))) qs in
          if escalated = [] then Inr (cascade_merge wall primary [] [] qs)
          else (case fd st escalated of
                  Inr fallback \<Rightarrow> Inr (cascade_merge wall primary escalated fallback qs)
                | Inl (DecideErr e) \<Rightarrow> Inl (DecideErr (CascadeFailed perr e))
                | Inl e \<Rightarrow> Inl e)) = Inr out"
    by (auto simp: cascade_decide_def split: sum.splits decide_exc.splits)
  let ?esc = "filter (\<lambda>q. needs_fallback thr q (map_of primary (q_key q))) qs"
  from rest obtain fb where fb: "?esc = [] \<and> fb = [] \<or> fd st ?esc = Inr fb"
    and out: "out = cascade_merge wall primary ?esc fb qs"
    by (auto simp: Let_def split: if_splits sum.splits decide_exc.splits)
  have known: "map_of primary (q_key q) \<noteq> None" if "q \<in> set qs" "q_key q \<notin> q_key ` set ?esc" for q
    using that by (auto simp: needs_fallback_def image_iff split: option.splits)
  have "out = map (\<lambda>q. (q_key q, merged_answer wall primary ?esc fb q)) qs"
    unfolding out by (rule cascade_merge_map[OF assms(2) known])
  with p show ?thesis by (intro that[OF refl _ fb]) auto
qed

lemma escaped_iff:
  "distinct (map q_key qs) \<Longrightarrow> q \<in> set qs \<Longrightarrow> q_key q \<in> q_key ` set (filter P qs) \<longleftrightarrow> P q"
  by (auto simp: distinct_map dest: inj_onD)

lemma escalate_answer_fields [simp]:
  "a_key (escalate_answer w q f (Some a)) = a_key a"
  "a_value (escalate_answer w q f (Some a)) = a_value a"
  "a_value (escalate_answer w q f None) = None"
  "a_key (escalate_answer w q f None) = q_key q"
  "a_escalated (escalate_answer w q f fb)"
  by (cases f; cases fb; simp add: escalate_answer_def blank_answer_def)+

subsection \<open>Accounting\<close>

text \<open>What a dictionary of answers charges under a key, 0 for a key it lacks.\<close>

definition charged :: "(answer \<Rightarrow> 'n::comm_monoid_add) \<Rightarrow> answers \<Rightarrow> string \<Rightarrow> 'n" where
  "charged g m k = (case map_of m k of None \<Rightarrow> 0 | Some a \<Rightarrow> g a)"

lemma merged_charge:
  fixes g :: "answer \<Rightarrow> 'n::comm_monoid_add"
  assumes add: "\<And>w q f b. g (escalate_answer w q f b)
       = (case f of None \<Rightarrow> 0 | Some a \<Rightarrow> g a) + (case b of None \<Rightarrow> 0 | Some a \<Rightarrow> g a)"
    and "distinct (map q_key qs)"
    and "esc = filter (\<lambda>q. needs_fallback thr q (map_of prim (q_key q))) qs"
  shows "sum_list (map (\<lambda>q. g (merged_answer wall prim esc fb q)) qs)
     = sum_list (map (\<lambda>q. charged g prim (q_key q)) qs) + sum_list (map (\<lambda>q. charged g fb (q_key q)) esc)"
proof -
  let ?P = "\<lambda>q. needs_fallback thr q (map_of prim (q_key q))"
  have one: "g (merged_answer wall prim esc fb q)
      = charged g prim (q_key q) + (if ?P q then charged g fb (q_key q) else 0)" if "q \<in> set qs" for q
  proof (cases "?P q")
    case True
    with that have "q_key q \<in> q_key ` set esc" by (simp add: assms(3))
    with True show ?thesis by (simp add: merged_answer_def add charged_def)
  next
    case False
    then have "q_key q \<notin> q_key ` set esc"
      unfolding assms(3) by (simp only: escaped_iff[OF assms(2) that] not_False_eq_True)
    with False show ?thesis
      by (auto simp: merged_answer_def charged_def needs_fallback_def split: option.splits)
  qed
  have "sum_list (map (\<lambda>q. g (merged_answer wall prim esc fb q)) qs)
     = sum_list (map (\<lambda>q. charged g prim (q_key q) + (if ?P q then charged g fb (q_key q) else 0)) qs)"
    by (intro arg_cong[where f = sum_list] map_cong) (simp_all add: one)
  also have "\<dots> = sum_list (map (\<lambda>q. charged g prim (q_key q)) qs)
      + sum_list (map (\<lambda>q. charged g fb (q_key q)) (filter ?P qs))"
    by (induction qs) (auto simp: add.assoc add.left_commute)
  finally show ?thesis by (simp add: assms(3))
qed

lemma escalate_charges:
  "a_cost_usd (escalate_answer w q f b)
     = (case f of None \<Rightarrow> 0 | Some a \<Rightarrow> a_cost_usd a) + (case b of None \<Rightarrow> 0 | Some a \<Rightarrow> a_cost_usd a)"
  "a_input_tokens (escalate_answer w q f b)
     = (case f of None \<Rightarrow> 0 | Some a \<Rightarrow> a_input_tokens a) + (case b of None \<Rightarrow> 0 | Some a \<Rightarrow> a_input_tokens a)"
  "a_output_tokens (escalate_answer w q f b)
     = (case f of None \<Rightarrow> 0 | Some a \<Rightarrow> a_output_tokens a) + (case b of None \<Rightarrow> 0 | Some a \<Rightarrow> a_output_tokens a)"
  by (auto simp: escalate_answer_def blank_answer_def split: option.splits)

locale cascade_pair =
  primary: decider primary_decide + fallback: decider fallback_decide
  for primary_decide fallback_decide :: "pyval \<Rightarrow> question list \<Rightarrow> decide_exc + answers"
begin

lemma merged_answers_question:
  assumes "distinct (map q_key qs)" and "q \<in> set qs"
    and "esc = filter (\<lambda>q. needs_fallback thr q (map_of prim (q_key q))) qs"
    and "primary_decide st qs = Inr prim \<or> (\<exists>e. primary_decide st qs = Inl (DecideErr e) \<and> prim = []) \<or> qs = []"
    and "esc = [] \<and> fb = [] \<or> fallback_decide st esc = Inr fb"
  shows "answers_question q (merged_answer wall prim esc fb q)"
proof (cases "q_key q \<in> q_key ` set esc")
  case True
  then have "needs_fallback thr q (map_of prim (q_key q))"
    unfolding assms(3) by (simp only: escaped_iff[OF assms(1,2)])
  then have q: "q \<in> set esc" using assms(2) unfolding assms(3) by simp
  then have ne: "esc \<noteq> []" by auto
  have "distinct (map q_key esc)" using assms(1) unfolding assms(3) by (rule distinct_map_filter)
  moreover from ne assms(5) have "fallback_decide st esc = Inr fb" by simp
  ultimately obtain a where "map_of fb (q_key q) = Some a" "answers_question q a"
    using fallback.answered[OF _ _ q] by metis
  with True show ?thesis by (simp add: merged_answer_def answers_question_def)
next
  case False
  then have "\<not> needs_fallback thr q (map_of prim (q_key q))"
    unfolding assms(3) by (simp only: escaped_iff[OF assms(1,2)] not_False_eq_True)
  then obtain a where a: "map_of prim (q_key q) = Some a"
    by (auto simp: needs_fallback_def split: option.splits)
  with assms(2,4) have "primary_decide st qs = Inr prim" by auto
  from primary.answered[OF this assms(1,2)] a False show ?thesis by (simp add: merged_answer_def)
qed

sublocale cascade: decider "cascade_decide thr wall primary_decide fallback_decide" for thr wall
proof
  fix st qs ans q
  assume a: "cascade_decide thr wall primary_decide fallback_decide st qs = Inr ans"
    "distinct (map q_key qs)" "q \<in> set qs"
  from a(1,2) show "\<exists>a. map_of ans (q_key q) = Some a \<and> answers_question q a"
  proof (rule cascade_decide_Inr)
    fix prim esc fb
    assume h: "esc = filter (\<lambda>q. needs_fallback thr q (map_of prim (q_key q))) qs"
      "primary_decide st qs = Inr prim \<or> (\<exists>e. primary_decide st qs = Inl (DecideErr e) \<and> prim = []) \<or> qs = []"
      "esc = [] \<and> fb = [] \<or> fallback_decide st esc = Inr fb"
      and ans: "ans = map (\<lambda>q. (q_key q, merged_answer wall prim esc fb q)) qs"
    have "list_all2 (\<lambda>q ka. fst ka = q_key q \<and> answers_question q (snd ka)) qs ans"
      unfolding ans using merged_answers_question[OF a(2) _ h] by (auto simp: list_all2_map2 list.rel_refl_strong)
    then show ?thesis by (rule answered_list) (use a in auto)
  qed
qed

lemma cascade_decider: "decider (cascade_decide thr wall primary_decide fallback_decide)"
  by unfold_locales

end

section \<open>Properties\<close>

text \<open>
  C34: A cascade answers every question exactly once, in order, and never loses a charge: the
  cost and the input and output tokens of its answers are those of the primary call's answers
  plus those of the fallback's answers to the escalated questions (\<open>CascadeDecider.decide\<close>).
\<close>

theorem cascade_conserves_charges:
  assumes "cascade_decide thr wall pd fd st qs = Inr out" and "distinct (map q_key qs)"
  shows "\<exists>primary esc fb. esc = filter (\<lambda>q. needs_fallback thr q (map_of primary (q_key q))) qs
    \<and> (pd st qs = Inr primary \<or> (\<exists>e. pd st qs = Inl (DecideErr e) \<and> primary = []) \<or> qs = [])
    \<and> (esc = [] \<and> fb = [] \<or> fd st esc = Inr fb)
    \<and> map fst out = map q_key qs
    \<and> (\<forall>g \<in> {a_input_tokens, a_output_tokens}. sum_list (map (g \<circ> snd) out)
         = sum_list (map (\<lambda>q. charged g primary (q_key q)) qs)
           + sum_list (map (\<lambda>q. charged g fb (q_key q)) esc))
    \<and> sum_list (map (a_cost_usd \<circ> snd) out)
         = sum_list (map (\<lambda>q. charged a_cost_usd primary (q_key q)) qs)
           + sum_list (map (\<lambda>q. charged a_cost_usd fb (q_key q)) esc)"
proof -
  obtain primary esc fb where
    h: "esc = filter (\<lambda>q. needs_fallback thr q (map_of primary (q_key q))) qs"
    "pd st qs = Inr primary \<or> (\<exists>e. pd st qs = Inl (DecideErr e) \<and> primary = []) \<or> qs = []"
    "esc = [] \<and> fb = [] \<or> fd st esc = Inr fb" and
    out: "out = map (\<lambda>q. (q_key q, merged_answer wall primary esc fb q)) qs"
    by (rule cascade_decide_Inr[OF assms])
  have c: "sum_list (map (g \<circ> snd) out)
      = sum_list (map (\<lambda>q. charged g primary (q_key q)) qs) + sum_list (map (\<lambda>q. charged g fb (q_key q)) esc)"
    if "\<And>w q f b. g (escalate_answer w q f b)
       = (case f of None \<Rightarrow> 0 | Some a \<Rightarrow> g a) + (case b of None \<Rightarrow> 0 | Some a \<Rightarrow> g a)"
    for g :: "answer \<Rightarrow> 'n::comm_monoid_add"
    using merged_charge[OF that assms(2) h(1), of wall fb] by (simp add: out comp_def)
  have "map fst out = map q_key qs" by (simp add: out comp_def)
  moreover have "\<forall>g \<in> {a_input_tokens, a_output_tokens}. sum_list (map (g \<circ> snd) out)
         = sum_list (map (\<lambda>q. charged g primary (q_key q)) qs)
           + sum_list (map (\<lambda>q. charged g fb (q_key q)) esc)"
    using c[OF escalate_charges(2)] c[OF escalate_charges(3)] by simp
  ultimately show ?thesis using h c[OF escalate_charges(1)]
    by (intro exI[of _ primary] exI[of _ esc] exI[of _ fb] conjI) assumption+
qed

theorem cascade_conserves_charges_witness:
  "\<exists>out. cascade_decide default_thresholds 1
      (\<lambda>_ _. Inr [(''a'', (blank_answer \<lparr>q_key = ''a'', q_kind = YesNo, q_instructions = ''?'', q_options = None, q_levels = None\<rparr> Jev None)
         \<lparr>a_cost_usd := 2\<rparr>)])
      (\<lambda>_ _. Inr [(''a'', (blank_answer \<lparr>q_key = ''a'', q_kind = YesNo, q_instructions = ''?'', q_options = None, q_levels = None\<rparr> LLM None)
         \<lparr>a_value := Some (ABool True), a_cost_usd := 3\<rparr>)]) VNone
      [\<lparr>q_key = ''a'', q_kind = YesNo, q_instructions = ''?'', q_options = None, q_levels = None\<rparr>] = Inr out
    \<and> sum_list (map (a_cost_usd \<circ> snd) out) = 5"
proof -
  let ?q = "\<lparr>q_key = ''a'', q_kind = YesNo, q_instructions = ''?'', q_options = None, q_levels = None\<rparr>"
  let ?pd = "\<lambda>_ _. Inr [(''a'', (blank_answer ?q Jev None)\<lparr>a_cost_usd := 2\<rparr>)]"
  let ?fd = "\<lambda>_ _. Inr [(''a'', (blank_answer ?q LLM None)\<lparr>a_value := Some (ABool True), a_cost_usd := 3\<rparr>)]"
  have "\<not> isl (cascade_decide default_thresholds 1 ?pd ?fd VNone [?q])" by code_simp
  then obtain out where out: "cascade_decide default_thresholds 1 ?pd ?fd VNone [?q] = Inr out"
    by (cases "cascade_decide default_thresholds 1 ?pd ?fd VNone [?q]") simp_all
  from cascade_conserves_charges[OF out] have "sum_list (map (a_cost_usd \<circ> snd) out) = 5"
    by (auto simp: needs_fallback_def blank_answer_def charged_def split: if_splits)
  with out show ?thesis by blast
qed

end
