(* ===== verification/Decide_Tree.thy ===== *)
theory Decide_Tree
  imports Decide_Llm Decide_Cascade
begin

text \<open>
  Decision trees (\<open>src/fabri/decide/tree.py\<close>): building a decider from its config block,
  parsing and validating a tree, and walking it.  A tree is loaded from an already parsed
  mapping; reading the YAML file is not modelled.  \<open>_validate_graph\<close> is modelled as written,
  with its memo of depths and its path stack; the walk over the graph terminates because a
  node on the path is never entered again.
\<close>

section \<open>Building a decider\<close>

datatype decider_spec =
    SpecJev pydict
  | SpecLlm pydict
  | SpecCascade decider_spec decider_spec "qkind \<Rightarrow> rat"

datatype build_error =
    NotAMapping
  | UnknownKind pyval
  | CascadeParts
  | InvalidJev
  | InvalidLlm
  | InvalidCascade cascade_error
  | Escapes  \<comment> \<open>an \<open>AttributeError\<close>, which \<open>build_decider\<close> does not translate\<close>

definition jev_providers :: "string list" where
  "jev_providers = [''typesafe'', ''openrouter'']"

text \<open>\<open>JevDecider(**kwargs)\<close> over the keys the block sets; \<open>url_ok\<close> says whether \<open>urlsplit\<close> accepts.\<close>

definition jev_kwargs :: "pydict \<Rightarrow> pydict" where
  "jev_kwargs cfg =
     map (\<lambda>k. (KStr k, dict_get cfg k))
       (filter (\<lambda>k. dict_get cfg k \<noteq> VNone) [''model'', ''provider'', ''api_key_env'', ''base_url'', ''timeout_s''])"

definition jev_init :: "(string \<Rightarrow> bool) \<Rightarrow> pydict \<Rightarrow> build_error + decider_spec" where
  "jev_init url_ok kwargs =
     (case dict_get_default kwargs ''provider'' (VStr ''typesafe'') of
        VStr p \<Rightarrow>
          if p \<notin> set jev_providers then Inl InvalidJev
          else (case dict_get kwargs ''base_url'' of
              VStr u \<Rightarrow> if u = [] \<or> url_ok u then Inr (SpecJev kwargs) else Inl InvalidJev
            | v \<Rightarrow> if truthy v then Inl Escapes else Inr (SpecJev kwargs))
      | _ \<Rightarrow> Inl InvalidJev)"

definition llm_init :: "pyval \<Rightarrow> build_error + decider_spec" where
  "llm_init block =
     (case (if truthy block then block else VDict []) of
        VDict d \<Rightarrow> if truthy (dict_get d ''model'') then Inr (SpecLlm d) else Inl InvalidLlm
      | _ \<Rightarrow> Inl InvalidLlm)"

definition threshold_items :: "pyval \<Rightarrow> build_error + pydict" where
  "threshold_items v =
     (if \<not> truthy v then Inr [] else case v of VDict d \<Rightarrow> Inr d | _ \<Rightarrow> Inl Escapes)"

function build_decider ::
  "(string \<Rightarrow> pyfloat option) \<Rightarrow> (string \<Rightarrow> bool) \<Rightarrow> pyval \<Rightarrow> build_error + decider_spec" where
  "build_decider parse_float url_ok cfg =
     (case cfg of
        VDict d \<Rightarrow>
          (let kind = dict_get d ''kind'' in
           if kind = VStr ''jev'' then jev_init url_ok (jev_kwargs d)
           else if kind = VStr ''llm'' then llm_init (dict_get d ''llm'')
           else if kind = VStr ''cascade'' then
             (case (dict_lookup d ''primary'', dict_lookup d ''fallback'') of
                (Some p, Some f) \<Rightarrow>
                  ebind (build_decider parse_float url_ok p) (\<lambda>ps.
                  ebind (build_decider parse_float url_ok f) (\<lambda>fs.
                  ebind (threshold_items (dict_get d ''thresholds'')) (\<lambda>ts.
                  case cascade_init parse_float ts of
                    Inl e \<Rightarrow> Inl (InvalidCascade e)
                  | Inr thr \<Rightarrow> Inr (SpecCascade ps fs thr))))
              | _ \<Rightarrow> Inl CascadeParts)
           else Inl (UnknownKind kind))
      | _ \<Rightarrow> Inl NotAMapping)"
  by pat_completeness auto
termination
  by (relation "measure (\<lambda>(pf, u, cfg). size cfg)") (use dict_lookup_size in auto)

declare build_decider.simps [simp del]

subsection \<open>The decider a block describes\<close>

text \<open>\<open>Provider.coerce\<close> and the provider's default key variable; \<open>pstr\<close> is Python's \<open>str\<close>.\<close>

definition providers :: "string list" where
  "providers = [''gemini'', ''anthropic'', ''openai'', ''openrouter'', ''bedrock'']"

definition provider_coerce :: "(pyval \<Rightarrow> string) \<Rightarrow> pyval \<Rightarrow> string option" where
  "provider_coerce pstr v =
     (if v = VNone then None else let s = lower (pstr v) in if s \<in> set providers then Some s else None)"

definition default_key_env :: "string \<Rightarrow> string option" where
  "default_key_env =
     map_of [(''anthropic'', ''ANTHROPIC_API_KEY''), (''openai'', ''OPENAI_API_KEY''),
             (''openrouter'', ''OPENROUTER_API_KEY''), (''gemini'', ''GEMINI_API_KEY'')]"

definition llm_config_of :: "(pyval \<Rightarrow> string) \<Rightarrow> pydict \<Rightarrow> llm_config" where
  "llm_config_of pstr d =
     \<lparr>lc_model = pstr (dict_get d ''model''),
      lc_api_key_env =
        (if truthy (dict_get d ''api_key_env'') then Some (pstr (dict_get d ''api_key_env''))
         else let raw = dict_get d ''provider'';
                  p = (if truthy raw then provider_coerce pstr raw else Some ''gemini'')
              in case p of None \<Rightarrow> None | Some n \<Rightarrow> default_key_env n)\<rparr>"

definition jev_key_env :: "string \<Rightarrow> string" where
  "jev_key_env provider = (if provider = ''openrouter'' then ''OPENROUTER_API_KEY'' else ''TYPESAFE_API_KEY'')"

definition jev_config_of :: "(pyval \<Rightarrow> string) \<Rightarrow> pydict \<Rightarrow> jev_config" where
  "jev_config_of pstr kwargs =
     \<lparr>j_model = pstr (dict_get_default kwargs ''model'' (VStr ''jev-1.13.0'')),
      j_api_key_env =
        (if truthy (dict_get kwargs ''api_key_env'') then pstr (dict_get kwargs ''api_key_env'')
         else jev_key_env (pstr (dict_get_default kwargs ''provider'' (VStr ''typesafe''))))\<rparr>"

text \<open>
  The object \<open>build_decider\<close> returns, as its \<open>decide\<close> method.  The worlds of the deciders
  (environment, transport, JSON parser) are parameters; \<open>wall\<close> is the time a primary call took.
\<close>

fun decider_of ::
  "(pyval \<Rightarrow> string) \<Rightarrow> (pydict \<Rightarrow> jev_world) \<Rightarrow> (pydict \<Rightarrow> llm_world) \<Rightarrow> string \<Rightarrow> rat
     \<Rightarrow> decider_spec \<Rightarrow> pyval \<Rightarrow> question list \<Rightarrow> decide_exc + answers" where
  "decider_of pstr jw lw system wall (SpecJev d) = jev_decide (jw d) (jev_config_of pstr d)"
| "decider_of pstr jw lw system wall (SpecLlm d) = llm_decide (lw d) system (llm_config_of pstr d)"
| "decider_of pstr jw lw system wall (SpecCascade p f thr) =
     cascade_decide thr wall (decider_of pstr jw lw system wall p) (decider_of pstr jw lw system wall f)"

section \<open>Trees\<close>

datatype target = NodeRef string | Leaf pydict

record tree_node =
  tn_name :: string
  tn_question :: question
  tn_branches :: "(string \<times> target) list"

type_synonym tree_nodes = "(string \<times> tree_node) list"

datatype tree_error =
    TreeNotMapping
  | NoNodes
  | NoStart
  | NodeNotMapping string
  | BadQuestion string question_error
  | BranchesEmpty string
  | BranchBool string bool
  | BranchUndeclared string string
  | BranchTarget string string
  | BranchMissing string "string list"
  | StartMissing string
  | MissingTarget string string string
  | Cycle "string list"
  | UnknownNode string
  | TooDeep nat
  | NoDecider
  | BadDecider build_error

definition max_depth :: nat where "max_depth = 16"

definition parse_branch ::
  "string \<Rightarrow> question \<Rightarrow> (string \<times> target) list \<Rightarrow> pykey \<times> pyval \<Rightarrow> tree_error + (string \<times> target) list" where
  "parse_branch name q branches = (\<lambda>(key, tgt).
     case (key, q_kind q = YesNo) of
       (KBool b, False) \<Rightarrow> Inl (BranchBool name b)
     | _ \<Rightarrow>
         (let k = side_key key in
          if k \<notin> set (map value_key (allowed_values q)) then Inl (BranchUndeclared name k)
          else (case tgt of
              VStr s \<Rightarrow> Inr (AList.update k (NodeRef s) branches)
            | VDict d \<Rightarrow>
                if fst ` set d = {KStr ''leaf''} \<and> is_dict (dict_get d ''leaf'')
                then Inr (AList.update k (Leaf (case dict_get d ''leaf'' of VDict l \<Rightarrow> l | _ \<Rightarrow> [])) branches)
                else Inl (BranchTarget name k)
            | _ \<Rightarrow> Inl (BranchTarget name k))))"

definition parse_branches :: "string \<Rightarrow> question \<Rightarrow> pyval \<Rightarrow> tree_error + (string \<times> target) list" where
  "parse_branches name q raw =
     (case raw of
        VDict d \<Rightarrow>
          if d = [] then Inl (BranchesEmpty name)
          else ebind (efold (parse_branch name q) [] d) (\<lambda>branches.
            let missing = filter (\<lambda>a. a \<notin> fst ` set branches) (map value_key (allowed_values q))
            in if missing \<noteq> [] then Inl (BranchMissing name missing) else Inr branches)
      | _ \<Rightarrow> Inl (BranchesEmpty name))"

definition node_targets :: "tree_node \<Rightarrow> string list" where
  "node_targets nd =
     concat (map (\<lambda>(_, t). case t of NodeRef s \<Rightarrow> [s] | Leaf _ \<Rightarrow> []) (tn_branches nd))"

subsection \<open>The graph check\<close>

fun max_default :: "nat list \<Rightarrow> nat" where
  "max_default [] = 0"
| "max_default (n # ns) = max n (max_default ns)"

text \<open>
  \<open>walk\<close> returns the depth of a node and the extended memo; \<open>walk_all\<close> is the list
  comprehension over the node's targets.
\<close>

function walk ::
  "tree_nodes \<Rightarrow> string list \<Rightarrow> (string \<times> nat) list \<Rightarrow> string \<Rightarrow> tree_error + nat \<times> (string \<times> nat) list"
  and walk_all ::
  "tree_nodes \<Rightarrow> string list \<Rightarrow> (string \<times> nat) list \<Rightarrow> string list
     \<Rightarrow> tree_error + nat list \<times> (string \<times> nat) list" where
  "walk nodes on_path depth name =
     (if name \<in> set on_path then Inl (Cycle (dropWhile (\<lambda>n. n \<noteq> name) on_path @ [name]))
      else case map_of depth name of
        Some d \<Rightarrow> Inr (d, depth)
      | None \<Rightarrow>
          (case map_of nodes name of
             None \<Rightarrow> Inl (UnknownNode name)
           | Some nd \<Rightarrow>
               ebind (walk_all nodes (on_path @ [name]) depth (node_targets nd)) (\<lambda>(below, depth').
                 let d = 1 + max_default below in Inr (d, AList.update name d depth'))))"
| "walk_all nodes on_path depth [] = Inr ([], depth)"
| "walk_all nodes on_path depth (t # ts) =
     ebind (walk nodes on_path depth t) (\<lambda>(d, depth').
       ebind (walk_all nodes on_path depth' ts) (\<lambda>(ds, depth''). Inr (d # ds, depth'')))"
  by pat_completeness auto
termination
proof (relation "measures
    [\<lambda>x. case x of Inl (nodes, on_path, depth, name) \<Rightarrow> card (fst ` set nodes - set on_path)
                 | Inr (nodes, on_path, depth, ts) \<Rightarrow> card (fst ` set nodes - set on_path),
     \<lambda>x. case x of Inl _ \<Rightarrow> 0 | Inr (nodes, on_path, depth, ts) \<Rightarrow> Suc (length ts)]")
  fix nodes :: tree_nodes and on_path depth name nd
  assume n: "name \<notin> set on_path" "map_of nodes name = Some nd"
  then have "name \<in> fst ` set nodes - set on_path" by (auto dest: map_of_SomeD intro: rev_image_eqI)
  then have "card (fst ` set nodes - set (on_path @ [name])) < card (fst ` set nodes - set on_path)"
    by (intro psubset_card_mono) auto
  then show "(Inr (nodes, on_path @ [name], depth, node_targets nd), Inl (nodes, on_path, depth, name))
    \<in> measures [\<lambda>x. case x of Inl (nodes, on_path, depth, name) \<Rightarrow> card (fst ` set nodes - set on_path)
                 | Inr (nodes, on_path, depth, ts) \<Rightarrow> card (fst ` set nodes - set on_path),
     \<lambda>x. case x of Inl _ \<Rightarrow> 0 | Inr (nodes, on_path, depth, ts) \<Rightarrow> Suc (length ts)]"
    by simp
qed auto

declare walk.simps [simp del]

definition check_targets :: "tree_nodes \<Rightarrow> tree_error + unit" where
  "check_targets nodes =
     efold (\<lambda>_ (_, nd). efold (\<lambda>_ (k, t).
        case t of NodeRef s \<Rightarrow> if s \<in> fst ` set nodes then Inr () else Inl (MissingTarget (tn_name nd) k s)
                | Leaf _ \<Rightarrow> Inr ()) () (tn_branches nd)) () nodes"

definition validate_graph :: "string \<Rightarrow> tree_nodes \<Rightarrow> tree_error + unit" where
  "validate_graph start nodes =
     (if start \<notin> fst ` set nodes then Inl (StartMissing start)
      else ebind (check_targets nodes) (\<lambda>_.
        ebind (efold (\<lambda>depth (name, _). ebind (walk nodes [] depth name) (\<lambda>(_, depth'). Inr depth')) [] nodes)
        (\<lambda>depth. if max_depth < the (map_of depth start) then Inl (TooDeep (the (map_of depth start)))
                 else Inr ())))"

subsection \<open>Loading\<close>

record dtree =
  t_name :: pyval
  t_start :: string
  t_nodes :: tree_nodes

definition parse_node :: "tree_nodes \<Rightarrow> pykey \<times> pyval \<Rightarrow> tree_error + tree_nodes" where
  "parse_node nodes = (\<lambda>(key, raw).
     let name = key_str key in
     case raw of
       VDict d \<Rightarrow>
         (case question_from_dict name (if truthy (dict_get d ''question'') then dict_get d ''question'' else VDict []) of
            Inl e \<Rightarrow> Inl (BadQuestion name e)
          | Inr q \<Rightarrow> ebind (parse_branches name q (dict_get d ''branches'')) (\<lambda>bs.
              Inr (AList.update name \<lparr>tn_name = name, tn_question = q, tn_branches = bs\<rparr> nodes)))
     | _ \<Rightarrow> Inl (NodeNotMapping name))"

text \<open>\<open>DecisionTree.from_yaml\<close> on a mapping; the given decider overrides the config's block.\<close>

definition tree_from_data ::
  "(string \<Rightarrow> pyfloat option) \<Rightarrow> (string \<Rightarrow> bool) \<Rightarrow> pyval \<Rightarrow> decider_spec option
     \<Rightarrow> tree_error + dtree \<times> decider_spec" where
  "tree_from_data parse_float url_ok source given =
     (case source of
        VDict data \<Rightarrow>
          (case dict_get data ''nodes'' of
             VDict raw_nodes \<Rightarrow>
               if raw_nodes = [] then Inl NoNodes
               else (case dict_get data ''start'' of
                   VStr start \<Rightarrow>
                     if start = [] then Inl NoStart
                     else ebind (efold parse_node [] raw_nodes) (\<lambda>nodes.
                       ebind
                         (case given of
                            Some spec \<Rightarrow> Inr spec
                          | None \<Rightarrow>
                              (case dict_lookup data ''decider'' of
                                 None \<Rightarrow> Inl NoDecider
                               | Some cfg \<Rightarrow> emap_err BadDecider (build_decider parse_float url_ok cfg)))
                         (\<lambda>spec. ebind (validate_graph start nodes) (\<lambda>_.
                            Inr (\<lparr>t_name = (let nm = dict_get data ''name'' in if truthy nm then nm else VStr ''tree''),
                                  t_start = start, t_nodes = nodes\<rparr>, spec))))
                 | _ \<Rightarrow> Inl NoStart)
           | _ \<Rightarrow> Inl NoNodes)
      | _ \<Rightarrow> Inl TreeNotMapping)"

subsection \<open>Running\<close>

record tree_result =
  tr_path :: "answer list"
  tr_leaf :: pydict
  tr_cost_usd :: rat
  tr_latency_ms :: rat
  tr_nodes :: "string list"

definition tr_cost_known :: "tree_result \<Rightarrow> bool" where
  "tr_cost_known r = list_all a_cost_known (tr_path r)"

definition unpriced_models :: "tree_result \<Rightarrow> string list" where
  "unpriced_models r =
     fold (\<lambda>a out. if \<not> a_cost_known a \<and> a_model a \<notin> set out then out @ [a_model a] else out) (tr_path r) []"

datatype run_error = RunRaised decide_exc | RunKeyError string

fun run_loop ::
  "tree_nodes \<Rightarrow> (pyval \<Rightarrow> question list \<Rightarrow> decide_exc + answers) \<Rightarrow> pyval \<Rightarrow> nat \<Rightarrow> string
     \<Rightarrow> answer list \<Rightarrow> string list \<Rightarrow> run_error + tree_result" where
  "run_loop nodes decide state 0 current path visited = Inl (RunRaised (DecideErr TreeTooDeep))"
| "run_loop nodes decide state (Suc n) current path visited =
     (case map_of nodes current of
        None \<Rightarrow> Inl (RunKeyError current)
      | Some nd \<Rightarrow>
          (case decide state [tn_question nd] of
             Inl e \<Rightarrow> Inl (RunRaised e)
           | Inr answers \<Rightarrow>
               (case map_of answers (q_key (tn_question nd)) of
                  None \<Rightarrow> Inl (RunRaised (DecideErr (TreeNoAnswer current)))
                | Some a \<Rightarrow>
                    (case (a_error a, a_value a) of
                       (None, Some v) \<Rightarrow>
                         (case map_of (tn_branches nd) (value_key v) of
                            None \<Rightarrow> Inl (RunRaised (DecideErr (TreeNoBranch current v)))
                          | Some (Leaf leaf) \<Rightarrow>
                              Inr \<lparr>tr_path = path @ [a], tr_leaf = leaf,
                                   tr_cost_usd = sum_list (map a_cost_usd (path @ [a])),
                                   tr_latency_ms = sum_list (map a_latency_ms (path @ [a])),
                                   tr_nodes = visited @ [current]\<rparr>
                          | Some (NodeRef t) \<Rightarrow>
                              run_loop nodes decide state n t (path @ [a]) (visited @ [current]))
                     | (err, _) \<Rightarrow> Inl (RunRaised (DecideErr (TreeUnusable current err)))))))"

definition tree_run ::
  "(pyval \<Rightarrow> question list \<Rightarrow> decide_exc + answers) \<Rightarrow> dtree \<Rightarrow> pyval \<Rightarrow> run_error + tree_result" where
  "tree_run decide tree state = run_loop (t_nodes tree) decide state max_depth (t_start tree) [] []"

section \<open>Lemmas\<close>

subsection \<open>Branches\<close>

lemma map_of_None_fst: "map_of d k = None \<longleftrightarrow> k \<notin> fst ` set d"
  by (simp add: map_of_eq_None_iff)

text \<open>Every allowed answer of a parsed node has a branch.\<close>

definition covered :: "tree_node \<Rightarrow> bool" where
  "covered nd \<longleftrightarrow> (\<forall>v \<in> set (allowed_values (tn_question nd)). map_of (tn_branches nd) (value_key v) \<noteq> None)"

lemma parse_branches_covered:
  "parse_branches name q raw = Inr bs \<Longrightarrow> covered \<lparr>tn_name = name, tn_question = q, tn_branches = bs\<rparr>"
  by (auto simp: parse_branches_def Let_def covered_def map_of_None_fst filter_empty_conv
      split: pyval.splits if_splits)

lemma map_of_update: "map_of (AList.update k v d) = (map_of d)(k \<mapsto> v)"
  by (simp add: update_conv')

lemma parse_node_Inr:
  assumes "parse_node nodes kv = Inr nodes'"
  obtains name q bs raw where "nodes' = AList.update name \<lparr>tn_name = name, tn_question = q, tn_branches = bs\<rparr> nodes"
    and "wf_question q" and "parse_branches name q raw = Inr bs"
proof (cases kv)
  case (Pair k v)
  with assms obtain d q bs where
    "question_from_dict (key_str k) (if truthy (dict_get d ''question'') then dict_get d ''question'' else VDict []) = Inr q"
    and "parse_branches (key_str k) q (dict_get d ''branches'') = Inr bs"
    and "nodes' = AList.update (key_str k) \<lparr>tn_name = key_str k, tn_question = q, tn_branches = bs\<rparr> nodes"
    by (cases v) (auto simp: parse_node_def Let_def split: sum.splits)
  from that[OF this(3) question_from_dict_wf[OF this(1)] this(2)] show thesis .
qed

lemma parse_node_inv:
  assumes "parse_node nodes kv = Inr nodes'"
    and "\<forall>n nd. map_of nodes n = Some nd \<longrightarrow> covered nd \<and> wf_question (tn_question nd)"
  shows "\<forall>n nd. map_of nodes' n = Some nd \<longrightarrow> covered nd \<and> wf_question (tn_question nd)"
proof -
  from parse_node_Inr[OF assms(1)] obtain name q bs raw where
    n: "nodes' = AList.update name \<lparr>tn_name = name, tn_question = q, tn_branches = bs\<rparr> nodes"
    and "wf_question q" "parse_branches name q raw = Inr bs" .
  then have "covered \<lparr>tn_name = name, tn_question = q, tn_branches = bs\<rparr>"
    by (blast intro: parse_branches_covered)
  with \<open>wf_question q\<close> assms(2) show ?thesis by (auto simp: n map_of_update)
qed

subsection \<open>The graph check\<close>

text \<open>Recorded depths fall along every edge, and every recorded node has all its targets recorded.\<close>

definition ranked :: "tree_nodes \<Rightarrow> (string \<times> nat) list \<Rightarrow> bool" where
  "ranked nodes depth \<longleftrightarrow>
     (\<forall>n k. map_of depth n = Some k \<longrightarrow> 0 < k \<and>
        (\<exists>nd. map_of nodes n = Some nd \<and>
           (\<forall>t \<in> set (node_targets nd). \<exists>j. map_of depth t = Some j \<and> j < k)))"

definition extends :: "(string \<times> nat) list \<Rightarrow> (string \<times> nat) list \<Rightarrow> bool" where
  "extends d d' \<longleftrightarrow> (\<forall>n k. map_of d n = Some k \<longrightarrow> map_of d' n = Some k)"

definition off_path :: "string list \<Rightarrow> (string \<times> nat) list \<Rightarrow> bool" where
  "off_path on_path d \<longleftrightarrow> (\<forall>n \<in> set on_path. map_of d n = None)"

lemma extends_refl [simp]: "extends d d" by (simp add: extends_def)

lemma extends_trans: "extends a b \<Longrightarrow> extends b c \<Longrightarrow> extends a c" by (simp add: extends_def)

lemma max_default_ge: "k \<in> set ks \<Longrightarrow> k \<le> max_default ks"
  by (induction ks) auto

lemma walk_ranked:
  "walk nodes on_path depth name = Inr (k, depth') \<Longrightarrow> ranked nodes depth \<Longrightarrow> off_path on_path depth \<Longrightarrow>
     ranked nodes depth' \<and> extends depth depth' \<and> off_path on_path depth' \<and> map_of depth' name = Some k"
  "walk_all nodes on_path depth ts = Inr (ks, depth') \<Longrightarrow> ranked nodes depth \<Longrightarrow> off_path on_path depth \<Longrightarrow>
     ranked nodes depth' \<and> extends depth depth' \<and> off_path on_path depth'
     \<and> list_all2 (\<lambda>t k. map_of depth' t = Some k) ts ks"
proof (induction nodes on_path depth name and nodes on_path depth ts
    arbitrary: k depth' and ks depth' rule: walk_walk_all.induct)
  case (1 nodes on_path depth name)
  show ?case
  proof (cases "map_of depth name")
    case (Some d)
    with "1.prems" show ?thesis by (auto simp: walk.simps[of nodes on_path depth name] split: if_splits)
  next
    case None
    from "1.prems"(1) have fresh: "name \<notin> set on_path"
      by (auto simp: walk.simps[of nodes on_path depth name] split: if_splits)
    with "1.prems"(1) None obtain nd where nd: "map_of nodes name = Some nd"
      by (auto simp: walk.simps[of nodes on_path depth name] split: option.splits)
    with "1.prems"(1) None fresh obtain below d1 where
      w: "walk_all nodes (on_path @ [name]) depth (node_targets nd) = Inr (below, d1)"
      and k: "k = 1 + max_default below" and d': "depth' = AList.update name k d1"
      by (auto simp: walk.simps[of nodes on_path depth name] Let_def)
    have "off_path (on_path @ [name]) depth" using "1.prems"(3) None by (auto simp: off_path_def)
    with "1.IH"[OF fresh None nd w "1.prems"(2)] have
      r: "ranked nodes d1" "extends depth d1" "off_path (on_path @ [name]) d1" and
      b: "list_all2 (\<lambda>t k. map_of d1 t = Some k) (node_targets nd) below" by auto
    have new: "map_of d1 name = None" using r(3) by (simp add: off_path_def)
    have ts: "\<exists>j. map_of d1 t = Some j \<and> j < k" if "t \<in> set (node_targets nd)" for t
    proof -
      from that obtain i where i: "i < length (node_targets nd)" "node_targets nd ! i = t"
        by (auto simp: in_set_conv_nth)
      with b have "map_of d1 t = Some (below ! i)" "below ! i \<in> set below"
        by (auto simp: list_all2_conv_all_nth)
      with k max_default_ge show ?thesis by fastforce
    qed
    have keep: "map_of depth' n = Some j" if "map_of d1 n = Some j" for n j
      using that new by (auto simp: d' map_of_update)
    have "ranked nodes depth'"
      unfolding ranked_def
    proof (intro allI impI)
      fix n j
      assume n: "map_of depth' n = Some j"
      show "0 < j \<and> (\<exists>nd. map_of nodes n = Some nd
          \<and> (\<forall>t \<in> set (node_targets nd). \<exists>i. map_of depth' t = Some i \<and> i < j))"
      proof (cases "n = name")
        case True
        with n have "j = k" by (simp add: d' map_of_update)
        with k have "0 < j" by simp
        moreover have "\<forall>t \<in> set (node_targets nd). \<exists>i. map_of depth' t = Some i \<and> i < j"
          using ts keep \<open>j = k\<close> by blast
        ultimately show ?thesis using True nd by blast
      next
        case False
        with n have "map_of d1 n = Some j" by (simp add: d' map_of_update)
        with r(1) obtain nd' where "0 < j" "map_of nodes n = Some nd'"
          "\<forall>t \<in> set (node_targets nd'). \<exists>i. map_of d1 t = Some i \<and> i < j"
          unfolding ranked_def by blast
        then show ?thesis using keep by blast
      qed
    qed
    moreover have "extends depth depth'" using r(2) keep by (auto simp: extends_def)
    moreover have "off_path on_path depth'" using r(3) fresh by (auto simp: off_path_def d' map_of_update)
    ultimately show ?thesis by (simp add: d' map_of_update)
  qed
next
  case (2 nodes on_path depth)
  then show ?case by simp
next
  case (3 nodes on_path depth t ts)
  from "3.prems"(1) obtain k d1 ks' where w: "walk nodes on_path depth t = Inr (k, d1)"
    and a: "walk_all nodes on_path d1 ts = Inr (ks', depth')" and ks: "ks = k # ks'"
    by auto
  from "3.IH"(1)[OF w "3.prems"(2,3)] have
    r1: "ranked nodes d1" "extends depth d1" "off_path on_path d1" "map_of d1 t = Some k" by auto
  from "3.IH"(2)[OF w refl a r1(1,3)] have
    r2: "ranked nodes depth'" "extends d1 depth'" "off_path on_path depth'"
      "list_all2 (\<lambda>t k. map_of depth' t = Some k) ts ks'" by auto
  have "map_of depth' t = Some k" using r1(4) r2(2) by (simp add: extends_def)
  with r1(2) r2 ks show ?case by (simp add: extends_trans[OF r1(2) r2(2)])
qed

lemma validate_graph_ranked:
  assumes v: "validate_graph start nodes = Inr ()"
  obtains depth k where "ranked nodes depth" "map_of depth start = Some k" "k \<le> max_depth"
proof -
  let ?f = "\<lambda>depth (name, _ :: tree_node). ebind (walk nodes [] depth name) (\<lambda>(_, depth'). Inr depth')"
  from assms obtain depth where s: "start \<in> fst ` set nodes" and e: "efold ?f [] nodes = Inr depth"
    and k: "the (map_of depth start) \<le> max_depth"
    by (auto simp: validate_graph_def split: if_splits)
  have grow: "ranked nodes d' \<and> extends d d' \<and> (\<forall>n \<in> fst ` set xs. map_of d' n \<noteq> None)"
    if "efold ?f d xs = Inr d'" "ranked nodes d" for d d' xs
    using that
  proof (induction xs arbitrary: d)
    case Nil
    then show ?case by simp
  next
    case (Cons x xs)
    obtain n nd where x: "x = (n, nd)" by fastforce
    from Cons.prems(1) x obtain k d1 where w: "walk nodes [] d n = Inr (k, d1)" and r: "efold ?f d1 xs = Inr d'"
      by (auto split: sum.splits)
    from walk_ranked(1)[OF w Cons.prems(2)] have "ranked nodes d1" "extends d d1" "map_of d1 n = Some k"
      by (auto simp: off_path_def)
    with Cons.IH[OF r] x show ?case by (auto simp: extends_def)
  qed
  have "ranked nodes []" by (simp add: ranked_def)
  from grow[OF e this] s obtain j where "ranked nodes depth" "map_of depth start = Some j" by auto
  with k that show thesis by simp
qed

subsection \<open>A loaded tree\<close>

text \<open>
  What loading establishes: every node asks a well-formed question and has a branch for each
  of its answers, and some ranking of the nodes falls along every edge, from at most
  \<open>max_depth\<close> at the start.
\<close>

definition wf_tree :: "dtree \<Rightarrow> bool" where
  "wf_tree t \<longleftrightarrow>
     (\<forall>n nd. map_of (t_nodes t) n = Some nd \<longrightarrow> covered nd \<and> wf_question (tn_question nd)) \<and>
     (\<exists>depth k. ranked (t_nodes t) depth \<and> map_of depth (t_start t) = Some k \<and> k \<le> max_depth)"

lemma tree_from_data_wf:
  assumes "tree_from_data pf u source d = Inr (t, spec)"
  shows "wf_tree t"
proof -
  from assms obtain raw_nodes where
    nodes: "efold parse_node [] raw_nodes = Inr (t_nodes t)"
    and v: "validate_graph (t_start t) (t_nodes t) = Inr ()"
    by (auto simp: tree_from_data_def split: pyval.splits if_splits option.splits)
  have "\<forall>n nd. map_of (t_nodes t) n = Some nd \<longrightarrow> covered nd \<and> wf_question (tn_question nd)"
    by (rule efold_invariant[OF nodes]) (simp, blast dest: parse_node_inv)
  moreover obtain depth k where "ranked (t_nodes t) depth" "map_of depth (t_start t) = Some k" "k \<le> max_depth"
    using validate_graph_ranked[OF v] .
  ultimately show ?thesis unfolding wf_tree_def by blast
qed

lemma target_of_branch:
  "map_of (tn_branches nd) k = Some (NodeRef t) \<Longrightarrow> t \<in> set (node_targets nd)"
  by (force simp: node_targets_def dest: map_of_SomeD)

subsection \<open>Running\<close>

text \<open>
  How a run of a loaded tree may end.  A result carries a leaf of some node, and its trace
  visits at most \<open>n\<close> nodes; otherwise the decider raised, or it gave an errored answer.
\<close>

definition run_ends_well ::
  "tree_nodes \<Rightarrow> (pyval \<Rightarrow> question list \<Rightarrow> decide_exc + answers) \<Rightarrow> pyval \<Rightarrow> nat \<Rightarrow> run_error + tree_result \<Rightarrow> bool" where
  "run_ends_well nodes decide st n r \<longleftrightarrow>
     (case r of
        Inr res \<Rightarrow> length (tr_nodes res) \<le> n \<and> length (tr_path res) = length (tr_nodes res)
          \<and> (\<exists>m nd v. map_of nodes m = Some nd \<and> map_of (tn_branches nd) v = Some (Leaf (tr_leaf res)))
      | Inl (RunKeyError _) \<Rightarrow> False
      | Inl (RunRaised e) \<Rightarrow>
          (\<exists>q. decide st [q] = Inl e) \<or> (\<exists>m err. e = DecideErr (TreeUnusable m err)))"

definition loaded_nodes :: "tree_nodes \<Rightarrow> bool" where
  "loaded_nodes nodes \<longleftrightarrow> (\<forall>m nd. map_of nodes m = Some nd \<longrightarrow> covered nd \<and> wf_question (tn_question nd))"

context decider
begin

lemma run_loop_ends_well:
  assumes "ranked nodes depth" and "loaded_nodes nodes"
    and "map_of depth current = Some k" and "k \<le> n" and "length path = length visited"
  shows "run_ends_well nodes decide st (length visited + n)
     (run_loop nodes decide st n current path visited)"
  using assms(3-5)
proof (induction n arbitrary: current k path visited)
  case 0
  with assms(1) show ?case by (fastforce simp: ranked_def)
next
  case (Suc n)
  from assms(1) Suc.prems(1) obtain nd where nd: "map_of nodes current = Some nd"
    and below: "\<forall>t \<in> set (node_targets nd). \<exists>j. map_of depth t = Some j \<and> j < k"
    unfolding ranked_def by blast
  let ?q = "tn_question nd"
  show ?case
  proof (cases "decide st [?q]")
    case (Inl e)
    with nd show ?thesis by (auto simp: run_ends_well_def)
  next
    case (Inr ans)
    obtain a where a: "map_of ans (q_key ?q) = Some a" and ok: "answers_question ?q a"
      by (rule single_question[OF Inr])
    show ?thesis
    proof (cases "\<exists>v. a_error a = None \<and> a_value a = Some v")
      case False
      then have "run_loop nodes decide st (Suc n) current path visited
          = Inl (RunRaised (DecideErr (TreeUnusable current (a_error a))))"
        using nd Inr a by (cases "a_error a"; cases "a_value a") auto
      then show ?thesis by (simp add: run_ends_well_def)
    next
      case True
      then obtain v where v: "a_error a = None" "a_value a = Some v" by blast
      with ok have "v \<in> set (allowed_values ?q)" by (simp add: answers_question_def)
      with assms(2) nd obtain tgt where t: "map_of (tn_branches nd) (value_key v) = Some tgt"
        unfolding loaded_nodes_def covered_def by blast
      show ?thesis
      proof (cases tgt)
        case (Leaf l)
        with nd Inr a v t Suc.prems(3) show ?thesis by (auto simp: run_ends_well_def)
      next
        case (NodeRef s)
        with t have "s \<in> set (node_targets nd)" by (auto intro: target_of_branch)
        with below Suc.prems(2) obtain j where "map_of depth s = Some j" "j \<le> n" by fastforce
        from Suc.IH[OF this, of "path @ [a]" "visited @ [current]"] Suc.prems(3)
        show ?thesis using nd Inr a v t NodeRef by simp
      qed
    qed
  qed
qed

lemma tree_run_ends_well:
  assumes "wf_tree t"
  shows "run_ends_well (t_nodes t) decide st max_depth (tree_run decide t st)"
proof -
  from assms obtain depth k where "ranked (t_nodes t) depth" "map_of depth (t_start t) = Some k" "k \<le> max_depth"
    and "loaded_nodes (t_nodes t)"
    unfolding wf_tree_def loaded_nodes_def by blast
  from run_loop_ends_well[OF this(1,4,2,3), of "[]" "[]" st] show ?thesis by (simp add: tree_run_def)
qed

end

subsection \<open>Every configured decider keeps the contract\<close>

interpretation pair: cascade_pair "jev_decide w jc" "llm_decide w' system lc" for w jc w' system lc
  by unfold_locales

lemma decider_of_contract: "decider (decider_of pstr jw lw system wall spec)"
proof (induction spec)
  case (SpecJev d)
  show ?case by (simp add: jev.decider_axioms)
next
  case (SpecLlm d)
  show ?case by (simp add: llm.decider_axioms)
next
  case (SpecCascade p f thr)
  then have "cascade_pair (decider_of pstr jw lw system wall p) (decider_of pstr jw lw system wall f)"
    by (simp add: cascade_pair_def)
  then show ?case by (simp add: cascade_pair.cascade_decider)
qed

interpretation configured: decider "decider_of pstr jw lw system wall spec" for pstr jw lw system wall spec
  by (rule decider_of_contract)

section \<open>Properties\<close>

text \<open>
  C33: A tree that loads runs to an end with the decider it was loaded with
  (\<open>DecisionTree.from_yaml\<close>, \<open>run\<close>): a run takes at most \<open>MAX_DEPTH\<close> steps and ends at a
  leaf of the tree, unless the decider itself raised or gave an errored answer.  It never
  meets an undeclared node, a missing branch, a missing answer or the depth bound.
\<close>

theorem loaded_tree_runs:
  assumes "tree_from_data parse_float url_ok source given = Inr (t, spec)"
  shows "run_ends_well (t_nodes t) (decider_of pstr jw lw system wall spec) st max_depth
     (tree_run (decider_of pstr jw lw system wall spec) t st)"
  by (rule configured.tree_run_ends_well[OF tree_from_data_wf[OF assms]])

theorem loaded_tree_runs_witness:
  "\<exists>t. tree_from_data (\<lambda>_. None) (\<lambda>_. True)
      (VDict [(KStr ''start'', VStr ''ask''),
        (KStr ''nodes'', VDict [(KStr ''ask'', VDict [
           (KStr ''question'', VDict [(KStr ''kind'', VStr ''yesno''), (KStr ''instructions'', VStr ''ok?'')]),
           (KStr ''branches'', VDict [(KStr ''true'', VDict [(KStr ''leaf'', VDict [])]),
                                      (KStr ''false'', VDict [(KStr ''leaf'', VDict [])])])])])])
      (Some (SpecLlm [])) = Inr (t, SpecLlm [])
    \<and> (\<forall>pstr jw lw system wall st. run_ends_well (t_nodes t) (decider_of pstr jw lw system wall (SpecLlm [])) st
         max_depth (tree_run (decider_of pstr jw lw system wall (SpecLlm [])) t st))"
proof -
  let ?d = "VDict [(KStr ''start'', VStr ''ask''),
        (KStr ''nodes'', VDict [(KStr ''ask'', VDict [
           (KStr ''question'', VDict [(KStr ''kind'', VStr ''yesno''), (KStr ''instructions'', VStr ''ok?'')]),
           (KStr ''branches'', VDict [(KStr ''true'', VDict [(KStr ''leaf'', VDict [])]),
                                      (KStr ''false'', VDict [(KStr ''leaf'', VDict [])])])])])]"
  let ?r = "tree_from_data (\<lambda>_. None) (\<lambda>_. True) ?d (Some (SpecLlm []))"
  have "\<not> isl ?r" by code_simp
  then obtain t spec where t: "?r = Inr (t, spec)" by (cases ?r) auto
  then have "spec = SpecLlm []" by (auto simp: tree_from_data_def split: pyval.splits if_splits)
  with t loaded_tree_runs[OF t] show ?thesis by auto
qed

end
