(* ===== verification/Planner.thy ===== *)
theory Planner
  imports Pricing "HOL-Library.Multiset"
begin

text \<open>
  The planner (\<open>src/fabri/core/planner.py\<close>): reading a plan out of a model's reply and
  ordering its items.  The model call and \<open>json.loads\<close> are parameters.  The lemmas show that
  the order of \<open>topological_order\<close> is a permutation of the items whatever the plan says, and
  that it puts dependencies first when they are acyclic.
\<close>

section \<open>The code\<close>

record plan_item =
  pi_goal :: string
  pi_artifacts :: "string list"
  pi_depends_on :: "int list"
  pi_tool_hints :: "string list"

definition plan_item_to_dict :: "plan_item \<Rightarrow> pyval" where
  "plan_item_to_dict p =
     VDict [(KStr ''goal'', VStr (pi_goal p)),
            (KStr ''artifacts'', VList (map VStr (pi_artifacts p))),
            (KStr ''depends_on'', VList (map VInt (pi_depends_on p))),
            (KStr ''tool_hints'', VList (map VStr (pi_tool_hints p)))]"

text \<open>\<open>^```(?:json)?\s*|\s*```$\<close> under \<open>re.MULTILINE\<close>, as the length of the match at a position.\<close>

definition space_run :: "string \<Rightarrow> nat" where
  "space_run s = length (takeWhile is_space s)"

definition line_fence :: pattern where
  "line_fence prev s =
     (if (prev = None \<or> prev = Some (CHR 0x0A)) \<and> take 3 s = ''```''
      then (let n = (if take 4 (drop 3 s) = ''json'' then 7 else 3) in n + space_run (drop n s))
      else (let n = space_run s in
        if take 3 (drop n s) = ''```'' \<and> (drop (n + 3) s = [] \<or> hd (drop (n + 3) s) = CHR 0x0A)
        then n + 3 else 0))"

definition first_braces :: "string \<Rightarrow> string option" where
  "first_braces s =
     (let t = dropWhile (\<lambda>c. c \<noteq> CHR ''{'') s;
          u = rev (dropWhile (\<lambda>c. c \<noteq> CHR ''}'') (rev t))
      in if u = [] then None else Some u)"

definition extract_json_object :: "(string \<Rightarrow> pyval option) \<Rightarrow> string \<Rightarrow> pyval option" where
  "extract_json_object loads text =
     (case loads (re_sub line_fence [] None (strip text)) of
        Some v \<Rightarrow> Some v
      | None \<Rightarrow> (case loads text of
          Some v \<Rightarrow> Some v
        | None \<Rightarrow> (case first_braces text of None \<Rightarrow> None | Some t \<Rightarrow> loads t)))"

fun str_of :: "pyval \<Rightarrow> string option" where
  "str_of (VStr s) = Some s"
| "str_of _ = None"

text \<open>A Python \<open>bool\<close> is an \<open>int\<close>, so JSON \<open>true\<close> passes the test and counts as 1.\<close>

fun nonneg_int_of :: "pyval \<Rightarrow> int option" where
  "nonneg_int_of (VInt i) = (if 0 \<le> i then Some i else None)"
| "nonneg_int_of (VBool b) = Some (of_bool b)"
| "nonneg_int_of _ = None"

definition as_str_list :: "pyval \<Rightarrow> string list" where
  "as_str_list v = (case v of VList xs \<Rightarrow> List.map_filter str_of xs | _ \<Rightarrow> [])"

definition as_int_list :: "pyval \<Rightarrow> int list" where
  "as_int_list v = (case v of VList xs \<Rightarrow> List.map_filter nonneg_int_of xs | _ \<Rightarrow> [])"

fun parse_item :: "pyval \<Rightarrow> plan_item option" where
  "parse_item (VDict e) =
     (case dict_get e ''goal'' of
        VStr g \<Rightarrow>
          if strip g = [] then None
          else Some \<lparr>pi_goal = strip g, pi_artifacts = as_str_list (dict_get e ''artifacts''),
                     pi_depends_on = as_int_list (dict_get e ''depends_on''),
                     pi_tool_hints = as_str_list (dict_get e ''tool_hints'')\<rparr>
      | _ \<Rightarrow> None)"
| "parse_item _ = None"

definition parse_plan :: "(string \<Rightarrow> pyval option) \<Rightarrow> string \<Rightarrow> plan_item list" where
  "parse_plan loads text =
     (case extract_json_object loads text of
        Some (VDict obj) \<Rightarrow> (case dict_get obj ''items'' of
            VList raw \<Rightarrow> List.map_filter parse_item raw
          | _ \<Rightarrow> [])
      | _ \<Rightarrow> [])"

text \<open>\<open>xs[:n]\<close> with Python's reading of a negative bound.\<close>

definition slice_to :: "int \<Rightarrow> 'a list \<Rightarrow> 'a list" where
  "slice_to n xs = take (nat (if n < 0 then int (length xs) + n else n)) xs"

text \<open>
  \<open>plan\<close>: the items and the usage handed to \<open>on_usage\<close>.  \<open>step\<close> answers a system prompt
  and a user prompt, or raises, and changes the world.
\<close>

definition make_plan ::
  "(string \<Rightarrow> string \<Rightarrow> 'w \<Rightarrow> ('e + llm_response) \<times> 'w) \<Rightarrow> (string \<Rightarrow> pyval option) \<Rightarrow> string \<Rightarrow> int
     \<Rightarrow> string \<Rightarrow> string option \<Rightarrow> 'w \<Rightarrow> ('e + plan_item list \<times> usage option) \<times> 'w" where
  "make_plan step loads default_prompt max_items task prompt w =
     (let system_prompt = (case prompt of Some p \<Rightarrow> if p = [] then default_prompt else p | None \<Rightarrow> default_prompt);
          user_prompt = ''Plan this task in at most '' @ show_int max_items @ '' items.'' @
            [CHR 0x0A, CHR 0x0A] @ ''Task: '' @ task
      in case step system_prompt user_prompt w of
        (Inl exc, w') \<Rightarrow> (Inl exc, w')
      | (Inr response, w') \<Rightarrow>
       (let text = strip (case r_final_text response of None \<Rightarrow> [] | Some t \<Rightarrow> t);
            items = parse_plan loads text;
            items = (if items = []
                     then [\<lparr>pi_goal = task, pi_artifacts = [], pi_depends_on = [], pi_tool_hints = []\<rparr>]
                     else items)
        in (Inr (slice_to max_items items, r_usage response), w')))"

subsection \<open>\<open>topological_order\<close>\<close>

text \<open>The graph: \<open>indeg\<close> counts edges into an item, \<open>children\<close> lists edges out of it.\<close>

type_synonym graph = "int list \<times> nat list list"

definition edge_ok :: "nat \<Rightarrow> nat \<Rightarrow> int \<Rightarrow> bool" where
  "edge_ok n i dep \<longleftrightarrow> 0 \<le> dep \<and> dep < int n \<and> dep \<noteq> int i"

definition add_edge :: "nat \<Rightarrow> nat \<Rightarrow> int \<Rightarrow> graph \<Rightarrow> graph" where
  "add_edge n i dep g =
     (if edge_ok n i dep
      then ((fst g)[i := fst g ! i + 1], (snd g)[nat dep := snd g ! nat dep @ [i]])
      else g)"

definition plan_graph :: "plan_item list \<Rightarrow> graph" where
  "plan_graph items =
     (let n = length items
      in fold (\<lambda>(i, item) g. fold (add_edge n i) (pi_depends_on item) g) (enumerate 0 items)
           (replicate n 0, replicate n []))"

text \<open>One child: its count drops, and it is queued when the count reaches 0.\<close>

definition relax :: "nat \<Rightarrow> int list \<times> nat list \<Rightarrow> int list \<times> nat list" where
  "relax c s =
     (let indeg = (fst s)[c := fst s ! c - 1]
      in (indeg, if indeg ! c = 0 then snd s @ [c] else snd s))"

text \<open>
  The loop over the queue.  Every pass moves one item from the queue to the order, so the
  number of items bounds the passes; \<open>fuel\<close> is that bound, and \<open>topo_loop_finishes\<close> below
  shows that the queue is empty when it runs out.
\<close>

fun topo_loop ::
  "nat \<Rightarrow> nat list list \<Rightarrow> nat list \<Rightarrow> int list \<Rightarrow> nat list \<Rightarrow> nat list \<times> nat list" where
  "topo_loop fuel children [] indeg order = (order, [])"
| "topo_loop 0 children (i # ready) indeg order = (order, i # ready)"
| "topo_loop (Suc fuel) children (i # ready) indeg order =
     (let (indeg', ready') = fold relax (children ! i) (indeg, ready)
      in topo_loop fuel children ready' indeg' (order @ [i]))"

definition topological_order :: "plan_item list \<Rightarrow> nat list" where
  "topological_order items =
     (let n = length items;
          (indeg, children) = plan_graph items;
          ready = filter (\<lambda>i. indeg ! i = 0) [0..<n];
          order = fst (topo_loop n children ready indeg [])
      in if length order \<noteq> n then order @ filter (\<lambda>i. i \<notin> set order) [0..<n] else order)"

section \<open>Lemmas\<close>

subsection \<open>Counting edges\<close>

text \<open>The number of edges into \<open>c\<close> from the nodes of a set.\<close>

definition load :: "('k \<Rightarrow> 'k list) \<Rightarrow> 'k set \<Rightarrow> 'k \<Rightarrow> int" where
  "load ch A c = (\<Sum>p \<in> A. int (count_list (ch p) c))"

lemma load_nonneg: "0 \<le> load ch A c"
  by (simp add: load_def sum_nonneg)

lemma load_remove:
  "finite A \<Longrightarrow> p \<in> A \<Longrightarrow> load ch (A - {p}) c = load ch A c - int (count_list (ch p) c)"
  by (simp add: load_def sum_diff1)

lemma load_member_le: "finite A \<Longrightarrow> p \<in> A \<Longrightarrow> int (count_list (ch p) c) \<le> load ch A c"
  unfolding load_def by (rule member_le_sum) auto

lemma load_zero_iff: "finite A \<Longrightarrow> load ch A c = 0 \<longleftrightarrow> (\<forall>p \<in> A. c \<notin> set (ch p))"
  unfolding load_def by (subst sum_nonneg_eq_0_iff) (auto simp: count_list_0_iff)

lemma load_empty [simp]: "load ch {} c = 0" by (simp add: load_def)

subsection \<open>The graph of a plan\<close>

definition graph_inv :: "nat \<Rightarrow> graph \<Rightarrow> bool" where
  "graph_inv n g \<longleftrightarrow> length (fst g) = n \<and> length (snd g) = n
     \<and> (\<forall>p < n. set (snd g ! p) \<subseteq> {..<n})
     \<and> (\<forall>c < n. fst g ! c = load ((!) (snd g)) {..<n} c)"

definition graph_edges :: "graph \<Rightarrow> (nat \<times> nat) set" where
  "graph_edges g = {(p, c). p < length (snd g) \<and> c \<in> set (snd g ! p)}"

lemma load_append:
  assumes "d < n" and "length ch = n"
  shows "load ((!) (ch[d := ch ! d @ [i]])) {..<n} c = load ((!) ch) {..<n} c + (if c = i then 1 else 0)"
proof -
  have "load ((!) (ch[d := ch ! d @ [i]])) {..<n} c
      = (\<Sum>p<n. int (count_list (ch ! p) c) + (if p = d then (if c = i then 1 else 0) else 0))"
    unfolding load_def using assms by (intro sum.cong) (auto simp: nth_list_update)
  also have "\<dots> = load ((!) ch) {..<n} c + (if c = i then 1 else 0)"
    using assms by (simp add: sum.distrib load_def)
  finally show ?thesis .
qed

lemma add_edge_inv: "graph_inv n g \<Longrightarrow> i < n \<Longrightarrow> graph_inv n (add_edge n i dep g)"
  by (force simp: graph_inv_def add_edge_def edge_ok_def load_append nth_list_update split: if_splits)

lemma add_edge_edges:
  "length (snd g) = n \<Longrightarrow>
     graph_edges (add_edge n i dep g) = graph_edges g \<union> {(p, c). c = i \<and> int p = dep \<and> edge_ok n i dep}"
  by (auto simp: graph_edges_def add_edge_def edge_ok_def nth_list_update split: if_splits)

lemma fold_add_edge:
  assumes "graph_inv n g" and "i < n"
  shows "graph_inv n (fold (add_edge n i) deps g) \<and>
    graph_edges (fold (add_edge n i) deps g) =
      graph_edges g \<union> {(p, c). c = i \<and> int p \<in> set deps \<and> edge_ok n i (int p)}"
  using assms
proof (induction deps arbitrary: g)
  case Nil
  then show ?case by simp
next
  case (Cons d deps)
  have "length (snd g) = n" using Cons.prems(1) by (simp add: graph_inv_def)
  then show ?case using Cons.IH[OF add_edge_inv[OF Cons.prems] Cons.prems(2)]
    by (auto simp: add_edge_edges)
qed

lemma plan_graph_fold:
  assumes "graph_inv n g" and "k + length items \<le> n"
  shows "graph_inv n (fold (\<lambda>(i, item) g. fold (add_edge n i) (pi_depends_on item) g) (enumerate k items) g) \<and>
    graph_edges (fold (\<lambda>(i, item) g. fold (add_edge n i) (pi_depends_on item) g) (enumerate k items) g) =
      graph_edges g \<union> {(p, c). k \<le> c \<and> c < k + length items
        \<and> int p \<in> set (pi_depends_on (items ! (c - k))) \<and> edge_ok n c (int p)}"
  using assms
proof (induction items arbitrary: g k)
  case Nil
  then show ?case by (auto simp: split_def)
next
  case (Cons x xs)
  let ?g = "fold (add_edge n k) (pi_depends_on x) g"
  have one: "graph_inv n ?g" "graph_edges ?g =
      graph_edges g \<union> {(p, c). c = k \<and> int p \<in> set (pi_depends_on x) \<and> edge_ok n k (int p)}"
    using fold_add_edge[OF Cons.prems(1), of k] Cons.prems(2) by auto
  have split: "k \<le> c \<and> c < k + length (x # xs) \<longleftrightarrow> c = k \<or> (Suc k \<le> c \<and> c < Suc k + length xs)" for c
    by auto
  show ?case using Cons.IH[OF one(1), of "Suc k"] Cons.prems(2) one(2)
    unfolding split by (auto simp: nth_Cons' Suc_diff_le diff_Suc split: nat.splits)
qed

text \<open>Item \<open>p\<close> is a dependency of item \<open>c\<close> that the plan resolves.\<close>

definition depends :: "plan_item list \<Rightarrow> nat \<Rightarrow> nat \<Rightarrow> bool" where
  "depends items p c \<longleftrightarrow> p < length items \<and> c < length items \<and> p \<noteq> c
     \<and> int p \<in> set (pi_depends_on (items ! c))"

lemma plan_graph_props:
  assumes "plan_graph items = (indeg, children)"
  shows "graph_inv (length items) (indeg, children)"
    and "\<And>p c. p < length items \<Longrightarrow> c \<in> set (children ! p) \<longleftrightarrow> depends items p c"
proof -
  let ?n = "length items"
  have "graph_inv ?n (replicate ?n 0, replicate ?n [])"
    by (simp add: graph_inv_def load_def)
  from plan_graph_fold[OF this, of 0 items] assms
  have inv: "graph_inv ?n (indeg, children)" and e: "graph_edges (indeg, children) =
      graph_edges (replicate ?n 0 :: int list, replicate ?n []) \<union> {(p, c). c < ?n
        \<and> int p \<in> set (pi_depends_on (items ! c)) \<and> edge_ok ?n c (int p)}"
    by (auto simp: plan_graph_def Let_def)
  show "graph_inv ?n (indeg, children)" by (rule inv)
  have len: "length children = ?n" using inv by (simp add: graph_inv_def)
  fix p c assume "p < ?n"
  then have "c \<in> set (children ! p) \<longleftrightarrow> (p, c) \<in> graph_edges (indeg, children)"
    by (simp add: graph_edges_def len)
  also have "\<dots> \<longleftrightarrow> depends items p c"
    using \<open>p < ?n\<close> unfolding e by (auto simp: graph_edges_def depends_def edge_ok_def)
  finally show "c \<in> set (children ! p) \<longleftrightarrow> depends items p c" .
qed

subsection \<open>The queue\<close>

lemma relax_fold:
  assumes "fold relax cs (indeg, ready) = (indeg', ready')"
    and "\<forall>c \<in> set cs. c < length indeg"
    and "\<forall>c < length indeg. int (count_list cs c) \<le> indeg ! c"
  shows "length indeg' = length indeg"
    and "\<forall>c < length indeg. indeg' ! c = indeg ! c - int (count_list cs c)"
    and "\<exists>new. ready' = ready @ new \<and> distinct new \<and> set new = {c \<in> set cs. indeg' ! c = 0}"
proof -
  have "length indeg' = length indeg
      \<and> (\<forall>c < length indeg. indeg' ! c = indeg ! c - int (count_list cs c))
      \<and> (\<exists>new. ready' = ready @ new \<and> distinct new \<and> set new = {c \<in> set cs. indeg' ! c = 0})"
    using assms
  proof (induction cs arbitrary: indeg ready)
    case Nil
    then show ?case by simp
  next
    case (Cons c cs)
    let ?d = "indeg[c := indeg ! c - 1]"
    let ?r = "if ?d ! c = 0 then ready @ [c] else ready"
    have step: "fold relax cs (?d, ?r) = (indeg', ready')"
      using Cons.prems(1) by (simp only: fold.simps comp_def relax_def[of c] Let_def fst_conv snd_conv)
    have c: "c < length indeg" using Cons.prems(2) by simp
    have le: "\<forall>x < length ?d. int (count_list cs x) \<le> ?d ! x"
      using Cons.prems(3) c by (auto simp: nth_list_update split: if_splits)
    have r: "\<forall>x \<in> set cs. x < length ?d" using Cons.prems(2) by simp
    from Cons.IH[OF step r le] obtain new where
      len: "length indeg' = length indeg" and
      v: "\<forall>x < length indeg. indeg' ! x = ?d ! x - int (count_list cs x)" and
      new: "ready' = ?r @ new" "distinct new" "set new = {x \<in> set cs. indeg' ! x = 0}"
      by auto
    have v': "\<forall>x < length indeg. indeg' ! x = indeg ! x - int (count_list (c # cs) x)"
      using v c by (auto simp: nth_list_update)
    have c0: "?d ! c = 0 \<Longrightarrow> c \<notin> set cs" using le c by (auto simp: count_list_0_iff[symmetric])
    have c1: "?d ! c \<noteq> 0 \<Longrightarrow> indeg' ! c = 0 \<Longrightarrow> c \<in> set cs"
      using v c by (metis count_list_0_iff diff_zero of_nat_0)
    have c2: "?d ! c = 0 \<Longrightarrow> indeg' ! c = 0"
      using v c c0 by (metis count_list_0_iff diff_zero of_nat_0)
    have "\<exists>new'. ready' = ready @ new' \<and> distinct new' \<and> set new' = {x \<in> set (c # cs). indeg' ! x = 0}"
    proof (cases "?d ! c = 0")
      case True
      then show ?thesis using new c0 c2 by (intro exI[of _ "c # new"]) auto
    next
      case False
      then show ?thesis using new c1 by (intro exI[of _ new]) auto
    qed
    with len v' show ?case by simp
  qed
  then show "length indeg' = length indeg"
    and "\<forall>c < length indeg. indeg' ! c = indeg ! c - int (count_list cs c)"
    and "\<exists>new. ready' = ready @ new \<and> distinct new \<and> set new = {c \<in> set cs. indeg' ! c = 0}"
    by auto
qed

definition topo_inv :: "nat list list \<Rightarrow> nat list \<Rightarrow> int list \<Rightarrow> nat list \<Rightarrow> bool" where
  "topo_inv children ready indeg order \<longleftrightarrow>
     (let n = length children in
      length indeg = n \<and> (\<forall>p < n. set (children ! p) \<subseteq> {..<n}) \<and>
      distinct (order @ ready) \<and> set (order @ ready) \<subseteq> {..<n} \<and>
      (\<forall>c < n. indeg ! c = load ((!) children) ({..<n} - set order) c) \<and>
      (\<forall>c < n. c \<in> set (order @ ready) \<longleftrightarrow> indeg ! c = 0) \<and>
      (\<forall>j < length order. \<forall>p < n. order ! j \<in> set (children ! p) \<longrightarrow> p \<in> set (take j order)))"

lemma topo_inv_step:
  assumes "topo_inv children (i # ready) indeg order"
    and "fold relax (children ! i) (indeg, ready) = (indeg', ready')"
  shows "topo_inv children ready' indeg' (order @ [i])"
proof -
  let ?n = "length children" and ?ch = "(!) children"
  let ?A = "{..<?n} - set order"
  have inv: "length indeg = ?n" "\<forall>p < ?n. set (children ! p) \<subseteq> {..<?n}"
    "distinct (order @ i # ready)" "set (order @ i # ready) \<subseteq> {..<?n}"
    "\<forall>c < ?n. indeg ! c = load ?ch ?A c"
    "\<forall>c < ?n. c \<in> set (order @ i # ready) \<longleftrightarrow> indeg ! c = 0"
    "\<forall>j < length order. \<forall>p < ?n. order ! j \<in> set (children ! p) \<longrightarrow> p \<in> set (take j order)"
    using assms(1) by (auto simp: topo_inv_def Let_def)
  have i: "i < ?n" "i \<in> ?A" using inv(3,4) by auto
  have cs: "\<forall>c \<in> set (children ! i). c < length indeg" using inv(1,2) i by auto
  have le: "\<forall>c < length indeg. int (count_list (children ! i) c) \<le> indeg ! c"
    using inv(1,5) load_member_le[OF _ i(2), of ?ch] by simp
  note r = relax_fold[OF assms(2) cs le]
  from r(3) obtain new where new: "ready' = ready @ new" "distinct new"
    "set new = {c \<in> set (children ! i). indeg' ! c = 0}" by blast
  have A': "{..<?n} - set (order @ [i]) = ?A - {i}" by auto
  have ind: "\<forall>c < ?n. indeg' ! c = load ?ch ({..<?n} - set (order @ [i])) c"
    unfolding A' using r(2) inv(1,5) i(2) by (simp add: load_remove)
  have fresh: "c \<notin> set (order @ i # ready)" if "c \<in> set (children ! i)" for c
  proof
    assume "c \<in> set (order @ i # ready)"
    moreover have "c < ?n" using that inv(2) i(1) by auto
    ultimately have "load ?ch ?A c = 0" using inv(5,6) by metis
    with i(2) that show False by (simp add: load_zero_iff)
  qed
  have parents: "\<forall>p < ?n. i \<in> set (children ! p) \<longrightarrow> p \<in> set order"
  proof -
    have "load ?ch ?A i = 0" using inv(5,6) i(1) by (metis in_set_conv_decomp)
    then show ?thesis by (auto simp: load_zero_iff)
  qed
  have zero: "c \<in> set ((order @ [i]) @ ready') \<longleftrightarrow> indeg' ! c = 0" if "c < ?n" for c
  proof (cases "c \<in> set (children ! i)")
    case True
    then show ?thesis using fresh[OF True] new by auto
  next
    case False
    then have "count_list (children ! i) c = 0" by (simp add: count_list_0_iff)
    then have "indeg' ! c = indeg ! c" using r(2) inv(1) that by simp
    then show ?thesis using inv(6) that new False by auto
  qed
  have ord: "\<forall>j < length (order @ [i]). \<forall>p < ?n.
      (order @ [i]) ! j \<in> set (children ! p) \<longrightarrow> p \<in> set (take j (order @ [i]))"
    using inv(7) parents by (auto simp: nth_append less_Suc_eq)
  have "distinct ((order @ [i]) @ ready')" using inv(3) new fresh by auto
  moreover have "set ((order @ [i]) @ ready') \<subseteq> {..<?n}" using inv(2,4) new i(1) by auto
  ultimately show ?thesis
    unfolding topo_inv_def Let_def using r(1) inv(1,2) ind zero ord by simp
qed

lemma topo_loop_finishes:
  assumes "topo_inv children ready indeg order" and "length children \<le> fuel + length order"
  shows "\<exists>order' indeg'. topo_loop fuel children ready indeg order = (order', [])
     \<and> topo_inv children [] indeg' order'"
  using assms
proof (induction fuel children ready indeg order rule: topo_loop.induct)
  case (1 fuel children indeg order)
  then show ?case by auto
next
  case (2 children i ready indeg order)
  then have "distinct (order @ i # ready)" "set (order @ i # ready) \<subseteq> {..<length children}"
    by (auto simp: topo_inv_def Let_def)
  then have "length (order @ i # ready) \<le> length children"
    by (metis card_lessThan card_mono distinct_card finite_lessThan)
  with 2 show ?case by simp
next
  case (3 fuel children i ready indeg order)
  obtain d r where s: "fold relax (children ! i) (indeg, ready) = (d, r)" by fastforce
  from "3.IH"[OF s[symmetric] refl topo_inv_step[OF "3.prems"(1) s]] "3.prems"(2) s
  show ?case by simp
qed

subsection \<open>The order\<close>

lemma mset_eq_of_distinct: "distinct xs \<Longrightarrow> distinct ys \<Longrightarrow> set xs = set ys \<Longrightarrow> mset xs = mset ys"
  by (metis mset_set_set)

lemma topo_inv_start:
  assumes "plan_graph items = (indeg, children)"
  shows "topo_inv children (filter (\<lambda>i. indeg ! i = 0) [0..<length items]) indeg []"
  using plan_graph_props(1)[OF assms] by (auto simp: topo_inv_def graph_inv_def Let_def)

lemma topological_order_parts:
  obtains order indeg children where
    "topo_inv children [] indeg order" "length children = length items"
    "\<And>p c. p < length items \<Longrightarrow> c \<in> set (children ! p) \<longleftrightarrow> depends items p c"
    "topological_order items = (if length order \<noteq> length items
       then order @ filter (\<lambda>i. i \<notin> set order) [0..<length items] else order)"
proof -
  obtain indeg children where g: "plan_graph items = (indeg, children)" by fastforce
  note p = plan_graph_props[OF g]
  have len: "length children = length items" using p(1) by (simp add: graph_inv_def)
  from topo_loop_finishes[OF topo_inv_start[OF g], of "length items"] len obtain order indeg' where
    o: "topo_loop (length items) children (filter (\<lambda>i. indeg ! i = 0) [0..<length items]) indeg [] = (order, [])"
    and inv: "topo_inv children [] indeg' order" by auto
  show thesis
    by (rule that[OF inv len p(2)]) (simp_all add: topological_order_def g o Let_def)
qed

lemma topological_order_perm:
  "distinct (topological_order items) \<and> set (topological_order items) = {..<length items}"
proof -
  let ?n = "length items"
  from topological_order_parts[of items] obtain order indeg children where
    inv: "topo_inv children [] indeg order" and len: "length children = ?n"
    and t: "topological_order items = (if length order \<noteq> ?n
       then order @ filter (\<lambda>i. i \<notin> set order) [0..<?n] else order)" by metis
  have d: "distinct order" "set order \<subseteq> {..<?n}" using inv len by (auto simp: topo_inv_def Let_def)
  show ?thesis
  proof (cases "length order = ?n")
    case True
    then have "card (set order) = card {..<?n}" using d(1) by (simp add: distinct_card)
    then have "set order = {..<?n}" using d(2) by (simp add: card_subset_eq)
    with True d(1) t show ?thesis by simp
  next
    case False
    then show ?thesis using d t by auto
  qed
qed

text \<open>A rank that falls along every dependency says the plan has no cycle.\<close>

lemma topological_order_deps_first:
  assumes rank: "\<And>p c. depends items p c \<Longrightarrow> rank p < (rank c :: nat)"
    and j: "j < length items" and dep: "depends items p (topological_order items ! j)"
  shows "p \<in> set (take j (topological_order items))"
proof -
  let ?n = "length items"
  from topological_order_parts[of items] obtain order indeg children where
    inv: "topo_inv children [] indeg order" and len: "length children = ?n"
    and ch: "\<And>p c. p < ?n \<Longrightarrow> c \<in> set (children ! p) \<longleftrightarrow> depends items p c"
    and t: "topological_order items = (if length order \<noteq> ?n
       then order @ filter (\<lambda>i. i \<notin> set order) [0..<?n] else order)" by metis
  have all: "c \<in> set order" if "c < ?n" for c
    using that
  proof (induction "rank c" arbitrary: c rule: less_induct)
    case less
    have "p \<in> set order" if "p < ?n" "c \<in> set (children ! p)" for p
      using that ch rank less.hyps by (simp add: ch)
    then have "load ((!) children) ({..<?n} - set order) c = 0"
      by (subst load_zero_iff) auto
    then show ?case using inv less.prems len by (simp add: topo_inv_def Let_def)
  qed
  have d: "distinct order" "set order \<subseteq> {..<?n}" using inv len by (auto simp: topo_inv_def Let_def)
  then have "set order = {..<?n}" using all by auto
  then have "length order = ?n" using d(1) by (metis card_lessThan distinct_card)
  then have "topological_order items = order" using t by simp
  with inv len j dep ch \<open>length order = ?n\<close> show ?thesis
    by (auto simp: topo_inv_def Let_def depends_def)
qed

section \<open>Properties\<close>

text \<open>
  \<open>topological_order\<close> never loses or repeats a plan item, whatever dependencies the
  plan declares: cyclic, dangling, negative and repeated ones included.
\<close>

theorem topological_order_permutation:
  "mset (topological_order items) = mset [0..<length items]"
  using topological_order_perm[of items]
  by (intro mset_eq_of_distinct) (simp_all add: lessThan_atLeast0)

text \<open>
  When the dependencies of a plan are acyclic (some rank falls along each of them),
  \<open>topological_order\<close> puts every item after all the items it depends on.
\<close>

theorem topological_order_respects:
  assumes "\<And>p c. depends items p c \<Longrightarrow> rank p < (rank c :: nat)"
    and "j < length items" and "depends items p (topological_order items ! j)"
  shows "p \<in> set (take j (topological_order items))"
  by (rule topological_order_deps_first[of items rank j p]) (use assms in auto)

theorem topological_order_respects_witness:
  "(0 :: nat) \<in> set (take 1 (topological_order
      [\<lparr>pi_goal = ''a'', pi_artifacts = [], pi_depends_on = [], pi_tool_hints = []\<rparr>,
       \<lparr>pi_goal = ''b'', pi_artifacts = [], pi_depends_on = [0], pi_tool_hints = []\<rparr>]))"
proof -
  let ?items = "[\<lparr>pi_goal = ''a'', pi_artifacts = [], pi_depends_on = [], pi_tool_hints = []\<rparr>,
       \<lparr>pi_goal = ''b'', pi_artifacts = [], pi_depends_on = [0], pi_tool_hints = []\<rparr>]"
  have d: "depends ?items p c \<longleftrightarrow> p = 0 \<and> c = 1" for p c
    by (auto simp: depends_def nth_Cons' less_Suc_eq numeral_2_eq_2)
  have t: "topological_order ?items = [0, 1]" by code_simp
  show ?thesis
    by (rule topological_order_respects[where rank = "\<lambda>i. i" and p = 0 and j = 1])
      (simp_all only: d t, simp_all)
qed

end
