(* ===== verification/Waves.thy ===== *)
theory Waves
  imports Planner
begin

text \<open>
  The wave planner (\<open>src/fabri/builder/waves.py\<close>): dependency edges between work items,
  layered into waves that may run in parallel.  The lemmas show that planning succeeds exactly
  on acyclic edge sets, that the waves partition the items, that every dependency sits in an
  earlier wave, and that no item waits longer than its dependencies force it to.
\<close>

section \<open>The code\<close>

text \<open>An item is a mapping, or an object with the attributes \<open>getattr(item, name, None)\<close> reads.\<close>

datatype work_item = Mapping_item pydict | Object_item "(string \<times> pyval) list"

datatype wave_error =
    MissingId work_item
  | DepsNotIterable work_item
  | DuplicateIds "string list"
  | SelfDependency string
  | UnknownDependency string string
  | CycleAmong "string list"

record wave =
  wv_group :: string
  wv_ids :: "string list"

record spawn_descriptor =
  sd_id :: string
  sd_parallel_group :: string

record node =
  nd_id :: string
  nd_depends_on :: "string list"

definition item_field :: "work_item \<Rightarrow> string \<Rightarrow> pyval" where
  "item_field item k = (case item of Mapping_item d \<Rightarrow> dict_get d k | Object_item attrs \<Rightarrow> (case map_of attrs k of None \<Rightarrow> VNone | Some v \<Rightarrow> v))"

definition normalize_item :: "(pyval \<Rightarrow> string) \<Rightarrow> work_item \<Rightarrow> wave_error + node" where
  "normalize_item pstr item =
     (let raw_id = item_field item ''id''; raw_deps = item_field item ''depends_on'' in
      if raw_id = VNone \<or> (case raw_id of VStr s \<Rightarrow> strip s = [] | _ \<Rightarrow> False) then Inl (MissingId item)
      else if truthy raw_deps
      then (case py_iter raw_deps of
              Inl _ \<Rightarrow> Inl (DepsNotIterable item)
            | Inr ds \<Rightarrow> Inr \<lparr>nd_id = pstr raw_id, nd_depends_on = map pstr ds\<rparr>)
      else Inr \<lparr>nd_id = pstr raw_id, nd_depends_on = []\<rparr>)"

definition normalize :: "(pyval \<Rightarrow> string) \<Rightarrow> work_item list \<Rightarrow> wave_error + node list" where
  "normalize pstr items = traverse (normalize_item pstr) items"

text \<open>\<open>str\<close> on the values ids usually are: strings and integers.\<close>

definition key_text :: "pyval \<Rightarrow> string" where
  "key_text v = (case v of VStr s \<Rightarrow> s | VInt i \<Rightarrow> show_int i | _ \<Rightarrow> [])"

text \<open>The dictionaries \<open>indeg\<close> and \<open>children\<close>, total on the declared ids.\<close>

type_synonym wave_graph = "(string \<Rightarrow> int) \<times> (string \<Rightarrow> string list)"

definition add_dep :: "string list \<Rightarrow> string \<Rightarrow> wave_graph \<Rightarrow> string \<Rightarrow> wave_error + wave_graph" where
  "add_dep known i = (\<lambda>(indeg, children) dep.
     if dep = i then Inl (SelfDependency i)
     else if dep \<notin> set known then Inl (UnknownDependency i dep)
     else Inr (indeg(i := indeg i + 1), children(dep := children dep @ [i])))"

definition wave_graph :: "node list \<Rightarrow> wave_error + wave_graph" where
  "wave_graph nodes =
     efold (\<lambda>g nd. efold (add_dep (map nd_id nodes) (nd_id nd)) g (nd_depends_on nd))
       ((\<lambda>_. 0), (\<lambda>_. [])) nodes"

definition free_child :: "string \<Rightarrow> (string \<Rightarrow> int) \<times> string set \<Rightarrow> (string \<Rightarrow> int) \<times> string set" where
  "free_child child = (\<lambda>(indeg, freed).
     let indeg = indeg(child := indeg child - 1)
     in (indeg, if indeg child = 0 then insert child freed else freed))"

definition run_wave ::
  "(string \<Rightarrow> string list) \<Rightarrow> string list \<Rightarrow> (string \<Rightarrow> int) \<Rightarrow> (string \<Rightarrow> int) \<times> string set" where
  "run_wave children ready indeg = fold (\<lambda>i s. fold free_child (children i) s) ready (indeg, {})"

lemma fold_fold_concat: "fold (\<lambda>i s. fold f (g i) s) xs s = fold f (concat (map g xs)) s"
  by (induction xs arbitrary: s) auto

lemma fold_free_child:
  "fold free_child cs (indeg, freed) =
     ((\<lambda>c. indeg c - int (count_list cs c)),
      freed \<union> {c. 0 < indeg c \<and> indeg c \<le> int (count_list cs c)})"
  by (induction cs arbitrary: indeg freed) (auto simp: free_child_def Let_def fun_eq_iff)

lemma run_wave_eq:
  "run_wave children ready indeg =
     ((\<lambda>c. indeg c - int (count_list (concat (map children ready)) c)),
      {c. 0 < indeg c \<and> indeg c \<le> int (count_list (concat (map children ready)) c)})"
  by (simp add: run_wave_def fold_fold_concat fold_free_child)

function wave_loop ::
  "string \<Rightarrow> string list \<Rightarrow> (string \<Rightarrow> string list) \<Rightarrow> (string \<Rightarrow> int) \<Rightarrow> string list \<Rightarrow> wave list \<Rightarrow> nat
     \<Rightarrow> wave list \<times> nat \<times> (string \<Rightarrow> int)" where
  "wave_loop group_prefix order children indeg ready waves placed =
     (if ready = [] then (waves, placed, indeg)
      else (let (indeg', freed) = run_wave children ready indeg
            in wave_loop group_prefix order children indeg' (filter (\<lambda>i. i \<in> freed) order)
                 (waves @ [\<lparr>wv_group = group_prefix @ show_nat (length waves + 1), wv_ids = ready\<rparr>])
                 (placed + length ready)))"
  by pat_completeness auto
termination
proof (relation "measure (\<lambda>(_, order, _, indeg, ready, _, _).
    card {i \<in> set order. 0 < indeg i} + (if ready = [] then 0 else 1))")
  fix order ready :: "string list" and indeg indeg' :: "string \<Rightarrow> int" and children freed p waves placed w n x
  assume ne: "ready \<noteq> []" and x: "x = run_wave children ready indeg" "(indeg', freed) = x"
  from x have i': "indeg' = (\<lambda>c. indeg c - int (count_list (concat (map children ready)) c))"
    and f: "freed = {c. 0 < indeg c \<and> indeg c \<le> int (count_list (concat (map children ready)) c)}"
    by (auto simp: run_wave_eq)
  have sub: "{i \<in> set order. 0 < indeg' i} \<subseteq> {i \<in> set order. 0 < indeg i}"
    by (auto simp: i')
  have "card {i \<in> set order. 0 < indeg' i} < card {i \<in> set order. 0 < indeg i}"
    if "filter (\<lambda>i. i \<in> freed) order \<noteq> []"
  proof -
    from that obtain c where "c \<in> set order" "c \<in> freed" by (auto simp: filter_empty_conv)
    then have "c \<in> {i \<in> set order. 0 < indeg i} - {i \<in> set order. 0 < indeg' i}"
      by (auto simp: f i')
    then have "{i \<in> set order. 0 < indeg' i} \<subset> {i \<in> set order. 0 < indeg i}" using sub by blast
    then show ?thesis by (intro psubset_card_mono) auto
  qed
  moreover have "card {i \<in> set order. 0 < indeg' i} \<le> card {i \<in> set order. 0 < indeg i}"
    by (intro card_mono sub) auto
  ultimately show "((p, order, children, indeg', filter (\<lambda>i. i \<in> freed) order,
       waves @ [\<lparr>wv_group = p @ show_nat (length waves + 1), wv_ids = ready\<rparr>], placed + length ready),
      (p, order, children, indeg, ready, waves, placed))
    \<in> measure (\<lambda>(_, order, _, indeg, ready, _, _).
    card {i \<in> set order. 0 < indeg i} + (if ready = [] then 0 else 1))"
    using ne by auto
qed auto

declare wave_loop.simps [simp del]

definition plan_waves :: "(pyval \<Rightarrow> string) \<Rightarrow> string \<Rightarrow> work_item list \<Rightarrow> wave_error + wave list" where
  "plan_waves pstr group_prefix items =
     ebind (normalize pstr items) (\<lambda>nodes.
       if nodes = [] then Inr []
       else (let order = map nd_id nodes in
         if \<not> distinct order
         then Inl (DuplicateIds (sort (remdups (filter (\<lambda>i. 1 < count_list order i) order))))
         else ebind (wave_graph nodes) (\<lambda>(indeg, children).
           let (waves, placed, indeg') =
             wave_loop group_prefix order children indeg (filter (\<lambda>i. indeg i = 0) order) [] 0
           in if placed \<noteq> length order
              then Inl (CycleAmong (sort (filter (\<lambda>i. 0 < indeg' i) order)))
              else Inr waves)))"

definition spawn_descriptors :: "wave list \<Rightarrow> spawn_descriptor list" where
  "spawn_descriptors plan =
     concat (map (\<lambda>w. map (\<lambda>i. \<lparr>sd_id = i, sd_parallel_group = wv_group w\<rparr>) (wv_ids w)) plan)"

section \<open>Lemmas\<close>

subsection \<open>The graph of the items\<close>

text \<open>\<open>p\<close> is a declared dependency of the item \<open>c\<close>.\<close>

definition needs :: "node list \<Rightarrow> string \<Rightarrow> string \<Rightarrow> bool" where
  "needs nodes p c \<longleftrightarrow> (\<exists>nd \<in> set nodes. nd_id nd = c \<and> p \<in> set (nd_depends_on nd))"

text \<open>Edges run between declared items and never from an item to itself.\<close>

definition edges_ok :: "node list \<Rightarrow> bool" where
  "edges_ok nodes \<longleftrightarrow> (\<forall>p c. needs nodes p c \<longrightarrow> p \<in> nd_id ` set nodes \<and> p \<noteq> c)"

lemma load_fun_upd:
  assumes "finite A" and "d \<in> A"
  shows "load (ch(d := ch d @ [i])) A c = load ch A c + (if c = i then 1 else 0)"
proof -
  have "load (ch(d := ch d @ [i])) A c
      = (\<Sum>p \<in> A. int (count_list (ch p) c) + (if p = d then (if c = i then 1 else 0) else 0))"
    unfolding load_def by (intro sum.cong) auto
  also have "\<dots> = load ch A c + (if c = i then 1 else 0)"
    using assms by (simp add: sum.distrib load_def)
  finally show ?thesis .
qed

lemma add_deps:
  assumes "efold (add_dep known i) g deps = Inr g'"
    and "\<forall>c. fst g c = load (snd g) (set known) c"
  shows "(\<forall>c. fst g' c = load (snd g') (set known) c) \<and> i \<notin> set deps \<and> set deps \<subseteq> set known \<and>
    (\<forall>p c. c \<in> set (snd g' p) \<longleftrightarrow> c \<in> set (snd g p) \<or> (c = i \<and> p \<in> set deps))"
  using assms
proof (induction deps arbitrary: g)
  case Nil
  then show ?case by simp
next
  case (Cons d deps)
  obtain indeg ch where g: "g = (indeg, ch)" by fastforce
  with Cons.prems(1) have d: "d \<noteq> i" "d \<in> set known"
    and r: "efold (add_dep known i) (indeg(i := indeg i + 1), ch(d := ch d @ [i])) deps = Inr g'"
    by (auto simp: add_dep_def split: if_splits)
  have "\<forall>c. fst (indeg(i := indeg i + 1), ch(d := ch d @ [i])) c
      = load (snd (indeg(i := indeg i + 1), ch(d := ch d @ [i]))) (set known) c"
    using Cons.prems(2) g d(2) by (simp add: load_fun_upd)
  from Cons.IH[OF r this] d g show ?case by auto
qed

lemma wave_graph_fold:
  assumes "efold (\<lambda>g nd. efold (add_dep known (nd_id nd)) g (nd_depends_on nd)) g nodes = Inr g'"
    and "\<forall>c. fst g c = load (snd g) (set known) c"
  shows "(\<forall>c. fst g' c = load (snd g') (set known) c)
    \<and> (\<forall>p c. needs nodes p c \<longrightarrow> p \<in> set known \<and> p \<noteq> c)
    \<and> (\<forall>p c. c \<in> set (snd g' p) \<longleftrightarrow> c \<in> set (snd g p) \<or> needs nodes p c)"
  using assms
proof (induction nodes arbitrary: g)
  case Nil
  then show ?case by (simp add: needs_def)
next
  case (Cons nd nodes)
  from Cons.prems(1) obtain g1 where
    g1: "efold (add_dep known (nd_id nd)) g (nd_depends_on nd) = Inr g1" and
    r: "efold (\<lambda>g nd. efold (add_dep known (nd_id nd)) g (nd_depends_on nd)) g1 nodes = Inr g'"
    by (auto split: sum.splits)
  from add_deps[OF g1 Cons.prems(2)] Cons.IH[OF r]
  show ?case by (auto simp: needs_def)
qed

lemma wave_graph_Inr:
  assumes "wave_graph nodes = Inr (indeg, children)"
  shows "\<forall>c. indeg c = load children (nd_id ` set nodes) c" and "edges_ok nodes"
    and "\<forall>p c. c \<in> set (children p) \<longleftrightarrow> needs nodes p c"
  using wave_graph_fold[of "map nd_id nodes" "((\<lambda>_. 0), (\<lambda>_. []))" nodes "(indeg, children)"] assms
  by (auto simp: wave_graph_def load_def edges_ok_def)

lemma efold_total:
  "(\<And>s x. x \<in> set xs \<Longrightarrow> \<exists>s'. f s x = Inr s') \<Longrightarrow> \<exists>t. efold f s xs = Inr t"
proof (induction xs arbitrary: s)
  case (Cons x xs)
  then obtain s' where "f s x = Inr s'" by fastforce
  with Cons show ?case by simp
qed simp

lemma wave_graph_total:
  assumes "edges_ok nodes"
  shows "\<exists>g. wave_graph nodes = Inr g"
  unfolding wave_graph_def
proof (rule efold_total, rule efold_total)
  fix g s :: wave_graph and nd d
  assume "nd \<in> set nodes" "d \<in> set (nd_depends_on nd)"
  with assms have "d \<noteq> nd_id nd" "d \<in> set (map nd_id nodes)"
    by (auto simp: edges_ok_def needs_def)
  then show "\<exists>s'. add_dep (map nd_id nodes) (nd_id nd) s d = Inr s'"
    by (cases s) (auto simp: add_dep_def)
qed

subsection \<open>The waves\<close>

definition wave_ids :: "wave list \<Rightarrow> string list" where
  "wave_ids ws = concat (map wv_ids ws)"

lemma wave_ids_simps [simp]:
  "wave_ids [] = []" "wave_ids (ws @ [w]) = wave_ids ws @ wv_ids w"
  by (simp_all add: wave_ids_def)

text \<open>What the waves laid so far satisfy.\<close>

definition layered :: "string \<Rightarrow> string list \<Rightarrow> (string \<Rightarrow> string list) \<Rightarrow> wave list \<Rightarrow> bool" where
  "layered group_prefix order children ws \<longleftrightarrow>
     (\<forall>k < length ws.
        wv_group (ws ! k) = group_prefix @ show_nat (k + 1) \<and> wv_ids (ws ! k) \<noteq> [] \<and>
        wv_ids (ws ! k) = filter (\<lambda>i. i \<in> set (wv_ids (ws ! k))) order \<and>
        (\<forall>c \<in> set (wv_ids (ws ! k)).
           (\<forall>p \<in> set order. c \<in> set (children p) \<longrightarrow> p \<in> set (wave_ids (take k ws))) \<and>
           (0 < k \<longrightarrow> (\<exists>p \<in> set (wv_ids (ws ! (k - 1))). c \<in> set (children p)))))"

definition wave_inv ::
  "string \<Rightarrow> string list \<Rightarrow> (string \<Rightarrow> string list) \<Rightarrow> (string \<Rightarrow> int) \<Rightarrow> string list \<Rightarrow> wave list \<Rightarrow> bool" where
  "wave_inv group_prefix order children indeg ready ws \<longleftrightarrow>
     distinct (wave_ids ws @ ready) \<and> set (wave_ids ws @ ready) \<subseteq> set order \<and>
     (\<forall>c. indeg c = load children (set order - set (wave_ids ws)) c) \<and>
     (\<forall>c \<in> set order. c \<in> set (wave_ids ws @ ready) \<longleftrightarrow> indeg c = 0) \<and>
     ready = filter (\<lambda>i. i \<in> set ready) order \<and>
     (ws \<noteq> [] \<longrightarrow> (\<forall>c \<in> set ready. \<exists>p \<in> set (wv_ids (last ws)). c \<in> set (children p))) \<and>
     layered group_prefix order children ws"

lemma count_concat_load: "distinct xs \<Longrightarrow> int (count_list (concat (map ch xs)) c) = load ch (set xs) c"
  by (induction xs) (auto simp: load_def)

lemma load_diff:
  "finite A \<Longrightarrow> B \<subseteq> A \<Longrightarrow> load ch (A - B) c = load ch A c - load ch B c"
  by (simp add: load_def sum_diff)

lemma layered_snoc:
  assumes "layered pre order children ws"
    and "wv_group w = pre @ show_nat (length ws + 1)" "wv_ids w \<noteq> []"
    and "wv_ids w = filter (\<lambda>i. i \<in> set (wv_ids w)) order"
    and "\<forall>c \<in> set (wv_ids w). (\<forall>p \<in> set order. c \<in> set (children p) \<longrightarrow> p \<in> set (wave_ids ws))
      \<and> (ws \<noteq> [] \<longrightarrow> (\<exists>p \<in> set (wv_ids (last ws)). c \<in> set (children p)))"
  shows "layered pre order children (ws @ [w])"
  unfolding layered_def
proof (intro allI impI, goal_cases)
  case (1 k)
  show ?case
  proof (cases "k < length ws")
    case True
    then have "(ws @ [w]) ! (k - 1) = ws ! (k - 1)" by (simp add: nth_append)
    with True assms(1) show ?thesis by (simp add: layered_def nth_append)
  next
    case False
    with 1 have k: "k = length ws" by simp
    have "0 < k \<Longrightarrow> (ws @ [w]) ! (k - 1) = last ws" by (simp add: k nth_append last_conv_nth)
    with k assms(2-5) show ?thesis by auto
  qed
qed

lemma wave_inv_step:
  assumes inv: "wave_inv pre order children indeg ready ws" and ne: "ready \<noteq> []" and "distinct order"
    and run: "run_wave children ready indeg = (indeg', freed)"
    and w: "w = \<lparr>wv_group = pre @ show_nat (length ws + 1), wv_ids = ready\<rparr>"
  shows "wave_inv pre order children indeg' (filter (\<lambda>i. i \<in> freed) order) (ws @ [w])"
proof -
  let ?A = "set order - set (wave_ids ws)"
  have i: "distinct (wave_ids ws @ ready)" "set (wave_ids ws @ ready) \<subseteq> set order"
    "\<And>c. indeg c = load children ?A c"
    "\<And>c. c \<in> set order \<Longrightarrow> c \<in> set (wave_ids ws @ ready) \<longleftrightarrow> indeg c = 0"
    "ready = filter (\<lambda>i. i \<in> set ready) order"
    "ws \<noteq> [] \<Longrightarrow> \<forall>c \<in> set ready. \<exists>p \<in> set (wv_ids (last ws)). c \<in> set (children p)"
    "layered pre order children ws"
    using inv unfolding wave_inv_def by blast+
  have sub: "set ready \<subseteq> ?A" using i(1,2) by auto
  have A: "set order - set (wave_ids (ws @ [w])) = ?A - set ready" by (auto simp: w)
  have cnt: "int (count_list (concat (map children ready)) c) = load children (set ready) c" for c
    using i(1) by (intro count_concat_load) simp
  have new: "indeg' c = load children (?A - set ready) c" for c
    using run by (auto simp: run_wave_eq cnt i(3) load_diff[OF _ sub])
  have freed: "c \<in> freed \<longleftrightarrow> 0 < indeg c \<and> indeg' c = 0" for c
  proof -
    have "c \<in> freed \<longleftrightarrow> 0 < indeg c \<and> indeg' c \<le> 0"
      using run by (auto simp: run_wave_eq)
    moreover have "0 \<le> indeg' c" by (simp add: new load_nonneg)
    ultimately show ?thesis by auto
  qed
  have zero: "c \<in> set (wave_ids ws @ ready) \<Longrightarrow> c \<in> set order \<and> indeg c = 0 \<and> indeg' c = 0" for c
  proof -
    assume c: "c \<in> set (wave_ids ws @ ready)"
    then have o: "c \<in> set order" using i(2) by auto
    with c i(4) have z: "indeg c = 0" by blast
    then have "indeg' c = - load children (set ready) c"
      by (simp add: new load_diff[OF _ sub] flip: i(3))
    with load_nonneg[of children "set ready" c] load_nonneg[of children "?A - set ready" c] new[of c] o z
    show ?thesis by simp
  qed
  have pos: "0 < indeg c \<longleftrightarrow> indeg c \<noteq> 0" for c using load_nonneg[of children ?A c] i(3)[of c] by auto
  have "distinct (wave_ids (ws @ [w]) @ filter (\<lambda>i. i \<in> freed) order)"
    using i(1) assms(3) zero freed by (auto simp: w)
  moreover have "set (wave_ids (ws @ [w]) @ filter (\<lambda>i. i \<in> freed) order) \<subseteq> set order"
    using i(2) by (auto simp: w)
  moreover have "c \<in> set (wave_ids (ws @ [w]) @ filter (\<lambda>i. i \<in> freed) order) \<longleftrightarrow> indeg' c = 0"
    if "c \<in> set order" for c
    using that zero[of c] i(4)[OF that] pos[of c] freed[of c] by (auto simp: w)
  moreover have "\<exists>p \<in> set (wv_ids (last (ws @ [w]))). c \<in> set (children p)" if "c \<in> freed" for c
  proof -
    have "load children (set ready) c \<noteq> 0"
      using that new[of c] by (simp add: freed load_diff[OF _ sub] flip: i(3))
    then show ?thesis by (simp add: w load_zero_iff)
  qed
  moreover have "layered pre order children (ws @ [w])"
  proof (rule layered_snoc[OF i(7)])
    show "\<forall>c \<in> set (wv_ids w). (\<forall>p \<in> set order. c \<in> set (children p) \<longrightarrow> p \<in> set (wave_ids ws))
      \<and> (ws \<noteq> [] \<longrightarrow> (\<exists>p \<in> set (wv_ids (last ws)). c \<in> set (children p)))"
    proof (intro ballI conjI impI)
      fix c p
      assume c: "c \<in> set (wv_ids w)" and p: "p \<in> set order" "c \<in> set (children p)"
      then have "load children ?A c = 0" using zero[of c] i(3)[of c] by (simp add: w)
      with p show "p \<in> set (wave_ids ws)" by (auto simp: load_zero_iff)
    qed (use i(6) w in auto)
  qed (use ne i(5) w in auto)
  ultimately show ?thesis unfolding wave_inv_def A using new by (auto simp: w intro!: filter_cong)
qed

lemma wave_loop_inv:
  assumes "wave_inv pre order children indeg ready ws" and "distinct order"
    and "placed = length (wave_ids ws)"
    and "wave_loop pre order children indeg ready ws placed = (ws', placed', indeg')"
  shows "wave_inv pre order children indeg' [] ws' \<and> placed' = length (wave_ids ws')"
  using assms
proof (induction pre order children indeg ready ws placed rule: wave_loop.induct)
  case (1 pre order children indeg ready ws placed)
  show ?case
  proof (cases "ready = []")
    case True
    with "1.prems" show ?thesis by (auto simp: wave_loop.simps)
  next
    case False
    obtain i' f where r: "run_wave children ready indeg = (i', f)" by fastforce
    let ?w = "\<lparr>wv_group = pre @ show_nat (length ws + 1), wv_ids = ready\<rparr>"
    have "wave_loop pre order children i' (filter (\<lambda>i. i \<in> f) order) (ws @ [?w]) (placed + length ready)
        = (ws', placed', indeg')"
      using "1.prems"(4) False r by (subst (asm) wave_loop.simps) simp
    moreover have "wave_inv pre order children i' (filter (\<lambda>i. i \<in> f) order) (ws @ [?w])"
      by (rule wave_inv_step[OF "1.prems"(1) False "1.prems"(2) r refl])
    ultimately show ?thesis using "1.IH"[OF False r[symmetric] refl] "1.prems"(2,3) by simp
  qed
qed

lemma wave_inv_start:
  assumes "wave_graph nodes = Inr (indeg, children)" and "distinct (map nd_id nodes)"
  shows "wave_inv pre (map nd_id nodes) children indeg (filter (\<lambda>i. indeg i = 0) (map nd_id nodes)) []"
  using wave_graph_Inr[OF assms(1)] assms(2)
  by (auto simp: wave_inv_def layered_def intro!: filter_cong)

text \<open>The result of planning normalised items with distinct ids and sound edges.\<close>

lemma plan_waves_result:
  assumes "normalize pstr items = Inr nodes" and "distinct (map nd_id nodes)" and "edges_ok nodes"
  obtains ws children indeg where
    "\<forall>p c. c \<in> set (children p) \<longleftrightarrow> needs nodes p c"
    "wave_inv pre (map nd_id nodes) children indeg [] ws"
    "plan_waves pstr pre items = (if length (wave_ids ws) \<noteq> length nodes
       then Inl (CycleAmong (sort (filter (\<lambda>i. 0 < indeg i) (map nd_id nodes)))) else Inr ws)"
proof -
  from wave_graph_total[OF assms(3)] obtain indeg0 children where
    g: "wave_graph nodes = Inr (indeg0, children)" by (metis surj_pair)
  obtain ws placed indeg where l: "wave_loop pre (map nd_id nodes) children indeg0
      (filter (\<lambda>i. indeg0 i = 0) (map nd_id nodes)) [] 0 = (ws, placed, indeg)"
    by (metis surj_pair)
  have inv: "wave_inv pre (map nd_id nodes) children indeg [] ws" and "placed = length (wave_ids ws)"
    using wave_loop_inv[OF wave_inv_start[OF g assms(2)] assms(2) _ l] by auto
  moreover have "nodes = [] \<Longrightarrow> ws = [] \<and> wave_ids ws = []"
    using l by (simp add: wave_loop.simps)
  ultimately have "plan_waves pstr pre items = (if length (wave_ids ws) \<noteq> length nodes
       then Inl (CycleAmong (sort (filter (\<lambda>i. 0 < indeg i) (map nd_id nodes)))) else Inr ws)"
    using assms g l by (auto simp: plan_waves_def Let_def)
  with wave_graph_Inr(3)[OF g] inv show thesis by (rule that)
qed

lemma plan_waves_Inr_edges:
  assumes "plan_waves pstr pre items = Inr ws" and "normalize pstr items = Inr nodes"
  shows "distinct (map nd_id nodes) \<and> edges_ok nodes"
proof (cases "nodes = []")
  case True
  then show ?thesis by (simp add: edges_ok_def needs_def)
next
  case False
  with assms have "distinct (map nd_id nodes)" by (auto simp: plan_waves_def Let_def split: if_splits)
  moreover obtain indeg children where "wave_graph nodes = Inr (indeg, children)"
    using assms False by (auto simp: plan_waves_def Let_def split: if_splits)
  ultimately show ?thesis by (simp add: wave_graph_Inr(2))
qed

lemma wave_inv_complete_acyclic:
  assumes inv: "wave_inv pre (map nd_id nodes) children indeg [] ws"
    and ch: "\<forall>p c. c \<in> set (children p) \<longleftrightarrow> needs nodes p c"
    and rank: "\<And>p c. needs nodes p c \<Longrightarrow> rank p < (rank c :: nat)"
    and c: "c \<in> nd_id ` set nodes"
  shows "c \<in> set (wave_ids ws)"
  using c
proof (induction "rank c" arbitrary: c rule: less_induct)
  case less
  have "load children (set (map nd_id nodes) - set (wave_ids ws)) c = 0"
    using less.hyps rank ch by (subst load_zero_iff) auto
  moreover have "indeg c = load children (set (map nd_id nodes) - set (wave_ids ws)) c"
    "c \<in> set (map nd_id nodes) \<Longrightarrow> c \<in> set (wave_ids ws @ []) \<longleftrightarrow> indeg c = 0"
    using inv unfolding wave_inv_def by blast+
  ultimately show ?case using less.prems by simp
qed

text \<open>The wave an item is in.\<close>

definition wave_of :: "wave list \<Rightarrow> string \<Rightarrow> nat" where
  "wave_of ws c = length (takeWhile (\<lambda>w. c \<notin> set (wv_ids w)) ws)"

lemma wave_of_nth:
  assumes "distinct (wave_ids ws)" and "k < length ws" and "c \<in> set (wv_ids (ws ! k))"
  shows "wave_of ws c = k"
  using assms
proof (induction ws arbitrary: k)
  case (Cons w ws)
  show ?case
  proof (cases k)
    case 0
    with Cons.prems show ?thesis by (simp add: wave_of_def)
  next
    case (Suc j)
    with Cons.prems have "c \<in> set (wave_ids ws)" by (auto simp: wave_ids_def)
    with Cons.prems(1) have "c \<notin> set (wv_ids w)" by (auto simp: wave_ids_def)
    with Suc Cons show ?thesis by (simp add: wave_of_def wave_ids_def)
  qed
qed simp

lemma in_wave_ids: "c \<in> set (wave_ids ws) \<Longrightarrow> \<exists>k < length ws. c \<in> set (wv_ids (ws ! k))"
  by (force simp: wave_ids_def in_set_conv_nth[of _ ws])

lemma in_earlier_wave: "c \<in> set (wave_ids (take n ws)) \<Longrightarrow> \<exists>k < n. k < length ws \<and> c \<in> set (wv_ids (ws ! k))"
  using in_wave_ids[of c "take n ws"] by auto

text \<open>A plan: the waves partition the items, and each item is in the first wave it may be in.\<close>

lemma plan_waves_layers:
  assumes "plan_waves pstr pre items = Inr ws" and "normalize pstr items = Inr nodes"
  shows "mset (wave_ids ws) = mset (map nd_id nodes)"
    and "\<forall>p c. needs nodes p c \<longrightarrow> wave_of ws p < wave_of ws c"
    and "\<forall>c \<in> nd_id ` set nodes. 0 < wave_of ws c \<longrightarrow>
           (\<exists>p. needs nodes p c \<and> wave_of ws c = Suc (wave_of ws p))"
    and "\<forall>k < length ws. wv_group (ws ! k) = pre @ show_nat (k + 1) \<and> wv_ids (ws ! k) \<noteq> []
           \<and> wv_ids (ws ! k) = filter (\<lambda>i. wave_of ws i = k) (map nd_id nodes)"
proof -
  note e = plan_waves_Inr_edges[OF assms]
  from plan_waves_result[OF assms(2), of pre] e obtain ws' children indeg where
    ch: "\<forall>p c. c \<in> set (children p) \<longleftrightarrow> needs nodes p c"
    and inv: "wave_inv pre (map nd_id nodes) children indeg [] ws'"
    and r: "plan_waves pstr pre items = (if length (wave_ids ws') \<noteq> length nodes
       then Inl (CycleAmong (sort (filter (\<lambda>i. 0 < indeg i) (map nd_id nodes)))) else Inr ws')"
    by metis
  from r assms(1) have ws: "ws' = ws" and len: "length (wave_ids ws) = length nodes"
    by (auto split: if_splits)
  have d: "distinct (wave_ids ws)" "set (wave_ids ws) \<subseteq> nd_id ` set nodes"
    and lay: "layered pre (map nd_id nodes) children ws"
    using inv by (auto simp: wave_inv_def ws)
  have "card (set (wave_ids ws)) = card (nd_id ` set nodes)"
    using d(1) len e by (metis distinct_card length_map list.set_map)
  then have all: "set (wave_ids ws) = nd_id ` set nodes" using d(2) by (simp add: card_subset_eq)
  show "mset (wave_ids ws) = mset (map nd_id nodes)"
    using d(1) e all by (intro mset_eq_of_distinct) auto
  have at: "\<exists>k < length ws. c \<in> set (wv_ids (ws ! k)) \<and> wave_of ws c = k" if "c \<in> nd_id ` set nodes" for c
    using in_wave_ids[of c ws] that all wave_of_nth[OF d(1)] by auto
  show "\<forall>p c. needs nodes p c \<longrightarrow> wave_of ws p < wave_of ws c"
  proof (intro allI impI)
    fix p c
    assume n: "needs nodes p c"
    then have o: "c \<in> nd_id ` set nodes" "p \<in> nd_id ` set nodes"
      using e by (auto simp: needs_def edges_ok_def)
    then obtain k where k: "k < length ws" "c \<in> set (wv_ids (ws ! k))" "wave_of ws c = k" using at by blast
    have "p \<in> set (map nd_id nodes)" "c \<in> set (children p)" using o n ch by auto
    with lay k have "p \<in> set (wave_ids (take k ws))" unfolding layered_def by blast
    with in_earlier_wave wave_of_nth[OF d(1)] k(3) show "wave_of ws p < wave_of ws c" by metis
  qed
  show "\<forall>c \<in> nd_id ` set nodes. 0 < wave_of ws c \<longrightarrow>
           (\<exists>p. needs nodes p c \<and> wave_of ws c = Suc (wave_of ws p))"
  proof (intro ballI impI)
    fix c
    assume "c \<in> nd_id ` set nodes" and z: "0 < wave_of ws c"
    with at obtain k where k: "k < length ws" "c \<in> set (wv_ids (ws ! k))" "wave_of ws c = k" by blast
    with z have "0 < k" by simp
    with lay k obtain p where "p \<in> set (wv_ids (ws ! (k - 1)))" "c \<in> set (children p)"
      unfolding layered_def by blast
    with ch k z wave_of_nth[OF d(1), of "k - 1" p]
    show "\<exists>p. needs nodes p c \<and> wave_of ws c = Suc (wave_of ws p)" by fastforce
  qed
  show "\<forall>k < length ws. wv_group (ws ! k) = pre @ show_nat (k + 1) \<and> wv_ids (ws ! k) \<noteq> []
           \<and> wv_ids (ws ! k) = filter (\<lambda>i. wave_of ws i = k) (map nd_id nodes)"
  proof (intro allI impI)
    fix k
    assume k: "k < length ws"
    have "i \<in> set (wv_ids (ws ! k)) \<longleftrightarrow> wave_of ws i = k" if "i \<in> nd_id ` set nodes" for i
      using at[OF that] wave_of_nth[OF d(1) k] by blast
    then have "filter (\<lambda>i. i \<in> set (wv_ids (ws ! k))) (map nd_id nodes)
        = filter (\<lambda>i. wave_of ws i = k) (map nd_id nodes)"
      by (intro filter_cong) auto
    with lay k show "wv_group (ws ! k) = pre @ show_nat (k + 1) \<and> wv_ids (ws ! k) \<noteq> []
           \<and> wv_ids (ws ! k) = filter (\<lambda>i. wave_of ws i = k) (map nd_id nodes)"
      unfolding layered_def by metis
  qed
qed

lemma plan_waves_iff_acyclic:
  assumes "normalize pstr items = Inr nodes"
  shows "(\<exists>ws. plan_waves pstr pre items = Inr ws) \<longleftrightarrow>
     distinct (map nd_id nodes) \<and> edges_ok nodes \<and>
     (\<exists>rank :: string \<Rightarrow> nat. \<forall>p c. needs nodes p c \<longrightarrow> rank p < rank c)"
proof
  assume "\<exists>ws. plan_waves pstr pre items = Inr ws"
  then obtain ws where w: "plan_waves pstr pre items = Inr ws" by blast
  from plan_waves_Inr_edges[OF w assms] plan_waves_layers(2)[OF w assms]
  show "distinct (map nd_id nodes) \<and> edges_ok nodes \<and>
     (\<exists>rank :: string \<Rightarrow> nat. \<forall>p c. needs nodes p c \<longrightarrow> rank p < rank c)" by blast
next
  assume "distinct (map nd_id nodes) \<and> edges_ok nodes \<and>
     (\<exists>rank :: string \<Rightarrow> nat. \<forall>p c. needs nodes p c \<longrightarrow> rank p < rank c)"
  then obtain rank :: "string \<Rightarrow> nat" where d: "distinct (map nd_id nodes)" and e: "edges_ok nodes"
    and rank: "\<And>p c. needs nodes p c \<Longrightarrow> rank p < rank c" by blast
  from plan_waves_result[OF assms d e, of pre] obtain ws children indeg where
    ch: "\<forall>p c. c \<in> set (children p) \<longleftrightarrow> needs nodes p c"
    and inv: "wave_inv pre (map nd_id nodes) children indeg [] ws"
    and r: "plan_waves pstr pre items = (if length (wave_ids ws) \<noteq> length nodes
       then Inl (CycleAmong (sort (filter (\<lambda>i. 0 < indeg i) (map nd_id nodes)))) else Inr ws)"
    by metis
  have s: "distinct (wave_ids ws)" "set (wave_ids ws) \<subseteq> nd_id ` set nodes"
    using inv by (auto simp: wave_inv_def)
  moreover have "nd_id ` set nodes \<subseteq> set (wave_ids ws)"
    by (rule subsetI, rule wave_inv_complete_acyclic[OF inv ch, of rank]) (auto intro: rank)
  ultimately have "set (wave_ids ws) = nd_id ` set nodes" by blast
  then have "length (wave_ids ws) = length nodes"
    using s(1) d by (metis distinct_card length_map list.set_map)
  with r show "\<exists>ws. plan_waves pstr pre items = Inr ws" by simp
qed

section \<open>Properties\<close>

text \<open>
  C38: \<open>plan_waves\<close> succeeds exactly when the ids are distinct, every dependency names
  another declared item, and the dependencies are acyclic.
\<close>

theorem plan_waves_succeeds_iff:
  assumes "normalize pstr items = Inr nodes"
  shows "(\<exists>ws. plan_waves pstr pre items = Inr ws) \<longleftrightarrow>
     distinct (map nd_id nodes) \<and> edges_ok nodes \<and>
     (\<exists>rank :: string \<Rightarrow> nat. \<forall>p c. needs nodes p c \<longrightarrow> rank p < rank c)"
  using assms by (rule plan_waves_iff_acyclic)

theorem plan_waves_succeeds_iff_witness:
  "\<not> (\<exists>ws. plan_waves key_text ''w'' [Mapping_item [(KStr ''id'', VStr ''a''), (KStr ''depends_on'', VList [VStr ''a''])]] = Inr ws)"
proof -
  have n: "normalize key_text [Mapping_item [(KStr ''id'', VStr ''a''), (KStr ''depends_on'', VList [VStr ''a''])]]
      = Inr [\<lparr>nd_id = ''a'', nd_depends_on = [''a'']\<rparr>]"
    by code_simp
  have "needs [\<lparr>nd_id = ''a'', nd_depends_on = [''a'']\<rparr>] ''a'' ''a''" by (simp add: needs_def)
  then show ?thesis
    unfolding plan_waves_succeeds_iff[OF n] edges_ok_def by blast
qed

text \<open>
  The waves of a plan hold every item exactly once; an item's dependencies sit in
  strictly earlier waves, and it is never later than the wave right after one of them.  Wave
  \<open>k\<close> is tagged \<open>prefix(k+1)\<close>, is not empty and lists its items in declared order.
\<close>

theorem plan_waves_partition:
  assumes "plan_waves pstr pre items = Inr ws" and "normalize pstr items = Inr nodes"
  shows "mset (wave_ids ws) = mset (map nd_id nodes)
    \<and> (\<forall>p c. needs nodes p c \<longrightarrow> wave_of ws p < wave_of ws c)
    \<and> (\<forall>c \<in> nd_id ` set nodes. 0 < wave_of ws c \<longrightarrow>
           (\<exists>p. needs nodes p c \<and> wave_of ws c = Suc (wave_of ws p)))
    \<and> (\<forall>k < length ws. wv_group (ws ! k) = pre @ show_nat (k + 1) \<and> wv_ids (ws ! k) \<noteq> []
           \<and> wv_ids (ws ! k) = filter (\<lambda>i. wave_of ws i = k) (map nd_id nodes))"
  by (intro conjI) (rule plan_waves_layers[OF assms])+

theorem plan_waves_partition_witness:
  "\<exists>ws. plan_waves key_text ''w'' [Mapping_item [(KStr ''id'', VStr ''b''), (KStr ''depends_on'', VList [VStr ''a''])],
      Mapping_item [(KStr ''id'', VStr ''a'')]] = Inr ws \<and> wave_of ws ''a'' < wave_of ws ''b''"
proof -
  let ?i = "[Mapping_item [(KStr ''id'', VStr ''b''), (KStr ''depends_on'', VList [VStr ''a''])],
      Mapping_item [(KStr ''id'', VStr ''a'')]]"
  have n: "normalize key_text ?i = Inr [\<lparr>nd_id = ''b'', nd_depends_on = [''a'']\<rparr>, \<lparr>nd_id = ''a'', nd_depends_on = []\<rparr>]"
    by code_simp
  have w: "plan_waves key_text ''w'' ?i = Inr [\<lparr>wv_group = ''w1'', wv_ids = [''a'']\<rparr>, \<lparr>wv_group = ''w2'', wv_ids = [''b'']\<rparr>]"
    by code_simp
  show ?thesis using plan_waves_partition[OF w n] w by (auto simp: needs_def)
qed

end
