(* ===== verification/Tools.thy ===== *)
theory Tools
  imports Pricing
begin

text \<open>
  Tool results and the tool registry (\<open>src/fabri/tools/result.py\<close>, \<open>registry.py\<close>): name and
  alias resolution, the checks before a call, dispatch, usage counts, mid-run exposure and
  batches.  A handler, the sandbox and the approver act on a world \<open>'w\<close> that the calls
  thread; what they do to it is a parameter, and so is the clock.  An exception a handler or
  the approver raises is a string naming it.
\<close>

section \<open>Results\<close>

text \<open>A missing payload is \<open>VNone\<close>.\<close>

definition tool_ok :: "pyval \<Rightarrow> pydict \<Rightarrow> pydict" where
  "tool_ok payload extra =
     fold (\<lambda>(k, v) d. AList.update k v d) extra
       ((KStr ''ok'', VBool True) # (if payload = VNone then [] else [(KStr ''result'', payload)]))"

definition tool_error :: "string \<Rightarrow> pyval \<Rightarrow> pydict \<Rightarrow> pydict" where
  "tool_error err payload extra =
     fold (\<lambda>(k, v) d. AList.update k v d) extra
       ([(KStr ''ok'', VBool False), (KStr ''error'', VStr err)]
        @ (if payload = VNone then [] else [(KStr ''result'', payload)]))"

definition is_ok :: "pydict \<Rightarrow> bool" where
  "is_ok response = truthy (dict_get_default response ''ok'' (VBool False))"

definition err_result :: "string \<Rightarrow> pydict" where
  "err_result msg = tool_error msg VNone []"

section \<open>The registry\<close>

record manifest =
  m_name :: string
  m_description :: string
  m_command :: "string list"
  m_input_schema :: pyval
  m_output_schema :: pyval
  m_timeout_s :: rat
  m_approval :: "string option"
  m_aliases :: "string list"
  m_title :: "string option"

record tool_stats =
  ts_calls :: nat
  ts_failures :: nat
  ts_refused :: nat
  ts_seconds :: rat

definition no_stats :: tool_stats where
  "no_stats = \<lparr>ts_calls = 0, ts_failures = 0, ts_refused = 0, ts_seconds = 0\<rparr>"

type_synonym 'w handler = "pydict \<Rightarrow> 'w \<Rightarrow> (string + pydict) \<times> 'w"
type_synonym 'w approver = "string \<Rightarrow> pydict \<Rightarrow> manifest \<Rightarrow> 'w \<Rightarrow> (string + bool) \<times> 'w"

record 'w registry =
  r_tools :: "(string \<times> manifest) list"
  r_callables :: "(string \<times> 'w handler) list"
  r_sandbox :: "manifest \<Rightarrow> pydict \<Rightarrow> (string \<times> string) list \<Rightarrow> 'w \<Rightarrow> (string + pydict) \<times> 'w"
  r_sandbox_root :: "string option"
  r_approver :: "'w approver option"
  r_exposed :: "string list"
  r_stats :: "(string \<times> tool_stats) list"
  r_clock :: "'w \<Rightarrow> rat"
  r_text :: "pyval \<Rightarrow> string"

definition batch_name :: string where "batch_name = ''batch''"

definition batch_forbidden :: "string list" where
  "batch_forbidden = [batch_name, ''spawn_subagent'', ''ask_user'']"

definition register :: "manifest \<Rightarrow> 'w registry \<Rightarrow> 'w registry" where
  "register m reg = reg\<lparr>r_tools := AList.update (m_name m) m (r_tools reg)\<rparr>"

definition register_callable :: "manifest \<Rightarrow> 'w handler \<Rightarrow> 'w registry \<Rightarrow> 'w registry" where
  "register_callable m h reg =
     reg\<lparr>r_tools := AList.update (m_name m) m (r_tools reg),
         r_callables := AList.update (m_name m) h (r_callables reg)\<rparr>"

definition list_tools :: "'w registry \<Rightarrow> manifest list" where
  "list_tools reg = map snd (r_tools reg)"

definition canonical_name :: "'w registry \<Rightarrow> string \<Rightarrow> string option" where
  "canonical_name reg name =
     (if name \<in> fst ` set (r_tools reg) then Some name
      else map_option (m_name \<circ> snd) (List.find (\<lambda>(_, m). name \<in> set (m_aliases m)) (r_tools reg)))"

definition request_exposure :: "string list \<Rightarrow> 'w registry \<Rightarrow> 'w registry" where
  "request_exposure names reg =
     reg\<lparr>r_exposed := fold (\<lambda>n ex. case canonical_name reg n of
            None \<Rightarrow> ex
          | Some c \<Rightarrow> if c = [] \<or> c \<in> set ex then ex else ex @ [c]) names (r_exposed reg)\<rparr>"

definition pop_exposed :: "'w registry \<Rightarrow> string list \<times> 'w registry" where
  "pop_exposed reg = (r_exposed reg, reg\<lparr>r_exposed := []\<rparr>)"

section \<open>One call\<close>

definition required_keys :: "manifest \<Rightarrow> string list" where
  "required_keys m =
     (case (if truthy (m_input_schema m) then m_input_schema m else VDict []) of
        VDict d \<Rightarrow> (case dict_get d ''required'' of
            VList ks \<Rightarrow> List.map_filter (\<lambda>k. case k of VStr s \<Rightarrow> Some s | _ \<Rightarrow> None) ks
          | _ \<Rightarrow> [])
      | _ \<Rightarrow> [])"

text \<open>\<open>_check_call\<close>: \<open>None\<close> lets the call run.  The approver is asked last.\<close>

definition check_call ::
  "'w registry \<Rightarrow> string \<Rightarrow> pyval \<Rightarrow> manifest \<Rightarrow> 'w \<Rightarrow> pydict option \<times> 'w" where
  "check_call reg name args m w =
     (case args of
        VDict d \<Rightarrow>
          (let missing = filter (\<lambda>k. dict_lookup d k = None) (required_keys m) in
           if missing \<noteq> []
           then (Some (err_result (name @ '': missing required argument(s): '' @ join '', '' missing)), w)
           else if m_approval m = Some ''always_approve'' then
             (case r_approver reg of
                None \<Rightarrow> (Some (err_result (name @ '' needs human approval and no approver is configured; '' @
                             ''the call was not made'')), w)
              | Some ap \<Rightarrow>
                  (case ap name d m w of
                     (Inl exc, w') \<Rightarrow>
                       (Some (err_result (name @ '': approval check failed ('' @ exc @ ''); the call was not made'')), w')
                   | (Inr True, w') \<Rightarrow> (None, w')
                   | (Inr False, w') \<Rightarrow>
                       (Some (err_result (name @ '': a human declined this call; it was not made'')), w')))
           else (None, w))
      | _ \<Rightarrow> (Some (err_result (name @ '': arguments must be a JSON object'')), w))"

text \<open>\<open>_run\<close>: a raising handler is a failed result; what the sandbox raises propagates.\<close>

definition run_tool ::
  "'w registry \<Rightarrow> string \<Rightarrow> pydict \<Rightarrow> manifest \<Rightarrow> 'w \<Rightarrow> (string + pydict) \<times> 'w" where
  "run_tool reg name args m w =
     (case map_of (r_callables reg) name of
        Some h \<Rightarrow>
          (case h args w of
             (Inl exc, w') \<Rightarrow> (Inr (err_result (name @ '': handler raised '' @ exc)), w')
           | (Inr r, w') \<Rightarrow> (Inr r, w'))
      | None \<Rightarrow>
          r_sandbox reg m args
            (case r_sandbox_root reg of
               Some dir \<Rightarrow> if dir = [] then [] else [(''FABRI_SANDBOX_ROOT'', dir)]
             | None \<Rightarrow> []) w)"

definition stats_of :: "'w registry \<Rightarrow> string \<Rightarrow> tool_stats" where
  "stats_of reg name = (case map_of (r_stats reg) name of None \<Rightarrow> no_stats | Some s \<Rightarrow> s)"

definition put_stats :: "string \<Rightarrow> tool_stats \<Rightarrow> 'w registry \<Rightarrow> 'w registry" where
  "put_stats name s reg = reg\<lparr>r_stats := AList.update name s (r_stats reg)\<rparr>"

text \<open>\<open>invoke\<close> past its batch branch; \<open>Inl\<close> is an escaping exception.\<close>

definition invoke_one ::
  "'w registry \<Rightarrow> string \<Rightarrow> pyval \<Rightarrow> 'w \<Rightarrow> (string + pydict) \<times> 'w registry \<times> 'w" where
  "invoke_one reg name args w =
     (case canonical_name reg name of
        None \<Rightarrow> (Inr (err_result (''unknown tool: '' @ name)), reg, w)
      | Some c \<Rightarrow>
          (case map_of (r_tools reg) c of
             None \<Rightarrow> (Inl ''KeyError'', reg, w)
           | Some m \<Rightarrow>
               (let s = stats_of reg c; s = s\<lparr>ts_calls := ts_calls s + 1\<rparr> in
                case check_call reg c args m w of
                  (Some refusal, w') \<Rightarrow>
                    (Inr refusal, put_stats c (s\<lparr>ts_refused := ts_refused s + 1\<rparr>) reg, w')
                | (None, w') \<Rightarrow>
                    (case run_tool reg c (case args of VDict d \<Rightarrow> d | _ \<Rightarrow> []) m w' of
                       (r, w'') \<Rightarrow>
                         (let s = s\<lparr>ts_seconds := ts_seconds s + (r_clock reg w'' - r_clock reg w')\<rparr>;
                              s = (case r of
                                     Inr d \<Rightarrow> if truthy (dict_get d ''ok'') then s
                                              else s\<lparr>ts_failures := ts_failures s + 1\<rparr>
                                   | Inl _ \<Rightarrow> s)
                          in (r, put_stats c s reg, w''))))))"

section \<open>Batches\<close>

definition batch_entry ::
  "'w registry \<Rightarrow> pyval \<Rightarrow> 'w \<Rightarrow> (string + pydict) \<times> 'w registry \<times> 'w" where
  "batch_entry reg entry w =
     (let malformed = Inr (err_result ''batch entry malformed: expected {name, args}'') in
      case entry of
        VDict e \<Rightarrow>
          (case dict_lookup e ''name'' of
             None \<Rightarrow> (malformed, reg, w)
           | Some (VStr n) \<Rightarrow>
               if n \<in> set batch_forbidden
               then (Inr (err_result (''batch refuses to dispatch '' @ [CHR 0x27] @ n @ [CHR 0x27] @
                       '': nested batch or side-effecting meta-tools are not allowed.'')), reg, w)
               else invoke_one reg n
                      (if truthy (dict_get e ''args'') then dict_get e ''args'' else VDict []) w
           | Some v \<Rightarrow>
               if is_list v \<or> is_dict v then (Inl ''TypeError'', reg, w)
               else (Inr (err_result (''unknown tool: '' @ r_text reg v)), reg, w))
      | _ \<Rightarrow> (malformed, reg, w))"

fun batch_loop ::
  "pyval list \<Rightarrow> pydict list \<Rightarrow> 'w registry \<Rightarrow> 'w \<Rightarrow> (string + pydict list) \<times> 'w registry \<times> 'w" where
  "batch_loop [] results reg w = (Inr results, reg, w)"
| "batch_loop (e # es) results reg w =
     (case batch_entry reg e w of
        (Inl exc, reg', w') \<Rightarrow> (Inl exc, reg', w')
      | (Inr r, reg', w') \<Rightarrow> batch_loop es (results @ [r]) reg' w')"

definition invoke_batch ::
  "'w registry \<Rightarrow> pyval \<Rightarrow> 'w \<Rightarrow> (string + pydict) \<times> 'w registry \<times> 'w" where
  "invoke_batch reg calls w =
     (case calls of
        VList es \<Rightarrow>
          (case batch_loop es [] reg w of
             (Inl exc, reg', w') \<Rightarrow> (Inl exc, reg', w')
           | (Inr rs, reg', w') \<Rightarrow>
               (Inr (tool_ok (VDict [(KStr ''results'', VList (map VDict rs))]) []), reg', w'))
      | _ \<Rightarrow> (Inr (err_result ''batch: `calls` must be a list of {name, args} objects''), reg, w))"

definition invoke ::
  "'w registry \<Rightarrow> string \<Rightarrow> pyval \<Rightarrow> 'w \<Rightarrow> (string + pydict) \<times> 'w registry \<times> 'w" where
  "invoke reg name args w =
     (if name = batch_name \<and> batch_name \<in> fst ` set (r_tools reg)
      then (case args of
              VDict d \<Rightarrow> invoke_batch reg
                (if truthy (dict_get d ''calls'') then dict_get d ''calls'' else VList []) w
            | _ \<Rightarrow> (Inl ''AttributeError'', reg, w))
      else invoke_one reg name args w)"

section \<open>Usage\<close>

text \<open>\<open>round(x, 3)\<close>.\<close>

definition round3 :: "rat \<Rightarrow> rat" where
  "round3 x = round6 (x / 1000) * 1000"

definition usage_since ::
  "'w registry \<Rightarrow> (string \<times> tool_stats) list \<Rightarrow> (string \<times> tool_stats) list" where
  "usage_since reg snapshot =
     List.map_filter (\<lambda>(name, s).
        let b = (case map_of snapshot name of None \<Rightarrow> no_stats | Some b \<Rightarrow> b);
            d = \<lparr>ts_calls = ts_calls s - ts_calls b, ts_failures = ts_failures s - ts_failures b,
                 ts_refused = ts_refused s - ts_refused b,
                 ts_seconds = round3 (ts_seconds s - ts_seconds b)\<rparr>
        in if ts_calls d = 0 then None else Some (name, d)) (r_stats reg)"

section \<open>Lemmas\<close>

lemma err_result_not_ok [simp]: "\<not> is_ok (err_result msg)" "\<not> truthy (dict_get (err_result msg) ''ok'')"
  by (simp_all add: is_ok_def err_result_def tool_error_def dict_get_default_def dict_get_def dict_lookup_def)

lemma is_ok_iff: "is_ok r \<longleftrightarrow> truthy (dict_get r ''ok'')"
  by (simp add: is_ok_def dict_get_default_def dict_get_def split: option.splits)

text \<open>Registered names are the names of their manifests.\<close>

definition registry_ok :: "'w registry \<Rightarrow> bool" where
  "registry_ok reg \<longleftrightarrow> (\<forall>(k, m) \<in> set (r_tools reg). m_name m = k)"

lemma set_update_subset: "set (AList.update k v d) \<subseteq> insert (k, v) (set d)"
  by (induction d) auto

lemma register_ok: "registry_ok reg \<Longrightarrow> registry_ok (register m reg)"
  using set_update_subset[of "m_name m" m "r_tools reg"] by (fastforce simp: registry_ok_def register_def)

lemma register_callable_ok: "registry_ok reg \<Longrightarrow> registry_ok (register_callable m h reg)"
  using set_update_subset[of "m_name m" m "r_tools reg"] by (fastforce simp: registry_ok_def register_callable_def)

lemma canonical_registered:
  assumes "registry_ok reg" and "canonical_name reg name = Some c"
  shows "c \<in> fst ` set (r_tools reg)"
proof (cases "name \<in> fst ` set (r_tools reg)")
  case True
  with assms show ?thesis by (simp add: canonical_name_def)
next
  case False
  with assms(2) obtain k m where "(k, m) \<in> set (r_tools reg)" "m_name m = c"
    by (auto simp: canonical_name_def find_Some_iff in_set_conv_nth split: if_splits) force
  with assms(1) show ?thesis by (force simp: registry_ok_def)
qed

lemma canonical_idem:
  "registry_ok reg \<Longrightarrow> canonical_name reg name = Some c \<Longrightarrow> canonical_name reg c = Some c"
  by (drule (1) canonical_registered) (simp add: canonical_name_def)

text \<open>What a call leaves alone, and the accounting of a resolved call.\<close>

definition same_tools :: "'w registry \<Rightarrow> 'w registry \<Rightarrow> bool" where
  "same_tools reg reg' \<longleftrightarrow> reg' = reg\<lparr>r_stats := r_stats reg'\<rparr>"

lemma same_tools_refl [simp]: "same_tools reg reg" by (simp add: same_tools_def)

lemma same_tools_trans: "same_tools a b \<Longrightarrow> same_tools b c \<Longrightarrow> same_tools a c"
  by (cases a; cases b; cases c) (simp add: same_tools_def)

lemma same_tools_put [simp]: "same_tools reg (put_stats n s reg)"
  by (simp add: same_tools_def put_stats_def)

lemma stats_of_put [simp]:
  "stats_of (put_stats n s reg) k = (if k = n then s else stats_of reg k)"
  by (simp add: stats_of_def put_stats_def update_conv')

lemma check_call_refusal_not_ok: "check_call reg c args m w = (Some e, w') \<Longrightarrow> \<not> is_ok e"
  by (auto simp: check_call_def Let_def split: pyval.splits if_splits option.splits prod.splits sum.splits bool.splits)

lemma check_call_pass:
  assumes "check_call reg c args m w = (None, w')" and "m_approval m = Some ''always_approve''"
  shows "\<exists>d ap. args = VDict d \<and> r_approver reg = Some ap \<and> ap c d m w = (Inr True, w')"
  using assms
  by (auto simp: check_call_def Let_def split: pyval.splits if_splits option.splits prod.splits sum.splits bool.splits)

lemma check_call_pass_args:
  assumes "check_call reg c args m w = (None, w')"
  shows "\<exists>d. args = VDict d \<and> set (required_keys m) \<subseteq> {k. dict_lookup d k \<noteq> None}"
  using assms
  by (auto simp: check_call_def Let_def filter_empty_conv
      split: pyval.splits if_splits option.splits prod.splits sum.splits bool.splits)

lemma stats_failures_id:
  "s\<lparr>ts_calls := a, ts_seconds := b, ts_failures := ts_failures s\<rparr> = s\<lparr>ts_calls := a, ts_seconds := b\<rparr>"
  by (cases s) simp

text \<open>The two ways a resolved call ends.\<close>

lemma invoke_one_cases:
  assumes "canonical_name reg name = Some c" and "map_of (r_tools reg) c = Some m"
    and "invoke_one reg name args w = (r, reg', w')"
  obtains
    (refused) e where "check_call reg c args m w = (Some e, w')" "r = Inr e"
      "reg' = put_stats c ((stats_of reg c)\<lparr>ts_calls := ts_calls (stats_of reg c) + 1,
                             ts_refused := ts_refused (stats_of reg c) + 1\<rparr>) reg"
  | (ran) d w1 t where "check_call reg c args m w = (None, w1)" "args = VDict d"
      "run_tool reg c d m w1 = (r, w')"
      "reg' = put_stats c ((stats_of reg c)\<lparr>ts_calls := ts_calls (stats_of reg c) + 1, ts_seconds := t,
                ts_failures := ts_failures (stats_of reg c)
                  + (case r of Inr d \<Rightarrow> of_bool (\<not> is_ok d) | Inl _ \<Rightarrow> 0)\<rparr>) reg"
proof (cases "check_call reg c args m w")
  case (Pair ref w1)
  show thesis
  proof (cases ref)
    case (Some e)
    show thesis
      by (rule refused[of e]) (use assms Pair Some in \<open>simp_all add: invoke_one_def Let_def\<close>)
  next
    case None
    with Pair check_call_pass_args obtain d where d: "args = VDict d" by metis
    obtain r1 w2 where run: "run_tool reg c d m w1 = (r1, w2)" by fastforce
    show thesis
    proof (cases r1)
      case (Inl exc)
      show thesis
        by (rule ran[of w1 d "ts_seconds (stats_of reg c) + (r_clock reg w2 - r_clock reg w1)"])
          (use assms Pair None d run Inl in \<open>auto simp: invoke_one_def Let_def stats_failures_id\<close>)
    next
      case (Inr rd)
      show thesis
        by (rule ran[of w1 d "ts_seconds (stats_of reg c) + (r_clock reg w2 - r_clock reg w1)"])
          (use assms Pair None d run Inr in \<open>auto simp: invoke_one_def Let_def is_ok_iff stats_failures_id\<close>)
    qed
  qed
qed

lemma invoke_one_same_tools:
  assumes "invoke_one reg name args w = (r, reg', w')"
  shows "same_tools reg reg'"
proof (cases "canonical_name reg name")
  case None
  with assms show ?thesis by (simp add: invoke_one_def)
next
  case (Some c)
  show ?thesis
  proof (cases "map_of (r_tools reg) c")
    case None
    with assms Some show ?thesis by (simp add: invoke_one_def)
  next
    case (Some m)
    with \<open>canonical_name reg name = Some c\<close> assms show ?thesis
      by (auto elim: invoke_one_cases)
  qed
qed

text \<open>Refused and failed calls are calls.\<close>

definition stats_ok :: "'w registry \<Rightarrow> bool" where
  "stats_ok reg \<longleftrightarrow> (\<forall>n. ts_refused (stats_of reg n) + ts_failures (stats_of reg n) \<le> ts_calls (stats_of reg n))"

lemma invoke_one_stats_ok:
  assumes "invoke_one reg name args w = (r, reg', w')" and "stats_ok reg"
  shows "stats_ok reg'"
proof (cases "\<exists>c m. canonical_name reg name = Some c \<and> map_of (r_tools reg) c = Some m")
  case True
  then obtain c m where cm: "canonical_name reg name = Some c" "map_of (r_tools reg) c = Some m" by blast
  have le: "ts_refused (stats_of reg n) + ts_failures (stats_of reg n) \<le> ts_calls (stats_of reg n)" for n
    using assms(2) by (simp add: stats_ok_def)
  from cm assms(1) show ?thesis
  proof (cases rule: invoke_one_cases)
    case refused
    then show ?thesis using le by (auto simp: stats_ok_def)
  next
    case (ran d w1 t)
    then show ?thesis using le by (auto simp: stats_ok_def le_SucI split: sum.splits)
  qed
next
  case False
  with assms show ?thesis by (auto simp: invoke_one_def split: option.splits)
qed

subsection \<open>Batches\<close>

lemma batch_entry_keeps:
  assumes "batch_entry reg e w = (r, reg', w')"
  shows "same_tools reg reg' \<and> (stats_ok reg \<longrightarrow> stats_ok reg')"
proof -
  have "reg' = reg \<or> (\<exists>n a. invoke_one reg n a w = (r, reg', w'))"
    using assms unfolding batch_entry_def Let_def
    by (cases e) (auto split: option.split_asm pyval.split_asm if_split_asm)
  then show ?thesis using invoke_one_same_tools invoke_one_stats_ok by fastforce
qed

lemma batch_entry_forbidden:
  assumes "batch_entry g (VDict e) v = (Inr d, g', v')" and "dict_lookup e ''name'' = Some (VStr n)"
    and "n \<in> set batch_forbidden"
  shows "\<not> is_ok d"
proof -
  from assms have "\<exists>msg. err_result msg = d" by (auto simp: batch_entry_def)
  then show ?thesis by auto
qed

lemma batch_loop_keeps:
  "batch_loop es rs reg w = (r, reg', w') \<Longrightarrow> same_tools reg reg' \<and> (stats_ok reg \<longrightarrow> stats_ok reg')"
proof (induction es arbitrary: rs reg w)
  case Nil
  then show ?case by simp
next
  case (Cons e es)
  obtain x reg1 w1 where e: "batch_entry reg e w = (x, reg1, w1)" by (metis surj_pair)
  note k = batch_entry_keeps[OF e]
  show ?case
  proof (cases x)
    case (Inl a)
    with Cons.prems e k show ?thesis by simp
  next
    case (Inr d)
    with Cons.prems e have "batch_loop es (rs @ [d]) reg1 w1 = (r, reg', w')" by simp
    from Cons.IH[OF this] k show ?thesis by (auto intro: same_tools_trans)
  qed
qed

text \<open>Entry by entry, in order, a batch holds what the single call returned at its turn.\<close>

definition entry_result :: "'w registry \<Rightarrow> pyval \<Rightarrow> pydict \<Rightarrow> bool" where
  "entry_result reg e d \<longleftrightarrow> (\<exists>g g' v v'. same_tools reg g \<and> batch_entry g e v = (Inr d, g', v'))"

lemma batch_loop_results:
  "batch_loop es rs reg w = (Inr out, reg', w') \<Longrightarrow> same_tools reg0 reg \<Longrightarrow>
     \<exists>new. out = rs @ new \<and> list_all2 (entry_result reg0) es new"
proof (induction es arbitrary: rs reg w)
  case Nil
  then show ?case by simp
next
  case (Cons e es)
  obtain x reg1 w1 where e: "batch_entry reg e w = (x, reg1, w1)" by (metis surj_pair)
  with Cons.prems obtain d where x: "x = Inr d" by (cases x) auto
  with Cons.prems e have l: "batch_loop es (rs @ [d]) reg1 w1 = (Inr out, reg', w')" by simp
  have "same_tools reg0 reg1" using batch_entry_keeps[OF e] Cons.prems(2) by (blast intro: same_tools_trans)
  from Cons.IH[OF l this] obtain new where "out = (rs @ [d]) @ new" "list_all2 (entry_result reg0) es new"
    by blast
  moreover have "entry_result reg0 e d" using e x Cons.prems(2) unfolding entry_result_def by blast
  ultimately show ?case by (intro exI[of _ "d # new"]) simp
qed

lemma invoke_keeps:
  assumes "invoke reg name args w = (r, reg', w')"
  shows "same_tools reg reg'" and "stats_ok reg \<Longrightarrow> stats_ok reg'"
proof -
  have "same_tools reg reg' \<and> (stats_ok reg \<longrightarrow> stats_ok reg')"
  proof (cases "name = batch_name \<and> batch_name \<in> fst ` set (r_tools reg)")
    case False
    with assms show ?thesis by (auto simp: invoke_def dest: invoke_one_same_tools invoke_one_stats_ok)
  next
    case True
    show ?thesis
    proof (cases "\<exists>d es. args = VDict d
        \<and> (if truthy (dict_get d ''calls'') then dict_get d ''calls'' else VList []) = VList es")
      case True
      then obtain d es where d: "args = VDict d"
        "(if truthy (dict_get d ''calls'') then dict_get d ''calls'' else VList []) = VList es" by blast
      obtain x g v where l: "batch_loop es [] reg w = (x, g, v)" by (metis surj_pair)
      with assms \<open>name = batch_name \<and> _\<close> d have "reg' = g"
        by (auto simp: invoke_def invoke_batch_def split: sum.splits)
      with batch_loop_keeps[OF l] show ?thesis by simp
    next
      case False
      with assms \<open>name = batch_name \<and> _\<close> have "reg' = reg"
        by (cases args) (auto simp: invoke_def invoke_batch_def split: pyval.splits)
      then show ?thesis by simp
    qed
  qed
  then show "same_tools reg reg'" and "stats_ok reg \<Longrightarrow> stats_ok reg'" by auto
qed

section \<open>Properties\<close>

text \<open>
  A tool marked \<open>always_approve\<close> runs only after the approver said yes to these very
  arguments; otherwise the call fails and the tool leaves no effect on the world beyond
  whatever asking the approver had (\<open>ToolRegistry.invoke\<close>, \<open>_check_call\<close>).
\<close>

theorem approval_gate:
  assumes "canonical_name reg name = Some c" and "map_of (r_tools reg) c = Some m"
    and "m_approval m = Some ''always_approve''" and "name \<noteq> batch_name"
    and "invoke reg name args w = (r, reg', w')"
  shows "(\<exists>d ap w1. args = VDict d \<and> r_approver reg = Some ap \<and> ap c d m w = (Inr True, w1)
            \<and> run_tool reg c d m w1 = (r, w'))
       \<or> (\<exists>e. r = Inr e \<and> \<not> is_ok e \<and>
            (w' = w \<or> (\<exists>d ap x. args = VDict d \<and> r_approver reg = Some ap \<and> ap c d m w = (x, w') \<and> x \<noteq> Inr True)))"
proof -
  from assms(4,5) have i: "invoke_one reg name args w = (r, reg', w')" by (simp add: invoke_def)
  show ?thesis
  proof (cases rule: invoke_one_cases[OF assms(1,2) i])
    case (1 e)
    then have "\<not> is_ok e" by (blast dest: check_call_refusal_not_ok)
    moreover have "w' = w \<or> (\<exists>d ap x. args = VDict d \<and> r_approver reg = Some ap \<and> ap c d m w = (x, w') \<and> x \<noteq> Inr True)"
      using 1(1) assms(3)
      by (auto simp: check_call_def Let_def
          split: pyval.splits if_splits option.splits prod.splits sum.splits bool.splits)
    ultimately show ?thesis using 1(2) by blast
  next
    case (2 d w1 t)
    with check_call_pass[OF 2(1) assms(3)] show ?thesis by auto
  qed
qed

definition guarded_tool :: manifest where
  "guarded_tool = \<lparr>m_name = ''wipe'', m_description = [], m_command = [], m_input_schema = VDict [],
     m_output_schema = VDict [], m_timeout_s = 10, m_approval = Some ''always_approve'', m_aliases = [], m_title = None\<rparr>"

definition guarded_registry :: "nat registry" where
  "guarded_registry = \<lparr>r_tools = [(''wipe'', guarded_tool)],
     r_callables = [(''wipe'', \<lambda>_ n. (Inr (tool_ok VNone []), n + 1))],
     r_sandbox = (\<lambda>_ _ _ n. (Inr [], n)), r_sandbox_root = None, r_approver = None, r_exposed = [],
     r_stats = [], r_clock = (\<lambda>n. 0), r_text = (\<lambda>_. [])\<rparr>"

theorem approval_gate_witness:
  "\<exists>e reg'. invoke guarded_registry ''wipe'' (VDict []) 0 = (Inr e, reg', 0) \<and> \<not> is_ok e"
proof -
  obtain r reg' w' where i: "invoke guarded_registry ''wipe'' (VDict []) 0 = (r, reg', w')" by (metis surj_pair)
  have "canonical_name guarded_registry ''wipe'' = Some ''wipe''"
    "map_of (r_tools guarded_registry) ''wipe'' = Some guarded_tool"
    "m_approval guarded_tool = Some ''always_approve''" "''wipe'' \<noteq> batch_name"
    "r_approver guarded_registry = None"
    by (simp_all add: canonical_name_def guarded_registry_def guarded_tool_def batch_name_def)
  with approval_gate[OF this(1-4) i] i show ?thesis by auto
qed

text \<open>
  Every call that reaches a registered tool is counted once, under its canonical name and
  nowhere else; a failed result is counted as exactly one refusal or failure, so refusals and
  failures never exceed calls.  A call changes nothing of the registry but these counts.
\<close>

theorem invoke_accounting:
  assumes "canonical_name reg name = Some c" and "map_of (r_tools reg) c = Some m"
    and "name \<noteq> batch_name" and "invoke reg name args w = (r, reg', w')" and "stats_ok reg"
  shows "ts_calls (stats_of reg' c) = ts_calls (stats_of reg c) + 1
    \<and> (\<forall>d. r = Inr d \<longrightarrow> ts_refused (stats_of reg' c) + ts_failures (stats_of reg' c)
         = ts_refused (stats_of reg c) + ts_failures (stats_of reg c) + of_bool (\<not> is_ok d))
    \<and> (\<forall>k. k \<noteq> c \<longrightarrow> stats_of reg' k = stats_of reg k)
    \<and> stats_ok reg' \<and> same_tools reg reg'"
proof -
  have i: "invoke_one reg name args w = (r, reg', w')" using assms(3,4) by (simp add: invoke_def)
  have keep: "stats_ok reg'" "same_tools reg reg'"
    using invoke_keeps[OF assms(4)] assms(5) by auto
  show ?thesis
  proof (cases rule: invoke_one_cases[OF assms(1,2) i])
    case (1 e)
    then show ?thesis using keep by (auto dest: check_call_refusal_not_ok)
  next
    case (2 d w1 t)
    then show ?thesis using keep by auto
  qed
qed

theorem invoke_accounting_witness:
  "\<exists>r reg' w'. invoke guarded_registry ''wipe'' (VDict []) 0 = (r, reg', w')
     \<and> ts_calls (stats_of reg' ''wipe'') = 1"
proof -
  obtain r reg' w' where i: "invoke guarded_registry ''wipe'' (VDict []) 0 = (r, reg', w')" by (metis surj_pair)
  have "canonical_name guarded_registry ''wipe'' = Some ''wipe''"
    "map_of (r_tools guarded_registry) ''wipe'' = Some guarded_tool" "''wipe'' \<noteq> batch_name"
    "stats_ok guarded_registry" "ts_calls (stats_of guarded_registry ''wipe'') = 0"
    by (simp_all add: canonical_name_def guarded_registry_def guarded_tool_def batch_name_def stats_ok_def
        stats_of_def no_stats_def)
  with invoke_accounting[OF this(1-3) i this(4)] i show ?thesis by auto
qed

text \<open>
  A batch returns one result per entry, in entry order, each the result of that single
  call on the same tools; an entry that names \<open>batch\<close>, \<open>spawn_subagent\<close> or \<open>ask_user\<close> is
  refused (\<open>ToolRegistry.invoke_batch\<close>).
\<close>

theorem batch_one_result_each:
  assumes "invoke_batch reg (VList es) w = (Inr out, reg', w')"
  shows "\<exists>rs. out = tool_ok (VDict [(KStr ''results'', VList (map VDict rs))]) []
    \<and> list_all2 (entry_result reg) es rs
    \<and> (\<forall>i < length es. \<forall>e n. es ! i = VDict e \<longrightarrow> dict_lookup e ''name'' = Some (VStr n)
         \<longrightarrow> n \<in> set batch_forbidden \<longrightarrow> \<not> is_ok (rs ! i))"
proof -
  from assms obtain rs where l: "batch_loop es [] reg w = (Inr rs, reg', w')"
    and out: "out = tool_ok (VDict [(KStr ''results'', VList (map VDict rs))]) []"
    by (auto simp: invoke_batch_def split: prod.splits sum.splits)
  from batch_loop_results[OF l same_tools_refl] have all: "list_all2 (entry_result reg) es rs" by simp
  have "\<not> is_ok (rs ! i)" if "i < length es" "es ! i = VDict e" "dict_lookup e ''name'' = Some (VStr n)"
    "n \<in> set batch_forbidden" for i e n
    using list_all2_nthD[OF all that(1)] that(2-4) batch_entry_forbidden
    unfolding entry_result_def by metis
  with all out show ?thesis by blast
qed

theorem batch_one_result_each_witness:
  "\<exists>rs. list_all2 (entry_result guarded_registry) [VDict [(KStr ''name'', VStr ''batch'')]] rs \<and> \<not> is_ok (hd rs)"
proof -
  let ?es = "[VDict [(KStr ''name'', VStr ''batch'')]]"
  obtain x g v where i: "invoke_batch guarded_registry (VList ?es) 0 = (x, g, v)" by (metis surj_pair)
  then obtain out where "x = Inr out"
    by (auto simp: invoke_batch_def batch_entry_def dict_lookup_def batch_forbidden_def batch_name_def)
  with batch_one_result_each[of guarded_registry ?es 0 out g v] i obtain rs where
    rs: "list_all2 (entry_result guarded_registry) ?es rs"
    and f: "\<forall>j < length ?es. \<forall>e n. ?es ! j = VDict e \<longrightarrow> dict_lookup e ''name'' = Some (VStr n)
         \<longrightarrow> n \<in> set batch_forbidden \<longrightarrow> \<not> is_ok (rs ! j)" by blast
  have "\<not> is_ok (rs ! 0)"
    using f by (auto simp: dict_lookup_def batch_forbidden_def batch_name_def)
  moreover have "rs \<noteq> []" using rs by auto
  ultimately show ?thesis using rs by (auto simp: hd_conv_nth)
qed

end
