(* ===== verification/PyText.thy ===== *)
theory PyText
  imports PyPrelude
begin

text \<open>
  Text forms of scalars, from the language's standard library: \<open>int(s)\<close> and \<open>float(s)\<close> on the
  modelled code points, \<open>json.dumps\<close> of a string (with \<open>ensure_ascii\<close>) and \<open>json.loads\<close> of a
  string literal.  A \<open>\u\<close> escape above 255 is outside the modelled code points and is read as
  an error.  The lemmas are the round trips the formats of the code rest on.
\<close>

section \<open>Numbers\<close>

definition strip_sign :: "string \<Rightarrow> bool \<times> string" where
  "strip_sign s =
     (case s of [] \<Rightarrow> (False, [])
      | c # r \<Rightarrow> if c = CHR ''-'' then (True, r) else if c = CHR ''+'' then (False, r) else (False, s))"

text \<open>A run of digits, in groups separated by single underscores.\<close>

definition us_digits :: "string \<Rightarrow> bool" where
  "us_digits s = list_all (\<lambda>w. w \<noteq> [] \<and> list_all is_digit_char w) (split_on (CHR ''_'') s)"

definition us_value :: "string \<Rightarrow> nat" where
  "us_value s = read_nat (filter is_digit_char s)"

definition py_int :: "string \<Rightarrow> int option" where
  "py_int s =
     (let (neg, t) = strip_sign (strip s)
      in if us_digits t then Some (if neg then - int (us_value t) else int (us_value t)) else None)"

definition is_us_digit :: "char \<Rightarrow> bool" where
  "is_us_digit c = (is_digit_char c \<or> c = CHR ''_'')"

definition py_exponent :: "string \<Rightarrow> int option" where
  "py_exponent s =
     (case s of [] \<Rightarrow> Some 0
      | c # r \<Rightarrow>
          if c = CHR ''e'' \<or> c = CHR ''E''
          then (let (neg, t) = strip_sign r
                in if us_digits t then Some (if neg then - int (us_value t) else int (us_value t)) else None)
          else None)"

definition scale10 :: "rat \<Rightarrow> int \<Rightarrow> rat" where
  "scale10 x e = (if 0 \<le> e then x * 10 ^ nat e else x / 10 ^ nat (- e))"

definition py_float :: "string \<Rightarrow> pyfloat option" where
  "py_float s =
     (let (neg, t) = strip_sign (strip s); l = lower t in
      if l = ''inf'' \<or> l = ''infinity'' then Some (if neg then NegInf else PosInf)
      else if l = ''nan'' then Some NaN
      else (let ip = takeWhile is_us_digit t; r = dropWhile is_us_digit t;
                dot = (r \<noteq> [] \<and> hd r = CHR ''.'');
                fp = (if dot then takeWhile is_us_digit (tl r) else []);
                r = (if dot then dropWhile is_us_digit (tl r) else r)
            in if (ip = [] \<and> fp = []) \<or> (ip \<noteq> [] \<and> \<not> us_digits ip) \<or> (fp \<noteq> [] \<and> \<not> us_digits fp) then None
               else (case py_exponent r of None \<Rightarrow> None
                 | Some e \<Rightarrow>
                     (let v = scale10 (of_nat (us_value (ip @ fp))) (e - int (length (filter is_digit_char fp)))
                      in Some (Fin (if neg then - v else v))))))"

section \<open>JSON strings\<close>

definition hex_digit :: "nat \<Rightarrow> char" where
  "hex_digit d = (if d < 10 then char_of (48 + d) else char_of (87 + d))"

definition json_escape :: "char \<Rightarrow> string" where
  "json_escape c =
     (if c = CHR 0x22 then [CHR 0x5C, CHR 0x22]
      else if c = CHR 0x5C then [CHR 0x5C, CHR 0x5C]
      else if c = CHR 0x0A then [CHR 0x5C, CHR ''n'']
      else if c = CHR 0x0D then [CHR 0x5C, CHR ''r'']
      else if c = CHR 0x09 then [CHR 0x5C, CHR ''t'']
      else if c = CHR 0x0C then [CHR 0x5C, CHR ''f'']
      else if c = CHR 0x08 then [CHR 0x5C, CHR ''b'']
      else (let n = (of_char c :: nat) in
        if 32 \<le> n \<and> n \<le> 126 then [c]
        else [CHR 0x5C, CHR ''u'', CHR ''0'', CHR ''0'', hex_digit (n div 16), hex_digit (n mod 16)]))"

definition json_dumps_str :: "string \<Rightarrow> string" where
  "json_dumps_str s = CHR 0x22 # concat (map json_escape s) @ [CHR 0x22]"

definition hex_val :: "char \<Rightarrow> nat option" where
  "hex_val c = (let n = (of_char c :: nat) in
     if 48 \<le> n \<and> n \<le> 57 then Some (n - 48)
     else if 97 \<le> n \<and> n \<le> 102 then Some (n - 87)
     else if 65 \<le> n \<and> n \<le> 70 then Some (n - 55) else None)"

definition hex4 :: "string \<Rightarrow> nat option" where
  "hex4 s =
     (case map hex_val s of
        [Some a, Some b, Some c, Some d] \<Rightarrow> Some (4096 * a + 256 * b + 16 * c + d)
      | _ \<Rightarrow> None)"

definition json_unescape :: "char \<Rightarrow> char option" where
  "json_unescape c =
     (if c = CHR 0x22 \<or> c = CHR 0x5C \<or> c = CHR ''/'' then Some c
      else if c = CHR ''n'' then Some (CHR 0x0A)
      else if c = CHR ''r'' then Some (CHR 0x0D)
      else if c = CHR ''t'' then Some (CHR 0x09)
      else if c = CHR ''f'' then Some (CHR 0x0C)
      else if c = CHR ''b'' then Some (CHR 0x08)
      else None)"

definition cons_fst :: "char \<Rightarrow> (string \<times> string) option \<Rightarrow> (string \<times> string) option" where
  "cons_fst c r = map_option (\<lambda>(d, rest). (c # d, rest)) r"

text \<open>The body of a literal after its opening quote: the decoded text and what follows the closing quote.\<close>

function json_body :: "string \<Rightarrow> (string \<times> string) option" where
  "json_body [] = None"
| "json_body (c # r) =
     (if c = CHR 0x22 then Some ([], r)
      else if c = CHR 0x5C then
        (case r of
           [] \<Rightarrow> None
         | e # r' \<Rightarrow>
             if e = CHR ''u'' then
               (case hex4 (take 4 r') of
                  None \<Rightarrow> None
                | Some v \<Rightarrow> if v < 256 then cons_fst (char_of v) (json_body (drop 4 r')) else None)
             else (case json_unescape e of None \<Rightarrow> None | Some x \<Rightarrow> cons_fst x (json_body r')))
      else if (of_char c :: nat) < 32 then None
      else cons_fst c (json_body r))"
  by pat_completeness auto
termination
  by (relation "measure length") auto

declare json_body.simps(2) [simp del]

definition json_space :: "char \<Rightarrow> bool" where
  "json_space c = (c = CHR '' '' \<or> c = CHR 0x09 \<or> c = CHR 0x0A \<or> c = CHR 0x0D)"

text \<open>\<open>json.loads\<close> of a text that starts with a quote.\<close>

definition json_loads_str :: "string \<Rightarrow> string option" where
  "json_loads_str s =
     (case s of
        [] \<Rightarrow> None
      | c # r \<Rightarrow>
          if c \<noteq> CHR 0x22 then None
          else (case json_body r of
                  None \<Rightarrow> None
                | Some (d, rest) \<Rightarrow> if list_all json_space rest then Some d else None))"

section \<open>Lemmas\<close>

subsection \<open>Stripping\<close>

lemma strip_id: "s \<noteq> [] \<Longrightarrow> \<not> is_space (hd s) \<Longrightarrow> \<not> is_space (last s) \<Longrightarrow> strip s = s"
proof -
  assume "s \<noteq> []" and h: "\<not> is_space (hd s)" "\<not> is_space (last s)"
  from h(1) have "lstrip s = s" unfolding lstrip_def by (subst dropWhile_eq_self_iff) simp
  moreover from h(2) have "dropWhile is_space (rev s) = rev s"
    by (subst dropWhile_eq_self_iff) (simp add: hd_rev)
  ultimately show ?thesis by (simp add: strip_def rstrip_def)
qed

lemma strip_Nil [simp]: "strip [] = []"
  by (simp add: strip_def lstrip_def rstrip_def)

lemma hd_lstrip: "lstrip s \<noteq> [] \<Longrightarrow> \<not> is_space (hd (lstrip s))"
  by (simp add: lstrip_def hd_dropWhile)

lemma last_rstrip: "rstrip s \<noteq> [] \<Longrightarrow> \<not> is_space (last (rstrip s))"
  by (simp add: rstrip_def last_rev hd_dropWhile)

lemma hd_rstrip: "rstrip s \<noteq> [] \<Longrightarrow> hd (rstrip s) = hd s"
proof -
  assume n: "rstrip s \<noteq> []"
  obtain u where "s = rstrip s @ u"
    by (metis rev_append rev_rev_ident rstrip_def takeWhile_dropWhile_id)
  with n show ?thesis by (metis hd_append2)
qed

lemma strip_ends:
  assumes "strip s \<noteq> []"
  shows "\<not> is_space (hd (strip s))" and "\<not> is_space (last (strip s))"
proof -
  from assms have "lstrip s \<noteq> []" by (auto simp: strip_def rstrip_def)
  with assms show "\<not> is_space (hd (strip s))"
    unfolding strip_def by (metis hd_lstrip hd_rstrip)
  from assms show "\<not> is_space (last (strip s))" unfolding strip_def by (rule last_rstrip)
qed

lemma strip_self_iff: "strip s = s \<longleftrightarrow> s = [] \<or> (\<not> is_space (hd s) \<and> \<not> is_space (last s))"
  using strip_ends[of s] strip_id[of s] by (cases "s = []") auto

subsection \<open>Numbers\<close>

lemma digit_char_props:
  assumes "d < 10"
  shows "is_digit_char (digit_char d)" and "digit_val (digit_char d) = d"
  using assms by (simp_all add: digit_char_def is_digit_char_def digit_val_def)

lemma show_nat_digits: "list_all is_digit_char (show_nat n)"
  by (induction n rule: show_nat.induct) (subst show_nat.simps, auto simp: digit_char_props)

lemma show_nat_nonempty [simp]: "show_nat n \<noteq> []"
  by (subst show_nat.simps) auto

lemma read_show_nat: "read_nat (show_nat n) = n"
proof (induction n rule: show_nat.induct)
  case (1 n)
  show ?case
  proof (cases "n < 10")
    case True
    then show ?thesis by (subst show_nat.simps) (simp add: read_nat_def digit_char_props)
  next
    case False
    with 1 have "fold (\<lambda>c n. 10 * n + digit_val c) (show_nat (n div 10)) 0 = n div 10"
      by (simp add: read_nat_def)
    with False show ?thesis
      by (subst show_nat.simps) (simp add: read_nat_def digit_char_props)
  qed
qed

lemma digit_not:
  "is_digit_char c \<Longrightarrow> \<not> is_space c" "is_digit_char c \<Longrightarrow> c \<noteq> CHR ''-''"
  "is_digit_char c \<Longrightarrow> c \<noteq> CHR ''+''" "is_digit_char c \<Longrightarrow> c \<noteq> CHR ''_''"
  by (auto simp: is_digit_char_def is_space_def Let_def)

lemma split_on_none: "c \<notin> set s \<Longrightarrow> split_on c s = [s]"
  by (induction s) auto

lemma us_digits_show_nat: "us_digits (show_nat n)"
proof -
  have "CHR ''_'' \<notin> set (show_nat n)"
    using show_nat_digits[of n] digit_not(4) by (auto simp: list_all_iff)
  then show ?thesis by (simp add: us_digits_def split_on_none show_nat_digits)
qed

lemma us_value_show_nat [simp]: "us_value (show_nat n) = n"
proof -
  have "filter is_digit_char (show_nat n) = show_nat n"
    using show_nat_digits[of n] by (simp add: list_all_iff filter_id_conv)
  then show ?thesis by (simp add: us_value_def read_show_nat)
qed

lemma show_nat_ends: "is_digit_char (hd (show_nat n))" "is_digit_char (last (show_nat n))"
  using show_nat_digits[of n] by (auto simp: list_all_iff)

lemma strip_show_int [simp]: "strip (show_int i) = show_int i"
proof (rule strip_id)
  show "\<not> is_space (hd (show_int i))"
    using show_nat_ends(1) digit_not(1) by (auto simp: show_int_def is_space_def)
  show "\<not> is_space (last (show_int i))"
    using show_nat_ends(2) digit_not(1) by (auto simp: show_int_def)
qed (simp add: show_int_def)

lemma py_int_show_int: "py_int (show_int i) = Some i"
proof (cases "i < 0")
  case True
  then have "show_int i = CHR ''-'' # show_nat (nat (- i))" by (simp add: show_int_def)
  with True show ?thesis
    using strip_show_int[of i] by (simp add: py_int_def strip_sign_def us_digits_show_nat)
next
  case False
  have "strip_sign (show_nat m) = (False, show_nat m)" for m
    using show_nat_ends(1)[of m] digit_not by (cases "show_nat m") (auto simp: strip_sign_def)
  with False show ?thesis
    using strip_show_int[of i] by (simp add: py_int_def show_int_def us_digits_show_nat)
qed

lemma show_int_chars: "c \<in> set (show_int i) \<Longrightarrow> is_digit_char c \<or> c = CHR ''-''"
  using show_nat_digits by (auto simp: show_int_def list_all_iff split: if_splits)

lemma show_int_nonempty [simp]: "show_int i \<noteq> []" by (simp add: show_int_def)

subsection \<open>JSON strings\<close>

lemma hex_val_digit: "d < 16 \<Longrightarrow> hex_val (hex_digit d) = Some d"
  by (simp add: hex_digit_def hex_val_def)

lemma hex_digit_plain: "d < 16 \<Longrightarrow> hex_digit d \<noteq> CHR 0x22 \<and> hex_digit d \<noteq> CHR 0x5C"
  by (auto simp: hex_digit_def char_of_eq_iff take_bit_eq_mod)

lemma json_body_escape: "json_body (json_escape c @ r) = cons_fst c (json_body r)"
proof -
  have b: "(of_char c :: nat) < 256" using nat_of_char_less_256 by simp
  have h: "hex_val (CHR ''0'') = Some 0" by (simp add: hex_val_def)
  have "hex_val (hex_digit (of_char c div 16)) = Some (of_char c div 16)"
    "hex_val (hex_digit (of_char c mod 16)) = Some (of_char c mod 16)"
    using b by (auto intro!: hex_val_digit simp: less_mult_imp_div_less)
  then show ?thesis
    using b h by (auto simp: json_escape_def Let_def json_body.simps(2) json_unescape_def hex4_def)
qed

lemma json_body_dumps: "json_body (concat (map json_escape s) @ CHR 0x22 # r) = Some (s, r)"
  by (induction s) (simp_all add: json_body_escape json_body.simps(2) cons_fst_def)

lemma json_loads_dumps [simp]: "json_loads_str (json_dumps_str s) = Some s"
  by (simp add: json_loads_str_def json_dumps_str_def json_body_dumps)

section \<open>Lines\<close>

text \<open>\<open>str.splitlines()\<close>: no final empty line, a carriage return and a line feed are one break.\<close>

definition is_break :: "char \<Rightarrow> bool" where
  "is_break c = (let n = (of_char c :: nat) in (10 \<le> n \<and> n \<le> 13) \<or> (28 \<le> n \<and> n \<le> 30) \<or> n = 133)"

definition after_break :: "char \<Rightarrow> string \<Rightarrow> string" where
  "after_break c cs =
     (if c = CHR 0x0D then (case cs of d # ds \<Rightarrow> if d = CHR 0x0A then ds else cs | [] \<Rightarrow> []) else cs)"

lemma after_break_length [simp]: "length (after_break c cs) \<le> length cs"
  by (auto simp: after_break_def split: list.splits)

function lines_from :: "string \<Rightarrow> string \<Rightarrow> string list" where
  "lines_from cur [] = (if cur = [] then [] else [cur])"
| "lines_from cur (c # cs) =
     (if is_break c then cur # lines_from [] (after_break c cs) else lines_from (cur @ [c]) cs)"
  by pat_completeness auto
termination
  by (relation "measure (\<lambda>(cur, s). length s)") (auto simp: le_imp_less_Suc)

definition split_lines :: "string \<Rightarrow> string list" where
  "split_lines s = lines_from [] s"

lemma lines_from_no_break:
  "list_all (\<lambda>c. \<not> is_break c) s \<Longrightarrow> lines_from cur s = (if cur @ s = [] then [] else [cur @ s])"
  by (induction s arbitrary: cur) auto

lemma lines_from_newline:
  "list_all (\<lambda>c. \<not> is_break c) s \<Longrightarrow> lines_from cur (s @ CHR 0x0A # t) = (cur @ s) # lines_from [] t"
  by (induction s arbitrary: cur) (auto simp: is_break_def after_break_def)

text \<open>Lines that each end in a newline split back.\<close>

lemma split_lines_ended:
  "list_all (list_all (\<lambda>c. \<not> is_break c)) ls \<Longrightarrow> split_lines (concat (map (\<lambda>l. l @ [CHR 0x0A]) ls)) = ls"
  unfolding split_lines_def
proof (induction ls)
  case (Cons l ls)
  then show ?case using lines_from_newline[of l "[]" "concat (map (\<lambda>l. l @ [CHR 0x0A]) ls)"] by simp
qed simp

section \<open>Matching\<close>

text \<open>A literal in any case at the head of a text: what is left after it.\<close>

definition eat :: "string \<Rightarrow> string \<Rightarrow> string option" where
  "eat p s = (if map lower_char (take (length p) s) = map lower_char p then Some (drop (length p) s) else None)"

definition skip_spaces :: "string \<Rightarrow> string" where
  "skip_spaces s = dropWhile is_space s"

text \<open>\<open>pattern.search(s)\<close>: the text before the first match and what the matcher returns there.\<close>

fun re_search :: "(string \<Rightarrow> 'a option) \<Rightarrow> string \<Rightarrow> (string \<times> 'a) option" where
  "re_search m [] = map_option (\<lambda>r. ([], r)) (m [])"
| "re_search m (c # cs) =
     (case m (c # cs) of
        Some r \<Rightarrow> Some ([], r)
      | None \<Rightarrow> map_option (\<lambda>(pre, r). (c # pre, r)) (re_search m cs))"

lemma re_search_append:
  assumes "re_search m s = None" and "\<And>a b. a @ b = s \<Longrightarrow> b \<noteq> [] \<Longrightarrow> m (b @ t) = None"
  shows "re_search m (s @ t) = map_option (\<lambda>(pre, r). (s @ pre, r)) (re_search m t)"
  using assms
proof (induction s)
  case Nil
  then show ?case by (cases "re_search m t") auto
next
  case (Cons c s)
  from Cons.prems(1) have "re_search m s = None" by (auto split: option.splits)
  moreover have "m (b @ t) = None" if "a @ b = s" "b \<noteq> []" for a b
    using Cons.prems(2)[of "c # a" b] that by simp
  moreover have "m (c # s @ t) = None" using Cons.prems(2)[of "[]" "c # s"] by simp
  ultimately show ?case using Cons.IH by (cases "re_search m t") auto
qed

text \<open>\<open>pattern.finditer(s)\<close>: the matched texts of a pattern that never matches the empty text.\<close>

function find_all :: "pattern \<Rightarrow> char option \<Rightarrow> string \<Rightarrow> string list" where
  "find_all m prev [] = []"
| "find_all m prev (c # cs) =
     (let n = m prev (c # cs) in
      if 0 < n then take n (c # cs) # find_all m (Some (last (take n (c # cs)))) (drop n (c # cs))
      else find_all m (Some c) cs)"
  by pat_completeness auto
termination
  by (relation "measure (\<lambda>(m, prev, s). length s)") auto

declare find_all.simps(2) [simp del]

end
