(* ===== verification/Toon.thy ===== *)
theory Toon
  imports PyText
begin

text \<open>
  TOON (\<open>src/fabri/toon.py\<close>), the text format tool results take on their way to a model.  The
  encoder emits lines, each an indent level and a text; the decoder reads them back.  The
  text of a float (\<open>json.dumps\<close> of it) is a parameter.  The decoder's recursion takes fuel,
  one unit per line; running out of it would be \<open>OutOfFuel\<close>, and \<open>decode_never_out_of_fuel\<close>
  shows that it does not happen.  The main result is that \<open>decode\<close> inverts \<open>encode\<close>.
\<close>

section \<open>Encoding\<close>

type_synonym line = "nat \<times> string"

definition comma :: char where "comma = CHR '',''"

text \<open>The text of an integer, \<open>json.dumps(i)\<close>, is \<open>show_int\<close>.\<close>

definition looks_numeric :: "string \<Rightarrow> bool" where
  "looks_numeric s = (py_int s \<noteq> None \<or> py_float s \<noteq> None)"

definition value_needs_quote :: "string \<Rightarrow> bool" where
  "value_needs_quote s =
     (s = [] \<or> s \<noteq> strip s
      \<or> list_ex (\<lambda>c. c \<in> set s) [comma, CHR 0x22, CHR 0x0A, CHR 0x09]
      \<or> hd s \<in> set [CHR ''['', CHR ''{'', CHR ''-'', CHR ''#'', CHR 0x22, CHR 0x27]
      \<or> s \<in> set [''true'', ''false'', ''null''] \<or> looks_numeric s)"

definition key_needs_quote :: "string \<Rightarrow> bool" where
  "key_needs_quote k =
     (k = [] \<or> k \<noteq> strip k
      \<or> list_ex (\<lambda>c. c \<in> set k)
          [comma, CHR '':'', CHR 0x22, CHR ''['', CHR '']'', CHR ''{'', CHR ''}'', CHR '' '', CHR 0x0A, CHR 0x09]
      \<or> hd k \<in> set [CHR ''-'', CHR ''#'', CHR 0x22, CHR 0x27])"

definition enc_str :: "string \<Rightarrow> string" where
  "enc_str s = (if value_needs_quote s then json_dumps_str s else s)"

definition enc_key :: "pykey \<Rightarrow> string" where
  "enc_key k = (if key_needs_quote (key_str k) then json_dumps_str (key_str k) else key_str k)"

fun enc_scalar :: "(pyfloat \<Rightarrow> string) \<Rightarrow> pyval \<Rightarrow> string" where
  "enc_scalar frepr VNone = ''null''"
| "enc_scalar frepr (VBool b) = (if b then ''true'' else ''false'')"
| "enc_scalar frepr (VInt i) = show_int i"
| "enc_scalar frepr (VFloat f) = frepr f"
| "enc_scalar frepr (VStr s) = enc_str s"
| "enc_scalar frepr _ = []"

fun is_primitive :: "pyval \<Rightarrow> bool" where
  "is_primitive (VList _) = False"
| "is_primitive (VDict _) = False"
| "is_primitive _ = True"

fun dict_items :: "pyval \<Rightarrow> pydict" where
  "dict_items (VDict d) = d"
| "dict_items _ = []"

text \<open>\<open>_tabular_fields\<close>: the columns when the compact table form applies.\<close>

definition tabular_fields :: "pyval list \<Rightarrow> pykey list option" where
  "tabular_fields lst =
     (if \<not> list_all is_dict lst then None
      else (let first = map fst (dict_items (hd lst)) in
        if first = [] then None
        else if list_ex (\<lambda>x. fst ` set (dict_items x) \<noteq> set first
                           \<or> \<not> list_all (is_primitive \<circ> snd) (dict_items x)) lst then None
        else if list_ex (key_needs_quote \<circ> key_str) first then None
        else Some first))"

definition header :: "string \<Rightarrow> nat \<Rightarrow> string" where
  "header prefix n = prefix @ ''['' @ show_nat n @ '']''"

definition row_text :: "(pyfloat \<Rightarrow> string) \<Rightarrow> pykey list \<Rightarrow> pyval \<Rightarrow> string" where
  "row_text frepr fields row =
     join [comma] (map (\<lambda>f. enc_scalar frepr (the (map_of (dict_items row) f))) fields)"

function emit_members :: "(pyfloat \<Rightarrow> string) \<Rightarrow> nat \<Rightarrow> pydict \<Rightarrow> line list"
  and emit_array :: "(pyfloat \<Rightarrow> string) \<Rightarrow> nat \<Rightarrow> string \<Rightarrow> pyval list \<Rightarrow> line list"
  and emit_items :: "(pyfloat \<Rightarrow> string) \<Rightarrow> nat \<Rightarrow> pyval list \<Rightarrow> line list" where
  "emit_members frepr ind [] = []"
| "emit_members frepr ind ((k, v) # d) =
     (case v of
        VDict e \<Rightarrow> (ind, enc_key k @ '':'') # emit_members frepr (ind + 1) e
      | VList xs \<Rightarrow> emit_array frepr ind (enc_key k) xs
      | _ \<Rightarrow> [(ind, enc_key k @ '': '' @ enc_scalar frepr v)]) @ emit_members frepr ind d"
| "emit_array frepr ind prefix lst =
     (if lst = [] then [(ind, prefix @ ''[0]:'')]
      else if list_all is_primitive lst
      then [(ind, header prefix (length lst) @ '': '' @ join [comma] (map (enc_scalar frepr) lst))]
      else case tabular_fields lst of
        Some fields \<Rightarrow>
          (ind, header prefix (length lst) @ ''{'' @ join [comma] (map key_str fields) @ ''}:'')
          # map (\<lambda>row. (ind + 1, row_text frepr fields row)) lst
      | None \<Rightarrow> (ind, header prefix (length lst) @ '':'') # emit_items frepr (ind + 1) lst)"
| "emit_items frepr ind [] = []"
| "emit_items frepr ind (x # xs) =
     (case x of
        VDict e \<Rightarrow> (ind, ''-'') # emit_members frepr (ind + 1) e
      | VList ys \<Rightarrow> emit_array frepr ind ''- '' ys
      | _ \<Rightarrow> [(ind, ''- '' @ enc_scalar frepr x)]) @ emit_items frepr ind xs"
  by pat_completeness auto
termination
  by (relation "measures
     [\<lambda>x. case x of Inl (f, i, d) \<Rightarrow> size (VDict d) | Inr (Inl (f, i, p, xs)) \<Rightarrow> size (VList xs)
                  | Inr (Inr (f, i, xs)) \<Rightarrow> size (VList xs),
      \<lambda>x. case x of Inr (Inl _) \<Rightarrow> 1 | _ \<Rightarrow> 0]")
    auto

declare emit_array.simps [simp del]

definition render_line :: "line \<Rightarrow> string" where
  "render_line l = replicate (2 * fst l) (CHR '' '') @ snd l"

text \<open>\<open>encode\<close>; \<open>None\<close> is the \<open>ValueError\<close> for a scalar at the top level.\<close>

definition encode :: "(pyfloat \<Rightarrow> string) \<Rightarrow> pyval \<Rightarrow> string option" where
  "encode frepr v =
     (case v of
        VDict d \<Rightarrow> Some (join [CHR 0x0A] (map render_line (emit_members frepr 0 d)))
      | VList xs \<Rightarrow> Some (join [CHR 0x0A] (map render_line (emit_array frepr 0 [] xs)))
      | _ \<Rightarrow> None)"

section \<open>Decoding\<close>

datatype toon_error = EndOfLines | BadJson string | BadHeader string | OutOfFuel

definition is_item :: "string \<Rightarrow> bool" where
  "is_item t = (t = ''-'' \<or> starts_with ''- '' t)"

text \<open>\<open>_split_top\<close>: at commas outside quoted spans; the pieces are stripped.\<close>

fun split_top_loop :: "bool \<Rightarrow> string \<Rightarrow> string \<Rightarrow> string list" where
  "split_top_loop q buf [] = [buf]"
| "split_top_loop q buf (c # cs) =
     (if q then
        (case cs of
           e # cs' \<Rightarrow>
             if c = CHR 0x5C then split_top_loop q (buf @ [c, e]) cs'
             else split_top_loop (c \<noteq> CHR 0x22) (buf @ [c]) cs
         | [] \<Rightarrow> split_top_loop (c \<noteq> CHR 0x22) (buf @ [c]) [])
      else if c = CHR 0x22 then split_top_loop True (buf @ [c]) cs
      else if c = comma then buf # split_top_loop False [] cs
      else split_top_loop False (buf @ [c]) cs)"

definition split_top :: "string \<Rightarrow> string list" where
  "split_top s = map strip (split_top_loop False [] s)"

definition dec_scalar :: "string \<Rightarrow> toon_error + pyval" where
  "dec_scalar tok0 =
     (let tok = strip tok0 in
      if tok = [] then Inr (VStr [])
      else if hd tok = CHR 0x22
      then (case json_loads_str tok of None \<Rightarrow> Inl (BadJson tok) | Some s \<Rightarrow> Inr (VStr s))
      else if tok = ''null'' then Inr VNone
      else if tok = ''true'' then Inr (VBool True)
      else if tok = ''false'' then Inr (VBool False)
      else (case py_int tok of
              Some i \<Rightarrow> Inr (VInt i)
            | None \<Rightarrow> (case py_float tok of Some f \<Rightarrow> Inr (VFloat f) | None \<Rightarrow> Inr (VStr tok))))"

text \<open>\<open>_ARRAY_HEADER\<close>: the count, the field text if any, and what follows the colon.\<close>

definition match_header :: "string \<Rightarrow> (nat \<times> string option \<times> string) option" where
  "match_header t =
     (if t = [] \<or> hd t \<noteq> CHR ''['' then None
      else (let ds = takeWhile is_digit_char (tl t); r = dropWhile is_digit_char (tl t) in
        if ds = [] \<or> r = [] \<or> hd r \<noteq> CHR '']'' then None
        else (let r = tl r;
                  braces = (r \<noteq> [] \<and> hd r = CHR ''{'');
                  inner = takeWhile (\<lambda>c. c \<noteq> CHR ''}'') (tl r);
                  after = (if braces then tl (dropWhile (\<lambda>c. c \<noteq> CHR ''}'') (tl r)) else r)
              in if braces \<and> dropWhile (\<lambda>c. c \<noteq> CHR ''}'') (tl r) = [] then None
                 else if after = [] \<or> hd after \<noteq> CHR '':'' then None
                 else Some (read_nat ds, (if braces then Some inner else None), tl after))))"

definition lstrip_blank :: "string \<Rightarrow> string" where
  "lstrip_blank s = dropWhile (\<lambda>c. c = CHR '' '') s"

definition parse_array_header :: "string \<Rightarrow> toon_error + nat \<times> string list option \<times> string option" where
  "parse_array_header t =
     (case match_header t of
        None \<Rightarrow> Inl (BadHeader t)
      | Some (n, flds, raw) \<Rightarrow>
          Inr (n, map_option split_top flds, if strip raw = [] then None else Some (lstrip_blank raw)))"

text \<open>\<open>_read_quoted\<close>: the length of the literal at the head of the text.\<close>

fun quoted_len :: "string \<Rightarrow> nat" where
  "quoted_len [] = 0"
| "quoted_len [c] = 1"
| "quoted_len (c # e # cs) =
     (if c = CHR 0x5C then 2 + quoted_len cs
      else if c = CHR 0x22 then 1
      else 1 + quoted_len (e # cs))"

definition read_quoted :: "string \<Rightarrow> toon_error + string \<times> string" where
  "read_quoted t =
     (let n = 1 + quoted_len (tl t) in
      case json_loads_str (take n t) of
        None \<Rightarrow> Inl (BadJson t)
      | Some k \<Rightarrow> Inr (k, drop n t))"

text \<open>One member line: its key, and an array header or an inline payload or neither.\<close>

datatype member_rest = MArray nat "string list option" "string option" | MInline string | MNested

definition parse_member :: "string \<Rightarrow> toon_error + string \<times> member_rest" where
  "parse_member t =
     ebind (if t \<noteq> [] \<and> hd t = CHR 0x22 then read_quoted t
            else Inr (takeWhile (\<lambda>c. c \<noteq> CHR ''['' \<and> c \<noteq> CHR '':'') t,
                      dropWhile (\<lambda>c. c \<noteq> CHR ''['' \<and> c \<noteq> CHR '':'') t))
       (\<lambda>(key, rest).
         if rest \<noteq> [] \<and> hd rest = CHR ''[''
         then ebind (parse_array_header rest) (\<lambda>(n, flds, inl). Inr (key, MArray n flds inl))
         else (let after = tl rest in
           if strip after = [] then Inr (key, MNested) else Inr (key, MInline (lstrip_blank after))))"

definition dec_row :: "string list \<Rightarrow> string \<Rightarrow> toon_error + pyval" where
  "dec_row fields t =
     ebind (traverse (\<lambda>(f, c). ebind (dec_scalar c) (\<lambda>v. Inr (KStr f, v))) (zip fields (split_top t)))
       (\<lambda>kvs. Inr (VDict (fold (\<lambda>(k, v) d. AList.update k v d) kvs [])))"

fun dec_rows :: "string list \<Rightarrow> nat \<Rightarrow> line list \<Rightarrow> toon_error + pyval list \<times> line list" where
  "dec_rows fields 0 ls = Inr ([], ls)"
| "dec_rows fields (Suc n) [] = Inl EndOfLines"
| "dec_rows fields (Suc n) (l # ls) =
     ebind (dec_row fields (snd l)) (\<lambda>r.
       ebind (dec_rows fields n ls) (\<lambda>(rs, ls'). Inr (r # rs, ls')))"

text \<open>Does the next line open a block of members at this indent?\<close>

definition members_follow :: "nat \<Rightarrow> line list \<Rightarrow> bool" where
  "members_follow ind ls = (case ls of [] \<Rightarrow> False | l # _ \<Rightarrow> fst l = ind \<and> \<not> is_item (snd l))"

function parse_members :: "nat \<Rightarrow> nat \<Rightarrow> pydict \<Rightarrow> line list \<Rightarrow> toon_error + pydict \<times> line list"
  and parse_array_body ::
    "nat \<Rightarrow> nat \<Rightarrow> nat \<Rightarrow> string list option \<Rightarrow> string option \<Rightarrow> line list \<Rightarrow> toon_error + pyval \<times> line list"
  and parse_items :: "nat \<Rightarrow> nat \<Rightarrow> nat \<Rightarrow> line list \<Rightarrow> toon_error + pyval list \<times> line list"
  and parse_item :: "nat \<Rightarrow> nat \<Rightarrow> line list \<Rightarrow> toon_error + pyval \<times> line list" where
  "parse_members 0 ind out ls = Inl OutOfFuel"
| "parse_members (Suc f) ind out ls =
     (case ls of
        [] \<Rightarrow> Inr (out, [])
      | l # rest \<Rightarrow>
          if fst l \<noteq> ind \<or> is_item (snd l) then Inr (out, ls)
          else (case parse_member (snd l) of
            Inl e \<Rightarrow> Inl e
          | Inr (key, mr) \<Rightarrow>
              (case (case mr of
                       MArray n flds inl \<Rightarrow> parse_array_body f ind n flds inl rest
                     | MInline t \<Rightarrow> ebind (dec_scalar t) (\<lambda>v. Inr (v, rest))
                     | MNested \<Rightarrow>
                         if members_follow (ind + 1) rest
                         then (case parse_members f (ind + 1) [] rest of
                                 Inl e \<Rightarrow> Inl e | Inr (d, rest') \<Rightarrow> Inr (VDict d, rest'))
                         else Inr (VDict [], rest)) of
                 Inl e \<Rightarrow> Inl e
               | Inr (v, rest') \<Rightarrow> parse_members f ind (AList.update (KStr key) v out) rest')))"
| "parse_array_body f ind n flds inl ls =
     (case inl of
        Some t \<Rightarrow> ebind (traverse dec_scalar (split_top t)) (\<lambda>vs. Inr (VList vs, ls))
      | None \<Rightarrow>
          if n = 0 then Inr (VList [], ls)
          else (case flds of
                  Some fs \<Rightarrow> ebind (dec_rows fs n ls) (\<lambda>(rs, ls'). Inr (VList rs, ls'))
                | None \<Rightarrow> (case parse_items f (ind + 1) n ls of
                    Inl e \<Rightarrow> Inl e | Inr (vs, ls') \<Rightarrow> Inr (VList vs, ls'))))"
| "parse_items f ind 0 ls = Inr ([], ls)"
| "parse_items f ind (Suc n) ls =
     (case parse_item f ind ls of
        Inl e \<Rightarrow> Inl e
      | Inr (v, ls') \<Rightarrow>
          (case parse_items f ind n ls' of Inl e \<Rightarrow> Inl e | Inr (vs, ls'') \<Rightarrow> Inr (v # vs, ls'')))"
| "parse_item 0 ind ls = Inl OutOfFuel"
| "parse_item (Suc f) ind ls =
     (case ls of
        [] \<Rightarrow> Inl EndOfLines
      | l # rest \<Rightarrow>
          if snd l = ''-''
          then (if members_follow (ind + 1) rest
                then (case parse_members f (ind + 1) [] rest of
                        Inl e \<Rightarrow> Inl e | Inr (d, rest') \<Rightarrow> Inr (VDict d, rest'))
                else Inr (VDict [], rest))
          else (let t = drop 2 (snd l) in
            case match_header t of
              Some _ \<Rightarrow>
                (case parse_array_header t of
                   Inl e \<Rightarrow> Inl e
                 | Inr (n, flds, inl) \<Rightarrow> parse_array_body f ind n flds inl rest)
            | None \<Rightarrow> ebind (dec_scalar t) (\<lambda>v. Inr (v, rest))))"
  by pat_completeness auto
termination
  by (relation "measures
     [\<lambda>x. case x of Inl (Inl (f, _)) \<Rightarrow> f | Inl (Inr (f, _)) \<Rightarrow> f | Inr (Inl (f, _)) \<Rightarrow> f | Inr (Inr (f, _)) \<Rightarrow> f,
      \<lambda>x. case x of Inl (Inl _) \<Rightarrow> 0 | Inl (Inr _) \<Rightarrow> 2 | Inr (Inl _) \<Rightarrow> 1 | Inr (Inr _) \<Rightarrow> 0,
      \<lambda>x. case x of Inr (Inl (f, i, n, ls)) \<Rightarrow> n | _ \<Rightarrow> 0]")
    auto

declare parse_members.simps(2) [simp del] parse_array_body.simps [simp del] parse_item.simps(2) [simp del]

definition scan_lines :: "string \<Rightarrow> line list" where
  "scan_lines s =
     map (\<lambda>raw. (length (takeWhile (\<lambda>c. c = CHR '' '') raw) div 2, strip raw))
       (filter (\<lambda>raw. strip raw \<noteq> []) (split_on (CHR 0x0A) s))"

definition decode_lines :: "line list \<Rightarrow> toon_error + pyval" where
  "decode_lines ls =
     (let f = length ls + 1 in
      case ls of
        [] \<Rightarrow> Inr (VDict [])
      | l # rest \<Rightarrow>
          if match_header (snd l) \<noteq> None
          then (case parse_array_header (snd l) of
                  Inl e \<Rightarrow> Inl e
                | Inr (n, flds, inl) \<Rightarrow>
                    (case parse_array_body f 0 n flds inl rest of Inl e \<Rightarrow> Inl e | Inr (v, _) \<Rightarrow> Inr v))
          else (case parse_members f 0 [] ls of Inl e \<Rightarrow> Inl e | Inr (d, _) \<Rightarrow> Inr (VDict d)))"

definition decode :: "string \<Rightarrow> toon_error + pyval" where
  "decode s = decode_lines (scan_lines s)"

section \<open>Tokens\<close>

text \<open>A text that stands alone on a line: no blank ends, no newline.\<close>

definition clean :: "string \<Rightarrow> bool" where
  "clean t \<longleftrightarrow> t \<noteq> [] \<and> \<not> is_space (hd t) \<and> \<not> is_space (last t) \<and> CHR 0x0A \<notin> set t"

text \<open>A token that \<open>split_top\<close> keeps whole: a JSON literal, or free of quotes and commas.\<close>

definition atom :: "string \<Rightarrow> bool" where
  "atom t \<longleftrightarrow> clean t \<and> ((\<exists>s. t = json_dumps_str s) \<or> (CHR 0x22 \<notin> set t \<and> comma \<notin> set t))"

text \<open>What \<open>json.dumps\<close> and \<open>float\<close> promise of the text of a float.\<close>

definition float_ok :: "(pyfloat \<Rightarrow> string) \<Rightarrow> pyfloat \<Rightarrow> bool" where
  "float_ok frepr f \<longleftrightarrow>
     clean (frepr f) \<and> CHR 0x22 \<notin> set (frepr f) \<and> comma \<notin> set (frepr f) \<and> hd (frepr f) \<noteq> CHR ''[''
     \<and> frepr f \<notin> {''null'', ''true'', ''false''} \<and> py_int (frepr f) = None \<and> py_float (frepr f) = Some f"

lemma clean_strip: "clean t \<Longrightarrow> strip t = t"
  by (simp add: clean_def strip_id)

lemma clean_append_last: "clean a \<Longrightarrow> clean b \<Longrightarrow> clean (a @ b)"
  by (auto simp: clean_def)

lemma json_escape_chars: "x \<in> set (json_escape c) \<Longrightarrow> x \<noteq> CHR 0x0A"
proof -
  have b: "(of_char c :: nat) < 256" by simp
  then have "of_char c div 16 < (16 :: nat)" "of_char c mod 16 < (16 :: nat)"
    by (simp_all add: less_mult_imp_div_less)
  then have "hex_digit (of_char c div 16) \<noteq> CHR 0x0A \<and> hex_digit (of_char c mod 16) \<noteq> CHR 0x0A"
    by (auto simp: hex_digit_def char_of_eq_iff take_bit_eq_mod)
  then show "x \<in> set (json_escape c) \<Longrightarrow> x \<noteq> CHR 0x0A"
    by (auto simp: json_escape_def Let_def split: if_splits)
qed

lemma clean_dumps: "clean (json_dumps_str s)"
  using json_escape_chars by (fastforce simp: clean_def json_dumps_str_def is_space_def)

lemma atom_dumps [simp]: "atom (json_dumps_str s)"
  unfolding atom_def using clean_dumps by blast

lemma atom_clean: "atom t \<Longrightarrow> clean t" by (simp add: atom_def)

text \<open>An unquoted string value.\<close>

lemma plain_value:
  assumes "\<not> value_needs_quote s"
  shows "clean s" and "CHR 0x22 \<notin> set s" and "comma \<notin> set s" and "hd s \<noteq> CHR ''[''" and "hd s \<noteq> CHR ''-''"
    and "s \<notin> {''null'', ''true'', ''false''}" and "py_int s = None" and "py_float s = None"
  using assms strip_self_iff[of s]
  by (auto simp: value_needs_quote_def clean_def looks_numeric_def)

lemma enc_str_atom: "atom (enc_str s)"
  using plain_value[of s] atom_dumps[of s] by (cases "value_needs_quote s") (simp_all add: enc_str_def atom_def)

lemma show_int_atom: "atom (show_int i)"
proof -
  have c: "x \<in> set (show_int i) \<Longrightarrow> \<not> is_space x \<and> x \<noteq> CHR 0x0A \<and> x \<noteq> CHR 0x22 \<and> x \<noteq> comma" for x
    using show_int_chars[of x i] by (auto simp: is_digit_char_def is_space_def comma_def Let_def)
  then show ?thesis using c[of "hd (show_int i)"] c[of "last (show_int i)"] by (auto simp: atom_def clean_def)
qed

text \<open>The values of a member or element that are not containers, and their float texts.\<close>

definition scalar_ok :: "(pyfloat \<Rightarrow> string) \<Rightarrow> pyval \<Rightarrow> bool" where
  "scalar_ok frepr v \<longleftrightarrow> is_primitive v \<and> (\<forall>f. v = VFloat f \<longrightarrow> float_ok frepr f)"

lemma enc_scalar_atom: "scalar_ok frepr v \<Longrightarrow> atom (enc_scalar frepr v)"
proof (cases v)
  case (VFloat f)
  moreover assume "scalar_ok frepr v"
  ultimately show ?thesis by (simp add: scalar_ok_def float_ok_def atom_def)
next
  case VNone
  then show ?thesis by (simp add: atom_def clean_def is_space_def comma_def)
next
  case (VBool b)
  then show ?thesis by (cases b) (simp_all add: atom_def clean_def is_space_def comma_def)
qed (auto simp: scalar_ok_def enc_str_atom show_int_atom)

lemma hd_enc_scalar: "scalar_ok frepr v \<Longrightarrow> hd (enc_scalar frepr v) \<noteq> CHR ''[''"
proof (cases v)
  case (VInt i)
  have "hd (show_int i) \<in> set (show_int i)" by simp
  then have "hd (show_int i) \<noteq> CHR ''[''"
    using show_int_chars[of "hd (show_int i)" i] by (auto simp: is_digit_char_def Let_def)
  with VInt show ?thesis by simp
next
  case (VStr s)
  then show ?thesis using plain_value(4)[of s] by (auto simp: enc_str_def json_dumps_str_def)
qed (auto simp: scalar_ok_def float_ok_def)

lemma dec_scalar_plain:
  assumes "clean t" and "CHR 0x22 \<notin> set t" and "t \<notin> {''null'', ''true'', ''false''}"
  shows "dec_scalar t = (case py_int t of Some i \<Rightarrow> Inr (VInt i)
     | None \<Rightarrow> (case py_float t of Some f \<Rightarrow> Inr (VFloat f) | None \<Rightarrow> Inr (VStr t)))"
proof -
  have "t \<noteq> []" using assms(1) by (simp add: clean_def)
  then have "hd t \<in> set t" by simp
  with assms(2) have "hd t \<noteq> CHR 0x22" by metis
  with assms show ?thesis by (auto simp: dec_scalar_def Let_def clean_strip clean_def)
qed

lemma dec_enc_str: "dec_scalar (enc_str s) = Inr (VStr s)"
proof (cases "value_needs_quote s")
  case True
  have "strip (json_dumps_str s) = json_dumps_str s" by (rule clean_strip[OF clean_dumps])
  moreover have "json_dumps_str s \<noteq> []" "hd (json_dumps_str s) = CHR 0x22" by (simp_all add: json_dumps_str_def)
  ultimately show ?thesis using True by (simp add: enc_str_def dec_scalar_def Let_def)
next
  case False
  note p = plain_value[OF False]
  show ?thesis using False p(7,8) by (simp add: enc_str_def dec_scalar_plain[OF p(1,2,6)])
qed

lemma dec_enc_scalar: "scalar_ok frepr v \<Longrightarrow> dec_scalar (enc_scalar frepr v) = Inr v"
proof (cases v)
  case (VBool b)
  have "dec_scalar ''true'' = Inr (VBool True)" "dec_scalar ''false'' = Inr (VBool False)" by code_simp+
  then show ?thesis unfolding VBool by (cases b) simp_all
next
  case (VInt i)
  have "show_int i \<notin> {''null'', ''true'', ''false''}"
    using show_int_chars[of "hd (show_int i)" i] by (auto simp: is_digit_char_def Let_def)
  moreover have "clean (show_int i)" by (rule atom_clean[OF show_int_atom])
  moreover have "CHR 0x22 \<notin> set (show_int i)"
    using show_int_chars[of "CHR 0x22" i] by (auto simp: is_digit_char_def)
  ultimately show ?thesis unfolding VInt by (simp add: dec_scalar_plain py_int_show_int)
next
  case (VFloat f)
  moreover assume "scalar_ok frepr v"
  ultimately have "float_ok frepr f" by (simp add: scalar_ok_def)
  then show ?thesis unfolding VFloat by (auto simp: float_ok_def dec_scalar_plain)
next
  case VNone
  have "dec_scalar ''null'' = Inr VNone" by code_simp
  then show ?thesis unfolding VNone by simp
qed (auto simp: dec_enc_str scalar_ok_def)

subsection \<open>Splitting\<close>

lemma split_loop_in:
  "c \<noteq> CHR 0x22 \<Longrightarrow> c \<noteq> CHR 0x5C \<Longrightarrow> split_top_loop True buf (c # r) = split_top_loop True (buf @ [c]) r"
  "split_top_loop True buf (CHR 0x5C # e # r) = split_top_loop True (buf @ [CHR 0x5C, e]) r"
  "split_top_loop True buf (CHR 0x22 # r) = split_top_loop False (buf @ [CHR 0x22]) r"
  by (cases r; simp)+

lemma split_loop_out:
  "split_top_loop False buf (CHR 0x22 # r) = split_top_loop True (buf @ [CHR 0x22]) r"
  "split_top_loop False buf (comma # r) = buf # split_top_loop False [] r"
  "c \<noteq> CHR 0x22 \<Longrightarrow> c \<noteq> comma \<Longrightarrow> split_top_loop False buf (c # r) = split_top_loop False (buf @ [c]) r"
  by (simp_all add: comma_def)

lemma split_loop_Nil: "split_top_loop q buf [] = [buf]" by simp

declare split_top_loop.simps [simp del]

lemma split_loop_plain:
  "CHR 0x22 \<notin> set t \<Longrightarrow> comma \<notin> set t \<Longrightarrow> split_top_loop False buf (t @ r) = split_top_loop False (buf @ t) r"
  by (induction t arbitrary: buf) (auto simp: split_loop_out)

text \<open>The three shapes of an escaped character.\<close>

lemma json_escape_shape:
  obtains (self) "json_escape c = [c]" "c \<noteq> CHR 0x22" "c \<noteq> CHR 0x5C"
  | (short) e where "json_escape c = [CHR 0x5C, e]"
  | (hex) h l where "json_escape c = [CHR 0x5C, CHR ''u'', CHR ''0'', CHR ''0'', h, l]"
      "h \<noteq> CHR 0x22" "h \<noteq> CHR 0x5C" "l \<noteq> CHR 0x22" "l \<noteq> CHR 0x5C"
proof -
  have b: "(of_char c :: nat) < 256" by simp
  have h: "hex_digit (of_char c div 16) \<noteq> CHR 0x22 \<and> hex_digit (of_char c div 16) \<noteq> CHR 0x5C"
    "hex_digit (of_char c mod 16) \<noteq> CHR 0x22 \<and> hex_digit (of_char c mod 16) \<noteq> CHR 0x5C"
    using b by (auto intro!: hex_digit_plain simp: less_mult_imp_div_less)
  show thesis
  proof (cases "c \<in> {CHR 0x22, CHR 0x5C, CHR 0x0A, CHR 0x0D, CHR 0x09, CHR 0x0C, CHR 0x08}")
    case True
    then have "\<exists>e. json_escape c = [CHR 0x5C, e]" by (auto simp: json_escape_def)
    then show thesis using short by blast
  next
    case False
    show thesis
    proof (cases "32 \<le> (of_char c :: nat) \<and> of_char c \<le> (126 :: nat)")
      case True
      with False self show thesis by (auto simp: json_escape_def Let_def)
    next
      case nr: False
      from False nr have "json_escape c = [CHR 0x5C, CHR ''u'', CHR ''0'', CHR ''0'',
          hex_digit (of_char c div 16), hex_digit (of_char c mod 16)]"
        by (auto simp: json_escape_def Let_def)
      then show thesis using hex h by blast
    qed
  qed
qed

lemma split_loop_escape:
  "split_top_loop True buf (json_escape c @ r) = split_top_loop True (buf @ json_escape c) r"
  by (cases c rule: json_escape_shape) (simp_all add: split_loop_in)

lemma split_loop_escapes:
  "split_top_loop True buf (concat (map json_escape s) @ r)
     = split_top_loop True (buf @ concat (map json_escape s)) r"
  by (induction s arbitrary: buf) (simp_all add: split_loop_escape)

lemma split_loop_atom:
  assumes "atom t"
  shows "split_top_loop False buf (t @ r) = split_top_loop False (buf @ t) r"
proof -
  from assms consider s where "t = json_dumps_str s" | "CHR 0x22 \<notin> set t" "comma \<notin> set t"
    by (auto simp: atom_def)
  then show ?thesis
  proof cases
    case 1
    then show ?thesis
      by (simp add: json_dumps_str_def split_loop_out split_loop_in split_loop_escapes)
  next
    case 2
    then show ?thesis by (rule split_loop_plain)
  qed
qed

lemma split_top_join:
  assumes "list_all atom ts" and "ts \<noteq> []"
  shows "split_top (join [comma] ts) = ts"
proof -
  have "split_top_loop False [] (join [comma] ts) = ts"
    using assms
  proof (induction "[comma]" ts rule: join.induct)
    case (2 t)
    then show ?case using split_loop_atom[of t "[]" "[]"] by (simp add: split_loop_Nil)
  next
    case (3 t u ts)
    then have "split_top_loop False [] (t @ comma # join [comma] (u # ts))
        = t # split_top_loop False [] (join [comma] (u # ts))"
      using split_loop_atom[of t "[]"] by (simp add: split_loop_out)
    with 3 show ?case by simp
  qed simp
  moreover have "map strip ts = ts"
    using assms(1) by (intro map_idI) (simp add: list_all_iff atom_clean clean_strip)
  ultimately show ?thesis by (simp add: split_top_def)
qed

section \<open>Lines\<close>

subsection \<open>Keys\<close>

lemma plain_key:
  assumes "\<not> key_needs_quote k"
  shows "clean k" and "CHR 0x22 \<notin> set k" and "comma \<notin> set k" and "CHR ''['' \<notin> set k" and "CHR '':'' \<notin> set k"
    and "CHR ''}'' \<notin> set k" and "hd k \<noteq> CHR ''-''"
  using assms strip_self_iff[of k] by (auto simp: key_needs_quote_def clean_def)

lemma enc_key_clean: "clean (enc_key k)"
  using plain_key(1) clean_dumps by (simp add: enc_key_def)

lemma hd_enc_key: "hd (enc_key k) \<notin> {CHR ''-'', CHR ''[''}"
proof (cases "key_needs_quote (key_str k)")
  case True
  then show ?thesis by (simp add: enc_key_def json_dumps_str_def)
next
  case False
  note p = plain_key[OF False]
  have "hd (key_str k) \<in> set (key_str k)" using p(1) by (simp add: clean_def)
  then have "hd (key_str k) \<noteq> CHR ''[''" using p(4) by metis
  with False p(7) show ?thesis by (simp add: enc_key_def)
qed

lemma quoted_len_step:
  "c \<noteq> CHR 0x22 \<Longrightarrow> c \<noteq> CHR 0x5C \<Longrightarrow> quoted_len (c # r) = 1 + quoted_len r"
  "quoted_len (CHR 0x5C # e # r) = 2 + quoted_len r"
  "quoted_len (CHR 0x22 # r) = 1"
  by (cases r; simp)+

lemma quoted_len_escape: "quoted_len (json_escape c @ r) = length (json_escape c) + quoted_len r"
  by (cases c rule: json_escape_shape) (simp_all add: quoted_len_step)

lemma quoted_len_escapes:
  "quoted_len (concat (map json_escape s) @ CHR 0x22 # r) = length (concat (map json_escape s)) + 1"
  by (induction s) (simp_all add: quoted_len_escape quoted_len_step)

lemma read_quoted_dumps: "read_quoted (json_dumps_str s @ r) = Inr (s, r)"
proof -
  have n: "1 + quoted_len (tl (json_dumps_str s @ r)) = length (json_dumps_str s)"
    by (simp add: json_dumps_str_def quoted_len_escapes)
  show ?thesis unfolding read_quoted_def n by simp
qed

text \<open>The key of a member line is read back whatever follows it.\<close>

lemma parse_member_key:
  assumes "r \<noteq> []" and "hd r = CHR ''['' \<or> hd r = CHR '':''"
  shows "parse_member (enc_key k @ r) =
     (if hd r = CHR ''[''
      then ebind (parse_array_header r) (\<lambda>(n, flds, inl). Inr (key_str k, MArray n flds inl))
      else if strip (tl r) = [] then Inr (key_str k, MNested)
      else Inr (key_str k, MInline (lstrip_blank (tl r))))"
proof (cases "key_needs_quote (key_str k)")
  case True
  then have "enc_key k @ r \<noteq> []" "hd (enc_key k @ r) = CHR 0x22" "read_quoted (enc_key k @ r) = Inr (key_str k, r)"
    by (simp_all add: enc_key_def read_quoted_dumps) (simp_all add: json_dumps_str_def)
  with assms show ?thesis by (simp add: parse_member_def)
next
  case False
  note p = plain_key[OF False]
  let ?P = "\<lambda>c. c \<noteq> CHR ''['' \<and> c \<noteq> CHR '':''"
  have e: "enc_key k = key_str k" using False by (simp add: enc_key_def)
  have all: "\<And>c. c \<in> set (key_str k) \<Longrightarrow> ?P c" using p(4,5) by auto
  have "\<not> ?P (hd r)" using assms(2) by auto
  then obtain c r' where "r = c # r'" "\<not> ?P c" using assms(1) by (cases r) auto
  then have r: "takeWhile ?P r = []" "dropWhile ?P r = r" by auto
  have t: "takeWhile ?P (key_str k @ r) = key_str k" "dropWhile ?P (key_str k @ r) = r"
    using all r by (simp_all add: takeWhile_append2 dropWhile_append2)
  have "hd (key_str k) \<in> set (key_str k)" using p(1) by (simp add: clean_def)
  then have "hd (key_str k) \<noteq> CHR 0x22" using p(2) by metis
  moreover have "key_str k \<noteq> []" using p(1) by (simp add: clean_def)
  ultimately have "hd (enc_key k @ r) \<noteq> CHR 0x22" using e by simp
  with assms t e show ?thesis by (simp add: parse_member_def)
qed

subsection \<open>Array headers\<close>

lemma take_drop_digits:
  "takeWhile is_digit_char (show_nat n @ CHR '']'' # r) = show_nat n"
  "dropWhile is_digit_char (show_nat n @ CHR '']'' # r) = CHR '']'' # r"
proof -
  have "\<And>c. c \<in> set (show_nat n) \<Longrightarrow> is_digit_char c" using show_nat_digits[of n] by (simp add: list_all_iff)
  moreover have "\<not> is_digit_char (CHR '']'')" by (simp add: is_digit_char_def)
  ultimately show "takeWhile is_digit_char (show_nat n @ CHR '']'' # r) = show_nat n"
    "dropWhile is_digit_char (show_nat n @ CHR '']'' # r) = CHR '']'' # r"
    by (simp_all add: takeWhile_append2 dropWhile_append2)
qed

lemma match_header_plain:
  "match_header (CHR ''['' # show_nat n @ CHR '']'' # CHR '':'' # raw) = Some (n, None, raw)"
  by (simp add: match_header_def take_drop_digits read_show_nat)

lemma match_header_fields:
  assumes "CHR ''}'' \<notin> set inner"
  shows "match_header (CHR ''['' # show_nat n @ CHR '']'' # CHR ''{'' # inner @ CHR ''}'' # CHR '':'' # raw)
     = Some (n, Some inner, raw)"
proof -
  have "takeWhile (\<lambda>c. c \<noteq> CHR ''}'') (inner @ CHR ''}'' # CHR '':'' # raw) = inner"
    "dropWhile (\<lambda>c. c \<noteq> CHR ''}'') (inner @ CHR ''}'' # CHR '':'' # raw) = CHR ''}'' # CHR '':'' # raw"
    using assms by (induction inner) auto
  then show ?thesis by (simp add: match_header_def take_drop_digits read_show_nat)
qed

lemma match_header_none: "hd t \<noteq> CHR ''['' \<Longrightarrow> match_header t = None"
  by (simp add: match_header_def)

lemma header_text: "header [] n @ s = CHR ''['' # show_nat n @ CHR '']'' # s"
  by (simp add: header_def)

lemma header_prefix: "header p n @ s = p @ header [] n @ s"
  by (simp add: header_def)

lemma lstrip_blank_clean: "clean t \<Longrightarrow> lstrip_blank (CHR '' '' # t) = t"
proof -
  assume c: "clean t"
  then have "hd t \<noteq> CHR '' ''" by (auto simp: clean_def is_space_def)
  with c show ?thesis by (cases t) (auto simp: lstrip_blank_def clean_def)
qed

lemma strip_blank_clean: "clean t \<Longrightarrow> strip (CHR '' '' # t) \<noteq> []"
proof -
  assume c: "clean t"
  have "is_space (CHR '' '')" by (simp add: is_space_def)
  then have "strip (CHR '' '' # t) = strip t" by (simp add: strip_def lstrip_def)
  with c show ?thesis by (simp add: clean_strip) (simp add: clean_def)
qed

lemma join_clean:
  assumes "list_all clean ts" and "ts \<noteq> []"
  shows "clean (join [comma] ts)"
  using assms
proof (induction "[comma]" ts rule: join.induct)
  case (3 t u ts)
  then have "clean t" "clean (join [comma] (u # ts))" by auto
  moreover have "comma \<noteq> CHR 0x0A" by (simp add: comma_def)
  ultimately show ?case by (auto simp: clean_def)
qed auto

subsection \<open>Items\<close>

lemma is_item_hd: "is_item t \<Longrightarrow> t \<noteq> [] \<and> hd t = CHR ''-''"
  by (cases t) (auto simp: is_item_def starts_with_def)

lemma member_not_item: "\<not> is_item (enc_key k @ r)"
proof
  assume "is_item (enc_key k @ r)"
  then have "hd (enc_key k @ r) = CHR ''-''" by (simp add: is_item_hd)
  moreover have "enc_key k \<noteq> []" using enc_key_clean by (simp add: clean_def)
  ultimately show False using hd_enc_key by simp
qed

lemma is_item_dash [simp]: "is_item ''-''" "is_item (''- '' @ t)" "is_item (CHR ''-'' # CHR '' '' # t)"
  by (simp_all add: is_item_def starts_with_def)

subsection \<open>Lines of a text\<close>

lemma split_on_join:
  assumes "\<forall>x \<in> set xs. c \<notin> set x" and "xs \<noteq> []"
  shows "split_on c (join [c] xs) = xs"
  using assms
proof (induction "[c]" xs rule: join.induct)
  case (2 x)
  then show ?case by (simp add: split_on_none)
next
  case (3 x y xs)
  have app: "split_on c (a @ c # r) = a # split_on c r" if "c \<notin> set a" for a r
    using that by (induction a) auto
  from 3 show ?case by (simp add: app)
qed simp

lemma render_line_scan:
  assumes "clean (snd l)"
  shows "length (takeWhile (\<lambda>c. c = CHR '' '') (render_line l)) div 2 = fst l" and "strip (render_line l) = snd l"
proof -
  let ?b = "replicate (2 * fst l) (CHR '' '')"
  have h: "hd (snd l) \<noteq> CHR '' ''" "snd l \<noteq> []" using assms by (auto simp: clean_def is_space_def)
  then have "takeWhile (\<lambda>c. c = CHR '' '') (snd l) = []" by (cases "snd l") simp_all
  then have "takeWhile (\<lambda>c. c = CHR '' '') (?b @ snd l) = ?b"
    by (subst takeWhile_append2) simp_all
  then show "length (takeWhile (\<lambda>c. c = CHR '' '') (render_line l)) div 2 = fst l"
    by (simp add: render_line_def)
  have "lstrip (?b @ s) = lstrip s" for s
    unfolding lstrip_def by (subst dropWhile_append2) (auto simp: is_space_def)
  then show "strip (render_line l) = snd l"
    using assms clean_strip by (simp add: render_line_def strip_def)
qed

lemma scan_render:
  assumes "\<forall>l \<in> set ls. clean (snd l)"
  shows "scan_lines (join [CHR 0x0A] (map render_line ls)) = ls"
proof (cases "ls = []")
  case True
  then show ?thesis by (simp add: scan_lines_def)
next
  case False
  have "\<forall>x \<in> set (map render_line ls). CHR 0x0A \<notin> set x"
    using assms by (auto simp: clean_def render_line_def)
  then have s: "split_on (CHR 0x0A) (join [CHR 0x0A] (map render_line ls)) = map render_line ls"
    using False by (intro split_on_join) auto
  have "\<forall>l \<in> set ls. strip (render_line l) \<noteq> []"
    using assms render_line_scan(2) by (auto simp: clean_def)
  then have "filter (\<lambda>raw. strip raw \<noteq> []) (map render_line ls) = map render_line ls"
    by (simp add: filter_id_conv)
  moreover have "map ((\<lambda>raw. (length (takeWhile (\<lambda>c. c = CHR '' '') raw) div 2, strip raw)) \<circ> render_line) ls = ls"
    using assms render_line_scan by (intro map_idI) (auto simp: prod_eq_iff)
  ultimately show ?thesis by (simp only: scan_lines_def s list.map_comp)
qed

section \<open>The round trip\<close>

subsection \<open>Values\<close>

text \<open>JSON data: string keys without repetition, and floats whose text reads back.\<close>

function json_ok :: "(pyfloat \<Rightarrow> string) \<Rightarrow> pyval \<Rightarrow> bool" where
  "json_ok frepr (VDict d) \<longleftrightarrow>
     distinct (map fst d) \<and> (\<forall>kv \<in> set d. (\<exists>s. fst kv = KStr s) \<and> json_ok frepr (snd kv))"
| "json_ok frepr (VList xs) \<longleftrightarrow> (\<forall>x \<in> set xs. json_ok frepr x)"
| "json_ok frepr VNone \<longleftrightarrow> True"
| "json_ok frepr (VBool b) \<longleftrightarrow> True"
| "json_ok frepr (VInt i) \<longleftrightarrow> True"
| "json_ok frepr (VStr s) \<longleftrightarrow> True"
| "json_ok frepr (VFloat f) \<longleftrightarrow> float_ok frepr f"
  by pat_completeness auto
termination
proof (relation "measure (size \<circ> snd)")
  fix frepr :: "pyfloat \<Rightarrow> string" and d :: pydict and kv
  assume "kv \<in> set d"
  then show "((frepr, snd kv), frepr, VDict d) \<in> measure (size \<circ> snd)"
    using size_dict_entry[of "fst kv" "snd kv" d] by simp
next
  fix frepr :: "pyfloat \<Rightarrow> string" and xs :: "pyval list" and x
  assume "x \<in> set xs"
  then show "((frepr, x), frepr, VList xs) \<in> measure (size \<circ> snd)"
    using size_list_estimation'[of x xs "size x" size] by simp
qed auto

lemma json_ok_scalar: "is_primitive v \<Longrightarrow> json_ok frepr v \<longleftrightarrow> scalar_ok frepr v"
  by (cases v) (auto simp: scalar_ok_def)

text \<open>The value a round trip gives: the rows of a table take the column order of its first row.\<close>

definition row_dict :: "pykey list \<Rightarrow> pyval \<Rightarrow> pyval" where
  "row_dict fields row = VDict (map (\<lambda>f. (f, the (map_of (dict_items row) f))) fields)"

function norm :: "pyval \<Rightarrow> pyval" where
  "norm (VDict d) = VDict (map (\<lambda>kv. (fst kv, norm (snd kv))) d)"
| "norm (VList xs) =
     (if xs = [] then VList []
      else case tabular_fields xs of
        Some fields \<Rightarrow> VList (map (row_dict fields) xs)
      | None \<Rightarrow> VList (map norm xs))"
| "norm VNone = VNone"
| "norm (VBool b) = VBool b"
| "norm (VInt i) = VInt i"
| "norm (VStr s) = VStr s"
| "norm (VFloat f) = VFloat f"
  by pat_completeness auto
termination
proof (relation "measure size")
  fix d :: pydict and kv
  assume "kv \<in> set d"
  then show "(snd kv, VDict d) \<in> measure size"
    using size_dict_entry[of "fst kv" "snd kv" d] by simp
next
  fix xs :: "pyval list" and x
  assume "x \<in> set xs"
  then show "(x, VList xs) \<in> measure size"
    using size_list_estimation'[of x xs "size x" size] by simp
qed auto

lemma norm_primitive [simp]: "is_primitive v \<Longrightarrow> norm v = v"
  by (cases v) auto

subsection \<open>Tables\<close>

definition table_of :: "(pyfloat \<Rightarrow> string) \<Rightarrow> pykey list \<Rightarrow> pyval \<Rightarrow> bool" where
  "table_of frepr fields x \<longleftrightarrow>
     (\<exists>d. x = VDict d \<and> fst ` set d = set fields \<and> (\<forall>f \<in> set fields. scalar_ok frepr (the (map_of d f))))"

lemma tabular_fields_Some:
  assumes "tabular_fields xs = Some fields" and "xs \<noteq> []" and "\<forall>x \<in> set xs. json_ok frepr x"
  shows "fields \<noteq> []" and "distinct fields" and "\<forall>f \<in> set fields. \<exists>s. f = KStr s \<and> \<not> key_needs_quote s"
    and "\<forall>x \<in> set xs. table_of frepr fields x" and "\<not> list_all is_primitive xs"
proof -
  from assms(1) have all: "list_all is_dict xs" and f: "fields = map fst (dict_items (hd xs))"
    and ne: "fields \<noteq> []" and nq: "\<not> list_ex (key_needs_quote \<circ> key_str) fields"
    and rows0: "\<not> list_ex (\<lambda>x. fst ` set (dict_items x) \<noteq> set fields
                           \<or> \<not> list_all (is_primitive \<circ> snd) (dict_items x)) xs"
    by (auto simp: tabular_fields_def Let_def simp del: set_map split: if_splits)
  have rows: "\<And>x. x \<in> set xs \<Longrightarrow> fst ` set (dict_items x) = set fields
                \<and> list_all (is_primitive \<circ> snd) (dict_items x)"
    using rows0 by (auto simp: list_ex_iff simp del: set_map)
  have dict: "\<exists>d. x = VDict d" if "x \<in> set xs" for x
    using all that by (cases x) (auto simp: list_all_iff)
  from assms(2) have h: "hd xs \<in> set xs" by simp
  then obtain d where d: "hd xs = VDict d" using dict by blast
  have ok: "json_ok frepr (VDict d)" using assms(3) h d by metis
  show "fields \<noteq> []" by (rule ne)
  show "distinct fields" using ok by (simp add: f d)
  show "\<forall>k \<in> set fields. \<exists>s. k = KStr s \<and> \<not> key_needs_quote s"
  proof
    fix k assume k: "k \<in> set fields"
    then obtain s where "k = KStr s" using ok by (auto simp: f d)
    with k nq show "\<exists>s. k = KStr s \<and> \<not> key_needs_quote s" by (auto simp: list_ex_iff)
  qed
  show "\<forall>x \<in> set xs. table_of frepr fields x"
  proof
    fix x assume x: "x \<in> set xs"
    with dict obtain e where e: "x = VDict e" by blast
    have r: "fst ` set e = set fields" "list_all (is_primitive \<circ> snd) e" using rows[OF x] e by auto
    have "scalar_ok frepr (the (map_of e k))" if "k \<in> set fields" for k
    proof -
      from that r(1) obtain v where v: "map_of e k = Some v" by (metis map_of_eq_None_iff not_None_eq)
      then have "(k, v) \<in> set e" by (rule map_of_SomeD)
      have "json_ok frepr (VDict e)" using assms(3) x e by metis
      with \<open>(k, v) \<in> set e\<close> r(2) have "is_primitive v" "json_ok frepr v" by (auto simp: list_all_iff)
      with v show ?thesis by (simp add: json_ok_scalar)
    qed
    with e r(1) show "table_of frepr fields x" by (auto simp: table_of_def)
  qed
  have "\<not> is_primitive (hd xs)" using d by simp
  with h show "\<not> list_all is_primitive xs" by (auto simp: list_all_iff)
qed

lemma fold_update_fresh_keys:
  "distinct (map fst kvs) \<Longrightarrow> fold (\<lambda>(k, v) d. AList.update k v d) kvs [] = kvs"
  by (rule fold_update_distinct)

lemma dec_row_text:
  assumes "table_of frepr fields row" and "fields \<noteq> []" and "distinct fields" and "\<forall>f \<in> set fields. \<exists>s. f = KStr s"
  shows "dec_row (map key_str fields) (row_text frepr fields row) = Inr (row_dict fields row)"
proof -
  let ?v = "\<lambda>f. the (map_of (dict_items row) f)"
  have ok: "\<forall>f \<in> set fields. scalar_ok frepr (?v f)" using assms(1) by (auto simp: table_of_def)
  then have "list_all atom (map (\<lambda>f. enc_scalar frepr (?v f)) fields)"
    by (auto simp: list_all_iff enc_scalar_atom)
  then have s: "split_top (row_text frepr fields row) = map (\<lambda>f. enc_scalar frepr (?v f)) fields"
    unfolding row_text_def using assms(2) by (intro split_top_join) auto
  have "traverse (\<lambda>(f, c). ebind (dec_scalar c) (\<lambda>v. Inr (KStr f, v)))
      (zip (map key_str fs) (map (\<lambda>f. enc_scalar frepr (?v f)) fs)) = Inr (map (\<lambda>f. (f, ?v f)) fs)"
    if "set fs \<subseteq> set fields" for fs
    using that
  proof (induction fs)
    case (Cons f fs)
    then obtain k where "f = KStr k" using assms(4) by auto
    with Cons ok show ?case by (simp add: dec_enc_scalar)
  qed simp
  from this[of fields] have t: "traverse (\<lambda>(f, c). ebind (dec_scalar c) (\<lambda>v. Inr (KStr f, v)))
      (zip (map key_str fields) (map (\<lambda>f. enc_scalar frepr (?v f)) fields)) = Inr (map (\<lambda>f. (f, ?v f)) fields)"
    by simp
  have "distinct (map fst (map (\<lambda>f. (f, ?v f)) fields))" using assms(3) by (simp add: comp_def)
  then show ?thesis unfolding dec_row_def s t by (simp add: fold_update_fresh_keys row_dict_def)
qed

lemma row_text_clean:
  assumes "table_of frepr fields row" and "fields \<noteq> []"
  shows "clean (row_text frepr fields row)"
  using assms unfolding row_text_def
  by (intro join_clean) (auto simp: table_of_def list_all_iff enc_scalar_atom atom_clean)

lemma dec_rows_text:
  assumes "\<forall>x \<in> set xs. table_of frepr fields x" and "fields \<noteq> []" and "distinct fields"
    and "\<forall>f \<in> set fields. \<exists>s. f = KStr s"
  shows "dec_rows (map key_str fields) (length xs) (map (\<lambda>row. (i, row_text frepr fields row)) xs @ rest)
     = Inr (map (row_dict fields) xs, rest)"
  using assms by (induction xs) (auto simp: dec_row_text)

subsection \<open>Lines the encoder emits\<close>

text \<open>The next line, if any, closes every block deeper than \<open>ind\<close> and the members at \<open>ind\<close>.\<close>

definition stops :: "nat \<Rightarrow> line list \<Rightarrow> bool" where
  "stops ind rest \<longleftrightarrow> (case rest of [] \<Rightarrow> True | l # _ \<Rightarrow> is_item (snd l) \<or> fst l < ind)"

lemma stops_mono: "stops ind rest \<Longrightarrow> ind \<le> ind' \<Longrightarrow> stops ind' rest"
  by (auto simp: stops_def split: list.splits)

lemma stops_no_members: "stops ind rest \<Longrightarrow> \<not> members_follow ind rest"
  by (auto simp: stops_def members_follow_def split: list.splits)

lemma emit_array_head:
  "\<exists>h body. emit_array frepr ind p xs = (ind, p @ CHR ''['' # h) # body"
  by (subst emit_array.simps) (auto simp: header_def split: option.splits)

lemma emit_members_head:
  "d \<noteq> [] \<Longrightarrow> \<exists>t ls. emit_members frepr ind d = (ind, t) # ls \<and> \<not> is_item t"
proof (cases d)
  case (Cons kv d')
  obtain k v where kv: "kv = (k, v)" by fastforce
  obtain h body where a: "\<And>xs. \<exists>h body. emit_array frepr ind (enc_key k) xs = (ind, enc_key k @ CHR ''['' # h) # body"
    using emit_array_head by blast
  show ?thesis
  proof (cases v)
    case (VList xs)
    from a[of xs] obtain h body where
      "emit_array frepr ind (enc_key k) xs = (ind, enc_key k @ CHR ''['' # h) # body" by blast
    then show ?thesis using Cons kv VList member_not_item by simp
  qed (use Cons kv member_not_item in simp_all)
qed simp

lemma emit_items_head:
  "xs \<noteq> [] \<Longrightarrow> \<exists>t ls. emit_items frepr ind xs = (ind, t) # ls \<and> is_item t"
proof (cases xs)
  case (Cons x xs')
  show ?thesis
  proof (cases x)
    case (VList ys)
    from emit_array_head[of frepr ind "''- ''" ys] obtain h body where
      "emit_array frepr ind ''- '' ys = (ind, ''- '' @ CHR ''['' # h) # body" by blast
    then show ?thesis using Cons VList by simp
  qed (use Cons in simp_all)
qed simp

lemma emit_members_prim:
  "is_primitive v \<Longrightarrow> emit_members frepr ind ((k, v) # d)
     = (ind, enc_key k @ '': '' @ enc_scalar frepr v) # emit_members frepr ind d"
  by (cases v) auto

lemma emit_items_prim:
  "is_primitive x \<Longrightarrow> emit_items frepr ind (x # xs)
     = (ind, ''- '' @ enc_scalar frepr x) # emit_items frepr ind xs"
  by (cases x) auto

lemma pyval_shapes:
  obtains (dict) d where "v = VDict d" | (list) xs where "v = VList xs" | (prim) "is_primitive v"
  by (cases v) auto

lemma stops_members: "stops ind rest \<Longrightarrow> stops (ind + 1) (emit_members frepr ind d @ rest)"
  using emit_members_head[of d frepr ind] stops_mono[of ind rest "ind + 1"]
  by (cases "d = []") (auto simp: stops_def)

lemma stops_items: "stops ind rest \<Longrightarrow> stops (ind + k) (emit_items frepr ind xs @ rest)"
  using emit_items_head[of xs frepr ind] stops_mono[of ind rest "ind + k"]
  by (cases "xs = []") (auto simp: stops_def)

subsection \<open>Emitted texts are clean\<close>

lemma header_clean: "p = [] \<or> \<not> is_space (hd p) \<and> CHR 0x0A \<notin> set p \<Longrightarrow>
    s = [] \<or> (\<not> is_space (last s) \<and> CHR 0x0A \<notin> set s) \<Longrightarrow> clean (header p n @ s)"
proof -
  assume p: "p = [] \<or> \<not> is_space (hd p) \<and> CHR 0x0A \<notin> set p"
    and s: "s = [] \<or> (\<not> is_space (last s) \<and> CHR 0x0A \<notin> set s)"
  have d: "CHR 0x0A \<notin> set (show_nat n)"
    using show_nat_digits[of n] by (auto simp: list_all_iff is_digit_char_def)
  have "\<not> is_space (CHR ''['')" "\<not> is_space (CHR '']'')" by (simp_all add: is_space_def)
  with p s d show ?thesis by (cases p) (auto simp: clean_def header_def)
qed

lemma join_plain_keys:
  assumes "\<forall>f \<in> set fields. \<not> key_needs_quote (key_str f)" and "fields \<noteq> []"
  shows "clean (join [comma] (map key_str fields))" and "CHR ''}'' \<notin> set (join [comma] (map key_str fields))"
    and "split_top (join [comma] (map key_str fields)) = map key_str fields"
proof -
  have p: "\<And>f. f \<in> set fields \<Longrightarrow> clean (key_str f) \<and> CHR 0x22 \<notin> set (key_str f) \<and> comma \<notin> set (key_str f)
      \<and> CHR ''}'' \<notin> set (key_str f)"
    using assms(1) plain_key by blast
  show "clean (join [comma] (map key_str fields))"
    using p assms(2) by (intro join_clean) (auto simp: list_all_iff)
  show "split_top (join [comma] (map key_str fields)) = map key_str fields"
    using p assms(2) by (intro split_top_join) (auto simp: list_all_iff atom_def)
  have "CHR ''}'' \<notin> set (join [comma] ts)" if "\<forall>t \<in> set ts. CHR ''}'' \<notin> set t" for ts
    using that by (induction "[comma]" ts rule: join.induct) (auto simp: comma_def)
  then show "CHR ''}'' \<notin> set (join [comma] (map key_str fields))" using p by auto
qed

lemma show_nat_0: "show_nat 0 = ''0''" by code_simp

text \<open>The prefix of an array header: nothing, a key, or a dash.\<close>

definition prefix_ok :: "string \<Rightarrow> bool" where
  "prefix_ok p \<longleftrightarrow> p = [] \<or> \<not> is_space (hd p) \<and> CHR 0x0A \<notin> set p"

lemma prefix_ok_key [simp]: "prefix_ok (enc_key k)"
  using enc_key_clean[of k] by (simp add: prefix_ok_def clean_def)

lemma prefix_ok_dash [simp]: "prefix_ok ''- ''" "prefix_ok []"
  by (simp_all add: prefix_ok_def is_space_def)

lemma clean_key_colon: "clean (enc_key k @ '':'')" "clean t \<Longrightarrow> clean (enc_key k @ '': '' @ t)"
  using enc_key_clean[of k] by (auto simp: clean_def is_space_def)

lemma clean_dash: "clean ''-''" "clean t \<Longrightarrow> clean (''- '' @ t)"
  by (auto simp: clean_def is_space_def)

lemma emitted_clean:
  "json_ok frepr (VDict d) \<Longrightarrow> \<forall>l \<in> set (emit_members frepr ind d). clean (snd l)"
  "json_ok frepr (VList xs) \<Longrightarrow> prefix_ok p \<Longrightarrow> \<forall>l \<in> set (emit_array frepr ind p xs). clean (snd l)"
  "json_ok frepr (VList xs) \<Longrightarrow> \<forall>l \<in> set (emit_items frepr ind xs). clean (snd l)"
proof (induction frepr ind d and frepr ind p xs and frepr ind xs
    rule: emit_members_emit_array_emit_items.induct)
  case (1 frepr ind)
  then show ?case by simp
next
  case (2 frepr ind k v d)
  have rest: "\<forall>l \<in> set (emit_members frepr ind d). clean (snd l)" using 2 by simp
  have v: "json_ok frepr v" using 2 by simp
  show ?case
  proof (cases v rule: pyval_shapes)
    case (dict e)
    then show ?thesis using 2 rest v clean_key_colon(1) by auto
  next
    case (list ys)
    then show ?thesis using 2 rest v by auto
  next
    case prim
    then have "clean (enc_scalar frepr v)" using v by (simp add: json_ok_scalar enc_scalar_atom atom_clean)
    then show ?thesis using rest clean_key_colon(2) unfolding emit_members_prim[OF prim] by simp
  qed
next
  case (3 frepr ind p xs)
  have sp: "\<not> is_space (CHR '':'')" by (simp add: is_space_def)
  show ?case
  proof (cases "xs = []")
    case True
    have "clean (header p 0 @ '':'')" by (rule header_clean) (use "3.prems"(2) sp in \<open>auto simp: prefix_ok_def\<close>)
    moreover have "header p 0 @ '':'' = p @ ''[0]:''" by (simp add: header_def show_nat_0)
    ultimately show ?thesis using True by (simp add: emit_array.simps)
  next
    case ne: False
    show ?thesis
    proof (cases "list_all is_primitive xs")
      case True
      have j: "clean (join [comma] (map (enc_scalar frepr) xs))"
        using True "3.prems"(1) ne by (intro join_clean)
          (auto simp: list_all_iff json_ok_scalar intro!: atom_clean enc_scalar_atom)
      have "clean (header p (length xs) @ '': '' @ join [comma] (map (enc_scalar frepr) xs))"
        by (rule header_clean) (use "3.prems"(2) j in \<open>auto simp: prefix_ok_def clean_def\<close>)
      then show ?thesis using True ne by (simp add: emit_array.simps)
    next
      case np: False
      show ?thesis
      proof (cases "tabular_fields xs")
        case None
        have "clean (header p (length xs) @ '':'')"
          by (rule header_clean) (use "3.prems"(2) sp in \<open>auto simp: prefix_ok_def\<close>)
        with None ne np "3.IH"[OF ne np None "3.prems"(1)] show ?thesis by (simp add: emit_array.simps)
      next
        case (Some fields)
        have ok: "\<forall>x \<in> set xs. json_ok frepr x" using "3.prems"(1) by simp
        note t = tabular_fields_Some[OF Some ne ok]
        have "\<forall>f \<in> set fields. \<not> key_needs_quote (key_str f)" using t(3) by auto
        note jk = join_plain_keys[OF this t(1)]
        have "clean (header p (length xs) @ ''{'' @ join [comma] (map key_str fields) @ ''}:'')"
          by (rule header_clean) (use "3.prems"(2) jk(1) sp in \<open>auto simp: prefix_ok_def clean_def\<close>)
        moreover have "\<forall>x \<in> set xs. clean (row_text frepr fields x)"
          using t(4) row_text_clean[OF _ t(1)] by blast
        ultimately show ?thesis using Some ne np by (simp add: emit_array.simps)
      qed
    qed
  qed
next
  case (4 frepr ind)
  then show ?case by simp
next
  case (5 frepr ind x xs)
  have rest: "\<forall>l \<in> set (emit_items frepr ind xs). clean (snd l)" using 5 by simp
  have x: "json_ok frepr x" using 5 by simp
  show ?case
  proof (cases x rule: pyval_shapes)
    case (dict e)
    then show ?thesis using 5 rest x clean_dash(1) by auto
  next
    case (list ys)
    then show ?thesis using 5 rest x prefix_ok_dash(1) by auto
  next
    case prim
    then have "clean (enc_scalar frepr x)" using x by (simp add: json_ok_scalar enc_scalar_atom atom_clean)
    then show ?thesis using rest clean_dash(2) unfolding emit_items_prim[OF prim] by simp
  qed
qed

subsection \<open>Reading the emitted lines\<close>

lemma parse_members_step:
  assumes "\<not> is_item t" and "parse_member t = Inr (key, mr)"
    and "(case mr of
            MArray n flds inl \<Rightarrow> parse_array_body f ind n flds inl rest
          | MInline s \<Rightarrow> ebind (dec_scalar s) (\<lambda>v. Inr (v, rest))
          | MNested \<Rightarrow>
              if members_follow (ind + 1) rest
              then (case parse_members f (ind + 1) [] rest of
                      Inl e \<Rightarrow> Inl e | Inr (d, rest') \<Rightarrow> Inr (VDict d, rest'))
              else Inr (VDict [], rest)) = Inr (v, rest')"
  shows "parse_members (Suc f) ind out ((ind, t) # rest)
     = parse_members f ind (AList.update (KStr key) v out) rest'"
  using assms by (simp add: parse_members.simps(2))

lemma parse_members_stop: "stops ind rest \<Longrightarrow> parse_members (Suc f) ind out rest = Inr (out, rest)"
  by (auto simp: parse_members.simps(2) stops_def split: list.splits)

lemma parse_member_enc:
  "parse_member (enc_key k @ '':'') = Inr (key_str k, MNested)"
  "clean t \<Longrightarrow> parse_member (enc_key k @ '': '' @ t) = Inr (key_str k, MInline t)"
  "parse_array_header (CHR ''['' # h) = Inr (n, flds, inl) \<Longrightarrow>
     parse_member (enc_key k @ CHR ''['' # h) = Inr (key_str k, MArray n flds inl)"
  by (simp_all add: parse_member_key lstrip_blank_clean strip_blank_clean)

text \<open>The body of an array after its header line, whatever stands before the header.\<close>

definition array_reads ::
  "(pyfloat \<Rightarrow> string) \<Rightarrow> nat \<Rightarrow> nat \<Rightarrow> string \<Rightarrow> pyval list \<Rightarrow> line list \<Rightarrow> bool" where
  "array_reads frepr f ind p xs rest \<longleftrightarrow>
     (\<exists>h body n flds inl. emit_array frepr ind p xs = (ind, p @ CHR ''['' # h) # body
        \<and> match_header (CHR ''['' # h) \<noteq> None
        \<and> parse_array_header (CHR ''['' # h) = Inr (n, flds, inl)
        \<and> parse_array_body f ind n flds inl (body @ rest) = Inr (norm (VList xs), rest))"

lemma parse_array_header_eq:
  "match_header t = Some (n, flds, raw) \<Longrightarrow> parse_array_header t =
     Inr (n, map_option split_top flds, if strip raw = [] then None else Some (lstrip_blank raw))"
  by (simp add: parse_array_header_def)

lemma array_reads_empty: "array_reads frepr f ind p [] rest"
proof -
  have m: "match_header (CHR ''['' # ''0]:'') = Some (0, None, [])"
    using match_header_plain[of 0 "[]"] by (simp add: show_nat_0)
  have "emit_array frepr ind p [] = (ind, p @ CHR ''['' # ''0]:'') # []" by (simp add: emit_array.simps)
  moreover have "parse_array_header (CHR ''['' # ''0]:'') = Inr (0, None, None)"
    using parse_array_header_eq[OF m] by simp
  moreover have "parse_array_body f ind 0 None None ([] @ rest) = Inr (norm (VList []), rest)"
    by (simp add: parse_array_body.simps)
  ultimately show ?thesis unfolding array_reads_def using m by blast
qed

lemma traverse_dec_scalars:
  "\<forall>x \<in> set xs. scalar_ok frepr x \<Longrightarrow> traverse dec_scalar (map (enc_scalar frepr) xs) = Inr xs"
  by (induction xs) (simp_all add: dec_enc_scalar)

lemma norm_primitives:
  assumes "list_all is_primitive xs"
  shows "norm (VList xs) = VList xs"
proof (cases xs)
  case (Cons x ys)
  then have "tabular_fields xs = None" using assms by (cases x) (simp_all add: tabular_fields_def)
  moreover have "map norm xs = xs" using assms by (intro map_idI) (simp add: list_all_iff)
  ultimately show ?thesis using Cons by simp
qed simp

lemma array_reads_inline:
  assumes "xs \<noteq> []" and "list_all is_primitive xs" and "json_ok frepr (VList xs)"
  shows "array_reads frepr f ind p xs rest"
proof -
  let ?j = "join [comma] (map (enc_scalar frepr) xs)"
  have sc: "\<forall>x \<in> set xs. scalar_ok frepr x"
    using assms(2,3) by (auto simp: list_all_iff json_ok_scalar)
  then have at: "list_all atom (map (enc_scalar frepr) xs)" by (simp add: list_all_iff enc_scalar_atom)
  then have cl: "clean ?j" using assms(1) by (intro join_clean) (auto simp: list_all_iff atom_clean)
  let ?h = "show_nat (length xs) @ CHR '']'' # CHR '':'' # CHR '' '' # ?j"
  have m: "match_header (CHR ''['' # ?h) = Some (length xs, None, CHR '' '' # ?j)"
    using match_header_plain[of "length xs" "CHR '' '' # ?j"] by simp
  have "emit_array frepr ind p xs = (ind, p @ CHR ''['' # ?h) # []"
    using assms(1,2) by (simp add: emit_array.simps header_def)
  moreover have "parse_array_header (CHR ''['' # ?h) = Inr (length xs, None, Some ?j)"
    using parse_array_header_eq[OF m] cl by (simp add: strip_blank_clean lstrip_blank_clean)
  moreover have "split_top ?j = map (enc_scalar frepr) xs"
    using at assms(1) by (intro split_top_join) auto
  then have "parse_array_body f ind (length xs) None (Some ?j) ([] @ rest) = Inr (norm (VList xs), rest)"
    using sc norm_primitives[OF assms(2)] by (simp add: parse_array_body.simps traverse_dec_scalars)
  ultimately show ?thesis unfolding array_reads_def using m by blast
qed

lemma array_reads_table:
  assumes "xs \<noteq> []" and "tabular_fields xs = Some fields" and "json_ok frepr (VList xs)"
  shows "array_reads frepr f ind p xs rest"
proof -
  have ok: "\<forall>x \<in> set xs. json_ok frepr x" using assms(3) by simp
  note t = tabular_fields_Some[OF assms(2,1) ok]
  let ?j = "join [comma] (map key_str fields)"
  have "\<forall>k \<in> set fields. \<not> key_needs_quote (key_str k)" using t(3) by auto
  note jk = join_plain_keys[OF this t(1)]
  let ?h = "show_nat (length xs) @ CHR '']'' # CHR ''{'' # ?j @ CHR ''}'' # CHR '':'' # []"
  let ?body = "map (\<lambda>row. (ind + 1, row_text frepr fields row)) xs"
  have m: "match_header (CHR ''['' # ?h) = Some (length xs, Some ?j, [])"
    by (rule match_header_fields[OF jk(2)])
  have "emit_array frepr ind p xs = (ind, p @ CHR ''['' # ?h) # ?body"
    using assms(1,2) t(5) by (simp add: emit_array.simps header_def)
  moreover have "parse_array_header (CHR ''['' # ?h) = Inr (length xs, Some (map key_str fields), None)"
    using parse_array_header_eq[OF m] jk(3) by simp
  moreover have "\<forall>k \<in> set fields. \<exists>s. k = KStr s" using t(3) by blast
  from dec_rows_text[OF t(4,1,2) this] have
    "parse_array_body f ind (length xs) (Some (map key_str fields)) None (?body @ rest) = Inr (norm (VList xs), rest)"
    using assms(1,2) by (simp add: parse_array_body.simps)
  ultimately show ?thesis unfolding array_reads_def using m by blast
qed

lemma array_reads_items:
  assumes "xs \<noteq> []" and "\<not> list_all is_primitive xs" and "tabular_fields xs = None"
    and "parse_items f (ind + 1) (length xs) (emit_items frepr (ind + 1) xs @ rest) = Inr (map norm xs, rest)"
  shows "array_reads frepr f ind p xs rest"
proof -
  let ?h = "show_nat (length xs) @ CHR '']'' # CHR '':'' # []"
  have m: "match_header (CHR ''['' # ?h) = Some (length xs, None, [])"
    using match_header_plain[of "length xs" "[]"] by simp
  have "emit_array frepr ind p xs = (ind, p @ CHR ''['' # ?h) # emit_items frepr (ind + 1) xs"
    using assms(1-3) by (simp add: emit_array.simps header_def)
  moreover have "parse_array_header (CHR ''['' # ?h) = Inr (length xs, None, None)"
    using parse_array_header_eq[OF m] by simp
  moreover have "parse_array_body f ind (length xs) None None (emit_items frepr (ind + 1) xs @ rest)
      = Inr (norm (VList xs), rest)"
    using assms by (simp add: parse_array_body.simps)
  ultimately show ?thesis unfolding array_reads_def using m by blast
qed

text \<open>One item, by the kind of its value.\<close>

lemma parse_item_scalar:
  assumes "scalar_ok frepr x"
  shows "parse_item (Suc f) ind ((i, ''- '' @ enc_scalar frepr x) # rest) = Inr (x, rest)"
proof -
  have "enc_scalar frepr x \<noteq> []" using enc_scalar_atom[OF assms] by (simp add: atom_def clean_def)
  then have "''- '' @ enc_scalar frepr x \<noteq> ''-''" by simp
  moreover have "match_header (enc_scalar frepr x) = None"
    using hd_enc_scalar[OF assms] by (rule match_header_none)
  ultimately show ?thesis using dec_enc_scalar[OF assms] by (simp add: parse_item.simps(2))
qed

lemma parse_item_array:
  assumes "array_reads frepr f ind ''- '' xs rest"
  shows "parse_item (Suc f) ind (emit_array frepr ind ''- '' xs @ rest) = Inr (norm (VList xs), rest)"
proof -
  from assms obtain h body n flds inl where
    e: "emit_array frepr ind ''- '' xs = (ind, ''- '' @ CHR ''['' # h) # body"
    and m: "match_header (CHR ''['' # h) \<noteq> None"
    and p: "parse_array_header (CHR ''['' # h) = Inr (n, flds, inl)"
    and b: "parse_array_body f ind n flds inl (body @ rest) = Inr (norm (VList xs), rest)"
    unfolding array_reads_def by blast
  obtain y where y: "match_header (CHR ''['' # h) = Some y" using m by blast
  have d: "drop 2 (''- '' @ CHR ''['' # h) = CHR ''['' # h" by simp
  show ?thesis unfolding e using y p b by (simp add: parse_item.simps(2))
qed

lemma parse_item_dict:
  assumes "stops ind rest"
    and "e \<noteq> [] \<Longrightarrow> parse_members f (ind + 1) [] (emit_members frepr (ind + 1) e @ rest)
           = Inr (map (\<lambda>kv. (fst kv, norm (snd kv))) e, rest)"
  shows "parse_item (Suc f) ind ((i, ''-'') # emit_members frepr (ind + 1) e @ rest) = Inr (norm (VDict e), rest)"
proof (cases "e = []")
  case True
  have "\<not> members_follow (ind + 1) rest"
    using assms(1) stops_mono[of ind rest "ind + 1"] stops_no_members by simp
  with True show ?thesis by (simp add: parse_item.simps(2))
next
  case False
  then have "members_follow (ind + 1) (emit_members frepr (ind + 1) e @ rest)"
    using emit_members_head[of e frepr "ind + 1"] by (auto simp: members_follow_def)
  with assms(2)[OF False] show ?thesis by (simp add: parse_item.simps(2))
qed

lemma update_new: "k \<notin> fst ` set d \<Longrightarrow> AList.update k v d = d @ [(k, v)]"
  by (rule update_fresh)

lemma emitted_reads:
  "json_ok frepr (VDict d) \<Longrightarrow> stops ind rest \<Longrightarrow> length (emit_members frepr ind d) < f \<Longrightarrow>
     fst ` set out \<inter> fst ` set d = {} \<Longrightarrow>
     parse_members f ind out (emit_members frepr ind d @ rest)
       = Inr (out @ map (\<lambda>kv. (fst kv, norm (snd kv))) d, rest)"
  "json_ok frepr (VList xs) \<Longrightarrow> stops (ind + 1) rest \<Longrightarrow> length (emit_array frepr ind p xs) \<le> f \<Longrightarrow>
     array_reads frepr f ind p xs rest"
  "json_ok frepr (VList xs) \<Longrightarrow> stops ind rest \<Longrightarrow> length (emit_items frepr ind xs) < f \<Longrightarrow>
     parse_items f ind (length xs) (emit_items frepr ind xs @ rest) = Inr (map norm xs, rest)"
proof (induction frepr ind d and frepr ind p xs and frepr ind xs
    arbitrary: f out rest and f rest and f rest rule: emit_members_emit_array_emit_items.induct)
  case (1 frepr ind)
  then show ?case by (cases f) (simp_all add: parse_members_stop)
next
  case (2 frepr ind k v d)
  have ok: "json_ok frepr (VDict d)" "json_ok frepr v" and kd: "k \<notin> fst ` set d"
    and k: "\<exists>s. k = KStr s" using "2.prems"(1) by auto
  then have kk: "KStr (key_str k) = k" by auto
  obtain f' where f: "f = Suc f'" using "2.prems"(3) by (cases f) auto
  let ?rest = "emit_members frepr ind d @ rest"
  have sr: "stops (ind + 1) ?rest" by (rule stops_members[OF "2.prems"(2)])
  have tail: "length (emit_members frepr ind d) < f' \<Longrightarrow>
      parse_members f' ind (AList.update k w out) ?rest
        = Inr (out @ (k, w) # map (\<lambda>kv. (fst kv, norm (snd kv))) d, rest)" for w
    using "2.IH"(3)[of rest f' "out @ [(k, w)]"] ok(1) "2.prems"(2,4) kd by (auto simp: update_new)
  show ?case
  proof (cases v rule: pyval_shapes)
    case (dict e)
    have len: "length (emit_members frepr (ind + 1) e) + length (emit_members frepr ind d) < f'"
      using "2.prems"(3) f dict by simp
    have nested: "parse_members f' (ind + 1) [] (emit_members frepr (ind + 1) e @ ?rest)
        = Inr (map (\<lambda>kv. (fst kv, norm (snd kv))) e, ?rest)"
      using "2.IH"(2)[OF dict, of ?rest f' "[]"] ok(2) dict sr len by simp
    let ?body = "emit_members frepr (ind + 1) e @ ?rest"
    have follow: "(case MNested of
            MArray n flds inl \<Rightarrow> parse_array_body f' ind n flds inl ?body
          | MInline s \<Rightarrow> ebind (dec_scalar s) (\<lambda>v. Inr (v, ?body))
          | MNested \<Rightarrow>
              if members_follow (ind + 1) ?body
              then (case parse_members f' (ind + 1) [] ?body of
                      Inl e \<Rightarrow> Inl e | Inr (d, rest') \<Rightarrow> Inr (VDict d, rest'))
              else Inr (VDict [], ?body)) = Inr (norm v, ?rest)"
    proof (cases "e = []")
      case True
      then show ?thesis using stops_no_members[OF sr] dict by simp
    next
      case False
      then have "members_follow (ind + 1) ?body"
        using emit_members_head[of e frepr "ind + 1"] by (auto simp: members_follow_def)
      then show ?thesis using nested dict by simp
    qed
    have "parse_members (Suc f') ind out ((ind, enc_key k @ '':'') # ?body)
        = parse_members f' ind (AList.update (KStr (key_str k)) (norm v) out) ?rest"
      by (rule parse_members_step[OF member_not_item parse_member_enc(1) follow])
    then have "parse_members (Suc f') ind out ((ind, enc_key k @ '':'') # ?body)
        = parse_members f' ind (AList.update k (norm v) out) ?rest"
      by (simp only: kk)
    then show ?thesis using tail[of "norm v"] len f dict by simp
  next
    case (list xs)
    have len: "length (emit_array frepr ind (enc_key k) xs) + length (emit_members frepr ind d) < f"
      using "2.prems"(3) list by simp
    have "array_reads frepr f' ind (enc_key k) xs ?rest"
      using "2.IH"(1)[OF list, of ?rest f'] ok(2) list sr len f by simp
    then obtain h body n flds inl where
      e: "emit_array frepr ind (enc_key k) xs = (ind, enc_key k @ CHR ''['' # h) # body"
      and p: "parse_array_header (CHR ''['' # h) = Inr (n, flds, inl)"
      and b: "parse_array_body f' ind n flds inl (body @ ?rest) = Inr (norm (VList xs), ?rest)"
      unfolding array_reads_def by blast
    have "parse_members (Suc f') ind out ((ind, enc_key k @ CHR ''['' # h) # body @ ?rest)
        = parse_members f' ind (AList.update (KStr (key_str k)) (norm v) out) ?rest"
      by (rule parse_members_step[OF member_not_item parse_member_enc(3)[OF p]]) (simp add: b list)
    then show ?thesis using tail[of "norm v"] len f list e kk by simp
  next
    case prim
    have sc: "scalar_ok frepr v" using ok(2) prim by (simp add: json_ok_scalar)
    then have cl: "clean (enc_scalar frepr v)" by (simp add: enc_scalar_atom atom_clean)
    have "parse_members (Suc f') ind out ((ind, enc_key k @ '': '' @ enc_scalar frepr v) # ?rest)
        = parse_members f' ind (AList.update (KStr (key_str k)) v out) ?rest"
      by (rule parse_members_step[OF member_not_item parse_member_enc(2)[OF cl]]) (simp add: dec_enc_scalar[OF sc])
    moreover have "length (emit_members frepr ind d) < f'"
      using "2.prems"(3) f unfolding emit_members_prim[OF prim] by simp
    ultimately show ?thesis using tail[of v] f kk prim unfolding emit_members_prim[OF prim] by simp
  qed
next
  case (3 frepr ind p xs)
  show ?case
  proof (cases "xs = []")
    case True
    then show ?thesis by (simp add: array_reads_empty)
  next
    case ne: False
    show ?thesis
    proof (cases "list_all is_primitive xs")
      case True
      with ne "3.prems"(1) show ?thesis by (intro array_reads_inline)
    next
      case np: False
      show ?thesis
      proof (cases "tabular_fields xs")
        case (Some fields)
        with ne "3.prems"(1) show ?thesis by (intro array_reads_table)
      next
        case None
        have "length (emit_items frepr (ind + 1) xs) < f"
          using "3.prems"(3) ne np None by (simp add: emit_array.simps)
        with "3.IH"[OF ne np None "3.prems"(1,2)] ne np None show ?thesis by (intro array_reads_items)
      qed
    qed
  qed
next
  case (4 frepr ind)
  then show ?case by simp
next
  case (5 frepr ind x xs)
  have ok: "json_ok frepr (VList xs)" "json_ok frepr x" using "5.prems"(1) by auto
  let ?rest = "emit_items frepr ind xs @ rest"
  have sr: "stops ind ?rest" "stops (ind + 1) ?rest"
    using stops_items[OF "5.prems"(2), of 0] stops_items[OF "5.prems"(2), of 1] by simp_all
  obtain f' where f: "f = Suc f'" using "5.prems"(3) by (cases f) auto
  have tail: "length (emit_items frepr ind xs) < f \<Longrightarrow>
      parse_items f ind (length xs) ?rest = Inr (map norm xs, rest)"
    using "5.IH"(3)[of rest f] ok(1) "5.prems"(2) by simp
  show ?case
  proof (cases x rule: pyval_shapes)
    case (dict e)
    have len: "length (emit_members frepr (ind + 1) e) + length (emit_items frepr ind xs) < f'"
      using "5.prems"(3) f dict by simp
    have "parse_members f' (ind + 1) [] (emit_members frepr (ind + 1) e @ ?rest)
        = Inr (map (\<lambda>kv. (fst kv, norm (snd kv))) e, ?rest)"
      using "5.IH"(2)[OF dict, of ?rest f' "[]"] ok(2) dict sr len by simp
    from parse_item_dict[OF sr(1) this] tail len f dict show ?thesis by simp
  next
    case (list ys)
    have len: "length (emit_array frepr ind ''- '' ys) + length (emit_items frepr ind xs) < f"
      using "5.prems"(3) list by simp
    have "array_reads frepr f' ind ''- '' ys ?rest"
      using "5.IH"(1)[OF list, of ?rest f'] ok(2) list sr len f by simp
    from parse_item_array[OF this] tail len f list show ?thesis by simp
  next
    case prim
    then have sc: "scalar_ok frepr x" using ok(2) by (simp add: json_ok_scalar)
    have "length (emit_items frepr ind xs) < f" using "5.prems"(3) unfolding emit_items_prim[OF prim] by simp
    with parse_item_scalar[OF sc, of f' ind ind ?rest] tail f prim show ?thesis
      unfolding emit_items_prim[OF prim] by simp
  qed
qed

subsection \<open>The same value\<close>

text \<open>Equal up to the order of dictionary entries, at every depth.\<close>

inductive same_json :: "pyval \<Rightarrow> pyval \<Rightarrow> bool" where
  same_primitive: "is_primitive v \<Longrightarrow> same_json v v"
| same_list: "list_all2 same_json xs ys \<Longrightarrow> same_json (VList xs) (VList ys)"
| same_dict: "distinct (map fst d) \<Longrightarrow> distinct (map fst e) \<Longrightarrow> fst ` set d = fst ` set e \<Longrightarrow>
    (\<forall>k \<in> fst ` set d. same_json (the (map_of d k)) (the (map_of e k))) \<Longrightarrow> same_json (VDict d) (VDict e)"
  monos list_all2_mono

lemma map_of_values: "map_of (map (\<lambda>kv. (fst kv, f (snd kv))) d) k = map_option f (map_of d k)"
  by (induction d) auto

lemma map_of_columns: "k \<in> set fields \<Longrightarrow> map_of (map (\<lambda>f. (f, g f)) fields) k = Some (g k)"
  by (induction fields) auto

lemma same_row:
  assumes "table_of frepr fields x" and "distinct fields" and "json_ok frepr x"
  shows "same_json x (row_dict fields x)"
proof -
  from assms(1) obtain d where d: "x = VDict d" "fst ` set d = set fields"
    "\<forall>f \<in> set fields. scalar_ok frepr (the (map_of d f))" by (auto simp: table_of_def)
  have "same_json (VDict d) (VDict (map (\<lambda>f. (f, the (map_of d f))) fields))"
  proof (rule same_dict)
    show "distinct (map fst d)" using assms(3) d(1) by simp
    show "distinct (map fst (map (\<lambda>f. (f, the (map_of d f))) fields))" using assms(2) by (simp add: comp_def)
    show "fst ` set d = fst ` set (map (\<lambda>f. (f, the (map_of d f))) fields)" using d(2) by (auto simp: image_image)
    show "\<forall>k \<in> fst ` set d. same_json (the (map_of d k)) (the (map_of (map (\<lambda>f. (f, the (map_of d f))) fields) k))"
      using d(2,3) by (auto simp: map_of_columns scalar_ok_def intro: same_primitive)
  qed
  then show ?thesis by (simp add: d(1) row_dict_def)
qed

lemma same_norm: "json_ok frepr v \<Longrightarrow> same_json v (norm v)"
proof (induction v rule: norm.induct)
  case (1 d)
  have "same_json (VDict d) (VDict (map (\<lambda>kv. (fst kv, norm (snd kv))) d))"
  proof (rule same_dict)
    show "distinct (map fst d)" "distinct (map fst (map (\<lambda>kv. (fst kv, norm (snd kv))) d))"
      using 1(2) by (simp_all add: comp_def)
    show "fst ` set d = fst ` set (map (\<lambda>kv. (fst kv, norm (snd kv))) d)" by (simp add: image_image)
    show "\<forall>k \<in> fst ` set d. same_json (the (map_of d k)) (the (map_of (map (\<lambda>kv. (fst kv, norm (snd kv))) d) k))"
    proof
      fix k assume "k \<in> fst ` set d"
      then obtain v where v: "map_of d k = Some v" by (metis map_of_eq_None_iff not_None_eq)
      then have "(k, v) \<in> set d" by (rule map_of_SomeD)
      with 1 have "same_json v (norm v)" by fastforce
      with v show "same_json (the (map_of d k)) (the (map_of (map (\<lambda>kv. (fst kv, norm (snd kv))) d) k))"
        by (simp add: map_of_values)
    qed
  qed
  then show ?case by simp
next
  case (2 xs)
  show ?case
  proof (cases "xs = []")
    case True
    then show ?thesis by (simp add: same_list)
  next
    case ne: False
    show ?thesis
    proof (cases "tabular_fields xs")
      case None
      have "list_all2 same_json xs (map norm xs)"
        using 2(1)[OF ne None] 2(2) by (auto simp: list_all2_map2 intro!: list.rel_refl_strong)
      with ne None show ?thesis by (simp add: same_list)
    next
      case (Some fields)
      have ok: "\<forall>x \<in> set xs. json_ok frepr x" using 2(2) by simp
      note t = tabular_fields_Some[OF Some ne ok]
      have "list_all2 same_json xs (map (row_dict fields) xs)"
        using same_row t(2,4) ok by (auto simp: list_all2_map2 intro!: list.rel_refl_strong)
      with ne Some show ?thesis by (simp add: same_list)
    qed
  qed
qed (auto intro: same_primitive)

subsection \<open>Decoding what was encoded\<close>

lemma emit_members_key:
  "d \<noteq> [] \<Longrightarrow> \<exists>k r ls. emit_members frepr ind d = (ind, enc_key k @ r) # ls"
proof (cases d)
  case (Cons kv d')
  obtain k v where kv: "kv = (k, v)" by fastforce
  show ?thesis
  proof (cases v rule: pyval_shapes)
    case (dict e)
    then show ?thesis using Cons kv by auto
  next
    case (list xs)
    from emit_array_head[of frepr ind "enc_key k" xs] obtain h body where
      "emit_array frepr ind (enc_key k) xs = (ind, enc_key k @ CHR ''['' # h) # body" by blast
    then show ?thesis using Cons kv list by auto
  next
    case prim
    show ?thesis unfolding Cons kv emit_members_prim[OF prim] by blast
  qed
qed simp

lemma decode_encode_dict:
  assumes "json_ok frepr (VDict d)"
  shows "decode (join [CHR 0x0A] (map render_line (emit_members frepr 0 d))) = Inr (norm (VDict d))"
proof -
  let ?ls = "emit_members frepr 0 d"
  have s: "scan_lines (join [CHR 0x0A] (map render_line ?ls)) = ?ls"
    by (rule scan_render[OF emitted_clean(1)[OF assms]])
  show ?thesis
  proof (cases "d = []")
    case True
    with s have "scan_lines [] = []" by simp
    with True show ?thesis by (simp add: decode_def decode_lines_def)
  next
    case False
    obtain k r ls where l: "?ls = (0, enc_key k @ r) # ls" using emit_members_key[OF False] by blast
    have "enc_key k \<noteq> []" using enc_key_clean[of k] by (simp add: clean_def)
    then have "match_header (enc_key k @ r) = None"
      using hd_enc_key[of k] by (intro match_header_none) simp
    moreover have "parse_members (length ?ls + 1) 0 [] ?ls
        = Inr (map (\<lambda>kv. (fst kv, norm (snd kv))) d, [])"
      using emitted_reads(1)[OF assms, of 0 "[]" "length ?ls + 1" "[]"] by (simp add: stops_def)
    ultimately show ?thesis unfolding decode_def s by (simp add: decode_lines_def l)
  qed
qed

lemma decode_encode_list:
  assumes "json_ok frepr (VList xs)"
  shows "decode (join [CHR 0x0A] (map render_line (emit_array frepr 0 [] xs))) = Inr (norm (VList xs))"
proof -
  let ?ls = "emit_array frepr 0 [] xs"
  have s: "scan_lines (join [CHR 0x0A] (map render_line ?ls)) = ?ls"
    by (rule scan_render[OF emitted_clean(2)[OF assms prefix_ok_dash(2)]])
  have "array_reads frepr (length ?ls + 1) 0 [] xs []"
    by (rule emitted_reads(2)[OF assms]) (simp_all add: stops_def)
  then obtain h body n flds inl where
    e: "?ls = (0, CHR ''['' # h) # body" and m: "match_header (CHR ''['' # h) \<noteq> None"
    and p: "parse_array_header (CHR ''['' # h) = Inr (n, flds, inl)"
    and b: "parse_array_body (length ?ls + 1) 0 n flds inl body = Inr (norm (VList xs), [])"
    unfolding array_reads_def by auto
  show ?thesis unfolding decode_def s using m p b by (simp add: decode_lines_def e)
qed

subsection \<open>The decoder's fuel\<close>

text \<open>A step reports no lack of fuel, and leaves no more lines than it was given.\<close>

definition leaves :: "nat \<Rightarrow> toon_error + 'a \<times> line list \<Rightarrow> bool" where
  "leaves n r \<longleftrightarrow> (case r of Inl e \<Rightarrow> (e \<noteq> OutOfFuel) | Inr (_, ls) \<Rightarrow> length ls \<le> n)"

lemma leaves_simps [simp]:
  "leaves n (Inl e) \<longleftrightarrow> e \<noteq> OutOfFuel" "leaves n (Inr (v, ls)) \<longleftrightarrow> length ls \<le> n"
  by (simp_all add: leaves_def)

lemma dec_scalar_fuel: "dec_scalar t \<noteq> Inl OutOfFuel"
  by (auto simp: dec_scalar_def Let_def split: option.splits)

lemma traverse_Inl: "traverse f xs = Inl e \<Longrightarrow> \<exists>x \<in> set xs. f x = Inl e"
  by (induction xs) (auto split: sum.splits)

lemma traverse_scalars_fuel: "traverse dec_scalar ts \<noteq> Inl OutOfFuel"
  using traverse_Inl dec_scalar_fuel by metis

lemma ebind_Inl: "ebind m f = Inl e \<Longrightarrow> m = Inl e \<or> (\<exists>x. m = Inr x \<and> f x = Inl e)"
  by (cases m) auto

lemma dec_row_fuel: "dec_row fs t \<noteq> Inl OutOfFuel"
proof
  assume "dec_row fs t = Inl OutOfFuel"
  then have "traverse (\<lambda>(f, c). ebind (dec_scalar c) (\<lambda>v. Inr (KStr f, v))) (zip fs (split_top t)) = Inl OutOfFuel"
    by (auto simp: dec_row_def dest: ebind_Inl)
  from traverse_Inl[OF this] dec_scalar_fuel show False by (auto dest: ebind_Inl)
qed

lemma dec_rows_leaves: "leaves (length ls) (dec_rows fs n ls)"
proof (induction fs n ls rule: dec_rows.induct)
  case (3 fs n l ls)
  show ?case
  proof (cases "dec_row fs (snd l)")
    case (Inl e)
    then show ?thesis using dec_row_fuel by auto
  next
    case (Inr r)
    with 3[OF Inr] show ?thesis by (cases "dec_rows fs n ls") (auto simp: leaves_def)
  qed
qed auto

lemma parse_array_header_fuel: "parse_array_header t \<noteq> Inl OutOfFuel"
  by (auto simp: parse_array_header_def split: option.splits)

lemma parse_member_fuel: "parse_member t \<noteq> Inl OutOfFuel"
  using parse_array_header_fuel
  by (auto simp: parse_member_def read_quoted_def Let_def dest!: ebind_Inl split: option.splits if_splits)

lemma leaves_mono: "leaves m r \<Longrightarrow> m \<le> n \<Longrightarrow> leaves n r"
  by (cases r) (auto simp: leaves_def)

lemma parse_leaves:
  "length ls < f \<Longrightarrow> leaves (length ls) (parse_members f ind out ls)"
  "length ls < f \<Longrightarrow> leaves (length ls) (parse_array_body f ind n flds inl ls)"
  "length ls < f \<Longrightarrow> leaves (length ls) (parse_items f ind n ls)"
  "length ls < f \<Longrightarrow> leaves (length ls) (parse_item f ind ls)"
proof (induction f ind out ls and f ind n flds inl ls and f ind n ls and f ind ls
    rule: parse_members_parse_array_body_parse_items_parse_item.induct)
  case (1 ind out ls)
  then show ?case by simp
next
  case (2 f ind out ls)
  show ?case
  proof (cases ls)
    case Nil
    then show ?thesis by (simp add: parse_members.simps(2))
  next
    case (Cons l rest)
    show ?thesis
    proof (cases "fst l \<noteq> ind \<or> is_item (snd l)")
      case True
      with Cons show ?thesis by (simp add: parse_members.simps(2))
    next
      case go: False
      note len = "2.prems"[unfolded Cons]
      show ?thesis
      proof (cases "parse_member (snd l)")
        case (Inl e)
        with Cons go show ?thesis using parse_member_fuel by (auto simp: parse_members.simps(2))
      next
        case (Inr km)
        obtain key mr where km: "km = (key, mr)" by fastforce
        let ?r = "case mr of
                       MArray n flds inl \<Rightarrow> parse_array_body f ind n flds inl rest
                     | MInline t \<Rightarrow> ebind (dec_scalar t) (\<lambda>v. Inr (v, rest))
                     | MNested \<Rightarrow>
                         if members_follow (ind + 1) rest
                         then (case parse_members f (ind + 1) [] rest of
                                 Inl e \<Rightarrow> Inl e | Inr (d, rest') \<Rightarrow> Inr (VDict d, rest'))
                         else Inr (VDict [], rest)"
        have r: "leaves (length rest) ?r"
        proof (cases mr)
          case (MArray n flds inl)
          with "2.IH"(1)[OF Cons go Inr[unfolded km] refl MArray] len show ?thesis by simp
        next
          case (MInline t)
          then show ?thesis using dec_scalar_fuel by (cases "dec_scalar t") auto
        next
          case MNested
          show ?thesis
          proof (cases "members_follow (ind + 1) rest")
            case True
            with "2.IH"(2)[OF Cons go Inr[unfolded km] refl MNested True] len MNested show ?thesis
              by (auto simp: leaves_def split: sum.splits)
          qed (use MNested in simp)
        qed
        show ?thesis
        proof (cases ?r)
          case (Inl e)
          with r show ?thesis using Cons go Inr km by (simp add: parse_members.simps(2))
        next
          case (Inr vr)
          obtain v rest' where vr: "vr = (v, rest')" by fastforce
          have "length rest' \<le> length rest" using r unfolding Inr vr by simp
          then have "leaves (length rest') (parse_members f ind (AList.update (KStr key) v out) rest')"
            using "2.IH"(3)[OF Cons go \<open>parse_member (snd l) = Inr km\<close>[unfolded km] refl Inr[unfolded vr] refl] len
            by simp
          then have "leaves (length ls) (parse_members f ind (AList.update (KStr key) v out) rest')"
            by (rule leaves_mono) (use \<open>length rest' \<le> length rest\<close> Cons in simp)
          then show ?thesis using Cons go \<open>parse_member (snd l) = Inr km\<close> km Inr vr
            by (simp add: parse_members.simps(2))
        qed
      qed
    qed
  qed
next
  case (3 f ind n flds inl ls)
  show ?case
  proof (cases inl)
    case (Some t)
    then show ?thesis using traverse_scalars_fuel
      by (cases "traverse dec_scalar (split_top t)") (auto simp: parse_array_body.simps)
  next
    case none: None
    show ?thesis
    proof (cases "n = 0")
      case True
      with none show ?thesis by (simp add: parse_array_body.simps)
    next
      case n: False
      show ?thesis
      proof (cases flds)
        case (Some fs)
        with none n dec_rows_leaves[of ls fs n] show ?thesis
          by (cases "dec_rows fs n ls") (auto simp: parse_array_body.simps leaves_def)
      next
        case None
        with "3.IH"[OF none n None "3.prems"] none n show ?thesis
          by (auto simp: parse_array_body.simps leaves_def split: sum.splits)
      qed
    qed
  qed
next
  case (4 f ind ls)
  then show ?case by simp
next
  case (5 f ind n ls)
  note h = "5.IH"(1)[OF "5.prems"]
  show ?case
  proof (cases "parse_item f ind ls")
    case (Inl e)
    with h show ?thesis by simp
  next
    case (Inr vr)
    obtain v ls' where vr: "vr = (v, ls')" by fastforce
    then have "length ls' \<le> length ls" using h Inr by simp
    with "5.IH"(2)[OF Inr[unfolded vr] refl] "5.prems" have "leaves (length ls) (parse_items f ind n ls')"
      by (auto intro: leaves_mono)
    with Inr vr show ?thesis by (auto simp: leaves_def split: sum.splits)
  qed
next
  case (6 ind ls)
  then show ?case by simp
next
  case (7 f ind ls)
  show ?case
  proof (cases ls)
    case Nil
    then show ?thesis by (simp add: parse_item.simps(2))
  next
    case (Cons l rest)
    have len: "length rest < f" using "7.prems" Cons by simp
    show ?thesis
    proof (cases "snd l = ''-''")
      case dash: True
      show ?thesis
      proof (cases "members_follow (ind + 1) rest")
        case True
        with "7.IH"(1)[OF Cons dash True len] Cons dash show ?thesis
          by (auto simp: parse_item.simps(2) leaves_def split: sum.splits)
      qed (use Cons dash in \<open>simp add: parse_item.simps(2)\<close>)
    next
      case nd: False
      show ?thesis
      proof (cases "match_header (drop 2 (snd l))")
        case None
        then show ?thesis using Cons nd dec_scalar_fuel
          by (cases "dec_scalar (drop 2 (snd l))") (auto simp: parse_item.simps(2))
      next
        case (Some y)
        show ?thesis
        proof (cases "parse_array_header (drop 2 (snd l))")
          case (Inl e)
          then show ?thesis using Cons nd Some parse_array_header_fuel by (auto simp: parse_item.simps(2))
        next
          case (Inr h)
          obtain n flds inl where h: "h = (n, flds, inl)" by (metis surj_pair)
          have "leaves (length rest) (parse_array_body f ind n flds inl rest)"
            using "7.IH"(2)[OF Cons nd refl Some Inr[unfolded h] refl refl len] .
          then have "leaves (length ls) (parse_array_body f ind n flds inl rest)"
            by (rule leaves_mono) (simp add: Cons)
          then show ?thesis using Cons nd Some Inr h by (simp add: parse_item.simps(2))
        qed
      qed
    qed
  qed
qed

section \<open>Properties\<close>

text \<open>
  C39: \<open>decode\<close> inverts \<open>encode\<close> on every JSON object or array whose keys are distinct strings
  and whose floats read back from their text: it returns the same value, exactly, but for the
  order of the entries in the rows of a table, which becomes that of the first row.
\<close>

theorem toon_round_trip:
  assumes "json_ok frepr v" and "\<not> is_primitive v"
  shows "\<exists>t. encode frepr v = Some t \<and> decode t = Inr (norm v) \<and> same_json v (norm v)"
proof (cases v rule: pyval_shapes)
  case (dict d)
  then show ?thesis using decode_encode_dict assms(1) same_norm[OF assms(1)] by (auto simp: encode_def)
next
  case (list xs)
  then show ?thesis using decode_encode_list assms(1) same_norm[OF assms(1)] by (auto simp: encode_def)
next
  case prim
  with assms(2) show ?thesis by simp
qed

theorem toon_round_trip_witness:
  "\<exists>t. encode (\<lambda>_. ''1.5'') (VDict [(KStr ''ok'', VBool True),
      (KStr ''rows'', VList [VDict [(KStr ''a'', VFloat (Fin (3 / 2))), (KStr ''b'', VStr ''x, y'')]])]) = Some t
    \<and> decode t = Inr (VDict [(KStr ''ok'', VBool True),
      (KStr ''rows'', VList [VDict [(KStr ''a'', VFloat (Fin (3 / 2))), (KStr ''b'', VStr ''x, y'')]])])"
proof -
  let ?v = "VDict [(KStr ''ok'', VBool True),
      (KStr ''rows'', VList [VDict [(KStr ''a'', VFloat (Fin (3 / 2))), (KStr ''b'', VStr ''x, y'')]])]"
  have "py_int ''1.5'' = None" "py_float ''1.5'' = Some (Fin (3 / 2))" by code_simp+
  then have "float_ok (\<lambda>_. ''1.5'') (Fin (3 / 2))"
    by (simp add: float_ok_def clean_def is_space_def comma_def)
  then have ok: "json_ok (\<lambda>_. ''1.5'') ?v" by simp
  have n: "norm ?v = ?v" by code_simp
  have "\<not> is_primitive ?v" by simp
  from toon_round_trip[OF ok this] show ?thesis unfolding n by blast
qed

text \<open>
  \<open>decode\<close> ends on every text, well-formed or not: the recursion of the decoder takes at
  most one step more than the text has lines.
\<close>

theorem decode_never_out_of_fuel: "decode t \<noteq> Inl OutOfFuel"
proof (cases "scan_lines t")
  case Nil
  then show ?thesis by (simp add: decode_def decode_lines_def)
next
  case (Cons l rest)
  let ?f = "length (l # rest) + 1"
  show ?thesis
  proof (cases "match_header (snd l)")
    case None
    have "leaves (length (l # rest)) (parse_members ?f 0 [] (l # rest))" by (rule parse_leaves(1)) simp
    with None Cons show ?thesis by (auto simp: decode_def decode_lines_def leaves_def split: sum.splits)
  next
    case (Some y)
    show ?thesis
    proof (cases "parse_array_header (snd l)")
      case (Inl e)
      with Some Cons show ?thesis using parse_array_header_fuel by (auto simp: decode_def decode_lines_def)
    next
      case (Inr h)
      obtain n flds inl where h: "h = (n, flds, inl)" by (metis surj_pair)
      have "leaves (length rest) (parse_array_body ?f 0 n flds inl rest)" by (rule parse_leaves(2)) simp
      with Some Inr h Cons show ?thesis by (auto simp: decode_def decode_lines_def leaves_def split: sum.splits)
    qed
  qed
qed

end
