(* ===== verification/Agent_Output.thy ===== *)
theory Agent_Output
  imports PyText Structured
begin

text \<open>
  What is read out of an agent's final answer: the machine-memory suffix
  (\<open>src/fabri/memory/output.py\<close>) and the selection of a branch of a retrieved response
  convention (\<open>src/fabri/orchestrator/convention_application.py\<close>).  Regular expressions are
  written out as matchers.  The lemmas show that a formatted memory block is read back, that
  an answer without a marker is returned unchanged, and when a selection is accepted.
\<close>

section \<open>The memory marker\<close>

text \<open>\<open>AGENT(?:_|\s+)?MEMORY\s*\<close> followed by a closing literal.\<close>

definition agent_memory :: "string \<Rightarrow> string \<Rightarrow> string option" where
  "agent_memory close s =
     (case eat ''AGENT'' s of
        None \<Rightarrow> None
      | Some r \<Rightarrow>
          (case eat ''MEMORY'' (if starts_with ''_'' r then drop 1 r else skip_spaces r) of
             None \<Rightarrow> None
           | Some r' \<Rightarrow> eat close (skip_spaces r')))"

definition comment_open :: "string \<Rightarrow> string option" where
  "comment_open s =
     (case eat ''<!--'' s of None \<Rightarrow> None | Some r \<Rightarrow> agent_memory ''-->'' (skip_spaces r))"

definition tag_open :: "string \<Rightarrow> string option" where
  "tag_open s =
     (case eat ''<'' s of None \<Rightarrow> None | Some r \<Rightarrow> agent_memory ''>'' (skip_spaces r))"

definition memory_open :: "string \<Rightarrow> (bool \<times> string) option" where
  "memory_open s =
     (case comment_open s of
        Some r \<Rightarrow> Some (False, r)
      | None \<Rightarrow> map_option (\<lambda>r. (True, r)) (tag_open s))"

definition memory_close :: "string \<Rightarrow> string option" where
  "memory_close s =
     (case eat ''</'' s of None \<Rightarrow> None | Some r \<Rightarrow> agent_memory ''>'' (skip_spaces r))"

section \<open>The memory block\<close>

datatype mem_val = MText string | MList "string list"

type_synonym memory = "(string \<times> mem_val) list"

definition inline_keys :: "string list" where
  "inline_keys = [''TASK:'', ''OUTCOME:'', ''INSIGHTS:'', ''OPEN LOOPS:'', ''CHANGES:'']"

text \<open>The positions where an inline key starts: after white space or at the start of the line.\<close>

fun inline_starts :: "char option \<Rightarrow> nat \<Rightarrow> string \<Rightarrow> nat list" where
  "inline_starts prev i [] = []"
| "inline_starts prev i (c # cs) =
     (if (case prev of None \<Rightarrow> True | Some p \<Rightarrow> is_space p) \<and> list_ex (\<lambda>k. starts_with k (c # cs)) inline_keys
      then [i] else []) @ inline_starts (Some c) (Suc i) cs"

fun cut_at :: "nat list \<Rightarrow> string \<Rightarrow> string list" where
  "cut_at [] s = []"
| "cut_at [i] s = [drop i s]"
| "cut_at (i # j # is) s = take (j - i) (drop i s) # cut_at (j # is) s"

definition raw_lines :: "string \<Rightarrow> string list" where
  "raw_lines block =
     concat (map (\<lambda>raw. let starts = inline_starts None 0 raw
                        in if length starts < 2 then [raw] else cut_at starts raw) (split_lines block))"

text \<open>\<open>^[-*]\s+(.*)$\<close> on a stripped line.\<close>

definition list_item :: "string \<Rightarrow> string option" where
  "list_item line =
     (case line of
        c # d # r \<Rightarrow> if (c = CHR ''-'' \<or> c = CHR ''*'') \<and> is_space d then Some (strip r) else None
      | _ \<Rightarrow> None)"

definition is_alpha :: "char \<Rightarrow> bool" where
  "is_alpha c = (let n = (of_char c :: nat) in (65 \<le> n \<and> n \<le> 90) \<or> (97 \<le> n \<and> n \<le> 122))"

definition key_char :: "char \<Rightarrow> bool" where
  "key_char c = (is_alpha c \<or> is_digit_char c \<or> c = CHR ''_'' \<or> c = CHR '' '')"

text \<open>\<open>^([A-Za-z][A-Za-z0-9_ ]*):\s?(.*)$\<close>, both groups stripped.\<close>

definition key_line :: "string \<Rightarrow> (string \<times> string) option" where
  "key_line line =
     (let k = takeWhile key_char line; r = dropWhile key_char line
      in if k \<noteq> [] \<and> is_alpha (hd k) \<and> starts_with '':'' r then Some (strip k, strip (drop 1 r)) else None)"

definition add_item :: "string \<Rightarrow> string \<Rightarrow> memory \<Rightarrow> memory" where
  "add_item key item mem =
     AList.update key
       (MList ((case map_of mem key of
                  Some (MList xs) \<Rightarrow> xs
                | Some (MText t) \<Rightarrow> if t = [] then [] else [t]
                | None \<Rightarrow> []) @ [item])) mem"

definition memory_line :: "string \<Rightarrow> memory \<times> string option \<Rightarrow> memory \<times> string option" where
  "memory_line raw st =
     (let (mem, current) = st; line = strip raw in
      if line = [] then st
      else case (list_item line, current) of
        (Some item, Some key) \<Rightarrow> (add_item key item mem, current)
      | _ \<Rightarrow>
          (case key_line line of
             Some (k, v) \<Rightarrow> (AList.update k (MText v) mem, Some k)
           | None \<Rightarrow>
               (case current of
                  None \<Rightarrow> st
                | Some key \<Rightarrow>
                    (case map_of mem key of
                       Some (MText t) \<Rightarrow>
                         (AList.update key (MText (t @ (if t = [] then [] else '' '') @ line)) mem, current)
                     | _ \<Rightarrow> st))))"

definition parse_memory_block :: "string \<Rightarrow> memory option" where
  "parse_memory_block block =
     (let mem = fst (fold memory_line (raw_lines block) ([], None)) in if mem = [] then None else Some mem)"

definition split_agent_output :: "string \<Rightarrow> string \<times> memory option" where
  "split_agent_output t =
     (case re_search memory_open t of
        None \<Rightarrow> (t, None)
      | Some (pre, tagged, rest) \<Rightarrow>
          (let (block, suffix) =
             (if tagged
              then (case re_search memory_close rest of Some (b, r) \<Rightarrow> (b, r) | None \<Rightarrow> (rest, []))
              else (rest, []))
           in (rstrip (pre @ suffix), parse_memory_block block)))"

definition bullet :: "string \<Rightarrow> string" where
  "bullet x = ''- '' @ x"

definition memory_lines :: "string \<times> mem_val \<Rightarrow> string list" where
  "memory_lines kv =
     (case snd kv of
        MList xs \<Rightarrow> (fst kv @ '':'') # map bullet xs
      | MText v \<Rightarrow> [fst kv @ '': '' @ v])"

definition format_agent_memory :: "memory \<Rightarrow> string" where
  "format_agent_memory mem =
     join [CHR 0x0A] (''<AGENT_MEMORY>'' # concat (map memory_lines mem) @ [''</AGENT_MEMORY>''])"

section \<open>Matchers and what they consume\<close>

lemma lower_char_space [simp]: "is_space (lower_char c) = is_space c"
  by (simp add: is_space_def lower_char_def Let_def)

lemma lower_char_lt [simp]: "lower_char c = CHR ''<'' \<longleftrightarrow> c = CHR ''<''"
proof
  assume l: "lower_char c = CHR ''<''"
  then have n: "(of_char (lower_char c) :: nat) = 60" by simp
  have "of_char c = (60 :: nat)" using n by (auto simp: lower_char_def Let_def split: if_splits)
  then have "of_char c = (of_char (CHR ''<'') :: nat)" by simp
  then show "c = CHR ''<''" by (rule of_char_eq_iff[THEN iffD1])
qed (simp add: lower_char_def Let_def)

definition gap :: "(string \<Rightarrow> string) \<Rightarrow> bool" where
  "gap g \<longleftrightarrow> (\<forall>r. \<exists>u. r = u @ g r \<and> CHR ''<'' \<notin> set u
     \<and> (\<forall>y. y \<noteq> [] \<longrightarrow> \<not> is_space (hd y) \<longrightarrow> g r \<noteq> [] \<longrightarrow> hd y = hd (g r) \<longrightarrow> g (u @ y) = y))"

definition scans :: "(string \<Rightarrow> string option) \<Rightarrow> bool" where
  "scans m \<longleftrightarrow> (\<forall>s r. m s = Some r \<longrightarrow>
     (\<exists>w. s = w @ r \<and> w \<noteq> [] \<and> \<not> is_space (hd w) \<and> CHR ''<'' \<notin> set w \<and> last w \<noteq> CHR 0x0A
        \<and> (\<forall>r'. m (w @ r') = Some r')))"

lemma eat_split: "eat p s = Some r \<Longrightarrow> \<exists>w. s = w @ r \<and> map lower_char w = map lower_char p"
  unfolding eat_def by (metis append_take_drop_id option.distinct(1) option.inject)

lemma eat_append: "map lower_char w = map lower_char p \<Longrightarrow> eat p (w @ r) = Some r"
  using map_eq_imp_length_eq[of lower_char w lower_char p] by (simp add: eat_def)

lemma skip_spaces_append:
  "y \<noteq> [] \<Longrightarrow> \<not> is_space (hd y) \<Longrightarrow> skip_spaces (takeWhile is_space r @ y) = y"
proof -
  assume y: "y \<noteq> []" "\<not> is_space (hd y)"
  have "dropWhile is_space (takeWhile is_space r @ y) = dropWhile is_space y"
    by (rule dropWhile_append2) (auto dest: set_takeWhileD)
  also have "\<dots> = y" using y by (cases y) auto
  finally show ?thesis by (simp add: skip_spaces_def)
qed

lemma gap_skip: "gap skip_spaces"
  unfolding gap_def
proof
  fix r
  have "CHR ''<'' \<notin> set (takeWhile is_space r)"
    by (auto dest!: set_takeWhileD simp: is_space_def)
  then show "\<exists>u. r = u @ skip_spaces r \<and> CHR ''<'' \<notin> set u
     \<and> (\<forall>y. y \<noteq> [] \<longrightarrow> \<not> is_space (hd y) \<longrightarrow> skip_spaces r \<noteq> [] \<longrightarrow> hd y = hd (skip_spaces r) \<longrightarrow> skip_spaces (u @ y) = y)"
    by (intro exI[of _ "takeWhile is_space r"] conjI allI impI)
      (simp_all add: skip_spaces_append, simp add: skip_spaces_def)
qed

lemma gap_underscore: "gap (\<lambda>r. if starts_with ''_'' r then drop 1 r else skip_spaces r)"
  unfolding gap_def
proof
  fix r :: string
  let ?g = "\<lambda>r. if starts_with ''_'' r then drop 1 r else skip_spaces r"
  show "\<exists>u. r = u @ ?g r \<and> CHR ''<'' \<notin> set u
     \<and> (\<forall>y. y \<noteq> [] \<longrightarrow> \<not> is_space (hd y) \<longrightarrow> ?g r \<noteq> [] \<longrightarrow> hd y = hd (?g r) \<longrightarrow> ?g (u @ y) = y)"
  proof (cases "starts_with ''_'' r")
    case True
    then obtain r' where "r = CHR ''_'' # r'" by (cases r) (auto simp: starts_with_def)
    then show ?thesis by (intro exI[of _ "''_''"]) (simp add: starts_with_def)
  next
    case False
    from gap_skip obtain u where u: "r = u @ skip_spaces r" "CHR ''<'' \<notin> set u"
      and y: "\<And>y. y \<noteq> [] \<Longrightarrow> \<not> is_space (hd y) \<Longrightarrow> skip_spaces r \<noteq> [] \<Longrightarrow> hd y = hd (skip_spaces r) \<Longrightarrow> skip_spaces (u @ y) = y"
      unfolding gap_def by blast
    have "\<not> starts_with ''_'' (u @ y)" if "y \<noteq> []" "skip_spaces r \<noteq> []" "hd y = hd (skip_spaces r)" for y
      using False u(1) that by (cases u; cases y; cases "skip_spaces r") (auto simp: starts_with_def)
    with False u y show ?thesis by (intro exI[of _ u]) auto
  qed
qed

lemma scans_eat:
  assumes "p \<noteq> []" and "\<not> is_space (hd p)" and "CHR ''<'' \<notin> set p" and "\<not> is_space (last p)"
  shows "scans (eat p)"
  unfolding scans_def
proof (intro allI impI)
  fix s r assume "eat p s = Some r"
  then obtain w where w: "s = w @ r" "map lower_char w = map lower_char p" using eat_split by blast
  then have ne: "w \<noteq> []" using assms(1) by auto
  then have "lower_char (hd w) = lower_char (hd p)" using w(2) assms(1) by (metis hd_map)
  then have "\<not> is_space (hd w)" using assms(2) by (metis lower_char_space)
  moreover have "CHR ''<'' \<notin> set w"
    using w(2) assms(3) by (metis lower_char_lt list.set_map image_iff)
  moreover have "lower_char (last w) = lower_char (last p)" using w(2) ne assms(1) by (metis last_map)
  then have "\<not> is_space (last w)" using assms(4) by (metis lower_char_space)
  then have "last w \<noteq> CHR 0x0A" by (auto simp: is_space_def)
  ultimately show "\<exists>w. s = w @ r \<and> w \<noteq> [] \<and> \<not> is_space (hd w) \<and> CHR ''<'' \<notin> set w \<and> last w \<noteq> CHR 0x0A
      \<and> (\<forall>r'. eat p (w @ r') = Some r')"
    using w ne eat_append by blast
qed

lemma scans_seq:
  assumes "scans a" and "gap g" and "scans b"
  shows "scans (\<lambda>s. case a s of None \<Rightarrow> None | Some r \<Rightarrow> b (g r))"
  unfolding scans_def
proof (intro allI impI)
  fix s r assume e: "(case a s of None \<Rightarrow> None | Some r \<Rightarrow> b (g r)) = Some r"
  then obtain r1 where r1: "a s = Some r1" "b (g r1) = Some r" by (auto split: option.splits)
  from r1(1) assms(1) obtain w1 where w1: "s = w1 @ r1" "w1 \<noteq> []" "\<not> is_space (hd w1)" "CHR ''<'' \<notin> set w1"
    "\<And>r'. a (w1 @ r') = Some r'" unfolding scans_def by blast
  from r1(2) assms(3) obtain w2 where w2: "g r1 = w2 @ r" "w2 \<noteq> []" "\<not> is_space (hd w2)" "CHR ''<'' \<notin> set w2"
    "last w2 \<noteq> CHR 0x0A" "\<And>r'. b (w2 @ r') = Some r'" unfolding scans_def by blast
  from assms(2) obtain u where u: "r1 = u @ g r1" "CHR ''<'' \<notin> set u"
    and y: "\<And>y. y \<noteq> [] \<Longrightarrow> \<not> is_space (hd y) \<Longrightarrow> g r1 \<noteq> [] \<Longrightarrow> hd y = hd (g r1) \<Longrightarrow> g (u @ y) = y"
    unfolding gap_def by blast
  have "g (u @ w2 @ r') = w2 @ r'" for r' using y[of "w2 @ r'"] w2 by simp
  then have "(case a ((w1 @ u @ w2) @ r') of None \<Rightarrow> None | Some r \<Rightarrow> b (g r)) = Some r'" for r'
    using w1(5)[of "u @ w2 @ r'"] w2(6)[of r'] by simp
  moreover have "s = (w1 @ u @ w2) @ r" using w1(1) u(1) w2(1) by simp
  ultimately show "\<exists>w. s = w @ r \<and> w \<noteq> [] \<and> \<not> is_space (hd w) \<and> CHR ''<'' \<notin> set w \<and> last w \<noteq> CHR 0x0A
      \<and> (\<forall>r'. (case a (w @ r') of None \<Rightarrow> None | Some r \<Rightarrow> b (g r)) = Some r')"
    using w1(2,3,4) u(2) w2(2,4,5) by (intro exI[of _ "w1 @ u @ w2"]) simp
qed

lemma scans_agent_memory: "close = ''>'' \<or> close = ''-->'' \<Longrightarrow> scans (agent_memory close)"
proof -
  assume c: "close = ''>'' \<or> close = ''-->''"
  have "scans (eat close)" "scans (eat ''MEMORY'')" "scans (eat ''AGENT'')"
    using c by (auto intro!: scans_eat simp: is_space_def)
  from scans_seq[OF this(3) gap_underscore scans_seq[OF this(2) gap_skip this(1)]]
  show ?thesis by (simp add: agent_memory_def[abs_def])
qed

text \<open>A marker spans a known text, with \<open><\<close> only as its first character.\<close>

lemma after_literal_scans:
  assumes "scans m" and "(case eat (CHR ''<'' # p) s of None \<Rightarrow> None | Some r \<Rightarrow> m (skip_spaces r)) = Some r"
    and "CHR ''<'' \<notin> set p"
  shows "\<exists>w. s = w @ r \<and> w \<noteq> [] \<and> CHR ''<'' \<notin> set (tl w) \<and> last w \<noteq> CHR 0x0A \<and> hd w = CHR ''<''
     \<and> (\<forall>r'. (case eat (CHR ''<'' # p) (w @ r') of None \<Rightarrow> None | Some r \<Rightarrow> m (skip_spaces r)) = Some r')"
proof -
  from assms(2) obtain r1 where r1: "eat (CHR ''<'' # p) s = Some r1" "m (skip_spaces r1) = Some r"
    by (auto split: option.splits)
  from eat_split[OF r1(1)] obtain w1 where w1: "s = w1 @ r1" "map lower_char w1 = map lower_char (CHR ''<'' # p)"
    by blast
  then obtain c w1' where c: "w1 = c # w1'" "lower_char c = lower_char (CHR ''<'')" "map lower_char w1' = map lower_char p"
    by (cases w1) auto
  then have lt: "c = CHR ''<''" using lower_char_lt by metis
  have "CHR ''<'' \<notin> set w1'" using c(3) assms(3) by (metis lower_char_lt list.set_map image_iff)
  moreover from r1(2) assms(1) obtain w2 where w2: "skip_spaces r1 = w2 @ r" "w2 \<noteq> []" "\<not> is_space (hd w2)"
    "CHR ''<'' \<notin> set w2" "last w2 \<noteq> CHR 0x0A" "\<And>r'. m (w2 @ r') = Some r'" unfolding scans_def by blast
  moreover from gap_skip obtain u where u: "r1 = u @ skip_spaces r1" "CHR ''<'' \<notin> set u"
    and y: "\<And>y. y \<noteq> [] \<Longrightarrow> \<not> is_space (hd y) \<Longrightarrow> skip_spaces r1 \<noteq> [] \<Longrightarrow> hd y = hd (skip_spaces r1) \<Longrightarrow> skip_spaces (u @ y) = y"
    unfolding gap_def by blast
  moreover have "skip_spaces (u @ w2 @ r') = w2 @ r'" for r' using y[of "w2 @ r'"] w2 by simp
  moreover have "eat (CHR ''<'' # p) (w1 @ x) = Some x" for x using eat_append[OF w1(2)] .
  ultimately show ?thesis using w1(1) c(1) lt
    by (intro exI[of _ "w1 @ u @ w2"]) auto
qed

lemma memory_open_span:
  assumes "memory_open s = Some (k, r)"
  shows "\<exists>w. s = w @ r \<and> w \<noteq> [] \<and> CHR ''<'' \<notin> set (tl w) \<and> last w \<noteq> CHR 0x0A
    \<and> (\<forall>r'. memory_open (w @ r') \<noteq> None)"
proof (cases "comment_open s")
  case (Some x)
  with assms have "comment_open s = Some r" by (simp add: memory_open_def)
  then have "(case eat ''<!--'' s of None \<Rightarrow> None | Some r \<Rightarrow> agent_memory ''-->'' (skip_spaces r)) = Some r"
    by (simp add: comment_open_def)
  from after_literal_scans[OF scans_agent_memory this]
  obtain w where "s = w @ r" "w \<noteq> []" "CHR ''<'' \<notin> set (tl w)" "last w \<noteq> CHR 0x0A"
    "\<And>r'. comment_open (w @ r') = Some r'" by (auto simp: comment_open_def)
  then show ?thesis by (auto simp: memory_open_def)
next
  case None
  with assms have "tag_open s = Some r" by (auto simp: memory_open_def)
  then have "(case eat ''<'' s of None \<Rightarrow> None | Some r \<Rightarrow> agent_memory ''>'' (skip_spaces r)) = Some r"
    by (simp add: tag_open_def)
  from after_literal_scans[OF scans_agent_memory this]
  obtain w where "s = w @ r" "w \<noteq> []" "CHR ''<'' \<notin> set (tl w)" "last w \<noteq> CHR 0x0A"
    "\<And>r'. tag_open (w @ r') = Some r'" by (auto simp: tag_open_def)
  then show ?thesis by (auto simp: memory_open_def split: option.splits)
qed

lemma re_search_None: "re_search m s = None \<Longrightarrow> a @ b = s \<Longrightarrow> m b = None"
proof (induction s arbitrary: a)
  case (Cons c s)
  then show ?case
  proof (cases a)
    case Nil
    with Cons.prems show ?thesis by (auto split: option.splits)
  next
    case (Cons d a')
    with Cons.IH[of a'] Cons.prems show ?thesis by (auto split: option.splits)
  qed
qed auto

lemma re_search_NoneI: "(\<And>a b. a @ b = s \<Longrightarrow> m b = None) \<Longrightarrow> re_search m s = None"
proof (induction s)
  case Nil
  then show ?case by (simp add: Nil[of "[]" "[]"])
next
  case (Cons c s)
  have "m (c # s) = None" using Cons.prems[of "[]"] by simp
  moreover have "re_search m s = None" by (rule Cons.IH) (use Cons.prems[of "c # _"] in auto)
  ultimately show ?case by simp
qed

text \<open>A text before a marker does not disturb the search for it, a newline included.\<close>

lemma memory_open_after_prose:
  assumes "re_search memory_open prose = None" and "b \<noteq> []" and "a @ b = prose @ [CHR 0x0A]"
  shows "memory_open (b @ CHR ''<'' # t) = None"
proof (rule ccontr)
  assume "memory_open (b @ CHR ''<'' # t) \<noteq> None"
  then obtain k r where "memory_open (b @ CHR ''<'' # t) = Some (k, r)" by auto
  from memory_open_span[OF this] obtain w where w: "b @ CHR ''<'' # t = w @ r" "w \<noteq> []"
    "CHR ''<'' \<notin> set (tl w)" "last w \<noteq> CHR 0x0A" "\<And>r'. memory_open (w @ r') \<noteq> None" by blast
  from w(1) consider (in_b) us where "b = w @ us" | (past) us where "w = b @ us" "us @ r = CHR ''<'' # t" "us \<noteq> []"
    by (cases "length w \<le> length b") (metis append_eq_append_conv_if append_take_drop_id append_Nil2 append.assoc
        append_eq_append_conv2 le_refl self_append_conv)+
  then show False
  proof cases
    case in_b
    have "us \<noteq> []"
    proof
      assume "us = []"
      with in_b assms(2,3) have "last w = CHR 0x0A" by (metis append_Nil2 last_appendR last_snoc)
      with w(4) show False by simp
    qed
    then obtain us' where us: "us = us' @ [last us]" by (metis append_butlast_last_id)
    then have "a @ w @ us' = prose" using in_b assms(3) by (metis append.assoc append1_eq_conv)
    from re_search_None[OF assms(1) this] w(5) show False by simp
  next
    case past
    then have "CHR ''<'' \<in> set us" by (cases us) auto
    moreover have "tl w = tl b @ us" using past assms(2) by simp
    ultimately show False using w(3) by simp
  qed
qed

section \<open>Reading a formatted block back\<close>

definition plain_line :: "string \<Rightarrow> bool" where
  "plain_line s \<longleftrightarrow> strip s = s \<and> list_all (\<lambda>c. \<not> is_break c \<and> c \<noteq> CHR ''<'') s"

definition memory_key :: "string \<Rightarrow> bool" where
  "memory_key k \<longleftrightarrow> k \<noteq> [] \<and> is_alpha (hd k) \<and> list_all key_char k \<and> strip k = k"

definition memory_entry_ok :: "string \<times> mem_val \<Rightarrow> bool" where
  "memory_entry_ok kv \<longleftrightarrow> memory_key (fst kv)
     \<and> (case snd kv of MText v \<Rightarrow> plain_line v | MList xs \<Rightarrow> xs \<noteq> [] \<and> list_all (\<lambda>x. x \<noteq> [] \<and> plain_line x) xs)
     \<and> list_all (\<lambda>l. length (inline_starts None 0 l) < 2) (memory_lines kv)"

definition memory_ok :: "memory \<Rightarrow> bool" where
  "memory_ok mem \<longleftrightarrow> distinct (map fst mem) \<and> list_all memory_entry_ok mem"

lemma key_char_plain: "key_char c \<Longrightarrow> \<not> is_break c \<and> c \<noteq> CHR ''<''"
  by (auto simp: key_char_def is_alpha_def is_digit_char_def is_break_def Let_def)

lemma key_char_colon [simp]: "\<not> key_char (CHR '':'')"
  by (simp add: key_char_def is_alpha_def is_digit_char_def)

lemma alpha_not_space: "is_alpha c \<Longrightarrow> \<not> is_space c"
  by (auto simp: is_alpha_def is_space_def Let_def)

lemma memory_key_line:
  assumes "memory_key k" and "strip v = v"
  shows "strip (k @ '': '' @ v) = k @ '':'' @ (if v = [] then [] else '' '' @ v)"
    and "strip (k @ '':'') = k @ '':''"
    and "key_line (k @ '':'' @ (if v = [] then [] else '' '' @ v)) = Some (k, v)"
    and "list_item (k @ '':'' @ x) = None"
proof -
  from assms(1) have k: "k \<noteq> []" "is_alpha (hd k)" "list_all key_char k" "strip k = k"
    by (simp_all add: memory_key_def)
  have h: "\<not> is_space (hd k)" using k(2) alpha_not_space by blast
  have colon: "\<not> is_space (CHR '':'')" by (simp add: is_space_def)
  show s: "strip (k @ '':'') = k @ '':''"
    by (rule strip_id) (use k h colon in auto)
  show "strip (k @ '': '' @ v) = k @ '':'' @ (if v = [] then [] else '' '' @ v)"
  proof (cases "v = []")
    case True
    have "strip (k @ '': '') = strip ((k @ '':'') @ '' '')" by simp
    also have "\<dots> = strip (k @ '':'')"
      using k(1) h by (cases k) (simp_all add: strip_def lstrip_def rstrip_def is_space_def[of "CHR '' ''"])
    finally show ?thesis using True s by simp
  next
    case False
    then have "\<not> is_space (last v)" using assms(2) by (simp add: strip_self_iff)
    then show ?thesis using False k(1) h by (intro trans[OF strip_id]) auto
  qed
  have tw: "takeWhile key_char (k @ CHR '':'' # y) = k" "dropWhile key_char (k @ CHR '':'' # y) = CHR '':'' # y" for y
    using k(3) by (auto simp: list_all_iff takeWhile_append2 dropWhile_append2)
  have "strip (CHR '' '' # v) = v"
    using assms(2) by (simp add: strip_def lstrip_def is_space_def[of "CHR '' ''"])
  then show "key_line (k @ '':'' @ (if v = [] then [] else '' '' @ v)) = Some (k, v)"
    using k by (simp add: key_line_def tw starts_with_def Let_def assms(2))
  have "hd k \<noteq> CHR ''-'' \<and> hd k \<noteq> CHR ''*''" using k(2) by (auto simp: is_alpha_def)
  then show "list_item (k @ '':'' @ x) = None" using k(1) by (cases k) (auto simp: list_item_def split: list.splits)
qed

lemma memory_line_text:
  assumes "memory_key k" and "strip v = v" and "k \<notin> fst ` set mem"
  shows "memory_line (k @ '': '' @ v) (mem, cur) = (mem @ [(k, MText v)], Some k)"
  using memory_key_line[OF assms(1,2)] assms
  by (simp add: memory_line_def Let_def update_fresh memory_key_def)

lemma memory_line_head:
  assumes "memory_key k" and "k \<notin> fst ` set mem"
  shows "memory_line (k @ '':'') (mem, cur) = (mem @ [(k, MText [])], Some k)"
  using memory_key_line(2,3)[OF assms(1), of "[]"] memory_key_line(4)[OF assms(1), of "[]" "[]"] assms
  by (simp add: memory_line_def Let_def update_fresh memory_key_def)

lemma update_last: "k \<notin> fst ` set mem \<Longrightarrow> AList.update k v (mem @ [(k, u)]) = mem @ [(k, v)]"
  by (induction mem) auto

lemma map_of_last: "k \<notin> fst ` set mem \<Longrightarrow> map_of (mem @ [(k, u)]) k = Some u"
  by (induction mem) auto

lemma memory_line_item:
  assumes "x \<noteq> []" and "strip x = x" and "k \<notin> fst ` set mem"
  shows "memory_line (bullet x) (mem @ [(k, u)], Some k) =
     (mem @ [(k, MList ((case u of MList xs \<Rightarrow> xs | MText t \<Rightarrow> if t = [] then [] else [t]) @ [x]))], Some k)"
proof -
  have "strip (bullet x) = bullet x" unfolding bullet_def
    using assms(1,2) by (intro strip_id) (auto simp: strip_self_iff is_space_def[of "CHR ''-''"])
  moreover have "list_item (bullet x) = Some x" "bullet x \<noteq> []"
    using assms(2) by (simp_all add: list_item_def is_space_def bullet_def)
  ultimately show ?thesis
    using assms(3) by (auto simp: memory_line_def add_item_def update_last map_of_last
        simp del: map_of_append split: mem_val.splits)
qed

lemma memory_line_items:
  assumes "list_all (\<lambda>x. x \<noteq> [] \<and> plain_line x) xs" and "k \<notin> fst ` set mem"
  shows "fold memory_line (map bullet xs) (mem @ [(k, MList ys)], Some k)
     = (mem @ [(k, MList (ys @ xs))], Some k)"
  using assms
proof (induction xs arbitrary: ys)
  case (Cons x xs)
  have "memory_line (bullet x) (mem @ [(k, MList ys)], Some k) = (mem @ [(k, MList (ys @ [x]))], Some k)"
    using memory_line_item[of x k mem "MList ys"] Cons.prems by (simp add: plain_line_def)
  then show ?case using Cons.IH[of "ys @ [x]"] Cons.prems by simp
qed simp

lemma memory_lines_read:
  assumes "memory_entry_ok kv" and "fst kv \<notin> fst ` set mem"
  shows "fold memory_line (memory_lines kv) (mem, cur) = (mem @ [kv], Some (fst kv))"
proof (cases kv)
  case (Pair k v)
  show ?thesis
  proof (cases v)
    case (MText t)
    then show ?thesis using assms Pair memory_line_text[of k t mem cur]
      by (simp add: memory_lines_def memory_entry_ok_def plain_line_def)
  next
    case (MList xs)
    with assms Pair have k: "memory_key k" "k \<notin> fst ` set mem" "list_all (\<lambda>x. x \<noteq> [] \<and> plain_line x) xs" "xs \<noteq> []"
      by (auto simp: memory_entry_ok_def)
    then obtain x xs' where xs: "xs = x # xs'" by (cases xs) auto
    have "memory_line (bullet x) (mem @ [(k, MText [])], Some k) = (mem @ [(k, MList [x])], Some k)"
      using memory_line_item[of x k mem "MText []"] k xs by (simp add: plain_line_def)
    with memory_line_items[of xs' k mem "[x]"] memory_line_head[OF k(1,2), of cur] k xs Pair MList
    show ?thesis by (simp add: memory_lines_def)
  qed
qed

lemma memory_read:
  assumes "distinct (map fst (mem @ d))" and "list_all memory_entry_ok d"
  shows "fst (fold memory_line (concat (map memory_lines d)) (mem, cur)) = mem @ d"
  using assms
proof (induction d arbitrary: mem cur)
  case (Cons kv d)
  then have "fold memory_line (memory_lines kv) (mem, cur) = (mem @ [kv], Some (fst kv))"
    by (intro memory_lines_read) auto
  with Cons.IH[of "mem @ [kv]"] Cons.prems show ?case by simp
qed simp

lemma memory_lines_plain:
  assumes "memory_entry_ok kv" and "l \<in> set (memory_lines kv)"
  shows "list_all (\<lambda>c. \<not> is_break c \<and> c \<noteq> CHR ''<'') l \<and> length (inline_starts None 0 l) < 2"
proof -
  let ?plain = "\<lambda>c. \<not> is_break c \<and> c \<noteq> CHR ''<''"
  have "list_all key_char (fst kv)" using assms(1) by (simp add: memory_entry_ok_def memory_key_def)
  then have k: "list_all ?plain (fst kv)" using key_char_plain by (auto simp: list_all_iff)
  have b: "\<not> is_break (CHR '':'')" "\<not> is_break (CHR '' '')" "\<not> is_break (CHR ''-'')"
    by (simp_all add: is_break_def)
  have "list_all ?plain l"
  proof (cases "snd kv")
    case (MText v)
    with assms have "plain_line v" "l = fst kv @ '': '' @ v" by (simp_all add: memory_entry_ok_def memory_lines_def)
    with k b show ?thesis by (simp add: plain_line_def)
  next
    case (MList xs)
    with assms have "list_all (\<lambda>x. x \<noteq> [] \<and> plain_line x) xs" "l = fst kv @ '':'' \<or> l \<in> bullet ` set xs"
      by (simp_all add: memory_entry_ok_def memory_lines_def)
    then consider "l = fst kv @ '':''" | x where "l = bullet x" "plain_line x" by (auto simp: list_all_iff)
    then show ?thesis by cases (use k b in \<open>simp_all add: plain_line_def bullet_def\<close>)
  qed
  moreover have "length (inline_starts None 0 l) < 2"
    using assms by (simp add: memory_entry_ok_def list_all_iff)
  ultimately show ?thesis by blast
qed

lemma format_agent_memory_lines:
  "format_agent_memory mem =
     ''<AGENT_MEMORY>'' @ concat (map (\<lambda>l. l @ [CHR 0x0A]) ([] # concat (map memory_lines mem))) @ ''</AGENT_MEMORY>''"
proof -
  have "join [CHR 0x0A] (x # ls @ [y]) = x @ concat (map (\<lambda>l. l @ [CHR 0x0A]) ([] # ls)) @ y" for x y :: string and ls
    by (induction ls arbitrary: x) auto
  then show ?thesis by (simp add: format_agent_memory_def)
qed

lemma no_tag_in:
  assumes "list_all (\<lambda>c. c \<noteq> CHR ''<'') s"
  shows "re_search memory_close (s @ ''</AGENT_MEMORY>'') = Some (s, [])"
proof -
  have no: "memory_close (b @ t) = None" if "a @ b = s" "b \<noteq> []" for a b t
  proof -
    have c: "hd b \<noteq> CHR ''<''" using assms that
      unfolding list_all_iff by (metis hd_in_set in_set_conv_decomp append.assoc)
    have "eat ''</'' (b @ t) = None"
    proof (rule ccontr)
      assume "eat ''</'' (b @ t) \<noteq> None"
      then obtain r where "eat ''</'' (b @ t) = Some r" by blast
      from eat_split[OF this] obtain w where w: "b @ t = w @ r" "map lower_char w = map lower_char ''</''" by blast
      then have "lower_char (hd w) = lower_char (CHR ''<'')" "w \<noteq> []" by auto
      moreover from this have "hd w = hd b" using w(1) that(2) by (metis hd_append2)
      ultimately show False using c lower_char_lt by metis
    qed
    then show ?thesis by (simp add: memory_close_def)
  qed
  have "memory_close [] = None" by (simp add: memory_close_def eat_def)
  then have "re_search memory_close s = None" using no[of _ _ "[]"] by (intro re_search_NoneI) fastforce
  from re_search_append[OF this no] have
    "re_search memory_close (s @ ''</AGENT_MEMORY>'')
       = map_option (\<lambda>(pre, r). (s @ pre, r)) (re_search memory_close ''</AGENT_MEMORY>'')" .
  also have "re_search memory_close ''</AGENT_MEMORY>'' = Some ([], [])" by code_simp
  finally show ?thesis by simp
qed


lemma open_tag_here: "memory_open (''<AGENT_MEMORY>'' @ r) = Some (True, r)"
  by (simp add: memory_open_def comment_open_def tag_open_def agent_memory_def eat_def starts_with_def
      skip_spaces_def is_space_def lower_char_def)

lemma memory_open_after_prose':
  assumes "re_search memory_open prose = None" and "b \<noteq> []" and "a @ b = prose @ [CHR 0x0A]"
  shows "memory_open b = None"
proof (rule ccontr)
  assume "memory_open b \<noteq> None"
  then obtain k r where "memory_open b = Some (k, r)" by auto
  from memory_open_span[OF this] obtain w where "b = w @ r" "\<And>r'. memory_open (w @ r') \<noteq> None" by blast
  then have "memory_open (b @ ''<'') \<noteq> None" by simp
  with memory_open_after_prose[OF assms, of "[]"] show False by simp
qed

lemma find_open_tag:
  assumes "re_search memory_open prose = None"
  shows "re_search memory_open (prose @ [CHR 0x0A] @ ''<AGENT_MEMORY>'' @ r) = Some (prose @ [CHR 0x0A], True, r)"
proof -
  have nil: "memory_open [] = None" by code_simp
  have "re_search memory_open (prose @ [CHR 0x0A]) = None"
    by (rule re_search_NoneI) (metis memory_open_after_prose'[OF assms] nil)
  moreover have "re_search memory_open (''<AGENT_MEMORY>'' @ r) = Some ([], True, r)"
    using open_tag_here[of r] by simp
  ultimately show ?thesis
    using re_search_append[of memory_open "prose @ [CHR 0x0A]" "''<AGENT_MEMORY>'' @ r"]
      memory_open_after_prose[OF assms] by simp
qed

lemma raw_lines_short:
  assumes "\<And>l. l \<in> set ls \<Longrightarrow> list_all (\<lambda>c. \<not> is_break c) l \<and> length (inline_starts None 0 l) < 2"
  shows "raw_lines (concat (map (\<lambda>l. l @ [CHR 0x0A]) ls)) = ls"
proof -
  have "split_lines (concat (map (\<lambda>l. l @ [CHR 0x0A]) ls)) = ls"
    by (rule split_lines_ended) (use assms in \<open>simp add: list_all_iff\<close>)
  moreover have "concat (map (\<lambda>raw. let starts = inline_starts None 0 raw
      in if length starts < 2 then [raw] else cut_at starts raw) ls) = ls"
    using assms by (induction ls) auto
  ultimately show ?thesis by (simp add: raw_lines_def)
qed

lemma parse_formatted_block:
  assumes "memory_ok mem" and "mem \<noteq> []"
  shows "parse_memory_block (concat (map (\<lambda>l. l @ [CHR 0x0A]) ([] # concat (map memory_lines mem)))) = Some mem"
proof -
  have ok: "list_all memory_entry_ok mem" "distinct (map fst mem)" using assms(1) by (simp_all add: memory_ok_def)
  have "raw_lines (concat (map (\<lambda>l. l @ [CHR 0x0A]) ([] # concat (map memory_lines mem))))
      = [] # concat (map memory_lines mem)"
  proof (rule raw_lines_short)
    fix l assume "l \<in> set ([] # concat (map memory_lines mem))"
    then consider "l = []" | kv where "kv \<in> set mem" "l \<in> set (memory_lines kv)" by auto
    then show "list_all (\<lambda>c. \<not> is_break c) l \<and> length (inline_starts None 0 l) < 2"
    proof cases
      case 2
      then show ?thesis using memory_lines_plain[of kv l] ok(1) by (auto simp: list_all_iff)
    qed simp
  qed
  moreover have "memory_line [] ([], None) = ([], None)" by (simp add: memory_line_def)
  ultimately show ?thesis
    using memory_read[of "[]" mem None] ok assms(2) by (simp add: parse_memory_block_def)
qed

section \<open>Selecting a branch of a retrieved convention\<close>

text \<open>
  A retrieved convention is a record, an entry of the memory store or a mapping; what the code
  ignores is \<open>COther\<close>.  \<open>ConventionRecord.to_dict\<close> is read for its branches only.
\<close>

datatype convention = CRecord "pydict list" | CEntry pydict | CMapping pydict | COther

datatype retry_config = CfgMapping pydict | CfgObject "pyval option"

record validation =
  va_valid :: bool
  va_reason :: "string option"
  va_branch :: "string option"
  va_fields :: "string list"
  va_max_retries :: int
  va_selected :: "pydict option"

definition memory_config :: "retry_config \<Rightarrow> retry_config" where
  "memory_config c =
     (case c of
        CfgMapping d \<Rightarrow> (case dict_get d ''memory'' of VDict m \<Rightarrow> CfgMapping m | _ \<Rightarrow> c)
      | CfgObject _ \<Rightarrow> c)"

definition conf_max_retries :: "retry_config \<Rightarrow> int" where
  "conf_max_retries c =
     (let v = (case memory_config c of
          CfgMapping d \<Rightarrow> dict_get_default d ''convention_branch_selection_max_retries'' (VInt 1)
        | CfgObject a \<Rightarrow> (case a of None \<Rightarrow> VInt 1 | Some v \<Rightarrow> v))
      in case v of VInt i \<Rightarrow> max 0 i | _ \<Rightarrow> 1)"

definition record_payload :: "convention \<Rightarrow> pydict option" where
  "record_payload c =
     (case c of
        CRecord bs \<Rightarrow> Some [(KStr ''branches'', VList (map VDict bs))]
      | CEntry payload \<Rightarrow> (case dict_get payload ''record'' of VDict r \<Rightarrow> Some r | _ \<Rightarrow> None)
      | CMapping d \<Rightarrow> (case dict_get d ''record'' of VDict r \<Rightarrow> Some r | _ \<Rightarrow> Some d)
      | COther \<Rightarrow> None)"

fun str_key :: "pykey \<Rightarrow> bool" where
  "str_key (KStr _) = True" | "str_key _ = False"

text \<open>One branch: its id and fields, or \<open>None\<close> when it is skipped.\<close>

definition branch_of :: "pyval \<Rightarrow> (string \<times> pydict) option" where
  "branch_of b =
     (case b of
        VDict d \<Rightarrow>
          (case (dict_get d ''branch_id'', dict_get d ''fields'') of
             (VStr i, VDict f) \<Rightarrow> if list_all (str_key \<circ> fst) f then Some (i, f) else None
           | _ \<Rightarrow> None)
      | _ \<Rightarrow> None)"

definition branches_of :: "convention \<Rightarrow> (string \<times> pydict) list" where
  "branches_of c =
     (case record_payload c of
        None \<Rightarrow> []
      | Some r \<Rightarrow> (case dict_get r ''branches'' of VList bs \<Rightarrow> List.map_filter branch_of bs | _ \<Rightarrow> []))"

definition conv_branches :: "convention list \<Rightarrow> (string \<times> pydict) list \<times> string list" where
  "conv_branches cs =
     (let bs = concat (map branches_of cs)
      in (bs, remdups (concat (map (map (key_str \<circ> fst) \<circ> snd) bs))))"

text \<open>
  \<open>^\s*SELECTED_BRANCH\s*:\s*(\S+)\s*$\<close> under \<open>re.MULTILINE\<close>: after the branch the blanks run to
  the end of the text, or up to their last newline.
\<close>

definition literal :: "string \<Rightarrow> string \<Rightarrow> string option" where
  "literal p s = (if starts_with p s then Some (drop (length p) s) else None)"

definition marked_head :: "string \<Rightarrow> char option \<Rightarrow> string \<Rightarrow> string option" where
  "marked_head name prev s =
     (if at_line_start prev
      then (case literal name (skip_spaces s) of
              None \<Rightarrow> None
            | Some r \<Rightarrow> map_option skip_spaces (literal '':'' (skip_spaces r)))
      else None)"

definition marked_branch :: pattern where
  "marked_branch prev s =
     (case marked_head ''SELECTED_BRANCH'' prev s of
        None \<Rightarrow> 0
      | Some r \<Rightarrow>
          (let b = takeWhile (\<lambda>c. \<not> is_space c) r; rest = dropWhile (\<lambda>c. \<not> is_space c) r;
               blanks = takeWhile is_space rest; used = length s - length rest
           in if b = [] then 0
              else if blanks = rest then length s
              else if CHR 0x0A \<in> set blanks
                   then used + length (dropWhile (\<lambda>c. c \<noteq> CHR 0x0A) (rev blanks)) - 1
              else 0))"

definition marked_selections :: "pydict \<Rightarrow> string list" where
  "marked_selections out =
     (case dict_get out ''response'' of
        VStr t \<Rightarrow> map (\<lambda>mt. strip (drop 1 (dropWhile (\<lambda>c. c \<noteq> CHR '':'') mt))) (find_all marked_branch None t)
      | _ \<Rightarrow> [])"

fun marked_evidence :: "char option \<Rightarrow> string \<Rightarrow> bool" where
  "marked_evidence prev [] = False"
| "marked_evidence prev (c # cs) =
     ((case marked_head ''BRANCH_EVIDENCE'' prev (c # cs) of Some r \<Rightarrow> r \<noteq> [] | None \<Rightarrow> False)
      \<or> marked_evidence (Some c) cs)"

definition current_run_evidence :: "pydict \<Rightarrow> bool" where
  "current_run_evidence out =
     (case dict_get out ''current_run_evidence'' of
        VStr s \<Rightarrow> strip s \<noteq> []
      | VDict d \<Rightarrow> d \<noteq> []
      | VList xs \<Rightarrow> xs \<noteq> []
      | VNone \<Rightarrow> (case dict_get out ''response'' of VStr t \<Rightarrow> marked_evidence None t | _ \<Rightarrow> False)
      | v \<Rightarrow> v \<noteq> VBool False)"

text \<open>The selected id, and the branch it names or the reason and id of the refusal.\<close>

definition picked_branch :: "pydict \<Rightarrow> pyval" where
  "picked_branch d =
     (let sel = dict_get d ''selected_branch_id''; marked = marked_selections d
      in if sel = VNone \<and> marked \<noteq> [] then VStr (hd marked) else sel)"

definition select_branch ::
  "pydict \<Rightarrow> (string \<times> pydict) list \<Rightarrow> string \<times> string option + string \<times> pydict" where
  "select_branch d branches =
     (let sel = dict_get d ''selected_branch_id'' in
      if is_list sel \<or> sel = VNone \<and> 1 < length (marked_selections d)
      then Inl (''multiple_branch_selection'', None)
      else (case picked_branch d of
          VStr s \<Rightarrow>
            if strip s = [] then Inl (''selected_branch_id_missing'', None)
            else if dict_lookup d ''selected_branch_ids'' \<noteq> None then Inl (''multiple_branch_selection'', Some s)
            else (case filter (\<lambda>b. fst b = s) branches of
                [b] \<Rightarrow>
                  if current_run_evidence d then Inr b else Inl (''current_run_evidence_missing'', Some s)
              | _ \<Rightarrow> Inl (''selected_branch_id_not_unique'', Some s))
        | _ \<Rightarrow> Inl (''selected_branch_id_missing'', None)))"

definition validate_branch_selection :: "pyval \<Rightarrow> convention list \<Rightarrow> retry_config \<Rightarrow> validation" where
  "validate_branch_selection out conventions config =
     (let (branches, fields) = conv_branches conventions
      in case (case out of
                 VDict d \<Rightarrow> select_branch d branches
               | _ \<Rightarrow> Inl (''structured_output_not_mapping'', None)) of
           Inl (reason, bid) \<Rightarrow>
             \<lparr>va_valid = False, va_reason = Some reason, va_branch = bid, va_fields = fields,
              va_max_retries = conf_max_retries config, va_selected = None\<rparr>
         | Inr (s, f) \<Rightarrow>
             \<lparr>va_valid = True, va_reason = None, va_branch = Some s, va_fields = fields,
              va_max_retries = conf_max_retries config, va_selected = Some f\<rparr>)"

lemma conv_branches_member:
  assumes "conv_branches cs = (bs, fs)" and "(i, f) \<in> set bs"
  shows "\<exists>c \<in> set cs. (i, f) \<in> set (branches_of c)" and "\<forall>k \<in> fst ` set f. key_str k \<in> set fs"
proof -
  from assms(1) have bs: "bs = concat (map branches_of cs)"
    and fs: "fs = remdups (concat (map (map (key_str \<circ> fst) \<circ> snd) bs))"
    by (auto simp: conv_branches_def Let_def)
  show "\<exists>c \<in> set cs. (i, f) \<in> set (branches_of c)" using assms(2) bs by auto
  show "\<forall>k \<in> fst ` set f. key_str k \<in> set fs"
    using assms(2) unfolding fs by force
qed

lemma filter_single:
  assumes "filter P xs = [x]" shows "x \<in> set xs" "P x" "\<And>y. y \<in> set xs \<Longrightarrow> P y \<Longrightarrow> y = x"
proof -
  have s: "{y \<in> set xs. P y} = {x}" using assms by (metis empty_set filter_set list.simps(15) set_filter)
  then show "x \<in> set xs" "P x" "\<And>y. y \<in> set xs \<Longrightarrow> P y \<Longrightarrow> y = x" by auto
qed

lemma selected_branch:
  assumes "select_branch d bs = Inr (s, f)"
  shows "filter (\<lambda>b. fst b = s) bs = [(s, f)]" and "current_run_evidence d"
    and "dict_get d ''selected_branch_id'' = VStr s \<or> marked_selections d = [s]"
proof -
  let ?sel = "dict_get d ''selected_branch_id''"
  have g: "\<not> is_list ?sel" "\<not> (?sel = VNone \<and> 1 < length (marked_selections d))"
    using assms by (auto simp: select_branch_def Let_def split: if_splits)
  have "select_branch d bs = (case picked_branch d of
          VStr s \<Rightarrow>
            if strip s = [] then Inl (''selected_branch_id_missing'', None)
            else if dict_lookup d ''selected_branch_ids'' \<noteq> None then Inl (''multiple_branch_selection'', Some s)
            else (case filter (\<lambda>b. fst b = s) bs of
                [b] \<Rightarrow>
                  if current_run_evidence d then Inr b else Inl (''current_run_evidence_missing'', Some s)
              | _ \<Rightarrow> Inl (''selected_branch_id_not_unique'', Some s))
        | _ \<Rightarrow> Inl (''selected_branch_id_missing'', None))" unfolding select_branch_def Let_def by (rule if_not_P) (use g in blast)
  with assms obtain t where t: "picked_branch d = VStr t" "filter (\<lambda>b. fst b = t) bs = [(s, f)]" "current_run_evidence d"
    by (auto split: pyval.splits if_splits list.splits)
  have "s = t" using filter_single(2)[OF t(2)] by simp
  with t show "filter (\<lambda>b. fst b = s) bs = [(s, f)]" "current_run_evidence d" by simp_all
  show "?sel = VStr s \<or> marked_selections d = [s]"
    using t(1) g(2) \<open>s = t\<close> by (cases "marked_selections d") (auto simp: picked_branch_def Let_def split: if_splits)
qed

section \<open>Properties\<close>



text \<open>
  When \<open>validate_branch_selection\<close> accepts an answer, the selected fields are those of a
  branch of a retrieved convention with the selected id, no other branch has that id, the
  fields are convention fields, the answer carries current-run evidence, and a branch taken
  from marked lines is the only one marked.
\<close>

theorem accepted_selection:
  assumes "va_valid (validate_branch_selection out cs cfg)"
  shows "\<exists>d s f c. out = VDict d \<and> va_branch (validate_branch_selection out cs cfg) = Some s
     \<and> va_selected (validate_branch_selection out cs cfg) = Some f
     \<and> c \<in> set cs \<and> (s, f) \<in> set (branches_of c)
     \<and> (\<forall>g. (s, g) \<in> set (fst (conv_branches cs)) \<longrightarrow> g = f)
     \<and> (\<forall>k \<in> fst ` set f. key_str k \<in> set (va_fields (validate_branch_selection out cs cfg)))
     \<and> current_run_evidence d
     \<and> (dict_get d ''selected_branch_id'' = VStr s \<or> marked_selections d = [s])"
proof -
  obtain bs fs where b: "conv_branches cs = (bs, fs)" by fastforce
  then obtain d s f where out: "out = VDict d" and sel: "select_branch d bs = Inr (s, f)"
    using assms by (auto simp: validate_branch_selection_def split: sum.splits pyval.splits)
  then have v: "validate_branch_selection out cs cfg = \<lparr>va_valid = True, va_reason = None, va_branch = Some s,
      va_fields = fs, va_max_retries = conf_max_retries cfg, va_selected = Some f\<rparr>"
    by (simp add: validate_branch_selection_def b)
  note one = filter_single[OF selected_branch(1)[OF sel]]
  have "g = f" if "(s, g) \<in> set bs" for g using one(3)[OF that] by simp
  with one(1) have i: "(s, f) \<in> set bs" "\<forall>g. (s, g) \<in> set bs \<longrightarrow> g = f" by blast+
  from conv_branches_member[OF b i(1)] obtain c where c: "c \<in> set cs" "(s, f) \<in> set (branches_of c)"
    and k: "\<forall>k \<in> fst ` set f. key_str k \<in> set fs" by blast
  note parts = out c k i(2) selected_branch(2,3)[OF sel]
  show ?thesis unfolding v b validation.simps fst_conv
    by (intro exI[of _ d] exI[of _ s] exI[of _ f] exI[of _ c] conjI refl parts)
qed

theorem accepted_selection_witness:
  "va_selected (validate_branch_selection
      (VDict [(KStr ''response'', VStr (''Refund.'' @ [CHR 0x0A] @ ''SELECTED_BRANCH: late'' @ [CHR 0x0A] @
          ''BRANCH_EVIDENCE: order 7 is late''))])
      [CRecord [[(KStr ''branch_id'', VStr ''late''), (KStr ''fields'', VDict [(KStr ''code'', VInt 3)])]]]
      (CfgObject None)) = Some [(KStr ''code'', VInt 3)]"
proof -
  let ?out = "VDict [(KStr ''response'', VStr (''Refund.'' @ [CHR 0x0A] @ ''SELECTED_BRANCH: late'' @ [CHR 0x0A] @
          ''BRANCH_EVIDENCE: order 7 is late''))]"
  let ?c = "CRecord [[(KStr ''branch_id'', VStr ''late''), (KStr ''fields'', VDict [(KStr ''code'', VInt 3)])]]"
  have v: "va_valid (validate_branch_selection ?out [?c] (CfgObject None))" by code_simp
  have bs: "branches_of ?c = [(''late'', [(KStr ''code'', VInt 3)])]" by code_simp
  from accepted_selection[OF v] show ?thesis using bs by auto
qed

end
