(* ===== verification/Agent_Types.thy ===== *)
theory Agent_Types
  imports Planner Tools Toon Agent_Output
begin

text \<open>
  The state of one agent run (\<open>_run_single_attempt\<close> of \<open>src/fabri/core/agent.py\<close>): the
  messages, the trace, the usage totals and the settings the run reads.  Code that may raise
  and changes the run is a function from a run to an exception or a result and the new run;
  \<open>abind\<close> sequences it.  Time stamps and elapsed times are left out of the trace, log lines
  are not modelled, and a backend, the sandbox and the tool handlers act on a world of any
  type \<open>'w\<close>.
\<close>

named_theorems act_simps \<open>unfolding of sequenced actions\<close>

section \<open>Floats\<close>

fun pf_neg :: "pyfloat \<Rightarrow> pyfloat" where
  "pf_neg (Fin x) = Fin (- x)" | "pf_neg PosInf = NegInf" | "pf_neg NegInf = PosInf" | "pf_neg NaN = NaN"

fun pf_add :: "pyfloat \<Rightarrow> pyfloat \<Rightarrow> pyfloat" where
  "pf_add (Fin x) (Fin y) = Fin (x + y)"
| "pf_add NaN y = NaN"
| "pf_add x NaN = NaN"
| "pf_add PosInf NegInf = NaN"
| "pf_add NegInf PosInf = NaN"
| "pf_add PosInf y = PosInf"
| "pf_add x PosInf = PosInf"
| "pf_add NegInf y = NegInf"
| "pf_add x NegInf = NegInf"

fun pf_le :: "pyfloat \<Rightarrow> pyfloat \<Rightarrow> bool" where
  "pf_le (Fin x) (Fin y) = (x \<le> y)"
| "pf_le NaN y = False"
| "pf_le x NaN = False"
| "pf_le NegInf y = True"
| "pf_le x PosInf = True"
| "pf_le x y = False"

definition pf_less :: "pyfloat \<Rightarrow> pyfloat \<Rightarrow> bool" where
  "pf_less x y = (pf_le x y \<and> x \<noteq> y)"

fun pf_round6 :: "pyfloat \<Rightarrow> pyfloat" where
  "pf_round6 (Fin x) = Fin (round6 x)" | "pf_round6 f = f"

section \<open>Messages and backends\<close>

datatype agent_exc = LLMFault string "usage option" | ProtocolFault string | Escaped string

definition exc_text :: "agent_exc \<Rightarrow> string" where
  "exc_text e =
     (case e of LLMFault m _ \<Rightarrow> ''LLMError: '' @ m | ProtocolFault m \<Rightarrow> ''AgentProtocolError: '' @ m | Escaped m \<Rightarrow> m)"

datatype block =
    TextBlock string
  | ToolUse "string option" string pydict
  | ToolResult "string option" string

datatype content = CText string | CBlocks "block list"

record message =
  msg_role :: string
  msg_content :: content

definition user_msg :: "string \<Rightarrow> message" where
  "user_msg t = \<lparr>msg_role = ''user'', msg_content = CText t\<rparr>"

definition assistant_msg :: "string \<Rightarrow> message" where
  "assistant_msg t = \<lparr>msg_role = ''assistant'', msg_content = CText t\<rparr>"

type_synonym 'w backend = "string \<Rightarrow> message list \<Rightarrow> 'w \<Rightarrow> (agent_exc + llm_response) \<times> 'w"

section \<open>Events\<close>

datatype outcome =
    Success | SuccessWithRecovery | Incomplete | IncompleteWithToolFailure
  | BudgetExceeded | Failed | InvalidOutput | AllToolsFailed

fun outcome_value :: "outcome \<Rightarrow> string" where
  "outcome_value Success = ''success''"
| "outcome_value SuccessWithRecovery = ''success_with_recovery''"
| "outcome_value Incomplete = ''incomplete''"
| "outcome_value IncompleteWithToolFailure = ''incomplete_with_tool_failure''"
| "outcome_value BudgetExceeded = ''budget_exceeded''"
| "outcome_value Failed = ''failed''"
| "outcome_value InvalidOutput = ''invalid_output''"
| "outcome_value AllToolsFailed = ''all_tools_failed''"

datatype step_reason = RTools bool nat "rat option" | RFinal "rat option" | RLLMError | RProtocolError

record spawn_stats =
  sp_count :: nat
  sp_ok :: nat
  sp_failed :: nat
  sp_max_cost :: pyfloat
  sp_regret :: nat

definition no_spawns :: spawn_stats where
  "no_spawns = \<lparr>sp_count = 0, sp_ok = 0, sp_failed = 0, sp_max_cost = Fin 0, sp_regret = 0\<rparr>"

text \<open>The usage of a finished run.\<close>

record run_usage =
  ru_totals :: usage
  ru_steps :: nat
  ru_cost :: rat
  ru_cost_by_model :: "(string \<times> rat) list"
  ru_child_cost :: pyfloat
  ru_total_cost :: pyfloat
  ru_reuse_rate :: "rat option"
  ru_retrieved :: int
  ru_from_prior :: int
  ru_spawns :: spawn_stats
  ru_tools :: "(string \<times> tool_stats) list"

datatype event =
    EvStart string
  | EvStepStarted nat
  | EvStepFinished nat step_reason
  | EvThought string nat
  | EvNarration nat string string
  | EvToolStarted nat nat string pydict "pyval option"
  | EvParallelGroup nat pyval "(nat \<times> string) list"
  | EvToolCall nat nat string pydict pydict "(string \<times> string list) option" "pyval option"
  | EvCostUnaccounted nat string pyval pyval pyval
  | EvDelegationRegret string pyval pyfloat
  | EvBudgetExceeded nat
  | EvToolsExposed "string list"
  | EvStructured nat nat bool "string list"
  | EvError "string option" outcome
  | EvPlanStarted "plan_item list" "nat list"
  | EvPlanItemStarted nat string "string list"
  | EvPlanItemFinished nat bool "string option"
  | EvPlanFinished nat nat
  | EvFinal "string option" outcome
  | EvFailed "string option" outcome "string option"
  | EvIncomplete outcome "string option"
  | EvUsage run_usage
  | EvRepairAttempt nat int string
  | EvRepairAborted string nat

section \<open>Settings and state\<close>

type_synonym tool_def = "string \<times> string \<times> pyval"

record 'w settings =
  ag_llm :: "'w backend"
  ag_set_tools :: "(tool_def list \<Rightarrow> 'w \<Rightarrow> 'w) option"
  ag_decompose_llm :: "'w backend option"
  ag_planner_llm :: "'w backend option"
  ag_narrator :: "'w backend option"
  ag_schedule :: "nat list \<Rightarrow> 'w \<Rightarrow> nat list"
  ag_prices :: "(string \<times> (rat option \<times> rat option)) list option"
  ag_loads :: "string \<Rightarrow> pyval option"
  ag_dumps :: "pyval \<Rightarrow> string"
  ag_repr :: "pyval \<Rightarrow> string"
  ag_frepr :: "pyfloat \<Rightarrow> string"
  ag_json_error :: "string \<Rightarrow> string"
  ag_task :: string
  ag_system :: string
  ag_result_format :: string
  ag_output_format :: string
  ag_max_steps :: int
  ag_max_subquestions :: int
  ag_max_cost :: "pyfloat option"
  ag_tool_retrieval :: bool
  ag_planner_mode :: string
  ag_planner_max_items :: int
  ag_planner_threshold :: int
  ag_planner_prompt :: string
  ag_schema :: pydict
  ag_retries :: int
  ag_error_strategy :: string
  ag_fallback :: pyval
  ag_conventions :: "convention list"
  ag_conv_retries :: "int option"

record 'w run =
  rs_world :: 'w
  rs_reg :: "'w registry"
  rs_totals :: usage
  rs_models :: "(string \<times> usage) list"
  rs_child_cost :: pyfloat
  rs_spawns :: spawn_stats
  rs_last_text :: "string option"
  rs_narrated :: "string option"
  rs_visible :: "manifest list"
  rs_convention :: "string option"
  rs_trace :: "event list"

section \<open>Actions\<close>

type_synonym ('w, 'a) act = "'w run \<Rightarrow> (agent_exc + 'a) \<times> 'w run"

definition areturn :: "'a \<Rightarrow> ('w, 'a) act" where
  "areturn x s = (Inr x, s)"

definition araise :: "agent_exc \<Rightarrow> ('w, 'a) act" where
  "araise e s = (Inl e, s)"

definition abind :: "('w, 'a) act \<Rightarrow> ('a \<Rightarrow> ('w, 'b) act) \<Rightarrow> ('w, 'b) act" where
  "abind m f s = (case m s of (Inl e, s') \<Rightarrow> (Inl e, s') | (Inr x, s') \<Rightarrow> f x s')"

text \<open>An action that cannot raise; the state as it is; \<open>except Exception\<close>.\<close>

definition amodify :: "('w run \<Rightarrow> 'w run) \<Rightarrow> ('w, unit) act" where
  "amodify f s = (Inr (), f s)"

definition aget :: "('w run \<Rightarrow> 'a) \<Rightarrow> ('w, 'a) act" where
  "aget f s = (Inr (f s), s)"

definition acatch :: "('w, 'a) act \<Rightarrow> (agent_exc \<Rightarrow> ('w, 'a) act) \<Rightarrow> ('w, 'a) act" where
  "acatch m h s = (case m s of (Inl e, s') \<Rightarrow> h e s' | r \<Rightarrow> r)"

definition log_event :: "event \<Rightarrow> 'w run \<Rightarrow> 'w run" where
  "log_event e s = s\<lparr>rs_trace := rs_trace s @ [e]\<rparr>"

definition alog :: "event \<Rightarrow> ('w, unit) act" where
  "alog e = amodify (log_event e)"

definition ask :: "'w backend \<Rightarrow> string \<Rightarrow> message list \<Rightarrow> ('w, llm_response) act" where
  "ask b system msgs s = (case b system msgs (rs_world s) of (r, w) \<Rightarrow> (r, s\<lparr>rs_world := w\<rparr>))"

section \<open>Usage and budget\<close>

definition add_usage :: "usage \<Rightarrow> usage \<Rightarrow> usage" where
  "add_usage u v = u\<lparr>u_input := u_input u + u_input v, u_output := u_output u + u_output v,
     u_cache_creation := u_cache_creation u + u_cache_creation v, u_cache_read := u_cache_read u + u_cache_read v,
     u_transient_retries := u_transient_retries u + u_transient_retries v,
     u_max_token_retries := u_max_token_retries u + u_max_token_retries v\<rparr>"

definition model_key :: "usage \<Rightarrow> string" where
  "model_key v = (case u_model v of None \<Rightarrow> [] | Some m \<Rightarrow> m)"

definition accumulate :: "usage option \<Rightarrow> 'w run \<Rightarrow> 'w run" where
  "accumulate resp s =
     (case resp of
        None \<Rightarrow> s
      | Some v \<Rightarrow>
          (let key = model_key v;
               bucket = (case map_of (rs_models s) key of
                   None \<Rightarrow> empty_usage\<lparr>u_model := u_model v\<rparr> | Some b \<Rightarrow> b)
           in s\<lparr>rs_totals := add_usage (rs_totals s) v,
                rs_models := AList.update key (add_usage bucket v) (rs_models s)\<rparr>))"

definition own_cost :: "'w settings \<Rightarrow> 'w run \<Rightarrow> rat" where
  "own_cost cfg s =
     sum_list (map (\<lambda>(_, b). case cost_for (ag_prices cfg) b of None \<Rightarrow> 0 | Some c \<Rightarrow> c) (rs_models s))"

definition budget_breached :: "'w settings \<Rightarrow> 'w run \<Rightarrow> bool" where
  "budget_breached cfg s =
     (case ag_max_cost cfg of
        None \<Rightarrow> False
      | Some cap \<Rightarrow> pf_le cap (pf_add (Fin (own_cost cfg s)) (rs_child_cost s)))"

definition track_last_text :: "llm_response \<Rightarrow> 'w run \<Rightarrow> 'w run" where
  "track_last_text r s =
     (case r_final_text r of
        Some (c # cs) \<Rightarrow> s\<lparr>rs_last_text := Some (c # cs)\<rparr>
      | _ \<Rightarrow> (case r_thinking_text r of
          Some (c # cs) \<Rightarrow> s\<lparr>rs_last_text := Some (c # cs)\<rparr> | _ \<Rightarrow> s))"

section \<open>The scripted backend\<close>

text \<open>\<open>ScriptedLLMBackend\<close>: a backend whose world is its script and position.\<close>

record scripted =
  sc_script :: "llm_response list"
  sc_pos :: nat

definition scripted_step :: "scripted backend" where
  "scripted_step system msgs w =
     (if length (sc_script w) \<le> sc_pos w
      then (Inl (Escaped ''RuntimeError: ScriptedLLMBackend script exhausted''), w)
      else (Inr (sc_script w ! sc_pos w), w\<lparr>sc_pos := sc_pos w + 1\<rparr>))"

definition scripted_set_tools :: "tool_def list \<Rightarrow> scripted \<Rightarrow> scripted" where
  "scripted_set_tools defs w = w"

text \<open>The defaults of \<open>run_agent\<close> over a scripted backend, and a fresh run; used by the examples.\<close>

definition scripted_settings :: "scripted settings" where
  "scripted_settings = \<lparr>ag_llm = scripted_step, ag_set_tools = Some scripted_set_tools, ag_decompose_llm = None,
     ag_planner_llm = None, ag_narrator = None, ag_schedule = (\<lambda>is w. rev is), ag_prices = None,
     ag_loads = (\<lambda>_. None), ag_dumps = (\<lambda>_. ''{}''), ag_repr = (\<lambda>_. ''?''), ag_frepr = (\<lambda>_. ''0.5''),
     ag_json_error = (\<lambda>_. ''Expecting value''), ag_task = ''task'', ag_system = [], ag_result_format = ''toon'',
     ag_output_format = ''json'', ag_max_steps = 10, ag_max_subquestions = 5, ag_max_cost = None,
     ag_tool_retrieval = False, ag_planner_mode = ''off'', ag_planner_max_items = 8, ag_planner_threshold = 80,
     ag_planner_prompt = [], ag_schema = [], ag_retries = 1, ag_error_strategy = ''strict'', ag_fallback = VNone,
     ag_conventions = [], ag_conv_retries = None\<rparr>"

definition new_run :: "'w \<Rightarrow> 'w registry \<Rightarrow> 'w run" where
  "new_run w reg = \<lparr>rs_world = w, rs_reg = reg, rs_totals = empty_usage, rs_models = [], rs_child_cost = Fin 0,
     rs_spawns = no_spawns, rs_last_text = None, rs_narrated = None, rs_visible = list_tools reg,
     rs_convention = None, rs_trace = []\<rparr>"

definition plain_manifest :: "string \<Rightarrow> manifest" where
  "plain_manifest name = \<lparr>m_name = name, m_description = [], m_command = [], m_input_schema = VDict [],
     m_output_schema = VDict [], m_timeout_s = 10, m_approval = None, m_aliases = [], m_title = None\<rparr>"

definition scripted_registry :: "(string \<times> scripted handler) list \<Rightarrow> scripted registry" where
  "scripted_registry hs = \<lparr>r_tools = map (\<lambda>(n, _). (n, plain_manifest n)) hs, r_callables = hs,
     r_sandbox = (\<lambda>_ _ _ w. (Inr [], w)), r_sandbox_root = None, r_approver = None, r_exposed = [],
     r_stats = [], r_clock = (\<lambda>_. 0), r_text = (\<lambda>_. [])\<rparr>"

section \<open>Laws of actions\<close>

lemma abind_Inr_iff [act_simps]:
  "abind m f s = (Inr y, t) \<longleftrightarrow> (\<exists>x s'. m s = (Inr x, s') \<and> f x s' = (Inr y, t))"
  by (auto simp: abind_def split: prod.splits sum.splits)

lemma act_base [act_simps]:
  "areturn x s = (Inr x, s)" "araise e s = (Inl e, s)" "amodify f s = (Inr (), f s)" "aget g s = (Inr (g s), s)"
  "alog ev s = (Inr (), log_event ev s)"
  by (simp_all add: areturn_def araise_def amodify_def aget_def alog_def)

lemma abind_base [act_simps]:
  "abind (areturn x) f = f x" "abind (araise e) f = araise e" "abind (amodify g) k s = k () (g s)"
  "abind (aget h) j s = j (h s) s" "abind (alog ev) k s = k () (log_event ev s)"
  by (auto simp: abind_def areturn_def araise_def amodify_def aget_def alog_def)

lemma abind_assoc: "abind (abind m f) g = abind m (\<lambda>x. abind (f x) g)"
  by (rule ext) (auto simp: abind_def split: prod.splits sum.splits)

lemma log_event_simps [simp]:
  "rs_world (log_event e s) = rs_world s" "rs_reg (log_event e s) = rs_reg s"
  "rs_totals (log_event e s) = rs_totals s" "rs_models (log_event e s) = rs_models s"
  "rs_child_cost (log_event e s) = rs_child_cost s" "rs_spawns (log_event e s) = rs_spawns s"
  "rs_last_text (log_event e s) = rs_last_text s" "rs_narrated (log_event e s) = rs_narrated s"
  "rs_visible (log_event e s) = rs_visible s" "rs_convention (log_event e s) = rs_convention s"
  "rs_trace (log_event e s) = rs_trace s @ [e]"
  by (simp_all add: log_event_def)

text \<open>
  Evaluation: an action runs only at a state that is known, so that nothing is computed under
  a binder.
\<close>

definition at_run :: "'w run \<Rightarrow> ('w run \<Rightarrow> 'a) \<Rightarrow> 'a" where
  "at_run s f = f s"

lemma at_run_eval [code]:
  "at_run \<lparr>rs_world = w, rs_reg = r, rs_totals = u, rs_models = ms, rs_child_cost = cc, rs_spawns = sp,
     rs_last_text = lt, rs_narrated = nt, rs_visible = vt, rs_convention = cv, rs_trace = tr\<rparr> f =
   f \<lparr>rs_world = w, rs_reg = r, rs_totals = u, rs_models = ms, rs_child_cost = cc, rs_spawns = sp,
     rs_last_text = lt, rs_narrated = nt, rs_visible = vt, rs_convention = cv, rs_trace = tr\<rparr>"
  by (simp add: at_run_def)

lemma abind_eval [code]:
  "abind m f s = (case m s of (Inl e, t) \<Rightarrow> (Inl e, t) | (Inr x, t) \<Rightarrow> at_run t (f x))"
  by (auto simp: abind_def at_run_def split: prod.splits sum.splits)

lemma acatch_eval [code]:
  "acatch m h s = (case m s of (Inl e, t) \<Rightarrow> at_run t (h e) | (Inr x, t) \<Rightarrow> (Inr x, t))"
  by (auto simp: acatch_def at_run_def split: prod.splits sum.splits)

text \<open>
  A relation between the run before and after an action, whether the action returns or raises.
  A relation that is reflexive and transitive is kept by an action when its parts keep it.
\<close>

definition keeps :: "('w run \<Rightarrow> 'w run \<Rightarrow> bool) \<Rightarrow> ('w, 'a) act \<Rightarrow> bool" where
  "keeps R m \<longleftrightarrow> (\<forall>s. R s (snd (m s)))"

lemma keepsD: "keeps R m \<Longrightarrow> m s = (r, t) \<Longrightarrow> R s t"
  unfolding keeps_def by (metis snd_conv)

locale run_relation =
  fixes R :: "'w run \<Rightarrow> 'w run \<Rightarrow> bool"
  assumes refl: "R s s" and trans: "R s t \<Longrightarrow> R t u \<Longrightarrow> R s u"
begin

lemma keeps_base: "keeps R (areturn x)" "keeps R (araise e)" "keeps R (aget f)"
  by (simp_all add: keeps_def act_simps refl)

lemma keeps_amodify: "(\<And>s. R s (f s)) \<Longrightarrow> keeps R (amodify f)"
  by (simp add: keeps_def act_simps)

lemma keeps_alog: "(\<And>s. R s (log_event e s)) \<Longrightarrow> keeps R (alog e)"
  by (simp add: keeps_def act_simps)

lemma keeps_abind: "keeps R m \<Longrightarrow> (\<And>x. keeps R (f x)) \<Longrightarrow> keeps R (abind m f)"
  unfolding keeps_def abind_def by (auto split: prod.splits sum.splits intro: trans) (metis snd_conv trans)+

lemma keeps_acatch: "keeps R m \<Longrightarrow> (\<And>e. keeps R (h e)) \<Longrightarrow> keeps R (acatch m h)"
  unfolding keeps_def acatch_def by (auto split: prod.splits sum.splits intro: trans) (metis snd_conv trans)+

lemma keeps_if: "(b \<Longrightarrow> keeps R m) \<Longrightarrow> (\<not> b \<Longrightarrow> keeps R n) \<Longrightarrow> keeps R (if b then m else n)"
  by simp

lemma keeps_option:
  "(x = None \<Longrightarrow> keeps R m) \<Longrightarrow> (\<And>y. x = Some y \<Longrightarrow> keeps R (f y)) \<Longrightarrow>
     keeps R (case x of None \<Rightarrow> m | Some y \<Rightarrow> f y)"
  by (cases x) simp_all

lemma keeps_sum:
  "(\<And>e. x = Inl e \<Longrightarrow> keeps R (h e)) \<Longrightarrow> (\<And>y. x = Inr y \<Longrightarrow> keeps R (f y)) \<Longrightarrow>
     keeps R (case x of Inl e \<Rightarrow> h e | Inr y \<Rightarrow> f y)"
  by (cases x) simp_all

lemmas keeps_rules = keeps_base keeps_amodify keeps_alog keeps_abind keeps_acatch keeps_if keeps_option keeps_sum

end

text \<open>The trace only grows.\<close>

definition extends :: "'w run \<Rightarrow> 'w run \<Rightarrow> bool" where
  "extends s t \<longleftrightarrow> (\<exists>es. rs_trace t = rs_trace s @ es)"

interpretation grows: run_relation extends
  by unfold_locales (auto simp: extends_def)

text \<open>The events of a kind that an action adds.\<close>

definition same_events :: "(event \<Rightarrow> bool) \<Rightarrow> 'w run \<Rightarrow> 'w run \<Rightarrow> bool" where
  "same_events k s t \<longleftrightarrow> filter k (rs_trace t) = filter k (rs_trace s)"

interpretation silent: run_relation "same_events k" for k
  by unfold_locales (auto simp: same_events_def)

text \<open>What the budget is computed from.\<close>

definition same_cost :: "'w run \<Rightarrow> 'w run \<Rightarrow> bool" where
  "same_cost s t \<longleftrightarrow> rs_models t = rs_models s \<and> rs_child_cost t = rs_child_cost s"

interpretation unpriced: run_relation same_cost
  by unfold_locales (auto simp: same_cost_def)

lemma budget_same_cost: "same_cost s t \<Longrightarrow> budget_breached cfg t = budget_breached cfg s"
  by (simp add: same_cost_def budget_breached_def own_cost_def split: option.splits)

text \<open>Totals are the sums of the buckets.\<close>

definition usage_ok :: "'w run \<Rightarrow> bool" where
  "usage_ok s \<longleftrightarrow> distinct (map fst (rs_models s))
     \<and> (\<forall>f \<in> {u_input, u_output, u_cache_creation, u_cache_read, u_transient_retries, u_max_token_retries}.
          f (rs_totals s) = sum_list (map (f \<circ> snd) (rs_models s)))
     \<and> (\<forall>(k, b) \<in> set (rs_models s). model_key b = k)"

definition keeps_usage :: "'w run \<Rightarrow> 'w run \<Rightarrow> bool" where
  "keeps_usage s t \<longleftrightarrow> (usage_ok s \<longrightarrow> usage_ok t)"

interpretation accounted: run_relation keeps_usage
  by unfold_locales (auto simp: keeps_usage_def)

lemma sum_list_update:
  fixes f :: "usage \<Rightarrow> int"
  assumes "distinct (map fst d)"
  shows "sum_list (map (f \<circ> snd) (AList.update k b d))
    = sum_list (map (f \<circ> snd) d) - (case map_of d k of None \<Rightarrow> 0 | Some c \<Rightarrow> f c) + f b"
  using assms
proof (induction d)
  case (Cons kv d)
  then show ?case by (cases kv) (auto split: option.splits)
qed simp

lemma update_set: "(k, b) \<in> set (AList.update k' b' d) \<Longrightarrow> (k, b) \<in> set d \<or> k = k' \<and> b = b'"
  by (induction d) (auto split: if_splits)

lemma keeps_usage_accumulate: "keeps_usage s (accumulate u s)"
proof (cases u)
  case None
  then show ?thesis by (simp add: accumulate_def keeps_usage_def)
next
  case (Some v)
  show ?thesis unfolding keeps_usage_def
  proof
    assume ok: "usage_ok s"
    let ?k = "model_key v" and ?d = "rs_models s"
    define b where "b = (case map_of ?d ?k of None \<Rightarrow> empty_usage\<lparr>u_model := u_model v\<rparr> | Some b \<Rightarrow> b)"
    have t: "accumulate u s = s\<lparr>rs_totals := add_usage (rs_totals s) v, rs_models := AList.update ?k (add_usage b v) ?d\<rparr>"
      by (simp add: accumulate_def Some Let_def b_def)
    have d: "distinct (map fst ?d)" and keys: "\<forall>(k, b) \<in> set ?d. model_key b = k" using ok by (simp_all add: usage_ok_def)
    have "model_key b = ?k"
      using keys by (auto simp: b_def model_key_def dest!: map_of_SomeD split: option.splits)
    then have kb: "model_key (add_usage b v) = ?k" by (simp add: model_key_def add_usage_def)
    have f: "f (add_usage (rs_totals s) v) = sum_list (map (f \<circ> snd) (AList.update ?k (add_usage b v) ?d))"
      if "f \<in> {u_input, u_output, u_cache_creation, u_cache_read, u_transient_retries, u_max_token_retries}" for f
    proof -
      have add: "f (add_usage x y) = f x + f y" and zero: "f (empty_usage\<lparr>u_model := m\<rparr>) = 0" for x y m
        using that by (auto simp: add_usage_def empty_usage_def)
      have "f (rs_totals s) = sum_list (map (f \<circ> snd) ?d)" using ok that by (auto simp: usage_ok_def)
      then show ?thesis
        unfolding sum_list_update[OF d] add
        by (auto simp: b_def zero split: option.splits)
    qed
    have "\<forall>(k, c) \<in> set (AList.update ?k (add_usage b v) ?d). model_key c = k"
      using keys kb by (auto dest!: update_set)
    with f show "usage_ok (accumulate u s)"
      unfolding usage_ok_def t by (simp add: distinct_update d)
  qed
qed

end
