(* ===== verification/Agent_Dispatch.thy ===== *)
theory Agent_Dispatch
  imports Agent_Types
begin

text \<open>
  Tool dispatch (\<open>src/fabri/core/agent.py\<close>: \<open>_dispatch_tool_calls\<close> and what it calls;
  \<open>src/fabri/core/decompose.py\<close>).  Serial calls run first, in order; the members of a parallel
  group run in the order \<open>ag_schedule\<close> gives, one at a time: a call is one step of the model.
  The lemmas show that every schedule leaves one result per call and one pair of matching
  turns in the conversation.
\<close>

section \<open>Decomposition\<close>

definition try_json :: "'w settings \<Rightarrow> string \<Rightarrow> pyval option" where
  "try_json cfg t = ag_loads cfg (strip_fences t)"

definition try_toon :: "string \<Rightarrow> pyval option" where
  "try_toon t = (case decode (strip_fences t) of Inl _ \<Rightarrow> None | Inr v \<Rightarrow> Some v)"

fun list_value :: "pyval option \<Rightarrow> pyval list option" where
  "list_value (Some (VList xs)) = Some xs"
| "list_value _ = None"

definition parse_string_list :: "'w settings \<Rightarrow> string \<Rightarrow> string \<Rightarrow> pyval list option" where
  "parse_string_list cfg t prefer =
     (let j = list_value (try_json cfg t); n = list_value (try_toon t)
      in if prefer = ''toon'' then (case n of Some xs \<Rightarrow> Some xs | None \<Rightarrow> j)
         else (case j of Some xs \<Rightarrow> Some xs | None \<Rightarrow> n))"

definition decompose_prompt :: "'w settings \<Rightarrow> string \<Rightarrow> string" where
  "decompose_prompt cfg task =
     (let shape = (if ag_output_format cfg = ''toon''
          then ''a TOON array of strings, e.g. `[3]: first question,second question,third`''
          else ''a JSON list of strings, e.g. [\"first question\", \"second question\"]'')
      in ''Break this task into at most '' @ show_int (ag_max_subquestions cfg) @
         '' concrete, separately answerable sub-questions. Return ONLY '' @ shape @ ''.'' @
         [CHR 0x0A, CHR 0x0A] @ ''Task: '' @ task)"

definition decompose :: "'w settings \<Rightarrow> string \<Rightarrow> ('w, pydict) act" where
  "decompose cfg task =
     abind (ask (case ag_decompose_llm cfg of None \<Rightarrow> ag_llm cfg | Some b \<Rightarrow> b)
              ''You decompose research tasks into concrete sub-questions.'' [user_msg (decompose_prompt cfg task)])
       (\<lambda>response.
     abind (amodify (accumulate (llm_response.r_usage response))) (\<lambda>_.
     let t = strip (case r_final_text response of None \<Rightarrow> [] | Some t \<Rightarrow> t)
     in areturn
          (case parse_string_list cfg t (ag_output_format cfg) of
             None \<Rightarrow> err_result (''decompose: malformed response: '' @ ag_repr cfg (VStr t))
           | Some xs \<Rightarrow>
               tool_ok (VDict [(KStr ''subquestions'', VList (slice_to (ag_max_subquestions cfg) xs))]) [])))"

section \<open>Parallel groups\<close>

definition spawn_name :: string where "spawn_name = ''spawn_subagent''"
definition decompose_name :: string where "decompose_name = ''decompose''"

text \<open>The group of a call; only \<open>spawn_subagent\<close> takes part.\<close>

definition call_group :: "tool_call \<Rightarrow> pyval option" where
  "call_group c =
     (let g = dict_get (tc_args c) ''parallel_group''
      in if tc_name c = spawn_name \<and> truthy g then Some g else None)"

fun hashable :: "pyval \<Rightarrow> bool" where
  "hashable (VList _) = False" | "hashable (VDict _) = False" | "hashable _ = True"

fun add_to_group :: "pyval \<Rightarrow> nat \<Rightarrow> (pyval \<times> nat list) list \<Rightarrow> (pyval \<times> nat list) list" where
  "add_to_group g i [] = [(g, [i])]"
| "add_to_group g i ((h, is) # gs) =
     (if py_eq h g then (h, is @ [i]) # gs else (h, is) # add_to_group g i gs)"

fun index_parallel_groups ::
  "nat \<Rightarrow> tool_call list \<Rightarrow> (pyval \<times> nat list) list \<Rightarrow> agent_exc + (pyval \<times> nat list) list" where
  "index_parallel_groups i [] gs = Inr gs"
| "index_parallel_groups i (c # cs) gs =
     (case call_group c of
        None \<Rightarrow> index_parallel_groups (Suc i) cs gs
      | Some g \<Rightarrow>
          if hashable g then index_parallel_groups (Suc i) cs (add_to_group g i gs)
          else Inl (Escaped ''TypeError: unhashable type''))"

section \<open>One call\<close>

definition task_arg :: "'w run \<Rightarrow> string \<Rightarrow> pydict \<Rightarrow> string" where
  "task_arg s dflt args =
     (case dict_lookup args ''task'' of None \<Rightarrow> dflt | Some (VStr t) \<Rightarrow> t | Some v \<Rightarrow> r_text (rs_reg s) v)"

definition invoke_tool :: "string \<Rightarrow> pydict \<Rightarrow> ('w, pydict) act" where
  "invoke_tool name args s =
     (case invoke (rs_reg s) name (VDict args) (rs_world s) of
        (r, reg, w) \<Rightarrow> (emap_err Escaped r, s\<lparr>rs_reg := reg, rs_world := w\<rparr>))"

definition over_budget :: pydict where
  "over_budget = err_result ''cost budget exceeded; refusing to spawn sub-agent''"

definition dispatch_one :: "'w settings \<Rightarrow> string \<Rightarrow> tool_call \<Rightarrow> ('w, pydict) act" where
  "dispatch_one cfg dflt c s =
     (if tc_name c = decompose_name then decompose cfg (task_arg s dflt (tc_args c)) s
      else if tc_name c = spawn_name \<and> budget_breached cfg s then areturn over_budget s
      else invoke_tool (tc_name c) (tc_args c) s)"

section \<open>Running the calls\<close>

type_synonym results = "(nat \<times> pydict) list"

fun run_serial ::
  "'w settings \<Rightarrow> string \<Rightarrow> nat \<Rightarrow> nat list \<Rightarrow> (nat \<times> tool_call) list \<Rightarrow> results \<Rightarrow> ('w, results) act" where
  "run_serial cfg dflt n par [] res = areturn res"
| "run_serial cfg dflt n par ((i, c) # ics) res =
     (if i \<in> set par then run_serial cfg dflt n par ics res
      else abind (alog (EvToolStarted n i (tc_name c) (tc_args c) None)) (\<lambda>_.
           abind (dispatch_one cfg dflt c) (\<lambda>r.
           run_serial cfg dflt n par ics (AList.update i r res))))"

text \<open>The futures of a group in the order they complete; a raise becomes a failed result.\<close>

fun run_members ::
  "'w settings \<Rightarrow> string \<Rightarrow> tool_call list \<Rightarrow> nat list \<Rightarrow> results \<Rightarrow> ('w, results) act" where
  "run_members cfg dflt calls [] res = areturn res"
| "run_members cfg dflt calls (i # is) res =
     abind (acatch (dispatch_one cfg dflt (calls ! i))
              (\<lambda>e. areturn (err_result (tc_name (calls ! i) @ '': dispatch raised '' @ exc_text e))))
       (\<lambda>r. run_members cfg dflt calls is (AList.update i r res))"

definition start_members :: "nat \<Rightarrow> tool_call list \<Rightarrow> pyval \<Rightarrow> nat list \<Rightarrow> 'w run \<Rightarrow> 'w run" where
  "start_members n calls g is s =
     fold (\<lambda>i. log_event (EvToolStarted n i (tc_name (calls ! i)) (tc_args (calls ! i)) (Some g))) is s"

fun run_groups ::
  "'w settings \<Rightarrow> string \<Rightarrow> nat \<Rightarrow> tool_call list \<Rightarrow> (pyval \<times> nat list) list \<Rightarrow> results \<Rightarrow> ('w, results) act" where
  "run_groups cfg dflt n calls [] res = areturn res"
| "run_groups cfg dflt n calls ((g, is) # gs) res =
     abind (alog (EvParallelGroup n g (map (\<lambda>j. (j, tc_name (calls ! j))) is))) (\<lambda>_.
     abind (amodify (start_members n calls g is)) (\<lambda>_.
     abind (if length is = 1
            then abind (dispatch_one cfg dflt (calls ! hd is)) (\<lambda>r. areturn (AList.update (hd is) r res))
            else abind (aget (\<lambda>s. ag_schedule cfg is (rs_world s))) (\<lambda>order. run_members cfg dflt calls order res))
       (\<lambda>res'. run_groups cfg dflt n calls gs res')))"

section \<open>Accounting for a result\<close>

text \<open>\<open>float(x)\<close> of a number, \<open>None\<close> for anything else.\<close>

definition float_of :: "pyval \<Rightarrow> agent_exc + pyfloat option" where
  "float_of v =
     (case v of
        VInt i \<Rightarrow> if float_limit \<le> \<bar>i\<bar> then Inl (Escaped ''OverflowError'') else Inr (Some (Fin (of_int i)))
      | _ \<Rightarrow> Inr (num_of v))"

definition reported_cost :: "pydict \<Rightarrow> pyval" where
  "reported_cost u = (let c = dict_get u ''total_cost_usd'' in if c = VNone then dict_get u ''cost_usd'' else c)"

definition add_child_cost :: "pyfloat \<Rightarrow> 'w run \<Rightarrow> 'w run" where
  "add_child_cost c s = s\<lparr>rs_child_cost := pf_add (rs_child_cost s) c\<rparr>"

definition roll_up_cost :: "pydict \<Rightarrow> ('w, unit) act" where
  "roll_up_cost u =
     (case float_of (reported_cost u) of
        Inl e \<Rightarrow> araise e
      | Inr None \<Rightarrow> areturn ()
      | Inr (Some c) \<Rightarrow> amodify (add_child_cost c))"

definition float_or_zero :: "pyval \<Rightarrow> agent_exc + pyfloat" where
  "float_or_zero v =
     (if \<not> truthy v then Inr (Fin 0)
      else case v of
        VStr t \<Rightarrow> (case py_float t of None \<Rightarrow> Inl (Escaped ''ValueError'') | Some f \<Rightarrow> Inr f)
      | _ \<Rightarrow> ebind (float_of v) (\<lambda>f. case f of None \<Rightarrow> Inl (Escaped ''TypeError'') | Some f \<Rightarrow> Inr f))"

definition count_spawn :: "bool \<Rightarrow> 'w run \<Rightarrow> 'w run" where
  "count_spawn ok s =
     (let t = rs_spawns s; t = t\<lparr>sp_count := sp_count t + 1\<rparr>
      in s\<lparr>rs_spawns := (if ok then t\<lparr>sp_ok := sp_ok t + 1\<rparr> else t\<lparr>sp_failed := sp_failed t + 1\<rparr>)\<rparr>)"

definition note_max_cost :: "pyfloat \<Rightarrow> 'w run \<Rightarrow> 'w run" where
  "note_max_cost c s =
     (let t = rs_spawns s
      in if pf_less (sp_max_cost t) c then s\<lparr>rs_spawns := t\<lparr>sp_max_cost := pf_round6 c\<rparr>\<rparr> else s)"

definition note_regret :: "string \<Rightarrow> pyval \<Rightarrow> pyfloat \<Rightarrow> 'w run \<Rightarrow> 'w run" where
  "note_regret name steps c s =
     log_event (EvDelegationRegret name steps c)
       (s\<lparr>rs_spawns := (rs_spawns s)\<lparr>sp_regret := sp_regret (rs_spawns s) + 1\<rparr>\<rparr>)"

definition on_subagent_finished :: "string \<Rightarrow> bool \<Rightarrow> pydict option \<Rightarrow> ('w, unit) act" where
  "on_subagent_finished name ok child_usage =
     abind (amodify (count_spawn ok)) (\<lambda>_.
     case child_usage of
       None \<Rightarrow> areturn ()
     | Some u \<Rightarrow>
         if u = [] then areturn ()
         else (case float_or_zero (reported_cost u) of
             Inl e \<Rightarrow> araise e
           | Inr cost \<Rightarrow>
               abind (amodify (note_max_cost cost)) (\<lambda>_.
               let steps = dict_get_default u ''step_count'' (VInt 0) in
               if \<not> ok then areturn ()
               else case num_of steps of
                   None \<Rightarrow> araise (Escaped ''TypeError'')
                 | Some k \<Rightarrow>
                     if pf_le k (Fin 1) \<and> pf_less (Fin 0) cost
                     then amodify (note_regret name steps cost) else areturn ())))"

text \<open>The agent run inside a result, its usage, and whether it came from an agent.\<close>

definition child_of :: "pydict \<Rightarrow> pydict option" where
  "child_of result = (case dict_get result ''result'' of VDict d \<Rightarrow> Some d | _ \<Rightarrow> None)"

definition child_usage_of :: "pydict \<Rightarrow> pydict option" where
  "child_usage_of result =
     (case child_of result of
        Some d \<Rightarrow> (case dict_get d ''usage'' of VDict u \<Rightarrow> Some u | _ \<Rightarrow> None)
      | None \<Rightarrow> None)"

definition is_agent_child :: "string \<Rightarrow> pydict \<Rightarrow> bool" where
  "is_agent_child name result \<longleftrightarrow> name = spawn_name
     \<or> (case child_of result of
          Some d \<Rightarrow> dict_lookup d ''session_id'' \<noteq> None \<and> child_usage_of result \<noteq> None
        | None \<Rightarrow> False)"

definition result_ok :: "pydict \<Rightarrow> bool" where
  "result_ok result = truthy (dict_get result ''ok'')"

definition nested_failure :: "string \<Rightarrow> pydict \<Rightarrow> bool" where
  "nested_failure name result \<longleftrightarrow> is_agent_child name result \<and> result_ok result
     \<and> (case child_of result of
          Some d \<Rightarrow> dict_get d ''outcome'' \<noteq> VNone \<and> dict_get d ''outcome'' \<noteq> VStr (outcome_value Success)
        | None \<Rightarrow> False)"

definition call_aliases :: "'w registry \<Rightarrow> string \<Rightarrow> (string \<times> string list) option" where
  "call_aliases reg name =
     (case canonical_name reg name of
        None \<Rightarrow> None
      | Some c \<Rightarrow>
          (case map_of (r_tools reg) c of
             None \<Rightarrow> None
           | Some m \<Rightarrow> if c \<noteq> name \<or> m_aliases m \<noteq> [] then Some (c, m_aliases m) else None))"

definition unaccounted :: "nat \<Rightarrow> string \<Rightarrow> pydict \<Rightarrow> event" where
  "unaccounted n name result =
     (let payload = (case child_of result of Some d \<Rightarrow> d | None \<Rightarrow> []); err = dict_get result ''error''
      in EvCostUnaccounted n name (if truthy err then err else VStr ''sub-agent produced no usage'')
           (dict_get payload ''returncode'') (dict_get payload ''stderr_tail''))"

text \<open>One pass of the last loop: roll up, count, log; the value says whether the call failed.\<close>

definition account_result :: "nat \<Rightarrow> nat list \<Rightarrow> nat \<Rightarrow> tool_call \<Rightarrow> pydict \<Rightarrow> ('w, bool) act" where
  "account_result n par i c result =
     (let name = tc_name c; usage = child_usage_of result; group = dict_get (tc_args c) ''parallel_group'' in
      abind (if is_agent_child name result
             then abind (case usage of Some u \<Rightarrow> roll_up_cost u | None \<Rightarrow> areturn ())
                    (\<lambda>_. on_subagent_finished name (result_ok result) usage)
             else areturn ()) (\<lambda>_.
      abind (if name = spawn_name \<and> \<not> result_ok result \<and> usage = None
             then alog (unaccounted n name result) else areturn ()) (\<lambda>_.
      abind (aget (\<lambda>s. call_aliases (rs_reg s) name)) (\<lambda>al.
      abind (alog (EvToolCall n i name (tc_args c) result al
                     (if i \<in> set par \<and> truthy group then Some group else None))) (\<lambda>_.
      areturn (\<not> result_ok result \<or> nested_failure name result))))))"

fun account_all ::
  "nat \<Rightarrow> nat list \<Rightarrow> results \<Rightarrow> (nat \<times> tool_call) list \<Rightarrow> bool \<Rightarrow> ('w, bool) act" where
  "account_all n par res [] had = areturn had"
| "account_all n par res ((i, c) # ics) had =
     (case map_of res i of
        None \<Rightarrow> araise (Escaped ''KeyError'')
      | Some r \<Rightarrow> abind (account_result n par i c r) (\<lambda>b. account_all n par res ics (had \<or> b)))"

section \<open>The turn\<close>

definition encode_result :: "'w settings \<Rightarrow> pydict \<Rightarrow> string" where
  "encode_result cfg result =
     (if ag_result_format cfg = ''toon''
      then (case encode (ag_frepr cfg) (VDict result) of Some t \<Rightarrow> t | None \<Rightarrow> ag_dumps cfg (VDict result))
      else ag_dumps cfg (VDict result))"

definition result_at :: "results \<Rightarrow> nat \<Rightarrow> pydict" where
  "result_at res i = (case map_of res i of None \<Rightarrow> [] | Some r \<Rightarrow> r)"

definition turn_messages :: "'w settings \<Rightarrow> tool_call list \<Rightarrow> results \<Rightarrow> message list" where
  "turn_messages cfg calls res =
     (let ics = enumerate 0 calls; enc = (\<lambda>i. encode_result cfg (result_at res i)) in
      if list_all (\<lambda>c. tc_id c \<noteq> None) calls
      then [\<lparr>msg_role = ''assistant'',
             msg_content = CBlocks (map (\<lambda>c. ToolUse (tc_id c) (tc_name c) (tc_args c)) calls)\<rparr>,
            \<lparr>msg_role = ''user'',
             msg_content = CBlocks (map (\<lambda>(i, c). ToolResult (tc_id c) (enc i)) ics)\<rparr>]
      else [assistant_msg (join '' '' (map (\<lambda>c. ''[tool_call:'' @ tc_name c @ '']'') calls)),
            user_msg (join '' '' (map (\<lambda>(i, c). ''[tool_result] '' @ enc i) ics))])"

record dispatch_out =
  do_failure :: bool
  do_failed_calls :: nat
  do_messages :: "message list"

definition dispatch_tool_calls ::
  "'w settings \<Rightarrow> tool_call list \<Rightarrow> string \<Rightarrow> message list \<Rightarrow> nat \<Rightarrow> ('w, dispatch_out) act" where
  "dispatch_tool_calls cfg calls dflt msgs n =
     (case index_parallel_groups 0 calls [] of
        Inl e \<Rightarrow> araise e
      | Inr groups \<Rightarrow>
          (let par = concat (map snd groups) in
           abind (run_serial cfg dflt n par (enumerate 0 calls) []) (\<lambda>res.
           abind (run_groups cfg dflt n calls groups res) (\<lambda>res.
           abind (account_all n par res (enumerate 0 calls) False) (\<lambda>had.
           areturn \<lparr>do_failure = had,
             do_failed_calls = length (filter (\<lambda>(_, r). \<not> result_ok r) res),
             do_messages = msgs @ turn_messages cfg calls res\<rparr>)))))"

lemmas dispatch_eval [code] =
  fun_cong[OF run_serial.simps(1)] fun_cong[OF run_serial.simps(2)]
  fun_cong[OF run_members.simps(1)] fun_cong[OF run_members.simps(2)]
  fun_cong[OF run_groups.simps(1)] fun_cong[OF run_groups.simps(2)]
  fun_cong[OF account_all.simps(1)] fun_cong[OF account_all.simps(2)]
  fun_cong[OF decompose_def[unfolded Let_def]] fun_cong[OF roll_up_cost_def]
  fun_cong[OF on_subagent_finished_def[unfolded Let_def]] fun_cong[OF account_result_def[unfolded Let_def]]
  fun_cong[OF dispatch_tool_calls_def[unfolded Let_def]]

section \<open>What the parts keep\<close>

fun is_tool_call :: "event \<Rightarrow> bool" where
  "is_tool_call (EvToolCall _ _ _ _ _ _ _) = True" | "is_tool_call _ = False"

text \<open>Neither the world nor the registry is touched.\<close>

definition same_world :: "'w run \<Rightarrow> 'w run \<Rightarrow> bool" where
  "same_world s t \<longleftrightarrow> rs_world t = rs_world s \<and> rs_reg t = rs_reg s"

interpretation pure_acts: run_relation same_world
  by unfold_locales (auto simp: same_world_def)

lemma state_updates [simp]:
  "rs_trace (accumulate u s) = rs_trace s" "rs_child_cost (accumulate u s) = rs_child_cost s"
  "rs_spawns (accumulate u s) = rs_spawns s" "rs_world (accumulate u s) = rs_world s" "rs_reg (accumulate u s) = rs_reg s"
  "rs_trace (count_spawn ok s) = rs_trace s" "rs_child_cost (count_spawn ok s) = rs_child_cost s"
  "rs_models (count_spawn ok s) = rs_models s" "rs_totals (count_spawn ok s) = rs_totals s"
  "rs_trace (note_max_cost c s) = rs_trace s" "rs_child_cost (note_max_cost c s) = rs_child_cost s"
  "rs_models (note_max_cost c s) = rs_models s" "rs_totals (note_max_cost c s) = rs_totals s"
  "rs_trace (add_child_cost c s) = rs_trace s" "rs_models (add_child_cost c s) = rs_models s"
  "rs_totals (add_child_cost c s) = rs_totals s" "rs_child_cost (add_child_cost c s) = pf_add (rs_child_cost s) c"
  "rs_spawns (add_child_cost c s) = rs_spawns s"
  "rs_trace (note_regret nm v c s) = rs_trace s @ [EvDelegationRegret nm v c]"
  "rs_child_cost (note_regret nm v c s) = rs_child_cost s" "rs_models (note_regret nm v c s) = rs_models s"
  "rs_totals (note_regret nm v c s) = rs_totals s"
  by (auto simp: accumulate_def count_spawn_def note_max_cost_def add_child_cost_def note_regret_def Let_def
      split: option.splits)

lemma world_updates [simp]:
  "rs_world (count_spawn ok s) = rs_world s" "rs_reg (count_spawn ok s) = rs_reg s"
  "rs_world (note_max_cost c s) = rs_world s" "rs_reg (note_max_cost c s) = rs_reg s"
  "rs_world (add_child_cost c s) = rs_world s" "rs_reg (add_child_cost c s) = rs_reg s"
  "rs_world (note_regret nm v c s) = rs_world s" "rs_reg (note_regret nm v c s) = rs_reg s"
  by (auto simp: count_spawn_def note_max_cost_def add_child_cost_def note_regret_def Let_def)

lemma spawn_updates [simp]:
  "sp_count (rs_spawns (count_spawn ok s)) = Suc (sp_count (rs_spawns s))"
  "sp_count (rs_spawns (note_max_cost c s)) = sp_count (rs_spawns s)"
  "sp_count (rs_spawns (note_regret nm v c s)) = sp_count (rs_spawns s)"
  by (auto simp: count_spawn_def note_max_cost_def note_regret_def Let_def)

lemma start_members_trace:
  "rs_trace (start_members n calls g is s) =
     rs_trace s @ map (\<lambda>i. EvToolStarted n i (tc_name (calls ! i)) (tc_args (calls ! i)) (Some g)) is"
  "rs_world (start_members n calls g is s) = rs_world s" "rs_reg (start_members n calls g is s) = rs_reg s"
  "rs_models (start_members n calls g is s) = rs_models s" "rs_totals (start_members n calls g is s) = rs_totals s"
  "rs_child_cost (start_members n calls g is s) = rs_child_cost s"
  unfolding start_members_def by (induction "is" arbitrary: s) auto

lemma start_members_spawns: "rs_spawns (start_members n calls g is s) = rs_spawns s"
  unfolding start_members_def by (induction "is" arbitrary: s) auto

context run_relation
begin

text \<open>Dispatching keeps a relation that a model call, a tool call and the start events keep.\<close>

lemma keeps_dispatch_one:
  assumes "\<And>b sys msgs. keeps R (ask b sys msgs)" and "\<And>u s. R s (accumulate u s)"
    and "\<And>name args. keeps R (invoke_tool name args)"
  shows "keeps R (dispatch_one cfg dflt c)"
proof -
  have d: "keeps R (decompose cfg task)" for task
    unfolding decompose_def Let_def by (intro keeps_rules assms)
  show ?thesis unfolding keeps_def
  proof
    fix s
    show "R s (snd (dispatch_one cfg dflt c s))"
      using d[of "task_arg s dflt (tc_args c)"] assms(3)[of "tc_name c" "tc_args c"]
      by (auto simp: dispatch_one_def keeps_def act_simps refl)
  qed
qed

lemma keeps_run_serial:
  assumes "\<And>c. c \<in> snd ` set ics \<Longrightarrow> keeps R (dispatch_one cfg dflt c)"
    and "\<And>s i (c :: tool_call). R s (log_event (EvToolStarted n i (tc_name c) (tc_args c) None) s)"
  shows "keeps R (run_serial cfg dflt n par ics res)"
  using assms(1)
proof (induction ics arbitrary: res)
  case (Cons ic ics)
  then show ?case by (cases ic) (auto intro!: keeps_rules assms(2))
qed (simp add: keeps_rules)

lemma keeps_run_members:
  assumes "\<And>i. i \<in> set is \<Longrightarrow> keeps R (dispatch_one cfg dflt (calls ! i))"
  shows "keeps R (run_members cfg dflt calls is res)"
  using assms by (induction "is" arbitrary: res) (auto intro!: keeps_rules)

lemma keeps_run_groups:
  assumes "\<And>g is i. (g, is) \<in> set gs \<Longrightarrow> i \<in> set is \<Longrightarrow> keeps R (dispatch_one cfg dflt (calls ! i))"
    and "[] \<notin> snd ` set gs"
    and "\<And>is w. set (ag_schedule cfg is w) = set is"
    and "\<And>g is js s. R s (log_event (EvParallelGroup n g js) s)" and "\<And>g is s. R s (start_members n calls g is s)"
  shows "keeps R (run_groups cfg dflt n calls gs res)"
  using assms(1,2)
proof (induction gs arbitrary: res)
  case (Cons gi gs)
  obtain g "is" where gi: "gi = (g, is)" by fastforce
  have one: "keeps R (dispatch_one cfg dflt (calls ! i))" if "i \<in> set is" for i
    using Cons.prems(1)[of g "is" i] that gi by simp
  have members: "keeps R (abind (aget (\<lambda>s. ag_schedule cfg is (rs_world s))) (\<lambda>order. run_members cfg dflt calls order res))"
    unfolding keeps_def act_simps
  proof
    fix s :: "'w run"
    have "keeps R (run_members cfg dflt calls (ag_schedule cfg is (rs_world s)) res)"
      by (rule keeps_run_members) (simp add: one assms(3))
    then show "R s (snd (run_members cfg dflt calls (ag_schedule cfg is (rs_world s)) res s))"
      by (simp add: keeps_def)
  qed
  have "is \<noteq> []" using Cons.prems(2) gi by auto
  then have "hd is \<in> set is" by simp
  have "keeps R (run_groups cfg dflt n calls gs res')" for res'
    by (rule Cons.IH) (use Cons.prems(1) in fastforce, use Cons.prems(2) in simp)
  moreover have "keeps R (if length is = 1
       then abind (dispatch_one cfg dflt (calls ! hd is)) (\<lambda>r. areturn (AList.update (hd is) r res))
       else abind (aget (\<lambda>s. ag_schedule cfg is (rs_world s))) (\<lambda>order. run_members cfg dflt calls order res))"
    by (rule keeps_if[OF keeps_abind[OF one[OF \<open>hd is \<in> set is\<close>] keeps_base(1)] members])
  ultimately show ?case unfolding gi run_groups.simps
    by (intro keeps_abind keeps_alog keeps_amodify assms(4,5))
qed (simp add: keeps_rules)

end

lemma keeps_ask_basic: "keeps extends (ask b sys msgs)" "keeps (same_events k) (ask b sys msgs)"
  "keeps same_cost (ask b sys msgs)" "keeps keeps_usage (ask b sys msgs)"
  by (auto simp: keeps_def ask_def extends_def same_events_def same_cost_def keeps_usage_def usage_ok_def
      split: prod.splits)

lemma keeps_invoke_basic: "keeps extends (invoke_tool nm args)" "keeps (same_events k) (invoke_tool nm args)"
  "keeps same_cost (invoke_tool nm args)" "keeps keeps_usage (invoke_tool nm args)"
  by (auto simp: keeps_def invoke_tool_def extends_def same_events_def same_cost_def keeps_usage_def usage_ok_def
      split: prod.splits)

lemma keeps_dispatch_one_basic: "keeps extends (dispatch_one cfg dflt c)"
  "keeps (same_events k) (dispatch_one cfg dflt c)" "keeps keeps_usage (dispatch_one cfg dflt c)"
  by (intro grows.keeps_dispatch_one keeps_ask_basic keeps_invoke_basic, simp add: extends_def)
    (intro silent.keeps_dispatch_one keeps_ask_basic keeps_invoke_basic, simp add: same_events_def,
     intro accounted.keeps_dispatch_one keeps_ask_basic keeps_invoke_basic, simp add: keeps_usage_accumulate)

text \<open>The children counted so far.\<close>

definition same_children :: "'w run \<Rightarrow> 'w run \<Rightarrow> bool" where
  "same_children s t \<longleftrightarrow> rs_child_cost t = rs_child_cost s \<and> rs_spawns t = rs_spawns s"

interpretation childless: run_relation same_children
  by unfold_locales (auto simp: same_children_def)

lemma keeps_dispatch_one_children: "keeps same_children (dispatch_one cfg dflt c)"
  by (rule childless.keeps_dispatch_one)
    (auto simp: keeps_def ask_def invoke_tool_def same_children_def split: prod.splits)

section \<open>Every call has a result\<close>

lemma update_dom: "fst ` set (AList.update i r res) = insert i (fst ` set res)"
  by (simp add: dom_update)

lemma run_serial_dom:
  assumes "run_serial cfg dflt n par ics res s = (Inr res', t)" and "distinct (map fst res)"
  shows "fst ` set res' = fst ` set res \<union> (fst ` set ics - set par)" and "distinct (map fst res')"
  using assms
proof (induction ics arbitrary: res s)
  case (Cons ic ics)
  obtain i c where ic: "ic = (i, c)" by fastforce
  {
    case 1
    show ?case
    proof (cases "i \<in> set par")
      case True
      with 1 Cons.IH(1)[of res s] ic show ?thesis by auto
    next
      case False
      with 1 ic obtain r s' where "run_serial cfg dflt n par ics (AList.update i r res) s' = (Inr res', t)"
        by (auto simp: act_simps)
      from Cons.IH(1)[OF this distinct_update[OF 1(2)]] False ic show ?thesis by (auto simp: update_dom)
    qed
  next
    case 2
    show ?case
    proof (cases "i \<in> set par")
      case True
      with 2 Cons.IH(2)[of res s] ic show ?thesis by auto
    next
      case False
      with 2 ic obtain r s' where "run_serial cfg dflt n par ics (AList.update i r res) s' = (Inr res', t)"
        by (auto simp: act_simps)
      from Cons.IH(2)[OF this distinct_update[OF 2(2)]] show ?thesis .
    qed
  }
qed (auto simp: act_simps)

lemma run_members_dom:
  assumes "run_members cfg dflt calls is res s = (Inr res', t)" and "distinct (map fst res)"
  shows "fst ` set res' = fst ` set res \<union> set is \<and> distinct (map fst res')"
  using assms
proof (induction "is" arbitrary: res s)
  case (Cons i "is")
  then obtain r s' where "run_members cfg dflt calls is (AList.update i r res) s' = (Inr res', t)"
    by (auto simp: act_simps)
  from Cons.IH[OF this distinct_update[OF Cons.prems(2)]] show ?case by (auto simp: update_dom)
qed (auto simp: act_simps)

lemma run_groups_dom:
  assumes "run_groups cfg dflt n calls gs res s = (Inr res', t)" and "distinct (map fst res)"
    and "\<And>is w. set (ag_schedule cfg is w) = set is" and "[] \<notin> snd ` set gs"
  shows "fst ` set res' = fst ` set res \<union> set (concat (map snd gs)) \<and> distinct (map fst res')"
  using assms(1,2,4)
proof (induction gs arbitrary: res s)
  case (Cons gi gs)
  obtain g "is" where gi: "gi = (g, is)" by fastforce
  have ne: "[] \<notin> snd ` set gs" using Cons.prems(3) by simp
  show ?case
  proof (cases "length is = 1")
    case True
    then have "set is = {hd is}" by (cases "is") auto
    moreover from True Cons.prems(1) gi obtain r s' where
      "run_groups cfg dflt n calls gs (AList.update (hd is) r res) s' = (Inr res', t)"
      by (auto simp: act_simps simp del: One_nat_def)
    from Cons.IH[OF this distinct_update[OF Cons.prems(2)] ne]
    have "fst ` set res' = fst ` set (AList.update (hd is) r res) \<union> set (concat (map snd gs)) \<and> distinct (map fst res')" .
    ultimately show ?thesis using gi by (auto simp: update_dom)
  next
    case False
    from False Cons.prems(1) gi obtain res1 s1 s2 where
      r: "run_members cfg dflt calls (ag_schedule cfg is (rs_world s1)) res s1 = (Inr res1, s2)"
      "run_groups cfg dflt n calls gs res1 s2 = (Inr res', t)"
      by (auto simp: act_simps simp del: One_nat_def)
    from run_members_dom[OF r(1) Cons.prems(2)] have
      d: "fst ` set res1 = fst ` set res \<union> set is" "distinct (map fst res1)" by (simp_all add: assms(3))
    from Cons.IH[OF r(2) d(2) ne] d(1) gi show ?thesis by (simp add: Un_assoc)
  qed
qed (auto simp: act_simps)

text \<open>The indices of the groups are those of the calls that have a group; no group is empty.\<close>

lemma add_to_group_members:
  "set (concat (map snd (add_to_group g i gs))) = insert i (set (concat (map snd gs)))"
  "[] \<notin> snd ` set gs \<Longrightarrow> [] \<notin> snd ` set (add_to_group g i gs)"
  by (induction g i gs rule: add_to_group.induct) auto

lemma index_parallel_groups_members:
  assumes "index_parallel_groups i cs gs = Inr gs'" and "[] \<notin> snd ` set gs"
  shows "[] \<notin> snd ` set gs' \<and> set (concat (map snd gs')) =
    set (concat (map snd gs)) \<union> {i + j |j. j < length cs \<and> call_group (cs ! j) \<noteq> None}"
  using assms
proof (induction i cs gs rule: index_parallel_groups.induct)
  case (2 i c cs gs)
  have shift: "{i + j |j. j < length (c # cs) \<and> P ((c # cs) ! j)}
      = (if P c then {i} else {}) \<union> {Suc i + j |j. j < length cs \<and> P (cs ! j)}" for P :: "tool_call \<Rightarrow> bool"
  proof -
    have "j < length (c # cs) \<and> P ((c # cs) ! j) \<longleftrightarrow> (j = 0 \<and> P c) \<or> (\<exists>k. j = Suc k \<and> k < length cs \<and> P (cs ! k))" for j
      by (cases j) auto
    then show ?thesis by auto
  qed
  note sh = shift[of "\<lambda>c. call_group c \<noteq> None"]
  show ?case
  proof (cases "call_group c")
    case None
    with 2 show ?thesis unfolding sh by simp
  next
    case (Some g)
    with 2 have "hashable g" "index_parallel_groups (Suc i) cs (add_to_group g i gs) = Inr gs'"
      by (auto split: if_splits)
    with 2(2)[OF Some this] 2(4) Some show ?thesis unfolding sh by (simp add: add_to_group_members[simplified])
  qed
qed auto

lemma groups_within:
  assumes "index_parallel_groups 0 calls [] = Inr gs"
  shows "set (concat (map snd gs)) \<subseteq> {0..<length calls}" and "[] \<notin> snd ` set gs"
    and "i \<in> set (concat (map snd gs)) \<Longrightarrow> tc_name (calls ! i) = spawn_name"
  using index_parallel_groups_members[OF assms] by (auto simp: call_group_def Let_def split: if_splits)

section \<open>Accounting\<close>

definition rolled_up :: "string \<Rightarrow> pydict \<Rightarrow> pyfloat list" where
  "rolled_up name result =
     (if is_agent_child name result
      then (case child_usage_of result of
              Some u \<Rightarrow> (case float_of (reported_cost u) of Inr (Some c) \<Rightarrow> [c] | _ \<Rightarrow> [])
            | None \<Rightarrow> [])
      else [])"

text \<open>What \<open>on_subagent_finished\<close> leaves alone, and its count.\<close>

lemma on_subagent_finished_Inr:
  assumes "on_subagent_finished nm ok u s = (Inr x, t)"
  shows "same_world s t" "rs_child_cost t = rs_child_cost s" "rs_models t = rs_models s"
    "filter is_tool_call (rs_trace t) = filter is_tool_call (rs_trace s)"
    "sp_count (rs_spawns t) = Suc (sp_count (rs_spawns s))"
  using assms
  by (auto simp: on_subagent_finished_def act_simps same_world_def Let_def
      split: option.splits if_splits sum.splits)

lemma account_result_Inr:
  assumes "account_result n par i c r s = (Inr b, t)"
  shows "same_world s t" "rs_models t = rs_models s"
    "rs_child_cost t = foldl pf_add (rs_child_cost s) (rolled_up (tc_name c) r)"
    "\<exists>al g. filter is_tool_call (rs_trace t) =
       filter is_tool_call (rs_trace s) @ [EvToolCall n i (tc_name c) (tc_args c) r al g]"
    "sp_count (rs_spawns t) = sp_count (rs_spawns s) + of_bool (is_agent_child (tc_name c) r)"
    "b = (\<not> result_ok r \<or> nested_failure (tc_name c) r)"
proof -
  let ?u = "child_usage_of r" and ?nm = "tc_name c"
  obtain x1 x2 :: unit and s1 s2 where
    1: "(if is_agent_child ?nm r
         then abind (case ?u of Some u \<Rightarrow> roll_up_cost u | None \<Rightarrow> areturn ())
                (\<lambda>_. on_subagent_finished ?nm (result_ok r) ?u)
         else areturn ()) s = (Inr x1, s1)"
    and 2: "(if ?nm = spawn_name \<and> \<not> result_ok r \<and> ?u = None then alog (unaccounted n ?nm r) else areturn ()) s1 = (Inr x2, s2)"
    and t: "\<exists>al g. t = log_event (EvToolCall n i ?nm (tc_args c) r al g) s2"
    and b: "b = (\<not> result_ok r \<or> nested_failure ?nm r)"
    using assms unfolding account_result_def Let_def abind_Inr_iff act_base prod.inject sum.inject by blast
  have f: "same_world s s1 \<and> rs_models s1 = rs_models s
     \<and> filter is_tool_call (rs_trace s1) = filter is_tool_call (rs_trace s)
     \<and> rs_child_cost s1 = foldl pf_add (rs_child_cost s) (rolled_up ?nm r)
     \<and> sp_count (rs_spawns s1) = sp_count (rs_spawns s) + of_bool (is_agent_child ?nm r)"
  proof (cases "is_agent_child ?nm r")
    case False
    with 1 show ?thesis by (simp add: act_simps rolled_up_def same_world_def)
  next
    case True
    with 1 obtain s0 where s0: "(case ?u of Some u \<Rightarrow> roll_up_cost u | None \<Rightarrow> areturn ()) s = (Inr (), s0)"
      and fin: "on_subagent_finished ?nm (result_ok r) ?u s0 = (Inr (), s1)" by (auto simp: act_simps)
    have "same_world s s0 \<and> rs_models s0 = rs_models s \<and> rs_trace s0 = rs_trace s \<and> rs_spawns s0 = rs_spawns s
       \<and> rs_child_cost s0 = foldl pf_add (rs_child_cost s) (rolled_up ?nm r)"
      using s0 True
      by (auto simp: roll_up_cost_def act_simps rolled_up_def same_world_def split: option.splits sum.splits)
    with on_subagent_finished_Inr[OF fin] True show ?thesis by (auto simp: same_world_def)
  qed
  have g: "same_world s1 s2 \<and> rs_models s2 = rs_models s1 \<and> rs_child_cost s2 = rs_child_cost s1
     \<and> rs_spawns s2 = rs_spawns s1 \<and> filter is_tool_call (rs_trace s2) = filter is_tool_call (rs_trace s1)"
    using 2 by (auto simp: act_simps same_world_def unaccounted_def Let_def split: if_splits)
  show "same_world s t" "rs_models t = rs_models s"
    "rs_child_cost t = foldl pf_add (rs_child_cost s) (rolled_up ?nm r)"
    "\<exists>al g. filter is_tool_call (rs_trace t) = filter is_tool_call (rs_trace s) @ [EvToolCall n i ?nm (tc_args c) r al g]"
    "sp_count (rs_spawns t) = sp_count (rs_spawns s) + of_bool (is_agent_child ?nm r)"
    "b = (\<not> result_ok r \<or> nested_failure ?nm r)"
    using f g t b by (auto simp: same_world_def)
qed

text \<open>The call, arguments and result a tool-call event reports.\<close>

fun call_report :: "event \<Rightarrow> (nat \<times> string \<times> pydict \<times> pydict) list" where
  "call_report (EvToolCall n i nm args r al g) = [(i, nm, args, r)]" | "call_report _ = []"

definition call_reports :: "'w run \<Rightarrow> (nat \<times> string \<times> pydict \<times> pydict) list" where
  "call_reports s = concat (map call_report (rs_trace s))"

lemma call_reports_filter: "call_reports s = concat (map call_report (filter is_tool_call (rs_trace s)))"
proof -
  have "concat (map call_report es) = concat (map call_report (filter is_tool_call es))" for es
  proof (induction es)
    case (Cons ev es)
    then show ?case by (cases ev) auto
  qed simp
  then show ?thesis by (simp add: call_reports_def)
qed

lemma call_reports_same: "same_events is_tool_call s t \<Longrightarrow> call_reports t = call_reports s"
  by (simp add: same_events_def call_reports_filter)

lemma account_all_Inr:
  assumes "account_all n par res ics had s = (Inr b, t)"
  shows "same_world s t \<and> rs_models t = rs_models s
    \<and> rs_child_cost t = foldl pf_add (rs_child_cost s)
         (concat (map (\<lambda>(i, c). rolled_up (tc_name c) (result_at res i)) ics))
    \<and> call_reports t = call_reports s @ map (\<lambda>(i, c). (i, tc_name c, tc_args c, result_at res i)) ics
    \<and> sp_count (rs_spawns t) = sp_count (rs_spawns s)
         + length (filter (\<lambda>(i, c). is_agent_child (tc_name c) (result_at res i)) ics)
    \<and> b = (had \<or> (\<exists>(i, c) \<in> set ics. \<not> result_ok (result_at res i) \<or> nested_failure (tc_name c) (result_at res i)))"
  using assms
proof (induction ics arbitrary: had s)
  case (Cons ic ics)
  obtain i c where ic: "ic = (i, c)" by fastforce
  with Cons.prems obtain r b1 s1 where r: "map_of res i = Some r"
    and 1: "account_result n par i c r s = (Inr b1, s1)"
    and 2: "account_all n par res ics (had \<or> b1) s1 = (Inr b, t)"
    by (auto simp: act_simps split: option.splits)
  have at: "result_at res i = r" by (simp add: result_at_def r)
  note a = account_result_Inr[OF 1]
  have "call_reports s1 = call_reports s @ [(i, tc_name c, tc_args c, r)]"
    using a(4) by (auto simp: call_reports_filter)
  with a Cons.IH[OF 2] show ?case unfolding ic by (simp add: at same_world_def; blast)
qed (simp add: act_simps same_world_def)

section \<open>The whole turn\<close>

lemma count_results:
  "distinct (map fst res) \<Longrightarrow>
     length (filter (\<lambda>(_, r). P r) res) = card {i \<in> fst ` set res. P (result_at res i)}"
proof (induction res)
  case (Cons ir res)
  obtain i r where ir: "ir = (i, r)" by fastforce
  have i: "i \<notin> fst ` set res" using Cons.prems ir by auto
  have at: "result_at ((i, r) # res) j = (if j = i then r else result_at res j)" for j
    by (simp add: result_at_def)
  have "{j \<in> fst ` set (ir # res). P (result_at (ir # res) j)}
      = (if P r then {i} else {}) \<union> {j \<in> fst ` set res. P (result_at res j)}"
    unfolding ir using i by (auto simp: at split: if_splits)
  moreover have "finite {j \<in> fst ` set res. P (result_at res j)}" by simp
  ultimately show ?case using Cons i ir by (auto simp: card_insert_if)
qed simp

lemma count_upt: "length (filter P (map g [0..<n])) = card {i \<in> {0..<n}. P (g i)}"
proof -
  have "{i. i < n \<and> P (map g [0..<n] ! i)} = {i \<in> {0..<n}. P (g i)}" by auto
  then show ?thesis by (simp add: length_filter_conv_card)
qed

lemma dispatch_Inr:
  assumes sched: "\<And>is w. set (ag_schedule cfg is w) = set is"
    and d: "dispatch_tool_calls cfg calls dflt msgs n s = (Inr out, t)"
  obtains gs res s1 s2 where "index_parallel_groups 0 calls [] = Inr gs"
    and "fst ` set res = {0..<length calls}" and "distinct (map fst res)"
    and "call_reports s2 = call_reports s" and "same_children s s2"
    and "account_all n (concat (map snd gs)) res (enumerate 0 calls) False s2 = (Inr (do_failure out), t)"
    and "do_failed_calls out = length (filter (\<lambda>(_, r). \<not> result_ok r) res)"
    and "do_messages out = msgs @ turn_messages cfg calls res"
proof -
  from d obtain gs where gs: "index_parallel_groups 0 calls [] = Inr gs"
    by (auto simp: dispatch_tool_calls_def act_simps split: sum.splits)
  let ?par = "concat (map snd gs)"
  from d gs obtain res1 res s1 s2 had where
    1: "run_serial cfg dflt n ?par (enumerate 0 calls) [] s = (Inr res1, s1)" and
    2: "run_groups cfg dflt n calls gs res1 s1 = (Inr res, s2)" and
    3: "account_all n ?par res (enumerate 0 calls) False s2 = (Inr had, t)" and
    out: "out = \<lparr>do_failure = had, do_failed_calls = length (filter (\<lambda>(_, r). \<not> result_ok r) res),
             do_messages = msgs @ turn_messages cfg calls res\<rparr>"
    by (auto simp: dispatch_tool_calls_def act_simps Let_def)
  have "fst ` set (enumerate 0 calls) = {0..<length calls}"
    by (metis list.set_map map_fst_enumerate set_upt add_0)
  with run_serial_dom[OF 1] run_groups_dom[OF 2 _ sched groups_within(2)[OF gs]] groups_within(1)[OF gs]
  have dom: "fst ` set res = {0..<length calls}" "distinct (map fst res)" by auto
  have k1: "keeps (same_events is_tool_call) (run_serial cfg dflt n ?par (enumerate 0 calls) [])"
    by (intro silent.keeps_run_serial keeps_dispatch_one_basic) (simp add: same_events_def)
  have k2: "keeps (same_events is_tool_call) (run_groups cfg dflt n calls gs res1)"
    by (rule silent.keeps_run_groups[OF keeps_dispatch_one_basic(2) groups_within(2)[OF gs] sched])
      (simp_all add: same_events_def start_members_trace filter_False)
  have "call_reports s2 = call_reports s"
    using call_reports_same[OF keepsD[OF k1 1]] call_reports_same[OF keepsD[OF k2 2]] by simp
  moreover have "keeps same_children (run_serial cfg dflt n ?par (enumerate 0 calls) [])"
    by (intro childless.keeps_run_serial keeps_dispatch_one_children) (simp add: same_children_def)
  note c1 = keepsD[OF this 1]
  have "keeps same_children (run_groups cfg dflt n calls gs res1)"
    by (rule childless.keeps_run_groups[OF keeps_dispatch_one_children groups_within(2)[OF gs] sched])
      (simp_all add: same_children_def start_members_trace start_members_spawns)
  note c2 = childless.trans[OF c1 keepsD[OF this 2]]
  ultimately show thesis using gs dom 3 out c2 that[of gs res s2] by simp
qed

text \<open>What a dispatch reports, whether it returns or raises.\<close>

definition bad_report :: "nat \<times> string \<times> pydict \<times> pydict \<Rightarrow> bool" where
  "bad_report = (\<lambda>(i, nm, args, r). \<not> result_ok r \<or> nested_failure nm r)"

definition failed_report :: "nat \<times> string \<times> pydict \<times> pydict \<Rightarrow> bool" where
  "failed_report = (\<lambda>(i, nm, args, r). \<not> result_ok r)"

lemma enumerate_upt: "enumerate 0 calls = map (\<lambda>i. (i, calls ! i)) [0..<length calls]"
  by (rule nth_equalityI) (simp_all add: nth_enumerate_eq)

lemma dispatch_reports:
  assumes "\<And>is w. set (ag_schedule cfg is w) = set is"
    and "dispatch_tool_calls cfg calls dflt msgs n s = (Inr out, t)"
  obtains new where "call_reports t = call_reports s @ new" and "length new = length calls"
    and "do_failed_calls out = length (filter failed_report new)"
    and "do_failure out \<longleftrightarrow> list_ex bad_report new"
proof -
  obtain gs res s1 s2 where "index_parallel_groups 0 calls [] = Inr gs"
    and dom: "fst ` set res = {0..<length calls}" "distinct (map fst res)"
    and rep: "call_reports s2 = call_reports s" and "same_children s s2"
    and acc: "account_all n (concat (map snd gs)) res (enumerate 0 calls) False s2 = (Inr (do_failure out), t)"
    and fails: "do_failed_calls out = length (filter (\<lambda>(_, r). \<not> result_ok r) res)"
    and "do_messages out = msgs @ turn_messages cfg calls res"
    by (rule dispatch_Inr[OF assms])
  let ?new = "map (\<lambda>i. (i, tc_name (calls ! i), tc_args (calls ! i), result_at res i)) [0..<length calls]"
  note a = account_all_Inr[OF acc, unfolded rep enumerate_upt]
  have "call_reports t = call_reports s @ ?new" using a by (simp add: comp_def)
  moreover have "do_failed_calls out = length (filter failed_report ?new)"
    unfolding fails count_results[OF dom(2)] dom(1) failed_report_def
    by (simp add: filter_map comp_def count_upt[of "\<lambda>r. \<not> result_ok r" "result_at res", simplified filter_map length_map comp_def])
  moreover have "do_failure out \<longleftrightarrow> list_ex bad_report ?new"
    using a by (auto simp: list_ex_iff bad_report_def)
  ultimately show ?thesis using that[of ?new] by simp
qed

lemma account_all_raises: "account_all n par res ics had s = (Inl e, t) \<Longrightarrow> \<exists>m. e = Escaped m"
proof (induction ics arbitrary: had s)
  case (Cons ic ics)
  obtain i c where ic: "ic = (i, c)" by fastforce
  have fl: "float_of v = Inl e \<Longrightarrow> \<exists>m. e = Escaped m" for v
    by (auto simp: float_of_def split: pyval.splits if_splits)
  then have fz: "float_or_zero v = Inl e \<Longrightarrow> \<exists>m. e = Escaped m" for v
    by (auto simp: float_or_zero_def ebind_def split: pyval.splits if_splits option.splits sum.splits)
  have "\<exists>m. e = Escaped m" if "account_result n par i c r s = (Inl e, t)" for r
    using that fl fz
    by (auto simp: account_result_def abind_def areturn_def alog_def amodify_def aget_def araise_def Let_def
        roll_up_cost_def on_subagent_finished_def split: if_splits option.splits prod.splits sum.splits)
  with Cons ic show ?case
    by (auto simp: abind_def act_simps split: option.splits prod.splits sum.splits)
qed (simp add: act_simps)

lemma dispatch_raises:
  assumes "\<And>is w. set (ag_schedule cfg is w) = set is"
    and "dispatch_tool_calls cfg calls dflt msgs n s = (Inl (LLMFault m u), t)"
  shows "call_reports t = call_reports s"
proof -
  from assms(2) obtain gs where gs: "index_parallel_groups 0 calls [] = Inr gs \<or> t = s"
    by (auto simp: dispatch_tool_calls_def act_simps split: sum.splits)
  show ?thesis
  proof (cases "t = s")
    case False
    with gs have gs: "index_parallel_groups 0 calls [] = Inr gs" by simp
    let ?par = "concat (map snd gs)"
    let ?run = "abind (run_serial cfg dflt n ?par (enumerate 0 calls) []) (run_groups cfg dflt n calls gs)"
    let ?account = "\<lambda>res. abind (account_all n ?par res (enumerate 0 calls) False) (\<lambda>had.
       areturn \<lparr>do_failure = had, do_failed_calls = length (filter (\<lambda>(_, r). \<not> result_ok r) res),
               do_messages = msgs @ turn_messages cfg calls res\<rparr>)"
    have split: "dispatch_tool_calls cfg calls dflt msgs n s = abind ?run ?account s"
      by (simp add: dispatch_tool_calls_def gs Let_def abind_assoc)
    have k1: "keeps (same_events is_tool_call) (run_serial cfg dflt n ?par (enumerate 0 calls) [])"
      by (intro silent.keeps_run_serial keeps_dispatch_one_basic) (simp add: same_events_def)
    have k2: "keeps (same_events is_tool_call) (run_groups cfg dflt n calls gs res)" for res
      by (rule silent.keeps_run_groups[OF keeps_dispatch_one_basic(2) groups_within(2)[OF gs] assms(1)])
        (simp_all add: same_events_def start_members_trace filter_False)
    obtain r s1 where run: "?run s = (r, s1)" by fastforce
    from keepsD[OF silent.keeps_abind[OF k1 k2] run] have c: "call_reports s1 = call_reports s"
      by (rule call_reports_same)
    show ?thesis
    proof (cases r)
      case (Inl e)
      with run split assms(2) c show ?thesis by (simp add: abind_def[of ?run])
    next
      case (Inr res)
      with run split assms(2) have acc: "?account res s1 = (Inl (LLMFault m u), t)" by (simp add: abind_def[of ?run])
      then have "account_all n ?par res (enumerate 0 calls) False s1 = (Inl (LLMFault m u), t)"
        by (auto simp: abind_def areturn_def split: prod.splits sum.splits)
      from account_all_raises[OF this] show ?thesis by simp
    qed
  qed simp
qed

section \<open>Properties\<close>

text \<open>
  C4: However the members of the parallel groups are interleaved, a dispatch that returns has
  one result per call: the trace reports them once each and in call order, the failure count
  is theirs, and when the calls carry ids the conversation gains exactly one assistant turn
  with the calls and one user turn that answers them id by id in the same order
  (\<open>_dispatch_tool_calls\<close>).
\<close>

theorem dispatch_answers_every_call:
  assumes "\<And>is w. set (ag_schedule cfg is w) = set is"
    and "dispatch_tool_calls cfg calls dflt msgs n s = (Inr out, t)"
    and "\<And>c. c \<in> set calls \<Longrightarrow> tc_id c \<noteq> None"
  shows "\<exists>rs. length rs = length calls
     \<and> call_reports t = call_reports s @
         map (\<lambda>i. (i, tc_name (calls ! i), tc_args (calls ! i), rs ! i)) [0..<length calls]
     \<and> do_messages out = msgs @
         [\<lparr>msg_role = ''assistant'', msg_content = CBlocks (map (\<lambda>c. ToolUse (tc_id c) (tc_name c) (tc_args c)) calls)\<rparr>,
          \<lparr>msg_role = ''user'', msg_content = CBlocks (map (\<lambda>(c, r). ToolResult (tc_id c) (encode_result cfg r)) (zip calls rs))\<rparr>]
     \<and> do_failed_calls out = length (filter (\<lambda>r. \<not> result_ok r) rs)
     \<and> (0 < do_failed_calls out \<longrightarrow> do_failure out)"
proof -
  obtain gs res s1 s2 where "index_parallel_groups 0 calls [] = Inr gs"
    and dom: "fst ` set res = {0..<length calls}" "distinct (map fst res)"
    and rep: "call_reports s2 = call_reports s" and "same_children s s2"
    and acc: "account_all n (concat (map snd gs)) res (enumerate 0 calls) False s2 = (Inr (do_failure out), t)"
    and fails: "do_failed_calls out = length (filter (\<lambda>(_, r). \<not> result_ok r) res)"
    and msgs: "do_messages out = msgs @ turn_messages cfg calls res"
    by (rule dispatch_Inr[OF assms(1,2)])
  let ?rs = "map (result_at res) [0..<length calls]"
  have enum: "enumerate 0 calls = map (\<lambda>i. (i, calls ! i)) [0..<length calls]"
    by (rule nth_equalityI) (simp_all add: nth_enumerate_eq)
  note a = account_all_Inr[OF acc, unfolded rep]
  have r: "call_reports t = call_reports s @
         map (\<lambda>i. (i, tc_name (calls ! i), tc_args (calls ! i), ?rs ! i)) [0..<length calls]"
    using a by (auto simp: enum)
  have "list_all (\<lambda>c. tc_id c \<noteq> None) calls" using assms(3) by (simp add: list_all_iff)
  moreover have "map (\<lambda>(i, c). ToolResult (tc_id c) (encode_result cfg (result_at res i))) (enumerate 0 calls)
      = map (\<lambda>(c, r). ToolResult (tc_id c) (encode_result cfg r)) (zip calls ?rs)"
    by (rule nth_equalityI) (simp_all add: nth_enumerate_eq)
  ultimately have m: "do_messages out = msgs @
         [\<lparr>msg_role = ''assistant'', msg_content = CBlocks (map (\<lambda>c. ToolUse (tc_id c) (tc_name c) (tc_args c)) calls)\<rparr>,
          \<lparr>msg_role = ''user'', msg_content = CBlocks (map (\<lambda>(c, r). ToolResult (tc_id c) (encode_result cfg r)) (zip calls ?rs))\<rparr>]"
    unfolding msgs turn_messages_def Let_def by simp
  have f: "do_failed_calls out = length (filter (\<lambda>r. \<not> result_ok r) ?rs)"
    unfolding fails count_results[OF dom(2)] dom(1) count_upt ..
  have "do_failure out" if "0 < do_failed_calls out"
  proof -
    from that obtain i where "i < length calls" "\<not> result_ok (result_at res i)"
      unfolding f by (auto simp: filter_empty_conv)
    then show ?thesis using a by (auto simp: enum)
  qed
  with r m f show ?thesis by (intro exI[of _ ?rs]) simp
qed

definition spawn_twice :: "tool_call list" where
  "spawn_twice = map (\<lambda>i. \<lparr>tc_name = spawn_name, tc_args = [(KStr ''parallel_group'', VStr ''g'')], tc_id = Some i\<rparr>)
     [''a'', ''b'']"

text \<open>A spawned agent that reports a cost.\<close>

definition spawn_result :: pydict where
  "spawn_result = tool_ok (VDict [(KStr ''session_id'', VStr ''s''), (KStr ''outcome'', VStr ''success''),
     (KStr ''usage'', VDict [(KStr ''total_cost_usd'', VFloat (Fin (1 / 4))), (KStr ''step_count'', VInt 3)])]) []"

definition spawn_run :: "scripted run" where
  "spawn_run = new_run \<lparr>sc_script = [], sc_pos = 0\<rparr>
     (scripted_registry [(spawn_name, \<lambda>_ w. (Inr spawn_result, w\<lparr>sc_pos := sc_pos w + 1\<rparr>))])"

theorem dispatch_answers_every_call_witness:
  "\<exists>out t. dispatch_tool_calls scripted_settings spawn_twice [] [user_msg ''go''] 0 spawn_run = (Inr out, t)
     \<and> length (do_messages out) = 3 \<and> map fst (call_reports t) = [0, 1]"
proof -
  have "\<not> isl (fst (dispatch_tool_calls scripted_settings spawn_twice [] [user_msg ''go''] 0 spawn_run))" by code_simp
  then obtain out t where d: "dispatch_tool_calls scripted_settings spawn_twice [] [user_msg ''go''] 0 spawn_run = (Inr out, t)"
    by (metis eq_fst_iff isl_def sum.exhaust)
  have sched: "set (ag_schedule scripted_settings is w) = set is" for "is" w by (simp add: scripted_settings_def)
  have ids: "tc_id c \<noteq> None" if "c \<in> set spawn_twice" for c using that by (auto simp: spawn_twice_def)
  have "call_reports spawn_run = []" by (simp add: spawn_run_def new_run_def call_reports_def)
  moreover have "length spawn_twice = 2" by (simp add: spawn_twice_def)
  moreover have "[0..<2] = [0, 1]" by (simp add: upt_rec)
  ultimately show ?thesis using dispatch_answers_every_call[OF sched d ids] d by auto
qed

text \<open>The relation of a run whose budget is spent.\<close>

definition refusing :: "'w settings \<Rightarrow> 'w run \<Rightarrow> 'w run \<Rightarrow> bool" where
  "refusing cfg s t \<longleftrightarrow> (budget_breached cfg s \<longrightarrow> same_world s t \<and> budget_breached cfg t)"

interpretation refusal: run_relation "refusing cfg" for cfg
  by unfold_locales (auto simp: refusing_def same_world_def)

lemma refusing_unpriced: "same_world s t \<Longrightarrow> same_cost s t \<Longrightarrow> refusing cfg s t"
  by (simp add: refusing_def budget_same_cost)

lemma refusing_dispatch_one: "tc_name c = spawn_name \<Longrightarrow> keeps (refusing cfg) (dispatch_one cfg dflt c)"
  by (auto simp: keeps_def refusing_def dispatch_one_def act_simps decompose_name_def spawn_name_def same_world_def)

lemma keeps_account: "keeps same_world (account_all n par res ics had)"
proof (induction ics arbitrary: had)
  case (Cons ic ics)
  have "keeps same_world (account_result n par i c r)" for i c r
    unfolding account_result_def Let_def roll_up_cost_def on_subagent_finished_def
    by (intro pure_acts.keeps_rules) (auto simp: same_world_def)
  with Cons show ?case by (cases ic) (auto intro!: pure_acts.keeps_rules)
qed (simp add: pure_acts.keeps_rules)

text \<open>
  C5: Once the budget is spent, a turn of \<open>spawn_subagent\<close> calls launches no child, whatever
  its groups and schedule: neither the world nor the registry changes (the tripwire of
  \<open>_dispatch_one\<close>).
\<close>

theorem spent_budget_spawns_nothing:
  assumes "budget_breached cfg s" and "\<And>c. c \<in> set calls \<Longrightarrow> tc_name c = spawn_name"
    and "\<And>is w. set (ag_schedule cfg is w) = set is"
  shows "rs_world (snd (dispatch_tool_calls cfg calls dflt msgs n s)) = rs_world s
     \<and> rs_reg (snd (dispatch_tool_calls cfg calls dflt msgs n s)) = rs_reg s"
proof (cases "index_parallel_groups 0 calls []")
  case (Inl e)
  then show ?thesis by (simp add: dispatch_tool_calls_def act_simps)
next
  case (Inr gs)
  let ?par = "concat (map snd gs)"
  let ?run = "abind (run_serial cfg dflt n ?par (enumerate 0 calls) []) (run_groups cfg dflt n calls gs)"
  let ?account = "\<lambda>res. abind (account_all n ?par res (enumerate 0 calls) False) (\<lambda>had.
     areturn \<lparr>do_failure = had, do_failed_calls = length (filter (\<lambda>(_, r). \<not> result_ok r) res),
             do_messages = msgs @ turn_messages cfg calls res\<rparr>)"
  have split: "dispatch_tool_calls cfg calls dflt msgs n s = abind ?run ?account s"
    by (simp add: dispatch_tool_calls_def Inr Let_def abind_assoc)
  have one: "keeps (refusing cfg) (dispatch_one cfg dflt c)" if "c \<in> set calls" for c
    using assms(2)[OF that] by (rule refusing_dispatch_one)
  have logged: "refusing cfg s (log_event ev s)" for ev s
    by (rule refusing_unpriced) (simp_all add: same_world_def same_cost_def)
  have started: "refusing cfg s (start_members n calls g is s)" for g "is" s
    by (rule refusing_unpriced) (simp_all add: same_world_def same_cost_def start_members_trace)
  have serial: "keeps (refusing cfg) (run_serial cfg dflt n ?par (enumerate 0 calls) [])"
  proof (rule refusal.keeps_run_serial[OF one logged])
    fix c assume "c \<in> snd ` set (enumerate 0 calls)"
    then show "c \<in> set calls" by (metis list.set_map map_snd_enumerate)
  qed
  have groups: "keeps (refusing cfg) (run_groups cfg dflt n calls gs res)" for res
  proof (rule refusal.keeps_run_groups[OF one groups_within(2)[OF Inr] assms(3) logged started])
    fix g "is" i assume "(g, is) \<in> set gs" "i \<in> set is"
    then have "i \<in> set ?par" by force
    then show "calls ! i \<in> set calls" using groups_within(1)[OF Inr] by auto
  qed
  have account: "keeps same_world (?account res)" for res
    by (intro pure_acts.keeps_abind keeps_account pure_acts.keeps_base)
  have ran: "same_world s (snd (?run s))"
    using refusal.keeps_abind[OF serial groups] assms(1) by (auto simp: keeps_def refusing_def)
  have "same_world s (snd (abind ?run ?account s))"
  proof (cases "?run s")
    case (Pair r s1)
    with ran have s1: "same_world s s1" by simp
    have "same_world s1 (snd (?account res s1))" for res
      using account[of res] unfolding keeps_def by blast
    with s1 have "same_world s (snd (?account res s1))" for res by (blast intro: pure_acts.trans)
    with Pair s1 show ?thesis by (cases r) (simp_all add: abind_def[of ?run])
  qed
  then show ?thesis unfolding split by (simp add: same_world_def)
qed

theorem spent_budget_spawns_nothing_witness:
  "sc_pos (rs_world (snd (dispatch_tool_calls (scripted_settings\<lparr>ag_max_cost := Some (Fin 0)\<rparr>) spawn_twice [] []
      0 spawn_run))) = 0"
proof -
  let ?cfg = "scripted_settings\<lparr>ag_max_cost := Some (Fin 0)\<rparr>"
  have b: "budget_breached ?cfg spawn_run" by code_simp
  have c: "tc_name c = spawn_name" if "c \<in> set spawn_twice" for c using that by (auto simp: spawn_twice_def)
  have d: "set (ag_schedule ?cfg is w) = set is" for "is" w by (simp add: scripted_settings_def)
  have "rs_world (snd (dispatch_tool_calls ?cfg spawn_twice [] [] 0 spawn_run)) = rs_world spawn_run"
    using spent_budget_spawns_nothing[of ?cfg spawn_run spawn_twice "[]" "[]" 0, OF b c d] by blast
  then show ?thesis by (simp add: spawn_run_def new_run_def)
qed

text \<open>
  A dispatch that returns adds to the run's child cost the reported cost of every agent
  run among its results, each once and in call order, whether it came from \<open>spawn_subagent\<close>
  or from a static agent tool; the spawn count grows by the number of agent results.
\<close>

theorem dispatch_rolls_up_costs:
  assumes "\<And>is w. set (ag_schedule cfg is w) = set is"
    and "dispatch_tool_calls cfg calls dflt msgs n s = (Inr out, t)"
  shows "\<exists>rs. call_reports t = call_reports s @
         map (\<lambda>i. (i, tc_name (calls ! i), tc_args (calls ! i), rs ! i)) [0..<length calls]
     \<and> rs_child_cost t = foldl pf_add (rs_child_cost s)
         (concat (map (\<lambda>i. rolled_up (tc_name (calls ! i)) (rs ! i)) [0..<length calls]))
     \<and> sp_count (rs_spawns t) = sp_count (rs_spawns s)
         + length (filter (\<lambda>i. is_agent_child (tc_name (calls ! i)) (rs ! i)) [0..<length calls])"
proof -
  obtain gs res s1 s2 where "index_parallel_groups 0 calls [] = Inr gs"
    and "fst ` set res = {0..<length calls}" "distinct (map fst res)"
    and rep: "call_reports s2 = call_reports s" and ch: "same_children s s2"
    and acc: "account_all n (concat (map snd gs)) res (enumerate 0 calls) False s2 = (Inr (do_failure out), t)"
    and "do_failed_calls out = length (filter (\<lambda>(_, r). \<not> result_ok r) res)"
    and "do_messages out = msgs @ turn_messages cfg calls res"
    by (rule dispatch_Inr[OF assms])
  let ?rs = "map (result_at res) [0..<length calls]"
  have enum: "enumerate 0 calls = map (\<lambda>i. (i, calls ! i)) [0..<length calls]"
    by (rule nth_equalityI) (simp_all add: nth_enumerate_eq)
  have costs: "map (\<lambda>i. rolled_up (tc_name (calls ! i)) (?rs ! i)) [0..<length calls]
      = map (\<lambda>i. rolled_up (tc_name (calls ! i)) (result_at res i)) [0..<length calls]"
    by simp
  have count: "filter (\<lambda>i. is_agent_child (tc_name (calls ! i)) (?rs ! i)) [0..<length calls]
      = filter (\<lambda>i. is_agent_child (tc_name (calls ! i)) (result_at res i)) [0..<length calls]"
    by (rule filter_cong) auto
  note a = account_all_Inr[OF acc, unfolded rep enum]
  have "call_reports t = call_reports s @
         map (\<lambda>i. (i, tc_name (calls ! i), tc_args (calls ! i), ?rs ! i)) [0..<length calls]"
    using a by (simp add: comp_def)
  moreover have "rs_child_cost t = foldl pf_add (rs_child_cost s)
         (concat (map (\<lambda>i. rolled_up (tc_name (calls ! i)) (?rs ! i)) [0..<length calls]))"
    unfolding costs using a ch by (simp add: comp_def same_children_def)
  moreover have "sp_count (rs_spawns t) = sp_count (rs_spawns s)
         + length (filter (\<lambda>i. is_agent_child (tc_name (calls ! i)) (?rs ! i)) [0..<length calls])"
    unfolding count using a ch by (simp add: comp_def same_children_def filter_map)
  ultimately show ?thesis by blast
qed

theorem dispatch_rolls_up_costs_witness:
  "\<exists>out t. dispatch_tool_calls scripted_settings spawn_twice [] [] 0 spawn_run = (Inr out, t)
     \<and> (\<exists>rs. rs_child_cost t = foldl pf_add (Fin 0) (rolled_up spawn_name (rs ! 0) @ rolled_up spawn_name (rs ! 1)))"
proof -
  have "\<not> isl (fst (dispatch_tool_calls scripted_settings spawn_twice [] [] 0 spawn_run))" by code_simp
  then obtain out t where d: "dispatch_tool_calls scripted_settings spawn_twice [] [] 0 spawn_run = (Inr out, t)"
    by (metis eq_fst_iff isl_def sum.exhaust)
  have sched: "set (ag_schedule scripted_settings is w) = set is" for "is" w by (simp add: scripted_settings_def)
  have "[0..<length spawn_twice] = [0, 1]" "tc_name (spawn_twice ! 0) = spawn_name" "tc_name (spawn_twice ! 1) = spawn_name"
    "rs_child_cost spawn_run = Fin 0"
    by (simp_all add: spawn_twice_def upt_rec spawn_run_def new_run_def)
  with dispatch_rolls_up_costs[OF sched d] d show ?thesis by auto
qed

end
