(* ===== verification/Agent_Loop.thy ===== *)
theory Agent_Loop
  imports Agent_Dispatch
begin

text \<open>
  The step engine (\<open>src/fabri/core/agent.py\<close>, the local functions of \<open>_run_single_attempt\<close>):
  the final-step nudge, narration, exposed tools, one step, the step loop both the planner and
  the single loop use, and the validation of the final answer against the response schema.
  The lemmas bound the model calls of a loop, show that its step events pair up, and that an
  accepted structured answer conforms to the schema.
\<close>

section \<open>The last step's nudge\<close>

definition final_step_nudge :: string where
  "final_step_nudge =
     ''This is your FINAL step in this run. Do NOT call any more tools -- '' @
     ''even if the work feels unfinished. Reply now with your final answer '' @
     ''summarising what you did and any open items, so the run ends cleanly.''"

definition blank_line :: string where "blank_line = [CHR 0x0A, CHR 0x0A]"

fun has_nudge :: "block \<Rightarrow> bool" where
  "has_nudge (TextBlock t) = is_infix final_step_nudge t"
| "has_nudge _ = False"

definition nudged :: "content \<Rightarrow> content" where
  "nudged c =
     (case c of
        CText t \<Rightarrow> if is_infix final_step_nudge t then c else CText (t @ blank_line @ final_step_nudge)
      | CBlocks bs \<Rightarrow> if list_ex has_nudge bs then c else CBlocks (bs @ [TextBlock final_step_nudge]))"

definition inject_nudge :: "message list \<Rightarrow> message list" where
  "inject_nudge msgs =
     (if msgs = [] \<or> msg_role (last msgs) \<noteq> ''user'' then msgs
      else butlast msgs @ [(last msgs)\<lparr>msg_content := nudged (msg_content (last msgs))\<rparr>])"

section \<open>Narration, thoughts and exposed tools\<close>

definition narrator_system :: string where
  "narrator_system =
     ''You are an agent's narrator. In one sentence (<= 12 words), tell the '' @
     ''user what the agent is doing right now. Active voice, present tense, '' @
     ''no preamble (no 'The agent is...'). Never repeat the previous update '' @
     ''verbatim. Plain text only -- no markdown, no quotes.''"

definition summarize_call :: "'w settings \<Rightarrow> tool_call \<Rightarrow> string" where
  "summarize_call cfg c =
     (let snippet = ag_dumps cfg (VDict (tc_args c));
          snippet = (if 160 < length snippet then take 160 snippet @ ''...'' else snippet)
      in tc_name c @ ''('' @ snippet @ '')'')"

definition narration_prompt :: "'w settings \<Rightarrow> string option \<Rightarrow> tool_call list \<Rightarrow> nat \<Rightarrow> string \<Rightarrow> string" where
  "narration_prompt cfg previous calls n kind =
     (let prev = (case previous of Some (c # cs) \<Rightarrow> c # cs | _ \<Rightarrow> ''(none)'')
      in join [CHR 0x0A]
           ([''Task: '' @ take 200 (ag_task cfg), ''Previous update: '' @ prev] @
            (if calls \<noteq> []
             then [''Step '' @ show_nat n @ '' just dispatched these tools:'',
                   join [CHR 0x0A] (map (\<lambda>c. ''- '' @ summarize_call cfg c) calls)]
             else [''Trigger: '' @ kind]) @
            [''Tell the user what the agent is doing now.'']))"

text \<open>Narration is best-effort: whatever it raises is dropped.\<close>

definition emit_narration :: "'w settings \<Rightarrow> tool_call list \<Rightarrow> nat \<Rightarrow> string \<Rightarrow> ('w, unit) act" where
  "emit_narration cfg calls n kind =
     (case ag_narrator cfg of
        None \<Rightarrow> areturn ()
      | Some b \<Rightarrow>
          acatch
            (abind (aget rs_narrated) (\<lambda>previous.
             abind (ask b narrator_system [user_msg (narration_prompt cfg previous calls n kind)]) (\<lambda>resp.
             let t = strip (case r_final_text resp of None \<Rightarrow> [] | Some t \<Rightarrow> t) in
             if t = [] \<or> Some t = previous then areturn ()
             else abind (amodify (\<lambda>s. accumulate (llm_response.r_usage resp) (s\<lparr>rs_narrated := Some t\<rparr>))) (\<lambda>_.
                  alog (EvNarration n t kind)))))
            (\<lambda>_. areturn ()))"

definition emit_thought :: "string option \<Rightarrow> nat \<Rightarrow> ('w, unit) act" where
  "emit_thought thinking n =
     (case thinking of Some (c # cs) \<Rightarrow> alog (EvThought (c # cs) n) | _ \<Rightarrow> areturn ())"

definition def_of :: "manifest \<Rightarrow> tool_def" where
  "def_of m = (m_name m, m_description m,
     if truthy (m_input_schema m) then m_input_schema m else VDict [(KStr ''type'', VStr ''object'')])"

definition expose :: "'w settings \<Rightarrow> string list \<Rightarrow> 'w run \<Rightarrow> 'w run" where
  "expose cfg names s =
     (let shown = map m_name (rs_visible s);
          added = List.map_filter (\<lambda>n. if n \<in> set shown then None else map_of (r_tools (rs_reg s)) n) names
      in if \<not> ag_tool_retrieval cfg \<or> added = [] then s
         else (let visible = rs_visible s @ added;
                   w = (case ag_set_tools cfg of None \<Rightarrow> rs_world s | Some f \<Rightarrow> f (map def_of visible) (rs_world s))
               in log_event (EvToolsExposed (map m_name added)) (s\<lparr>rs_visible := visible, rs_world := w\<rparr>)))"

definition refresh_exposed :: "'w settings \<Rightarrow> 'w run \<Rightarrow> 'w run" where
  "refresh_exposed cfg s = (case pop_exposed (rs_reg s) of (names, reg) \<Rightarrow> expose cfg names (s\<lparr>rs_reg := reg\<rparr>))"

section \<open>One step\<close>

record loop_out =
  lo_final :: "string option"
  lo_success :: bool
  lo_failed :: bool
  lo_error :: "string option"
  lo_had_failure :: bool
  lo_calls :: nat
  lo_failed_calls :: nat
  lo_steps :: nat

definition loop_start :: loop_out where
  "loop_start = \<lparr>lo_final = None, lo_success = False, lo_failed = False, lo_error = None, lo_had_failure = False,
     lo_calls = 0, lo_failed_calls = 0, lo_steps = 0\<rparr>"

text \<open>How a step ends: the loop goes on with more messages, or it returns.\<close>

datatype step_end = Continue loop_out "message list" | Done loop_out

definition step_cost :: "'w settings \<Rightarrow> llm_response \<Rightarrow> rat option" where
  "step_cost cfg r = (case llm_response.r_usage r of None \<Rightarrow> None | Some u \<Rightarrow> cost_for (ag_prices cfg) u)"

definition tools_step ::
  "'w settings \<Rightarrow> string \<Rightarrow> nat \<Rightarrow> message list \<Rightarrow> loop_out \<Rightarrow> llm_response \<Rightarrow> ('w, step_end) act" where
  "tools_step cfg task n msgs out response =
     (let calls = r_tool_calls response in
      abind (emit_thought (r_thinking_text response) n) (\<lambda>_.
      abind (emit_narration cfg calls n ''tools'') (\<lambda>_.
      abind (dispatch_tool_calls cfg calls task msgs n) (\<lambda>d.
      abind (amodify (refresh_exposed cfg)) (\<lambda>_.
      abind (alog (EvStepFinished n (RTools (do_failure d) (length calls) (step_cost cfg response)))) (\<lambda>_.
      areturn (Continue
        (out\<lparr>lo_had_failure := lo_had_failure out \<or> do_failure d, lo_calls := lo_calls out + length calls,
             lo_failed_calls := lo_failed_calls out + do_failed_calls d\<rparr>)
        (do_messages d))))))))"

definition no_answer :: string where "no_answer = ''llm response had no tool calls and no final text''"

definition text_step ::
  "'w settings \<Rightarrow> nat \<Rightarrow> loop_out \<Rightarrow> llm_response \<Rightarrow> ('w, step_end) act" where
  "text_step cfg n out response =
     (case r_final_text response of
        Some (c # cs) \<Rightarrow>
          abind (emit_thought (r_thinking_text response) n) (\<lambda>_.
          abind (alog (EvStepFinished n (RFinal (step_cost cfg response)))) (\<lambda>_.
          areturn (Done (out\<lparr>lo_final := Some (c # cs), lo_success := True\<rparr>))))
      | _ \<Rightarrow>
          abind (alog (EvError (Some no_answer) Failed)) (\<lambda>_.
          abind (alog (EvStepFinished n RProtocolError)) (\<lambda>_.
          araise (ProtocolFault no_answer))))"

text \<open>The \<open>try\<close> block: \<open>Inl\<close> when the step called tools, \<open>Inr\<close> the response otherwise.\<close>

definition step_try ::
  "'w settings \<Rightarrow> string \<Rightarrow> nat \<Rightarrow> message list \<Rightarrow> loop_out \<Rightarrow> ('w, step_end + llm_response) act" where
  "step_try cfg task n msgs out =
     abind (ask (ag_llm cfg) (ag_system cfg) msgs) (\<lambda>response.
     abind (amodify (\<lambda>s. track_last_text response (accumulate (llm_response.r_usage response) s))) (\<lambda>_.
     if r_tool_calls response \<noteq> []
     then abind (tools_step cfg task n msgs out response) (\<lambda>e. areturn (Inl e))
     else areturn (Inr response)))"

definition llm_error_step ::
  "nat \<Rightarrow> loop_out \<Rightarrow> agent_exc \<Rightarrow> ('w, step_end + llm_response) act" where
  "llm_error_step n out e =
     (case e of
        LLMFault m u \<Rightarrow>
          abind (amodify (accumulate u)) (\<lambda>_.
          abind (alog (EvError (Some m) Failed)) (\<lambda>_.
          abind (alog (EvStepFinished n RLLMError)) (\<lambda>_.
          areturn (Inl (Done (out\<lparr>lo_failed := True, lo_error := Some m\<rparr>))))))
      | _ \<Rightarrow> araise e)"

definition one_step ::
  "'w settings \<Rightarrow> string \<Rightarrow> nat \<Rightarrow> message list \<Rightarrow> loop_out \<Rightarrow> ('w, step_end) act" where
  "one_step cfg task n msgs out =
     abind (acatch (step_try cfg task n msgs out) (llm_error_step n out)) (\<lambda>r.
     case r of Inl e \<Rightarrow> areturn e | Inr response \<Rightarrow> text_step cfg n out response)"

section \<open>The step loop\<close>

definition budget_error :: string where "budget_error = ''cost budget exceeded''"

text \<open>\<open>left\<close> steps remain of the \<open>steps\<close> of this item; \<open>inner\<close> is the next one's number.\<close>

fun step_loop ::
  "'w settings \<Rightarrow> string \<Rightarrow> nat \<Rightarrow> nat \<Rightarrow> nat \<Rightarrow> nat \<Rightarrow> message list \<Rightarrow> loop_out \<Rightarrow> ('w, loop_out \<times> message list) act" where
  "step_loop cfg task steps off inner 0 msgs out = areturn (out, msgs)"
| "step_loop cfg task steps off inner (Suc left) msgs out =
     (let n = off + inner; out = out\<lparr>lo_steps := inner + 1\<rparr> in
      abind (aget (budget_breached cfg)) (\<lambda>broke.
      if broke
      then abind (alog (EvBudgetExceeded n)) (\<lambda>_.
           areturn (out\<lparr>lo_failed := True, lo_error := Some budget_error\<rparr>, msgs))
      else abind (alog (EvStepStarted n)) (\<lambda>_.
           let msgs = (if 1 < steps \<and> left = 0 then inject_nudge msgs else msgs) in
           abind (one_step cfg task n msgs out) (\<lambda>e.
           case e of
             Done out' \<Rightarrow> areturn (out', msgs)
           | Continue out' msgs' \<Rightarrow> step_loop cfg task steps off (Suc inner) left msgs' out'))))"

definition run_step_loop ::
  "'w settings \<Rightarrow> message list \<Rightarrow> string \<Rightarrow> int \<Rightarrow> nat \<Rightarrow> ('w, loop_out \<times> message list) act" where
  "run_step_loop cfg msgs task max_steps off =
     step_loop cfg task (nat max_steps) off 0 (nat max_steps) msgs loop_start"

lemmas loop_eval [code] =
  fun_cong[OF emit_narration_def[unfolded Let_def]] fun_cong[OF emit_thought_def]
  fun_cong[OF tools_step_def[unfolded Let_def]] fun_cong[OF text_step_def] fun_cong[OF step_try_def]
  fun_cong[OF llm_error_step_def] fun_cong[OF one_step_def]
  fun_cong[OF step_loop.simps(1)] fun_cong[OF step_loop.simps(2)[unfolded Let_def]] fun_cong[OF run_step_loop_def]

section \<open>What the parts of a step keep\<close>

fun is_step :: "event \<Rightarrow> bool" where
  "is_step (EvStepStarted n) = True" | "is_step (EvStepFinished n r) = True" | "is_step _ = False"

lemma loop_updates [simp]:
  "rs_trace (track_last_text r s) = rs_trace s" "rs_models (track_last_text r s) = rs_models s"
  "rs_totals (track_last_text r s) = rs_totals s" "rs_child_cost (track_last_text r s) = rs_child_cost s"
  "rs_spawns (track_last_text r s) = rs_spawns s"
  by (auto simp: track_last_text_def split: option.splits list.splits)

lemma refresh_updates [simp]:
  "rs_models (refresh_exposed cfg s) = rs_models s" "rs_totals (refresh_exposed cfg s) = rs_totals s"
  "rs_child_cost (refresh_exposed cfg s) = rs_child_cost s" "rs_spawns (refresh_exposed cfg s) = rs_spawns s"
  "filter is_step (rs_trace (refresh_exposed cfg s)) = filter is_step (rs_trace s)"
  "filter is_tool_call (rs_trace (refresh_exposed cfg s)) = filter is_tool_call (rs_trace s)"
  by (auto simp: refresh_exposed_def pop_exposed_def expose_def Let_def)

text \<open>A relation that every part of a step keeps is kept by the step's tool branch.\<close>

context run_relation
begin

lemma keeps_emit_narration:
  assumes "\<And>b sys msgs. keeps R (ask b sys msgs)" and "\<And>u x s. R s (accumulate u (s\<lparr>rs_narrated := x\<rparr>))"
    and "\<And>n t k s. R s (log_event (EvNarration n t k) s)"
  shows "keeps R (emit_narration cfg calls n kind)"
  unfolding emit_narration_def Let_def by (intro keeps_rules assms)

lemma keeps_emit_thought:
  assumes "\<And>t n s. R s (log_event (EvThought t n) s)"
  shows "keeps R (emit_thought th n)"
  unfolding emit_thought_def by (auto split: option.splits list.splits intro!: keeps_rules assms)

lemma keeps_account_all:
  assumes "\<And>u. keeps R (roll_up_cost u)" and "\<And>nm ok u. keeps R (on_subagent_finished nm ok u)"
    and "\<And>n nm r s. R s (log_event (unaccounted n nm r) s)"
    and "\<And>n i nm args r al g s. R s (log_event (EvToolCall n i nm args r al g) s)"
  shows "keeps R (account_all n par res ics had)"
proof (induction ics arbitrary: had)
  case (Cons ic ics)
  have "keeps R (account_result n par i c r)" for i c r
    unfolding account_result_def Let_def by (intro keeps_rules assms)
  with Cons show ?case by (cases ic) (auto intro!: keeps_rules)
qed (simp add: keeps_rules)

lemma keeps_dispatch:
  assumes one: "\<And>dflt c. keeps R (dispatch_one cfg dflt c)"
    and started: "\<And>s i nm args g. R s (log_event (EvToolStarted n i nm args g) s)"
    and group: "\<And>g js s. R s (log_event (EvParallelGroup n g js) s)"
    and account: "\<And>par res ics had. keeps R (account_all n par res ics had)"
    and sched: "\<And>is w. set (ag_schedule cfg is w) = set is"
  shows "keeps R (dispatch_tool_calls cfg calls dflt msgs n)"
proof (cases "index_parallel_groups 0 calls []")
  case (Inl e)
  then show ?thesis by (simp add: dispatch_tool_calls_def keeps_rules)
next
  case (Inr gs)
  have "R s (start_members n calls g is s)" for g "is" s
    unfolding start_members_def
    by (induction "is" arbitrary: s) (auto simp: refl intro: trans[OF started])
  then show ?thesis unfolding dispatch_tool_calls_def Inr Let_def sum.case
    by (intro keeps_abind keeps_run_serial keeps_run_groups[OF _ groups_within(2)[OF Inr] sched] one started group
        account keeps_base)
qed

end

lemma silent_children:
  "keeps (same_events is_step) (roll_up_cost u)" "keeps (same_events is_step) (on_subagent_finished nm ok v)"
  unfolding roll_up_cost_def on_subagent_finished_def Let_def
  by (intro silent.keeps_rules; simp add: same_events_def)+

lemma dispatch_no_step:
  assumes "\<And>is w. set (ag_schedule cfg is w) = set is"
  shows "keeps (same_events is_step) (dispatch_tool_calls cfg calls dflt msgs n)"
  by (rule silent.keeps_dispatch[OF keeps_dispatch_one_basic(2) _ _ silent.keeps_account_all assms])
    (simp_all add: same_events_def unaccounted_def Let_def silent_children)

section \<open>Step events\<close>

fun step_mark :: "event \<Rightarrow> (nat \<times> bool) list" where
  "step_mark (EvStepStarted n) = [(n, True)]"
| "step_mark (EvStepFinished n r) = [(n, False)]"
| "step_mark _ = []"

text \<open>The start and finish marks of the trace, in order.\<close>

definition step_marks :: "'w run \<Rightarrow> (nat \<times> bool) list" where
  "step_marks s = concat (map step_mark (rs_trace s))"

lemma step_marks_same: "same_events is_step s t \<Longrightarrow> step_marks t = step_marks s"
proof -
  have f: "concat (map step_mark es) = concat (map step_mark (filter is_step es))" for es
  proof (induction es)
    case (Cons ev es)
    then show ?case by (cases ev) auto
  qed simp
  show "same_events is_step s t \<Longrightarrow> step_marks t = step_marks s"
    unfolding step_marks_def same_events_def by (subst (1 2) f) simp
qed

lemma marks_simps [simp]:
  "step_marks (log_event ev s) = step_marks s @ step_mark ev"
  "call_reports (log_event ev s) = call_reports s @ concat (map call_report [ev])"
  "step_marks (accumulate u s) = step_marks s" "call_reports (accumulate u s) = call_reports s"
  "step_marks (track_last_text r s) = step_marks s" "call_reports (track_last_text r s) = call_reports s"
  by (simp_all add: step_marks_def call_reports_def)

lemma refresh_marks [simp]:
  "step_marks (refresh_exposed cfg s) = step_marks s" "call_reports (refresh_exposed cfg s) = call_reports s"
  by (rule step_marks_same, simp add: same_events_def, rule call_reports_same, simp add: same_events_def)

lemma talk_silent:
  "keeps (same_events is_step) (emit_narration cfg calls n kind)" "keeps (same_events is_step) (emit_thought th n)"
  "keeps (same_events is_tool_call) (emit_narration cfg calls n kind)" "keeps (same_events is_tool_call) (emit_thought th n)"
  by (intro silent.keeps_emit_narration silent.keeps_emit_thought keeps_ask_basic; simp add: same_events_def)+

lemma quiet_act:
  assumes "keeps (same_events is_step) m" and "keeps (same_events is_tool_call) m" and "m s = (r, t)"
  shows "step_marks t = step_marks s" and "call_reports t = call_reports s"
  using step_marks_same[OF keepsD[OF assms(1,3)]] call_reports_same[OF keepsD[OF assms(2,3)]] by simp_all

text \<open>
  What a dispatching step does to the marks, the reports and the counters: it goes on, or it
  raises before its finish mark.
\<close>

definition counted :: "loop_out \<Rightarrow> (nat \<times> string \<times> pydict \<times> pydict) list \<Rightarrow> loop_out" where
  "counted out new = out\<lparr>lo_had_failure := lo_had_failure out \<or> list_ex bad_report new,
     lo_calls := lo_calls out + length new, lo_failed_calls := lo_failed_calls out + length (filter failed_report new)\<rparr>"

lemma tools_step_effect:
  assumes sched: "\<And>is w. set (ag_schedule cfg is w) = set is"
    and "tools_step cfg task n msgs out response s = (r, t)"
  shows "(case r of
       Inr e \<Rightarrow> \<exists>new msgs'. call_reports t = call_reports s @ new \<and> step_marks t = step_marks s @ [(n, False)]
                  \<and> e = Continue (counted out new) msgs'
     | Inl x \<Rightarrow> step_marks t = step_marks s \<and> ((\<exists>m u. x = LLMFault m u) \<longrightarrow> call_reports t = call_reports s))"
proof -
  let ?calls = "r_tool_calls response"
  let ?talk = "abind (emit_thought (r_thinking_text response) n) (\<lambda>_. emit_narration cfg ?calls n ''tools'')"
  obtain r1 s1 where talk: "?talk s = (r1, s1)" by fastforce
  have "keeps (same_events is_step) ?talk" "keeps (same_events is_tool_call) ?talk"
    by (intro silent.keeps_abind talk_silent)+
  note q = quiet_act[OF this talk]
  let ?rest = "\<lambda>d. abind (amodify (refresh_exposed cfg)) (\<lambda>_.
      abind (alog (EvStepFinished n (RTools (do_failure d) (length ?calls) (step_cost cfg response)))) (\<lambda>_.
      areturn (Continue
        (out\<lparr>lo_had_failure := lo_had_failure out \<or> do_failure d, lo_calls := lo_calls out + length ?calls,
             lo_failed_calls := lo_failed_calls out + do_failed_calls d\<rparr>)
        (do_messages d))))"
  have split: "tools_step cfg task n msgs out response =
      abind ?talk (\<lambda>_. abind (dispatch_tool_calls cfg ?calls task msgs n) ?rest)"
    by (simp add: tools_step_def Let_def abind_assoc)
  have talks: "\<not> isl (fst (?talk s))"
    by (auto simp: emit_thought_def emit_narration_def abind_def acatch_def areturn_def alog_def amodify_def
        split: option.splits list.splits prod.splits sum.splits)
  then obtain x where r1: "r1 = Inr x" using talk by (cases r1) auto
  obtain r2 s2 where d: "dispatch_tool_calls cfg ?calls task msgs n s1 = (r2, s2)" by fastforce
  have m2: "step_marks s2 = step_marks s1" by (rule step_marks_same[OF keepsD[OF dispatch_no_step[OF sched] d]])
  show ?thesis
  proof (cases r2)
    case (Inl x)
    then have "r = Inl x \<and> t = s2" using assms(2) d talk r1 by (simp add: split abind_def[of ?talk]) (simp add: abind_def)
    then show ?thesis using q m2 dispatch_raises[OF sched, of ?calls task msgs n s1] d Inl by auto
  next
    case (Inr o2)
    with d have d': "dispatch_tool_calls cfg ?calls task msgs n s1 = (Inr o2, s2)" by simp
    obtain new where new: "call_reports s2 = call_reports s1 @ new" "length new = length ?calls"
      "do_failed_calls o2 = length (filter failed_report new)" "do_failure o2 \<longleftrightarrow> list_ex bad_report new"
      by (rule dispatch_reports[OF sched d'])
    have rt: "(r, t) = ?rest o2 s2"
      using assms(2) d' talk r1 by (simp add: split abind_def[of ?talk]) (simp add: abind_def)
    then have "r = Inr (Continue (counted out new) (do_messages o2))"
      and "t = log_event (EvStepFinished n (RTools (do_failure o2) (length ?calls) (step_cost cfg response)))
             (refresh_exposed cfg s2)"
      by (simp_all add: act_simps counted_def new)
    then show ?thesis using q m2 new(1) by auto
  qed
qed

fun ended :: "loop_out \<Rightarrow> loop_out \<Rightarrow> bool" where
  "ended out out' \<longleftrightarrow> (\<exists>c cs. out' = out\<lparr>lo_final := Some (c # cs), lo_success := True\<rparr>)
     \<or> (\<exists>m. out' = out\<lparr>lo_failed := True, lo_error := Some m\<rparr>)"

lemma ask_marks:
  assumes "ask b sys msgs s = (r, t)"
  shows "step_marks t = step_marks s" "call_reports t = call_reports s"
  by (rule quiet_act[OF keeps_ask_basic(2) keeps_ask_basic(2) assms])+

lemma one_step_effect:
  assumes sched: "\<And>is w. set (ag_schedule cfg is w) = set is"
    and "one_step cfg task n msgs out s = (r, t)"
  shows "(case r of
       Inr (Continue out' msgs') \<Rightarrow> \<exists>new. call_reports t = call_reports s @ new
           \<and> step_marks t = step_marks s @ [(n, False)] \<and> out' = counted out new
     | Inr (Done out') \<Rightarrow> call_reports t = call_reports s \<and> step_marks t = step_marks s @ [(n, False)] \<and> ended out out'
     | Inl x \<Rightarrow> step_marks t = step_marks s \<or> step_marks t = step_marks s @ [(n, False)])"
proof -
  obtain a s1 where ask: "ask (ag_llm cfg) (ag_system cfg) msgs s = (a, s1)" by fastforce
  note am = ask_marks[OF ask]
  show ?thesis
  proof (cases a)
    case (Inl x)
    then have "step_try cfg task n msgs out s = (Inl x, s1)" using ask by (simp add: step_try_def abind_def)
    then show ?thesis using assms(2) am
      by (cases x) (auto simp: one_step_def abind_def acatch_def llm_error_step_def act_simps)
  next
    case (Inr response)
    let ?s2 = "track_last_text response (accumulate (llm_response.r_usage response) s1)"
    show ?thesis
    proof (cases "r_tool_calls response = []")
      case True
      then have "step_try cfg task n msgs out s = (Inr (Inr response), ?s2)"
        using ask Inr by (simp add: step_try_def abind_def areturn_def amodify_def)
      then have "one_step cfg task n msgs out s = text_step cfg n out response ?s2"
        by (simp add: one_step_def abind_def acatch_def)
      moreover have th: "emit_thought th n u = (Inr (), v) \<Longrightarrow> step_marks v = step_marks u \<and> call_reports v = call_reports u"
        for th u v using quiet_act[OF talk_silent(2,4)] by blast
      moreover have "\<exists>v. emit_thought th n u = (Inr (), v)" for th u
        by (simp add: emit_thought_def areturn_def alog_def amodify_def split: option.split list.split)
      then obtain v where "emit_thought (r_thinking_text response) n ?s2 = (Inr (), v)" by blast
      moreover from this th have "step_marks v = step_marks s1" "call_reports v = call_reports s1" by fastforce+
      ultimately show ?thesis using assms(2) am
        by (auto simp: text_step_def abind_def act_simps split: option.splits list.splits)
    next
      case False
      obtain r2 s3 where tools: "tools_step cfg task n msgs out response ?s2 = (r2, s3)" by fastforce
      have tried: "step_try cfg task n msgs out s = (map_sum id Inl r2, s3)"
        using ask Inr False tools by (cases r2) (simp_all add: step_try_def abind_def areturn_def amodify_def)
      note te = tools_step_effect[OF sched tools]
      show ?thesis
      proof (cases r2)
        case (Inl x)
        then show ?thesis using te tried assms(2) am
          by (cases x) (auto simp: one_step_def abind_def acatch_def llm_error_step_def act_simps)
      next
        case (Inr e)
        then show ?thesis using te tried assms(2) am
          by (auto simp: one_step_def abind_def acatch_def act_simps)
      qed
    qed
  qed
qed

definition step_pairs :: "nat \<Rightarrow> nat \<Rightarrow> (nat \<times> bool) list" where
  "step_pairs off k = concat (map (\<lambda>i. [(off + i, True), (off + i, False)]) [0..<k])"

lemma step_pairs_Suc: "step_pairs off (Suc k) = [(off, True), (off, False)] @ step_pairs (Suc off) k"
proof -
  have "[0..<Suc k] = 0 # map Suc [0..<k]" by (rule upt_conv_Cons_Cons[THEN iffD1] | simp add: map_Suc_upt upt_conv_Cons)+
  then show ?thesis by (simp add: step_pairs_def comp_def)
qed

text \<open>How the counters of a loop's result follow from its start and the reports since.\<close>

lemma counted_counted:
  "(counted (counted (out\<lparr>lo_steps := k\<rparr>) a) b)\<lparr>lo_steps := m\<rparr> = (counted out (a @ b))\<lparr>lo_steps := m\<rparr>"
  by (simp add: counted_def)

lemma counted_Nil: "(counted out [])\<lparr>lo_steps := m\<rparr> = out\<lparr>lo_steps := m\<rparr>"
  by (simp add: counted_def)

lemma step_loop_effect:
  assumes sched: "\<And>is w. set (ag_schedule cfg is w) = set is"
    and "step_loop cfg task steps off inner left msgs out s = (r, t)" and "lo_steps out = inner"
  shows "(case r of
       Inr (out', msgs') \<Rightarrow> \<exists>new k. call_reports t = call_reports s @ new
           \<and> step_marks t = step_marks s @ step_pairs (off + inner) k \<and> k \<le> left
           \<and> inner + k \<le> lo_steps out' \<and> lo_steps out' \<le> inner + left
           \<and> (out' = (counted out new)\<lparr>lo_steps := lo_steps out'\<rparr> \<and> k = left
              \<or> ended ((counted out new)\<lparr>lo_steps := lo_steps out'\<rparr>) out')
     | Inl x \<Rightarrow> \<exists>k rest. step_marks t = step_marks s @ step_pairs (off + inner) k @ rest \<and> k < left
           \<and> rest \<in> {[(off + inner + k, True)], [(off + inner + k, True), (off + inner + k, False)]})"
  using assms(2,3)
proof (induction left arbitrary: inner msgs out s)
  case 0
  then show ?case by (auto simp: act_simps step_pairs_def counted_def intro!: exI[of _ "[]"])
next
  case (Suc left)
  let ?n = "off + inner" and ?out = "out\<lparr>lo_steps := inner + 1\<rparr>"
  let ?msgs = "if 1 < steps \<and> left = 0 then inject_nudge msgs else msgs"
  show ?case
  proof (cases "budget_breached cfg s")
    case True
    with Suc.prems(1) have "r = Inr (?out\<lparr>lo_failed := True, lo_error := Some budget_error\<rparr>, msgs)"
      and "t = log_event (EvBudgetExceeded ?n) s"
      by (simp_all add: act_simps Let_def)
    moreover have "ended ?out (?out\<lparr>lo_failed := True, lo_error := Some budget_error\<rparr>)" by auto
    ultimately show ?thesis
      by (auto simp: step_pairs_def counted_Nil simp del: ended.simps
          intro!: exI[of _ "[] :: (nat \<times> string \<times> pydict \<times> pydict) list"] exI[of _ "0 :: nat"])
  next
    case False
    let ?s1 = "log_event (EvStepStarted ?n) s"
    obtain e s2 where one: "one_step cfg task ?n ?msgs ?out ?s1 = (e, s2)" by fastforce
    note eff = one_step_effect[OF sched one]
    have loop: "(r, t) = (case e of Inl x \<Rightarrow> (Inl x, s2)
        | Inr (Done out') \<Rightarrow> (Inr (out', ?msgs), s2)
        | Inr (Continue out' msgs') \<Rightarrow> step_loop cfg task steps off (Suc inner) left msgs' out' s2)"
      using Suc.prems(1) False one
      by (simp add: act_simps Let_def) (auto simp: abind_def act_simps split: sum.splits step_end.splits)
    show ?thesis
    proof (cases e)
      case (Inl x)
      with loop have rt: "r = Inl x" "t = s2" by simp_all
      from eff Inl have "step_marks t = step_marks s @ [(?n, True)] \<or> step_marks t = step_marks s @ [(?n, True), (?n, False)]"
        by (auto simp: rt)
      then show ?thesis unfolding rt(1) by (auto simp: step_pairs_def intro!: exI[of _ 0])
    next
      case e: (Inr e')
      show ?thesis
      proof (cases e')
        case (Done out')
        with loop e have rt: "r = Inr (out', ?msgs)" "t = s2" by simp_all
        from eff e Done have m: "call_reports t = call_reports s" "step_marks t = step_marks s @ [(?n, True), (?n, False)]"
          and en: "ended ?out out'" by (auto simp: rt)
        then have "lo_steps out' = inner + 1" by auto
        with m en show ?thesis unfolding rt(1)
          by (auto simp: step_pairs_def counted_Nil intro!: exI[of _ "[]"] exI[of _ "1 :: nat"])
      next
        case (Continue out1 msgs1)
        from eff e Continue obtain new1 where 1: "call_reports s2 = call_reports s @ new1"
          "step_marks s2 = step_marks s @ [(?n, True), (?n, False)]" "out1 = counted ?out new1" by auto
        have st: "lo_steps out1 = Suc inner" by (simp add: 1 counted_def)
        from loop e Continue have "step_loop cfg task steps off (Suc inner) left msgs1 out1 s2 = (r, t)" by simp
        note IH = Suc.IH[OF this st]
        have pairs: "step_marks s @ [(?n, True), (?n, False)] @ step_pairs (Suc ?n) k = step_marks s @ step_pairs ?n (Suc k)" for k
          by (simp add: step_pairs_Suc)
        show ?thesis
        proof (cases r)
          case (Inl x)
          with IH obtain k rest where "step_marks t = step_marks s2 @ step_pairs (Suc ?n) k @ rest" "k < left"
            "rest \<in> {[(Suc ?n + k, True)], [(Suc ?n + k, True), (Suc ?n + k, False)]}" by auto
          then show ?thesis unfolding Inl
            by (auto simp: 1 step_pairs_Suc intro!: exI[of _ "Suc k"])
        next
          case (Inr om)
          obtain out' msgs' where om: "om = (out', msgs')" by fastforce
          from IH Inr om obtain new2 k where 2: "call_reports t = call_reports s2 @ new2"
            "step_marks t = step_marks s2 @ step_pairs (Suc ?n) k" "k \<le> left" "Suc inner + k \<le> lo_steps out'"
            "lo_steps out' \<le> Suc inner + left"
            "out' = (counted out1 new2)\<lparr>lo_steps := lo_steps out'\<rparr> \<and> k = left
              \<or> ended ((counted out1 new2)\<lparr>lo_steps := lo_steps out'\<rparr>) out'"
            by (auto simp del: ended.simps)
          have mid: "(counted out1 new2)\<lparr>lo_steps := lo_steps out'\<rparr> = (counted out (new1 @ new2))\<lparr>lo_steps := lo_steps out'\<rparr>"
            unfolding 1 by (rule counted_counted)
          show ?thesis unfolding Inr om
            using 1(1,2) 2 by (auto simp: mid step_pairs_Suc simp del: ended.simps intro!: exI[of _ "new1 @ new2"] exI[of _ "Suc k"])
        qed
      qed
    qed
  qed
qed

section \<open>Properties\<close>

text \<open>
  C3: A step loop returns or raises after at most \<open>max_steps\<close> steps, numbered from its offset.
  When it returns, every step it started has a finish event before the next one starts; it
  reports at most \<open>max_steps\<close> steps used, and it has a final text or an error unless it
  used them all (\<open>_run_step_loop\<close>).
\<close>

theorem step_loop_steps:
  assumes "\<And>is w. set (ag_schedule cfg is w) = set is"
    and "run_step_loop cfg msgs task max_steps off s = (r, t)"
  shows "\<exists>k rest. k \<le> nat max_steps
     \<and> step_marks t = step_marks s @ step_pairs off k @ rest
     \<and> (case r of
          Inl _ \<Rightarrow> k < nat max_steps \<and> (rest = [(off + k, True)] \<or> rest = [(off + k, True), (off + k, False)])
        | Inr (out, _) \<Rightarrow> rest = [] \<and> k \<le> lo_steps out \<and> lo_steps out \<le> nat max_steps
            \<and> \<not> (lo_success out \<and> lo_failed out)
            \<and> (lo_success out \<longleftrightarrow> lo_final out \<noteq> None) \<and> (lo_failed out \<longleftrightarrow> lo_error out \<noteq> None)
            \<and> (k < nat max_steps \<longrightarrow> lo_success out \<or> lo_failed out))"
proof -
  note eff = step_loop_effect[OF assms(1) assms(2)[unfolded run_step_loop_def], simplified]
  show ?thesis
  proof (cases r)
    case (Inl x)
    with eff obtain k rest where "step_marks t = step_marks s @ step_pairs off k @ rest" "k < nat max_steps"
      "rest = [(off + k, True)] \<or> rest = [(off + k, True), (off + k, False)]" by (auto simp: loop_start_def)
    then show ?thesis using Inl by (intro exI[of _ k] exI[of _ rest]) auto
  next
    case (Inr om)
    obtain out msgs' where om: "om = (out, msgs')" by fastforce
    from eff Inr om obtain new k where 1: "step_marks t = step_marks s @ step_pairs off k" "k \<le> nat max_steps"
      "k \<le> lo_steps out" "lo_steps out \<le> nat max_steps"
      and e: "out = (counted loop_start new)\<lparr>lo_steps := lo_steps out\<rparr> \<and> k = nat max_steps
        \<or> ended ((counted loop_start new)\<lparr>lo_steps := lo_steps out\<rparr>) out"
      by (auto simp: loop_start_def simp del: ended.simps)
    define mid where "mid = (counted loop_start new)\<lparr>lo_steps := lo_steps out\<rparr>"
    have m: "\<not> lo_success mid" "\<not> lo_failed mid" "lo_final mid = None" "lo_error mid = None"
      by (simp_all add: mid_def counted_def loop_start_def)
    have "(out = mid \<and> k = nat max_steps) \<or> ended mid out" using e unfolding mid_def .
    then have "\<not> (lo_success out \<and> lo_failed out) \<and> (lo_success out \<longleftrightarrow> lo_final out \<noteq> None)
       \<and> (lo_failed out \<longleftrightarrow> lo_error out \<noteq> None) \<and> (k < nat max_steps \<longrightarrow> lo_success out \<or> lo_failed out)"
      using m by auto
    with 1 show ?thesis unfolding Inr om by (intro exI[of _ k] exI[of _ "[]"]) auto
  qed
qed

definition answer_response :: "string \<Rightarrow> llm_response" where
  "answer_response t = make_response None [] (Some t) None None
     (Some (empty_usage\<lparr>u_input := 100, u_output := 10, u_model := Some ''gpt-5''\<rparr>))"

definition calls_response :: "tool_call list \<Rightarrow> llm_response" where
  "calls_response cs = make_response None cs None None (Some ''thinking'') None"

definition echo_call :: tool_call where
  "echo_call = \<lparr>tc_name = ''echo'', tc_args = [], tc_id = Some ''t1''\<rparr>"

text \<open>A run whose model calls a tool once and then answers.\<close>

definition echo_run :: "scripted run" where
  "echo_run = new_run \<lparr>sc_script = [calls_response [echo_call], answer_response ''done''], sc_pos = 0\<rparr>
     (scripted_registry [(''echo'', \<lambda>_ w. (Inr (tool_ok VNone []), w))])"

lemma scripted_schedule: "set (ag_schedule scripted_settings is w) = set is"
  by (simp add: scripted_settings_def)

theorem step_loop_steps_witness:
  "\<exists>out t m. run_step_loop scripted_settings [user_msg ''go''] ''go'' 10 0 echo_run = (Inr (out, m), t)
     \<and> lo_final out = Some ''done'' \<and> \<not> lo_failed out"
proof -
  have e: "case run_step_loop scripted_settings [user_msg ''go''] ''go'' 10 0 echo_run of
      (Inr (out, m), t) \<Rightarrow> lo_final out = Some ''done'' | _ \<Rightarrow> False" by code_simp
  obtain r t where rt: "run_step_loop scripted_settings [user_msg ''go''] ''go'' 10 0 echo_run = (r, t)" by fastforce
  then obtain out m where r: "r = Inr (out, m)" "lo_final out = Some ''done''"
    using e by (auto split: sum.splits)
  from step_loop_steps[OF scripted_schedule rt] r rt show ?thesis by auto
qed

end
