(* ===== verification/Agent_Answer.thy ===== *)
theory Agent_Answer
  imports Agent_Loop
begin

text \<open>
  The final answer against the response schema (\<open>_finalize_structured\<close> of
  \<open>src/fabri/core/agent.py\<close>): parsing and validation, the copy of a selected convention
  branch, bounded corrective retries and the three error strategies.  The lemmas bound the
  attempts and say what an accepted answer guarantees, with and without conventions.
\<close>

section \<open>Attempts\<close>

record attempt_state =
  at_text :: string
  at_value :: pyval
  at_last_valid :: pyval
  at_errors :: "string list"
  at_schema_tries :: int
  at_conv_tries :: int
  at_messages :: "message list"

record answer_out =
  an_text :: string
  an_ok :: bool
  an_error :: "string option"
  an_value :: pyval

definition answered :: "string \<Rightarrow> pyval \<Rightarrow> answer_out" where
  "answered t v = \<lparr>an_text = t, an_ok = True, an_error = None, an_value = v\<rparr>"

definition rejected :: "string \<Rightarrow> string \<Rightarrow> answer_out" where
  "rejected t e = \<lparr>an_text = t, an_ok = False, an_error = Some e, an_value = VNone\<rparr>"

definition conv_limit :: "'w settings \<Rightarrow> int" where
  "conv_limit cfg =
     (case ag_conv_retries cfg of
        Some n \<Rightarrow> if ag_conventions cfg \<noteq> [] then min 1 (max 0 n) else 0
      | None \<Rightarrow> 0)"

definition schema_limit :: "'w settings \<Rightarrow> int" where
  "schema_limit cfg = max 0 (ag_retries cfg)"

definition schema_check :: "'w settings \<Rightarrow> string \<Rightarrow> unit + pyval \<times> string list" where
  "schema_check cfg t =
     ebind (parse_response (ag_loads cfg) t (VDict (ag_schema cfg))) (\<lambda>(v, errs).
       Inr (v, case errs of
                 None \<Rightarrow> [''response is not valid JSON: '' @ ag_json_error cfg (strip_fences t)]
               | Some es \<Rightarrow> map (schema_error_text (ag_repr cfg)) es))"

text \<open>The engine's copy of the selected fields into an object.\<close>

definition copy_fields :: "pyval \<Rightarrow> pydict option \<Rightarrow> pyval" where
  "copy_fields v sel =
     (case (v, sel) of
        (VDict d, Some (f # fs)) \<Rightarrow> VDict (fold (\<lambda>(k, x) m. AList.update k x m) (f # fs) d)
      | _ \<Rightarrow> v)"

definition conv_applied :: "string option \<Rightarrow> string" where
  "conv_applied b = ''convention_applied:'' @ (case b of None \<Rightarrow> [] | Some t \<Rightarrow> t)"

definition set_convention :: "string \<Rightarrow> 'w run \<Rightarrow> 'w run" where
  "set_convention c s = s\<lparr>rs_convention := Some c\<rparr>"

text \<open>
  One validation: the value, the last schema-valid value, the errors, and whether a convention
  selection was looked at.
\<close>

definition check_answer ::
  "'w settings \<Rightarrow> attempt_state \<Rightarrow> ('w, attempt_state \<times> string list \<times> bool) act" where
  "check_answer cfg a =
     (case schema_check cfg (fst (split_agent_output (at_text a))) of
        Inl _ \<Rightarrow> araise (Escaped ''TypeError'')
      | Inr (v, errs) \<Rightarrow>
          if errs \<noteq> [] \<or> ag_conventions cfg = [] then areturn (a\<lparr>at_value := v\<rparr>, errs, False)
          else (let val = validate_branch_selection v (ag_conventions cfg) (CfgObject (map_option VInt (ag_conv_retries cfg))) in
                if va_valid val
                then abind (amodify (set_convention (conv_applied (va_branch val)))) (\<lambda>_.
                     areturn (a\<lparr>at_value := copy_fields v (va_selected val), at_last_valid := v\<rparr>, [], True))
                else areturn (a\<lparr>at_value := v, at_last_valid := v\<rparr>,
                       [''convention branch selection invalid: '' @
                        (case va_reason val of None \<Rightarrow> ''unknown reason'' | Some r \<Rightarrow> r)], True)))"

definition bullet_lines :: "string list \<Rightarrow> string" where
  "bullet_lines errs = join ([CHR 0x0A] @ ''- '') errs"

definition schema_prompt :: "'w settings \<Rightarrow> string list \<Rightarrow> string" where
  "schema_prompt cfg errs =
     ''Your previous reply did not match the required response schema.'' @ [CHR 0x0A] @
     ''Validation errors:'' @ [CHR 0x0A] @ ''- '' @ bullet_lines errs @ blank_line @
     ''Return ONLY a JSON value that satisfies this schema (no prose, no code fences):'' @ [CHR 0x0A] @
     ag_dumps cfg (VDict (ag_schema cfg))"

definition convention_prompt :: "'w settings \<Rightarrow> string list \<Rightarrow> string" where
  "convention_prompt cfg errs =
     ''Your previous reply did not make a valid convention branch selection.'' @ [CHR 0x0A] @
     ''Validation error:'' @ [CHR 0x0A] @ ''- '' @ bullet_lines errs @ blank_line @
     ''Return ONLY a JSON value that satisfies this schema (no prose, no code fences). Inside the `response` string, '' @
     ''include two marked lines: `SELECTED_BRANCH: <branch_id>` '' @
     ''naming exactly one branch from the retrieved convention, and '' @
     ''`BRANCH_EVIDENCE: <current-run evidence>`. Do not add fields the schema does not define:'' @ [CHR 0x0A] @
     ag_dumps cfg (VDict (ag_schema cfg))"

text \<open>After the loop: the errors resolved by the strategy.\<close>

definition resolve_answer :: "'w settings \<Rightarrow> attempt_state \<Rightarrow> answer_out" where
  "resolve_answer cfg a =
     (let detail = join ''; '' (at_errors a) in
      if ag_error_strategy cfg = ''warn'' then answered (at_text a) (at_value a)
      else if ag_error_strategy cfg = ''fallback''
      then (let fb = (if ag_fallback cfg = VNone then VDict [] else ag_fallback cfg)
            in answered (ag_dumps cfg fb) fb)
      else rejected (at_text a) (''response did not match response_schema: '' @ detail))"

definition not_applicable :: string where "not_applicable = ''convention_not_applicable''"

text \<open>What to do about the errors of an attempt: stop with an answer, give up, or re-prompt.\<close>

datatype verdict = Accept pyval | GiveUp | Reprompt attempt_state string

definition judge :: "'w settings \<Rightarrow> attempt_state \<Rightarrow> string list \<Rightarrow> bool \<Rightarrow> verdict" where
  "judge cfg a errs conv =
     (if conv
      then if conv_limit cfg \<le> at_conv_tries a then Accept (at_value a)
           else Reprompt (a\<lparr>at_conv_tries := at_conv_tries a + 1\<rparr>) (convention_prompt cfg errs)
      else if at_conv_tries a \<noteq> 0 then Accept (at_last_valid a)
      else if schema_limit cfg \<le> at_schema_tries a then GiveUp
      else Reprompt (a\<lparr>at_schema_tries := at_schema_tries a + 1\<rparr>) (schema_prompt cfg errs))"

text \<open>
  The re-prompt: \<open>Inl\<close> ends the loop with an answer, \<open>Inr\<close> goes on with the next text; a reply
  without text, or a spent budget, ends it too.
\<close>

definition reprompt ::
  "'w settings \<Rightarrow> attempt_state \<Rightarrow> string \<Rightarrow> ('w, answer_out + attempt_state) act" where
  "reprompt cfg a corrective =
     (let msgs = at_messages a @ [assistant_msg (at_text a), user_msg corrective]; a = a\<lparr>at_messages := msgs\<rparr> in
      acatch
        (abind (ask (ag_llm cfg) (ag_system cfg) msgs) (\<lambda>resp.
         abind (amodify (\<lambda>s. track_last_text resp (accumulate (llm_response.r_usage resp) s))) (\<lambda>_.
         case r_final_text resp of
           Some (c # cs) \<Rightarrow>
             (let a = a\<lparr>at_text := c # cs\<rparr> in
              abind (aget (budget_breached cfg)) (\<lambda>broke.
              if \<not> broke then areturn (Inr a)
              else if at_conv_tries a \<noteq> 0
              then abind (amodify (set_convention not_applicable)) (\<lambda>_.
                   areturn (Inl (answered (at_text a) (at_last_valid a))))
              else areturn (Inl (resolve_answer cfg a))))
         | _ \<Rightarrow> areturn (Inl (resolve_answer cfg a)))))
        (\<lambda>e. case e of
           LLMFault m u \<Rightarrow>
             abind (amodify (accumulate u)) (\<lambda>_.
             areturn (Inl (rejected (at_text a) (''structured-output retry failed: '' @ m))))
         | _ \<Rightarrow> araise e))"

fun answer_loop :: "'w settings \<Rightarrow> nat \<Rightarrow> nat \<Rightarrow> nat \<Rightarrow> attempt_state \<Rightarrow> ('w, answer_out) act" where
  "answer_loop cfg n 0 attempt a = areturn (resolve_answer cfg a)"
| "answer_loop cfg n (Suc left) attempt a =
     abind (check_answer cfg a) (\<lambda>(a, errs, conv).
     abind (alog (EvStructured n attempt (errs = []) errs)) (\<lambda>_.
     if errs = [] then areturn (answered (at_text a) (at_value a))
     else (let a = a\<lparr>at_errors := errs\<rparr> in
           case judge cfg a errs conv of
             Accept v \<Rightarrow> abind (amodify (set_convention not_applicable)) (\<lambda>_. areturn (answered (at_text a) v))
           | GiveUp \<Rightarrow> areturn (resolve_answer cfg a)
           | Reprompt a corrective \<Rightarrow>
               abind (reprompt cfg a corrective) (\<lambda>r.
               case r of Inl out \<Rightarrow> areturn out | Inr a \<Rightarrow> answer_loop cfg n left (Suc attempt) a))))"

definition attempt_limit :: "'w settings \<Rightarrow> nat" where
  "attempt_limit cfg = nat (schema_limit cfg + conv_limit cfg + 1)"

definition finalize_structured ::
  "'w settings \<Rightarrow> string \<Rightarrow> message list \<Rightarrow> nat \<Rightarrow> ('w, answer_out) act" where
  "finalize_structured cfg candidate msgs n =
     (if ag_schema cfg = [] then areturn (answered candidate VNone)
      else answer_loop cfg n (attempt_limit cfg) 0
             \<lparr>at_text = candidate, at_value = VNone, at_last_valid = VNone, at_errors = [],
              at_schema_tries = 0, at_conv_tries = 0, at_messages = msgs\<rparr>)"

lemma act_verdict:
  "(case v of Accept x \<Rightarrow> f x | GiveUp \<Rightarrow> g | Reprompt a c \<Rightarrow> h a c) s =
   (case v of Accept x \<Rightarrow> f x s | GiveUp \<Rightarrow> g s | Reprompt a c \<Rightarrow> h a c s)"
  by (cases v) simp_all

lemmas answer_eval [code] =
  fun_cong[OF check_answer_def[unfolded Let_def]] fun_cong[OF reprompt_def[unfolded Let_def]]
  fun_cong[OF answer_loop.simps(1)] fun_cong[OF answer_loop.simps(2)[unfolded Let_def]]
  fun_cong[OF finalize_structured_def]

fun is_structured :: "event \<Rightarrow> bool" where
  "is_structured (EvStructured n i ok errs) = True" | "is_structured _ = False"

section \<open>What an accepted answer guarantees\<close>

definition conf_schema :: "'w settings \<Rightarrow> pyval \<Rightarrow> bool" where
  "conf_schema cfg v \<longleftrightarrow> conforms v (VDict (ag_schema cfg))"

text \<open>A conforming value, or one with the fields of an accepted selection copied into it.\<close>

definition good_value :: "'w settings \<Rightarrow> pyval \<Rightarrow> bool" where
  "good_value cfg w \<longleftrightarrow> (\<exists>v. conf_schema cfg v \<and>
     (w = v \<or> ag_conventions cfg \<noteq> [] \<and>
        (\<exists>rc. va_valid (validate_branch_selection v (ag_conventions cfg) rc)
          \<and> w = copy_fields v (va_selected (validate_branch_selection v (ag_conventions cfg) rc)))))"

definition strict :: "'w settings \<Rightarrow> bool" where
  "strict cfg \<longleftrightarrow> ag_error_strategy cfg \<noteq> ''warn'' \<and> ag_error_strategy cfg \<noteq> ''fallback''"

lemma answer_out_simps [simp]:
  "an_ok (answered t v)" "an_value (answered t v) = v" "an_text (answered t v) = t" "an_error (answered t v) = None"
  "\<not> an_ok (rejected t e)" "an_error (rejected t e) = Some e"
  by (simp_all add: answered_def rejected_def)

lemma strict_resolve: "strict cfg \<Longrightarrow> \<not> an_ok (resolve_answer cfg a)"
  by (simp add: strict_def resolve_answer_def Let_def)

lemma good_conf: "conf_schema cfg v \<Longrightarrow> good_value cfg v"
  by (auto simp: good_value_def)

lemma schema_check_conforms: "schema_check cfg t = Inr (v, []) \<Longrightarrow> conf_schema cfg v"
  using validate_conforms[of v "VDict (ag_schema cfg)" "''$''" "[]"]
  by (auto simp: schema_check_def parse_response_def conf_schema_def split: option.splits)

lemma check_answer_Inr:
  assumes "check_answer cfg a s = (Inr (a', errs, conv), t)"
  shows "rs_trace t = rs_trace s" "at_text a' = at_text a" "at_schema_tries a' = at_schema_tries a"
    "at_conv_tries a' = at_conv_tries a" "errs = [] \<Longrightarrow> good_value cfg (at_value a')"
    "errs \<noteq> [] \<Longrightarrow> conv \<Longrightarrow> conf_schema cfg (at_value a')"
    "if conv then conf_schema cfg (at_last_valid a') else at_last_valid a' = at_last_valid a"
proof -
  obtain v es where sc: "schema_check cfg (fst (split_agent_output (at_text a))) = Inr (v, es)"
    using assms by (auto simp: check_answer_def act_simps split: sum.splits)
  let ?rc = "CfgObject (map_option VInt (ag_conv_retries cfg))"
  let ?val = "validate_branch_selection v (ag_conventions cfg) ?rc"
  have conf: "conf_schema cfg v" if "es = []" using sc that schema_check_conforms by blast
  consider (plain) "es \<noteq> [] \<or> ag_conventions cfg = []" "a' = a\<lparr>at_value := v\<rparr>" "errs = es" "\<not> conv" "t = s"
    | (applied) "es = []" "ag_conventions cfg \<noteq> []" "va_valid ?val" "errs = []" "conv"
        "a' = a\<lparr>at_value := copy_fields v (va_selected ?val), at_last_valid := v\<rparr>"
        "t = set_convention (conv_applied (va_branch ?val)) s"
    | (refused) "es = []" "errs \<noteq> []" "conv" "a' = a\<lparr>at_value := v, at_last_valid := v\<rparr>" "t = s"
    using assms sc by (auto simp: check_answer_def act_simps Let_def split: if_splits)
  then have "rs_trace t = rs_trace s \<and> at_text a' = at_text a \<and> at_schema_tries a' = at_schema_tries a
    \<and> at_conv_tries a' = at_conv_tries a \<and> (errs = [] \<longrightarrow> good_value cfg (at_value a'))
    \<and> (errs \<noteq> [] \<longrightarrow> conv \<longrightarrow> conf_schema cfg (at_value a'))
    \<and> (if conv then conf_schema cfg (at_last_valid a') else at_last_valid a' = at_last_valid a)"
  proof cases
    case plain
    then show ?thesis using conf by (auto intro: good_conf)
  next
    case applied
    then have "good_value cfg (copy_fields v (va_selected ?val))" using conf unfolding good_value_def by blast
    with applied conf show ?thesis by (simp add: set_convention_def)
  next
    case refused
    then show ?thesis using conf by simp
  qed
  then show "rs_trace t = rs_trace s" "at_text a' = at_text a" "at_schema_tries a' = at_schema_tries a"
    "at_conv_tries a' = at_conv_tries a" "errs = [] \<Longrightarrow> good_value cfg (at_value a')"
    "errs \<noteq> [] \<Longrightarrow> conv \<Longrightarrow> conf_schema cfg (at_value a')"
    "if conv then conf_schema cfg (at_last_valid a') else at_last_valid a' = at_last_valid a"
    by blast+
qed

definition last_valid_ok :: "'w settings \<Rightarrow> attempt_state \<Rightarrow> bool" where
  "last_valid_ok cfg a \<longleftrightarrow> (at_conv_tries a \<noteq> 0 \<longrightarrow> conf_schema cfg (at_last_valid a))"

lemma reprompt_Inr:
  assumes "reprompt cfg a c s = (Inr r, t)" and "strict cfg" and "last_valid_ok cfg a"
  shows "(case r of Inl out \<Rightarrow> an_ok out \<longrightarrow> conf_schema cfg (an_value out) | Inr a' \<Rightarrow> last_valid_ok cfg a')
     \<and> filter is_structured (rs_trace t) = filter is_structured (rs_trace s)"
proof -
  let ?msgs = "at_messages a @ [assistant_msg (at_text a), user_msg c]"
  let ?a = "a\<lparr>at_messages := at_messages a @ [assistant_msg (at_text a), user_msg c]\<rparr>"
  obtain x s1 where ask: "ask (ag_llm cfg) (ag_system cfg) ?msgs s = (x, s1)" by fastforce
  have q: "filter is_structured (rs_trace s1) = filter is_structured (rs_trace s)"
    using keepsD[OF keeps_ask_basic(2) ask] by (simp add: same_events_def)
  show ?thesis
  proof (cases x)
    case (Inl e)
    with assms(1) ask q show ?thesis
      by (cases e) (auto simp: reprompt_def Let_def acatch_def abind_def act_simps)
  next
    case (Inr resp)
    show ?thesis
    proof (cases "case r_final_text resp of Some (c # cs) \<Rightarrow> True | _ \<Rightarrow> False")
      case False
      then have "r = Inl (resolve_answer cfg ?a)"
        "t = track_last_text resp (accumulate (llm_response.r_usage resp) s1)"
        using assms(1) ask Inr
        by (auto simp: reprompt_def Let_def acatch_def abind_def act_simps split: option.splits list.splits)
      then show ?thesis using q strict_resolve[OF assms(2)] by simp
    next
      case True
      then obtain d ds where ft: "r_final_text resp = Some (d # ds)" by (auto split: option.splits list.splits)
      let ?b = "?a\<lparr>at_text := d # ds\<rparr>"
      let ?s2 = "track_last_text resp (accumulate (llm_response.r_usage resp) s1)"
      have "(r, t) = (if \<not> budget_breached cfg ?s2 then (Inr ?b, ?s2)
           else if at_conv_tries a \<noteq> 0
           then (Inl (answered (d # ds) (at_last_valid a)), set_convention not_applicable ?s2)
           else (Inl (resolve_answer cfg ?b), ?s2))"
        using assms(1) ask Inr ft
        by (auto simp: reprompt_def Let_def acatch_def abind_def act_simps split: if_splits)
      then show ?thesis using q strict_resolve[OF assms(2)] assms(3)
        by (auto simp: last_valid_ok_def set_convention_def split: if_splits)
    qed
  qed
qed

text \<open>The attempts of a loop are logged in order; only the last one can be valid.\<close>

lemma answer_loop_strict:
  assumes "answer_loop cfg n left attempt a s = (Inr out, t)" and "strict cfg" and "last_valid_ok cfg a"
  shows "(an_ok out \<longrightarrow> good_value cfg (an_value out))
     \<and> (\<exists>evs. filter is_structured (rs_trace t) = filter is_structured (rs_trace s) @ evs \<and> length evs \<le> left)"
  using assms(1,3)
proof (induction left arbitrary: attempt a s)
  case 0
  then show ?case using strict_resolve[OF assms(2)] by (auto simp: act_simps)
next
  case (Suc left)
  from Suc.prems(1) obtain a1 errs conv s1 where ch: "check_answer cfg a s = (Inr (a1, errs, conv), s1)"
    by (auto simp: act_simps split: prod.splits)
  note c = check_answer_Inr[OF ch]
  let ?ev = "EvStructured n attempt (errs = []) errs"
  let ?s2 = "log_event ?ev s1" and ?a2 = "a1\<lparr>at_errors := errs\<rparr>"
  have step: "(Inr out, t) = (if errs = [] then (Inr (answered (at_text a1) (at_value a1)), ?s2)
     else (case judge cfg ?a2 errs conv of
             Accept v \<Rightarrow> (Inr (answered (at_text a1) v), set_convention not_applicable ?s2)
           | GiveUp \<Rightarrow> (Inr (resolve_answer cfg ?a2), ?s2)
           | Reprompt a' corrective \<Rightarrow>
               abind (reprompt cfg a' corrective) (\<lambda>r.
               case r of Inl out \<Rightarrow> areturn out | Inr a'' \<Rightarrow> answer_loop cfg n left (Suc attempt) a'') ?s2))"
    using Suc.prems(1) ch by (auto simp: abind_def act_simps Let_def split: verdict.splits)
  have tr: "filter is_structured (rs_trace ?s2) = filter is_structured (rs_trace s) @ [?ev]" by (simp add: c(1))
  have ok2: "last_valid_ok cfg ?a2" using c(4,7) Suc.prems(2) by (auto simp: last_valid_ok_def split: if_splits)
  show ?case
  proof (cases "errs = []")
    case True
    with step have "out = answered (at_text a1) (at_value a1)" "t = ?s2" by simp_all
    then show ?thesis using c(5)[OF True] tr by simp
  next
    case bad: False
    show ?thesis
    proof (cases "judge cfg ?a2 errs conv")
      case (Accept v)
      with step bad have o: "out = answered (at_text a1) v" "t = set_convention not_applicable ?s2" by simp_all
      have "conf_schema cfg v"
        using Accept ok2 c(6)[OF bad] by (auto simp: judge_def last_valid_ok_def split: if_splits)
      then show ?thesis using o tr good_conf by (simp add: set_convention_def)
    next
      case GiveUp
      with step bad show ?thesis using strict_resolve[OF assms(2)] tr by simp
    next
      case (Reprompt a' corr)
      have ok': "last_valid_ok cfg a'"
        using Reprompt ok2 c(6,7) bad by (auto simp: judge_def last_valid_ok_def split: if_splits)
      from step bad Reprompt obtain r s3 where r: "reprompt cfg a' corr ?s2 = (Inr r, s3)"
        and k: "(case r of Inl out \<Rightarrow> areturn out | Inr a'' \<Rightarrow> answer_loop cfg n left (Suc attempt) a'') s3 = (Inr out, t)"
        by (auto simp: abind_def split: prod.splits sum.splits)
      note rp = reprompt_Inr[OF r assms(2) ok']
      show ?thesis
      proof (cases r)
        case (Inl o')
        with k rp tr show ?thesis by (auto simp: act_simps good_conf)
      next
        case (Inr a'')
        with k rp have "answer_loop cfg n left (Suc attempt) a'' s3 = (Inr out, t)" "last_valid_ok cfg a''" by simp_all
        from Suc.IH[OF this] rp tr show ?thesis by auto
      qed
    qed
  qed
qed

section \<open>Properties\<close>

text \<open>
  C6: Under the strict strategy an accepted structured answer conforms to the response schema,
  or is a conforming value with the fields of one accepted convention selection copied into it;
  with no conventions it conforms, outright.  At most \<open>response_retries\<close> + 1 validations are
  logged, one more when conventions were retrieved (\<open>_finalize_structured\<close>).
\<close>

theorem strict_answer_conforms:
  assumes "finalize_structured cfg candidate msgs n s = (Inr out, t)" and "strict cfg" and "ag_schema cfg \<noteq> []"
  shows "(an_ok out \<longrightarrow> (\<exists>v. conforms v (VDict (ag_schema cfg)) \<and>
            (an_value out = v \<or> ag_conventions cfg \<noteq> [] \<and>
              (\<exists>rc. va_valid (validate_branch_selection v (ag_conventions cfg) rc)
                \<and> an_value out = copy_fields v (va_selected (validate_branch_selection v (ag_conventions cfg) rc))))))
     \<and> (\<exists>evs. filter is_structured (rs_trace t) = filter is_structured (rs_trace s) @ evs
          \<and> length evs \<le> nat (max 0 (ag_retries cfg)) + (if ag_conventions cfg = [] then 1 else 2))"
proof -
  let ?a = "\<lparr>at_text = candidate, at_value = VNone, at_last_valid = VNone, at_errors = [],
     at_schema_tries = 0, at_conv_tries = 0, at_messages = msgs\<rparr>"
  have "answer_loop cfg n (attempt_limit cfg) 0 ?a s = (Inr out, t)"
    using assms(1,3) by (simp add: finalize_structured_def)
  from answer_loop_strict[OF this assms(2)] have
    g: "an_ok out \<longrightarrow> good_value cfg (an_value out)" and
    "\<exists>evs. filter is_structured (rs_trace t) = filter is_structured (rs_trace s) @ evs \<and> length evs \<le> attempt_limit cfg"
    by (simp_all add: last_valid_ok_def)
  moreover have "attempt_limit cfg \<le> nat (max 0 (ag_retries cfg)) + (if ag_conventions cfg = [] then 1 else 2)"
    by (auto simp: attempt_limit_def schema_limit_def conv_limit_def split: option.splits)
  ultimately have "\<exists>evs. filter is_structured (rs_trace t) = filter is_structured (rs_trace s) @ evs
      \<and> length evs \<le> nat (max 0 (ag_retries cfg)) + (if ag_conventions cfg = [] then 1 else 2)"
    using le_trans by blast
  with g show ?thesis unfolding good_value_def conf_schema_def by blast
qed

definition object_schema :: pydict where
  "object_schema = [(KStr ''type'', VStr ''object'')]"

text \<open>A first reply that is no JSON, a second one that conforms.\<close>

definition strict_settings :: "scripted settings" where
  "strict_settings = scripted_settings\<lparr>ag_schema := object_schema,
     ag_loads := (\<lambda>t. if t = ''{}'' then Some (VDict []) else None)\<rparr>"

definition strict_run :: "scripted run" where
  "strict_run = new_run \<lparr>sc_script = [answer_response ''{}''], sc_pos = 0\<rparr> (scripted_registry [])"

theorem strict_answer_conforms_witness:
  "\<exists>out t. finalize_structured strict_settings ''oops'' [] 0 strict_run = (Inr out, t) \<and> an_ok out
     \<and> conforms (an_value out) (VDict object_schema) \<and> an_value out = VDict []
     \<and> length (filter is_structured (rs_trace t)) = 2"
proof -
  have e: "case finalize_structured strict_settings ''oops'' [] 0 strict_run of
      (Inr out, t) \<Rightarrow> an_ok out \<and> an_value out = VDict [] \<and> length (filter is_structured (rs_trace t)) = 2 | _ \<Rightarrow> False"
    by code_simp
  obtain r t where rt: "finalize_structured strict_settings ''oops'' [] 0 strict_run = (r, t)" by fastforce
  then obtain out where r: "r = Inr out" and v: "an_ok out" "an_value out = VDict []"
    "length (filter is_structured (rs_trace t)) = 2"
    using e by (auto split: sum.splits)
  have c: "strict strict_settings" "ag_schema strict_settings = object_schema" "object_schema \<noteq> []"
    "ag_conventions strict_settings = []"
    by (simp_all add: strict_def strict_settings_def scripted_settings_def object_schema_def)
  from strict_answer_conforms[OF rt[unfolded r] c(1)] have "conforms (an_value out) (VDict object_schema)"
    using v(1) c by auto
  with rt r v show ?thesis by blast
qed

section \<open>Two answers the schema does not allow\<close>

text \<open>Under \<open>warn\<close> a value that never passed validation is the structured output.\<close>

definition warn_settings :: "scripted settings" where
  "warn_settings = scripted_settings\<lparr>ag_schema := object_schema, ag_error_strategy := ''warn'', ag_retries := 0,
     ag_loads := (\<lambda>t. Some (VInt 3))\<rparr>"

theorem warn_keeps_unvalidated_value:
  "(case finalize_structured warn_settings ''3'' [] 0 strict_run of
      (Inr out, t) \<Rightarrow> an_ok out \<and> an_value out = VInt 3
        \<and> validate (an_value out) (VDict object_schema) ''$'' = Inr [WrongType ''$'' (VStr ''object'') (VInt 3)]
        \<and> filter is_structured (rs_trace t) = [EvStructured 0 0 False [''$: expected type ?, got integer'']]
    | _ \<Rightarrow> False)"
  by code_simp

text \<open>The copied fields of a convention branch are not validated again.\<close>

definition code_schema :: pydict where
  "code_schema = [(KStr ''type'', VStr ''object''),
     (KStr ''properties'', VDict [(KStr ''code'', VDict [(KStr ''type'', VStr ''string'')])])]"

definition branch_reply :: pyval where
  "branch_reply = VDict [(KStr ''response'', VStr (''Refund.'' @ [CHR 0x0A] @ ''SELECTED_BRANCH: late'' @ [CHR 0x0A] @
     ''BRANCH_EVIDENCE: order 7 is late''))]"

definition copy_settings :: "scripted settings" where
  "copy_settings = scripted_settings\<lparr>ag_schema := code_schema, ag_loads := (\<lambda>t. Some branch_reply),
     ag_conventions := [CRecord [[(KStr ''branch_id'', VStr ''late''), (KStr ''fields'', VDict [(KStr ''code'', VInt 3)])]]]\<rparr>"

theorem copied_fields_not_validated:
  "(case finalize_structured copy_settings ''{}'' [] 0 strict_run of
      (Inr out, t) \<Rightarrow> an_ok out \<and> validate branch_reply (VDict code_schema) ''$'' = Inr []
        \<and> validate (an_value out) (VDict code_schema) ''$'' = Inr [WrongType ''$.code'' (VStr ''string'') (VInt 3)] | _ \<Rightarrow> False)"
  by code_simp

end
