(* ===== verification/Agent_Attempt.thy ===== *)
theory Agent_Attempt
  imports Agent_Answer
begin

text \<open>
  One whole attempt (\<open>_run_single_attempt\<close> of \<open>src/fabri/core/agent.py\<close>): the system prompt,
  the planned path and the single loop, the outcome, the terminal event and the usage record.
  The lemmas bound the steps of an attempt, tie its outcome to the tool calls of its trace,
  show that its events form a well-bracketed lifecycle and that its totals add up.
\<close>

section \<open>The system prompt\<close>

definition is_word :: "char \<Rightarrow> bool" where
  "is_word c = (is_alpha c \<or> is_digit_char c \<or> c = CHR ''_'')"

text \<open>\<open>re.search(r"\bname\b", s)\<close> for a name of word characters; \<open>prev\<close> is the character before.\<close>

fun has_word :: "string \<Rightarrow> char option \<Rightarrow> string \<Rightarrow> bool" where
  "has_word name prev [] = False"
| "has_word name prev (c # cs) =
     (starts_with name (c # cs)
        \<and> (case prev of None \<Rightarrow> True | Some p \<Rightarrow> \<not> is_word p)
        \<and> (case drop (length name) (c # cs) of [] \<Rightarrow> True | d # ds \<Rightarrow> \<not> is_word d)
      \<or> has_word name (Some c) cs)"

definition agent_identity :: string where
  "agent_identity = ''You are an autonomous agent. Complete the task, then stop.''"

definition frugality_policy :: string where
  "frugality_policy =
     ''Be deliberate: every tool call re-sends the whole context, so prefer one '' @
     ''decisive call over many exploratory ones, and if you can already answer or '' @
     ''act, do that instead of probing. Your step budget is finite.''"

definition delegation_policy :: string where
  "delegation_policy =
     ''Do the work inline by default. Spawn a sub-agent ONLY for a subtask that is '' @
     ''independent, parallelizable, AND too large for your own context -- never for '' @
     ''sequential/dependent steps or just because the tool exists. A spawn re-runs '' @
     ''the whole loop, so an unnecessary one multiplies cost.''"

definition code_action_policy :: string where
  "code_action_policy =
     ''Prefer code as action: when a job needs several operations, do them in one '' @
     ''`python_exec` script (or one `batch` call) that branches over the results, '' @
     ''rather than many separate tool calls.''"

definition file_edit_policy :: string where
  "file_edit_policy =
     ''File edit policy: when modifying a file that already exists, prefer '' @
     ''`edit_file` (a unique string replace) over `write_file`. Use `write_file` '' @
     ''only when creating a new file or when more than half the file is '' @
     ''changing. `read_file` supports `line_start`/`line_end` and '' @
     ''`outline_only=true` -- read only the slice you need.''"

definition toon_result_note :: string where
  "toon_result_note =
     ''Tool results are given to you in TOON, a compact format: objects are `key: value` '' @
     ''lines; arrays are `name[N]: v1,v2,...`, or a table `name[N]{f1,f2}:` followed by one '' @
     ''comma-separated row per element. Read it as structured data; keep calling tools and '' @
     ''answering normally.''"

definition task_precedence :: string where
  "task_precedence =
     ''Current task requirements take precedence over retrieved guidelines. Treat '' @
     ''retrieved guidance only as a fallible method hint: it must never remove, '' @
     ''weaken, or replace an explicit deliverable, constraint, output path, or '' @
     ''verification requirement from the current task. Before finishing, verify '' @
     ''that every explicit task requirement is satisfied.''"

definition proposed_note :: "string \<Rightarrow> string" where
  "proposed_note actions =
     ''PROPOSED from a past resolution of a similar problem -- NOT yet executed and '' @
     ''NOT authoritative; verify applicability before choosing to invoke; the current '' @
     ''task's requirements always take precedence.'' @ [CHR 0x0A] @ ''Proposed actions:'' @ [CHR 0x0A] @ actions"

text \<open>An f-string's rendering of a value; \<open>repr\<close> is Python's for what is not a string.\<close>

definition fmt :: "(pyval \<Rightarrow> string) \<Rightarrow> pyval \<Rightarrow> string" where
  "fmt repr v = (case v of VStr s \<Rightarrow> s | _ \<Rightarrow> repr v)"

definition action_lines :: "(pyval \<Rightarrow> string) \<Rightarrow> pyval list list \<Rightarrow> string" where
  "action_lines repr resolutions =
     join [CHR 0x0A]
       (concat (map (List.map_filter (\<lambda>step. case step of
            VDict d \<Rightarrow> Some (''- '' @ fmt repr (dict_get d ''capability'') @ ''('' @
                         fmt repr (dict_get d ''args_template'') @ '')'')
          | _ \<Rightarrow> None)) resolutions))"

definition build_system_prompt ::
  "(pyval \<Rightarrow> string) \<Rightarrow> string \<Rightarrow> string \<Rightarrow> string \<Rightarrow> string \<Rightarrow> string \<Rightarrow> bool \<Rightarrow> pyval list list \<Rightarrow> string" where
  "build_system_prompt repr context_block desc system_prompt prefix result_format precedence proposed =
     (let has = (\<lambda>name. has_word name None desc);
          parts =
            [prefix,
             if system_prompt = [] then agent_identity else system_prompt,
             if desc = [] then [] else ''Available tools:'' @ [CHR 0x0A] @ desc,
             if has ''edit_file'' \<and> has ''write_file'' then file_edit_policy else [],
             frugality_policy,
             if has ''spawn_subagent'' then delegation_policy else [],
             if has ''python_exec'' \<or> has ''batch'' then code_action_policy else [],
             if result_format = ''toon'' then toon_result_note else [],
             context_block,
             if precedence \<and> context_block \<noteq> [] then task_precedence else [],
             if proposed = [] then [] else proposed_note (action_lines repr proposed)]
      in join blank_line (filter (\<lambda>p. p \<noteq> []) parts))"

section \<open>The result of the loops\<close>

record attempt_out =
  ao_final :: "string option"
  ao_structured :: pyval
  ao_success :: bool
  ao_failed :: bool
  ao_schema_failed :: bool
  ao_error :: "string option"
  ao_had_failure :: bool
  ao_calls :: nat
  ao_failed_calls :: nat
  ao_steps :: nat

definition attempt_start :: attempt_out where
  "attempt_start = \<lparr>ao_final = None, ao_structured = VNone, ao_success = False, ao_failed = False,
     ao_schema_failed = False, ao_error = None, ao_had_failure = False, ao_calls = 0, ao_failed_calls = 0,
     ao_steps = 0\<rparr>"

definition add_loop :: "loop_out \<Rightarrow> attempt_out \<Rightarrow> attempt_out" where
  "add_loop l out = out\<lparr>ao_steps := ao_steps out + lo_steps l, ao_had_failure := ao_had_failure out \<or> lo_had_failure l,
     ao_calls := ao_calls out + lo_calls l, ao_failed_calls := ao_failed_calls out + lo_failed_calls l\<rparr>"

section \<open>The planned path\<close>

definition plan_engaged :: "'w settings \<Rightarrow> bool" where
  "plan_engaged cfg = (ag_planner_mode cfg = ''force'' \<or>
     ag_planner_mode cfg = ''auto'' \<and> ag_planner_threshold cfg \<le> int (length (ag_task cfg)))"

definition planner_backend :: "'w settings \<Rightarrow> 'w backend" where
  "planner_backend cfg =
     (case ag_planner_llm cfg of
        Some b \<Rightarrow> b
      | None \<Rightarrow> (case ag_decompose_llm cfg of Some b \<Rightarrow> b | None \<Rightarrow> ag_llm cfg))"

text \<open>The planner's model call, with its usage accumulated.\<close>

definition ask_plan :: "'w settings \<Rightarrow> ('w, plan_item list) act" where
  "ask_plan cfg s =
     (case make_plan (\<lambda>system user. planner_backend cfg system [user_msg user]) (ag_loads cfg)
             (ag_planner_prompt cfg) (ag_planner_max_items cfg) (ag_task cfg) None (rs_world s) of
        (Inl e, w) \<Rightarrow> (Inl e, s\<lparr>rs_world := w\<rparr>)
      | (Inr (items, u), w) \<Rightarrow> (Inr items, accumulate u (s\<lparr>rs_world := w\<rparr>)))"

definition item_prompt :: "plan_item \<Rightarrow> string list \<Rightarrow> string" where
  "item_prompt item completed =
     (let summary = (if completed = [] then ''(none yet)'' else join ''; '' completed);
          arts = join '', '' (pi_artifacts item)
      in ''Current goal: '' @ pi_goal item @ [CHR 0x0A] @
         ''Target artefacts: '' @ (if arts = [] then ''(none)'' else arts) @ [CHR 0x0A] @
         ''Previously completed in this plan: '' @ summary @ [CHR 0x0A] @
         ''Do this single goal, then reply with a brief confirmation.'')"

text \<open>The steps of an item: an even share of what remains among the items not yet processed.\<close>

definition item_budget :: "int \<Rightarrow> nat \<Rightarrow> nat \<Rightarrow> int" where
  "item_budget remaining items processed = max 1 (remaining div max 1 (int items - int processed))"

record plan_state =
  ps_remaining :: int
  ps_outputs :: "string list"
  ps_completed :: "string list"
  ps_out :: attempt_out

definition run_item :: "'w settings \<Rightarrow> nat \<Rightarrow> plan_item \<Rightarrow> int \<Rightarrow> plan_state \<Rightarrow> ('w, loop_out) act" where
  "run_item cfg idx item budget p =
     acatch
       (abind (run_step_loop cfg [user_msg (item_prompt item (ps_completed p))] (pi_goal item) budget
                 (ao_steps (ps_out p))) (\<lambda>(l, _). areturn l))
       (\<lambda>e. case e of
          ProtocolFault m \<Rightarrow>
            abind (alog (EvPlanItemFinished idx False (Some ''protocol_error''))) (\<lambda>_. araise e)
        | _ \<Rightarrow> araise e)"

text \<open>What an item's loop adds to the plan, and the reason its finish event gives (\<open>None\<close> when it is done).\<close>

definition after_item :: "nat \<Rightarrow> plan_item \<Rightarrow> loop_out \<Rightarrow> plan_state \<Rightarrow> plan_state \<times> string option" where
  "after_item idx item l p =
     (let out = add_loop l (ps_out p);
          p = p\<lparr>ps_remaining := ps_remaining p - int (lo_steps l), ps_out := out\<rparr>
      in if lo_failed l
         then (p\<lparr>ps_out := out\<lparr>ao_failed := True, ao_error := lo_error l\<rparr>\<rparr>, Some ''llm_error'')
         else case lo_final l of
           Some (c # cs) \<Rightarrow>
             if lo_success l
             then (p\<lparr>ps_outputs := ps_outputs p @ [c # cs],
                     ps_completed := ps_completed p @ [''#'' @ show_nat idx @ '' '' @ pi_goal item]\<rparr>, None)
             else (p, Some ''incomplete'')
         | _ \<Rightarrow> (p, Some ''incomplete''))"

fun plan_loop ::
  "'w settings \<Rightarrow> plan_item list \<Rightarrow> nat \<Rightarrow> nat \<Rightarrow> nat list \<Rightarrow> plan_state \<Rightarrow> ('w, plan_state) act" where
  "plan_loop cfg items n processed [] p = areturn p"
| "plan_loop cfg items n processed (idx # order) p =
     (if ps_remaining p \<le> 0 \<or> ao_failed (ps_out p) then areturn p
      else (let item = items ! idx in
        abind (alog (EvPlanItemStarted idx (pi_goal item) (pi_artifacts item))) (\<lambda>_.
        abind (run_item cfg idx item (item_budget (ps_remaining p) n processed) p) (\<lambda>l.
        case after_item idx item l p of
          (p', reason) \<Rightarrow>
            abind (alog (EvPlanItemFinished idx (reason = None) reason)) (\<lambda>_.
            if ao_failed (ps_out p') then areturn p'
            else plan_loop cfg items n (Suc processed) order p')))))"

definition plan_result :: "plan_item list \<Rightarrow> plan_state \<Rightarrow> attempt_out" where
  "plan_result items p =
     (if ps_outputs p \<noteq> [] \<and> \<not> ao_failed (ps_out p)
      then (ps_out p)\<lparr>ao_final := Some (join blank_line (ps_outputs p)),
                      ao_success := length (ps_outputs p) = length items\<rparr>
      else ps_out p)"

definition execute_plan :: "'w settings \<Rightarrow> plan_item list \<Rightarrow> ('w, attempt_out) act" where
  "execute_plan cfg items =
     (let order = topological_order items in
      abind (alog (EvPlanStarted items order)) (\<lambda>_.
      abind (plan_loop cfg items (length order) 0 order
               \<lparr>ps_remaining = ag_max_steps cfg, ps_outputs = [], ps_completed = [], ps_out = attempt_start\<rparr>) (\<lambda>p.
      abind (alog (EvPlanFinished (length (ps_outputs p)) (length items))) (\<lambda>_.
      areturn (plan_result items p)))))"

definition planner_failed :: "string \<Rightarrow> attempt_out" where
  "planner_failed m = attempt_start\<lparr>ao_failed := True, ao_error := Some (''planner failed: '' @ m)\<rparr>"

definition planned_run :: "'w settings \<Rightarrow> ('w, attempt_out) act" where
  "planned_run cfg =
     abind
       (acatch (abind (ask_plan cfg) (\<lambda>items. areturn (items, attempt_start)))
          (\<lambda>e. case e of
             LLMFault m u \<Rightarrow>
               abind (amodify (accumulate u)) (\<lambda>_.
               abind (alog (EvError (ao_error (planner_failed m)) Failed)) (\<lambda>_.
               areturn ([], planner_failed m)))
           | _ \<Rightarrow> araise e))
       (\<lambda>(items, out). if items = [] then areturn out else execute_plan cfg items)"

section \<open>The single loop\<close>

definition accept_answer :: "answer_out \<Rightarrow> attempt_out \<Rightarrow> attempt_out" where
  "accept_answer a out = out\<lparr>ao_final := Some (an_text a), ao_structured := an_value a, ao_success := True\<rparr>"

definition refuse_answer :: "answer_out \<Rightarrow> attempt_out \<Rightarrow> attempt_out" where
  "refuse_answer a out =
     out\<lparr>ao_final := Some (an_text a), ao_schema_failed := True, ao_failed := True, ao_error := an_error a\<rparr>"

definition single_run :: "'w settings \<Rightarrow> ('w, attempt_out) act" where
  "single_run cfg =
     abind (run_step_loop cfg [user_msg (ag_task cfg)] (ag_task cfg) (ag_max_steps cfg) 0) (\<lambda>(l, msgs).
     (let out = add_loop l attempt_start in
      if lo_failed l then areturn (out\<lparr>ao_failed := True, ao_error := lo_error l\<rparr>)
      else case lo_final l of
        None \<Rightarrow> areturn out
      | Some t \<Rightarrow>
          if \<not> lo_success l then areturn out
          else abind (finalize_structured cfg t msgs (lo_steps l - 1)) (\<lambda>a.
               if an_ok a then areturn (accept_answer a out)
               else abind (alog (EvError (an_error a) InvalidOutput)) (\<lambda>_. areturn (refuse_answer a out)))))"

section \<open>The outcome\<close>

definition classify_outcome :: "bool \<Rightarrow> bool \<Rightarrow> bool \<Rightarrow> nat \<Rightarrow> nat \<Rightarrow> outcome" where
  "classify_outcome success had_failure failed calls failed_calls =
     (if failed then Failed
      else if \<not> success then (if had_failure then IncompleteWithToolFailure else Incomplete)
      else if 2 \<le> calls \<and> failed_calls = calls then AllToolsFailed
      else if had_failure then SuccessWithRecovery else Success)"

text \<open>The outcome of a run, and the run with its failure flag set when the budget was breached.\<close>

definition settle :: "attempt_out \<Rightarrow> outcome \<times> attempt_out" where
  "settle out =
     (if ao_schema_failed out then (InvalidOutput, out)
      else if \<not> ao_success out \<and> ao_error out = Some budget_error then (BudgetExceeded, out\<lparr>ao_failed := True\<rparr>)
      else (classify_outcome (ao_success out) (ao_had_failure out) (ao_failed out) (ao_calls out)
              (ao_failed_calls out), out))"

definition terminal_event :: "outcome \<Rightarrow> attempt_out \<Rightarrow> string option \<Rightarrow> event" where
  "terminal_event oc out last_text =
     (if ao_success out then EvFinal (ao_final out) oc
      else if ao_failed out then EvFailed (ao_error out) oc last_text
      else EvIncomplete oc last_text)"

definition shown_text :: "attempt_out \<Rightarrow> string option" where
  "shown_text out =
     (case ao_final out of
        Some (c # cs) \<Rightarrow> if ao_success out then Some (fst (split_agent_output (c # cs))) else ao_final out
      | _ \<Rightarrow> ao_final out)"

section \<open>Usage\<close>

record retrieval =
  rv_context :: string
  rv_retrieved :: int
  rv_from_prior :: int
  rv_conventions :: "convention list"
  rv_actions :: "pyval list list"

definition model_label :: "string \<Rightarrow> string" where
  "model_label m = (if m = [] then ''unknown'' else m)"

definition cost_by_model :: "'w settings \<Rightarrow> 'w run \<Rightarrow> (string \<times> rat) list" where
  "cost_by_model cfg s =
     fold (\<lambda>(m, b) d. case cost_for (ag_prices cfg) b of None \<Rightarrow> d | Some c \<Rightarrow> AList.update (model_label m) c d)
       (rs_models s) []"

definition round4 :: "rat \<Rightarrow> rat" where
  "round4 x = round6 (x / 100) * 100"

definition usage_record ::
  "'w settings \<Rightarrow> retrieval \<Rightarrow> (string \<times> tool_stats) list \<Rightarrow> nat \<Rightarrow> 'w run \<Rightarrow> run_usage" where
  "usage_record cfg rv snapshot steps s =
     (let own = round6 (own_cost cfg s); child = pf_round6 (rs_child_cost s)
      in \<lparr>ru_totals = rs_totals s, ru_steps = steps, ru_cost = own, ru_cost_by_model = cost_by_model cfg s,
          ru_child_cost = child, ru_total_cost = pf_round6 (pf_add (Fin own) child),
          ru_reuse_rate = (if rv_retrieved rv = 0 then None
             else Some (round4 (rat_of_int (rv_from_prior rv) / rat_of_int (rv_retrieved rv)))),
          ru_retrieved = rv_retrieved rv, ru_from_prior = rv_from_prior rv, ru_spawns = rs_spawns s,
          ru_tools = usage_since (rs_reg s) snapshot\<rparr>)"

section \<open>One attempt\<close>

record run_result =
  rr_success :: bool
  rr_final :: "string option"
  rr_structured :: pyval
  rr_outcome :: outcome
  rr_usage :: run_usage
  rr_convention :: "string option"

text \<open>
  What a run is given besides its settings: the prompt's parts, the memory's retrieval (which
  asks an external vector store) and the tool retrieval.
\<close>

record 'w agent =
  an_settings :: "'w settings"
  an_prompt :: string
  an_prefix :: string
  an_precedence :: bool
  an_retrieve :: "string \<Rightarrow> manifest list \<Rightarrow> 'w \<Rightarrow> (agent_exc + retrieval) \<times> 'w"
  an_select :: "string \<Rightarrow> manifest list \<Rightarrow> 'w \<Rightarrow> (agent_exc + manifest list) \<times> 'w"

definition begin_attempt :: "'w run \<Rightarrow> 'w run" where
  "begin_attempt s = s\<lparr>rs_totals := empty_usage, rs_models := [], rs_child_cost := Fin 0, rs_spawns := no_spawns,
     rs_last_text := None, rs_narrated := None, rs_convention := None\<rparr>"

definition on_world :: "('w \<Rightarrow> (agent_exc + 'a) \<times> 'w) \<Rightarrow> ('w, 'a) act" where
  "on_world f s = (case f (rs_world s) of (r, w) \<Rightarrow> (r, s\<lparr>rs_world := w\<rparr>))"

definition show_tools :: "'w settings \<Rightarrow> manifest list \<Rightarrow> 'w run \<Rightarrow> 'w run" where
  "show_tools cfg tools s =
     s\<lparr>rs_visible := tools,
       rs_world := (if ag_tool_retrieval cfg
          then (case ag_set_tools cfg of None \<Rightarrow> rs_world s | Some f \<Rightarrow> f (map def_of tools) (rs_world s))
          else rs_world s)\<rparr>"

definition choose_tools :: "'w agent \<Rightarrow> string \<Rightarrow> ('w, manifest list) act" where
  "choose_tools ag task =
     abind (aget (\<lambda>s. list_tools (rs_reg s))) (\<lambda>all.
     abind (if ag_tool_retrieval (an_settings ag) then on_world (an_select ag task all) else areturn all) (\<lambda>tools.
     abind (amodify (show_tools (an_settings ag) tools)) (\<lambda>_. areturn tools)))"

definition tool_lines :: "manifest list \<Rightarrow> string" where
  "tool_lines tools = join [CHR 0x0A] (map (\<lambda>m. ''- '' @ m_name m @ '': '' @ m_description m) tools)"

text \<open>The settings of an attempt at a task: the prompt and the conventions its retrieval gave.\<close>

definition attempt_settings :: "'w agent \<Rightarrow> string \<Rightarrow> retrieval \<Rightarrow> manifest list \<Rightarrow> 'w settings" where
  "attempt_settings ag task rv tools =
     (let cfg = an_settings ag
      in cfg\<lparr>ag_task := task, ag_conventions := rv_conventions rv,
             ag_system := build_system_prompt (ag_repr cfg) (rv_context rv) (tool_lines tools) (an_prompt ag)
               (an_prefix ag) (ag_result_format cfg) (an_precedence ag) (rv_actions rv)\<rparr>)"

definition run_loops :: "'w settings \<Rightarrow> ('w, attempt_out) act" where
  "run_loops cfg = (if plan_engaged cfg then planned_run cfg else single_run cfg)"

definition finish_attempt ::
  "'w settings \<Rightarrow> retrieval \<Rightarrow> (string \<times> tool_stats) list \<Rightarrow> attempt_out \<Rightarrow> ('w, run_result) act" where
  "finish_attempt cfg rv snapshot out =
     (case settle out of (oc, out) \<Rightarrow>
      abind (aget rs_last_text) (\<lambda>last_text.
      abind (alog (terminal_event oc out last_text)) (\<lambda>_.
      abind (aget (usage_record cfg rv snapshot (ao_steps out))) (\<lambda>usage.
      abind (alog (EvUsage usage)) (\<lambda>_.
      abind (aget rs_convention) (\<lambda>convention.
      areturn \<lparr>rr_success = ao_success out, rr_final = shown_text out, rr_structured = ao_structured out,
        rr_outcome = oc, rr_usage = usage, rr_convention = convention\<rparr>))))))"

definition run_single_attempt :: "'w agent \<Rightarrow> string \<Rightarrow> ('w, run_result) act" where
  "run_single_attempt ag task =
     abind (amodify begin_attempt) (\<lambda>_.
     abind (alog (EvStart task)) (\<lambda>_.
     abind (aget (\<lambda>s. list_tools (rs_reg s))) (\<lambda>all.
     abind (on_world (an_retrieve ag task all)) (\<lambda>rv.
     abind (choose_tools ag task) (\<lambda>tools.
     let cfg = attempt_settings ag task rv tools in
     abind (aget (\<lambda>s. r_stats (rs_reg s))) (\<lambda>snapshot.
     abind (run_loops cfg) (\<lambda>out.
     finish_attempt cfg rv snapshot out)))))))"

lemmas attempt_eval [code] =
  fun_cong[OF run_item_def] fun_cong[OF plan_loop.simps(1)] fun_cong[OF plan_loop.simps(2)[unfolded Let_def]]
  fun_cong[OF execute_plan_def[unfolded Let_def]] fun_cong[OF planned_run_def] fun_cong[OF single_run_def[unfolded Let_def]]
  fun_cong[OF choose_tools_def] fun_cong[OF run_loops_def] fun_cong[OF finish_attempt_def]
  fun_cong[OF run_single_attempt_def[unfolded Let_def]]

text \<open>An agent over a scripted backend whose memory is empty; used by the examples.\<close>

definition no_retrieval :: retrieval where
  "no_retrieval = \<lparr>rv_context = [], rv_retrieved = 0, rv_from_prior = 0, rv_conventions = [], rv_actions = []\<rparr>"

definition scripted_agent :: "scripted settings \<Rightarrow> scripted agent" where
  "scripted_agent cfg = \<lparr>an_settings = cfg, an_prompt = [], an_prefix = [], an_precedence = True,
     an_retrieve = (\<lambda>task tools w. (Inr no_retrieval, w)), an_select = (\<lambda>task tools w. (Inr tools, w))\<rparr>"

end
