(* ===== verification/Attempt_Laws.thy ===== *)
theory Attempt_Laws
  imports Agent_Attempt
begin

text \<open>
  What every part of an attempt keeps.  A relation that ignores the world and the counters,
  and allows more usage and events inside the loops, is kept by the step loop, by the
  validation of the answer and by a whole attempt; the instances are the trace's growth, its
  lifecycle events and the usage totals.
\<close>

fun is_life :: "event \<Rightarrow> bool" where
  "is_life (EvStart t) = True"
| "is_life (EvPlanStarted items order) = True"
| "is_life (EvPlanItemStarted i g a) = True"
| "is_life (EvPlanItemFinished i ok r) = True"
| "is_life (EvPlanFinished k n) = True"
| "is_life (EvFinal t oc) = True"
| "is_life (EvFailed e oc t) = True"
| "is_life (EvIncomplete oc t) = True"
| "is_life (EvUsage u) = True"
| "is_life (EvRepairAttempt n m e) = True"
| "is_life (EvRepairAborted r n) = True"
| "is_life _ = False"

text \<open>The tools, their handlers and their approvals stay as they are, and the usage counts stay consistent.\<close>

definition keeps_tools :: "'w run \<Rightarrow> 'w run \<Rightarrow> bool" where
  "keeps_tools s t \<longleftrightarrow>
     rs_reg t = (rs_reg s)\<lparr>r_stats := r_stats (rs_reg t), r_exposed := r_exposed (rs_reg t)\<rparr>
     \<and> (stats_ok (rs_reg s) \<longrightarrow> stats_ok (rs_reg t))"

lemma keeps_tools_same [simp]: "rs_reg t = rs_reg s \<Longrightarrow> keeps_tools s t"
  by (simp add: keeps_tools_def)

lemma keeps_tools_pop: "keeps_tools s (s\<lparr>rs_reg := (rs_reg s)\<lparr>r_exposed := []\<rparr>\<rparr>)"
  by (simp add: keeps_tools_def stats_ok_def stats_of_def)

lemma track_reg [simp]: "rs_reg (track_last_text r s) = rs_reg s"
  by (auto simp: track_last_text_def split: option.splits list.splits)

lemma keeps_tools_invoke: "keeps keeps_tools (invoke_tool nm args)"
  unfolding keeps_def
proof
  fix s :: "'w run"
  obtain r reg w where i: "invoke (rs_reg s) nm (VDict args) (rs_world s) = (r, reg, w)" by (metis surj_pair)
  have "reg = (rs_reg s)\<lparr>r_stats := r_stats reg\<rparr>" using invoke_keeps(1)[OF i] by (simp add: same_tools_def)
  then have "reg = (rs_reg s)\<lparr>r_stats := r_stats reg, r_exposed := r_exposed reg\<rparr>"
    by (cases reg, cases "rs_reg s") simp
  then show "keeps_tools s (snd (invoke_tool nm args s))"
    using invoke_keeps(2)[OF i] by (simp add: invoke_tool_def i keeps_tools_def)
qed

locale book_relation = run_relation R for R :: "'w run \<Rightarrow> 'w run \<Rightarrow> bool" +
  assumes accumulates: "R s (accumulate u s)"
    and updates: "rs_trace t = rs_trace s \<Longrightarrow> rs_models t = rs_models s \<Longrightarrow> rs_totals t = rs_totals s \<Longrightarrow>
      keeps_tools s t \<Longrightarrow> R s t"
begin

lemma keeps_world: "keeps R (ask b sys msgs)" "keeps R (invoke_tool nm args)" "keeps R (on_world f)"
proof -
  show "keeps R (ask b sys msgs)" "keeps R (on_world f)"
    by (auto simp: keeps_def ask_def on_world_def split: prod.splits intro!: updates keeps_tools_same)
  show "keeps R (invoke_tool nm args)"
    unfolding keeps_def
  proof
    fix s :: "'w run"
    have "keeps_tools s (snd (invoke_tool nm args s))"
      using keeps_tools_invoke[of nm args] unfolding keeps_def by blast
    then show "R s (snd (invoke_tool nm args s))"
      by (rule updates[rotated 3]) (simp_all add: invoke_tool_def split: prod.split)
  qed
qed

lemma replies: "R s (track_last_text r (accumulate u s))"
  by (rule trans[OF accumulates updates]) simp_all

lemma keeps_answer:
  assumes logs: "\<And>n i ok errs s. R s (log_event (EvStructured n i ok errs) s)"
  shows "keeps R (finalize_structured cfg candidate msgs n)"
proof -
  have conv: "R s (set_convention c s)" for c s by (simp add: updates set_convention_def)
  have c: "keeps R (check_answer cfg a)" for a
    unfolding check_answer_def by (auto split: sum.splits simp: Let_def intro!: keeps_rules conv)
  have r: "keeps R (reprompt cfg a corr)" for a corr
    unfolding reprompt_def Let_def
    by (auto split: option.splits list.splits agent_exc.splits intro!: keeps_rules keeps_world replies accumulates conv)
  have "keeps R (answer_loop cfg n left attempt a)" for left attempt a
  proof (induction left arbitrary: attempt a)
    case (Suc left)
    show ?case unfolding answer_loop.simps
      by (intro keeps_abind c)
        (auto split: verdict.splits sum.splits simp: Let_def intro!: keeps_rules r conv logs Suc)
  qed (simp add: keeps_rules)
  then show ?thesis unfolding finalize_structured_def by (simp add: keeps_rules)
qed

lemma keeps_ask_plan: "keeps R (ask_plan cfg)"
  by (auto simp: keeps_def ask_plan_def split: prod.splits sum.splits intro!: updates trans[OF updates accumulates])

end

locale loop_relation = book_relation R for R :: "'w run \<Rightarrow> 'w run \<Rightarrow> bool" +
  assumes logs: "\<not> is_life ev \<Longrightarrow> R s (log_event ev s)"
begin

lemma keeps_children: "keeps R (roll_up_cost u)" "keeps R (on_subagent_finished nm ok v)"
proof -
  have regret: "R s (note_regret nm w c s)" for nm w c s
    unfolding note_regret_def by (rule trans[OF updates logs]) simp_all
  have quiet: "R s (add_child_cost c s)" "R s (count_spawn ok s)" "R s (note_max_cost c s)" for c s
    by (simp_all add: updates)
  show "keeps R (roll_up_cost u)" "keeps R (on_subagent_finished nm ok v)"
    unfolding roll_up_cost_def on_subagent_finished_def Let_def
    by (intro keeps_rules quiet regret)+
qed

lemma keeps_dispatch_calls:
  assumes "\<And>is w. set (ag_schedule cfg is w) = set is"
  shows "keeps R (dispatch_tool_calls cfg calls dflt msgs n)"
  by (rule keeps_dispatch[OF keeps_dispatch_one[OF keeps_world(1) accumulates keeps_world(2)] _ _
        keeps_account_all assms]) (simp_all add: logs unaccounted_def Let_def keeps_children)

lemma keeps_talk: "keeps R (emit_narration cfg calls n kind)" "keeps R (emit_thought th n)"
proof -
  have "R s (accumulate u (s\<lparr>rs_narrated := x\<rparr>))" for u x s
    by (rule trans[OF updates accumulates]) simp_all
  then show "keeps R (emit_narration cfg calls n kind)" "keeps R (emit_thought th n)"
    by (auto intro!: keeps_emit_narration keeps_emit_thought keeps_world simp: logs)
qed

lemma refreshes: "R s (refresh_exposed cfg s)"
proof -
  have "R s t \<Longrightarrow> R s (expose cfg names t)" for names t
    unfolding expose_def Let_def by (auto intro!: trans[OF _ logs] intro: trans[OF _ updates])
  then show ?thesis unfolding refresh_exposed_def pop_exposed_def by (simp add: updates keeps_tools_pop)
qed

lemma keeps_one_step:
  assumes "\<And>is w. set (ag_schedule cfg is w) = set is"
  shows "keeps R (one_step cfg task n msgs out)"
proof -
  have "keeps R (tools_step cfg task n msgs out r)" for r
    unfolding tools_step_def Let_def
    by (intro keeps_rules keeps_talk keeps_dispatch_calls assms refreshes logs) simp
  then have t: "keeps R (step_try cfg task n msgs out)"
    unfolding step_try_def by (intro keeps_rules keeps_world replies)
  have l: "keeps R (llm_error_step n out e)" for e
    unfolding llm_error_step_def by (auto split: agent_exc.splits intro!: keeps_rules accumulates logs)
  have x: "keeps R (text_step cfg n out r)" for r
    unfolding text_step_def
    by (auto split: option.splits list.splits intro!: keeps_rules keeps_talk logs)
  show ?thesis unfolding one_step_def by (intro keeps_rules t l x)
qed

lemma keeps_step_loop:
  assumes "\<And>is w. set (ag_schedule cfg is w) = set is"
  shows "keeps R (step_loop cfg task steps off inner left msgs out)"
proof (induction left arbitrary: inner msgs out)
  case (Suc left)
  have "keeps R (case e of Done out' \<Rightarrow> areturn (out', m)
      | Continue out' msgs' \<Rightarrow> step_loop cfg task steps off (Suc inner) left msgs' out')" for e m
    by (cases e) (simp_all add: Suc keeps_base)
  then show ?case unfolding step_loop.simps Let_def
    by (intro keeps_rules keeps_one_step assms logs) simp_all
qed (simp add: keeps_rules)

lemma keeps_loop:
  assumes "\<And>is w. set (ag_schedule cfg is w) = set is"
  shows "keeps R (run_step_loop cfg msgs task m off)" "keeps R (single_run cfg)"
proof -
  show l: "keeps R (run_step_loop cfg msgs task m off)" for msgs task m off
    unfolding run_step_loop_def by (rule keeps_step_loop[OF assms])
  show "keeps R (single_run cfg)"
    unfolding single_run_def Let_def
    by (intro keeps_abind l) (auto split: option.splits intro!: keeps_rules keeps_answer logs)
qed

end

text \<open>A relation that the events of an attempt keep is kept by a whole attempt.\<close>

fun is_repair :: "event \<Rightarrow> bool" where
  "is_repair (EvRepairAttempt n m e) = True" | "is_repair (EvRepairAborted r n) = True" | "is_repair _ = False"

locale open_relation = loop_relation R for R :: "'w run \<Rightarrow> 'w run \<Rightarrow> bool" +
  assumes opens: "\<not> is_repair ev \<Longrightarrow> R s (log_event ev s)" and begins: "R s (begin_attempt s)"
begin

lemma keeps_planned:
  assumes "\<And>is w. set (ag_schedule cfg is w) = set is"
  shows "keeps R (planned_run cfg)"
proof -
  have item: "keeps R (run_item cfg i item budget p)" for i item budget p
    unfolding run_item_def
    by (auto split: agent_exc.splits intro!: keeps_rules keeps_loop assms opens)
  have "keeps R (plan_loop cfg items n k order p)" for items n k order p
  proof (induction order arbitrary: k p)
    case (Cons i order)
    show ?case unfolding plan_loop.simps Let_def
      by (intro keeps_if keeps_abind keeps_base keeps_alog opens item)
        (auto split: prod.splits intro!: keeps_rules opens Cons)
  qed (simp add: keeps_rules)
  then have "keeps R (execute_plan cfg items)" for items
    unfolding execute_plan_def Let_def by (intro keeps_rules opens) simp_all
  then show ?thesis unfolding planned_run_def
    by (intro keeps_abind keeps_acatch keeps_ask_plan)
      (auto split: agent_exc.splits prod.splits intro!: keeps_rules accumulates opens)
qed

lemma keeps_run_loops:
  assumes "\<And>is w. set (ag_schedule cfg is w) = set is"
  shows "keeps R (run_loops cfg)"
  unfolding run_loops_def by (intro keeps_if keeps_planned keeps_loop assms)

lemma keeps_single_attempt:
  assumes "\<And>is w. set (ag_schedule (an_settings ag) is w) = set is"
  shows "keeps R (run_single_attempt ag task)"
proof -
  have tools: "R s (show_tools cfg tools s)" for s cfg tools by (rule updates) (simp_all add: show_tools_def)
  have "set (ag_schedule (attempt_settings ag task rv tools) is w) = set is" for rv tools "is" w
    by (simp add: attempt_settings_def Let_def assms)
  moreover have "\<not> is_repair (terminal_event oc out lt)" for oc out lt by (simp add: terminal_event_def)
  ultimately show ?thesis
    unfolding run_single_attempt_def choose_tools_def finish_attempt_def Let_def
    by (auto split: prod.splits intro!: keeps_rules opens begins keeps_world tools keeps_run_loops)
qed

end

interpretation grows: open_relation extends
  by unfold_locales (auto simp: extends_def begin_attempt_def)

interpretation life: loop_relation "same_events is_life"
  by unfold_locales (auto simp: same_events_def)

interpretation silent: book_relation "same_events k" for k
  by unfold_locales (auto simp: same_events_def)

interpretation unrepaired: open_relation "same_events is_repair"
  by unfold_locales (auto simp: same_events_def begin_attempt_def, case_tac ev, auto)

interpretation tooled: open_relation keeps_tools
proof
  show "keeps_tools s u" if "keeps_tools s t" "keeps_tools t u" for s t u :: "'w run"
    using that by (cases "rs_reg s", cases "rs_reg t", cases "rs_reg u") (simp add: keeps_tools_def)
qed (simp_all add: begin_attempt_def accumulate_def split: option.split, simp_all add: keeps_tools_def Let_def)

interpretation accounted: open_relation keeps_usage
  by unfold_locales
    (auto simp: keeps_usage_accumulate, auto simp: keeps_usage_def usage_ok_def begin_attempt_def empty_usage_def)

end
