(* ===== verification/Attempt_Outcome.thy ===== *)
theory Attempt_Outcome
  imports Attempt_Laws
begin

text \<open>
  What a finished attempt reports: its steps are bounded, its outcome follows from the tool
  calls in its trace, its events follow the lifecycle of an abstract run, and its totals are
  the sums over its models.
\<close>

section \<open>The counters of the loops\<close>

type_synonym report = "nat \<times> string \<times> pydict \<times> pydict"

lemma run_step_loop_counts:
  assumes "\<And>is w. set (ag_schedule cfg is w) = set is"
    and "run_step_loop cfg msgs task m off s = (Inr (l, msgs'), t)"
  obtains new where "call_reports t = call_reports s @ new" "lo_had_failure l \<longleftrightarrow> list_ex bad_report new"
    "lo_calls l = length new" "lo_failed_calls l = length (filter failed_report new)"
    "lo_steps l \<le> nat m" "lo_success l \<Longrightarrow> \<not> lo_failed l \<and> (\<exists>c cs. lo_final l = Some (c # cs))"
    "lo_failed l \<Longrightarrow> lo_error l \<noteq> None"
proof -
  from step_loop_effect[OF assms(1) assms(2)[unfolded run_step_loop_def]] obtain new k where
    1: "call_reports t = call_reports s @ new" "lo_steps l \<le> nat m"
    and e: "l = (counted loop_start new)\<lparr>lo_steps := lo_steps l\<rparr> \<and> k = nat m
        \<or> ended ((counted loop_start new)\<lparr>lo_steps := lo_steps l\<rparr>) l"
    by (auto simp: loop_start_def simp del: ended.simps)
  define mid where "mid = (counted loop_start new)\<lparr>lo_steps := lo_steps l\<rparr>"
  have m: "\<not> lo_success mid" "\<not> lo_failed mid" "lo_had_failure mid \<longleftrightarrow> list_ex bad_report new"
    "lo_calls mid = length new" "lo_failed_calls mid = length (filter failed_report new)"
    by (simp_all add: mid_def counted_def loop_start_def)
  have "l = mid \<or> ended mid l" using e unfolding mid_def by blast
  then show thesis using that[OF 1(1)] 1(2) m by auto
qed

text \<open>
  The counters of an attempt agree with the reports of its trace, and its flags are consistent.
\<close>

definition tallied :: "attempt_out \<Rightarrow> report list \<Rightarrow> bool" where
  "tallied out new \<longleftrightarrow> (ao_had_failure out \<longleftrightarrow> list_ex bad_report new) \<and> ao_calls out = length new
     \<and> ao_failed_calls out = length (filter failed_report new)"

definition coherent :: "attempt_out \<Rightarrow> bool" where
  "coherent out \<longleftrightarrow> (ao_success out \<longrightarrow> \<not> ao_failed out \<and> ao_final out \<noteq> None)
     \<and> (ao_schema_failed out \<longrightarrow> ao_failed out)"

lemma tallied_add_loop:
  assumes "tallied out old" and "lo_had_failure l \<longleftrightarrow> list_ex bad_report new" "lo_calls l = length new"
    "lo_failed_calls l = length (filter failed_report new)"
  shows "tallied (add_loop l out) (old @ new)"
  using assms by (simp add: tallied_def add_loop_def)

lemma tallied_start [simp]: "tallied attempt_start []" and coherent_start [simp]: "coherent attempt_start"
  by (simp_all add: tallied_def coherent_def attempt_start_def)

lemma tallied_updates [simp]:
  "tallied (out\<lparr>ao_failed := b\<rparr>) new = tallied out new" "tallied (out\<lparr>ao_error := e\<rparr>) new = tallied out new"
  "tallied (out\<lparr>ao_final := f\<rparr>) new = tallied out new" "tallied (out\<lparr>ao_success := b\<rparr>) new = tallied out new"
  "tallied (accept_answer a out) new = tallied out new" "tallied (refuse_answer a out) new = tallied out new"
  by (simp_all add: tallied_def accept_answer_def refuse_answer_def)

text \<open>What an action that returns \<open>out\<close> leaves behind, after reports \<open>old\<close>.\<close>

definition effect :: "report list \<Rightarrow> int \<Rightarrow> 'w run \<Rightarrow> attempt_out \<Rightarrow> 'w run \<Rightarrow> bool" where
  "effect old m s out t \<longleftrightarrow> (\<exists>new. call_reports t = call_reports s @ new \<and> tallied out (old @ new))
     \<and> ao_steps out \<le> nat m \<and> coherent out"

lemma reports_silent: "keeps (same_events is_tool_call) f \<Longrightarrow> f s = (r, t) \<Longrightarrow> call_reports t = call_reports s"
  using keepsD call_reports_same by blast

lemma single_run_effect:
  assumes sched: "\<And>is w. set (ag_schedule cfg is w) = set is" and run: "single_run cfg s = (Inr out, t)"
  shows "effect [] (ag_max_steps cfg) s out t"
proof -
  obtain l msgs s1 where l: "run_step_loop cfg [user_msg (ag_task cfg)] (ag_task cfg) (ag_max_steps cfg) 0 s = (Inr (l, msgs), s1)"
    using run by (auto simp: single_run_def abind_Inr_iff)
  from run_step_loop_counts[OF sched l] obtain new where n: "call_reports s1 = call_reports s @ new"
    "lo_had_failure l \<longleftrightarrow> list_ex bad_report new" "lo_calls l = length new"
    "lo_failed_calls l = length (filter failed_report new)" "lo_steps l \<le> nat (ag_max_steps cfg)"
    "lo_success l \<Longrightarrow> \<not> lo_failed l \<and> (\<exists>c cs. lo_final l = Some (c # cs))" by metis
  let ?out = "add_loop l attempt_start"
  have tal: "tallied ?out new" using tallied_add_loop[OF tallied_start n(2-4)] by simp
  have st: "ao_steps ?out \<le> nat (ag_max_steps cfg)" "coherent ?out"
    using n(5) by (simp_all add: add_loop_def attempt_start_def coherent_def)
  consider (stop) "out = ?out \<or> out = ?out\<lparr>ao_failed := True, ao_error := lo_error l\<rparr>" "t = s1"
    | (answer) a x s2 where "finalize_structured cfg x msgs (lo_steps l - 1) s1 = (Inr a, s2)"
        "out = accept_answer a ?out \<and> t = s2
         \<or> out = refuse_answer a ?out \<and> t = log_event (EvError (an_error a) InvalidOutput) s2"
    using run l by (auto simp: single_run_def act_simps Let_def split: if_splits option.splits)
  then show ?thesis
  proof cases
    case stop
    then have "tallied out new" using tal by auto
    moreover have "ao_steps out \<le> nat (ag_max_steps cfg)" "coherent out"
      using stop st by (auto simp: coherent_def attempt_start_def add_loop_def)
    ultimately show ?thesis using stop n(1) by (auto simp: effect_def)
  next
    case answer
    have q: "keeps (same_events is_tool_call) (finalize_structured cfg x msgs (lo_steps l - 1))"
      by (rule silent.keeps_answer) (simp add: same_events_def)
    have "call_reports s2 = call_reports s1" by (rule reports_silent[OF q answer(1)])
    then have "call_reports t = call_reports s @ new" using answer(2) n(1) by auto
    moreover have "tallied out new" using answer(2) tal by auto
    moreover have "ao_steps out \<le> nat (ag_max_steps cfg)" "coherent out"
      using answer(2) st
      by (auto simp: accept_answer_def refuse_answer_def coherent_def add_loop_def attempt_start_def)
    ultimately show ?thesis by (auto simp: effect_def)
  qed
qed

section \<open>The planned path\<close>

lemma item_budget_le: "0 < r \<Longrightarrow> nat (item_budget r n k) \<le> nat r"
  using zdiv_mono2[of r 1 "max 1 (int n - int k)"] by (auto simp: item_budget_def)

lemma run_item_Inr:
  assumes "run_item cfg i item budget p s = (Inr l, t)"
  obtains msgs where "run_step_loop cfg [user_msg (item_prompt item (ps_completed p))] (pi_goal item) budget
    (ao_steps (ps_out p)) s = (Inr (l, msgs), t)"
  using assms
  by (auto simp: run_item_def acatch_def abind_def act_simps split: prod.splits sum.splits agent_exc.splits)

lemma after_item_parts:
  assumes "after_item i item l p = (p', reason)"
  shows "ps_remaining p' = ps_remaining p - int (lo_steps l)" "reason = None \<Longrightarrow> \<not> ao_failed (ps_out p') \<or> ao_failed (ps_out p)"
    "ps_out p' = add_loop l (ps_out p) \<or>
     ps_out p' = (add_loop l (ps_out p))\<lparr>ao_failed := True, ao_error := lo_error l\<rparr>"
    "length (ps_outputs p') = length (ps_outputs p) + (if reason = None then 1 else 0)"
  using assms
  by (auto simp: after_item_def Let_def add_loop_def split: if_splits option.splits list.splits)

text \<open>What the loop over the items keeps: \<open>M\<close> is the step budget of the whole plan.\<close>

definition plan_ok :: "int \<Rightarrow> report list \<Rightarrow> plan_state \<Rightarrow> bool" where
  "plan_ok M old p \<longleftrightarrow> tallied (ps_out p) old \<and> ps_remaining p = M - int (ao_steps (ps_out p))
     \<and> ao_steps (ps_out p) \<le> nat M \<and> \<not> ao_success (ps_out p) \<and> \<not> ao_schema_failed (ps_out p)"

lemma plan_loop_effect:
  assumes sched: "\<And>is w. set (ag_schedule cfg is w) = set is"
    and "plan_loop cfg items n k order p s = (Inr p', t)" and "plan_ok M old p"
  shows "\<exists>new. call_reports t = call_reports s @ new \<and> plan_ok M (old @ new) p'"
  using assms(2,3)
proof (induction order arbitrary: k p s old)
  case Nil
  then show ?case by (auto simp: act_simps intro!: exI[of _ "[] :: report list"])
next
  case (Cons i order)
  show ?case
  proof (cases "ps_remaining p \<le> 0 \<or> ao_failed (ps_out p)")
    case True
    with Cons.prems show ?thesis by (auto simp: act_simps intro!: exI[of _ "[] :: report list"])
  next
    case False
    let ?b = "item_budget (ps_remaining p) n k"
    let ?s0 = "log_event (EvPlanItemStarted i (pi_goal (items ! i)) (pi_artifacts (items ! i))) s"
    obtain l s1 where run: "run_item cfg i (items ! i) ?b p ?s0 = (Inr l, s1)"
      using Cons.prems(1) False by (auto simp: act_simps Let_def)
    obtain q reason where af: "after_item i (items ! i) l p = (q, reason)" by fastforce
    have rest: "(if ao_failed (ps_out q) then areturn q else plan_loop cfg items n (Suc k) order q)
         (log_event (EvPlanItemFinished i (reason = None) reason) s1) = (Inr p', t)"
      using Cons.prems(1) False run af by (simp add: act_simps Let_def)
    obtain msgs where l: "run_step_loop cfg [user_msg (item_prompt (items ! i) (ps_completed p))] (pi_goal (items ! i)) ?b
        (ao_steps (ps_out p)) ?s0 = (Inr (l, msgs), s1)" using run by (rule run_item_Inr)
    from run_step_loop_counts[OF sched l] obtain new where c: "call_reports s1 = call_reports ?s0 @ new"
      "lo_had_failure l \<longleftrightarrow> list_ex bad_report new" "lo_calls l = length new"
      "lo_failed_calls l = length (filter failed_report new)" "lo_steps l \<le> nat ?b" by metis
    have b: "lo_steps l \<le> nat (ps_remaining p)" using c(5) item_budget_le False by (meson le_trans not_le)
    have "tallied (add_loop l (ps_out p)) (old @ new)"
      using tallied_add_loop[OF _ c(2-4)] Cons.prems(2) by (simp add: plan_ok_def)
    then have "tallied (ps_out q) (old @ new)" using after_item_parts(3)[OF af] by auto
    moreover have "ao_steps (ps_out q) = ao_steps (ps_out p) + lo_steps l" "\<not> ao_success (ps_out q)"
      "\<not> ao_schema_failed (ps_out q)"
      using after_item_parts(3)[OF af] Cons.prems(2) by (auto simp: plan_ok_def add_loop_def)
    ultimately have ok: "plan_ok M (old @ new) q"
      using after_item_parts(1)[OF af] Cons.prems(2) b False by (auto simp: plan_ok_def)
    let ?s2 = "log_event (EvPlanItemFinished i (reason = None) reason) s1"
    have r: "call_reports ?s2 = call_reports s @ new" using c(1) by simp
    show ?thesis
    proof (cases "ao_failed (ps_out q)")
      case True
      with rest ok r show ?thesis by (auto simp: act_simps)
    next
      case False
      with rest have "plan_loop cfg items n (Suc k) order q ?s2 = (Inr p', t)" by simp
      from Cons.IH[OF this ok] r show ?thesis by auto
    qed
  qed
qed

lemma planned_run_effect:
  assumes sched: "\<And>is w. set (ag_schedule cfg is w) = set is" and run: "planned_run cfg s = (Inr out, t)"
  shows "effect [] (ag_max_steps cfg) s out t"
proof -
  obtain r1 s1 where ask: "ask_plan cfg s = (r1, s1)" by fastforce
  have q: "call_reports s1 = call_reports s" by (rule reports_silent[OF silent.keeps_ask_plan ask])
  have zero: "effect [] (ag_max_steps cfg) s o' u" if "call_reports u = call_reports s"
    "o' = attempt_start \<or> o' = planner_failed m" for o' u m
    using that by (auto simp: effect_def planner_failed_def tallied_def coherent_def attempt_start_def)
  show ?thesis
  proof (cases r1)
    case (Inl e)
    with run ask obtain m u where e: "e = LLMFault m u"
      by (cases e) (auto simp: planned_run_def acatch_def abind_def act_simps)
    with run ask Inl have "out = planner_failed m" "t = log_event (EvError (ao_error (planner_failed m)) Failed) (accumulate u s1)"
      by (auto simp: planned_run_def acatch_def abind_def act_simps)
    then show ?thesis using q by (intro zero[of t out m]) simp_all
  next
    case (Inr items)
    with run ask have r: "(if items = [] then areturn attempt_start else execute_plan cfg items) s1 = (Inr out, t)"
      by (auto simp: planned_run_def acatch_def abind_def act_simps)
    show ?thesis
    proof (cases "items = []")
      case True
      with r zero q show ?thesis by (auto simp: act_simps)
    next
      case False
      let ?order = "topological_order items"
      let ?p = "\<lparr>ps_remaining = ag_max_steps cfg, ps_outputs = [], ps_completed = [], ps_out = attempt_start\<rparr>"
      from r False obtain p s2 where loop: "plan_loop cfg items (length ?order) 0 ?order ?p
          (log_event (EvPlanStarted items ?order) s1) = (Inr p, s2)"
        and o: "out = plan_result items p" "t = log_event (EvPlanFinished (length (ps_outputs p)) (length items)) s2"
        by (auto simp: execute_plan_def act_simps Let_def)
      have ok: "plan_ok (ag_max_steps cfg) [] ?p" by (simp add: plan_ok_def attempt_start_def tallied_def)
      from plan_loop_effect[OF sched loop ok] obtain new where
        n: "call_reports s2 = call_reports s1 @ new" and p: "plan_ok (ag_max_steps cfg) new p" by auto
      have "tallied out new" using p o(1) by (auto simp: plan_result_def plan_ok_def)
      moreover have "ao_steps out \<le> nat (ag_max_steps cfg)" "coherent out"
        using p o(1) by (auto simp: plan_result_def plan_ok_def coherent_def)
      ultimately show ?thesis using n o(2) q by (auto simp: effect_def)
    qed
  qed
qed

lemma run_loops_effect:
  assumes "\<And>is w. set (ag_schedule cfg is w) = set is" and "run_loops cfg s = (Inr out, t)"
  shows "effect [] (ag_max_steps cfg) s out t"
  using assms(2) single_run_effect[OF assms(1)] planned_run_effect[OF assms(1)]
  by (auto simp: run_loops_def split: if_splits)

section \<open>A whole attempt\<close>

text \<open>An attempt prepares a state, runs the loops in it and finishes.\<close>

lemma settings_attempt [simp]:
  "ag_max_steps (attempt_settings ag task rv tools) = ag_max_steps (an_settings ag)"
  "ag_schedule (attempt_settings ag task rv tools) = ag_schedule (an_settings ag)"
  "ag_prices (attempt_settings ag task rv tools) = ag_prices (an_settings ag)"
  by (simp_all add: attempt_settings_def Let_def)

definition prepared :: "string \<Rightarrow> 'w run \<Rightarrow> 'w run \<Rightarrow> bool" where
  "prepared task s t \<longleftrightarrow> rs_trace t = rs_trace s @ [EvStart task] \<and> rs_models t = [] \<and> rs_totals t = empty_usage
     \<and> rs_child_cost t = Fin 0"

definition prepare :: "'w agent \<Rightarrow> string \<Rightarrow> ('w, retrieval \<times> manifest list) act" where
  "prepare ag task =
     abind (amodify begin_attempt) (\<lambda>_.
     abind (alog (EvStart task)) (\<lambda>_.
     abind (aget (\<lambda>s. list_tools (rs_reg s))) (\<lambda>all.
     abind (on_world (an_retrieve ag task all)) (\<lambda>rv.
     abind (choose_tools ag task) (\<lambda>tools. areturn (rv, tools))))))"

lemma run_single_attempt_split:
  "run_single_attempt ag task = abind (prepare ag task) (\<lambda>(rv, tools).
     abind (aget (\<lambda>s. r_stats (rs_reg s))) (\<lambda>snapshot.
     abind (run_loops (attempt_settings ag task rv tools)) (\<lambda>out.
     finish_attempt (attempt_settings ag task rv tools) rv snapshot out)))"
  unfolding run_single_attempt_def prepare_def Let_def
  by (simp add: abind_assoc abind_base(1) prod.case)

lemma prepare_state: "prepare ag task s = (r, t) \<Longrightarrow> prepared task s t"
  by (auto simp: prepare_def prepared_def choose_tools_def abind_def act_simps on_world_def show_tools_def begin_attempt_def
      split: prod.splits sum.splits if_splits)

lemma finish_attempt_Inr:
  "finish_attempt cfg rv snapshot out s =
     (case settle out of (oc, out') \<Rightarrow>
       let s1 = log_event (terminal_event oc out' (rs_last_text s)) s; u = usage_record cfg rv snapshot (ao_steps out') s1
       in (Inr \<lparr>rr_success = ao_success out', rr_final = shown_text out', rr_structured = ao_structured out',
            rr_outcome = oc, rr_usage = u, rr_convention = rs_convention s\<rparr>, log_event (EvUsage u) s1))"
  by (simp add: finish_attempt_def act_simps Let_def split: prod.splits)

lemma attempt_Inr:
  assumes "run_single_attempt ag task s = (Inr r, t)"
  obtains rv tools snapshot s1 out s2 oc out' where "prepared task s s1"
    "run_loops (attempt_settings ag task rv tools) s1 = (Inr out, s2)" "settle out = (oc, out')"
    "r = \<lparr>rr_success = ao_success out', rr_final = shown_text out', rr_structured = ao_structured out', rr_outcome = oc,
       rr_usage = usage_record (attempt_settings ag task rv tools) rv snapshot (ao_steps out') s2, rr_convention = rs_convention s2\<rparr>"
    "t = log_event (EvUsage (rr_usage r)) (log_event (terminal_event oc out' (rs_last_text s2)) s2)"
proof -
  obtain x s1 where p: "prepare ag task s = (x, s1)" by fastforce
  obtain rv tools where x: "x = Inr (rv, tools)"
    using assms p by (cases x) (auto simp: run_single_attempt_split abind_def)
  let ?cfg = "attempt_settings ag task rv tools" and ?snap = "r_stats (rs_reg s1)"
  obtain out s2 where l: "run_loops ?cfg s1 = (Inr out, s2)" and f: "finish_attempt ?cfg rv ?snap out s2 = (Inr r, t)"
    using assms p x by (auto simp: run_single_attempt_split abind_def act_simps split: prod.splits sum.splits)
  obtain oc out' where st: "settle out = (oc, out')" by fastforce
  have u: "usage_record ?cfg rv ?snap n (log_event ev s2) = usage_record ?cfg rv ?snap n s2" for n ev
    by (simp add: usage_record_def cost_by_model_def own_cost_def)
  show thesis
    by (rule that[OF prepare_state[OF p] l st]) (use f in \<open>simp_all add: finish_attempt_Inr st Let_def u, auto simp: u\<close>)
qed

lemma settle_keeps:
  assumes "settle out = (oc, out')"
  shows "ao_success out' = ao_success out" "ao_steps out' = ao_steps out" "ao_final out' = ao_final out"
  using assms by (auto simp: settle_def split: if_splits)

lemma settle_outcome:
  assumes "settle out = (oc, out')" and "coherent out" and "tallied out new"
  shows "ao_success out \<Longrightarrow> oc = (if 2 \<le> length new \<and> list_all failed_report new then AllToolsFailed
       else if list_ex bad_report new then SuccessWithRecovery else Success)"
    and "\<not> ao_success out \<Longrightarrow> oc \<in> {InvalidOutput, BudgetExceeded, Failed}
       \<or> oc = (if list_ex bad_report new then IncompleteWithToolFailure else Incomplete)"
proof -
  have all: "length (filter failed_report new) = length new \<longleftrightarrow> list_all failed_report new"
    by (induction new) (auto simp: le_imp_less_Suc[OF length_filter_le] less_imp_neq)
  show "ao_success out \<Longrightarrow> oc = (if 2 \<le> length new \<and> list_all failed_report new then AllToolsFailed
       else if list_ex bad_report new then SuccessWithRecovery else Success)"
    using assms by (auto simp: settle_def classify_outcome_def coherent_def tallied_def all)
  show "\<not> ao_success out \<Longrightarrow> oc \<in> {InvalidOutput, BudgetExceeded, Failed}
       \<or> oc = (if list_ex bad_report new then IncompleteWithToolFailure else Incomplete)"
    using assms by (auto simp: settle_def classify_outcome_def coherent_def tallied_def split: if_splits)
qed

lemma shown_text_some: "ao_final out \<noteq> None \<Longrightarrow> shown_text out \<noteq> None"
  by (auto simp: shown_text_def split: option.splits list.splits)

section \<open>Properties\<close>

text \<open>
  C1: A finished attempt, planned or not, uses at most \<open>max_steps\<close> steps, and its outcome
  follows from the tool calls its trace reports: a successful one has a final text and is
  \<open>all_tools_failed\<close> when at least two calls were made and all failed,
  \<open>success_with_recovery\<close> when some call (or a child run) failed and \<open>success\<close> when none did; an
  unsuccessful one is invalid, over budget, failed or incomplete, with a tool failure exactly
  when the trace has one (\<open>_run_single_attempt\<close>, \<open>_classify_outcome\<close>).
\<close>

theorem attempt_outcome:
  assumes "\<And>is w. set (ag_schedule (an_settings ag) is w) = set is"
    and "run_single_attempt ag task s = (Inr r, t)"
  shows "\<exists>new. call_reports t = call_reports s @ new
     \<and> (if rr_success r
        then rr_final r \<noteq> None
          \<and> rr_outcome r = (if 2 \<le> length new \<and> list_all failed_report new then AllToolsFailed
              else if list_ex bad_report new then SuccessWithRecovery else Success)
        else rr_outcome r \<in> {InvalidOutput, BudgetExceeded, Failed}
          \<or> rr_outcome r = (if list_ex bad_report new then IncompleteWithToolFailure else Incomplete))
     \<and> ru_steps (rr_usage r) \<le> nat (ag_max_steps (an_settings ag))"
proof -
  from attempt_Inr[OF assms(2)] obtain rv tools snapshot s1 out s2 oc out' where 1: "prepared task s s1"
    "run_loops (attempt_settings ag task rv tools) s1 = (Inr out, s2)" and st: "settle out = (oc, out')"
    and r: "r = \<lparr>rr_success = ao_success out', rr_final = shown_text out', rr_structured = ao_structured out',
       rr_outcome = oc, rr_usage = usage_record (attempt_settings ag task rv tools) rv snapshot (ao_steps out') s2,
       rr_convention = rs_convention s2\<rparr>"
    and t: "t = log_event (EvUsage (rr_usage r)) (log_event (terminal_event oc out' (rs_last_text s2)) s2)"
    by metis
  have "effect [] (ag_max_steps (an_settings ag)) s1 out s2"
    using run_loops_effect[OF _ 1(2)] assms(1) by simp
  then obtain new where n: "call_reports s2 = call_reports s1 @ new" and tal: "tallied out new"
    and co: "coherent out" and steps: "ao_steps out \<le> nat (ag_max_steps (an_settings ag))" by (auto simp: effect_def)
  have "call_reports s1 = call_reports s" using 1(1) by (simp add: prepared_def call_reports_def)
  moreover have "call_reports t = call_reports s2" by (simp add: t terminal_event_def)
  moreover note k = settle_keeps[OF st] and oc = settle_outcome[OF st co tal]
  moreover have "ao_success out \<Longrightarrow> shown_text out' \<noteq> None"
    using co k(3) by (intro shown_text_some) (simp add: coherent_def)
  ultimately show ?thesis using n steps oc
    by (intro exI[of _ new]) (auto simp: r usage_record_def Let_def)
qed


section \<open>Witnesses\<close>

definition echo_attempt :: "(agent_exc + run_result) \<times> scripted run" where
  "echo_attempt = run_single_attempt (scripted_agent scripted_settings) ''go'' echo_run"

lemma echo_attempt_eval:
  "(case echo_attempt of (Inr r, t) \<Rightarrow> rr_outcome r = Success \<and> rr_success r \<and> rr_final r = Some ''done''
      \<and> ru_steps (rr_usage r) = 2 \<and> u_input (ru_totals (rr_usage r)) = 100 | _ \<Rightarrow> False)"
  by code_simp

lemma echo_attempt_Inr:
  obtains r t where "run_single_attempt (scripted_agent scripted_settings) ''go'' echo_run = (Inr r, t)"
    "rr_outcome r = Success" "rr_success r" "rr_final r = Some ''done''" "ru_steps (rr_usage r) = 2"
    "u_input (ru_totals (rr_usage r)) = 100"
proof -
  obtain x t where e: "echo_attempt = (x, t)" by fastforce
  from echo_attempt_eval[unfolded e prod.case] obtain r where "x = Inr r" "rr_outcome r = Success" "rr_success r" "rr_final r = Some ''done''"
    "ru_steps (rr_usage r) = 2" "u_input (ru_totals (rr_usage r)) = 100" by (cases x) auto
  with e that show thesis unfolding echo_attempt_def by blast
qed

lemma scripted_agent_schedule:
  "ag_schedule cfg = ag_schedule scripted_settings \<Longrightarrow> set (ag_schedule (an_settings (scripted_agent cfg)) is w) = set is"
  by (simp add: scripted_agent_def scripted_schedule)

theorem attempt_outcome_witness:
  "\<exists>r t new. echo_attempt = (Inr r, t) \<and> call_reports t = call_reports echo_run @ new
     \<and> rr_outcome r = Success \<and> \<not> list_ex bad_report new"
proof -
  obtain r t where run: "run_single_attempt (scripted_agent scripted_settings) ''go'' echo_run = (Inr r, t)"
    and r: "rr_outcome r = Success" "rr_success r" by (rule echo_attempt_Inr) blast
  from attempt_outcome[OF scripted_agent_schedule[OF refl] run] obtain new where
    n: "call_reports t = call_reports echo_run @ new"
      "Success = (if 2 \<le> length new \<and> list_all failed_report new then AllToolsFailed
         else if list_ex bad_report new then SuccessWithRecovery else Success)" using r by auto
  from n(2) have "\<not> list_ex bad_report new" by (auto split: if_splits)
  then show ?thesis using run r n(1) unfolding echo_attempt_def by blast
qed


text \<open>
  A plan whose second item runs out of steps: the attempt is incomplete, and its text still has
  the memory block of the first item, which a successful run's result does not show.
\<close>

definition memory_answer :: string where
  "memory_answer = ''Done. <AGENT_MEMORY>'' @ [CHR 0x0A] @ ''TASK: a'' @ [CHR 0x0A] @ ''</AGENT_MEMORY>''"

definition two_goals :: pyval where
  "two_goals = VDict [(KStr ''items'', VList [VDict [(KStr ''goal'', VStr ''a'')], VDict [(KStr ''goal'', VStr ''b'')]])]"

definition plan_settings :: "scripted settings" where
  "plan_settings = scripted_settings\<lparr>ag_planner_mode := ''force'', ag_max_steps := 2, ag_loads := (\<lambda>_. Some two_goals)\<rparr>"

definition plan_run :: "scripted run" where
  "plan_run = new_run \<lparr>sc_script = [answer_response ''{}'', answer_response memory_answer, calls_response [echo_call]], sc_pos = 0\<rparr>
     (scripted_registry [(''echo'', \<lambda>_ w. (Inr (tool_ok VNone []), w))])"

theorem incomplete_plan_shows_memory:
  "(case run_single_attempt (scripted_agent plan_settings) ''go'' plan_run of
      (Inr r, t) \<Rightarrow> rr_outcome r = Incomplete \<and> rr_final r = Some memory_answer | _ \<Rightarrow> False)
   \<and> fst (split_agent_output memory_answer) = ''Done.''"
  by code_simp

end
