(* ===== verification/Agent_Lifecycle.thy ===== *)
theory Agent_Lifecycle
  imports Agent_Run
begin

text \<open>
  The lifecycle of a run as an abstract machine: a start, perhaps a plan whose items run in
  topological order, one terminal event, one usage record, then perhaps a repair attempt that
  starts again, or the end of the repairs.  The lemmas show that the events of every attempt
  and of every run, whether it returns or raises, are a behaviour of the machine.
\<close>

section \<open>The machine\<close>

datatype phase = Idle | Begun | Items "nat list" | InItem nat "nat list" | Ended | Closed | Reported | Aborted

fun is_terminal :: "event \<Rightarrow> bool" where
  "is_terminal (EvFinal t oc) = True" | "is_terminal (EvFailed e oc t) = True"
| "is_terminal (EvIncomplete oc t) = True" | "is_terminal _ = False"

inductive life_step :: "phase \<Rightarrow> event \<Rightarrow> phase \<Rightarrow> bool" where
  start: "life_step Idle (EvStart task) Begun"
| plan: "life_step Begun (EvPlanStarted items (topological_order items)) (Items (topological_order items))"
| item: "life_step (Items (i # order)) (EvPlanItemStarted i g a) (InItem i order)"
| item_end: "life_step (InItem i order) (EvPlanItemFinished i ok r) (Items order)"
| plan_end: "life_step (Items order) (EvPlanFinished k n) Ended"
| close_single: "is_terminal ev \<Longrightarrow> life_step Begun ev Closed"
| close_plan: "is_terminal ev \<Longrightarrow> life_step Ended ev Closed"
| usage: "life_step Closed (EvUsage u) Reported"
| repair: "life_step Reported (EvRepairAttempt n m e) Idle"
| abort: "life_step Reported (EvRepairAborted r n) Aborted"

inductive_cases life_stepE: "life_step p ev q"

inductive life_run :: "phase \<Rightarrow> event list \<Rightarrow> phase \<Rightarrow> bool" where
  none: "life_run p [] p"
| step: "life_step p ev q \<Longrightarrow> life_run q evs r \<Longrightarrow> life_run p (ev # evs) r"

inductive_simps life_run_Nil [simp]: "life_run p [] q"
inductive_simps life_run_Cons: "life_run p (ev # evs) q"

lemma life_run_append: "life_run p es q \<Longrightarrow> life_run q fs r \<Longrightarrow> life_run p (es @ fs) r"
  by (induction rule: life_run.induct) (auto intro: life_run.step)

lemma life_run_single: "life_step p ev q \<Longrightarrow> life_run p [ev] q"
  by (blast intro: life_run.intros)

text \<open>The lifecycle events of a trace, and the behaviour an action adds.\<close>

definition life_of :: "'w run \<Rightarrow> event list" where
  "life_of s = filter is_life (rs_trace s)"

definition behaves :: "phase \<Rightarrow> 'w run \<Rightarrow> 'w run \<Rightarrow> phase \<Rightarrow> bool" where
  "behaves p s t q \<longleftrightarrow> (\<exists>evs. life_of t = life_of s @ evs \<and> life_run p evs q)"

lemma behaves_refl: "behaves p s s p"
  by (simp add: behaves_def)

lemma behaves_trans: "behaves p s t q \<Longrightarrow> behaves q t u r \<Longrightarrow> behaves p s u r"
  unfolding behaves_def by (metis append.assoc life_run_append)

lemma behaves_silent: "same_events is_life s t \<Longrightarrow> behaves p s t p"
  by (simp add: behaves_def same_events_def life_of_def)

lemma behaves_log: "life_step p ev q \<Longrightarrow> is_life ev \<Longrightarrow> behaves p s (log_event ev s) q"
  by (auto simp: behaves_def life_of_def intro: life_run_single)

lemma behaves_quiet: "\<not> is_life ev \<Longrightarrow> behaves p s (log_event ev s) p"
  by (auto simp: behaves_def life_of_def)

lemma terminal_life: "is_terminal ev \<Longrightarrow> is_life ev"
  by (cases ev) auto

section \<open>The phases of an attempt\<close>

lemma run_item_life:
  assumes sched: "\<And>is w. set (ag_schedule cfg is w) = set is" and run: "run_item cfg i item budget p s = (r, t)"
  shows "\<exists>q. behaves (InItem i order) s t q \<and> (\<forall>l. r = Inr l \<longrightarrow> q = InItem i order)"
proof -
  let ?loop = "run_step_loop cfg [user_msg (item_prompt item (ps_completed p))] (pi_goal item) budget (ao_steps (ps_out p))"
  obtain x s1 where l: "?loop s = (x, s1)" by fastforce
  have b: "behaves (InItem i order) s s1 (InItem i order)"
    by (rule behaves_silent[OF keepsD[OF life.keeps_loop(1)[OF sched] l]])
  have "t = s1 \<or> t = log_event (EvPlanItemFinished i False (Some ''protocol_error'')) s1 \<and> isl r"
    using run l
    by (cases x) (auto simp: run_item_def acatch_def abind_def act_simps split: agent_exc.splits)
  then show ?thesis
  proof
    assume "t = s1" then show ?thesis using b by blast
  next
    assume t: "t = log_event (EvPlanItemFinished i False (Some ''protocol_error'')) s1 \<and> isl r"
    then have "behaves (InItem i order) s t (Items order)"
      using behaves_trans[OF b behaves_log[OF life_step.item_end]] by simp
    with t show ?thesis by auto
  qed
qed

lemma plan_loop_life:
  assumes sched: "\<And>is w. set (ag_schedule cfg is w) = set is"
    and "plan_loop cfg items n k order p s = (r, t)"
  shows "\<exists>q. behaves (Items order) s t q \<and> (\<forall>p'. r = Inr p' \<longrightarrow> (\<exists>rest. q = Items rest))"
  using assms(2)
proof (induction order arbitrary: k p s)
  case Nil
  then show ?case by (auto simp: act_simps intro: behaves_refl)
next
  case (Cons i order)
  show ?case
  proof (cases "ps_remaining p \<le> 0 \<or> ao_failed (ps_out p)")
    case True
    with Cons.prems show ?thesis by (auto simp: act_simps intro: behaves_refl)
  next
    case False
    let ?b = "item_budget (ps_remaining p) n k"
    let ?s0 = "log_event (EvPlanItemStarted i (pi_goal (items ! i)) (pi_artifacts (items ! i))) s"
    have b0: "behaves (Items (i # order)) s ?s0 (InItem i order)" by (rule behaves_log[OF life_step.item]) simp
    obtain x s1 where run: "run_item cfg i (items ! i) ?b p ?s0 = (x, s1)" by fastforce
    from run_item_life[OF sched run, of order] obtain q1 where
      b1: "behaves (InItem i order) ?s0 s1 q1" "\<And>l. x = Inr l \<Longrightarrow> q1 = InItem i order" by blast
    show ?thesis
    proof (cases x)
      case (Inl e)
      then have "r = Inl e" "t = s1" using Cons.prems False run by (auto simp: act_simps Let_def abind_def)
      with behaves_trans[OF b0 b1(1)] show ?thesis by blast
    next
      case (Inr l)
      obtain q reason where af: "after_item i (items ! i) l p = (q, reason)" by fastforce
      let ?s2 = "log_event (EvPlanItemFinished i (reason = None) reason) s1"
      have "behaves q1 s1 ?s2 (Items order)" using b1(2)[OF Inr] behaves_log[OF life_step.item_end] by simp
      then have b2: "behaves (Items (i # order)) s ?s2 (Items order)"
        using behaves_trans[OF behaves_trans[OF b0 b1(1)]] by blast
      have rest: "(if ao_failed (ps_out q) then areturn q else plan_loop cfg items n (Suc k) order q) ?s2 = (r, t)"
        using Cons.prems False run Inr af by (simp add: act_simps Let_def) (auto simp: abind_def act_simps split: if_splits)
      show ?thesis
      proof (cases "ao_failed (ps_out q)")
        case True
        with rest b2 show ?thesis by (auto simp: act_simps)
      next
        case False
        with rest have "plan_loop cfg items n (Suc k) order q ?s2 = (r, t)" by simp
        from Cons.IH[OF this] obtain q' where b3: "behaves (Items order) ?s2 t q'"
          and q': "\<forall>p'. r = Inr p' \<longrightarrow> (\<exists>rest. q' = Items rest)" by auto
        show ?thesis by (rule exI[of _ q']) (rule conjI[OF behaves_trans[OF b2 b3] q'])
      qed
    qed
  qed
qed

lemma planned_run_life:
  assumes sched: "\<And>is w. set (ag_schedule cfg is w) = set is" and run: "planned_run cfg s = (r, t)"
  shows "\<exists>q. behaves Begun s t q \<and> (\<forall>out. r = Inr out \<longrightarrow> q = Begun \<or> q = Ended)"
proof -
  obtain r1 s1 where ask: "ask_plan cfg s = (r1, s1)" by fastforce
  have b1: "behaves Begun s s1 Begun" by (rule behaves_silent[OF keepsD[OF silent.keeps_ask_plan ask]])
  consider (quiet) "t = s1" | (failed) m u where "t = log_event (EvError (ao_error (planner_failed m)) Failed) (accumulate u s1)"
    | (plan) items where "execute_plan cfg items s1 = (r, t)"
  proof (cases r1)
    case (Inl e)
    with run ask show thesis using quiet failed
      by (cases e) (auto simp: planned_run_def acatch_def abind_def act_simps)
  next
    case (Inr items)
    with run ask show thesis using quiet plan
      by (auto simp: planned_run_def acatch_def abind_def act_simps split: if_splits)
  qed
  then show ?thesis
  proof cases
    case quiet
    then show ?thesis using b1 by blast
  next
    case failed
    have "same_events is_life s1 t" by (simp add: failed same_events_def)
    then show ?thesis using behaves_trans[OF b1 behaves_silent] by blast
  next
    case plan
    let ?order = "topological_order items"
    let ?p = "\<lparr>ps_remaining = ag_max_steps cfg, ps_outputs = [], ps_completed = [], ps_out = attempt_start\<rparr>"
    let ?s2 = "log_event (EvPlanStarted items ?order) s1"
    have b2: "behaves Begun s ?s2 (Items ?order)"
      by (rule behaves_trans[OF b1 behaves_log[OF life_step.plan]]) simp
    obtain x s3 where l: "plan_loop cfg items (length ?order) 0 ?order ?p ?s2 = (x, s3)" by fastforce
    from plan_loop_life[OF sched l] obtain q where b3: "behaves (Items ?order) ?s2 s3 q"
      and q: "\<forall>p'. x = Inr p' \<longrightarrow> (\<exists>rest. q = Items rest)" by auto
    note b = behaves_trans[OF b2 b3]
    show ?thesis
    proof (cases x)
      case (Inl e)
      with plan l have "r = Inl e" "t = s3" by (simp_all add: execute_plan_def Let_def act_simps) (simp_all add: abind_def)
      with b show ?thesis by blast
    next
      case (Inr p')
      with plan l have "t = log_event (EvPlanFinished (length (ps_outputs p')) (length items)) s3"
        by (simp add: execute_plan_def Let_def act_simps) (simp add: abind_def act_simps)
      moreover from q Inr obtain rest where "q = Items rest" by auto
      ultimately have "behaves Begun s t Ended" using behaves_trans[OF b behaves_log[of q _ Ended]] life_step.plan_end by simp
      then show ?thesis by blast
    qed
  qed
qed

lemma run_loops_life:
  assumes sched: "\<And>is w. set (ag_schedule cfg is w) = set is" and run: "run_loops cfg s = (r, t)"
  shows "\<exists>q. behaves Begun s t q \<and> (\<forall>out. r = Inr out \<longrightarrow> q = Begun \<or> q = Ended)"
proof (cases "plan_engaged cfg")
  case True
  with run show ?thesis using planned_run_life[OF sched] by (auto simp: run_loops_def)
next
  case False
  with run have "single_run cfg s = (r, t)" by (simp add: run_loops_def)
  from behaves_silent[OF keepsD[OF life.keeps_loop(2)[OF sched] this]] show ?thesis by blast
qed

lemma prepare_life: "prepare ag task s = (r, t) \<Longrightarrow> behaves Idle s t Begun"
  by (auto simp: behaves_def life_of_def life_run_Cons life_step.start dest!: prepare_state simp: prepared_def)

lemma single_attempt_life:
  assumes sched: "\<And>is w. set (ag_schedule (an_settings ag) is w) = set is"
    and run: "run_single_attempt ag task s = (r, t)"
  shows "\<exists>q. behaves Idle s t q \<and> (\<forall>res. r = Inr res \<longrightarrow> q = Reported)"
proof -
  obtain x s1 where p: "prepare ag task s = (x, s1)" by fastforce
  note b1 = prepare_life[OF p]
  show ?thesis
  proof (cases x)
    case (Inl e)
    with run p have "r = Inl e" "t = s1" by (simp_all add: run_single_attempt_split abind_def)
    with b1 show ?thesis by blast
  next
    case (Inr rt)
    obtain rv tools where rt: "rt = (rv, tools)" by fastforce
    let ?cfg = "attempt_settings ag task rv tools" and ?snap = "r_stats (rs_reg s1)"
    obtain y s2 where l: "run_loops ?cfg s1 = (y, s2)" by fastforce
    have "set (ag_schedule ?cfg is w) = set is" for "is" w using sched by simp
    from run_loops_life[OF this l] obtain q where b2: "behaves Begun s1 s2 q"
      and q: "\<And>out. y = Inr out \<Longrightarrow> q = Begun \<or> q = Ended" by blast
    note b = behaves_trans[OF b1 b2]
    show ?thesis
    proof (cases y)
      case (Inl e)
      with run p Inr rt l have "r = Inl e" "t = s2" by (simp_all add: run_single_attempt_split abind_def act_simps)
      with b show ?thesis by blast
    next
      case y: (Inr out)
      obtain oc out' where st: "settle out = (oc, out')" by fastforce
      let ?ev = "terminal_event oc out' (rs_last_text s2)"
      from run p Inr rt l y have "finish_attempt ?cfg rv ?snap out s2 = (r, t)"
        by (simp add: run_single_attempt_split abind_def act_simps)
      then obtain u where t: "t = log_event (EvUsage u) (log_event ?ev s2)"
        by (auto simp: finish_attempt_Inr st Let_def)
      have te: "is_terminal ?ev" by (simp add: terminal_event_def)
      have "life_step q ?ev Closed" using q[OF y] te life_step.close_single life_step.close_plan by blast
      then have "behaves q s2 (log_event ?ev s2) Closed" using te by (intro behaves_log terminal_life)
      from behaves_trans[OF behaves_trans[OF b this] behaves_log[OF life_step.usage]]
      have "behaves Idle s t Reported" unfolding t by simp
      then show ?thesis by blast
    qed
  qed
qed

section \<open>The repairs\<close>

lemma give_verdict_quiet: "give_verdict ag rp result s = (r, t) \<Longrightarrow> rs_trace t = rs_trace s \<and> (\<exists>v. r = Inr v)"
  by (auto simp: give_verdict_def split: option.splits if_splits prod.splits)

lemma give_verdict_parts:
  obtains ok out t where "give_verdict ag rp result s = (Inr (ok, out), t)" "rs_trace t = rs_trace s"
proof -
  obtain r t where g: "give_verdict ag rp result s = (r, t)" by fastforce
  from give_verdict_quiet[OF this] obtain v where "r = Inr v" "rs_trace t = rs_trace s" by auto
  with g that show thesis by (cases v) simp
qed

definition repair_mark :: "event \<Rightarrow> (nat \<times> string) list" where
  "repair_mark ev = (case ev of EvRepairAttempt n m e \<Rightarrow> [(n, e)] | _ \<Rightarrow> [])"

text \<open>The repair attempts of a trace: their numbers and the errors they were given.\<close>

definition repairs :: "'w run \<Rightarrow> (nat \<times> string) list" where
  "repairs s = concat (map repair_mark (rs_trace s))"

lemma repairs_log [simp]: "repairs (log_event ev s) = repairs s @ repair_mark ev"
  by (simp add: repairs_def)

lemma repairs_same: "same_events is_repair s t \<Longrightarrow> repairs t = repairs s"
proof -
  have f: "concat (map repair_mark es) = concat (map repair_mark (filter is_repair es))" for es
  proof (induction es)
    case (Cons ev es)
    then show ?case by (cases ev) (auto simp: repair_mark_def)
  qed simp
  show "same_events is_repair s t \<Longrightarrow> repairs t = repairs s"
    unfolding repairs_def same_events_def by (subst (1 2) f) simp
qed

lemma repair_attempt_effect:
  assumes sched: "\<And>is w. set (ag_schedule (an_settings ag) is w) = set is"
    and run: "repair_attempt ag rp n e s = (r, t)"
  shows "repairs t = repairs s @ [(n, e)]" and "\<exists>q. behaves Reported s t q \<and> (\<forall>res. r = Inr res \<longrightarrow> q = Reported)"
proof -
  let ?s1 = "log_event (EvRepairAttempt n (max_attempts rp) e) s"
  have b1: "behaves Reported s ?s1 Idle" by (rule behaves_log[OF life_step.repair]) simp
  show "repairs t = repairs s @ [(n, e)]"
  proof (cases "format_errors e (prompt_template rp)")
    case None
    with run show ?thesis by (auto simp: repair_attempt_def act_simps repair_mark_def)
  next
    case (Some task)
    with run have "run_single_attempt ag task ?s1 = (r, t)" by (simp add: repair_attempt_def act_simps)
    from repairs_same[OF keepsD[OF unrepaired.keeps_single_attempt[OF sched] this]] show ?thesis
      by (simp add: repair_mark_def)
  qed
  show "\<exists>q. behaves Reported s t q \<and> (\<forall>res. r = Inr res \<longrightarrow> q = Reported)"
  proof (cases "format_errors e (prompt_template rp)")
    case None
    with run b1 show ?thesis by (auto simp: repair_attempt_def act_simps)
  next
    case (Some task)
    with run have "run_single_attempt ag task ?s1 = (r, t)" by (simp add: repair_attempt_def act_simps)
    from single_attempt_life[OF sched this] obtain q where "behaves Idle ?s1 t q"
      and "\<forall>res. r = Inr res \<longrightarrow> q = Reported" by auto
    with behaves_trans[OF b1] show ?thesis by auto
  qed
qed

definition signature_of :: "'w repair \<Rightarrow> nat \<times> string \<Rightarrow> string option" where
  "signature_of rp ne = Some (error_signature (rp_digest rp) (snd ne))"

text \<open>The attempts of a loop are numbered in a row; with \<open>rp_stop\<close> no two in a row have one signature.\<close>

lemma repair_loop_effect:
  assumes sched: "\<And>is w. set (ag_schedule (an_settings ag) is w) = set is"
    and "repair_loop ag rp left attempt prev result s = (r, t)"
  shows "(\<exists>es. repairs t = repairs s @ es \<and> length es \<le> left
       \<and> map fst es = map Suc [attempt..<attempt + length es]
       \<and> (rp_stop rp \<longrightarrow> distinct_adj (prev # map (signature_of rp) es)))
     \<and> (\<exists>q. behaves Reported s t q \<and> ((\<exists>res. r = Inr res) \<longrightarrow> q = Reported \<or> q = Aborted))"
  using assms(2)
proof (induction left arbitrary: attempt prev result s)
  case 0
  obtain ok out s1 where v: "give_verdict ag rp result s = (Inr (ok, out), s1)" and tr: "rs_trace s1 = rs_trace s"
    by (rule give_verdict_parts)
  have b: "behaves Reported s s1 Reported" by (rule behaves_silent) (simp add: same_events_def tr)
  consider "t = s" | "t = s1" | "t = log_event (EvRepairAborted ''max_attempts'' attempt) s1"
  proof -
    have "(r, t) = (if 0 < max_attempts rp
        then if ok then (Inr result, s1) else (Inr result, log_event (EvRepairAborted ''max_attempts'' attempt) s1)
        else (Inr result, s))"
      unfolding 0[symmetric] by (simp add: abind_def v areturn_def alog_def amodify_def)
    then show thesis using that by (metis prod.inject)
  qed
  then show ?case
  proof cases
    case 3
    then have "behaves Reported s t Aborted" using behaves_trans[OF b behaves_log[OF life_step.abort]] by simp
    moreover have "repairs t = repairs s" using 3 tr by (simp add: repairs_def repair_mark_def)
    ultimately show ?thesis by auto
  qed (use b tr in \<open>auto simp: repairs_def intro: behaves_refl\<close>)
next
  case (Suc left)
  obtain ok out s1 where v: "give_verdict ag rp result s = (Inr (ok, out), s1)" and tr: "rs_trace s1 = rs_trace s"
    by (rule give_verdict_parts)
  have b: "behaves Reported s s1 Reported" by (rule behaves_silent) (simp add: same_events_def tr)
  have rp1: "repairs s1 = repairs s" using tr by (simp add: repairs_def)
  let ?sig = "Some (error_signature (rp_digest rp) out)"
  consider (ok) "ok" | (stuck) "\<not> ok" "rp_stop rp" "?sig = prev" | (retry) "\<not> ok" "rp_stop rp \<longrightarrow> ?sig \<noteq> prev" by blast
  then show ?case
  proof cases
    case ok
    with Suc.prems v have "t = s1" by (simp add: abind_def act_simps)
    with b rp1 show ?thesis by auto
  next
    case stuck
    with Suc.prems v have t: "t = log_event (EvRepairAborted ''error_signature_unchanged'' attempt) s1"
      by (simp add: abind_def act_simps)
    then have "behaves Reported s t Aborted" using behaves_trans[OF b behaves_log[OF life_step.abort]] by simp
    moreover have "repairs t = repairs s" using t rp1 by (simp add: repair_mark_def)
    ultimately show ?thesis by auto
  next
    case retry
    obtain x s2 where a: "repair_attempt ag rp (attempt + 1) out s1 = (x, s2)" by fastforce
    note e = repair_attempt_effect[OF sched a]
    from e(2) obtain q where q: "behaves Reported s1 s2 q" "\<forall>res. x = Inr res \<longrightarrow> q = Reported" by auto
    have r2: "repairs s2 = repairs s @ [(Suc attempt, out)]" using e(1) rp1 by simp
    note b2 = behaves_trans[OF b q(1)]
    show ?thesis
    proof (cases x)
      case (Inl exn)
      with Suc.prems v a retry have "r = Inl exn" "t = s2" by (auto simp: abind_def Let_def)
      with b2 r2 retry show ?thesis by (auto simp: signature_of_def intro!: exI[of _ "[(Suc attempt, out)]"])
    next
      case (Inr res)
      with Suc.prems v a retry have "repair_loop ag rp left (Suc attempt) ?sig res s2 = (r, t)"
        by (auto simp: abind_def Let_def)
      from Suc.IH[OF this] obtain es q' where es: "repairs t = repairs s2 @ es" "length es \<le> left"
        "map fst es = map Suc [Suc attempt..<Suc attempt + length es]"
        "rp_stop rp \<longrightarrow> distinct_adj (?sig # map (signature_of rp) es)"
        and b3: "behaves Reported s2 t q'" and q': "(\<exists>res. r = Inr res) \<longrightarrow> q' = Reported \<or> q' = Aborted" by auto
      have "behaves Reported s t q'" using behaves_trans[OF b2] b3 q(2) Inr by auto
      moreover have "map fst ((Suc attempt, out) # es) = map Suc [attempt..<attempt + length ((Suc attempt, out) # es)]"
        using es(3) by (simp add: upt_conv_Cons del: upt_Suc)
      moreover have "rp_stop rp \<longrightarrow> distinct_adj (prev # map (signature_of rp) ((Suc attempt, out) # es))"
        using es(4) retry by (auto simp: signature_of_def)
      ultimately show ?thesis using es(1,2) q' r2
        by (intro conjI exI[of _ "(Suc attempt, out) # es"] exI[of _ q']) simp_all
    qed
  qed
qed

lemma run_agent_effect:
  assumes sched: "\<And>is w. set (ag_schedule (an_settings ag) is w) = set is"
    and run: "run_agent ag repair task s = (r, t)"
  shows "(\<exists>es. repairs t = repairs s @ es \<and> length es \<le> (case repair of None \<Rightarrow> 0 | Some rp \<Rightarrow> nat (max_attempts rp))
       \<and> map fst es = [1..<length es + 1]
       \<and> (case repair of None \<Rightarrow> True | Some rp \<Rightarrow> rp_stop rp \<longrightarrow> distinct_adj (map (signature_of rp) es)))
     \<and> (\<exists>q. behaves Idle s t q \<and> ((\<exists>res. r = Inr res) \<longrightarrow> q = Reported \<or> q = Aborted))"
proof -
  obtain x s1 where a: "run_single_attempt ag task s = (x, s1)" by fastforce
  from single_attempt_life[OF sched a] obtain q where b: "behaves Idle s s1 q" "\<forall>res. x = Inr res \<longrightarrow> q = Reported" by auto
  have r1: "repairs s1 = repairs s" by (rule repairs_same[OF keepsD[OF unrepaired.keeps_single_attempt[OF sched] a]])
  consider (finished) "t = s1" "\<forall>res. r = Inr res \<longrightarrow> x = r"
    | (loop) rp res where "repair = Some rp" "x = Inr res" "run_with_repair ag rp res s1 = (r, t)"
    using run a by (cases x) (auto simp: run_agent_def abind_def areturn_def split: option.splits if_splits)
  then show ?thesis
  proof cases
    case finished
    then show ?thesis using b r1
      by (intro conjI exI[of _ "[] :: (nat \<times> string) list"] exI[of _ q]) (auto split: option.splits)
  next
    case loop
    from repair_loop_effect[OF sched loop(3)[unfolded run_with_repair_def]] obtain es q' where
      es: "repairs t = repairs s1 @ es" "length es \<le> nat (max_attempts rp)" "map fst es = map Suc [0..<0 + length es]"
        "rp_stop rp \<longrightarrow> distinct_adj (None # map (signature_of rp) es)"
      and q': "behaves Reported s1 t q'" "(\<exists>res. r = Inr res) \<longrightarrow> q' = Reported \<or> q' = Aborted" by auto
    have "rp_stop rp \<longrightarrow> distinct_adj (map (signature_of rp) es)"
      using es(4) by (cases es) auto
    moreover have "map fst es = [1..<length es + 1]" using es(3) by (simp add: map_Suc_upt)
    moreover have "behaves Idle s t q'" using behaves_trans[OF b(1)] q'(1) b(2) loop(2) by auto
    ultimately show ?thesis using es(1,2) q'(2) r1 loop(1)
      by (intro conjI exI[of _ es] exI[of _ q']) simp_all
  qed
qed

section \<open>Properties\<close>

text \<open>
  C2: The lifecycle events of a run refine the abstract machine: whether it returns or raises,
  they are a behaviour of \<open>life_step\<close> from \<open>Idle\<close>, with the items of a plan run in the order of
  \<open>topological_order\<close>; and when it returns, the last attempt was closed by one terminal event
  and reported its usage (\<open>run_agent\<close>, \<open>_run_single_attempt\<close>).
\<close>

theorem run_refines_lifecycle:
  assumes "\<And>is w. set (ag_schedule (an_settings ag) is w) = set is"
    and "run_agent ag repair task s = (r, t)"
  shows "\<exists>evs q. filter is_life (rs_trace t) = filter is_life (rs_trace s) @ evs \<and> life_run Idle evs q
     \<and> ((\<exists>res. r = Inr res) \<longrightarrow> q = Reported \<or> q = Aborted)"
  using run_agent_effect[OF assms(1) assms(2)] by (auto simp: behaves_def life_of_def)

text \<open>
  C12: The repair loop reruns the agent at most \<open>max_attempts\<close> times (twice by default, never
  without a repair block), the attempts are numbered from 1, and under \<open>stop_on_no_progress\<close>
  no two attempts in a row were made for errors of the same signature (\<open>_run_with_repair\<close>).
\<close>

theorem repairs_bounded:
  assumes "\<And>is w. set (ag_schedule (an_settings ag) is w) = set is"
    and "run_agent ag repair task s = (r, t)"
  shows "\<exists>es. repairs t = repairs s @ es
     \<and> length es \<le> (case repair of None \<Rightarrow> 0 | Some rp \<Rightarrow> nat (max_attempts rp))
     \<and> map fst es = [1..<length es + 1]
     \<and> (case repair of None \<Rightarrow> True
        | Some rp \<Rightarrow> rp_stop rp \<longrightarrow> distinct_adj (map (\<lambda>(n, e). error_signature (rp_digest rp) e) es))"
proof -
  from run_agent_effect[OF assms(1) assms(2)] obtain es where es: "repairs t = repairs s @ es"
     "length es \<le> (case repair of None \<Rightarrow> 0 | Some rp \<Rightarrow> nat (max_attempts rp))" "map fst es = [1..<length es + 1]"
     "case repair of None \<Rightarrow> True | Some rp \<Rightarrow> rp_stop rp \<longrightarrow> distinct_adj (map (signature_of rp) es)" by auto
  have "distinct_adj (map (signature_of rp) es) \<longleftrightarrow> distinct_adj (map (\<lambda>(n, e). error_signature (rp_digest rp) e) es)" for rp
    by (induction es rule: induct_list012) (auto simp: signature_of_def)
  with es show ?thesis by (intro exI[of _ es]) (auto split: option.splits)
qed

section \<open>Witnesses\<close>

text \<open>One step is not enough for a tool call and an answer, so the first attempt is repaired.\<close>

definition short_agent :: "scripted agent" where
  "short_agent = scripted_agent (scripted_settings\<lparr>ag_max_steps := 1\<rparr>)"

definition plain_repair :: "scripted repair" where
  "plain_repair = \<lparr>rp_enabled = True, rp_command = None, rp_cwd = None, rp_max = None, rp_stop = True, rp_prompt = None,
     rp_exec = (\<lambda>c d w. (Inl ''no process'', w)), rp_digest = (\<lambda>s. s)\<rparr>"

definition repaired_run :: "(agent_exc + run_result) \<times> scripted run" where
  "repaired_run = run_agent short_agent (Some plain_repair) ''go'' echo_run"

lemma repaired_run_eval:
  "(case repaired_run of (Inr res, t) \<Rightarrow> rr_outcome res = Success
      \<and> repairs t = [(1, ''previous run outcome: incomplete'')] \<and> length (filter is_life (rs_trace t)) = 7 | _ \<Rightarrow> False)"
  by code_simp

lemma repaired_run_Inr:
  obtains res t where "run_agent short_agent (Some plain_repair) ''go'' echo_run = (Inr res, t)" "rr_outcome res = Success"
    "repairs t = [(1, ''previous run outcome: incomplete'')]" "length (filter is_life (rs_trace t)) = 7"
proof -
  obtain x t where e: "repaired_run = (x, t)" by fastforce
  from repaired_run_eval[unfolded e prod.case] obtain res where "x = Inr res" "rr_outcome res = Success"
    "repairs t = [(1, ''previous run outcome: incomplete'')]" "length (filter is_life (rs_trace t)) = 7" by (cases x) auto
  with e that show thesis unfolding repaired_run_def by blast
qed

lemma short_agent_schedule: "set (ag_schedule (an_settings short_agent) is w) = set is"
  unfolding short_agent_def by (rule scripted_agent_schedule) simp

theorem run_refines_lifecycle_witness:
  "\<exists>res t evs q. repaired_run = (Inr res, t) \<and> filter is_life (rs_trace t) = evs \<and> life_run Idle evs q
     \<and> length evs = 7 \<and> (q = Reported \<or> q = Aborted)"
proof -
  obtain res t where r: "run_agent short_agent (Some plain_repair) ''go'' echo_run = (Inr res, t)"
    "length (filter is_life (rs_trace t)) = 7" by (rule repaired_run_Inr)
  have e: "filter is_life (rs_trace echo_run) = []" by (simp add: echo_run_def new_run_def)
  from run_refines_lifecycle[OF short_agent_schedule r(1)] obtain q where
    "life_run Idle (filter is_life (rs_trace t)) q" "q = Reported \<or> q = Aborted" using e by auto
  with r show ?thesis unfolding repaired_run_def by blast
qed

theorem repairs_bounded_witness:
  "\<exists>res t es. repaired_run = (Inr res, t) \<and> repairs t = es \<and> es = [(1, ''previous run outcome: incomplete'')]
     \<and> length es \<le> 2 \<and> map fst es = [1..<length es + 1]"
proof -
  obtain res t where r: "run_agent short_agent (Some plain_repair) ''go'' echo_run = (Inr res, t)"
    "repairs t = [(1, ''previous run outcome: incomplete'')]" by (rule repaired_run_Inr)
  have e: "repairs echo_run = []" by (simp add: echo_run_def new_run_def repairs_def)
  from repairs_bounded[OF short_agent_schedule r(1)] have "length (repairs t) \<le> nat (max_attempts plain_repair)"
    "map fst (repairs t) = [1..<length (repairs t) + 1]" using e by auto
  then show ?thesis using r unfolding repaired_run_def
    by (intro exI[of _ res] exI[of _ t] exI[of _ "repairs t"]) (auto simp: max_attempts_def plain_repair_def)
qed

end
