(* ===== verification/Agent_Liveness.thy ===== *)
theory Agent_Liveness
  imports Agent_Lifecycle
begin

text \<open>
  The step loop ends with an answer when the model heeds the final-step nudge: a model that
  always replies, and replies without tool calls once it is told that the step is the last,
  never leaves a run incomplete.  A run leaves the tools and their approvals as they were.
\<close>

section \<open>The nudge\<close>

fun has_nudge_text :: "content \<Rightarrow> bool" where
  "has_nudge_text (CText t) = is_infix final_step_nudge t"
| "has_nudge_text (CBlocks bs) = list_ex has_nudge bs"

definition told_to_finish :: "message list \<Rightarrow> bool" where
  "told_to_finish msgs \<longleftrightarrow> msgs \<noteq> [] \<and> has_nudge_text (msg_content (last msgs))"

definition ends_with_user :: "message list \<Rightarrow> bool" where
  "ends_with_user msgs \<longleftrightarrow> msgs \<noteq> [] \<and> msg_role (last msgs) = ''user''"

lemma nudge_tells: "ends_with_user msgs \<Longrightarrow> told_to_finish (inject_nudge msgs)"
proof -
  have end_of: "is_infix p (t @ p)" for p t :: string
    by (induction t) (cases p, auto)
  have "is_infix p (t @ u @ p)" for p t u :: string
    using end_of[of p "t @ u"] by simp
  moreover have "is_infix p p" for p :: string using end_of[of p "[]"] by simp
  ultimately show "ends_with_user msgs \<Longrightarrow> told_to_finish (inject_nudge msgs)"
    by (auto simp: ends_with_user_def told_to_finish_def inject_nudge_def nudged_def split: content.splits)
qed

lemma turn_ends_with_user: "ends_with_user (msgs @ turn_messages cfg calls res)"
  by (simp add: ends_with_user_def turn_messages_def user_msg_def Let_def)

section \<open>A loop that ends\<close>

text \<open>
  The model always replies, never with neither a call nor a text, and without calls when told
  to finish; the calls it makes can be dispatched, that is no exception escapes them.
\<close>

definition heeds :: "'w settings \<Rightarrow> bool" where
  "heeds cfg \<longleftrightarrow> (\<forall>msgs w. \<exists>resp w'. ag_llm cfg (ag_system cfg) msgs w = (Inr resp, w')
     \<and> (r_tool_calls resp = [] \<longrightarrow> (\<exists>c cs. r_final_text resp = Some (c # cs)))
     \<and> (told_to_finish msgs \<longrightarrow> r_tool_calls resp = []))"

definition dispatches :: "'w settings \<Rightarrow> 'w run \<Rightarrow> bool" where
  "dispatches cfg s \<longleftrightarrow> (\<forall>s' msgs w resp w' task ms n. keeps_tools s s' \<longrightarrow>
     ag_llm cfg (ag_system cfg) msgs w = (Inr resp, w') \<longrightarrow>
     (\<exists>d t. dispatch_tool_calls cfg (r_tool_calls resp) task ms n s' = (Inr d, t)))"

lemma dispatches_keeps: "dispatches cfg s \<Longrightarrow> keeps_tools s t \<Longrightarrow> dispatches cfg t"
  unfolding dispatches_def using tooled.trans by blast

lemma talk_returns: "\<exists>t. emit_thought th n s = (Inr (), t)" "\<exists>t. emit_narration cfg calls n kind s = (Inr (), t)"
  by (auto simp: emit_thought_def emit_narration_def abind_def acatch_def areturn_def alog_def amodify_def aget_def
      Let_def split: option.splits list.splits prod.splits sum.splits)

lemma tools_step_returns:
  assumes sched: "\<And>is w. set (ag_schedule cfg is w) = set is"
    and "\<And>s'. keeps_tools s s' \<Longrightarrow> \<exists>d t. dispatch_tool_calls cfg (r_tool_calls resp) task msgs n s' = (Inr d, t)"
  shows "\<exists>out' msgs' t. tools_step cfg task n msgs out resp s = (Inr (Continue out' msgs'), t) \<and> ends_with_user msgs'"
proof -
  obtain s1 where 1: "emit_thought (r_thinking_text resp) n s = (Inr (), s1)" using talk_returns(1) by blast
  obtain s2 where 2: "emit_narration cfg (r_tool_calls resp) n ''tools'' s1 = (Inr (), s2)" using talk_returns(2) by blast
  have "keeps_tools s s2"
    using tooled.trans[OF keepsD[OF tooled.keeps_talk(2) 1] keepsD[OF tooled.keeps_talk(1) 2]] .
  from assms(2)[OF this] obtain d s3 where 3: "dispatch_tool_calls cfg (r_tool_calls resp) task msgs n s2 = (Inr d, s3)"
    by blast
  from 3 obtain res where "do_messages d = msgs @ turn_messages cfg (r_tool_calls resp) res"
    using dispatch_Inr[OF sched 3] by metis
  then have "ends_with_user (do_messages d)" using turn_ends_with_user by simp
  moreover have "\<exists>out' t. tools_step cfg task n msgs out resp s = (Inr (Continue out' (do_messages d)), t)"
    by (simp add: tools_step_def Let_def abind_def 1 2 3 areturn_def alog_def amodify_def)
  ultimately show ?thesis by blast
qed

lemma one_step_ends:
  assumes sched: "\<And>is w. set (ag_schedule cfg is w) = set is" and h: "heeds cfg" "dispatches cfg s"
  shows "\<exists>e t. one_step cfg task n msgs out s = (Inr e, t) \<and> keeps_tools s t
     \<and> (case e of Done out' \<Rightarrow> \<exists>c cs. out' = out\<lparr>lo_final := Some (c # cs), lo_success := True\<rparr>
        | Continue out' msgs' \<Rightarrow> ends_with_user msgs' \<and> \<not> told_to_finish msgs)"
proof -
  obtain resp w' where a: "ag_llm cfg (ag_system cfg) msgs (rs_world s) = (Inr resp, w')"
    and ft: "r_tool_calls resp = [] \<Longrightarrow> \<exists>c cs. r_final_text resp = Some (c # cs)"
    and quiet: "told_to_finish msgs \<Longrightarrow> r_tool_calls resp = []"
    using h(1) unfolding heeds_def by blast
  let ?s2 = "track_last_text resp (accumulate (llm_response.r_usage resp) (s\<lparr>rs_world := w'\<rparr>))"
  have k2: "keeps_tools s ?s2" by (rule tooled.trans[OF _ tooled.replies]) simp
  have tried: "step_try cfg task n msgs out s =
      (if r_tool_calls resp \<noteq> [] then abind (tools_step cfg task n msgs out resp) (\<lambda>e. areturn (Inl e)) ?s2
       else (Inr (Inr resp), ?s2))"
    by (simp add: step_try_def abind_def ask_def a amodify_def areturn_def)
  have kept: "one_step cfg task n msgs out s = (x, t) \<Longrightarrow> keeps_tools s t" for x t
    by (rule keepsD[OF tooled.keeps_one_step[OF sched]])
  show ?thesis
  proof (cases "r_tool_calls resp = []")
    case True
    from ft[OF True] obtain c cs where f: "r_final_text resp = Some (c # cs)" by blast
    obtain s3 where th: "emit_thought (r_thinking_text resp) n ?s2 = (Inr (), s3)" using talk_returns(1) by blast
    have "\<exists>t. one_step cfg task n msgs out s = (Inr (Done (out\<lparr>lo_final := Some (c # cs), lo_success := True\<rparr>)), t)"
      using True tried
      by (simp add: one_step_def abind_def acatch_def text_step_def f th areturn_def alog_def amodify_def)
    then show ?thesis using kept by force
  next
    case False
    have "\<exists>d t. dispatch_tool_calls cfg (r_tool_calls resp) task msgs n s' = (Inr d, t)" if "keeps_tools ?s2 s'" for s'
      using h(2) a tooled.trans[OF k2 that] unfolding dispatches_def by blast
    from tools_step_returns[OF sched this] obtain out' msgs' t where
      "tools_step cfg task n msgs out resp ?s2 = (Inr (Continue out' msgs'), t)" and e: "ends_with_user msgs'" by blast
    then have "one_step cfg task n msgs out s = (Inr (Continue out' msgs'), t)"
      using False tried by (simp add: one_step_def abind_def acatch_def areturn_def)
    then show ?thesis using kept e False quiet by force
  qed
qed

lemma step_loop_ends:
  assumes sched: "\<And>is w. set (ag_schedule cfg is w) = set is" and h: "heeds cfg" and free: "ag_max_cost cfg = None"
    and many: "1 < steps"
  shows "dispatches cfg s \<Longrightarrow> ends_with_user msgs \<Longrightarrow> 0 < left \<Longrightarrow>
    \<exists>l m t. step_loop cfg task steps off inner left msgs out s = (Inr (l, m), t)
      \<and> (\<exists>c cs. lo_final l = Some (c # cs)) \<and> lo_success l"
proof (induction left arbitrary: inner msgs out s)
  case (Suc left)
  let ?n = "off + inner" and ?out = "out\<lparr>lo_steps := inner + 1\<rparr>"
  let ?msgs = "if 1 < steps \<and> left = 0 then inject_nudge msgs else msgs" and ?s1 = "log_event (EvStepStarted (off + inner)) s"
  have k1: "keeps_tools s ?s1" by simp
  from one_step_ends[OF sched h dispatches_keeps[OF Suc.prems(1) k1]] obtain e s2 where
    one: "one_step cfg task ?n ?msgs ?out ?s1 = (Inr e, s2)" and k2: "keeps_tools ?s1 s2"
    and e: "case e of Done out' \<Rightarrow> \<exists>c cs. out' = ?out\<lparr>lo_final := Some (c # cs), lo_success := True\<rparr>
        | Continue out' msgs' \<Rightarrow> ends_with_user msgs' \<and> \<not> told_to_finish ?msgs" by blast
  let ?k = "\<lambda>e. case e of Done out' \<Rightarrow> areturn (out', ?msgs)
      | Continue out' msgs' \<Rightarrow> step_loop cfg task steps off (Suc inner) left msgs' out'"
  have "\<not> budget_breached cfg s" using free by (simp add: budget_breached_def)
  then have "step_loop cfg task steps off inner (Suc left) msgs out s = abind (one_step cfg task ?n ?msgs ?out) ?k ?s1"
    by (simp only: step_loop.simps Let_def abind_base if_False)
  also have "\<dots> = ?k e s2" by (simp only: abind_def one prod.case sum.case)
  finally have loop: "step_loop cfg task steps off inner (Suc left) msgs out s = (case e of
        Done out' \<Rightarrow> (Inr (out', ?msgs), s2)
      | Continue out' msgs' \<Rightarrow> step_loop cfg task steps off (Suc inner) left msgs' out' s2)"
    by (cases e) (simp_all add: act_simps)
  show ?case
  proof (cases e)
    case (Done out')
    with e loop show ?thesis by auto
  next
    case (Continue out' msgs')
    with e have u: "ends_with_user msgs'" "\<not> told_to_finish ?msgs" by simp_all
    then have "0 < left" using many nudge_tells[OF Suc.prems(2)] by (cases left) auto
    from Suc.IH[OF dispatches_keeps[OF Suc.prems(1) tooled.trans[OF k1 k2]] u(1) this]
    show ?thesis unfolding loop Continue step_end.case by blast
  qed
qed simp


section \<open>Properties\<close>


text \<open>
  Whatever a run does, repairs included, it leaves the tools, their handlers, approvals and
  sandbox as they were, and the usage counts stay consistent: refusals and failures of a tool
  never exceed its calls (\<open>run_agent\<close> over \<open>ToolRegistry\<close>).
\<close>

theorem run_keeps_tools:
  assumes "\<And>is w. set (ag_schedule (an_settings ag) is w) = set is"
    and "run_agent ag repair task s = (r, t)"
  shows "rs_reg t = (rs_reg s)\<lparr>r_stats := r_stats (rs_reg t), r_exposed := r_exposed (rs_reg t)\<rparr>
     \<and> (stats_ok (rs_reg s) \<longrightarrow> stats_ok (rs_reg t))"
proof -
  have v: "keeps keeps_tools (give_verdict ag rp result)" for rp result
    by (auto simp: keeps_def give_verdict_def split: option.splits prod.splits)
  have log: "keeps_tools u (log_event ev u)" for u :: "'a run" and ev by simp
  note once = tooled.keeps_single_attempt[OF assms(1)]
  have "keeps keeps_tools (repair_attempt ag rp n e)" for rp n e
    unfolding repair_attempt_def by (intro tooled.keeps_rules once log)
  then have "keeps keeps_tools (repair_loop ag rp left attempt prev result)" for rp left attempt prev result
  proof (induction left arbitrary: attempt prev result)
    case (Suc left)
    then show ?case unfolding repair_loop.simps
      by (intro tooled.keeps_abind v) (auto simp: Let_def intro!: tooled.keeps_rules log split: prod.splits)
  qed (auto intro!: tooled.keeps_rules v log split: prod.splits)
  then have "keeps keeps_tools (run_agent ag repair task)"
    unfolding run_agent_def run_with_repair_def
    by (intro tooled.keeps_abind once) (auto intro!: tooled.keeps_rules split: option.splits)
  from keepsD[OF this assms(2)] show ?thesis by (simp add: keeps_tools_def)
qed

section \<open>Witnesses\<close>

text \<open>A model that calls a tool the registry does not know until it is told to finish.\<close>

definition stubborn_model :: "unit backend" where
  "stubborn_model system msgs w =
     (Inr (if told_to_finish msgs then answer_response ''done'' else calls_response [echo_call]), w)"

definition stubborn_settings :: "unit settings" where
  "stubborn_settings = \<lparr>ag_llm = stubborn_model, ag_set_tools = None, ag_decompose_llm = None,
     ag_planner_llm = None, ag_narrator = None, ag_schedule = (\<lambda>is w. is), ag_prices = None,
     ag_loads = (\<lambda>_. None), ag_dumps = (\<lambda>_. ''{}''), ag_repr = (\<lambda>_. ''?''), ag_frepr = (\<lambda>_. ''0.5''),
     ag_json_error = (\<lambda>_. ''Expecting value''), ag_task = ''task'', ag_system = [], ag_result_format = ''json'',
     ag_output_format = ''json'', ag_max_steps = 3, ag_max_subquestions = 5, ag_max_cost = None,
     ag_tool_retrieval = False, ag_planner_mode = ''off'', ag_planner_max_items = 8, ag_planner_threshold = 80,
     ag_planner_prompt = [], ag_schema = [], ag_retries = 1, ag_error_strategy = ''strict'', ag_fallback = VNone,
     ag_conventions = [], ag_conv_retries = None\<rparr>"

definition empty_registry :: "unit registry" where
  "empty_registry = \<lparr>r_tools = [], r_callables = [], r_sandbox = (\<lambda>_ _ _ w. (Inr [], w)), r_sandbox_root = None,
     r_approver = None, r_exposed = [], r_stats = [], r_clock = (\<lambda>_. 0), r_text = (\<lambda>_. [])\<rparr>"

lemma echo_dispatches:
  assumes "r_tools (rs_reg s) = []"
  shows "\<exists>d t. dispatch_tool_calls stubborn_settings [echo_call] task ms n s = (Inr d, t)"
proof -
  let ?r = "err_result ''unknown tool: echo''"
  have one: "dispatch_one stubborn_settings task echo_call u = (Inr ?r, u)" if "r_tools (rs_reg u) = []" for u
    using that by (simp add: dispatch_one_def echo_call_def decompose_name_def spawn_name_def invoke_tool_def
        invoke_def invoke_one_def canonical_name_def emap_err_def)
  have child: "child_of ?r = None" by code_simp
  have account: "account_result n [] 0 echo_call ?r u = (Inr True, log_event (EvToolCall n 0 ''echo'' [] ?r (call_aliases (rs_reg u) ''echo'') None) u)" for u :: "unit run"
    by (simp add: account_result_def Let_def echo_call_def is_agent_child_def spawn_name_def child child_usage_of_def
        act_simps result_ok_def)
  have g: "index_parallel_groups 0 [echo_call] [] = Inr []" by code_simp
  show ?thesis
    unfolding dispatch_tool_calls_def g sum.case Let_def
    by (simp add: act_simps) (simp add: abind_def act_simps one assms account, rule exI[of _ True], simp)
qed

lemma stubborn_heeds: "heeds stubborn_settings"
  by (simp add: heeds_def stubborn_settings_def stubborn_model_def answer_response_def calls_response_def make_response_def)

lemma stubborn_dispatches: "dispatches stubborn_settings (new_run () empty_registry)"
  unfolding dispatches_def
proof (intro allI impI)
  fix s' :: "unit run" and msgs w resp w' task ms n
  assume k: "keeps_tools (new_run () empty_registry) s'"
    and a: "ag_llm stubborn_settings (ag_system stubborn_settings) msgs w = (Inr resp, w')"
  have none: "r_tools (rs_reg s') = []" using k by (cases "rs_reg s'") (auto simp: keeps_tools_def new_run_def empty_registry_def)
  have "r_tool_calls resp = [] \<or> r_tool_calls resp = [echo_call]"
    using a by (auto simp: stubborn_settings_def stubborn_model_def answer_response_def calls_response_def make_response_def split: if_splits)
  then show "\<exists>d t. dispatch_tool_calls stubborn_settings (r_tool_calls resp) task ms n s' = (Inr d, t)"
  proof
    assume r: "r_tool_calls resp = []"
    show ?thesis unfolding r by (simp add: dispatch_tool_calls_def act_simps)
  next
    assume r: "r_tool_calls resp = [echo_call]"
    show ?thesis unfolding r by (rule echo_dispatches[OF none])
  qed
qed


theorem run_keeps_tools_witness:
  "\<exists>res t. repaired_run = (Inr res, t) \<and> map fst (r_tools (rs_reg t)) = [''echo''] \<and> stats_ok (rs_reg t)"
proof -
  obtain res t where r: "run_agent short_agent (Some plain_repair) ''go'' echo_run = (Inr res, t)" by (rule repaired_run_Inr)
  have "stats_ok (rs_reg echo_run)" by (simp add: echo_run_def new_run_def scripted_registry_def stats_ok_def stats_of_def no_stats_def)
  with run_keeps_tools[OF short_agent_schedule r] have
    t: "rs_reg t = (rs_reg echo_run)\<lparr>r_stats := r_stats (rs_reg t), r_exposed := r_exposed (rs_reg t)\<rparr>" "stats_ok (rs_reg t)" by auto
  have "map fst (r_tools (rs_reg t)) = map fst (r_tools (rs_reg echo_run))" by (subst t(1)) simp
  also have "\<dots> = [''echo'']" by (simp add: echo_run_def new_run_def scripted_registry_def)
  finally show ?thesis using r t(2) unfolding repaired_run_def by (intro exI[of _ res] exI[of _ t] conjI)
qed

end
