(* ===== verification/Repair_Signature.thy ===== *)
theory Repair_Signature
  imports Agent_Run
begin

text \<open>
  The signature that decides whether a repair made progress (\<open>_error_signature\<close>): it does not
  depend on the order of the verifier's lines, nor on the line numbers in them, nor on blank
  lines and the space around a line.
\<close>

section \<open>Lines\<close>

definition unbroken :: "string \<Rightarrow> bool" where
  "unbroken s \<longleftrightarrow> list_all (\<lambda>c. \<not> is_break c) s"

text \<open>Joined lines split back, but for an empty last line.\<close>

lemma split_lines_join:
  assumes "list_all unbroken ls" and "ls \<noteq> []"
  shows "split_lines (join [CHR 0x0A] ls) = (if last ls = [] then butlast ls else ls)"
  using assms
proof (induction ls)
  case (Cons l ls)
  have l: "list_all (\<lambda>c. \<not> is_break c) l" using Cons.prems by (simp add: unbroken_def)
  show ?case
  proof (cases ls)
    case Nil
    then show ?thesis using lines_from_no_break[OF l, of "[]"] by (simp add: split_lines_def)
  next
    case (Cons m ms)
    have "split_lines (join [CHR 0x0A] (l # ls)) = l # split_lines (join [CHR 0x0A] ls)"
      using lines_from_newline[OF l, of "[]" "join [CHR 0x0A] ls"] Cons by (simp add: split_lines_def)
    then show ?thesis using Cons.IH Cons.prems Cons by simp
  qed
qed simp

definition norm_line :: "string \<Rightarrow> string" where
  "norm_line l = drop_line_numbers (strip l)"

lemma norm_line_Nil [simp]: "norm_line [] = []"
  by (simp add: norm_line_def strip_def lstrip_def rstrip_def)

lemma normal_lines_join:
  assumes "list_all unbroken ls"
  shows "normal_lines (join [CHR 0x0A] ls) = filter (\<lambda>l. l \<noteq> []) (map norm_line ls)"
proof (cases "ls = []")
  case True
  then show ?thesis by (simp add: normal_lines_def split_lines_def)
next
  case False
  have "filter (\<lambda>l. l \<noteq> []) (map norm_line (if last ls = [] then butlast ls else ls)) = filter (\<lambda>l. l \<noteq> []) (map norm_line ls)"
    using False by (cases ls rule: rev_cases) auto
  then show ?thesis
    unfolding normal_lines_def split_lines_join[OF assms False] by (simp add: norm_line_def comp_def cong: map_cong)
qed

section \<open>Line numbers\<close>

lemma drop_digits: "list_all is_digit_char ds \<Longrightarrow>
    drop_line_numbers (a @ '':'' @ ds @ rest) = drop_line_numbers (a @ '':'' @ rest)"
proof (induction a rule: length_induct)
  case (1 a)
  have d: "dropWhile is_digit_char (ds @ rest) = dropWhile is_digit_char rest"
    using 1(2) by (induction ds) auto
  show ?case
  proof (cases a)
    case Nil
    then show ?thesis using d by simp
  next
    case (Cons c cs)
    have "\<not> is_digit_char (CHR '':'')" by code_simp
    then have e: "dropWhile is_digit_char (cs @ CHR '':'' # r) = dropWhile is_digit_char cs @ CHR '':'' # r" for r
      by (induction cs) auto
    show ?thesis using 1 Cons e by (auto simp: le_imp_less_Suc[OF length_dropWhile_le])
  qed
qed

lemma rstrip_after: "x \<noteq> [] \<Longrightarrow> \<not> is_space (last x) \<Longrightarrow> rstrip (x @ y) = x @ rstrip y"
proof -
  assume x: "x \<noteq> []" "\<not> is_space (last x)"
  then obtain c r where r: "rev x = c # r" "\<not> is_space c" by (cases x rule: rev_cases) auto
  have "dropWhile is_space (z @ c # r) = dropWhile is_space z @ c # r" for z
    using r(2) by (induction z) auto
  then have "rev (dropWhile is_space (rev y @ rev x)) = rev (rev x) @ rev (dropWhile is_space (rev y))"
    unfolding r(1) by simp
  then show ?thesis by (simp add: rstrip_def)
qed

lemma digit_not_space: "is_digit_char c \<Longrightarrow> \<not> is_space c"
  by (auto simp: is_digit_char_def is_space_def Let_def)

lemma strip_number:
  assumes "list_all is_digit_char ds"
  shows "strip (a @ '':'' @ ds @ rest) = lstrip a @ '':'' @ ds @ rstrip rest"
proof -
  have c: "\<not> is_space (CHR '':'')" by code_simp
  then have "lstrip (a @ CHR '':'' # r) = lstrip a @ CHR '':'' # r" for r
    unfolding lstrip_def by (induction a) auto
  moreover have "\<not> is_space (last (CHR '':'' # ds))"
    using assms c digit_not_space by (cases ds rule: rev_cases) auto
  ultimately show ?thesis
    using rstrip_after[of "lstrip a @ '':'' @ ds" rest] by (simp add: strip_def)
qed

lemma norm_line_number:
  assumes "list_all is_digit_char ds"
  shows "norm_line (a @ '':'' @ ds @ rest) = norm_line (a @ '':'' @ rest)"
  unfolding norm_line_def strip_number[OF assms]
  using strip_number[of "[]" a rest] drop_digits[OF assms, of "lstrip a" "rstrip rest"] by simp

text \<open>Two lines that differ in one line number.\<close>

definition renumbered :: "string \<Rightarrow> string \<Rightarrow> bool" where
  "renumbered x y \<longleftrightarrow> (\<exists>a ds es rest. list_all is_digit_char ds \<and> list_all is_digit_char es
     \<and> x = a @ '':'' @ ds @ rest \<and> y = a @ '':'' @ es @ rest)"

lemma renumbered_norm: "rtranclp renumbered x y \<Longrightarrow> norm_line x = norm_line y"
proof (induction rule: rtranclp_induct)
  case (step y z)
  then show ?case using norm_line_number unfolding renumbered_def by metis
qed simp

section \<open>Properties\<close>

text \<open>
  The error signature is stable: two verifier outputs whose lines are the same up to their
  order and their line numbers have one signature, so that a repair that only moves the errors
  does not count as progress (\<open>_error_signature\<close>).
\<close>

theorem error_signature_stable:
  assumes "list_all unbroken ls" and "list_all unbroken ks"
    and "list_all2 (rtranclp renumbered) ls ms" and "mset ks = mset ms"
  shows "error_signature digest (join [CHR 0x0A] ks) = error_signature digest (join [CHR 0x0A] ls)"
proof -
  have "map norm_line ls = map norm_line ms"
    using assms(3) by (induction rule: list_all2_induct) (simp_all add: renumbered_norm)
  then have "mset (map norm_line ks) = mset (map norm_line ls)" using assms(4) by simp
  then have "mset (filter (\<lambda>l. l \<noteq> []) (map norm_line ks)) = mset (filter (\<lambda>l. l \<noteq> []) (map norm_line ls))"
    by (simp only: mset_filter)
  then have "sort (filter (\<lambda>l. l \<noteq> []) (map norm_line ks)) = sort (filter (\<lambda>l. l \<noteq> []) (map norm_line ls))"
    by (metis sorted_list_of_multiset_mset)
  then show ?thesis
    by (simp only: error_signature_def normal_lines_join[OF assms(1)] normal_lines_join[OF assms(2)])
qed

theorem error_signature_stable_witness:
  "error_signature (\<lambda>s. s) (join [CHR 0x0A] [''b.py:7: boom'', ''a.py:31:5: oops''])
     = error_signature (\<lambda>s. s) (join [CHR 0x0A] [''a.py:3:5: oops'', ''b.py:90: boom''])"
proof -
  have r: "renumbered ''a.py:3:5: oops'' ''a.py:31:5: oops''" "renumbered ''b.py:90: boom'' ''b.py:7: boom''"
    unfolding renumbered_def
    by (intro exI[of _ "''a.py''"] exI[of _ "''3''"] exI[of _ "''31''"] exI[of _ "'':5: oops''"], code_simp)
      (intro exI[of _ "''b.py''"] exI[of _ "''90''"] exI[of _ "''7''"] exI[of _ "'': boom''"], code_simp)
  have "list_all unbroken [''a.py:3:5: oops'', ''b.py:90: boom'']" "list_all unbroken [''b.py:7: boom'', ''a.py:31:5: oops'']"
    by code_simp+
  then show ?thesis
    by (rule error_signature_stable[where ms = "[''a.py:31:5: oops'', ''b.py:7: boom'']"]) (use r in auto)
qed

text \<open>The lines are sorted but not made unique: a repeated error changes the signature.\<close>

theorem repeated_error_differs:
  "error_signature (\<lambda>s. s) (join [CHR 0x0A] [''a.py:3: oops'', ''a.py:9: oops'']) \<noteq>
     error_signature (\<lambda>s. s) ''a.py:3: oops''"
  by code_simp

end
