(* ===== verification/Recurrence.thy ===== *)
theory Recurrence
  imports PyText
begin

text \<open>
  The matching of recorded recoveries against the current state
  (\<open>src/fabri/memory/recurrence.py\<close>): the canonical signature of a problem and its
  fingerprint, the hard checks that make a recovery applicable, and the confidence given to
  it.  The digest (\<open>hashlib.sha256\<close> of the UTF-8 text) is a parameter; the text it is taken
  of is not, and the lemmas show that it determines the signature.  Confidences are exact
  rationals.
\<close>

section \<open>Canonical signatures\<close>

definition signature_fields :: "string list" where
  "signature_fields =
     [''phase'', ''agency'', ''roles'', ''error_class'', ''cause'', ''configured_cap'',
      ''retry_cap'', ''model_family'', ''finish_reason'']"

text \<open>The strings of a list of values; the others are dropped.\<close>

definition strings_of :: "pyval list \<Rightarrow> string list" where
  "strings_of xs = List.map_filter (\<lambda>v. case v of VStr s \<Rightarrow> Some s | _ \<Rightarrow> None) xs"

definition canonical_roles :: "pyval \<Rightarrow> string list" where
  "canonical_roles v = (case v of VList xs \<Rightarrow> sort (remdups (strings_of xs)) | _ \<Rightarrow> [])"

text \<open>A cap is kept when it is an integer (not a \<open>bool\<close>), any other field when it is a string.\<close>

definition stable_field :: "string \<Rightarrow> pyval \<Rightarrow> pyval" where
  "stable_field f v =
     (if f \<in> {''configured_cap'', ''retry_cap''}
      then (case v of VInt i \<Rightarrow> VInt i | _ \<Rightarrow> VNone)
      else (case v of VStr s \<Rightarrow> VStr s | _ \<Rightarrow> VNone))"

definition signals_source :: "pydict \<Rightarrow> pydict" where
  "signals_source signals =
     (case dict_get signals ''problem_signature'' of VDict nested \<Rightarrow> nested | _ \<Rightarrow> signals)"

definition canonicalize :: "pydict \<Rightarrow> pydict" where
  "canonicalize signals =
     (let source = signals_source signals
      in (KStr ''roles'', VList (map VStr (canonical_roles (dict_get source ''roles''))))
         # map (\<lambda>f. (KStr f, stable_field f (dict_get source f)))
               (filter (\<lambda>f. f \<noteq> ''roles'') signature_fields))"

section \<open>Fingerprints\<close>

fun encode_value :: "pyval \<Rightarrow> string" where
  "encode_value VNone = ''none''"
| "encode_value (VInt i) = ''int:'' @ show_int i"
| "encode_value (VStr s) = ''str:'' @ show_nat (length s) @ '':'' @ s"
| "encode_value (VList xs) = ''list:'' @ join '','' (map encode_value xs)"
| "encode_value _ = ''invalid''"

text \<open>The text the digest is taken of; \<open>canonical[field]\<close> never misses.\<close>

definition fingerprint_text :: "pydict \<Rightarrow> string" where
  "fingerprint_text signature =
     (let canonical = canonicalize signature
      in join ''|'' (map (\<lambda>f. f @ '':'' @ encode_value (dict_get canonical f)) signature_fields))"

definition fingerprint :: "(string \<Rightarrow> string) \<Rightarrow> pydict \<Rightarrow> string" where
  "fingerprint sha256 signature = sha256 (fingerprint_text signature)"

section \<open>Hard checks\<close>

text \<open>A dotted path into the state; \<open>None\<close> is the code's \<open>_MISSING\<close>.\<close>

fun read_components :: "pyval \<Rightarrow> string list \<Rightarrow> pyval option" where
  "read_components v [] = Some v"
| "read_components v (c # cs) =
     (if c = [] then None
      else case v of
        VDict d \<Rightarrow> (case dict_lookup d c of None \<Rightarrow> None | Some w \<Rightarrow> read_components w cs)
      | _ \<Rightarrow> None)"

definition read_path :: "pydict \<Rightarrow> string \<Rightarrow> pyval option" where
  "read_path state path = read_components (VDict state) (split_on CHR ''.'' path)"

definition precondition_matches :: "pyval \<Rightarrow> pydict \<Rightarrow> bool" where
  "precondition_matches precondition state =
     (case precondition of
        VDict p \<Rightarrow>
          (case (dict_get p ''field'', dict_lookup p ''equals'') of
             (VStr field, Some expected) \<Rightarrow>
               py_eq (dict_get_default p ''op'' (VStr ''equals'')) (VStr ''equals'')
               \<and> (case read_path state field of None \<Rightarrow> False | Some v \<Rightarrow> py_eq v expected)
           | _ \<Rightarrow> False)
      | _ \<Rightarrow> False)"

definition role_still_failing :: "pydict \<Rightarrow> int \<Rightarrow> pyval \<Rightarrow> bool" where
  "role_still_failing roles_config cap role =
     (case role of
        VStr r \<Rightarrow>
          (case dict_get roles_config r of
             VDict rc \<Rightarrow> py_eq (dict_get rc ''max_tokens'') (VInt cap)
           | _ \<Rightarrow> False)
      | _ \<Rightarrow> False)"

definition scope_holds :: "pydict \<Rightarrow> pydict \<Rightarrow> bool" where
  "scope_holds scope state =
     (case (dict_get scope ''company'', dict_get scope ''agency'', dict_get scope ''roles'') of
        (VStr company, VStr agency, VList roles) \<Rightarrow>
          roles \<noteq> [] \<and> list_all is_str roles
          \<and> py_eq (dict_get state ''company'') (VStr company)
          \<and> py_eq (dict_get state ''agency'') (VStr agency)
      | _ \<Rightarrow> False)"

definition cap_holds :: "pydict \<Rightarrow> pydict \<Rightarrow> pydict \<Rightarrow> bool" where
  "cap_holds signature scope state =
     (case (dict_get signature ''configured_cap'', dict_get state ''roles_config'', dict_get scope ''roles'') of
        (VInt cap, VDict roles_config, VList roles) \<Rightarrow> list_all (role_still_failing roles_config cap) roles
      | _ \<Rightarrow> False)"

definition applicable :: "pydict \<Rightarrow> pydict \<Rightarrow> bool" where
  "applicable resolution state =
     (case (dict_get resolution ''problem_signature'', dict_get resolution ''scope'',
            dict_get resolution ''preconditions'') of
        (VDict signature, VDict scope, VList preconditions) \<Rightarrow>
          scope_holds scope state \<and> cap_holds signature scope state
          \<and> list_all (\<lambda>p. precondition_matches p state) preconditions
      | _ \<Rightarrow> False)"

section \<open>Confidence\<close>

definition comparable_fields :: "pydict \<Rightarrow> pydict \<Rightarrow> string list" where
  "comparable_fields l r =
     filter (\<lambda>f. dict_get l f \<noteq> VNone \<and> dict_get r f \<noteq> VNone) signature_fields"

definition structured_similarity :: "pydict \<Rightarrow> pydict \<Rightarrow> rat" where
  "structured_similarity l r =
     (let fs = comparable_fields l r
      in if fs = [] then 0
         else of_nat (length (filter (\<lambda>f. py_eq (dict_get l f) (dict_get r f)) fs)) / of_nat (length fs))"

text \<open>
  \<open>min(1.0, max(0.0, r))\<close>: Python's \<open>max\<close> keeps its first argument unless the second is
  greater, so a \<open>NaN\<close> relevance counts as none.
\<close>

fun clamp_unit :: "pyfloat \<Rightarrow> rat" where
  "clamp_unit (Fin r) = min 1 (max 0 r)"
| "clamp_unit PosInf = 1"
| "clamp_unit NegInf = 0"
| "clamp_unit NaN = 0"

definition exact_recurrence :: "(string \<Rightarrow> string) \<Rightarrow> pydict \<Rightarrow> pydict \<Rightarrow> bool" where
  "exact_recurrence sha256 signature state \<longleftrightarrow>
     fingerprint sha256 (canonicalize signature) = fingerprint sha256 (canonicalize state)"

definition apply_confidence :: "(string \<Rightarrow> string) \<Rightarrow> pydict \<Rightarrow> pydict \<Rightarrow> pyfloat \<Rightarrow> rat" where
  "apply_confidence sha256 resolution state retrieval_relevance =
     (let relevance = clamp_unit retrieval_relevance
      in case dict_get resolution ''problem_signature'' of
           VDict signature \<Rightarrow>
             if exact_recurrence sha256 signature state \<and> applicable resolution state
             then 9 / 10 + 1 / 10 * relevance
             else if applicable resolution state then 45 / 100 + 15 / 100 * relevance
             else 1 / 10 * relevance
                  * structured_similarity (canonicalize signature) (canonicalize state)
         | _ \<Rightarrow> 0)"

section \<open>The canonical form\<close>

lemma signature_fields_distinct: "distinct signature_fields"
  by (simp add: signature_fields_def)

lemma strings_of_VStr [simp]: "strings_of (map VStr ss) = ss"
  by (induction ss) (simp_all add: strings_of_def map_filter_simps)

lemma strings_of_Nil [simp]: "strings_of [] = []"
  by (simp add: strings_of_def map_filter_simps)

lemma canonical_roles_idem [simp]:
  "canonical_roles (VList (map VStr (canonical_roles v))) = canonical_roles v"
  by (cases v) (simp_all add: canonical_roles_def distinct_remdups_id sorted_sort_id)

lemma stable_field_idem [simp]: "stable_field f (stable_field f v) = stable_field f v"
  by (cases v) (simp_all add: stable_field_def)

lemma canonical_get:
  "dict_get (canonicalize d) ''roles''
     = VList (map VStr (canonical_roles (dict_get (signals_source d) ''roles'')))"
  "f \<in> set signature_fields \<Longrightarrow> f \<noteq> ''roles'' \<Longrightarrow>
     dict_get (canonicalize d) f = stable_field f (dict_get (signals_source d) f)"
  by (auto simp: canonicalize_def dict_get_def dict_lookup_def signature_fields_def Let_def)

lemma canonical_source [simp]: "signals_source (canonicalize d) = canonicalize d"
proof -
  have "dict_get (canonicalize d) ''problem_signature'' = VNone"
    by (simp add: canonicalize_def dict_get_def dict_lookup_def signature_fields_def Let_def)
  then show ?thesis by (simp add: signals_source_def)
qed

lemma canonicalize_idem [simp]: "canonicalize (canonicalize d) = canonicalize d"
proof -
  have "canonicalize (canonicalize d)
      = (KStr ''roles'', VList (map VStr (canonical_roles (dict_get (canonicalize d) ''roles''))))
        # map (\<lambda>f. (KStr f, stable_field f (dict_get (canonicalize d) f)))
              (filter (\<lambda>f. f \<noteq> ''roles'') signature_fields)"
    by (simp add: canonicalize_def[of "canonicalize d"] Let_def)
  also have "\<dots> = (KStr ''roles'', VList (map VStr (canonical_roles (dict_get (signals_source d) ''roles''))))
        # map (\<lambda>f. (KStr f, stable_field f (dict_get (signals_source d) f)))
              (filter (\<lambda>f. f \<noteq> ''roles'') signature_fields)"
    by (simp add: canonical_get)
  also have "\<dots> = canonicalize d" by (simp add: canonicalize_def Let_def)
  finally show ?thesis .
qed

text \<open>What a canonical signature may hold, and that its fields determine it.\<close>

fun stable :: "pyval \<Rightarrow> bool" where
  "stable VNone = True"
| "stable (VInt i) = True"
| "stable (VStr s) = True"
| "stable (VList xs) = list_all is_str xs"
| "stable _ = False"

lemma stable_canonical: "f \<in> set signature_fields \<Longrightarrow> stable (dict_get (canonicalize d) f)"
proof (cases "f = ''roles''")
  case True
  then show ?thesis by (simp add: canonical_get list_all_iff)
next
  case False
  moreover assume "f \<in> set signature_fields"
  ultimately show ?thesis
    by (auto simp: canonical_get stable_field_def split: pyval.splits)
qed

lemma canonicalize_fields:
  "canonicalize d = (KStr ''roles'', dict_get (canonicalize d) ''roles'')
     # map (\<lambda>f. (KStr f, dict_get (canonicalize d) f)) (filter (\<lambda>f. f \<noteq> ''roles'') signature_fields)"
proof -
  have "(KStr ''roles'', dict_get (canonicalize d) ''roles'')
     # map (\<lambda>f. (KStr f, dict_get (canonicalize d) f)) (filter (\<lambda>f. f \<noteq> ''roles'') signature_fields)
    = (KStr ''roles'', VList (map VStr (canonical_roles (dict_get (signals_source d) ''roles''))))
      # map (\<lambda>f. (KStr f, stable_field f (dict_get (signals_source d) f)))
            (filter (\<lambda>f. f \<noteq> ''roles'') signature_fields)"
    by (simp add: canonical_get)
  also have "\<dots> = canonicalize d" by (simp add: canonicalize_def Let_def)
  finally show ?thesis by simp
qed

lemma canonicalize_ext:
  "(\<And>f. f \<in> set signature_fields \<Longrightarrow> dict_get (canonicalize d) f = dict_get (canonicalize e) f) \<Longrightarrow>
     canonicalize d = canonicalize e"
  by (subst canonicalize_fields, subst (3) canonicalize_fields)
     (auto simp: signature_fields_def)

section \<open>The fingerprint text is unambiguous\<close>

text \<open>A run of characters of one kind is delimited by the first character of another.\<close>

lemma delimited:
  "list_all P xs \<Longrightarrow> list_all P ys \<Longrightarrow> \<not> P c \<Longrightarrow> \<not> P c' \<Longrightarrow>
     xs @ c # r = ys @ c' # r' \<longleftrightarrow> xs = ys \<and> c = c' \<and> r = r'"
proof (induction xs arbitrary: ys)
  case Nil
  then show ?case by (cases ys) auto
next
  case (Cons x xs)
  then show ?case by (cases ys) auto
qed

definition int_char :: "char \<Rightarrow> bool" where
  "int_char c \<longleftrightarrow> is_digit_char c \<or> c = CHR ''-''"

definition ends_value :: "char \<Rightarrow> bool" where
  "ends_value c \<longleftrightarrow> c = CHR '','' \<or> c = CHR ''|''"

lemma int_char_ends: "ends_value c \<Longrightarrow> \<not> int_char c"
  by (auto simp: ends_value_def int_char_def is_digit_char_def Let_def)

lemma show_int_delimited:
  assumes "ends_value c" and "ends_value c'"
  shows "show_int i @ c # r = show_int j @ c' # r' \<longleftrightarrow> i = j \<and> c = c' \<and> r = r'"
proof -
  have chars: "list_all int_char (show_int k)" for k
    by (auto simp: list_all_iff int_char_def dest: show_int_chars)
  have "show_int i = show_int j \<longleftrightarrow> i = j"
    by (metis option.inject py_int_show_int)
  then show ?thesis using delimited[OF chars chars] assms int_char_ends by blast
qed

lemma show_nat_delimited:
  "show_nat m @ CHR '':'' # r = show_nat n @ CHR '':'' # r' \<longleftrightarrow> m = n \<and> r = r'"
proof -
  have "\<not> is_digit_char CHR '':''" by (simp add: is_digit_char_def)
  moreover have "show_nat m = show_nat n \<longleftrightarrow> m = n" by (metis read_show_nat)
  ultimately show ?thesis using delimited[OF show_nat_digits show_nat_digits] by blast
qed

lemma encode_str_delimited:
  "encode_value (VStr s) @ c # r = encode_value (VStr t) @ c' # r' \<longleftrightarrow> s = t \<and> c = c' \<and> r = r'"
  by (auto simp: show_nat_delimited)

definition encode_rest :: "string list \<Rightarrow> string" where
  "encode_rest ss = concat (map (\<lambda>s. CHR '','' # encode_value (VStr s)) ss)"

lemma encode_rest_simps [simp]:
  "encode_rest [] = []"
  "encode_rest (s # ss) = CHR '','' # encode_value (VStr s) @ encode_rest ss"
  by (simp_all add: encode_rest_def)

lemma join_encode:
  "join '','' (map encode_value (map VStr (s # ss))) = encode_value (VStr s) @ encode_rest ss"
  by (induction ss arbitrary: s) simp_all

lemma join_encode_Nil: "join '','' (map encode_value (map VStr [])) = []"
  by simp

lemma encode_rest_head:
  obtains c r' where "encode_rest ss @ CHR ''|'' # r = c # r'" and "ends_value c"
  by (cases ss) (auto simp: ends_value_def)

lemma encode_rest_delimited:
  "encode_rest ss @ CHR ''|'' # r = encode_rest ts @ CHR ''|'' # r' \<longleftrightarrow> ss = ts \<and> r = r'"
proof (induction ss arbitrary: ts)
  case Nil
  then show ?case by (cases ts) auto
next
  case (Cons s ss)
  show ?case
  proof (cases ts)
    case Nil
    then show ?thesis by simp
  next
    case (Cons t us)
    obtain c u where u: "encode_rest ss @ CHR ''|'' # r = c # u" by (rule encode_rest_head)
    obtain c' u' where u': "encode_rest us @ CHR ''|'' # r' = c' # u'" by (rule encode_rest_head)
    have "encode_rest (s # ss) @ CHR ''|'' # r = encode_rest (t # us) @ CHR ''|'' # r'
        \<longleftrightarrow> encode_value (VStr s) @ c # u = encode_value (VStr t) @ c' # u'"
      using u u' by simp
    also have "\<dots> \<longleftrightarrow> s = t \<and> c # u = c' # u'" by (simp only: encode_str_delimited list.inject)
    also have "\<dots> \<longleftrightarrow> s = t \<and> ss = us \<and> r = r'" using Cons.IH[of us] u u' by simp
    finally show ?thesis using Cons by simp
  qed
qed

lemma encode_list_delimited:
  "encode_value (VList (map VStr ss)) @ CHR ''|'' # r = encode_value (VList (map VStr ts)) @ CHR ''|'' # r'
     \<longleftrightarrow> ss = ts \<and> r = r'"
proof (cases "ss = [] \<or> ts = []")
  case True
  then show ?thesis by (cases ss; cases ts) (auto simp: join_encode join_encode_Nil simp del: list.map map_map)
next
  case False
  then obtain s ss' t ts' where eqs: "ss = s # ss'" "ts = t # ts'" by (meson neq_Nil_conv)
  obtain c u where u: "encode_rest ss' @ CHR ''|'' # r = c # u" by (rule encode_rest_head)
  obtain c' u' where u': "encode_rest ts' @ CHR ''|'' # r' = c' # u'" by (rule encode_rest_head)
  have "encode_value (VList (map VStr ss)) @ CHR ''|'' # r = encode_value (VList (map VStr ts)) @ CHR ''|'' # r'
      \<longleftrightarrow> encode_value (VStr s) @ c # u = encode_value (VStr t) @ c' # u'"
    using u u' by (simp add: eqs join_encode del: list.map map_map)
  also have "\<dots> \<longleftrightarrow> s = t \<and> c # u = c' # u'" by (simp only: encode_str_delimited list.inject)
  also have "\<dots> \<longleftrightarrow> ss = ts \<and> r = r'" using encode_rest_delimited[of ss' r ts' r'] u u' eqs by simp
  finally show ?thesis .
qed

lemma is_str_all: "list_all is_str xs \<Longrightarrow> \<exists>ss. xs = map VStr ss"
proof (induction xs)
  case Nil
  then show ?case by simp
next
  case (Cons x xs)
  then obtain ss where "xs = map VStr ss" by auto
  moreover obtain s where "x = VStr s" using Cons.prems by (cases x) auto
  ultimately have "x # xs = map VStr (s # ss)" by simp
  then show ?case by (rule exI)
qed

lemma encode_delimited:
  assumes "stable v" and "stable w"
  shows "encode_value v @ CHR ''|'' # r = encode_value w @ CHR ''|'' # r' \<longleftrightarrow> v = w \<and> r = r'"
proof -
  have ends: "ends_value CHR ''|''" by (simp add: ends_value_def)
  show ?thesis
  proof (cases "\<exists>xs ys. v = VList xs \<and> w = VList ys")
    case True
    then obtain ss ts where eqs: "v = VList (map VStr ss)" "w = VList (map VStr ts)"
      using assms is_str_all by fastforce
    have "map VStr ss = map VStr ts \<longleftrightarrow> ss = ts" by (simp add: inj_map_eq_map inj_def)
    then show ?thesis unfolding eqs pyval.inject by (simp only: encode_list_delimited)
  next
    case False
    then show ?thesis
      using assms show_int_delimited[OF ends ends]
      by (cases v; cases w) (auto simp: show_nat_delimited)
  qed
qed

lemma encode_fields_delimited:
  assumes "\<And>f. f \<in> set fs \<Longrightarrow> stable (g f) \<and> stable (h f)"
  shows "concat (map (\<lambda>f. f @ '':'' @ encode_value (g f) @ ''|'') fs)
       = concat (map (\<lambda>f. f @ '':'' @ encode_value (h f) @ ''|'') fs) \<longleftrightarrow> (\<forall>f\<in>set fs. g f = h f)"
  using assms by (induction fs) (simp_all add: encode_delimited)

lemma join_terminated: "xs \<noteq> [] \<Longrightarrow> join ''|'' xs @ ''|'' = concat (map (\<lambda>x. x @ ''|'') xs)"
proof (induction xs)
  case Nil
  then show ?case by simp
next
  case (Cons x xs)
  then show ?case by (cases xs) simp_all
qed

lemma fingerprint_text_terminated:
  "fingerprint_text d @ ''|''
     = concat (map (\<lambda>f. f @ '':'' @ encode_value (dict_get (canonicalize d) f) @ ''|'') signature_fields)"
proof -
  have "map (\<lambda>f. f @ '':'' @ encode_value (dict_get (canonicalize d) f)) signature_fields \<noteq> []"
    by (simp add: signature_fields_def)
  then show ?thesis
    by (simp add: fingerprint_text_def Let_def join_terminated comp_def)
qed

text \<open>
  Fingerprints are taken of an unambiguous text.  Two problem reports have the same
  fingerprint text exactly if their canonical signatures are equal, whatever delimiters their
  strings contain: the length prefixes keep apart, for example, one role \<open>a,str:1:b\<close> and the
  two roles \<open>a\<close> and \<open>b\<close>.  Everything outside the whitelisted fields is without effect.
\<close>

theorem fingerprint_text_unambiguous:
  "fingerprint_text a = fingerprint_text b \<longleftrightarrow> canonicalize a = canonicalize b"
proof
  assume "fingerprint_text a = fingerprint_text b"
  then have "fingerprint_text a @ ''|'' = fingerprint_text b @ ''|''" by simp
  then have "\<forall>f\<in>set signature_fields. dict_get (canonicalize a) f = dict_get (canonicalize b) f"
    unfolding fingerprint_text_terminated
    by (subst (asm) encode_fields_delimited) (auto simp: stable_canonical)
  then show "canonicalize a = canonicalize b" by (intro canonicalize_ext) blast
next
  assume "canonicalize a = canonicalize b"
  then show "fingerprint_text a = fingerprint_text b" by (simp add: fingerprint_text_def)
qed

section \<open>Confidence bands\<close>

lemma clamp_unit_range: "0 \<le> clamp_unit r \<and> clamp_unit r \<le> 1"
  by (cases r) auto

lemma similarity_range: "0 \<le> structured_similarity l r \<and> structured_similarity l r \<le> 1"
proof -
  let ?fs = "comparable_fields l r"
  let ?n = "length (filter (\<lambda>f. py_eq (dict_get l f) (dict_get r f)) ?fs)"
  have "of_nat ?n \<le> (of_nat (length ?fs) :: rat)" by (simp only: of_nat_le_iff length_filter_le)
  then show ?thesis by (auto simp: structured_similarity_def Let_def divide_le_eq_1)
qed

lemma applicable_signature:
  "applicable res st \<Longrightarrow> \<exists>sg. dict_get res ''problem_signature'' = VDict sg"
  by (auto simp: applicable_def split: pyval.splits prod.splits)

definition recurs_exactly :: "(string \<Rightarrow> string) \<Rightarrow> pydict \<Rightarrow> pydict \<Rightarrow> bool" where
  "recurs_exactly sha256 res st \<longleftrightarrow>
     (case dict_get res ''problem_signature'' of
        VDict sg \<Rightarrow> exact_recurrence sha256 sg st | _ \<Rightarrow> False)"

lemma confidence_exact:
  assumes "applicable res st" and "recurs_exactly sha256 res st"
  shows "apply_confidence sha256 res st rel = 9 / 10 + 1 / 10 * clamp_unit rel"
  using applicable_signature[OF assms(1)] assms by (auto simp: apply_confidence_def recurs_exactly_def)

lemma confidence_near:
  assumes "applicable res st" and "\<not> recurs_exactly sha256 res st"
  shows "apply_confidence sha256 res st rel = 45 / 100 + 15 / 100 * clamp_unit rel"
  using applicable_signature[OF assms(1)] assms by (auto simp: apply_confidence_def recurs_exactly_def)

lemma confidence_inapplicable:
  assumes "\<not> applicable res st"
  shows "0 \<le> apply_confidence sha256 res st rel \<and> apply_confidence sha256 res st rel \<le> 1 / 10"
proof (cases "\<exists>sg. dict_get res ''problem_signature'' = VDict sg")
  case True
  then obtain sg where sg: "dict_get res ''problem_signature'' = VDict sg" by blast
  let ?s = "structured_similarity (canonicalize sg) (canonicalize st)"
  have "0 \<le> clamp_unit rel * ?s" "clamp_unit rel * ?s \<le> 1"
    using clamp_unit_range[of rel] similarity_range[of "canonicalize sg" "canonicalize st"]
    by (auto intro: mult_le_one)
  then show ?thesis using sg assms by (simp add: apply_confidence_def Let_def mult.assoc)
next
  case False
  then have "apply_confidence sha256 res st rel = 0"
    by (simp add: apply_confidence_def Let_def split: pyval.split)
  then show ?thesis by simp
qed

text \<open>
  The confidence of a recovery tells what was checked.  It is a probability; it reaches
  0.45 exactly if every hard check holds, 0.90 exactly if besides the fingerprints agree, lies
  nowhere between 0.60 and 0.90, and is at most 0.10 exactly if some check fails.  The
  retrieval's relevance, any float, never moves a recovery into another band.
\<close>

theorem confidence_bands:
  "let c = apply_confidence sha256 res st rel in
    0 \<le> c \<and> c \<le> 1
    \<and> (9 / 20 \<le> c) = applicable res st
    \<and> (c \<le> 1 / 10) = (\<not> applicable res st)
    \<and> (9 / 10 \<le> c) = (applicable res st \<and> recurs_exactly sha256 res st)
    \<and> (3 / 5 < c) = (9 / 10 \<le> c)"
proof -
  consider (exact) "applicable res st" "recurs_exactly sha256 res st"
    | (near) "applicable res st" "\<not> recurs_exactly sha256 res st"
    | (out) "\<not> applicable res st" by blast
  then show ?thesis
  proof cases
    case exact
    then show ?thesis using clamp_unit_range[of rel] by (simp add: confidence_exact Let_def)
  next
    case near
    then show ?thesis using clamp_unit_range[of rel] by (simp add: confidence_near Let_def)
  next
    case out
    then show ?thesis using confidence_inapplicable[OF out, of sha256 rel] by (auto simp: Let_def)
  qed
qed

end
