(* ===== verification/Memory_Entries.thy ===== *)
theory Memory_Entries
  imports Recurrence
begin

text \<open>
  The entries of the memory (\<open>src/fabri/memory/schema.py\<close>), the update an external verdict
  makes to them (\<open>src/fabri/memory/verification.py\<close>), and the interface of the stores that
  hold them.  A store's backend (Qdrant or SQLite) is a parameter: a query returns entries
  with scores or raises.  Scores and times are exact rationals.
\<close>

section \<open>Entries\<close>

record memory_entry =
  me_text :: string
  me_kind :: string
  me_session_ids :: "string list"
  me_tags :: "string list"
  me_tools :: "string list"
  me_hit_count :: int
  me_created_at :: rat
  me_model_version :: string
  me_domain :: string
  me_outcome :: string
  me_agent_id :: "string option"
  me_task_embedding_hash :: "string option"
  me_dedup_key :: "string option"
  me_producer_agent_id :: "string option"
  me_scope :: string
  me_verification :: string
  me_tier :: string
  me_resolution :: "pydict option"
  me_source_session_ids :: "string list"
  me_source_event_ids :: "string list"
  me_applicability :: "string list"
  me_do_not_reuse_when :: "string list"
  me_payload :: pydict

text \<open>A dataclass constructed from its text and kind alone, at the given time.\<close>

definition fresh_entry :: "string \<Rightarrow> string \<Rightarrow> rat \<Rightarrow> memory_entry" where
  "fresh_entry t k now =
     \<lparr>me_text = t, me_kind = k, me_session_ids = [], me_tags = [], me_tools = [], me_hit_count = 1,
      me_created_at = now, me_model_version = ''minilm-l6-v2'', me_domain = ''generic'',
      me_outcome = ''unknown'', me_agent_id = None, me_task_embedding_hash = None,
      me_dedup_key = None, me_producer_agent_id = None, me_scope = ''agent'',
      me_verification = ''unverified'', me_tier = ''unclassified'', me_resolution = None,
      me_source_session_ids = [], me_source_event_ids = [], me_applicability = [],
      me_do_not_reuse_when = [], me_payload = []\<rparr>"

text \<open>\<open>list(dict.fromkeys(xs))\<close>: the first occurrences, in order.\<close>

definition first_occurrences :: "string list \<Rightarrow> string list" where
  "first_occurrences xs = rev (fold (\<lambda>x acc. if x \<in> set acc then acc else x # acc) xs [])"

text \<open>\<open>a or b\<close> for optional strings: an empty string is false as well.\<close>

definition or_str :: "string option \<Rightarrow> string option \<Rightarrow> string option" where
  "or_str a b = (if a = None \<or> a = Some [] then b else a)"

definition post_init :: "memory_entry \<Rightarrow> memory_entry" where
  "post_init e =
     (let sessions = first_occurrences (me_source_session_ids e @ me_session_ids e);
          producer = or_str (me_producer_agent_id e) (me_agent_id e)
      in e\<lparr>me_source_session_ids := sessions, me_session_ids := sessions,
           me_producer_agent_id := producer, me_agent_id := producer\<rparr>)"

definition id_namespace :: "string \<Rightarrow> string" where
  "id_namespace kind =
     (if kind = ''success_pattern'' then ''success''
      else if kind = ''postmortem'' then ''postmortem''
      else if kind = ''convention'' then ''convention''
      else ''failure'')"

text \<open>
  The point id: \<open>uuid\<close> stands for \<open>str(uuid.UUID(sha256(text).hexdigest()[:32]))\<close>.
\<close>

definition entry_id :: "(string \<Rightarrow> string) \<Rightarrow> memory_entry \<Rightarrow> string" where
  "entry_id uuid e = uuid (id_namespace (me_kind e) @ ''::'' @ lower (strip (me_text e)))"

section \<open>Stores\<close>

text \<open>
  What a store's call raises: the \<open>ValueError\<close> and \<open>RuntimeError\<close> of the embedding are told
  apart from any other exception because the code catches them.
\<close>

datatype raised = ValueErr string | RuntimeErr string | OtherErr string

type_synonym vec = "rat list"
type_synonym scored = "memory_entry \<times> rat"

text \<open>
  \<open>count()\<close>, \<open>query_by_vector(vector, top_k, tools_any)\<close>, \<open>query_bm25(task, top_k)\<close> (which only
  the embedded store has) and \<open>iterate(kind=None, limit)\<close>.
\<close>

record store =
  st_count :: "raised + nat"
  st_query :: "vec \<Rightarrow> nat \<Rightarrow> string option \<Rightarrow> raised + scored list"
  st_bm25 :: "(string \<Rightarrow> nat \<Rightarrow> raised + scored list) option"
  st_iterate :: "nat \<Rightarrow> raised + memory_entry list"

section \<open>Verdicts\<close>

definition verdicts :: "string list" where
  "verdicts = [''tool_verified'', ''rubric_verified'', ''contradicted'']"

definition verified_values :: "string list" where
  "verified_values = [''tool_verified'', ''rubric_verified'', ''human_verified'', ''config_verified'']"

definition affirmative :: "memory_entry \<Rightarrow> bool" where
  "affirmative e \<longleftrightarrow> me_verification e \<in> set verified_values"

text \<open>
  \<open>apply_session_verification\<close> over the points of a store, keyed by id: every entry of one of
  the kinds that stems from the session takes the verdict and is written back under its id.
\<close>

definition verdict_step ::
  "(string \<Rightarrow> string) \<Rightarrow> string \<Rightarrow> string \<Rightarrow> string list \<Rightarrow> memory_entry
     \<Rightarrow> (string \<times> memory_entry) list \<times> string list \<Rightarrow> (string \<times> memory_entry) list \<times> string list" where
  "verdict_step uuid session verdict kinds e =
     (\<lambda>(points, updated).
        if me_kind e \<notin> set kinds \<or> session \<notin> set (me_source_session_ids e) then (points, updated)
        else let e' = e\<lparr>me_verification := verdict\<rparr>
             in (AList.update (entry_id uuid e') e' points, updated @ [entry_id uuid e']))"

definition apply_session_verification ::
  "(string \<Rightarrow> string) \<Rightarrow> string \<Rightarrow> string \<Rightarrow> string list \<Rightarrow> (string \<times> memory_entry) list
     \<Rightarrow> raised + ((string \<times> memory_entry) list \<times> string list)" where
  "apply_session_verification uuid session verdict kinds points =
     (if verdict \<notin> set verdicts
      then Inl (ValueErr (''unsupported memory verification verdict: '' @ verdict))
      else let (points', updated) = fold (verdict_step uuid session verdict kinds) (map snd points) (points, [])
           in Inr (points', sort updated))"

section \<open>Lemmas\<close>

lemma first_occurrences_set:
  "set (fold (\<lambda>x acc. if x \<in> set acc then acc else x # acc) xs acc) = set xs \<union> set acc"
  by (induction xs arbitrary: acc) auto

lemma first_occurrences_distinct:
  "distinct acc \<Longrightarrow> distinct (fold (\<lambda>x acc. if x \<in> set acc then acc else x # acc) xs acc)"
  by (induction xs arbitrary: acc) auto

lemma first_occurrences_id:
  "distinct (xs @ acc) \<Longrightarrow> fold (\<lambda>x acc. if x \<in> set acc then acc else x # acc) xs acc = rev xs @ acc"
  by (induction xs arbitrary: acc) auto

lemma first_occurrences_seen:
  "set xs \<subseteq> set acc \<Longrightarrow> fold (\<lambda>x acc. if x \<in> set acc then acc else x # acc) xs acc = acc"
  by (induction xs) auto

text \<open>Constructing an entry again from its own fields changes nothing.\<close>

lemma post_init_idem: "post_init (post_init e) = post_init e"
proof -
  let ?s = "first_occurrences (me_source_session_ids e @ me_session_ids e)"
  have "distinct ?s" by (simp add: first_occurrences_def first_occurrences_distinct)
  then have "first_occurrences (?s @ ?s) = ?s"
    by (simp add: first_occurrences_def first_occurrences_id first_occurrences_seen)
  moreover have "or_str p p = p" for p by (simp add: or_str_def)
  ultimately show ?thesis by (simp add: post_init_def Let_def)
qed

lemma entry_id_verdict [simp]: "entry_id uuid (e\<lparr>me_verification := v\<rparr>) = entry_id uuid e"
  by (simp add: entry_id_def)

end
