(* ===== verification/Retrieval_Laws.thy ===== *)
theory Retrieval_Laws
  imports Retrieval "HOL-Library.Multiset"
begin

text \<open>
  What retrieval promises: the stages that rank a pool only reorder it, the rules that fill
  the slots never repeat an entry, and so every retrieved list is short, free of duplicates
  and free of entries its configuration excludes.
\<close>

section \<open>Stages that reorder\<close>

text \<open>A stage of the ranking: it may reorder and rescore the pool, never add or drop an entry.\<close>

locale reranker =
  fixes stage :: "scored list \<Rightarrow> scored list"
  assumes same_entries: "mset (map fst (stage ps)) = mset (map fst ps)"
begin

lemma entries_of: "fst ` set (stage ps) = fst ` set ps"
proof -
  have "set (map fst (stage ps)) = set (map fst ps)" using same_entries[of ps] by (metis set_mset_mset)
  then show ?thesis by simp
qed

lemma size_of: "length (stage ps) = length ps"
  using same_entries[of ps] by (metis length_map size_mset)

lemma distinct_of: "distinct (map (\<lambda>p. f (fst p)) (stage ps)) \<longleftrightarrow> distinct (map (\<lambda>p. f (fst p)) ps)"
proof -
  have "mset (map f (map fst (stage ps))) = mset (map f (map fst ps))"
    using same_entries[of ps] by (metis mset_map)
  then have "distinct (map f (map fst (stage ps))) \<longleftrightarrow> distinct (map f (map fst ps))"
    by (rule mset_eq_imp_distinct_iff)
  then show ?thesis by (simp add: comp_def)
qed

lemma all_of: "list_all (\<lambda>p. Q (fst p)) (stage ps) \<longleftrightarrow> list_all (\<lambda>p. Q (fst p)) ps"
proof -
  have flat: "list_all (\<lambda>p. Q (fst p)) qs \<longleftrightarrow> (\<forall>e \<in> fst ` set qs. Q e)" for qs :: "scored list"
    by (simp add: list_all_iff)
  show ?thesis by (simp only: flat entries_of)
qed

end

interpretation ranked: reranker by_score
  by unfold_locales (simp add: by_score_def)

interpretation promoted: reranker "sort_key (\<lambda>p. if me_tier (fst p) = ''core'' then 0 else 1 :: nat)"
  by unfold_locales simp

interpretation boosted: reranker "domain_boosted rc task tool_names"
  for rc :: retrieval_config and task tool_names
proof unfold_locales
  fix ps :: "scored list"
  have "map fst (map (\<lambda>(e, s). (e, s * w (e :: memory_entry))) ps) = map fst ps" for w :: "memory_entry \<Rightarrow> rat"
    by (induction ps) auto
  then show "mset (map fst (domain_boosted rc task tool_names ps)) = mset (map fst ps)"
    unfolding domain_boosted_def Let_def by (simp only: ranked.same_entries if_distrib[of "\<lambda>x. mset (map fst x)"] if_cancel)
qed

section \<open>What may be retrieved\<close>

definition may_retrieve :: "retrieval_config \<Rightarrow> memory_entry \<Rightarrow> bool" where
  "may_retrieve rc e \<longleftrightarrow>
     verification_allowed rc e \<and> tier_allowed e
     \<and> (me_kind e = ''convention'' \<longrightarrow> rc_convention_mining_enabled rc)"

lemma may_retrieve_iff:
  "may_retrieve rc e \<longleftrightarrow>
     me_verification e \<noteq> ''contradicted'' \<and> me_tier e \<noteq> ''quarantine''
     \<and> (rc_verification rc = ''verified'' \<longrightarrow> affirmative e)
     \<and> (me_kind e = ''convention'' \<longrightarrow> rc_convention_mining_enabled rc)"
proof (cases "rc_verification rc = ''verified''")
  case True
  have "affirmative e \<longleftrightarrow>
      me_verification e \<in> {''tool_verified'', ''rubric_verified'', ''config_verified'', ''human_verified''}"
    by (auto simp: affirmative_def verified_values_def)
  then show ?thesis using True
    by (simp add: may_retrieve_def verification_allowed_def tier_allowed_def) blast
next
  case False
  then show ?thesis by (auto simp: may_retrieve_def verification_allowed_def tier_allowed_def)
qed

abbreviation all_may :: "retrieval_config \<Rightarrow> scored list \<Rightarrow> bool" where
  "all_may rc ps \<equiv> list_all (\<lambda>p. may_retrieve rc (fst p)) ps"

lemma entry_allowed_may: "fst (entry_allowed sv rc e cache) \<Longrightarrow> may_retrieve rc e"
  by (auto simp: entry_allowed_def may_retrieve_def Let_def split: if_splits)

lemma filter_allowed_may: "all_may rc (fst (filter_allowed sv rc ps cache))"
proof (induction ps arbitrary: cache)
  case Nil
  then show ?case by simp
next
  case (Cons p ps)
  obtain ok c where a: "entry_allowed sv rc (fst p) cache = (ok, c)" by fastforce
  moreover obtain rest c' where "filter_allowed sv rc ps c = (rest, c')" by fastforce
  ultimately show ?case using Cons.IH[of c] entry_allowed_may[of sv rc "fst p" cache] by simp
qed

text \<open>What fusion scores is what it has entries for, and those come from the two lists.\<close>

definition fused_ok :: "memory_entry set \<Rightarrow> (string \<Rightarrow> string) \<Rightarrow> fused \<Rightarrow> bool" where
  "fused_ok E uuid acc \<longleftrightarrow>
     fst ` set (fst acc) \<subseteq> dom (map_of (snd acc)) \<and> distinct (map fst (fst acc))
     \<and> (\<forall>i e. map_of (snd acc) i = Some e \<longrightarrow> e \<in> E \<and> entry_id uuid e = i)"

lemma fuse_step_ok:
  assumes "fused_ok E (sv_uuid sv) acc" and "fst (snd r) \<in> E" and "fuse_step sv k acc r = Inr acc'"
  shows "fused_ok E (sv_uuid sv) acc'"
proof -
  obtain scores entries where acc: "acc = (scores, entries)" by (cases acc)
  obtain rank e sc where r: "r = (rank, (e, sc))" by (cases r; cases "snd r") auto
  let ?i = "eid sv e"
  obtain sc' where upd: "acc' = (AList.update ?i sc' scores, AList.update ?i e entries)"
    using assms(3) by (auto simp: fuse_step_def acc r Let_def split: if_splits)
  show ?thesis
    using assms(1,2) unfolding fused_ok_def upd
    by (auto simp: acc r dom_update update_conv' distinct_update)
qed

lemma ranks_members: "snd ` set (ranks xs) = set xs"
proof -
  have "map snd (ranks xs) = xs" by (simp add: ranks_def)
  then show ?thesis by (metis list.set_map)
qed

lemma all_may_iff: "all_may rc ps \<longleftrightarrow> (\<forall>e \<in> fst ` set ps. may_retrieve rc e)"
  by (simp add: list_all_iff)

lemma rrf_fuse_entries:
  assumes "rrf_fuse sv dense sparse k = Inr pool"
  shows "fst ` set pool \<subseteq> fst ` set dense \<union> fst ` set sparse"
proof -
  let ?E = "fst ` set dense \<union> fst ` set sparse"
  obtain acc where acc: "efold (fuse_step sv k) ([], []) (ranks dense @ ranks sparse) = Inr acc"
      and pool: "pool = by_score (map (\<lambda>(i, s). (the (map_of (snd acc) i), s)) (fst acc))"
    using assms by (auto simp: rrf_fuse_def)
  have "fused_ok ?E (sv_uuid sv) acc"
  proof (rule efold_invariant[OF acc])
    show "fused_ok ?E (sv_uuid sv) ([], [])" by (simp add: fused_ok_def)
  next
    fix a r a' assume "r \<in> set (ranks dense @ ranks sparse)" "fused_ok ?E (sv_uuid sv) a"
      "fuse_step sv k a r = Inr a'"
    moreover from this(1) have "snd r \<in> snd ` set (ranks dense) \<union> snd ` set (ranks sparse)"
      by auto
    ultimately show "fused_ok ?E (sv_uuid sv) a'" unfolding ranks_members
      by (intro fuse_step_ok[of ?E sv a r k a']) auto
  qed
  then have entry: "the (map_of (snd acc) i) \<in> ?E" if "(i, s) \<in> set (fst acc)" for i s
  proof -
    have "i \<in> fst ` set (fst acc)" using that by force
    then obtain e where "map_of (snd acc) i = Some e" using \<open>fused_ok ?E (sv_uuid sv) acc\<close>
      by (auto simp: fused_ok_def)
    then show ?thesis using \<open>fused_ok ?E (sv_uuid sv) acc\<close> by (auto simp: fused_ok_def)
  qed
  have "fst ` set (map (\<lambda>(i, s). (the (map_of (snd acc) i), s)) (fst acc)) \<subseteq> ?E"
  proof
    fix x assume "x \<in> fst ` set (map (\<lambda>(i, s). (the (map_of (snd acc) i), s)) (fst acc))"
    then obtain i s where "(i, s) \<in> set (fst acc)" and "x = the (map_of (snd acc) i)" by force
    with entry show "x \<in> ?E" by blast
  qed
  then show ?thesis unfolding pool ranked.entries_of .
qed

lemma base_pool_may:
  assumes "base_pool sv rc dense sparse = Inr pool" and "all_may rc dense" and "all_may rc sparse"
  shows "all_may rc pool"
proof -
  have "fst ` set pool \<subseteq> fst ` set dense \<union> fst ` set sparse"
    using assms(1) rrf_fuse_entries[of sv dense sparse "rc_rrf_k rc" pool]
    by (auto simp: base_pool_def split: if_splits)
  then show ?thesis using assms(2,3) unfolding all_may_iff by blast
qed

lemma reweigh_entry: "reweigh sv rc p = Inr q \<Longrightarrow> fst q = fst p"
  by (auto simp: reweigh_def split: prod.splits)

lemma reweighted_may:
  assumes "reweighted sv rc ps = Inr qs" and "all_may rc ps"
  shows "all_may rc qs"
proof (cases "rc_temporal_decay rc \<or> 0 < rc_importance_weight rc")
  case True
  then obtain rs where rs: "traverse (reweigh sv rc) ps = Inr rs" and qs: "qs = by_score rs"
    using assms(1) by (auto simp: reweighted_def)
  have "map fst rs = map fst ps"
    using rs unfolding traverse_Inr_iff by (induction rule: list_all2_induct) (auto dest: reweigh_entry)
  then have "fst ` set rs = fst ` set ps" by (metis list.set_map)
  then show ?thesis using assms(2) unfolding qs ranked.all_of unfolding all_may_iff by simp
next
  case False
  then show ?thesis using assms by (simp add: reweighted_def)
qed

lemma tag_hits_may:
  "tag_hits sv rc st g v k gk ts cache = Inr (ps, cache') \<Longrightarrow> all_may rc ps"
proof (induction ts arbitrary: cache ps)
  case Nil
  then show ?case by simp
next
  case (Cons t ts)
  obtain found where found: "st_query st v k (Some t) = Inr found"
    using Cons.prems by (auto simp del: ebind_Inr_iff simp: ebind_def split: sum.splits)
  obtain own c1 where own: "filter_allowed sv rc found cache = (own, c1)" by fastforce
  obtain glob c2 where glob:
      "filter_allowed sv rc (safe_global g (\<lambda>s. st_query s v gk (Some t)) []) c1 = (glob, c2)" by fastforce
  obtain rest where "tag_hits sv rc st g v k gk ts c2 = Inr (rest, cache')"
      and ps: "ps = own @ glob @ rest"
    using Cons.prems by (auto simp: found own glob)
  then have "all_may rc rest" by (intro Cons.IH)
  then show ?case
    using filter_allowed_may[of rc sv found cache]
      filter_allowed_may[of rc sv "safe_global g (\<lambda>s. st_query s v gk (Some t)) []" c1]
    by (simp add: ps own glob)
qed

lemma gather_Inr:
  assumes "gather sv rc st g stored gcount task tool_names top_k v = Inr ga"
  obtains own raw c base weighted k gk ts c' tagged where
      "base_pool sv rc (by_score (fst (filter_allowed sv rc own []))) (fst (filter_allowed sv rc raw c))
         = Inr base"
    and "reweighted sv rc base = Inr weighted"
    and "tag_hits sv rc st g v k gk ts c' = Inr tagged"
    and "ga_pool ga = domain_boosted rc task tool_names weighted" and "ga_tagged ga = fst tagged"
proof -
  from assms show ?thesis
    unfolding gather_def Let_def split_beta ebind_Inr_iff sum.inject
    by (elim exE conjE) (rule that, assumption, assumption, assumption, (hypsubst, simp)+)
qed

lemma gather_may:
  assumes "gather sv rc st g stored gcount task tool_names top_k v = Inr ga"
  shows "all_may rc (ga_pool ga) \<and> all_may rc (ga_tagged ga)"
  using assms
proof (rule gather_Inr)
  fix own raw c base weighted k gk ts c' tagged
  assume base: "base_pool sv rc (by_score (fst (filter_allowed sv rc own []))) (fst (filter_allowed sv rc raw c))
         = Inr base"
    and weighted: "reweighted sv rc base = Inr weighted"
    and tagged: "tag_hits sv rc st g v k gk ts c' = Inr tagged"
    and pool: "ga_pool ga = domain_boosted rc task tool_names weighted" "ga_tagged ga = fst tagged"
  have "all_may rc (by_score (fst (filter_allowed sv rc own [])))"
    using filter_allowed_may by (simp add: ranked.all_of)
  then have "all_may rc base" by (rule base_pool_may[OF base]) (rule filter_allowed_may)
  then have "all_may rc weighted" by (rule reweighted_may[OF weighted])
  then show ?thesis using tag_hits_may[of sv rc st g v k gk ts c' "fst tagged" "snd tagged"] tagged
    by (simp add: pool boosted.all_of)
qed

section \<open>Diversification picks from the pool\<close>

abbreviation ids :: "services \<Rightarrow> scored list \<Rightarrow> string list" where
  "ids sv ps \<equiv> map (\<lambda>p. eid sv (fst p)) ps"

lemma first_best_member: "first_best f b is \<in> set (b # is)"
  by (induction "is" arbitrary: b) auto

lemma mmr_loop_picks:
  "\<exists>bs. map fst (mmr_loop n cands vecs lam sel remaining) = map (\<lambda>b. fst (cands ! b)) bs
     \<and> (distinct remaining \<longrightarrow> distinct bs) \<and> set bs \<subseteq> set remaining \<and> length bs \<le> n"
proof (induction n cands vecs lam sel remaining rule: mmr_loop.induct)
  case (3 n cands vecs lam sel i "is")
  let ?f = "mmr_score cands vecs lam sel"
  let ?b = "first_best ?f i is"
  obtain bs where bs: "map fst (mmr_loop n cands vecs lam (sel @ [vecs ! ?b]) (remove1 ?b (i # is)))
        = map (\<lambda>b. fst (cands ! b)) bs"
      "distinct (remove1 ?b (i # is)) \<longrightarrow> distinct bs" "set bs \<subseteq> set (remove1 ?b (i # is))" "length bs \<le> n"
    using "3.IH"[OF refl refl] by blast
  have "?b \<in> set (i # is)" by (rule first_best_member)
  moreover have "set (remove1 ?b (i # is)) \<subseteq> set (i # is)" by (rule set_remove1_subset)
  moreover have "distinct (?b # bs)" if "distinct (i # is)"
  proof -
    have "distinct (remove1 ?b (i # is))" "?b \<notin> set (remove1 ?b (i # is))"
      using that by (simp_all only: distinct_remove1 set_remove1_eq) auto
    then show ?thesis using bs(2,3) by auto
  qed
  ultimately show ?case using bs(1,3,4)
    by (intro exI[of _ "?b # bs"]) (auto simp: Let_def simp del: remove1.simps)
qed (rule exI[of _ "[]"], simp)+

text \<open>What a selection from a pool keeps of it.\<close>

definition selects :: "services \<Rightarrow> nat \<Rightarrow> scored list \<Rightarrow> scored list \<Rightarrow> bool" where
  "selects sv top_k pool chosen \<longleftrightarrow>
     fst ` set chosen \<subseteq> fst ` set pool \<and> length chosen \<le> top_k
     \<and> (distinct (ids sv pool) \<longrightarrow> distinct (ids sv chosen))"

lemma selects_take: "selects sv top_k pool (take top_k pool)"
  by (auto simp: selects_def take_map[symmetric] dest: in_set_takeD)

lemma apply_mmr_selects:
  assumes "apply_mmr sv cands query lam top_k = Inr chosen"
  shows "selects sv top_k cands chosen"
proof (cases "length cands \<le> top_k")
  case True
  then show ?thesis using assms by (simp add: apply_mmr_def selects_def)
next
  case False
  then obtain vecs where chosen: "chosen = mmr_loop top_k cands vecs lam [] [0..<length cands]"
    using assms by (auto simp: apply_mmr_def)
  obtain bs where bs: "map fst chosen = map (\<lambda>b. fst (cands ! b)) bs" "distinct bs"
      "set bs \<subseteq> set [0..<length cands]" "length bs \<le> top_k"
    using mmr_loop_picks[of top_k cands vecs lam "[]" "[0..<length cands]"] by (auto simp: chosen)
  have "fst ` set chosen = (\<lambda>b. fst (cands ! b)) ` set bs" using bs(1) by (metis list.set_map)
  moreover have "length chosen \<le> top_k" using bs(1,4) by (metis length_map)
  moreover have "ids sv chosen = map (\<lambda>b. ids sv cands ! b) bs"
  proof -
    have "ids sv chosen = map (eid sv) (map fst chosen)" by simp
    also have "\<dots> = map (\<lambda>b. eid sv (fst (cands ! b))) bs" unfolding bs(1) by simp
    also have "\<dots> = map (\<lambda>b. ids sv cands ! b) bs" using bs(3) by auto
    finally show ?thesis .
  qed
  moreover have "distinct (map (\<lambda>b. ids sv cands ! b) bs)" if "distinct (ids sv cands)"
  proof -
    have "inj_on (\<lambda>b. ids sv cands ! b) (set bs)"
    proof (rule inj_onI)
      fix x y assume "x \<in> set bs" "y \<in> set bs" "ids sv cands ! x = ids sv cands ! y"
      moreover from this have "x < length (ids sv cands)" "y < length (ids sv cands)" using bs(3) by auto
      ultimately show "x = y" using that nth_eq_iff_index_eq by blast
    qed
    then show ?thesis unfolding distinct_map using bs(2) by blast
  qed
  ultimately show ?thesis using bs(3) by (auto simp: selects_def)
qed

lemma select_top_selects:
  assumes "select_top sv rc v top_k pool = Inr chosen"
  shows "selects sv top_k pool chosen"
proof -
  obtain mid where got: "(if is_infix ''mmr'' (rc_strategy rc) \<and> top_k < length pool
          then apply_mmr sv pool v (rc_mmr_lambda rc) top_k else Inr (take top_k pool)) = Inr mid"
      and chosen: "chosen = (if rc_tiering_enabled rc
        then sort_key (\<lambda>p. if me_tier (fst p) = ''core'' then 0 else 1 :: nat) mid else mid)"
    using assms unfolding select_top_def ebind_Inr_iff sum.inject by blast
  have mid: "selects sv top_k pool mid"
  proof (cases "is_infix ''mmr'' (rc_strategy rc) \<and> top_k < length pool")
    case True
    then show ?thesis using got by (auto intro: apply_mmr_selects)
  next
    case False
    then have "mid = take top_k pool" using got by (simp only: if_False sum.inject)
    then show ?thesis by (simp only: selects_take)
  qed
  show ?thesis using mid
    by (simp add: chosen selects_def promoted.entries_of promoted.size_of promoted.distinct_of[of "eid sv"])
qed

section \<open>Filling the slots\<close>

text \<open>The entries merged so far are distinct and \<open>seen_ids\<close> is the set of their ids.\<close>

definition slots_ok :: "services \<Rightarrow> slots \<Rightarrow> bool" where
  "slots_ok sv sl \<longleftrightarrow> set (sl_seen sl) = set (ids sv (sl_merged sl)) \<and> distinct (ids sv (sl_merged sl))"

text \<open>A step from \<open>sl\<close> to \<open>sl'\<close> that appends entries of \<open>S\<close> and keeps the invariant.\<close>

definition fills :: "services \<Rightarrow> scored set \<Rightarrow> slots \<Rightarrow> slots \<Rightarrow> bool" where
  "fills sv S sl sl' \<longleftrightarrow>
     (slots_ok sv sl \<longrightarrow> slots_ok sv sl') \<and> (\<exists>xs. sl_merged sl' = sl_merged sl @ xs \<and> set xs \<subseteq> S)"

lemma fills_refl [simp]: "fills sv S sl sl" by (simp add: fills_def)

lemma fills_trans: "fills sv S a b \<Longrightarrow> fills sv S b c \<Longrightarrow> fills sv S a c"
  by (auto simp: fills_def)

lemma fills_mono: "fills sv S a b \<Longrightarrow> S \<subseteq> T \<Longrightarrow> fills sv T a b"
  by (auto simp: fills_def)

lemma fills_add: "eid sv (fst p) \<notin> set (sl_seen sl) \<Longrightarrow> p \<in> S \<Longrightarrow> fills sv S sl (add_slot sv r p sl)"
  by (auto simp: fills_def slots_ok_def add_slot_def Let_def)

text \<open>One rule of the slot logic: it leaves the slots alone or adds an entry not yet seen.\<close>

locale slot_rule =
  fixes sv :: services and rule :: "scored \<Rightarrow> slots \<Rightarrow> slots"
  assumes rule_adds: "rule p sl = sl
    \<or> (eid sv (fst p) \<notin> set (sl_seen sl) \<and> (\<exists>r. rule p sl = add_slot sv r p sl))"
begin

lemma fills_rule: "p \<in> S \<Longrightarrow> fills sv S sl (rule p sl)"
  using rule_adds[of p sl] fills_add[of sv p sl S] by auto

lemma fills_fold: "set ps \<subseteq> S \<Longrightarrow> fills sv S sl (fold rule ps sl)"
proof (induction ps arbitrary: sl)
  case Nil
  then show ?case by simp
next
  case (Cons p ps)
  then have "fills sv S sl (rule p sl)" "fills sv S (rule p sl) (fold rule ps (rule p sl))"
    by (auto intro: fills_rule)
  then show ?case by (auto intro: fills_trans)
qed

end

interpretation tagged: slot_rule sv "tag_step sv tag_floor" for sv tag_floor
  by unfold_locales (auto simp: tag_step_def)

interpretation unseen: slot_rule sv
    "\<lambda>p sl. if eid sv (fst p) \<in> set (sl_seen sl) then sl else add_slot sv (why p) p sl" for sv why
  by unfold_locales auto

lemma head_slots_fills:
  "fills sv (set ps) sl (fst (head_slots sv n ps sl)) \<and> set (snd (head_slots sv n ps sl)) \<subseteq> set ps"
proof (induction ps arbitrary: n sl)
  case Nil
  then show ?case by simp
next
  case (Cons p ps)
  have widen: "fills sv (set (p # ps)) s s'" if "fills sv (set ps) s s'" for s s'
    by (rule fills_mono[OF that]) auto
  consider (seen) "eid sv (fst p) \<in> set (sl_seen sl)"
    | (taken) "eid sv (fst p) \<notin> set (sl_seen sl)" "0 < n"
    | (deferred) "eid sv (fst p) \<notin> set (sl_seen sl)" "n = 0" by blast
  then show ?case
  proof cases
    case seen
    then show ?thesis using Cons.IH[of sl n] widen by auto
  next
    case taken
    let ?sl = "add_slot sv (slot_reason p) p sl"
    have "fills sv (set (p # ps)) sl ?sl" using taken(1) by (rule fills_add) simp
    then show ?thesis using taken Cons.IH[of ?sl "n - 1"] widen by (auto intro: fills_trans)
  next
    case deferred
    then show ?thesis using Cons.IH[of sl n] widen by (auto simp: split_beta)
  qed
qed

lemma success_slots_fills: "set ps \<subseteq> S \<Longrightarrow> fills sv S sl (success_slots sv top_k cap n ps sl)"
proof (induction ps arbitrary: n sl)
  case Nil
  then show ?case by simp
next
  case (Cons p ps)
  then have "fills sv S sl (add_slot sv ''success_pattern'' p sl)" if "eid sv (fst p) \<notin> set (sl_seen sl)"
    using that by (intro fills_add) auto
  then show ?case using Cons by (auto intro: fills_trans)
qed

lemma backfill_slots_fills: "set ps \<subseteq> S \<Longrightarrow> fills sv S sl (backfill_slots sv limit ps sl)"
proof (induction ps arbitrary: sl)
  case Nil
  then show ?case by simp
next
  case (Cons p ps)
  let ?sl = "if eid sv (fst p) \<in> set (sl_seen sl) then sl else add_slot sv (slot_reason p) p sl"
  have "fills sv S sl ?sl" using Cons.prems by (intro unseen.fills_rule) auto
  moreover have "fills sv S ?sl (backfill_slots sv limit ps ?sl)" using Cons by auto
  ultimately have "fills sv S sl (backfill_slots sv limit ps ?sl)" by (rule fills_trans)
  then show ?case by simp
qed

text \<open>The three passes over the pool, after the tag hits.\<close>

lemma fill_slots_stages:
  fixes sv top_k limit tag_floor and tags pool :: "scored list"
  defines "sl1 \<equiv> fold (tag_step sv tag_floor) tags no_slots"
    and "cap \<equiv> success_cap top_k (by_score (filter is_success pool))"
  obtains sl2 deferred sl3 where
      "head_slots sv (top_k - length (sl_merged sl1) - cap) pool sl1 = (sl2, deferred)"
    and "sl3 = success_slots sv top_k cap (length (filter is_success (sl_merged sl2)))
                 (by_score (filter is_success pool)) sl2"
    and "fill_slots sv top_k limit tag_floor tags pool = backfill_slots sv limit deferred sl3"
    and "fills sv (set tags) no_slots sl1" and "fills sv (set pool) sl1 sl2"
    and "fills sv (set pool) sl2 sl3"
    and "fills sv (set pool) sl3 (fill_slots sv top_k limit tag_floor tags pool)"
proof -
  obtain sl2 deferred where
      h: "head_slots sv (top_k - length (sl_merged sl1) - cap) pool sl1 = (sl2, deferred)" by fastforce
  let ?s = "by_score (filter is_success pool)"
  let ?sl3 = "success_slots sv top_k cap (length (filter is_success (sl_merged sl2))) ?s sl2"
  have eq: "fill_slots sv top_k limit tag_floor tags pool = backfill_slots sv limit deferred ?sl3"
    using h by (simp add: fill_slots_def Let_def sl1_def cap_def)
  have head: "fills sv (set pool) sl1 sl2 \<and> set deferred \<subseteq> set pool"
    using head_slots_fills[of sv pool sl1 "top_k - length (sl_merged sl1) - cap"] h by simp
  have "set ?s \<subseteq> set pool" by (auto simp: by_score_def)
  then show ?thesis
    using that[OF h refl eq] head eq unfolding sl1_def
    by (simp add: tagged.fills_fold success_slots_fills backfill_slots_fills)
qed

lemma fill_slots_fills: "fills sv (set tags \<union> set pool) no_slots (fill_slots sv top_k limit tag_floor tags pool)"
proof (rule fill_slots_stages[where sv = sv and top_k = top_k and limit = limit and tag_floor = tag_floor
      and tags = tags and pool = pool])
  let ?S = "set tags \<union> set pool"
  let ?fin = "fill_slots sv top_k limit tag_floor tags pool"
  fix sl2 sl3
  assume "fills sv (set tags) no_slots (fold (tag_step sv tag_floor) tags no_slots)"
    and "fills sv (set pool) (fold (tag_step sv tag_floor) tags no_slots) sl2"
    and "fills sv (set pool) sl2 sl3" and "fills sv (set pool) sl3 ?fin"
  then have "fills sv ?S no_slots (fold (tag_step sv tag_floor) tags no_slots)"
      "fills sv ?S (fold (tag_step sv tag_floor) tags no_slots) sl2"
      "fills sv ?S sl2 sl3" "fills sv ?S sl3 ?fin"
    by (auto intro: fills_mono)
  then show ?thesis by (blast intro: fills_trans)
qed

lemma fill_slots_parts:
  "set (sl_merged (fill_slots sv top_k limit tag_floor tags pool)) \<subseteq> set tags \<union> set pool
   \<and> distinct (ids sv (sl_merged (fill_slots sv top_k limit tag_floor tags pool)))"
proof -
  have "slots_ok sv no_slots" "sl_merged no_slots = []" by (simp_all add: slots_ok_def no_slots_def)
  then show ?thesis
    using fill_slots_fills[of sv tags pool top_k limit tag_floor] by (auto simp: fills_def slots_ok_def)
qed

end
