(* ===== verification/Retrieval_Slots.thy ===== *)
theory Retrieval_Slots
  imports Retrieval_Laws
begin

text \<open>
  How the slots of the injected list are shared: tag hits first, then relevance, then the
  success patterns' guaranteed slots, then the rest of the pool.
\<close>

section \<open>How the slots are shared\<close>

abbreviation successes :: "scored list \<Rightarrow> nat" where
  "successes ps \<equiv> length (filter is_success ps)"

lemma head_slots_length:
  "length (sl_merged (fst (head_slots sv n ps sl))) \<le> length (sl_merged sl) + n"
proof (induction ps arbitrary: n sl)
  case Nil
  then show ?case by simp
next
  case (Cons p ps)
  have "length (sl_merged (add_slot sv (slot_reason p) p sl)) = Suc (length (sl_merged sl))"
    by (simp add: add_slot_def Let_def)
  then show ?case
    using Cons.IH[where n = n and sl = sl]
      Cons.IH[where n = "n - 1" and sl = "add_slot sv (slot_reason p) p sl"]
    by (cases n) (auto simp: split_beta)
qed

lemma head_slots_first:
  assumes "sl_seen sl = []" and "sl_merged sl = []" and "0 < n" and "ps \<noteq> []"
  shows "\<exists>xs. sl_merged (fst (head_slots sv n ps sl)) = hd ps # xs"
proof -
  obtain p qs where ps: "ps = p # qs" using assms(4) by (cases ps) auto
  have "fills sv (set qs) (add_slot sv (slot_reason p) p sl)
      (fst (head_slots sv (n - 1) qs (add_slot sv (slot_reason p) p sl)))"
    using head_slots_fills by blast
  then show ?thesis using assms(1-3) by (auto simp: ps fills_def add_slot_def Let_def)
qed

text \<open>
  The pass over the success patterns: it stays within the cap, and when it stops short of it
  either the list is full or every pattern is in.
\<close>

lemma success_slots_effect:
  fixes sl :: slots
  defines "n \<equiv> successes (sl_merged sl)"
  assumes "slots_ok sv sl" and "list_all is_success ps"
  shows "let sl' = success_slots sv top_k cap n ps sl; added = length (sl_merged sl') - length (sl_merged sl)
    in successes (sl_merged sl') = n + added
       \<and> added \<le> cap - n
       \<and> (cap \<le> n + added \<or> top_k \<le> length (sl_merged sl')
           \<or> (\<forall>p\<in>set ps. eid sv (fst p) \<in> set (ids sv (sl_merged sl'))))"
  using assms(2,3) unfolding n_def
proof (induction ps arbitrary: sl)
  case Nil
  then show ?case by simp
next
  case (Cons p ps)
  let ?n = "successes (sl_merged sl)"
  consider (stop) "cap \<le> ?n \<or> top_k \<le> length (sl_merged sl)"
    | (seen) "\<not> (cap \<le> ?n \<or> top_k \<le> length (sl_merged sl))" "eid sv (fst p) \<in> set (sl_seen sl)"
    | (new) "\<not> (cap \<le> ?n \<or> top_k \<le> length (sl_merged sl))" "eid sv (fst p) \<notin> set (sl_seen sl)"
    by blast
  then show ?case
  proof cases
    case stop
    then show ?thesis by (auto simp: Let_def)
  next
    case seen
    have "fills sv UNIV sl (success_slots sv top_k cap ?n ps sl)" by (rule success_slots_fills) simp
    moreover have "eid sv (fst p) \<in> set (ids sv (sl_merged sl))"
      using seen(2) Cons.prems(1) by (simp add: slots_ok_def)
    ultimately have "eid sv (fst p) \<in> set (ids sv (sl_merged (success_slots sv top_k cap ?n ps sl)))"
      by (auto simp: fills_def)
    then show ?thesis using seen Cons.IH[of sl] Cons.prems by (simp add: Let_def)
  next
    case new
    let ?sl = "add_slot sv ''success_pattern'' p sl"
    let ?fin = "success_slots sv top_k cap (?n + 1) ps ?sl"
    have merged: "sl_merged ?sl = sl_merged sl @ [p]" by (simp add: add_slot_def Let_def)
    have n: "successes (sl_merged ?sl) = ?n + 1" using Cons.prems(2) by (simp add: merged)
    have "fills sv UNIV sl ?sl" using new(2) by (rule fills_add) simp
    then have ok: "slots_ok sv ?sl" using Cons.prems(1) by (simp add: fills_def)
    have "fills sv UNIV ?sl ?fin" by (rule success_slots_fills) simp
    then obtain xs where xs: "sl_merged ?fin = sl_merged sl @ p # xs" by (auto simp: fills_def merged)
    then have here: "eid sv (fst p) \<in> set (ids sv (sl_merged ?fin))" by simp
    have "let added = length (sl_merged ?fin) - length (sl_merged ?sl)
      in successes (sl_merged ?fin) = ?n + 1 + added \<and> added \<le> cap - (?n + 1)
         \<and> (cap \<le> ?n + 1 + added \<or> top_k \<le> length (sl_merged ?fin)
             \<or> (\<forall>q\<in>set ps. eid sv (fst q) \<in> set (ids sv (sl_merged ?fin))))"
      using Cons.IH[OF ok] Cons.prems(2) by (simp add: n Let_def)
    then show ?thesis using new here xs by (auto simp: Let_def merged)
  qed
qed

lemma success_cap_by_score [simp]: "success_cap top_k (by_score ps) = success_cap top_k ps"
proof -
  have "by_score ps = [] \<longleftrightarrow> ps = []" by (metis by_score_def length_0_conv length_sort)
  then show ?thesis by (simp add: success_cap_def)
qed

lemma success_cap_lt: "0 < top_k \<Longrightarrow> success_cap top_k ps < top_k"
  by (auto simp: success_cap_def)

text \<open>
  The list after the success patterns' pass: a prefix of everything merged, no longer than
  \<open>top_k\<close>, that starts with the tag hits.
\<close>

lemma guaranteed_prefix:
  fixes sv top_k limit tag_floor and tags pool :: "scored list"
  defines "first \<equiv> sl_merged (fold (tag_step sv tag_floor) tags no_slots)"
    and "cap \<equiv> success_cap top_k (filter is_success pool)"
  assumes room: "length first + cap \<le> top_k"
  obtains pre rest where
      "sl_merged (fill_slots sv top_k limit tag_floor tags pool) = pre @ rest" and "length pre \<le> top_k"
    and "\<exists>xs. pre = first @ xs"
    and "cap \<le> successes pre \<or> (\<forall>p\<in>set pool. is_success p \<longrightarrow> eid sv (fst p) \<in> set (ids sv pre))"
    and "first = [] \<Longrightarrow> cap < top_k \<Longrightarrow> pool \<noteq> [] \<Longrightarrow> \<exists>xs. pre = hd pool # xs"
proof (rule fill_slots_stages[where sv = sv and top_k = top_k and limit = limit and tag_floor = tag_floor
      and tags = tags and pool = pool])
  let ?sl1 = "fold (tag_step sv tag_floor) tags no_slots"
  let ?ss = "by_score (filter is_success pool)"
  let ?cap = "success_cap top_k ?ss"
  let ?fin = "fill_slots sv top_k limit tag_floor tags pool"
  fix sl2 deferred sl3
  assume h: "head_slots sv (top_k - length (sl_merged ?sl1) - ?cap) pool ?sl1 = (sl2, deferred)"
    and sl3: "sl3 = success_slots sv top_k ?cap (successes (sl_merged sl2)) ?ss sl2"
    and f1: "fills sv (set tags) no_slots ?sl1" and f2: "fills sv (set pool) ?sl1 sl2"
    and f3: "fills sv (set pool) sl2 sl3" and f4: "fills sv (set pool) sl3 ?fin"
  have cap: "?cap = cap" by (simp add: cap_def)
  have ok: "slots_ok sv ?sl1" "slots_ok sv sl2"
    using f1 f2 by (auto simp: fills_def slots_ok_def no_slots_def)
  obtain rest where rest: "sl_merged ?fin = sl_merged sl3 @ rest" using f4 by (auto simp: fills_def)
  obtain ys where ys: "sl_merged sl3 = sl_merged sl2 @ ys" using f3 by (auto simp: fills_def)
  obtain xs where xs: "sl_merged sl2 = first @ xs" using f2 by (auto simp: fills_def first_def)
  have len2: "length (sl_merged sl2) \<le> top_k - cap"
    using head_slots_length[of sv "top_k - length first - cap" pool ?sl1] room
      h[unfolded cap, folded first_def] by (simp add: first_def[symmetric])
  have "list_all is_success ?ss" by (auto simp: list_all_iff by_score_def)
  have effect: "successes (sl_merged sl3) = successes (sl_merged sl2) + length ys"
      "length ys \<le> cap - successes (sl_merged sl2)"
      "cap \<le> successes (sl_merged sl2) + length ys \<or> top_k \<le> length (sl_merged sl3)
        \<or> (\<forall>p\<in>set ?ss. eid sv (fst p) \<in> set (ids sv (sl_merged sl3)))"
    using success_slots_effect[OF ok(2) \<open>list_all is_success ?ss\<close>, of top_k ?cap] ys
    unfolding sl3[symmetric] unfolding cap Let_def by simp_all
  show ?thesis
  proof (rule that[OF rest])
    show "length (sl_merged sl3) \<le> top_k" using len2 effect(2) ys room by simp
    show "\<exists>xs. sl_merged sl3 = first @ xs" using xs ys by simp
    have "cap \<le> successes (sl_merged sl3) \<or> (\<forall>p\<in>set ?ss. eid sv (fst p) \<in> set (ids sv (sl_merged sl3)))"
      using effect(1,3) len2 ys room by auto
    then show "cap \<le> successes (sl_merged sl3)
        \<or> (\<forall>p\<in>set pool. is_success p \<longrightarrow> eid sv (fst p) \<in> set (ids sv (sl_merged sl3)))"
      by (simp only: by_score_def set_sort set_filter) blast
    show "\<exists>xs. sl_merged sl3 = hd pool # xs"
      if none: "first = []" and room: "cap < top_k" and pool: "pool \<noteq> []"
    proof -
      have "sl_merged ?sl1 = []" using none by (simp add: first_def)
      moreover from this have "sl_seen ?sl1 = []" using ok(1) by (simp add: slots_ok_def)
      ultimately have "\<exists>zs. sl_merged (fst (head_slots sv (top_k - cap) pool ?sl1)) = hd pool # zs"
        using head_slots_first[of ?sl1 "top_k - cap" pool sv] room pool by simp
      moreover have "head_slots sv (top_k - cap) pool ?sl1 = (sl2, deferred)"
        using h none by (simp only: cap first_def[symmetric] list.size diff_zero)
      ultimately show ?thesis using ys by auto
    qed
  qed
qed

end
