(* ===== verification/Global_Tier.thy ===== *)
theory Global_Tier
  imports Retrieval_Slots
begin

text \<open>
  The optional global tier (a second store merged into the candidate pool): the lemmas show
  that one that fails in the middle of a retrieval leaves the result as if none had been
  configured.
\<close>

abbreviation primary_only :: "retrieval_config \<Rightarrow> retrieval_config" where
  "primary_only rc \<equiv> rc\<lparr>rc_global_collection := None\<rparr>"

section \<open>The stages do not read the global collection's name\<close>

named_theorems no_global \<open>a stage is the same with the global tier switched off\<close>

lemma entry_allowed_primary [no_global]: "entry_allowed sv (primary_only rc) = entry_allowed sv rc"
  by (intro ext) (simp add: entry_allowed_def verification_allowed_def cong: if_cong option.case_cong)

lemma filter_allowed_primary [no_global]: "filter_allowed sv (primary_only rc) ps c = filter_allowed sv rc ps c"
  by (induction ps arbitrary: c) (simp_all add: no_global)

lemma stages_primary [no_global]:
  "fetch_k (primary_only rc) = fetch_k rc"
  "pool_multiplier (primary_only rc) = pool_multiplier rc"
  "sparse_requested (primary_only rc) = sparse_requested rc"
  "domain_boosted (primary_only rc) = domain_boosted rc"
  "select_top sv (primary_only rc) = select_top sv rc"
  by (auto simp: fun_eq_iff fetch_k_def pool_multiplier_def sparse_requested_def domain_boosted_def select_top_def)

lemma base_pool_primary [no_global]: "base_pool sv (primary_only rc) = base_pool sv rc"
  by (intro ext) (simp add: base_pool_def no_global)

lemma reweighted_primary [no_global]: "reweighted sv (primary_only rc) = reweighted sv rc"
proof -
  have "reweigh sv (primary_only rc) = reweigh sv rc" by (intro ext) (simp add: reweigh_def split_beta cong: if_cong option.case_cong)
  then show ?thesis by (intro ext) (simp add: reweighted_def)
qed

lemma tag_hits_primary [no_global]:
  "tag_hits sv (primary_only rc) st g v k gk ts c = tag_hits sv rc st g v k gk ts c"
  by (induction ts arbitrary: c) (simp_all add: no_global)

lemma retrieval_event_primary [no_global]: "retrieval_event sv (primary_only rc) = retrieval_event sv rc"
  by (intro ext) (simp add: retrieval_event_def no_global cong: if_cong)

lemma gather_primary [no_global]: "gather sv (primary_only rc) = gather sv rc"
  by (intro ext) (simp add: gather_def no_global split_beta cong: if_cong option.case_cong)

lemma retrieve_warm_primary [no_global]: "retrieve_warm sv (primary_only rc) = retrieve_warm sv rc"
  by (intro ext) (simp add: retrieve_warm_def no_global split_beta cong: if_cong option.case_cong)

section \<open>A tier whose queries fail contributes nothing\<close>

definition mute :: "store \<Rightarrow> bool" where
  "mute g \<longleftrightarrow> (\<forall>v k t. \<exists>e. st_query g v k t = Inl e)"

lemma safe_global_mute: "mute g \<Longrightarrow> safe_global (Some g) (\<lambda>s. st_query s v k t) d = d"
  by (auto simp: mute_def safe_global_def split: sum.splits) (metis Inr_not_Inl)

lemma safe_global_none [simp]: "safe_global None q d = d" by (simp add: safe_global_def)

lemma tag_hits_mute: "mute g \<Longrightarrow> tag_hits sv rc st (Some g) v k gk ts c = tag_hits sv rc st None v k gk' ts c"
  by (induction ts arbitrary: c) (simp_all add: safe_global_mute)

lemma gather_mute:
  assumes "mute g" and "rc_verification rc \<noteq> ''verified''"
  shows "gather sv rc st (Some g) stored gc = gather sv rc st None stored gc'"
proof (intro ext)
  fix task tool_names top_k v
  have "fetch_k rc top_k n = fetch_k rc top_k 0" for n using assms(2) by (simp add: fetch_k_def)
  then have k: "fetch_k rc top_k (stored + gc) = fetch_k rc top_k (stored + gc')" by metis
  show "gather sv rc st (Some g) stored gc task tool_names top_k v
      = gather sv rc st None stored gc' task tool_names top_k v"
    using assms by (simp add: gather_def k safe_global_mute Let_def tag_hits_mute[where gk' = top_k])
qed

text \<open>
  The global tier is strictly additive.  If the second store was opened but each of its
  queries fails, a retrieval over a primary store that holds something gives exactly what it
  gives with no global collection configured: the same text, entries, trace event, and the
  same exception if the primary store or the embedding raises.  (Under the \<open>verified\<close> policy
  the mere size of the second store widens the primary's queries, which is excluded here.)
\<close>

theorem failing_global_tier_subtracts_nothing:
  assumes "open_global sv rc = Some g" and "\<forall>v k t. \<exists>e. st_query g v k t = Inl e"
    and "rc_verification rc \<noteq> ''verified''" and "st_count st \<noteq> Inr 0"
  shows "retrieve_inner sv rc st task top_k tool_names tag_floor session
       = retrieve_inner sv (rc\<lparr>rc_global_collection := None\<rparr>) st task top_k tool_names tag_floor session"
proof -
  have g: "mute g" using assms(2) by (simp add: mute_def)
  have none: "open_global sv (primary_only rc) = None" by (simp add: open_global_def)
  have warm: "retrieve_warm sv rc st (Some g) stored gc = retrieve_warm sv rc st None stored 0" for stored gc
    by (intro ext) (simp add: retrieve_warm_def gather_mute[OF g assms(3), of sv st stored gc 0])
  show ?thesis
    using assms(1,4) by (cases "st_count st")
      (simp_all add: retrieve_inner_def none Let_def no_global warm[where gc = "safe_global (Some g) st_count 0"])
qed

end
