(* ===== verification/Memory_Ingest.thy ===== *)
theory Memory_Ingest
  imports Retrieval
begin

text \<open>
  The writing side of the memory (\<open>src/fabri/memory/pruning.py\<close>): the tier of an entry, the
  merge of a recurring guideline into the entry it duplicates, its promotion, and eviction.
  A collection is its points, keyed by id, in the order of their insertion.  The similarity
  search, the embedding an upsert computes, the model that summarizes evicted entries and the
  token cap are parameters.  The file lock makes one ingestion atomic and has no other effect.
\<close>

section \<open>Points\<close>

type_synonym points = "(string \<times> memory_entry) list"

text \<open>
  What an ingestion calls: the digest, the embedding of an upsert (an error when it raises),
  the nearest entry of a kind (of any kind for \<open>None\<close>) with its score, the decay
  \<open>exp(- log 2 * x)\<close>, the clock, and \<open>enforce_token_cap\<close>.
\<close>

record ingest_backend =
  be_uuid :: "string \<Rightarrow> string"
  be_embed :: "string \<Rightarrow> raised option"
  be_nearest :: "string \<Rightarrow> string option \<Rightarrow> points \<Rightarrow> raised + (memory_entry \<times> rat) option"
  be_decay :: "rat \<Rightarrow> rat"
  be_now :: rat
  be_cap :: "string \<Rightarrow> int \<Rightarrow> string"

text \<open>
  Code that writes to the collection and may raise: what it wrote before a raise stays.
\<close>

type_synonym 'a writer = "points \<Rightarrow> (raised + 'a) \<times> points"

definition wreturn :: "'a \<Rightarrow> 'a writer" where
  "wreturn x = (\<lambda>ps. (Inr x, ps))"

definition wbind :: "'a writer \<Rightarrow> ('a \<Rightarrow> 'b writer) \<Rightarrow> 'b writer" where
  "wbind m f = (\<lambda>ps. case m ps of (Inl x, qs) \<Rightarrow> (Inl x, qs) | (Inr a, qs) \<Rightarrow> f a qs)"

fun wfor :: "('a \<Rightarrow> unit writer) \<Rightarrow> 'a list \<Rightarrow> unit writer" where
  "wfor f [] = wreturn ()"
| "wfor f (x # xs) = wbind (f x) (\<lambda>_. wfor f xs)"

definition upsert :: "ingest_backend \<Rightarrow> memory_entry \<Rightarrow> unit writer" where
  "upsert be e =
     (\<lambda>ps. case be_embed be (me_text e) of
              Some x \<Rightarrow> (Inl x, ps)
            | None \<Rightarrow> (Inr (), AList.update (entry_id (be_uuid be) e) e ps))"

definition delete_point :: "string \<Rightarrow> unit writer" where
  "delete_point i = (\<lambda>ps. (Inr (), filter (\<lambda>p. fst p \<noteq> i) ps))"

definition find_by_dedup_key :: "string \<Rightarrow> string option \<Rightarrow> points \<Rightarrow> (memory_entry \<times> rat) option" where
  "find_by_dedup_key key kind ps =
     (case List.find (\<lambda>(_, e). me_dedup_key e = Some key \<and> (kind = None \<or> kind = Some (me_kind e))) ps of
        None \<Rightarrow> None | Some (_, e) \<Rightarrow> Some (e, 1))"

definition find_similar ::
  "ingest_backend \<Rightarrow> string \<Rightarrow> rat \<Rightarrow> string option \<Rightarrow> points \<Rightarrow> raised + (memory_entry \<times> rat) option" where
  "find_similar be t threshold kind ps =
     ebind (be_nearest be t kind ps)
       (\<lambda>hit. Inr (case hit of None \<Rightarrow> None
                   | Some (e, score) \<Rightarrow> if threshold \<le> score then Some (e, score) else None))"

section \<open>Tiers\<close>

definition tier_rank :: "string \<Rightarrow> int" where
  "tier_rank t =
     (if t = ''quarantine'' then 0 else if t = ''retrieve'' then 1 else if t = ''core'' then 2
      else if t = ''action'' then 3 else - 1)"

definition generic_summary_chars :: nat where "generic_summary_chars = 160"

definition classify_tier :: "memory_entry \<Rightarrow> string" where
  "classify_tier e =
     (let sessions = length (remdups (me_source_session_ids e))
      in if me_verification e = ''contradicted'' then ''quarantine''
         else if me_verification e \<in> {''tool_verified'', ''rubric_verified''}
                 \<and> me_kind e = ''strategic'' \<and> 2 \<le> sessions
         then ''core''
         else if me_verification e = ''unverified'' \<and> me_kind e = ''success_pattern''
                 \<and> ((me_tools e = [] \<and> length (strip (me_text e)) < generic_summary_chars) \<or> sessions \<le> 1)
         then ''quarantine''
         else ''retrieve'')"

section \<open>Ingestion\<close>

record candidate =
  ca_text :: string
  ca_session :: string
  ca_tags :: "string list"
  ca_tools :: "string list"
  ca_kind :: string
  ca_dedup_key :: "string option"
  ca_producer :: "string option"
  ca_scope :: string
  ca_verification :: string
  ca_event_ids :: "string list"
  ca_applicability :: "string list"
  ca_do_not_reuse :: "string list"
  ca_tier :: "string option"
  ca_resolution :: "pydict option"

record ingest_config =
  ic_similarity :: rat
  ic_promotion_sessions :: nat
  ic_tiering :: bool
  ic_max_entries :: "nat option"
  ic_half_life :: rat
  ic_summarizer :: "(string \<Rightarrow> raised + string option) option"
  ic_guideline_tokens :: int

text \<open>\<open>for x in xs: if x not in ys: ys.append(x)\<close>.\<close>

definition add_missing :: "string list \<Rightarrow> string list \<Rightarrow> string list" where
  "add_missing xs ys = fold (\<lambda>x acc. if x \<in> set acc then acc else acc @ [x]) xs ys"

definition verification_rank :: "string \<Rightarrow> int" where
  "verification_rank v =
     (if v = ''tool_verified'' then 1 else if v = ''rubric_verified'' then 2
      else if v = ''contradicted'' then 3 else 0)"

definition merge_fields :: "candidate \<Rightarrow> memory_entry \<Rightarrow> memory_entry" where
  "merge_fields c e =
     e\<lparr>me_session_ids := add_missing [ca_session c] (me_session_ids e),
       me_source_session_ids := add_missing [ca_session c] (me_source_session_ids e),
       me_source_event_ids := add_missing (ca_event_ids c) (me_source_event_ids e),
       me_applicability := add_missing (ca_applicability c) (me_applicability e),
       me_do_not_reuse_when := add_missing (ca_do_not_reuse c) (me_do_not_reuse_when e),
       me_producer_agent_id := (if me_producer_agent_id e = None then ca_producer c else me_producer_agent_id e),
       me_agent_id := (if me_producer_agent_id e = None then ca_producer c else me_agent_id e),
       me_resolution := (if ca_resolution c = None then me_resolution e else ca_resolution c),
       me_verification := (if verification_rank (me_verification e) < verification_rank (ca_verification c)
                           then ca_verification c else me_verification e),
       me_hit_count := me_hit_count e + 1,
       me_tools := add_missing (ca_tools c) (me_tools e),
       me_text := (if length (me_text e) < length (ca_text c) then ca_text c else me_text e)\<rparr>"

definition promote :: "nat \<Rightarrow> memory_entry \<Rightarrow> memory_entry" where
  "promote threshold e =
     (if threshold \<le> length (remdups (me_session_ids e)) then e\<lparr>me_kind := ''strategic''\<rparr> else e)"

definition raise_tier :: "string option \<Rightarrow> bool \<Rightarrow> memory_entry \<Rightarrow> memory_entry" where
  "raise_tier tier tiering e =
     (let up = (\<lambda>t. if tier_rank (me_tier e) < tier_rank t then e\<lparr>me_tier := t\<rparr> else e)
      in case tier of Some t \<Rightarrow> up t | None \<Rightarrow> if tiering then up (classify_tier e) else e)"

definition merged_entry :: "ingest_config \<Rightarrow> candidate \<Rightarrow> memory_entry \<Rightarrow> memory_entry" where
  "merged_entry ic c e =
     raise_tier (ca_tier c) (ic_tiering ic) (promote (ic_promotion_sessions ic) (merge_fields c e))"

definition auto_domain :: "candidate \<Rightarrow> string" where
  "auto_domain c =
     (if ca_kind c = ''postmortem'' then ''generic'' else classify_domain (ca_text c) (ca_tools c))"

definition auto_outcome :: "string \<Rightarrow> string" where
  "auto_outcome kind =
     (if kind = ''success_pattern'' then ''success''
      else if kind \<in> {''tactical'', ''strategic''} then ''failure'' else ''unknown'')"

definition new_entry :: "ingest_config \<Rightarrow> candidate \<Rightarrow> rat \<Rightarrow> memory_entry" where
  "new_entry ic c now =
     (let e = post_init ((fresh_entry (ca_text c) (ca_kind c) now)
                \<lparr>me_session_ids := [ca_session c], me_tags := ca_tags c, me_tools := ca_tools c,
                 me_domain := auto_domain c, me_outcome := auto_outcome (ca_kind c),
                 me_dedup_key := ca_dedup_key c, me_agent_id := ca_producer c,
                 me_producer_agent_id := ca_producer c, me_scope := ca_scope c,
                 me_verification := ca_verification c,
                 me_tier := (case ca_tier c of None \<Rightarrow> ''unclassified'' | Some t \<Rightarrow> t),
                 me_resolution := ca_resolution c, me_source_session_ids := [ca_session c],
                 me_source_event_ids := ca_event_ids c, me_applicability := ca_applicability c,
                 me_do_not_reuse_when := ca_do_not_reuse c\<rparr>)
      in if ca_tier c = None \<and> ic_tiering ic then e\<lparr>me_tier := classify_tier e\<rparr> else e)"

text \<open>
  The entry a candidate duplicates: by its key, else by similarity.  Success patterns and
  postmortems look among their own kind only; every other kind looks among all kinds.
\<close>

definition dedup_kind :: "string \<Rightarrow> string option" where
  "dedup_kind kind = (if kind \<in> {''success_pattern'', ''postmortem''} then Some kind else None)"

definition find_existing ::
  "ingest_backend \<Rightarrow> ingest_config \<Rightarrow> candidate \<Rightarrow> points \<Rightarrow> raised + (memory_entry \<times> rat) option" where
  "find_existing be ic c ps =
     (case (case ca_dedup_key c of None \<Rightarrow> None
            | Some key \<Rightarrow> find_by_dedup_key key (dedup_kind (ca_kind c)) ps) of
        Some hit \<Rightarrow> Inr (Some hit)
      | None \<Rightarrow> find_similar be (ca_text c) (ic_similarity ic) (dedup_kind (ca_kind c)) ps)"

datatype disposition = Merged | Inserted

text \<open>The part of \<open>ingest_guideline\<close> under the lock.\<close>

definition store_candidate ::
  "ingest_backend \<Rightarrow> ingest_config \<Rightarrow> candidate \<Rightarrow> (memory_entry \<times> disposition) writer" where
  "store_candidate be ic c =
     (\<lambda>ps. case find_existing be ic c ps of
        Inl x \<Rightarrow> (Inl x, ps)
      | Inr (Some (e, _)) \<Rightarrow>
          (let old_id = entry_id (be_uuid be) e; e' = merged_entry ic c e
           in wbind (upsert be e')
                (\<lambda>_. wbind (if entry_id (be_uuid be) e' \<noteq> old_id then delete_point old_id else wreturn ())
                   (\<lambda>_. wreturn (e', Merged))) ps)
      | Inr None \<Rightarrow>
          (let e = new_entry ic c (be_now be)
           in wbind (upsert be e) (\<lambda>_. wreturn (e, Inserted)) ps))"

section \<open>Eviction\<close>

definition protected :: "memory_entry \<Rightarrow> bool" where
  "protected e \<longleftrightarrow> me_kind e = ''strategic''"

definition eviction_score :: "ingest_backend \<Rightarrow> rat \<Rightarrow> memory_entry \<Rightarrow> rat" where
  "eviction_score be half_life e =
     (let age_days = max 0 ((be_now be - me_created_at e) / 86400)
      in of_int (max (hits e) 1) * be_decay be (age_days / max half_life (1 / 10 ^ 9)))"

definition eviction_order :: "ingest_backend \<Rightarrow> rat \<Rightarrow> points \<Rightarrow> memory_entry list" where
  "eviction_order be half_life ps =
     (let es = map snd ps
      in sort_key (eviction_score be half_life) (filter (\<lambda>e. \<not> protected e) es)
         @ sort_key (eviction_score be half_life) (filter protected es))"

definition delete_entries :: "ingest_backend \<Rightarrow> memory_entry list \<Rightarrow> unit writer" where
  "delete_entries be es = wfor (\<lambda>e. delete_point (entry_id (be_uuid be) e)) es"

definition summary_chunk :: nat where "summary_chunk = 5"

function chunks :: "nat \<Rightarrow> 'a list \<Rightarrow> 'a list list" where
  "chunks n xs = (if xs = [] \<or> n = 0 then [] else take n xs # chunks n (drop n xs))"
  by pat_completeness auto
termination by (relation "measure (\<lambda>(n, xs). length xs)") auto

declare chunks.simps [simp del]

text \<open>The text a group is summarized to: the model's, or the input if it gave none.\<close>

definition summary_of ::
  "ingest_backend \<Rightarrow> (string \<Rightarrow> raised + string option) \<Rightarrow> int \<Rightarrow> string \<Rightarrow> string \<Rightarrow> raised + string" where
  "summary_of be model max_tokens prompt fallback =
     ebind (model prompt)
       (\<lambda>t. Inr (be_cap be (strip (case or_str t (Some fallback) of None \<Rightarrow> [] | Some s \<Rightarrow> s)) max_tokens))"

definition group_prompt :: "int \<Rightarrow> memory_entry list \<Rightarrow> string" where
  "group_prompt max_tokens members =
     ''Compress these '' @ show_nat (length members) @ '' agent guidelines into ONE concise ''
     @ ''actionable guideline (max '' @ show_int max_tokens @ '' tokens) that ''
     @ ''captures the key shared pattern:'' @ [CHR 0x0A]
     @ join [CHR 0x0A] (map (\<lambda>e. ''- '' @ me_text e) members)"

definition entry_prompt :: "int \<Rightarrow> memory_entry \<Rightarrow> string" where
  "entry_prompt max_tokens e =
     ''Compress this agent guideline into ONE more concise version (max '' @ show_int max_tokens
     @ '' tokens):'' @ [CHR 0x0A] @ me_text e"

text \<open>
  One group of unprotected entries: summarized into a tactical entry and deleted, or only
  deleted if the model fails.  An upsert that raises leaves the group in place.
\<close>

definition evict_group ::
  "ingest_backend \<Rightarrow> (string \<Rightarrow> raised + string option) \<Rightarrow> int \<Rightarrow> memory_entry list \<Rightarrow> unit writer" where
  "evict_group be model max_tokens members =
     (case summary_of be model max_tokens (group_prompt max_tokens members)
             (join [CHR 0x0A] (map (\<lambda>e. ''- '' @ me_text e) members)) of
        Inl _ \<Rightarrow> delete_entries be members
      | Inr summary \<Rightarrow>
          (let tools = first_occurrences (concat (map me_tools members));
               e = post_init ((fresh_entry summary ''tactical'' (be_now be))
                     \<lparr>me_session_ids := first_occurrences (concat (map me_session_ids members)), me_tools := tools,
                      me_hit_count := Max (set (map hits members)), me_domain := classify_domain summary tools\<rparr>)
           in wbind (upsert be e) (\<lambda>_. delete_entries be members)))"

definition evict_strategic ::
  "ingest_backend \<Rightarrow> (string \<Rightarrow> raised + string option) \<Rightarrow> int \<Rightarrow> memory_entry \<Rightarrow> unit writer" where
  "evict_strategic be model max_tokens old =
     (case summary_of be model max_tokens (entry_prompt max_tokens old) (me_text old) of
        Inl _ \<Rightarrow> delete_entries be [old]
      | Inr summary \<Rightarrow>
          (let e = post_init ((fresh_entry summary ''strategic'' (be_now be))
                     \<lparr>me_session_ids := me_session_ids old, me_tools := me_tools old, me_hit_count := hits old,
                      me_domain := me_domain old,
                      me_outcome := (if me_outcome old = [] then ''unknown'' else me_outcome old)\<rparr>)
           in wbind (upsert be e) (\<lambda>_. delete_entries be [old])))"

definition summarize_and_evict ::
  "ingest_backend \<Rightarrow> (string \<Rightarrow> raised + string option) \<Rightarrow> int \<Rightarrow> memory_entry list \<Rightarrow> unit writer" where
  "summarize_and_evict be model max_tokens doomed =
     wbind (wfor (evict_group be model max_tokens)
              (chunks summary_chunk (filter (\<lambda>e. \<not> protected e) doomed)))
       (\<lambda>_. wfor (evict_strategic be model max_tokens) (filter protected doomed))"

text \<open>\<open>_evict_if_needed\<close>; it gives the number of entries processed.\<close>

definition evict_if_needed :: "ingest_backend \<Rightarrow> ingest_config \<Rightarrow> nat \<Rightarrow> nat writer" where
  "evict_if_needed be ic max_entries =
     (\<lambda>ps. if length ps \<le> max_entries then (Inr 0, ps)
           else let doomed = take (length ps - max_entries) (eviction_order be (ic_half_life ic) ps)
                in wbind (case ic_summarizer ic of
                            Some model \<Rightarrow> summarize_and_evict be model (ic_guideline_tokens ic) doomed
                          | None \<Rightarrow> delete_entries be doomed)
                     (\<lambda>_. wreturn (length doomed)) ps)"

definition ingest_guideline ::
  "ingest_backend \<Rightarrow> ingest_config \<Rightarrow> candidate \<Rightarrow> (memory_entry \<times> disposition) writer" where
  "ingest_guideline be ic c =
     wbind (store_candidate be ic c)
       (\<lambda>stored. case ic_max_entries ic of
          None \<Rightarrow> wreturn stored
        | Some n \<Rightarrow> wbind (evict_if_needed be ic n) (\<lambda>_. wreturn stored))"

end
