(* ===== verification/Ingest_Laws.thy ===== *)
theory Ingest_Laws
  imports Memory_Ingest "HOL-Library.Multiset"
begin

text \<open>
  What the writing side of the memory promises: a collection stays keyed by the ids of its
  entries whatever an ingestion does or raises, a merge only adds to an entry and never demotes
  it, and eviction brings the collection under its limit while it protects strategic entries.
\<close>

section \<open>Invariants of a collection\<close>

definition keyed :: "(string \<Rightarrow> string) \<Rightarrow> points \<Rightarrow> bool" where
  "keyed uuid ps \<longleftrightarrow> distinct (map fst ps) \<and> (\<forall>(i, e) \<in> set ps. entry_id uuid e = i)"

text \<open>
  The contract of an invariant: the two operations of a store keep it.  Every operation of the
  code composed of them then keeps it, when it returns and when it raises.
\<close>

locale collection_invariant =
  fixes be :: ingest_backend and I :: "points \<Rightarrow> bool"
  assumes upserted: "I ps \<Longrightarrow> I (AList.update (entry_id (be_uuid be) e) e ps)"
    and deleted: "I ps \<Longrightarrow> I (filter (\<lambda>p. fst p \<noteq> i) ps)"
begin

definition keeps :: "'a writer \<Rightarrow> bool" where
  "keeps w \<longleftrightarrow> (\<forall>ps. I ps \<longrightarrow> I (snd (w ps)))"

lemma keeps_return [intro]: "keeps (wreturn x)" by (simp add: keeps_def wreturn_def)

lemma keeps_bind [intro]: "keeps m \<Longrightarrow> (\<And>a. keeps (f a)) \<Longrightarrow> keeps (wbind m f)"
  unfolding keeps_def wbind_def by (metis (mono_tags, lifting) case_prod_beta old.sum.simps(5,6) prod.sel(2) sum.exhaust_sel)

lemma keeps_cases [intro]:
  "keeps m \<Longrightarrow> keeps m' \<Longrightarrow> keeps (if b then m else m')"
  "keeps m \<Longrightarrow> (\<And>x. keeps (f x)) \<Longrightarrow> keeps (case opt of None \<Rightarrow> m | Some x \<Rightarrow> f x)"
  "(\<And>x. keeps (g x)) \<Longrightarrow> (\<And>x. keeps (f x)) \<Longrightarrow> keeps (case su of Inl x \<Rightarrow> g x | Inr x \<Rightarrow> f x)"
  by (auto split: option.splits sum.splits)

lemma keeps_for [intro]: "(\<And>x. keeps (f x)) \<Longrightarrow> keeps (wfor f xs)"
  by (induction xs) auto

lemma keeps_upsert [intro]: "keeps (upsert be e)"
  by (auto simp: keeps_def upsert_def intro: upserted split: option.splits)

lemma keeps_delete [intro]: "keeps (delete_point i)"
  by (simp add: keeps_def delete_point_def deleted)

lemma keeps_store: "keeps (store_candidate be ic c)"
proof -
  have "I (snd (store_candidate be ic c ps))" if "I ps" for ps
  proof (cases "find_existing be ic c ps")
    case (Inl x)
    then show ?thesis using that by (simp add: store_candidate_def)
  next
    case (Inr hit)
    have "keeps (if b then delete_point i else wreturn ())" for b i by auto
    then have step: "keeps (wbind (upsert be e) (\<lambda>_. wbind (if b then delete_point i else wreturn ()) (\<lambda>_. wreturn x)))"
      for e b i and x :: "memory_entry \<times> disposition" by (intro keeps_bind keeps_upsert keeps_return)
    have "keeps (wbind (upsert be e) (\<lambda>_. wreturn (e, Inserted)))" for e by auto
    with step show ?thesis using that Inr
      by (auto simp: store_candidate_def Let_def keeps_def split: option.splits)
  qed
  then show ?thesis by (simp add: keeps_def)
qed

lemma keeps_delete_entries [intro]: "keeps (delete_entries be es)"
  unfolding delete_entries_def by (intro keeps_for keeps_delete)

lemma keeps_evict_group [intro]: "keeps (evict_group be model max_tokens members)"
  unfolding evict_group_def Let_def
  by (intro keeps_cases keeps_bind keeps_upsert keeps_delete_entries)

lemma keeps_evict_strategic [intro]: "keeps (evict_strategic be model max_tokens old)"
  unfolding evict_strategic_def Let_def
  by (intro keeps_cases keeps_bind keeps_upsert keeps_delete_entries)

lemma keeps_summarize [intro]: "keeps (summarize_and_evict be model max_tokens doomed)"
  unfolding summarize_and_evict_def
  by (intro keeps_bind keeps_for keeps_evict_group keeps_evict_strategic)

lemma keeps_evict [intro]: "keeps (evict_if_needed be ic n)"
proof -
  have "keeps (wbind (case ic_summarizer ic of
            Some model \<Rightarrow> summarize_and_evict be model (ic_guideline_tokens ic) doomed
          | None \<Rightarrow> delete_entries be doomed) (\<lambda>_. wreturn k))" for doomed and k :: nat
    by (intro keeps_bind keeps_cases keeps_delete_entries keeps_summarize keeps_return)
  then show ?thesis unfolding evict_if_needed_def Let_def by (simp add: keeps_def)
qed

lemma keeps_ingest: "keeps (ingest_guideline be ic c)"
  unfolding ingest_guideline_def
  by (intro keeps_bind keeps_cases keeps_store keeps_evict keeps_return)

lemma ingest_preserves: "I ps \<Longrightarrow> I (snd (ingest_guideline be ic c ps))"
  using keeps_ingest by (auto simp: keeps_def)

lemma store_preserves: "I ps \<Longrightarrow> I (snd (store_candidate be ic c ps))"
  using keeps_store by (auto simp: keeps_def)

end

lemma keyed_update: "keyed uuid ps \<Longrightarrow> keyed uuid (AList.update (entry_id uuid e) e ps)"
  unfolding keyed_def by (induction ps) (auto simp: distinct_update update_keys image_iff)

interpretation keyed: collection_invariant be "keyed (be_uuid be)" for be
  by unfold_locales (auto simp: keyed_update, auto simp: keyed_def distinct_map_filter)

section \<open>Eviction\<close>

lemma delete_entries_eq:
  "delete_entries be es ps = (Inr (), filter (\<lambda>p. fst p \<notin> set (map (entry_id (be_uuid be)) es)) ps)"
proof (induction es arbitrary: ps)
  case Nil
  then show ?case by (simp add: delete_entries_def wreturn_def)
next
  case (Cons e es)
  have "delete_entries be (e # es) ps
      = delete_entries be es (filter (\<lambda>p. fst p \<noteq> entry_id (be_uuid be) e) ps)"
    by (simp add: delete_entries_def wbind_def delete_point_def)
  then show ?case by (simp add: Cons.IH conj_commute)
qed

text \<open>The order of eviction: unprotected entries first, then by score.\<close>

definition evicted_before :: "ingest_backend \<Rightarrow> rat \<Rightarrow> memory_entry \<Rightarrow> memory_entry \<Rightarrow> bool" where
  "evicted_before be half_life d e \<longleftrightarrow>
     (protected d \<longrightarrow> protected e)
     \<and> (protected d = protected e \<longrightarrow> eviction_score be half_life d \<le> eviction_score be half_life e)"

lemma eviction_order_sorted: "sorted_wrt (evicted_before be h) (eviction_order be h ps)"
proof -
  have sorted_part: "sorted_wrt (evicted_before be h) (sort_key (eviction_score be h) (filter P es))"
    if "P = protected \<or> P = (\<lambda>e. \<not> protected e)" for P es
  proof -
    let ?xs = "sort_key (eviction_score be h) (filter P es)"
    have "sorted_wrt (\<lambda>d e. eviction_score be h d \<le> eviction_score be h e) ?xs"
      using sorted_sort_key[of "eviction_score be h" "filter P es"] by (simp add: sorted_map)
    then show ?thesis
      by (rule sorted_wrt_mono_rel[rotated]) (use that in \<open>auto simp: evicted_before_def\<close>)
  qed
  show ?thesis unfolding eviction_order_def Let_def sorted_wrt_append
    using sorted_part by (auto simp: evicted_before_def)
qed

lemma eviction_order_mset: "mset (eviction_order be h ps) = mset (map snd ps)"
proof -
  have "mset (filter (\<lambda>e. \<not> protected e) es) + mset (filter protected es) = mset es" for es
    by (induction es) auto
  then show ?thesis by (simp add: eviction_order_def Let_def)
qed

lemma keyed_points: "keyed uuid ps \<Longrightarrow> ps = map (\<lambda>e. (entry_id uuid e, e)) (map snd ps)"
  unfolding keyed_def by (induction ps) auto

text \<open>What plain eviction leaves: the entries after the evicted ones in the order.\<close>

lemma evict_kept:
  assumes "keyed (be_uuid be) ps" and "ic_summarizer ic = None" and "evict_if_needed be ic n ps = (res, qs)"
  shows "set qs \<subseteq> set ps \<and> isl res = False
    \<and> mset (map snd qs) = mset (drop (length ps - n) (eviction_order be (ic_half_life ic) ps))"
proof (cases "length ps \<le> n")
  case True
  then show ?thesis using assms(3) by (auto simp: evict_if_needed_def eviction_order_mset)
next
  case False
  let ?id = "entry_id (be_uuid be)"
  let ?order = "eviction_order be (ic_half_life ic) ps"
  let ?doomed = "take (length ps - n) ?order"
  let ?rest = "drop (length ps - n) ?order"
  define es where "es = map snd ps"
  have qs: "qs = filter (\<lambda>p. fst p \<notin> ?id ` set ?doomed) ps" and res: "res = Inr (length ?doomed)"
    using assms(2,3) False by (auto simp: evict_if_needed_def Let_def wbind_def wreturn_def delete_entries_eq)
  have ps: "ps = map (\<lambda>e. (?id e, e)) es" using keyed_points[OF assms(1)] by (simp only: es_def)
  have keys: "map ?id es = map fst ps" by (subst ps) (simp add: comp_def)
  have ids: "distinct (map ?id es)" unfolding keys using assms(1) by (simp add: keyed_def)
  then have inj: "inj_on ?id (set es)" and "distinct es" by (simp_all add: distinct_map)
  have "mset ?order = mset es" unfolding es_def by (rule eviction_order_mset)
  then have members: "set ?order = set es" and dist: "distinct ?order"
    using \<open>distinct es\<close> by (metis set_mset_mset, metis mset_eq_imp_distinct_iff)
  have in_es: "set ?doomed \<subseteq> set es" using members set_take_subset by fastforce
  have "map snd qs = filter (\<lambda>e. ?id e \<notin> ?id ` set ?doomed) es"
    unfolding qs by (subst (2) ps) (simp add: filter_map comp_def)
  also have "\<dots> = filter (\<lambda>e. e \<notin> set ?doomed) es"
    by (rule filter_cong) (use inj in_es in \<open>auto dest: inj_onD\<close>)
  finally have "mset (map snd qs) = filter_mset (\<lambda>e. e \<notin> set ?doomed) (mset ?order)"
    using \<open>mset ?order = mset es\<close> by simp
  also have "\<dots> = filter_mset (\<lambda>e. e \<notin> set ?doomed) (mset ?doomed) + filter_mset (\<lambda>e. e \<notin> set ?doomed) (mset ?rest)"
    by (metis append_take_drop_id filter_union_mset mset_append)
  also have "\<dots> = mset ?rest"
  proof -
    have "set ?doomed \<inter> set ?rest = {}" using dist by (metis append_take_drop_id distinct_append)
    then have "filter (\<lambda>e. e \<notin> set ?doomed) ?rest = ?rest" by (auto simp: filter_id_conv)
    then show ?thesis by (simp flip: mset_filter)
  qed
  finally show ?thesis using res by (auto simp: qs)
qed

lemma evict_length:
  assumes "keyed (be_uuid be) ps" and "ic_summarizer ic = None" and "evict_if_needed be ic n ps = (res, qs)"
  shows "length qs = min n (length ps)"
proof -
  have "length qs = size (mset (map snd qs))" by simp
  also have "\<dots> = length ps - (length ps - n)"
    using evict_kept[OF assms] eviction_order_mset[of be "ic_half_life ic" ps]
    by (metis length_drop length_map size_mset)
  finally show ?thesis by simp
qed

text \<open>
  C31: eviction by deletion.  It brings a collection to exactly the limit, or leaves it alone if
  it is within it; it keeps entries as they are; it takes a strategic entry only when nothing
  else is left; and within a class no evicted entry scores higher than a kept one.
\<close>

theorem eviction_protects_strategic:
  assumes "keyed (be_uuid be) ps" and "ic_summarizer ic = None" and "evict_if_needed be ic n ps = (res, qs)"
  shows "set qs \<subseteq> set ps \<and> length qs = min n (length ps)
    \<and> (\<forall>(i, d) \<in> set ps - set qs. \<forall>(j, e) \<in> set qs.
         (me_kind d = ''strategic'' \<longrightarrow> me_kind e = ''strategic'')
         \<and> ((me_kind d = ''strategic'') = (me_kind e = ''strategic'') \<longrightarrow>
             eviction_score be (ic_half_life ic) d \<le> eviction_score be (ic_half_life ic) e))"
proof -
  let ?order = "eviction_order be (ic_half_life ic) ps"
  let ?k = "length ps - n"
  have kept: "set qs \<subseteq> set ps" "mset (map snd qs) = mset (drop ?k ?order)" using evict_kept[OF assms] by auto
  then have rest: "snd ` set qs = set (drop ?k ?order)" by (metis list.set_map set_mset_mset)
  have all: "snd ` set ps = set ?order" using eviction_order_mset[of be "ic_half_life ic" ps] by (metis list.set_map set_mset_mset)
  have doomed: "d \<in> set (take ?k ?order)" if "(i, d) \<in> set ps - set qs" for i d
  proof -
    have "d \<in> set ?order" using that all by force
    moreover have "d \<notin> set (drop ?k ?order)"
    proof
      assume "d \<in> set (drop ?k ?order)"
      then obtain j where j: "(j, d) \<in> set qs" using rest by force
      then have "entry_id (be_uuid be) d = j" "entry_id (be_uuid be) d = i"
        using kept(1) that assms(1) by (auto simp: keyed_def)
      then show False using j that by simp
    qed
    ultimately show ?thesis by (metis Un_iff append_take_drop_id set_append)
  qed
  have sorted: "sorted_wrt (evicted_before be (ic_half_life ic)) (take ?k ?order @ drop ?k ?order)"
    using eviction_order_sorted by simp
  have order: "evicted_before be (ic_half_life ic) d e" if "(i, d) \<in> set ps - set qs" "(j, e) \<in> set qs" for i j d e
  proof -
    have "e \<in> set (drop ?k ?order)" using that(2) rest by force
    with doomed[OF that(1)] sorted show ?thesis unfolding sorted_wrt_append by blast
  qed
  then show ?thesis using kept(1) evict_length[OF assms]
    unfolding evicted_before_def protected_def by blast
qed

section \<open>Ingestion keeps the collection in order\<close>


end
