(* ===== verification/Ingest_Promises.thy ===== *)
theory Ingest_Promises
  imports Ingest_Laws
begin

text \<open>
  What one ingestion does to the entry a candidate duplicates, examples, and two behaviours the
  comments of \<open>pruning.py\<close> rule out.
\<close>

section \<open>Merging\<close>

lemma add_missing_set [simp]: "set (add_missing xs ys) = set ys \<union> set xs"
  unfolding add_missing_def by (induction xs arbitrary: ys) auto

lemma promote_fields [simp]:
  "me_hit_count (promote n e) = me_hit_count e" "me_session_ids (promote n e) = me_session_ids e"
  "me_tools (promote n e) = me_tools e" "me_verification (promote n e) = me_verification e"
  "me_tier (promote n e) = me_tier e" "me_text (promote n e) = me_text e"
  "me_source_event_ids (promote n e) = me_source_event_ids e"
  by (simp_all add: promote_def)

lemma promote_kind:
  "me_kind (promote n e) = (if n \<le> card (set (me_session_ids e)) then ''strategic'' else me_kind e)"
  by (simp add: promote_def length_remdups_card_conv)

lemma raise_tier_fields [simp]:
  "me_hit_count (raise_tier t b e) = me_hit_count e" "me_session_ids (raise_tier t b e) = me_session_ids e"
  "me_tools (raise_tier t b e) = me_tools e" "me_verification (raise_tier t b e) = me_verification e"
  "me_kind (raise_tier t b e) = me_kind e" "me_text (raise_tier t b e) = me_text e"
  by (auto simp: raise_tier_def Let_def split: option.splits)

lemma raise_tier_rank: "tier_rank (me_tier e) \<le> tier_rank (me_tier (raise_tier t b e))"
  by (auto simp: raise_tier_def Let_def split: option.splits)

lemma map_of_filter_key: "map_of (filter (\<lambda>p. fst p \<noteq> i) ps) j = (if j = i then None else map_of ps j)"
  by (induction ps) auto


section \<open>Examples\<close>

text \<open>A backend whose similarity search finds the first entry of the kind asked for.\<close>

definition plain_backend :: ingest_backend where
  "plain_backend =
     \<lparr>be_uuid = (\<lambda>s. s), be_embed = (\<lambda>s. None),
      be_nearest = (\<lambda>t kind ps. Inr (case List.find (\<lambda>(_, e). kind = None \<or> kind = Some (me_kind e)) ps of
                                       None \<Rightarrow> None | Some (_, e) \<Rightarrow> Some (e, 1))),
      be_decay = (\<lambda>x. 1), be_now = 0, be_cap = (\<lambda>s n. s)\<rparr>"

definition plain_ingest :: ingest_config where
  "plain_ingest =
     \<lparr>ic_similarity = 85 / 100, ic_promotion_sessions = 2, ic_tiering = True, ic_max_entries = Some 1,
      ic_half_life = 30, ic_summarizer = None, ic_guideline_tokens = 30\<rparr>"

definition tactical_candidate :: "string \<Rightarrow> string \<Rightarrow> candidate" where
  "tactical_candidate t session =
     \<lparr>ca_text = t, ca_session = session, ca_tags = [], ca_tools = [''bash''], ca_kind = ''tactical'',
      ca_dedup_key = None, ca_producer = None, ca_scope = ''agent'', ca_verification = ''unverified'',
      ca_event_ids = [], ca_applicability = [], ca_do_not_reuse = [], ca_tier = None, ca_resolution = None\<rparr>"

definition stored :: "memory_entry \<Rightarrow> string \<times> memory_entry" where
  "stored e = (entry_id (be_uuid plain_backend) e, e)"

definition old_lesson :: memory_entry where
  "old_lesson = (fresh_entry ''check paths'' ''tactical'' 0)\<lparr>me_session_ids := [''s1''], me_source_session_ids := [''s1'']\<rparr>"

definition success_lesson :: memory_entry where
  "success_lesson = (fresh_entry ''page in tens'' ''success_pattern'' 0)
     \<lparr>me_session_ids := [''s1''], me_source_session_ids := [''s1'']\<rparr>"



theorem eviction_protects_strategic_witness:
  "\<exists>qs. evict_if_needed plain_backend plain_ingest 1
       [stored (old_lesson\<lparr>me_kind := ''strategic''\<rparr>), stored success_lesson] = (Inr 1, qs)
     \<and> length qs = 1"
proof -
  let ?ps = "[stored (old_lesson\<lparr>me_kind := ''strategic''\<rparr>), stored success_lesson]"
  let ?run = "evict_if_needed plain_backend plain_ingest 1 ?ps"
  have "keyed (be_uuid plain_backend) ?ps"
    by (simp add: keyed_def stored_def entry_id_def plain_backend_def old_lesson_def success_lesson_def fresh_entry_def
        id_namespace_def)
  moreover have "ic_summarizer plain_ingest = None" by (simp add: plain_ingest_def)
  moreover have run: "?run = (Inr 1, snd ?run)"
  proof -
    have "fst ?run = Inr 1" by code_simp
    then show ?thesis by (cases ?run) simp
  qed
  ultimately have "length (snd ?run) = min 1 (length ?ps)" using eviction_protects_strategic by blast
  with run show ?thesis by auto
qed

section \<open>Two behaviours the comments rule out\<close>

text \<open>
  A failure-derived candidate is searched for without a kind, so it can merge into a success
  pattern, although the comment says that the two never merge in either direction.
\<close>

lemma tactical_merges_into_success:
  "case fst (store_candidate plain_backend plain_ingest (tactical_candidate ''page in fives'' ''s1'') [stored success_lesson]) of
     Inl _ \<Rightarrow> False
   | Inr (e, d) \<Rightarrow> d = Merged \<and> me_kind e = ''success_pattern'' \<and> me_text e = ''page in fives''"
  by code_simp

text \<open>
  When the summary of a strategic entry reads like the entry, as it does when the model gives
  no text, the summary has the entry's id, and the deletion that follows removes both.
\<close>

lemma summarized_strategic_lost:
  "snd (evict_if_needed plain_backend (plain_ingest\<lparr>ic_summarizer := Some (\<lambda>prompt. Inr None)\<rparr>) 0
     [stored (old_lesson\<lparr>me_kind := ''strategic''\<rparr>)]) = []"
  by code_simp

end
