(* ===== verification/Tool_Policy.thy ===== *)
theory Tool_Policy
  imports PyText
begin

text \<open>
  The limits a host puts on dynamic tools: approval classes (\<open>src/fabri/tools/approval.py\<close>),
  name patterns (\<open>fnmatch.fnmatchcase\<close> of the standard library, read as it documents itself)
  and the policy with its checks (\<open>src/fabri/tools/policy.py\<close>).  The host name of a URL
  (\<open>urlparse\<close>) and the text of a value that is not a string (\<open>str\<close>) are parameters.
\<close>

section \<open>Approval classes\<close>

datatype approval = Read | Write | AlwaysApprove

definition approval_name :: "approval \<Rightarrow> string" where
  "approval_name a = (case a of Read \<Rightarrow> ''read'' | Write \<Rightarrow> ''write'' | AlwaysApprove \<Rightarrow> ''always_approve'')"

text \<open>\<open>check_approval\<close>: \<open>None\<close> is its \<open>ApprovalError\<close>.\<close>

definition check_approval :: "pyval \<Rightarrow> approval option" where
  "check_approval v =
     List.find (\<lambda>a. py_eq v (VStr (approval_name a))) [Read, Write, AlwaysApprove]"

definition rank :: "approval \<Rightarrow> nat" where
  "rank a = (case a of Read \<Rightarrow> 0 | Write \<Rightarrow> 1 | AlwaysApprove \<Rightarrow> 2)"

definition stricter :: "approval \<Rightarrow> approval \<Rightarrow> approval" where
  "stricter a b = (if rank b \<le> rank a then a else b)"

definition upper_char :: "char \<Rightarrow> char" where
  "upper_char c = (let n = (of_char c :: nat) in
     if (97 \<le> n \<and> n \<le> 122) \<or> (224 \<le> n \<and> n \<le> 254 \<and> n \<noteq> 247) then char_of (n - 32) else c)"

definition read_methods :: "string list" where "read_methods = [''GET'', ''HEAD'', ''OPTIONS'']"

definition default_approval_for_method :: "string option \<Rightarrow> approval" where
  "default_approval_for_method m =
     (if map upper_char (case m of None \<Rightarrow> [] | Some s \<Rightarrow> s) \<in> set read_methods then Read else Write)"

definition sensitive :: "string list" where
  "sensitive =
     [''send'', ''sends'', ''message'', ''messages'', ''msg'', ''email'', ''emails'', ''mail'', ''sms'',
      ''notify'', ''notification'', ''notifications'', ''broadcast'', ''publish'', ''post_message'',
      ''postmessage'', ''reply'', ''dm'', ''invite'', ''pay'', ''pays'', ''payment'', ''payments'',
      ''charge'', ''charges'', ''refund'', ''refunds'', ''payout'', ''payouts'', ''transfer'',
      ''transfers'', ''checkout'', ''purchase'', ''purchases'', ''withdraw'', ''withdrawal'']"

definition destructive :: "string list" where
  "destructive =
     [''delete'', ''deletes'', ''remove'', ''destroy'', ''drop'', ''purge'', ''erase'', ''wipe'', ''truncate'']"

definition is_lower_alnum :: "char \<Rightarrow> bool" where
  "is_lower_alnum c = (let n = (of_char c :: nat) in (48 \<le> n \<and> n \<le> 57) \<or> (97 \<le> n \<and> n \<le> 122))"

definition is_upper :: "char \<Rightarrow> bool" where
  "is_upper c = (let n = (of_char c :: nat) in 65 \<le> n \<and> n \<le> 90)"

text \<open>\<open>re.sub(r"([a-z0-9])([A-Z])", r"\1_\2", s)\<close> and \<open>re.split(r"[^a-z0-9]+", s)\<close>, empties dropped.\<close>

fun split_camel :: "string \<Rightarrow> string" where
  "split_camel (a # b # s) =
     (if is_lower_alnum a \<and> is_upper b then a # CHR ''_'' # split_camel (b # s) else a # split_camel (b # s))"
| "split_camel s = s"

fun alnum_runs :: "string \<Rightarrow> string list" where
  "alnum_runs [] = [[]]"
| "alnum_runs (c # s) =
     (if is_lower_alnum c then (case alnum_runs s of [] \<Rightarrow> [[c]] | w # ws \<Rightarrow> (c # w) # ws)
      else [] # alnum_runs s)"

definition name_tokens :: "string \<Rightarrow> string list" where
  "name_tokens s =
     (let parts = filter (\<lambda>w. w \<noteq> []) (alnum_runs (lower (split_camel s)))
      in parts @ map (\<lambda>(a, b). a @ ''_'' @ b) (zip parts (tl parts)))"

definition alarming :: "string list \<Rightarrow> bool" where
  "alarming names \<longleftrightarrow>
     list_ex (\<lambda>s. list_ex (\<lambda>w. w \<in> set sensitive \<or> w \<in> set destructive) (name_tokens s)) names"

definition safe_approval :: "string option \<Rightarrow> string list \<Rightarrow> approval" where
  "safe_approval m names =
     (let verb = map upper_char (case m of None \<Rightarrow> [] | Some s \<Rightarrow> s)
      in if verb \<in> set read_methods then Read
         else if verb = ''DELETE'' then AlwaysApprove
         else if alarming names then AlwaysApprove else Write)"

definition mcp_approval :: "string \<Rightarrow> pyval \<Rightarrow> approval" where
  "mcp_approval name annotations =
     (if (case annotations of VDict d \<Rightarrow> dict_get d ''destructiveHint'' = VBool True | _ \<Rightarrow> False)
      then AlwaysApprove
      else if alarming [name] then AlwaysApprove else Write)"

section \<open>Name patterns\<close>

text \<open>
  A pattern is a sequence of tokens: any text, any character, a set of characters (possibly
  negated) given by ranges, or one character.  An unclosed bracket is a character; a \<open>]\<close> right
  after the opening bracket (or its \<open>!\<close>) belongs to the set; an empty range matches nothing.
\<close>

datatype glob = AnyText | AnyChar | OneOf bool "(char \<times> char) list" | Exactly char

fun ranges :: "string \<Rightarrow> (char \<times> char) list" where
  "ranges (a # d # b # s) = (if d = CHR ''-'' then (a, b) # ranges s else (a, a) # ranges (d # b # s))"
| "ranges (a # s) = (a, a) # ranges s"
| "ranges [] = []"

text \<open>The text up to the closing bracket and the text after it.\<close>

definition bracket :: "string \<Rightarrow> (bool \<times> string \<times> string) option" where
  "bracket s =
     (let (neg, r) = (case s of c # t \<Rightarrow> if c = CHR ''!'' then (True, t) else (False, s) | [] \<Rightarrow> (False, []));
          (first, q) = (case r of c # t \<Rightarrow> if c = CHR '']'' then ([c], t) else ([], r) | [] \<Rightarrow> ([], []));
          body = takeWhile (\<lambda>c. c \<noteq> CHR '']'') q
      in case drop (length body) q of [] \<Rightarrow> None | _ # rest \<Rightarrow> Some (neg, first @ body, rest))"

lemma bracket_shorter: "bracket s = Some (neg, body, rest) \<Longrightarrow> length rest < length s"
proof -
  have tail: "length rest < length q" if "drop n q = x # rest" for n q and x :: char
  proof -
    have "length (drop n q) = Suc (length rest)" by (simp only: that list.size)
    then show ?thesis by simp
  qed
  assume "bracket s = Some (neg, body, rest)"
  then show ?thesis
    by (auto simp: bracket_def Let_def split: list.splits if_splits dest!: tail)
qed

function globs :: "string \<Rightarrow> glob list" where
  "globs [] = []"
| "globs (c # s) =
     (if c = CHR ''*'' then AnyText # globs s
      else if c = CHR ''?'' then AnyChar # globs s
      else if c = CHR ''['' then
        (case bracket s of None \<Rightarrow> Exactly c # globs s
         | Some (neg, body, rest) \<Rightarrow> OneOf neg (ranges body) # globs rest)
      else Exactly c # globs s)"
  by pat_completeness auto
termination by (relation "measure length") (auto dest: bracket_shorter)

definition glob_char :: "glob \<Rightarrow> char \<Rightarrow> bool" where
  "glob_char g c =
     (case g of
        AnyText \<Rightarrow> False
      | AnyChar \<Rightarrow> True
      | OneOf neg rs \<Rightarrow> list_ex (\<lambda>(a, b). (of_char a :: nat) \<le> of_char c \<and> (of_char c :: nat) \<le> of_char b) rs \<noteq> neg
      | Exactly a \<Rightarrow> a = c)"

fun glob_match :: "glob list \<Rightarrow> string \<Rightarrow> bool" where
  "glob_match [] s = (s = [])"
| "glob_match (AnyText # gs) [] = glob_match gs []"
| "glob_match (AnyText # gs) (c # s) = (glob_match gs (c # s) \<or> glob_match (AnyText # gs) s)"
| "glob_match (g # gs) [] = False"
| "glob_match (g # gs) (c # s) = (glob_char g c \<and> glob_match gs s)"

definition fnmatchcase :: "string \<Rightarrow> string \<Rightarrow> bool" where
  "fnmatchcase name pat = glob_match (globs pat) name"

definition any_match :: "string list \<Rightarrow> string list \<Rightarrow> bool" where
  "any_match names pats \<longleftrightarrow> list_ex (\<lambda>n. list_ex (fnmatchcase n) pats) names"

section \<open>Policies\<close>

definition source_kinds :: "string list" where
  "source_kinds = [''openapi'', ''mcp'', ''http'', ''python'']"

definition policy_keys :: "string list" where
  "policy_keys =
     [''allow'', ''allowed_kinds'', ''allowed_hosts'', ''allow_delete'', ''python_modules'',
      ''dry_run_header'', ''approval_floor'', ''credential_grants'']"

record tool_policy =
  tp_allow :: "string list option"
  tp_allowed_kinds :: "string list"
  tp_allowed_hosts :: "string list option"
  tp_allow_delete :: bool
  tp_python_modules :: "string list option"
  tp_dry_run_header :: pyval
  tp_approval_floor :: "(string \<times> approval) list"
  tp_credential_grants :: "(string \<times> string list) list option"

definition default_policy :: tool_policy where
  "default_policy =
     \<lparr>tp_allow = None, tp_allowed_kinds = [''openapi'', ''http''], tp_allowed_hosts = None,
      tp_allow_delete = False, tp_python_modules = Some [], tp_dry_run_header = VNone,
      tp_approval_floor = [], tp_credential_grants = None\<rparr>"

definition permissive :: "string list option \<Rightarrow> tool_policy" where
  "permissive allow =
     default_policy\<lparr>tp_allow := allow, tp_allowed_kinds := source_kinds, tp_allowed_hosts := None,
                    tp_allow_delete := True, tp_python_modules := None\<rparr>"

definition with_allow :: "tool_policy \<Rightarrow> string list option \<Rightarrow> tool_policy" where
  "with_allow p allow = p\<lparr>tp_allow := allow\<rparr>"

definition name_allowed :: "tool_policy \<Rightarrow> string list \<Rightarrow> bool" where
  "name_allowed p names = (case tp_allow p of None \<Rightarrow> True | Some pats \<Rightarrow> any_match names pats)"

text \<open>The strictest class of the floors whose pattern matches, over the name and the aliases.\<close>

definition floor_step :: "string list \<Rightarrow> string \<times> approval \<Rightarrow> approval option \<Rightarrow> approval option" where
  "floor_step names fl found =
     (if list_ex (\<lambda>n. fnmatchcase n (fst fl)) names
      then Some (case found of None \<Rightarrow> snd fl | Some f \<Rightarrow> stricter f (snd fl)) else found)"

definition floor_for :: "tool_policy \<Rightarrow> string list \<Rightarrow> approval option" where
  "floor_for p names = fold (floor_step names) (tp_approval_floor p) None"

definition grants_for :: "tool_policy \<Rightarrow> string \<Rightarrow> string list option" where
  "grants_for p source =
     map_option (\<lambda>gs. concat (map snd (filter (\<lambda>(pat, _). fnmatchcase source pat) gs))) (tp_credential_grants p)"

definition granted :: "string list option \<Rightarrow> string \<Rightarrow> bool" where
  "granted grants ref \<longleftrightarrow> (case grants of None \<Rightarrow> True | Some gs \<Rightarrow> list_ex (fnmatchcase ref) gs)"

definition kind_allowed :: "tool_policy \<Rightarrow> string \<Rightarrow> bool" where
  "kind_allowed p kind \<longleftrightarrow> kind \<in> set (tp_allowed_kinds p)"

definition host_allowed :: "(string \<Rightarrow> string option) \<Rightarrow> tool_policy \<Rightarrow> string \<Rightarrow> bool" where
  "host_allowed hostname p url =
     (case tp_allowed_hosts p of
        None \<Rightarrow> True
      | Some pats \<Rightarrow>
          url = []
          \<or> (let host = lower (case hostname url of None \<Rightarrow> [] | Some h \<Rightarrow> h)
             in host \<noteq> [] \<and> list_ex (\<lambda>pat. fnmatchcase host (lower pat)) pats))"

definition rstrip_char :: "char \<Rightarrow> string \<Rightarrow> string" where
  "rstrip_char c s = rev (dropWhile (\<lambda>x. x = c) (rev s))"

definition module_allowed :: "tool_policy \<Rightarrow> string \<Rightarrow> bool" where
  "module_allowed p dotted =
     (case tp_python_modules p of
        None \<Rightarrow> True
      | Some prefixes \<Rightarrow>
          (let m = map (\<lambda>c. if c = CHR '':'' then CHR ''.'' else c) dotted
           in list_ex (\<lambda>q. m = q \<or> starts_with (rstrip_char CHR ''.'' q @ ''.'') m) prefixes))"

section \<open>Reading a policy\<close>

text \<open>A \<open>PolicyError\<close>, or the \<open>TypeError\<close> of iterating or hashing a value that cannot be.\<close>

datatype policy_error =
    NotAPolicy | UnknownKeys "string list" | UnknownKinds "string list" | BadFloor | BadFloorClass pyval
  | BadGrants | NotIterable

definition policy_items :: "pyval \<Rightarrow> policy_error + pyval list" where
  "policy_items v = (case py_iter v of Inl _ \<Rightarrow> Inl NotIterable | Inr xs \<Rightarrow> Inr xs)"

definition policy_tuple ::
  "(pyval \<Rightarrow> string) \<Rightarrow> pydict \<Rightarrow> string \<Rightarrow> string list option \<Rightarrow> policy_error + string list option" where
  "policy_tuple str d key dflt =
     (case dict_lookup d key of
        None \<Rightarrow> Inr dflt
      | Some VNone \<Rightarrow> Inr None
      | Some v \<Rightarrow> ebind (policy_items v) (\<lambda>xs. Inr (Some (map str xs))))"

definition policy_kinds ::
  "(pyval \<Rightarrow> string) \<Rightarrow> pydict \<Rightarrow> string list \<Rightarrow> policy_error + string list" where
  "policy_kinds str d dflt =
     (case dict_lookup d ''allowed_kinds'' of
        None \<Rightarrow> Inr dflt
      | Some v \<Rightarrow>
          if \<not> truthy v then Inr []
          else ebind (policy_items v)
                 (\<lambda>xs. let bad = filter (\<lambda>x. \<not> list_ex (\<lambda>k. py_eq x (VStr k)) source_kinds) xs
                       in if bad = [] then Inr (map str xs) else Inl (UnknownKinds (map str bad))))"

definition policy_floor ::
  "pydict \<Rightarrow> (string \<times> approval) list \<Rightarrow> policy_error + (string \<times> approval) list" where
  "policy_floor d dflt =
     (case dict_lookup d ''approval_floor'' of
        None \<Rightarrow> Inr dflt
      | Some v \<Rightarrow>
          if \<not> truthy v then Inr []
          else case v of
                 VDict fl \<Rightarrow>
                   traverse (\<lambda>(k, c). case check_approval c of
                                        None \<Rightarrow> Inl (BadFloorClass c) | Some a \<Rightarrow> Inr (key_str k, a)) fl
               | _ \<Rightarrow> Inl BadFloor)"

definition policy_grants ::
  "(pyval \<Rightarrow> string) \<Rightarrow> pydict \<Rightarrow> (string \<times> string list) list option
     \<Rightarrow> policy_error + (string \<times> string list) list option" where
  "policy_grants str d dflt =
     (case dict_lookup d ''credential_grants'' of
        None \<Rightarrow> Inr dflt
      | Some VNone \<Rightarrow> Inr None
      | Some (VDict gs) \<Rightarrow>
          ebind (traverse (\<lambda>(k, v). case v of VList rs \<Rightarrow> Inr (key_str k, map str rs) | _ \<Rightarrow> Inl BadGrants) gs)
            (\<lambda>xs. Inr (Some xs))
      | Some _ \<Rightarrow> Inl BadGrants)"

definition policy_of_dict ::
  "(pyval \<Rightarrow> string) \<Rightarrow> pydict \<Rightarrow> tool_policy \<Rightarrow> policy_error + tool_policy" where
  "policy_of_dict str d base =
     (let unknown = filter (\<lambda>k. k \<notin> KStr ` set policy_keys) (map fst d)
      in if unknown \<noteq> [] then Inl (UnknownKeys (map key_str unknown))
         else ebind (policy_kinds str d (tp_allowed_kinds base)) (\<lambda>kinds.
              ebind (policy_floor d (tp_approval_floor base)) (\<lambda>floors.
              ebind (policy_grants str d (tp_credential_grants base)) (\<lambda>grants.
              ebind (policy_tuple str d ''allow'' (tp_allow base)) (\<lambda>allow.
              ebind (policy_tuple str d ''allowed_hosts'' (tp_allowed_hosts base)) (\<lambda>hosts.
              ebind (policy_tuple str d ''python_modules'' (tp_python_modules base)) (\<lambda>modules.
                Inr \<lparr>tp_allow = allow, tp_allowed_kinds = kinds, tp_allowed_hosts = hosts,
                     tp_allow_delete = truthy (dict_get_default d ''allow_delete'' (VBool (tp_allow_delete base))),
                     tp_python_modules = modules,
                     tp_dry_run_header = dict_get_default d ''dry_run_header'' (tp_dry_run_header base),
                     tp_approval_floor = floors, tp_credential_grants = grants\<rparr>)))))))"

definition policy_from_data ::
  "(pyval \<Rightarrow> string) \<Rightarrow> pyval \<Rightarrow> tool_policy \<Rightarrow> policy_error + tool_policy" where
  "policy_from_data str data base =
     (case data of
        VStr t \<Rightarrow>
          Inr (base\<lparr>tp_allow := Some (map strip (filter (\<lambda>l. strip l \<noteq> [] \<and> \<not> starts_with ''#'' l) (split_lines t)))\<rparr>)
      | VList xs \<Rightarrow> Inr (base\<lparr>tp_allow := Some (map str xs)\<rparr>)
      | VDict d \<Rightarrow> policy_of_dict str d base
      | _ \<Rightarrow> Inl NotAPolicy)"

lemma rank_stricter: "rank a \<le> rank (stricter a b)" "rank b \<le> rank (stricter a b)"
  by (auto simp: stricter_def)

end
