(* ===== verification/OpenApi_Schema.thy ===== *)
theory OpenApi_Schema
  imports Tools Tool_Policy
begin

text \<open>
  Schemas of an OpenAPI document (\<open>src/fabri/tools/openapi.py\<close>, \<open>SchemaResolver\<close> and its
  helpers): local references are inlined, \<open>allOf\<close> is flattened and \<open>nullable\<close> rewritten.  The
  document is a dictionary with string keys, as JSON has them; a key that is not a string raises
  where the code calls a string method on it.  \<open>str\<close> of a value that is not a string is a
  parameter.  \<open>PyRaise\<close> is a \<open>TypeError\<close> or an \<open>AttributeError\<close>.
\<close>

datatype api_error =
    NonLocalRef string | Unresolved string | CircularRef string | BadNaming | BadApproval pyval | PyRaise

section \<open>References\<close>

fun lookup_path :: "pyval \<Rightarrow> string list \<Rightarrow> pyval option" where
  "lookup_path node [] = Some node"
| "lookup_path node (p # ps) =
     (case node of
        VDict d \<Rightarrow> (case dict_lookup d p of None \<Rightarrow> None | Some v \<Rightarrow> lookup_path v ps)
      | _ \<Rightarrow> None)"

definition unescape_part :: "string \<Rightarrow> string" where
  "unescape_part s = str_replace ''~0'' ''~'' (str_replace ''~1'' ''/'' s)"

definition lookup_ref :: "pydict \<Rightarrow> string \<Rightarrow> api_error + pyval" where
  "lookup_ref doc ref =
     (if \<not> starts_with ''#/'' ref then Inl (NonLocalRef ref)
      else case lookup_path (VDict doc) (map unescape_part (split_on CHR ''/'' (drop 2 ref))) of
             None \<Rightarrow> Inl (Unresolved ref) | Some v \<Rightarrow> Inr v)"

text \<open>Every reference below a value, as text.\<close>

function doc_refs :: "(pyval \<Rightarrow> string) \<Rightarrow> pyval \<Rightarrow> string list" where
  "doc_refs str (VDict d) =
     (case dict_lookup d ''$ref'' of None \<Rightarrow> [] | Some r \<Rightarrow> [str r])
     @ concat (map (\<lambda>(_, v). doc_refs str v) d)"
| "doc_refs str (VList xs) = concat (map (doc_refs str) xs)"
| "doc_refs str VNone = []"
| "doc_refs str (VBool b) = []"
| "doc_refs str (VInt i) = []"
| "doc_refs str (VFloat f) = []"
| "doc_refs str (VStr s) = []"
  by pat_completeness auto
termination
  by (relation "measure (\<lambda>(str, v). size v)") (auto dest: size_dict_entry intro: size_list_estimation' simp: less_Suc_eq_le)

lemma doc_refs_entry: "(k, v) \<in> set d \<Longrightarrow> set (doc_refs str v) \<subseteq> set (doc_refs str (VDict d))"
  by auto

lemma doc_refs_item: "v \<in> set xs \<Longrightarrow> set (doc_refs str v) \<subseteq> set (doc_refs str (VList xs))"
  by auto

lemma doc_refs_sub_dict:
  "dict_lookup e ''$ref'' = None \<Longrightarrow> set e \<subseteq> set d \<Longrightarrow>
     set (doc_refs str (VDict e)) \<subseteq> set (doc_refs str (VDict d))"
  by auto

lemma doc_refs_ref: "dict_lookup d ''$ref'' = Some r \<Longrightarrow> str r \<in> set (doc_refs str (VDict d))"
  by simp

declare doc_refs.simps [simp del]

lemma dict_lookup_mem: "dict_lookup d k = Some v \<Longrightarrow> (KStr k, v) \<in> set d"
  by (simp add: dict_lookup_def map_of_SomeD)

lemma lookup_path_refs: "lookup_path node ps = Some v \<Longrightarrow> set (doc_refs str v) \<subseteq> set (doc_refs str node)"
proof (induction ps arbitrary: node)
  case Nil
  then show ?case by simp
next
  case (Cons p ps)
  from Cons.prems obtain d w where "node = VDict d" "dict_lookup d p = Some w" "lookup_path w ps = Some v"
    by (auto split: pyval.splits option.splits)
  with Cons.IH[of w] show ?case using doc_refs_entry[OF dict_lookup_mem, of d p w str] by auto
qed

lemma lookup_ref_refs: "lookup_ref doc ref = Inr v \<Longrightarrow> set (doc_refs str v) \<subseteq> set (doc_refs str (VDict doc))"
  by (auto simp: lookup_ref_def split: if_splits option.splits dest!: lookup_path_refs[where str = str])

text \<open>\<open>deref\<close>: a chain of references at the top of a node, with the ones already followed.\<close>

function deref :: "pydict \<Rightarrow> string list \<Rightarrow> pyval \<Rightarrow> api_error + pyval" where
  "deref doc seen node =
     (case node of
        VDict d \<Rightarrow>
          (case dict_lookup d ''$ref'' of
             None \<Rightarrow> Inr node
           | Some (VStr ref) \<Rightarrow>
               if ref \<in> set seen then Inl (CircularRef ref)
               else ebind (lookup_ref doc ref) (deref doc (ref # seen))
           | Some _ \<Rightarrow> Inl PyRaise)
      | _ \<Rightarrow> Inr node)"
  by pat_completeness auto

definition plain_str :: "pyval \<Rightarrow> string" where
  "plain_str v = (case v of VStr s \<Rightarrow> s | _ \<Rightarrow> [])"

text \<open>The references not followed yet: those of the document and of the node at hand.\<close>

definition open_refs :: "(pyval \<Rightarrow> string) \<Rightarrow> pydict \<Rightarrow> string list \<Rightarrow> pyval \<Rightarrow> nat" where
  "open_refs str doc stack node =
     card ((set (doc_refs str (VDict doc)) \<union> set (doc_refs str node)) - set stack)"

lemma open_refs_sub:
  "set (doc_refs str v) \<subseteq> set (doc_refs str node) \<Longrightarrow> open_refs str doc stack v \<le> open_refs str doc stack node"
  unfolding open_refs_def by (rule card_mono) auto

lemma open_refs_follow:
  assumes "dict_lookup d ''$ref'' = Some r" and "str r \<notin> set stack" and "lookup_ref doc (str r) = Inr v"
    and "set stack' = insert (str r) (set stack)"
  shows "open_refs str doc stack' v < open_refs str doc stack (VDict d)"
  unfolding open_refs_def
proof (rule psubset_card_mono)
  have "str r \<in> set (doc_refs str (VDict d))" using assms(1) by (rule doc_refs_ref)
  moreover have "set (doc_refs str v) \<subseteq> set (doc_refs str (VDict doc))" by (rule lookup_ref_refs[OF assms(3)])
  ultimately show "(set (doc_refs str (VDict doc)) \<union> set (doc_refs str v)) - set stack'
      \<subset> (set (doc_refs str (VDict doc)) \<union> set (doc_refs str (VDict d))) - set stack"
    using assms(2,4) by blast
qed simp

termination deref
proof (relation "measure (\<lambda>(doc, seen, node). open_refs plain_str doc seen node)", goal_cases)
  case 1
  show ?case by simp
next
  case (2 doc seen node d r ref v)
  then show ?case
    using open_refs_follow[of d r plain_str seen doc v "ref # seen"] by (simp add: plain_str_def)
qed

declare deref.simps [simp del]

section \<open>Flattening\<close>

definition dict_put :: "string \<Rightarrow> pyval \<Rightarrow> pydict \<Rightarrow> pydict" where
  "dict_put k v d = AList.update (KStr k) v d"

definition dict_pop :: "string \<Rightarrow> pydict \<Rightarrow> pydict" where
  "dict_pop k d = filter (\<lambda>(k', _). k' \<noteq> KStr k) d"

definition dict_merge :: "pydict \<Rightarrow> pydict \<Rightarrow> pydict" where
  "dict_merge d e = fold (\<lambda>(k, v) out. AList.update k v out) e d"

definition hashable_value :: "pyval \<Rightarrow> bool" where
  "hashable_value v \<longleftrightarrow> \<not> is_list v \<and> \<not> is_dict v"

text \<open>\<open>list(dict.fromkeys(xs))\<close>: the first occurrence of every element.\<close>

definition from_keys :: "pyval list \<Rightarrow> api_error + pyval list" where
  "from_keys xs =
     (if list_all hashable_value xs
      then Inr (fold (\<lambda>x out. if list_ex (py_eq x) out then out else out @ [x]) xs [])
      else Inl PyRaise)"

definition iter_value :: "pyval \<Rightarrow> api_error + pyval list" where
  "iter_value v = (case py_iter v of Inl _ \<Rightarrow> Inl PyRaise | Inr xs \<Rightarrow> Inr xs)"

definition merge_entry :: "pydict \<Rightarrow> pykey \<times> pyval \<Rightarrow> api_error + pydict" where
  "merge_entry merged kv =
     (case kv of
        (KStr k, v) \<Rightarrow>
          (case (k = ''properties'', k = ''required'', v) of
             (True, _, VDict vs) \<Rightarrow>
               (case dict_get_default merged ''properties'' (VDict []) of
                  VDict ps \<Rightarrow> Inr (dict_put ''properties'' (VDict (dict_merge ps vs)) merged)
                | _ \<Rightarrow> Inl PyRaise)
           | (_, True, VList vs) \<Rightarrow>
               ebind (iter_value (dict_get_default merged ''required'' (VList []))) (\<lambda>rs.
               ebind (from_keys (rs @ vs)) (\<lambda>ks. Inr (dict_put ''required'' (VList ks) merged)))
           | _ \<Rightarrow>
               if k = ''description'' \<and> dict_lookup merged ''description'' \<noteq> None then Inr merged
               else Inr (dict_put k v merged))
      | (k, v) \<Rightarrow> Inr (AList.update k v merged))"

definition merge_part :: "pydict \<Rightarrow> pyval \<Rightarrow> api_error + pydict" where
  "merge_part merged part = (case part of VDict d \<Rightarrow> efold merge_entry merged d | _ \<Rightarrow> Inr merged)"

definition with_object_type :: "pydict \<Rightarrow> pydict" where
  "with_object_type merged =
     (if dict_lookup merged ''properties'' \<noteq> None \<and> dict_lookup merged ''type'' = None
      then dict_put ''type'' (VStr ''object'') merged else merged)"

definition merge_all_of :: "pydict \<Rightarrow> api_error + pydict" where
  "merge_all_of node =
     ebind (iter_value (dict_get node ''allOf'')) (\<lambda>parts.
     ebind (efold merge_part [] (parts @ [VDict (dict_pop ''allOf'' node)])) (\<lambda>merged.
       Inr (with_object_type merged)))"

definition null_enum :: "pydict \<Rightarrow> pydict" where
  "null_enum node =
     (case dict_get node ''enum'' of
        VList vs \<Rightarrow> if VNone \<in> set vs then node else dict_put ''enum'' (VList (vs @ [VNone])) node
      | _ \<Rightarrow> node)"

definition make_nullable :: "pydict \<Rightarrow> pydict" where
  "make_nullable node =
     (case dict_get node ''type'' of
        VStr t \<Rightarrow> null_enum (dict_put ''type'' (VList [VStr t, VStr ''null'']) node)
      | VList ts \<Rightarrow>
          null_enum (if VStr ''null'' \<in> set ts then node else dict_put ''type'' (VList (ts @ [VStr ''null''])) node)
      | _ \<Rightarrow> [(KStr ''anyOf'', VList [VDict node, VDict [(KStr ''type'', VStr ''null'')]])])"

definition finish_schema :: "pydict \<Rightarrow> api_error + pyval" where
  "finish_schema out =
     ebind (if dict_lookup out ''allOf'' \<noteq> None then merge_all_of out else Inr out) (\<lambda>merged.
       Inr (VDict (if truthy (dict_get_default merged ''nullable'' (VBool False))
                   then make_nullable (dict_pop ''nullable'' merged)
                   else dict_pop ''nullable'' merged)))"

section \<open>Resolving a schema\<close>

definition drop_schema_keys :: "string list" where
  "drop_schema_keys = [''example'', ''examples'', ''xml'', ''externalDocs'', ''discriminator'', ''deprecated'']"

text \<open>What is kept of a reference that is being resolved already.\<close>

definition recursion_note :: "string \<Rightarrow> pyval" where
  "recursion_note ref =
     VDict [(KStr ''type'', VStr ''object''),
            (KStr ''description'', VStr (''recursive reference to '' @ last (split_on CHR ''/'' ref)))]"

definition property_keys :: "string list" where "property_keys = [''properties'', ''patternProperties'']"
definition subschema_keys :: "string list" where "subschema_keys = [''items'', ''additionalProperties'', ''not'']"
definition composition_keys :: "string list" where "composition_keys = [''allOf'', ''oneOf'', ''anyOf'']"

text \<open>The values below a key that are schemas themselves, and an entry with them resolved.\<close>

definition subschemas :: "string \<Rightarrow> pyval \<Rightarrow> pyval list" where
  "subschemas k v =
     (if k \<in> set property_keys then (case v of VDict ps \<Rightarrow> map snd ps | _ \<Rightarrow> [])
      else if k \<in> set subschema_keys then (case v of VDict e \<Rightarrow> [VDict e] | _ \<Rightarrow> [])
      else if k \<in> set composition_keys then (case v of VList xs \<Rightarrow> xs | _ \<Rightarrow> [])
      else [])"

definition schema_value ::
  "(pyval \<Rightarrow> api_error + pyval) \<Rightarrow> string \<Rightarrow> pyval \<Rightarrow> api_error + pyval" where
  "schema_value resolve k v =
     (if k \<in> set property_keys
      then (case v of
              VDict ps \<Rightarrow>
                ebind (traverse (\<lambda>(n, sub). ebind (resolve sub) (\<lambda>w. Inr (n, w))) ps) (\<lambda>qs. Inr (VDict qs))
            | _ \<Rightarrow> Inr v)
      else if k \<in> set subschema_keys then (case v of VDict e \<Rightarrow> resolve (VDict e) | _ \<Rightarrow> Inr v)
      else if k \<in> set composition_keys
      then (case v of VList xs \<Rightarrow> ebind (traverse resolve xs) (\<lambda>ys. Inr (VList ys)) | _ \<Rightarrow> Inr v)
      else Inr v)"

definition schema_entry ::
  "(pyval \<Rightarrow> api_error + pyval) \<Rightarrow> pykey \<times> pyval \<Rightarrow> api_error + pydict" where
  "schema_entry resolve kv =
     (case fst kv of
        KStr k \<Rightarrow>
          if k \<in> set drop_schema_keys \<or> starts_with ''x-'' k then Inr []
          else ebind (schema_value resolve k (snd kv)) (\<lambda>w. Inr [(KStr k, w)])
      | _ \<Rightarrow> Inl PyRaise)"

lemma subschemas_at [simp]:
  "subschemas ''properties'' (VDict ps) = map snd ps" "subschemas ''allOf'' (VList xs) = xs"
  "subschemas ''anyOf'' (VList xs) = xs" "subschemas ''required'' v = []" "subschemas ''type'' v = []"
  "subschemas ''enum'' v = []" "subschemas ''description'' v = []"
  by (simp_all add: subschemas_def property_keys_def subschema_keys_def composition_keys_def)

lemma schema_value_cong:
  assumes "\<And>x. x \<in> set (subschemas k v) \<Longrightarrow> f x = g x"
  shows "schema_value f k v = schema_value g k v"
proof -
  have "traverse (\<lambda>(n, sub). ebind (f sub) (\<lambda>w. Inr (n, w))) ps
        = traverse (\<lambda>(n, sub). ebind (g sub) (\<lambda>w. Inr (n, w))) ps"
    if "k \<in> set property_keys" "v = VDict ps" for ps
    by (rule traverse_cong) (use assms that in \<open>force simp: subschemas_def split: prod.splits\<close>)+
  moreover have "traverse f xs = traverse g xs"
    if "k \<notin> set property_keys" "k \<notin> set subschema_keys" "k \<in> set composition_keys" "v = VList xs" for xs
    by (rule traverse_cong) (use assms that in \<open>auto simp: subschemas_def\<close>)
  ultimately show ?thesis
    using assms by (auto simp: schema_value_def subschemas_def split: pyval.splits)
qed

lemma schema_entry_cong [fundef_cong]:
  "kv = kv' \<Longrightarrow> (\<And>k x. fst kv' = KStr k \<Longrightarrow> x \<in> set (subschemas k (snd kv')) \<Longrightarrow> f x = g x) \<Longrightarrow>
     schema_entry f kv = schema_entry g kv'"
  using schema_value_cong[of _ "snd kv'" f g] by (cases "fst kv'") (simp_all add: schema_entry_def)

function schema :: "(pyval \<Rightarrow> string) \<Rightarrow> pydict \<Rightarrow> string list \<Rightarrow> pyval \<Rightarrow> api_error + pyval" where
  "schema str doc stack (VList xs) = ebind (traverse (schema str doc stack) xs) (\<lambda>ys. Inr (VList ys))"
| "schema str doc stack (VDict d) =
     (case dict_lookup d ''$ref'' of
        Some r \<Rightarrow>
          if str r \<in> set stack then Inr (recursion_note (str r))
          else ebind (lookup_ref doc (str r)) (\<lambda>node.
               ebind (schema str doc (stack @ [str r]) node) (\<lambda>found.
                 case found of
                   VDict t \<Rightarrow>
                     if dict_pop ''$ref'' d = [] then Inr found
                     else ebind (schema str doc stack (VDict (dict_pop ''$ref'' d))) (\<lambda>s.
                            case s of VDict e \<Rightarrow> Inr (VDict (dict_merge t e)) | _ \<Rightarrow> Inl PyRaise)
                 | _ \<Rightarrow> Inr found))
      | None \<Rightarrow>
          ebind (traverse (schema_entry (schema str doc stack)) d) (\<lambda>entries. finish_schema (concat entries)))"
| "schema str doc stack VNone = Inr VNone"
| "schema str doc stack (VBool b) = Inr (VBool b)"
| "schema str doc stack (VInt i) = Inr (VInt i)"
| "schema str doc stack (VFloat f) = Inr (VFloat f)"
| "schema str doc stack (VStr s) = Inr (VStr s)"
  by pat_completeness auto

lemma dict_pop_smaller:
  "dict_lookup d k = Some v \<Longrightarrow> size (VDict (dict_pop k d)) < size (VDict d)"
proof (induction d)
  case Nil
  then show ?case by (simp add: dict_lookup_def)
next
  case (Cons kv d)
  have le: "size (VDict (dict_pop k e)) \<le> size (VDict e)" for e
    by (induction e) (auto simp: dict_pop_def)
  show ?case
  proof (cases "fst kv = KStr k")
    case True
    with le[of d] show ?thesis by (cases kv) (auto simp: dict_pop_def)
  next
    case False
    with Cons have "size (VDict (dict_pop k d)) < size (VDict d)"
      by (cases kv) (auto simp: dict_lookup_def)
    with False show ?thesis by (cases kv) (auto simp: dict_pop_def)
  qed
qed

lemma dict_pop_lookup [simp]: "dict_lookup (dict_pop k d) k = None"
  by (induction d) (auto simp: dict_lookup_def dict_pop_def)

lemma dict_pop_subset: "set (dict_pop k d) \<subseteq> set d"
  by (auto simp: dict_pop_def)

text \<open>Every call follows a new reference or goes down into the node.\<close>

lemma schema_descend:
  assumes "set (doc_refs str v) \<subseteq> set (doc_refs str node)" and "size v < size node"
  shows "((str, doc, stack, v), (str, doc, stack, node))
           \<in> measures [\<lambda>(str, doc, stack, node). open_refs str doc stack node, \<lambda>(str, doc, stack, node). size node]"
  using open_refs_sub[OF assms(1), of doc stack] assms(2) by auto

lemma size_VList_item: "x \<in> set xs \<Longrightarrow> size x < size (VList xs)"
  by (induction xs) auto

lemma subschemas_cases:
  "x \<in> set (subschemas k v) \<Longrightarrow>
     (\<exists>ps n. v = VDict ps \<and> (n, x) \<in> set ps) \<or> x = v \<or> (\<exists>xs. v = VList xs \<and> x \<in> set xs)"
  by (cases "k \<in> set property_keys"; cases "k \<in> set subschema_keys"; cases "k \<in> set composition_keys"; cases v)
     (auto simp: subschemas_def)

lemma subschemas_below:
  assumes "(KStr k, v) \<in> set d" and "x \<in> set (subschemas k v)"
  shows "size x < size (VDict d)" and "set (doc_refs str x) \<subseteq> set (doc_refs str (VDict d))"
proof -
  have v: "size v < size (VDict d)" "set (doc_refs str v) \<subseteq> set (doc_refs str (VDict d))"
    using size_dict_entry[OF assms(1)] doc_refs_entry[OF assms(1)] by auto
  have "(\<exists>ps n. v = VDict ps \<and> (n, x) \<in> set ps) \<or> x = v \<or> (\<exists>xs. v = VList xs \<and> x \<in> set xs)"
    using subschemas_cases[OF assms(2)] .
  then consider ps n where "v = VDict ps" "(n, x) \<in> set ps" | "x = v" | xs where "v = VList xs" "x \<in> set xs"
    by blast
  then have "size x < size (VDict d) \<and> set (doc_refs str x) \<subseteq> set (doc_refs str (VDict d))"
  proof cases
    case 1
    with v size_dict_entry[of n x ps] doc_refs_entry[of n x ps str] show ?thesis by auto
  next
    case 2
    with v show ?thesis by simp
  next
    case 3
    with v size_VList_item[of x xs] doc_refs_item[of x xs str] show ?thesis by auto
  qed
  then show "size x < size (VDict d)" and "set (doc_refs str x) \<subseteq> set (doc_refs str (VDict d))" by auto
qed

termination schema
proof (relation "measures [\<lambda>(str, doc, stack, node). open_refs str doc stack node, \<lambda>(str, doc, stack, node). size node]", goal_cases)
  case 1
  show ?case by simp
next
  case (2 str doc stack xs x)
  then show ?case by (intro schema_descend doc_refs_item size_VList_item)
next
  case (3 str doc stack d kv k x)
  then have "(KStr k, snd kv) \<in> set d" by (metis prod.collapse)
  from subschemas_below[OF this 3(4)] show ?case by (intro schema_descend)
next
  case (4 str doc stack d r node)
  then show ?case using open_refs_follow[of d r str stack doc node "stack @ [str r]"] by simp
next
  case (5 str doc stack d r node found t)
  then show ?case
    by (intro schema_descend doc_refs_sub_dict dict_pop_smaller dict_pop_lookup dict_pop_subset) auto
qed

section \<open>Resolved schemas hold no reference\<close>

text \<open>No reference where a schema is expected: the node, its properties, items and compositions.\<close>

function ref_free :: "pyval \<Rightarrow> bool" where
  "ref_free (VList xs) \<longleftrightarrow> (\<forall>x \<in> set xs. ref_free x)"
| "ref_free (VDict d) \<longleftrightarrow>
     (\<forall>(k, v) \<in> set d. k \<noteq> KStr ''$ref'' \<and> (\<forall>n x. k = KStr n \<longrightarrow> x \<in> set (subschemas n v) \<longrightarrow> ref_free x))"
| "ref_free VNone \<longleftrightarrow> True"
| "ref_free (VBool b) \<longleftrightarrow> True"
| "ref_free (VInt i) \<longleftrightarrow> True"
| "ref_free (VFloat f) \<longleftrightarrow> True"
| "ref_free (VStr s) \<longleftrightarrow> True"
  by pat_completeness auto
termination
  by (relation "measure size") (auto dest: size_VList_item subschemas_below)

definition entry_free :: "pykey \<times> pyval \<Rightarrow> bool" where
  "entry_free = (\<lambda>(k, v). k \<noteq> KStr ''$ref'' \<and> (\<forall>n x. k = KStr n \<longrightarrow> x \<in> set (subschemas n v) \<longrightarrow> ref_free x))"

declare ref_free.simps(2) [simp del]

lemma ref_free_dict: "ref_free (VDict d) \<longleftrightarrow> (\<forall>kv \<in> set d. entry_free kv)"
  by (subst ref_free.simps(2)) (simp only: entry_free_def)

lemmas entry_free_iff = entry_free_def[THEN fun_cong, of "(k, v)" for k v, unfolded prod.case]

lemma set_dict_merge: "set (dict_merge d e) \<subseteq> set d \<union> set e"
  unfolding dict_merge_def
proof (induction e arbitrary: d)
  case Nil
  then show ?case by simp
next
  case (Cons kv e)
  show ?case using Cons.IH[of "AList.update (fst kv) (snd kv) d"] set_update_subset[of "fst kv" "snd kv" d]
    by (cases kv) auto
qed

lemma ref_free_merge:
  "ref_free (VDict d) \<Longrightarrow> ref_free (VDict e) \<Longrightarrow> ref_free (VDict (dict_merge d e))"
  using set_dict_merge[of d e] by (auto simp: ref_free_dict)

lemma ref_free_update:
  "ref_free (VDict d) \<Longrightarrow> entry_free (k, v) \<Longrightarrow> ref_free (VDict (AList.update k v d))"
  using set_update_subset[of k v d] by (auto simp: ref_free_dict)

lemma ref_free_put:
  "ref_free (VDict d) \<Longrightarrow> entry_free (KStr k, v) \<Longrightarrow> ref_free (VDict (dict_put k v d))"
  unfolding dict_put_def by (rule ref_free_update)

lemma ref_free_pop: "ref_free (VDict d) \<Longrightarrow> ref_free (VDict (dict_pop k d))"
  using dict_pop_subset[of k d] by (auto simp: ref_free_dict)

lemma ref_free_lookup: "ref_free (VDict d) \<Longrightarrow> dict_lookup d k = Some v \<Longrightarrow> entry_free (KStr k, v)"
  by (auto simp: ref_free_dict dest: dict_lookup_mem)

lemma entry_free_required: "entry_free (KStr ''required'', v)"
  by (auto simp: entry_free_iff)

lemma merge_properties_free:
  assumes "ref_free (VDict d)" and "dict_get_default d ''properties'' (VDict []) = VDict ps"
    and "entry_free (KStr ''properties'', VDict vs)"
  shows "ref_free (VDict (dict_put ''properties'' (VDict (dict_merge ps vs)) d))"
proof (rule ref_free_put[OF assms(1)])
  have "\<forall>(n, sub) \<in> set ps. ref_free sub"
  proof (cases "dict_lookup d ''properties''")
    case None
    with assms(2) show ?thesis by (simp add: dict_get_default_def)
  next
    case (Some v)
    with assms(2) have "v = VDict ps" by (simp add: dict_get_default_def)
    with ref_free_lookup[OF assms(1) Some] show ?thesis by (force simp: entry_free_iff)
  qed
  moreover have "\<forall>(n, sub) \<in> set vs. ref_free sub"
    using assms(3) by (force simp: entry_free_iff)
  ultimately show "entry_free (KStr ''properties'', VDict (dict_merge ps vs))"
    using set_dict_merge[of ps vs]
    by (fastforce simp: entry_free_iff)
qed

lemma merge_entry_free:
  assumes "ref_free (VDict d)" and "entry_free kv" and "merge_entry d kv = Inr d'"
  shows "ref_free (VDict d')"
  using assms
  by (cases kv)
     (auto simp: merge_entry_def split: pykey.splits pyval.splits bool.splits if_splits
           intro: ref_free_put ref_free_update entry_free_required merge_properties_free)

lemma merge_part_free:
  assumes "ref_free (VDict d)" and "ref_free part" and "merge_part d part = Inr d'"
  shows "ref_free (VDict d')"
proof (cases part)
  case (VDict e)
  with assms(3) have fold: "efold merge_entry d e = Inr d'" by (simp add: merge_part_def)
  show ?thesis
    by (rule efold_invariant[OF fold, where P = "\<lambda>d. ref_free (VDict d)"])
       (use assms VDict ref_free_dict[of e] in \<open>auto intro: merge_entry_free\<close>)
qed (use assms in \<open>auto simp: merge_part_def\<close>)

lemma iter_value_free:
  assumes "entry_free (KStr ''allOf'', v)" and "iter_value v = Inr xs" and "x \<in> set xs"
  shows "ref_free x"
  using assms
  by (cases v) (auto simp: iter_value_def py_iter_def entry_free_iff composition_keys_def split: pykey.splits)

lemma merge_all_of_free:
  assumes "ref_free (VDict d)" and "dict_lookup d ''allOf'' \<noteq> None" and "merge_all_of d = Inr m"
  shows "ref_free (VDict m)"
proof -
  from assms(2) obtain v where v: "dict_lookup d ''allOf'' = Some v" by auto
  from v have get: "dict_get d ''allOf'' = v" by (simp add: dict_get_def)
  from assms(3) obtain parts merged where
    parts: "iter_value v = Inr parts"
    and merged: "efold merge_part [] (parts @ [VDict (dict_pop ''allOf'' d)]) = Inr merged"
    and m: "m = with_object_type merged"
    unfolding merge_all_of_def get by auto
  have "ref_free p" if "p \<in> set (parts @ [VDict (dict_pop ''allOf'' d)])" for p
    using that iter_value_free[OF ref_free_lookup[OF assms(1) v] parts] ref_free_pop[OF assms(1)] by auto
  then have "ref_free (VDict merged)"
    by (intro efold_invariant[OF merged, where P = "\<lambda>d. ref_free (VDict d)"])
       (simp add: ref_free_dict, blast intro: merge_part_free)
  then show ?thesis
    unfolding m with_object_type_def
    by (auto intro!: ref_free_put simp: entry_free_iff)
qed

lemma entry_free_plain:
  "k \<noteq> ''$ref'' \<Longrightarrow> subschemas k v = [] \<Longrightarrow> entry_free (KStr k, v)"
  by (auto simp: entry_free_iff)

lemma null_enum_free: "ref_free (VDict d) \<Longrightarrow> ref_free (VDict (null_enum d))"
  by (auto simp: null_enum_def split: pyval.splits intro!: ref_free_put entry_free_plain)

lemma make_nullable_free:
  assumes "ref_free (VDict d)"
  shows "ref_free (VDict (make_nullable d))"
proof -
  have typed: "ref_free (VDict (null_enum (dict_put ''type'' v d)))" for v
    using assms
    by (auto intro!: null_enum_free ref_free_put entry_free_plain)
  have wrapped: "ref_free (VDict [(KStr ''anyOf'', VList [VDict d, VDict [(KStr ''type'', VStr ''null'')]])])"
    using assms
    by (auto simp: ref_free_dict entry_free_iff)
  show ?thesis
    using assms typed wrapped null_enum_free by (auto simp: make_nullable_def split: pyval.splits)
qed

lemma finish_schema_free:
  assumes "ref_free (VDict d)" and "finish_schema d = Inr s"
  shows "ref_free s"
proof -
  from assms(2) obtain m where m: "m = d \<or> (dict_lookup d ''allOf'' \<noteq> None \<and> merge_all_of d = Inr m)"
    and s: "s = VDict (make_nullable (dict_pop ''nullable'' m)) \<or> s = VDict (dict_pop ''nullable'' m)"
    by (auto simp: finish_schema_def split: if_splits)
  from m have "ref_free (VDict m)" using assms(1) merge_all_of_free by blast
  with s show ?thesis using make_nullable_free ref_free_pop by blast
qed

lemma recursion_note_free: "ref_free (recursion_note ref)"
  unfolding recursion_note_def
  by (auto simp: ref_free_dict intro!: entry_free_plain)

lemma traverse_mem: "traverse f xs = Inr ys \<Longrightarrow> y \<in> set ys \<Longrightarrow> \<exists>x \<in> set xs. f x = Inr y"
  unfolding traverse_Inr_iff by (induction xs ys rule: list_all2_induct) auto

lemma schema_value_free:
  assumes w: "schema_value f k v = Inr w" and "k \<noteq> ''$ref''"
    and sub: "\<And>x y. x \<in> set (subschemas k v) \<Longrightarrow> f x = Inr y \<Longrightarrow> ref_free y"
  shows "entry_free (KStr k, w)"
proof -
  have "ref_free y" if y: "y \<in> set (subschemas k w)" for y
  proof -
    consider (props) ps where "k \<in> set property_keys" "v = VDict ps"
      | (node) e where "k \<notin> set property_keys" "k \<in> set subschema_keys" "v = VDict e"
      | (comp) xs where "k \<notin> set property_keys" "k \<notin> set subschema_keys" "k \<in> set composition_keys" "v = VList xs"
      | (plain) "subschemas k v = []" "w = v"
      using w by (cases v) (auto simp: schema_value_def subschemas_def split: if_splits)
    then show ?thesis
    proof cases
      case props
      with w y obtain qs n where "traverse (\<lambda>(n, sub). ebind (f sub) (\<lambda>w. Inr (n, w))) ps = Inr qs" "(n, y) \<in> set qs"
        by (auto simp: schema_value_def subschemas_def)
      from traverse_mem[OF this] props sub show ?thesis by (force simp: subschemas_def)
    next
      case node
      with w y sub[of v w] show ?thesis
        by (cases w) (auto simp: schema_value_def subschemas_def)
    next
      case comp
      with w y obtain ys where "traverse f xs = Inr ys" "y \<in> set ys"
        by (auto simp: schema_value_def subschemas_def)
      from traverse_mem[OF this] comp sub show ?thesis by (auto simp: subschemas_def)
    next
      case plain
      with y show ?thesis by simp
    qed
  qed
  with assms(2) show ?thesis by (auto simp: entry_free_iff)
qed

lemma schema_entry_free:
  assumes "schema_entry f (k, v) = Inr es" and "k \<noteq> KStr ''$ref''" and "kv \<in> set es"
    and "\<And>n x y. k = KStr n \<Longrightarrow> x \<in> set (subschemas n v) \<Longrightarrow> f x = Inr y \<Longrightarrow> ref_free y"
  shows "entry_free kv"
proof -
  from assms(1,3) obtain n w where "k = KStr n" "schema_value f n v = Inr w" "kv = (KStr n, w)"
    by (auto simp: schema_entry_def split: pykey.splits if_splits)
  with schema_value_free[of f n v w] assms(2,4) show ?thesis by auto
qed

lemma schema_ref_case:
  assumes "(case found of
              VDict t \<Rightarrow>
                if rest = [] then Inr found
                else ebind sib (\<lambda>s. case s of VDict e \<Rightarrow> Inr (VDict (dict_merge t e)) | _ \<Rightarrow> Inl PyRaise)
            | _ \<Rightarrow> Inr found) = Inr s"
    and "ref_free found" and "\<And>t x. found = VDict t \<Longrightarrow> rest \<noteq> [] \<Longrightarrow> sib = Inr x \<Longrightarrow> ref_free x"
  shows "ref_free s"
proof (cases found)
  case (VDict t)
  show ?thesis
  proof (cases "rest = []")
    case False
    with assms(1) VDict obtain x where x: "sib = Inr x"
        "(case x of VDict e \<Rightarrow> Inr (VDict (dict_merge t e)) | _ \<Rightarrow> Inl PyRaise) = Inr s"
      by auto
    then show ?thesis using assms(2) assms(3)[OF VDict False x(1)] VDict
      by (cases x) (auto simp: ref_free_merge)
  qed (use assms VDict in auto)
qed (use assms in auto)

lemma schema_free: "schema str doc stack node = Inr s \<Longrightarrow> ref_free s"
proof (induction str doc stack node arbitrary: s rule: schema.induct)
  case (1 str doc stack xs)
  from "1.prems" obtain ys where ys: "traverse (schema str doc stack) xs = Inr ys" "s = VList ys" by auto
  have "ref_free y" if "y \<in> set ys" for y
    using traverse_mem[OF ys(1) that] "1.IH" by blast
  with ys(2) show ?case by simp
next
  case (2 str doc stack d)
  show ?case
  proof (cases "dict_lookup d ''$ref''")
    case None
    with "2.prems" obtain entries where
      entries: "traverse (schema_entry (schema str doc stack)) d = Inr entries"
      and s: "finish_schema (concat entries) = Inr s"
      by auto
    have "entry_free kv" if "es \<in> set entries" "kv \<in> set es" for es kv
    proof -
      from traverse_mem[OF entries that(1)] obtain k v where
        kv: "(k, v) \<in> set d" "schema_entry (schema str doc stack) (k, v) = Inr es" by auto
      moreover have "k \<noteq> KStr ''$ref''" using None kv(1) by (force simp: dict_lookup_def map_of_eq_None_iff)
      ultimately show ?thesis
        using that(2) "2.IH"(1)[OF None kv(1)] by (elim schema_entry_free) auto
    qed
    then have "ref_free (VDict (concat entries))" by (auto simp: ref_free_dict)
    then show ?thesis using s by (rule finish_schema_free)
  next
    case (Some r)
    show ?thesis
    proof (cases "str r \<in> set stack")
      case True
      with Some "2.prems" show ?thesis by (auto simp: recursion_note_free)
    next
      case False
      with Some "2.prems" obtain node found where
        node: "lookup_ref doc (str r) = Inr node" "schema str doc (stack @ [str r]) node = Inr found"
        and s: "(case found of
                   VDict t \<Rightarrow>
                     if dict_pop ''$ref'' d = [] then Inr found
                     else ebind (schema str doc stack (VDict (dict_pop ''$ref'' d)))
                            (\<lambda>s. case s of VDict e \<Rightarrow> Inr (VDict (dict_merge t e)) | _ \<Rightarrow> Inl PyRaise)
                 | _ \<Rightarrow> Inr found) = Inr s"
        by auto
      from s "2.IH"(2)[OF Some False node] show ?thesis
        by (rule schema_ref_case) (rule "2.IH"(3)[OF Some False node])
    qed
  qed
qed simp_all

end
