(* ===== verification/Tool_Sources.thy ===== *)
theory Tool_Sources
  imports Tool_Policy Retrieval Agent_Output
begin

text \<open>
  Declarations of dynamic tools and the secrets they may use: header specs
  (\<open>src/fabri/tools/http_call.py\<close>), secret references and credential stores
  (\<open>tools/secret_refs.py\<close>, \<open>tools/credential_store.py\<close>), the check of a declaration against a
  policy (\<open>tools/sources.py\<close>).  The environment and the backing stores are parameters, as are
  \<open>urlparse\<close> and \<open>str\<close> of a value that is not a string.
\<close>

section \<open>Header specs\<close>

datatype source_error =
    NotAMapping | BadKind pyval | BadName pyval | ApprovalErr pyval | HeaderErr string | MissingField string
  | BadSchema | BadCallable | McpTarget | KindDenied string | HostDenied string | DeleteDenied
  | ModuleDenied string | RefDenied string

definition env_name_ok :: "string \<Rightarrow> bool" where
  "env_name_ok s \<longleftrightarrow>
     (case s of [] \<Rightarrow> False
      | c # cs \<Rightarrow> (is_alpha c \<or> c = CHR ''_'') \<and> list_all (\<lambda>c. is_alpha c \<or> is_digit_char c \<or> c = CHR ''_'') cs)"

definition has_key :: "pydict \<Rightarrow> string \<Rightarrow> bool" where
  "has_key d k \<longleftrightarrow> dict_lookup d k \<noteq> None"

definition count_char :: "char \<Rightarrow> string \<Rightarrow> nat" where
  "count_char c s = length (filter (\<lambda>x. x = c) s)"

definition header_spec_ok :: "(pyval \<Rightarrow> string) \<Rightarrow> pyval \<Rightarrow> bool" where
  "header_spec_ok str spec \<longleftrightarrow>
     (case spec of
        VStr _ \<Rightarrow> True
      | VDict d \<Rightarrow>
          length (filter (has_key d) [''secret_ref'', ''env'', ''value'']) = 1
          \<and> (has_key d ''env'' \<longrightarrow> env_name_ok (str (dict_get d ''env'')))
          \<and> (has_key d ''secret_ref'' \<longrightarrow> count_char CHR '':'' (str (dict_get d ''secret_ref'')) = 1)
          \<and> list_all (\<lambda>k. k \<in> KStr ` {''secret_ref'', ''env'', ''value'', ''prefix''}) (map fst d)
      | _ \<Rightarrow> False)"

definition check_header_specs :: "(pyval \<Rightarrow> string) \<Rightarrow> pyval \<Rightarrow> source_error + unit" where
  "check_header_specs str specs =
     (if \<not> truthy specs then Inr ()
      else case specs of
             VDict d \<Rightarrow>
               (case List.find (\<lambda>(_, spec). \<not> header_spec_ok str spec) d of
                  None \<Rightarrow> Inr () | Some (k, _) \<Rightarrow> Inl (HeaderErr (key_str k)))
           | _ \<Rightarrow> Inl (HeaderErr []))"

definition refs_of :: "(pyval \<Rightarrow> string) \<Rightarrow> pyval \<Rightarrow> string list" where
  "refs_of str specs =
     (case specs of
        VDict d \<Rightarrow>
          List.map_filter
            (\<lambda>(_, spec). case spec of
               VDict s \<Rightarrow> map_option str (dict_lookup s ''secret_ref'') | _ \<Rightarrow> None) d
      | _ \<Rightarrow> [])"

definition secret_refs :: "(pyval \<Rightarrow> string) \<Rightarrow> pydict \<Rightarrow> string list" where
  "secret_refs str decl = refs_of str (dict_get decl ''headers'') @ refs_of str (dict_get decl ''env'')"

section \<open>Credentials\<close>

text \<open>A failed lookup, with the text the exception carries where it depends on the case.\<close>

datatype credential_error =
    CredentialNotFound string | CredentialScope string string | MalformedRef string

datatype audit_result = Resolved | Denied | Missing

type_synonym audit = "(string \<times> string \<times> audit_result) list"

text \<open>A store answers a provider and a handle; a lookup may append to the audit log.\<close>

type_synonym credential_store = "string \<Rightarrow> string \<Rightarrow> audit \<Rightarrow> (credential_error + string) \<times> audit"

definition env_part :: "string \<Rightarrow> string" where
  "env_part s = map (\<lambda>c. upper_char (if is_alpha c \<or> is_digit_char c then c else CHR ''_'')) s"

definition credential_env_var :: "string \<Rightarrow> string \<Rightarrow> string" where
  "credential_env_var provider handle = ''FABRI_CRED_'' @ env_part provider @ ''_'' @ env_part handle"

text \<open>The environment-backed store; an unset and an empty variable are the same.\<close>

definition env_store :: "(string \<Rightarrow> string option) \<Rightarrow> credential_store" where
  "env_store env provider handle trail =
     (let var = credential_env_var provider handle;
          missing = Inl (CredentialNotFound (''Credential is unavailable; set environment variable '' @ var))
      in (case env var of None \<Rightarrow> missing | Some v \<Rightarrow> if v = [] then missing else Inr v, trail))"

text \<open>
  The install database, when its file exists: the Slack and Linear tokens it holds by handle
  (their storage and refresh are behind the two functions).  A workspace handle never falls
  back to another store.
\<close>

record installs =
  in_slack :: "string \<Rightarrow> string option"
  in_linear :: "string \<Rightarrow> string option"

definition install_token :: "string \<Rightarrow> string option \<Rightarrow> credential_error + string" where
  "install_token what token =
     (case token of
        Some t \<Rightarrow> if t = [] then Inl (CredentialNotFound (''no '' @ what @ '' install for this workspace'')) else Inr t
      | None \<Rightarrow> Inl (CredentialNotFound (''no '' @ what @ '' install for this workspace'')))"

definition install_store :: "installs option \<Rightarrow> credential_store \<Rightarrow> credential_store" where
  "install_store db fallback provider handle trail =
     (case db of
        Some d \<Rightarrow>
          if provider = ''slack'' \<and> handle \<noteq> ''default'' then (install_token ''Slack'' (in_slack d handle), trail)
          else if provider = ''linear'' \<and> handle \<noteq> ''default''
          then (install_token ''Linear'' (in_linear d handle), trail)
          else fallback provider handle trail
      | None \<Rightarrow> fallback provider handle trail)"

definition scope_allows :: "string list option \<Rightarrow> string \<Rightarrow> string \<Rightarrow> bool" where
  "scope_allows grants provider handle \<longleftrightarrow> granted grants (provider @ '':'' @ handle)"

definition audit_line :: "bool \<Rightarrow> string \<Rightarrow> string \<Rightarrow> audit_result \<Rightarrow> audit \<Rightarrow> audit" where
  "audit_line audited provider handle result trail =
     (if audited then trail @ [(provider, handle, result)] else trail)"

text \<open>\<open>ScopedCredentialStore.get\<close>; \<open>audited\<close> tells whether it was given an audit path.\<close>

definition scoped_store :: "credential_store \<Rightarrow> string list option \<Rightarrow> bool \<Rightarrow> credential_store" where
  "scoped_store st grants audited provider handle trail =
     (if \<not> scope_allows grants provider handle
      then (Inl (CredentialScope provider handle), audit_line audited provider handle Denied trail)
      else case st provider handle trail of
             (Inl e, t) \<Rightarrow> (Inl e, audit_line audited provider handle Missing t)
           | (Inr v, t) \<Rightarrow> (Inr v, audit_line audited provider handle Resolved t))"

text \<open>
  \<open>default_credential_store\<close>: \<open>db\<close> is \<open>None\<close> unless \<open>FABRI_INSTALL_DB\<close> names a file, and
  \<open>audited\<close> tells whether \<open>FABRI_CRED_AUDIT_LOG\<close> is set.
\<close>

definition default_store :: "(string \<Rightarrow> string option) \<Rightarrow> installs option \<Rightarrow> bool \<Rightarrow> credential_store" where
  "default_store env db audited =
     (let st = install_store db (env_store env) in if audited then scoped_store st None True else st)"

text \<open>\<open>ref.split(":", 1)\<close> of a reference with one colon.\<close>

definition split_ref :: "string \<Rightarrow> credential_error + string \<times> string" where
  "split_ref ref =
     (if count_char CHR '':'' ref \<noteq> 1
      then Inl (MalformedRef ''Credential reference must have the form provider:handle'')
      else let provider = takeWhile (\<lambda>c. c \<noteq> CHR '':'') ref; handle = drop (Suc (length provider)) ref
           in if provider = [] \<or> handle = []
              then Inl (MalformedRef ''Credential reference requires a non-empty provider and handle'')
              else Inr (provider, handle))"

definition resolve_secret :: "credential_store \<Rightarrow> string \<Rightarrow> audit \<Rightarrow> (credential_error + string) \<times> audit" where
  "resolve_secret st ref trail =
     (case split_ref ref of
        Inl e \<Rightarrow> (Inl e, trail)
      | Inr (provider, handle) \<Rightarrow> st provider handle trail)"

section \<open>Declarations\<close>

definition tool_name_ok :: "string \<Rightarrow> bool" where
  "tool_name_ok s \<longleftrightarrow>
     (case s of [] \<Rightarrow> False
      | c # cs \<Rightarrow> (is_alpha c \<or> c = CHR ''_'') \<and> length cs \<le> 63
                  \<and> list_all (\<lambda>c. is_alpha c \<or> is_digit_char c \<or> c = CHR ''_'' \<or> c = CHR ''-'') cs)"

text \<open>\<open>[A-Za-z_][\w.]*(:[A-Za-z_]\w*)?\<close>\<close>

definition callable_ok :: "string \<Rightarrow> bool" where
  "callable_ok s \<longleftrightarrow>
     (let start = (\<lambda>t. case t of [] \<Rightarrow> False | c # _ \<Rightarrow> is_alpha c \<or> c = CHR ''_'');
          modl = takeWhile (\<lambda>c. word_char c \<or> c = CHR ''.'') s; rest = drop (length modl) s
      in start s
         \<and> (case rest of [] \<Rightarrow> True
            | c # attr \<Rightarrow> c = CHR '':'' \<and> start attr \<and> list_all word_char attr))"

definition check_schema :: "pyval \<Rightarrow> source_error + unit" where
  "check_schema schema =
     (case schema of
        VNone \<Rightarrow> Inr ()
      | VDict d \<Rightarrow>
          if \<not> py_eq (dict_get_default d ''type'' (VStr ''object'')) (VStr ''object'') then Inl BadSchema
          else if has_key d ''properties'' \<and> \<not> is_dict (dict_get d ''properties'') then Inl BadSchema
          else if has_key d ''required'' \<and> \<not> is_list (dict_get d ''required'') then Inl BadSchema
          else Inr ()
      | _ \<Rightarrow> Inl BadSchema)"

definition common_keys :: "string list" where
  "common_keys = [''kind'', ''name'', ''description'', ''approval'', ''enabled'', ''timeout_s'', ''version'', ''title'']"

definition kind_keys :: "string \<Rightarrow> string list" where
  "kind_keys kind =
     (if kind = ''openapi''
      then [''spec'', ''base_url'', ''allow'', ''deny'', ''methods'', ''tags'', ''headers'', ''dry_run_header'',
            ''description_cap'', ''naming'', ''names'', ''strip_prefixes'']
      else if kind = ''http'' then [''url'', ''method'', ''input_schema'', ''headers'', ''dry_run_header'']
      else if kind = ''mcp'' then [''command'', ''url'', ''env'', ''headers'']
      else [''callable'', ''input_schema''])"

definition guard :: "bool \<Rightarrow> source_error \<Rightarrow> source_error + unit" where
  "guard ok e = (if ok then Inr () else Inl e)"

definition check_decl_approval :: "pyval \<Rightarrow> source_error + unit" where
  "check_decl_approval v =
     (case v of
        VNone \<Rightarrow> Inr ()
      | VDict d \<Rightarrow>
          (case List.find (\<lambda>(_, a). check_approval a = None) d of
             None \<Rightarrow> Inr () | Some (_, a) \<Rightarrow> Inl (ApprovalErr a))
      | a \<Rightarrow> guard (check_approval a \<noteq> None) (ApprovalErr a))"

text \<open>What each kind requires of a declaration, policy aside.\<close>

definition check_decl_shape :: "pydict \<Rightarrow> string \<Rightarrow> source_error + unit" where
  "check_decl_shape decl kind =
     (if kind = ''openapi'' then guard (truthy (dict_get decl ''spec'')) (MissingField ''spec'')
      else if kind = ''http''
      then ebind (guard (truthy (dict_get decl ''url'')) (MissingField ''url''))
             (\<lambda>_. check_schema (dict_get decl ''input_schema''))
      else if kind = ''python''
      then ebind (guard (case dict_get decl ''callable'' of VStr t \<Rightarrow> callable_ok t | _ \<Rightarrow> False) BadCallable)
             (\<lambda>_. check_schema (dict_get decl ''input_schema''))
      else guard (truthy (dict_get decl ''command'') \<noteq> truthy (dict_get decl ''url'')) McpTarget)"

text \<open>
  The policy's part.  \<open>check_host\<close> passes a missing or empty URL; a URL that is not a string is
  read as its text.
\<close>

definition check_url ::
  "(string \<Rightarrow> string option) \<Rightarrow> (pyval \<Rightarrow> string) \<Rightarrow> tool_policy \<Rightarrow> pyval \<Rightarrow> source_error + unit" where
  "check_url hostname str p url =
     guard (\<not> truthy url \<or> host_allowed hostname p (str url)) (HostDenied (str url))"

definition check_decl_hosts ::
  "(string \<Rightarrow> string option) \<Rightarrow> (pyval \<Rightarrow> string) \<Rightarrow> tool_policy \<Rightarrow> pydict \<Rightarrow> string
     \<Rightarrow> source_error + unit" where
  "check_decl_hosts hostname str p decl kind =
     (if kind \<in> {''http'', ''mcp''} then check_url hostname str p (dict_get decl ''url'')
      else if kind = ''openapi''
      then ebind (check_url hostname str p (dict_get decl ''base_url''))
             (\<lambda>_. case dict_get decl ''spec'' of
                    VStr s \<Rightarrow> if starts_with ''http://'' s \<or> starts_with ''https://'' s
                              then check_url hostname str p (VStr s) else Inr ()
                  | _ \<Rightarrow> Inr ())
      else Inr ())"

definition http_method :: "(pyval \<Rightarrow> string) \<Rightarrow> pydict \<Rightarrow> string" where
  "http_method str decl =
     map upper_char (if truthy (dict_get decl ''method'') then str (dict_get decl ''method'') else ''GET'')"

definition check_decl_policy ::
  "(string \<Rightarrow> string option) \<Rightarrow> (pyval \<Rightarrow> string) \<Rightarrow> tool_policy \<Rightarrow> pydict \<Rightarrow> string \<Rightarrow> string
     \<Rightarrow> source_error + unit" where
  "check_decl_policy hostname str p decl kind name =
     ebind (guard (kind_allowed p kind) (KindDenied kind)) (\<lambda>_.
     ebind (check_decl_hosts hostname str p decl kind) (\<lambda>_.
     ebind (guard (kind = ''http'' \<and> http_method str decl = ''DELETE'' \<longrightarrow> tp_allow_delete p) DeleteDenied) (\<lambda>_.
     ebind (guard (kind = ''python'' \<longrightarrow> module_allowed p (str (dict_get decl ''callable'')))
              (ModuleDenied (str (dict_get decl ''callable'')))) (\<lambda>_.
       case List.find (\<lambda>ref. \<not> granted (grants_for p name) ref) (secret_refs str decl) of
         None \<Rightarrow> Inr () | Some ref \<Rightarrow> Inl (RefDenied ref)))))"

definition validate_source_decl ::
  "(string \<Rightarrow> string option) \<Rightarrow> (pyval \<Rightarrow> string) \<Rightarrow> pyval \<Rightarrow> tool_policy option
     \<Rightarrow> source_error + string list" where
  "validate_source_decl hostname str data policy =
     (case data of
        VDict decl \<Rightarrow>
          (case (dict_get decl ''kind'', dict_get decl ''name'') of
             (VStr kind, nm) \<Rightarrow>
               if kind \<notin> set source_kinds then Inl (BadKind (VStr kind))
               else (case nm of
                       VStr name \<Rightarrow>
                         if \<not> tool_name_ok name then Inl (BadName nm)
                         else ebind (check_decl_approval (dict_get decl ''approval'')) (\<lambda>_.
                              ebind (check_header_specs str (dict_get decl ''headers'')) (\<lambda>_.
                              ebind (check_header_specs str (dict_get decl ''env'')) (\<lambda>_.
                              ebind (check_decl_shape decl kind) (\<lambda>_.
                              ebind (case policy of None \<Rightarrow> Inr ()
                                     | Some p \<Rightarrow> check_decl_policy hostname str p decl kind name) (\<lambda>_.
                                Inr (map key_str
                                       (filter (\<lambda>k. k \<notin> KStr ` set (common_keys @ kind_keys kind)) (map fst decl))))))))
                     | _ \<Rightarrow> Inl (BadName nm))
           | (k, _) \<Rightarrow> Inl (BadKind k))
      | _ \<Rightarrow> Inl NotAMapping)"

end
