(* ===== verification/OpenApi_Names.thy ===== *)
theory OpenApi_Names
  imports OpenApi_Schema Tool_Sources
begin

text \<open>
  The readable tool names of an OpenAPI document (\<open>src/fabri/tools/openapi.py\<close>, naming): a
  resource and an action read off the method and the path, clipped to 64 characters.  The
  regular expressions of \<open>snake_case\<close> are written out as scans; the last one, which squeezes
  runs of underscores, is subsumed by the one before it.
\<close>

section \<open>Words\<close>

definition is_alnum :: "char \<Rightarrow> bool" where
  "is_alnum c \<longleftrightarrow> is_alpha c \<or> is_digit_char c"

definition is_lower :: "char \<Rightarrow> bool" where
  "is_lower c = (let n = (of_char c :: nat) in 97 \<le> n \<and> n \<le> 122)"

text \<open>\<open>re.sub(r"([A-Z]+)([A-Z][a-z])", r"\1_\2", s)\<close>.\<close>

fun split_acronym :: "string \<Rightarrow> string" where
  "split_acronym (a # b # c # s) =
     (if is_upper a \<and> is_upper b \<and> is_lower c then a # CHR ''_'' # split_acronym (b # c # s)
      else a # split_acronym (b # c # s))"
| "split_acronym s = s"

text \<open>Every run of other characters becomes one underscore.\<close>

fun squeeze :: "bool \<Rightarrow> string \<Rightarrow> string" where
  "squeeze in_run [] = []"
| "squeeze in_run (c # s) =
     (if is_alnum c then c # squeeze False s
      else if in_run then squeeze True s else CHR ''_'' # squeeze True s)"

definition strip_char :: "char \<Rightarrow> string \<Rightarrow> string" where
  "strip_char c s = dropWhile (\<lambda>x. x = c) (rstrip_char c s)"

definition snake_case :: "string \<Rightarrow> string" where
  "snake_case s = lower (strip_char CHR ''_'' (squeeze False (split_acronym (split_camel s))))"

definition ends_with :: "string \<Rightarrow> string \<Rightarrow> bool" where
  "ends_with t s \<longleftrightarrow> length t \<le> length s \<and> drop (length s - length t) s = t"

definition singular :: "string \<Rightarrow> string" where
  "singular w =
     (let l = lower w
      in if ends_with ''ies'' l \<and> 3 < length l then take (length w - 3) w @ ''y''
         else if list_ex (\<lambda>t. ends_with (t @ ''es'') l) [''ss'', ''x'', ''z'', ''ch'', ''sh'']
         then take (length w - 2) w
         else if list_ex (\<lambda>t. ends_with t l) [''ss'', ''us'', ''is''] \<or> \<not> ends_with ''s'' l \<or> length l \<le> 3 then w
         else take (length w - 1) w)"

definition is_param :: "string \<Rightarrow> bool" where
  "is_param seg \<longleftrightarrow> starts_with ''{'' seg \<and> ends_with ''}'' seg"

text \<open>\<open>^v\d+(\.\d+)*$\<close>, any case; \<open>$\<close> also matches before a final newline.\<close>

definition version_seg :: "string \<Rightarrow> bool" where
  "version_seg s \<longleftrightarrow>
     (case s of [] \<Rightarrow> False
      | c # r \<Rightarrow>
          lower_char c = CHR ''v''
          \<and> list_all (\<lambda>p. p \<noteq> [] \<and> list_all is_digit_char p)
              (split_on CHR ''.'' (if ends_with [CHR 0x0A] r then butlast r else r)))"

section \<open>Resource and action\<close>

definition collection_action :: "string \<Rightarrow> string" where
  "collection_action m =
     (if m = ''get'' then ''list'' else if m = ''post'' then ''create'' else if m = ''put'' then ''replace''
      else if m = ''patch'' then ''update'' else m)"

definition item_action :: "string \<Rightarrow> string" where
  "item_action m =
     (if m = ''post'' then ''update'' else if m = ''put'' then ''replace''
      else if m = ''patch'' then ''update'' else m)"

text \<open>\<open>next(iter(tags), "") or "root"\<close>.\<close>

definition first_tag :: "pyval \<Rightarrow> api_error + string" where
  "first_tag tags =
     (if \<not> truthy tags then Inr ''root''
      else ebind (iter_value tags)
             (\<lambda>ts. case ts of
                     [] \<Rightarrow> Inr ''root''
                   | t # _ \<Rightarrow> if \<not> truthy t then Inr ''root''
                              else (case t of VStr s \<Rightarrow> Inr s | _ \<Rightarrow> Inl PyRaise)))"

text \<open>The owner of a last segment: the static segment closest to it on its left.\<close>

definition owner_of :: "string list \<Rightarrow> nat list \<Rightarrow> string" where
  "owner_of segs idx = singular (snake_case (if idx = [] then ''item'' else segs ! last idx))"

definition segment_parts :: "string \<Rightarrow> string list \<Rightarrow> string \<times> string" where
  "segment_parts m segs =
     (let n = length segs; statics = filter (\<lambda>i. \<not> is_param (segs ! i)) [0..<n]
      in if is_param (last segs) then (owner_of segs statics, item_action m)
         else let word = snake_case (last segs)
              in if 2 \<le> n \<and> is_param (segs ! (n - 2))
                 then let owner = owner_of segs (filter (\<lambda>i. i < n - 2) statics)
                      in if singular word \<noteq> word then (owner @ ''_'' @ singular word, collection_action m)
                         else (owner, word)
                 else if 2 \<le> n \<and> singular word = word \<and> m = ''post''
                 then (singular (snake_case (segs ! (n - 2))), word)
                 else (singular word, collection_action m))"

definition path_segments :: "string list \<Rightarrow> string \<Rightarrow> string list" where
  "path_segments strips path =
     (let strip = map (\<lambda>s. strip_char CHR ''/'' (lower s)) strips
      in filter (\<lambda>s. \<not> (lower s \<in> set strip \<or> version_seg s))
           (filter (\<lambda>s. s \<noteq> []) (split_on CHR ''/'' (strip_char CHR ''/'' path))))"

definition readable_parts ::
  "string \<Rightarrow> string \<Rightarrow> pyval \<Rightarrow> string list \<Rightarrow> api_error + string \<times> string" where
  "readable_parts verb path tags strips =
     (let m = lower verb; segs = path_segments strips path
      in if segs = []
         then ebind (first_tag tags)
                (\<lambda>t. let r = singular (snake_case t)
                     in Inr (if r = [] then ''root'' else r, collection_action m))
         else Inr (segment_parts m segs))"

definition name_max :: nat where "name_max = 64"

definition clip_name :: "string \<Rightarrow> string" where
  "clip_name name =
     (let s = snake_case name
      in rstrip_char CHR ''_'' (take name_max (if s = [] then ''op'' else s)))"

definition fallback_operation_id :: "string \<Rightarrow> string \<Rightarrow> string" where
  "fallback_operation_id m path = clip_name (m @ ''_'' @ path)"

section \<open>Unique names\<close>

text \<open>A name cut to make room for four hexadecimal digits of a digest.\<close>

definition suffixed :: "(string \<Rightarrow> string) \<Rightarrow> string \<Rightarrow> string \<Rightarrow> string" where
  "suffixed digest base key = take (name_max - 5) base @ ''_'' @ take 4 (digest key)"

fun unique_names :: "(string \<Rightarrow> string) \<Rightarrow> string list \<Rightarrow> (string \<times> string \<times> string) list \<Rightarrow> string list" where
  "unique_names digest seen [] = []"
| "unique_names digest seen ((verb, path, base) # rest) =
     (if base \<in> set seen then suffixed digest base (map upper_char verb @ '' '' @ path) else base)
     # unique_names digest (base # seen) rest"

section \<open>The alphabet of a name\<close>

definition name_char :: "char \<Rightarrow> bool" where
  "name_char c \<longleftrightarrow> is_lower c \<or> is_digit_char c \<or> c = CHR ''_''"

definition readable_name :: "string \<Rightarrow> bool" where
  "readable_name s \<longleftrightarrow> s \<noteq> [] \<and> length s \<le> name_max \<and> list_all name_char s"

lemma squeeze_chars: "c \<in> set (squeeze r s) \<Longrightarrow> is_alnum c \<or> c = CHR ''_''"
  by (induction r s rule: squeeze.induct) (auto split: if_splits)

lemma lower_alnum: "is_alnum c \<or> c = CHR ''_'' \<Longrightarrow> name_char (lower_char c)"
proof (elim disjE)
  assume "is_alnum c"
  then show ?thesis
    unfolding is_alnum_def is_alpha_def is_digit_char_def lower_char_def name_char_def is_lower_def Let_def
    by auto
next
  assume "c = CHR ''_''"
  then show ?thesis by (simp add: name_char_def lower_char_def)
qed

lemma rstrip_char_subset: "set (rstrip_char c s) \<subseteq> set s"
  by (auto simp: rstrip_char_def dest: set_dropWhileD)

lemma rstrip_char_hd:
  assumes "s \<noteq> []" and "hd s \<noteq> c"
  shows "rstrip_char c s \<noteq> []" and "hd (rstrip_char c s) = hd s"
proof -
  have "rstrip_char c s \<noteq> [] \<and> hd (rstrip_char c s) = hd s"
    using assms
  proof (induction s rule: rev_induct)
    case (snoc x xs)
    show ?case
    proof (cases "x = c \<and> xs \<noteq> []")
      case True
      with snoc show ?thesis by (auto simp: rstrip_char_def)
    next
      case False
      with snoc.prems show ?thesis by (auto simp: rstrip_char_def)
    qed
  qed simp
  then show "rstrip_char c s \<noteq> []" and "hd (rstrip_char c s) = hd s" by auto
qed

lemma length_rstrip_char: "length (rstrip_char c s) \<le> length s"
  by (simp add: rstrip_char_def) (metis length_dropWhile_le length_rev)

lemma snake_case_chars: "list_all name_char (snake_case s)"
proof -
  have "is_alnum c \<or> c = CHR ''_''" if "c \<in> set (strip_char CHR ''_'' (squeeze False t))" for c t
    using that rstrip_char_subset[of "CHR ''_''" "squeeze False t"] squeeze_chars[of c False t]
    by (auto simp: strip_char_def dest!: set_dropWhileD)
  then show ?thesis by (auto simp: snake_case_def lower_def list_all_iff intro!: lower_alnum)
qed

lemma lower_underscore: "lower_char c = CHR ''_'' \<Longrightarrow> c = CHR ''_''"
  by (auto simp: lower_char_def Let_def split: if_splits dest: arg_cong[where f = "of_char :: char \<Rightarrow> nat"])

lemma snake_case_hd: "snake_case s \<noteq> [] \<Longrightarrow> hd (snake_case s) \<noteq> CHR ''_''"
  unfolding snake_case_def lower_def strip_char_def
  using hd_dropWhile[of "\<lambda>x. x = CHR ''_''"] by (auto simp: hd_map dest!: lower_underscore)

lemma clip_name_readable: "readable_name (clip_name name)"
proof -
  define s where "s = (if snake_case name = [] then ''op'' else snake_case name)"
  have s: "s \<noteq> []" "hd s \<noteq> CHR ''_''" "list_all name_char s"
    using snake_case_hd[of name] snake_case_chars[of name]
    by (auto simp: s_def name_char_def is_lower_def)
  then have "take name_max s \<noteq> []" "hd (take name_max s) \<noteq> CHR ''_''" by (auto simp: name_max_def)
  from rstrip_char_hd[OF this] rstrip_char_subset[of "CHR ''_''" "take name_max s"]
    length_rstrip_char[of "CHR ''_''" "take name_max s"] s(3)
  have "readable_name (rstrip_char CHR ''_'' (take name_max s))"
    by (auto simp: readable_name_def list_all_iff dest: in_set_takeD)
  then show ?thesis by (simp add: clip_name_def Let_def s_def)
qed

text \<open>A digest in hexadecimal, as \<open>hexdigest\<close> writes it.\<close>

definition hex_digest :: "(string \<Rightarrow> string) \<Rightarrow> bool" where
  "hex_digest digest \<longleftrightarrow> (\<forall>s. list_all name_char (digest s))"

lemma suffixed_readable:
  "hex_digest digest \<Longrightarrow> readable_name base \<Longrightarrow> readable_name (suffixed digest base key)"
  by (auto simp: suffixed_def readable_name_def name_max_def hex_digest_def list_all_iff name_char_def
           dest: in_set_takeD)

lemma unique_names_readable:
  assumes "hex_digest digest" and "\<forall>(verb, path, base) \<in> set rs. readable_name base"
    and "n \<in> set (unique_names digest seen rs)"
  shows "readable_name n"
  using assms
  by (induction digest seen rs rule: unique_names.induct)
     (auto simp: suffixed_readable split: if_splits)

end
