(* ===== verification/OpenApi.thy ===== *)
theory OpenApi
  imports OpenApi_Names
begin

text \<open>
  Operations of an OpenAPI document (\<open>src/fabri/tools/openapi.py\<close>): parameters, request body,
  responses, descriptions and approval classes, the tool each operation becomes, and the
  selection by allow, deny, method and tag lists.  The digest behind unique names
  (\<open>hashlib.sha1\<close>) and \<open>str\<close> of a value that is not a string are parameters.
\<close>

section \<open>Reasons and descriptions\<close>

definition reason_keys :: "string list" where
  "reason_keys = [''reason'', ''code'', ''error'', ''error_code'', ''reason_code'']"

text \<open>\<open>(v or {}).items()\<close> and \<open>v or []\<close> of a value that may be missing.\<close>

definition items_or_empty :: "pyval \<Rightarrow> api_error + pydict" where
  "items_or_empty v = (if \<not> truthy v then Inr [] else case v of VDict d \<Rightarrow> Inr d | _ \<Rightarrow> Inl PyRaise)"

definition list_or_empty :: "pyval \<Rightarrow> api_error + pyval list" where
  "list_or_empty v = (if \<not> truthy v then Inr [] else iter_value v)"

text \<open>The recursion stops four levels down.\<close>

primrec reason_enums :: "(pyval \<Rightarrow> string) \<Rightarrow> nat \<Rightarrow> pyval \<Rightarrow> api_error + string list" where
  "reason_enums str 0 v = Inr []"
| "reason_enums str (Suc n) v =
     (case v of
        VDict s \<Rightarrow>
          ebind (items_or_empty (dict_get s ''properties'')) (\<lambda>props.
          ebind (traverse (\<lambda>(name, sub).
                   case sub of
                     VDict e \<Rightarrow>
                       ebind (reason_enums str n sub) (\<lambda>below.
                         Inr ((case dict_get e ''enum'' of
                                 VList vs \<Rightarrow> if name \<in> KStr ` set reason_keys
                                             then map str (filter (\<lambda>x. x \<noteq> VNone) vs) else []
                               | _ \<Rightarrow> []) @ below))
                   | _ \<Rightarrow> Inr []) props) (\<lambda>own.
          ebind (list_or_empty (dict_get s ''oneOf'')) (\<lambda>ones.
          ebind (traverse (reason_enums str n) ones) (\<lambda>one.
          ebind (list_or_empty (dict_get s ''anyOf'')) (\<lambda>anys.
          ebind (traverse (reason_enums str n) anys) (\<lambda>any.
          ebind (if is_dict (dict_get s ''items'') then reason_enums str n (dict_get s ''items'') else Inr [])
            (\<lambda>its. Inr (first_occurrences (concat own @ concat one @ concat any @ its)))))))))
      | _ \<Rightarrow> Inr [])"

text \<open>A response: its code, description and reasons.\<close>

type_synonym response = "string \<times> string \<times> string list"

definition is_digit_text :: "string \<Rightarrow> bool" where
  "is_digit_text c \<longleftrightarrow> (case c of [] \<Rightarrow> False | x # _ \<Rightarrow> is_digit_char x \<or> (of_char x :: nat) \<in> {178, 179, 185})"

text \<open>Sorted with the codes that start with a digit first.\<close>

definition responses_line :: "response list \<Rightarrow> string" where
  "responses_line rs =
     (if rs = [] then []
      else let sorted_rs = sort_key fst (filter (is_digit_text \<circ> fst) rs)
                             @ sort_key fst (filter (\<lambda>r. \<not> is_digit_text (fst r)) rs);
               part = (\<lambda>(code, _, reasons).
                         if reasons = [] then code else code @ '' (reason: '' @ join ''|'' reasons @ '')'')
           in ''Responses: '' @ join '', '' (map part sorted_rs) @ ''.'')"

definition cut_text :: "string \<Rightarrow> int \<Rightarrow> string" where
  "cut_text s cap =
     (if int (length s) \<le> cap then s else rstrip (take (nat (cap - 3)) s) @ ''...'')"

definition compose_description ::
  "string \<Rightarrow> string \<Rightarrow> response list \<Rightarrow> string \<Rightarrow> int \<Rightarrow> string" where
  "compose_description summary detail responses fallback cap =
     (let summary = strip summary; detail = strip detail;
          pieces = (if summary \<noteq> [] then [summary] else [])
                   @ (if detail \<noteq> [] \<and> (summary = [] \<or> \<not> starts_with summary detail) then [detail] else []);
          body = (let b = join [CHR 0x0A, CHR 0x0A] pieces in if b = [] then fallback else b);
          tail = responses_line responses; room = cap - int (length tail) - 1
      in if tail = [] then cut_text body cap
         else if room < 40 then cut_text (body @ [CHR 0x0A] @ tail) cap
         else cut_text body room @ [CHR 0x0A] @ tail)"

section \<open>Content types\<close>

definition ct_char :: "char \<Rightarrow> bool" where
  "ct_char c \<longleftrightarrow> is_alnum c \<or> c \<in> {CHR ''.'', CHR ''+'', CHR ''-''}"

text \<open>\<open>^application/([a-z0-9.+-]*\+)?json\<close>, any case.\<close>

definition json_type :: "string \<Rightarrow> bool" where
  "json_type ct \<longleftrightarrow>
     (let l = lower ct; r = drop (length ''application/'') l
      in starts_with ''application/'' l
         \<and> (starts_with ''json'' r
            \<or> list_ex (\<lambda>i. list_all ct_char (take i r) \<and> starts_with ''+json'' (drop i r)) [0..<length r]))"

definition form_type :: string where "form_type = ''application/x-www-form-urlencoded''"

definition pick_content :: "pyval \<Rightarrow> api_error + (string \<times> pyval) option" where
  "pick_content content =
     ebind (items_or_empty content) (\<lambda>d.
       if list_all (\<lambda>(k, _). case k of KStr _ \<Rightarrow> True | _ \<Rightarrow> False) d
       then let entries = map (\<lambda>(k, v). (key_str k, v)) d
            in Inr (case List.find (json_type \<circ> fst) entries of
                      Some e \<Rightarrow> Some e
                    | None \<Rightarrow> List.find (starts_with form_type \<circ> fst) entries)
       else Inl PyRaise)"

text \<open>\<open>(media or {}).get("schema") or dflt\<close>.\<close>

definition media_schema :: "pyval \<Rightarrow> pydict \<Rightarrow> api_error + pyval" where
  "media_schema media dflt =
     ebind (items_or_empty media) (\<lambda>m.
       Inr (if truthy (dict_get m ''schema'') then dict_get m ''schema'' else VDict dflt))"

section \<open>Operations\<close>

record api_param =
  ap_name :: string
  ap_location :: string
  ap_required :: bool
  ap_schema :: pydict
  ap_description :: string

datatype body_mode = MergeBody | WrapBody

record operation =
  op_name :: string
  op_operation_id :: string
  op_method :: string
  op_path :: string
  op_resource :: string
  op_action :: string
  op_summary :: string
  op_text :: string
  op_description :: string
  op_input_schema :: pyval
  op_approval :: approval
  op_tags :: "string list"
  op_params :: "api_param list"
  op_body_mode :: "body_mode option"
  op_body_keys :: "pykey list"
  op_body_required :: bool
  op_body_schema :: "pydict option"
  op_body_content_type :: string
  op_responses :: "response list"
  op_probe_safe :: bool
  op_aliases :: "string list"
  op_safe_approval :: approval

definition op_manifest :: "rat \<Rightarrow> operation \<Rightarrow> manifest" where
  "op_manifest timeout op =
     \<lparr>m_name = op_name op, m_description = op_description op, m_command = [],
      m_input_schema = op_input_schema op, m_output_schema = VDict [(KStr ''type'', VStr ''object'')],
      m_timeout_s = timeout, m_approval = Some (approval_name (op_approval op)), m_aliases = op_aliases op,
      m_title = (if op_summary op = [] then None else Some (op_summary op))\<rparr>"

text \<open>\<open>str(v or "")\<close>.\<close>

definition text_or_empty :: "(pyval \<Rightarrow> string) \<Rightarrow> pyval \<Rightarrow> string" where
  "text_or_empty str v = (if truthy v then str v else [])"

text \<open>Parameters by name and location: the operation's own replace the path's.\<close>

definition merge_params ::
  "(pyval \<Rightarrow> string) \<Rightarrow> pydict \<Rightarrow> pyval list \<Rightarrow> api_error + ((string \<times> string) \<times> pydict) list" where
  "merge_params str doc ps =
     efold (\<lambda>merged p.
              ebind (deref doc [] p) (\<lambda>q.
                Inr (case q of
                       VDict d \<Rightarrow>
                         if truthy (dict_get d ''name'') \<and> truthy (dict_get d ''in'')
                         then AList.update (str (dict_get d ''name''), str (dict_get d ''in'')) d merged
                         else merged
                     | _ \<Rightarrow> merged))) [] ps"

definition raw_param_schema :: "pydict \<Rightarrow> pyval" where
  "raw_param_schema p =
     (case (dict_get p ''schema'', dict_get p ''content'') of
        (VNone, VDict c) \<Rightarrow> (case c of (_, VDict first) # _ \<Rightarrow> dict_get first ''schema'' | _ \<Rightarrow> VNone)
      | (v, _) \<Rightarrow> v)"

definition read_param ::
  "(pyval \<Rightarrow> string) \<Rightarrow> pydict \<Rightarrow> (string \<times> string) \<times> pydict \<Rightarrow> api_error + api_param list" where
  "read_param str doc entry =
     (case entry of
        ((name, loc), p) \<Rightarrow>
          if loc \<notin> {''path'', ''query''} then Inr []
          else let raw = raw_param_schema p
               in ebind (schema str doc []
                           (if truthy raw then raw else VDict [(KStr ''type'', VStr ''string'')])) (\<lambda>s.
                    Inr [\<lparr>ap_name = name, ap_location = loc,
                          ap_required = (truthy (dict_get p ''required'') \<or> loc = ''path''),
                          ap_schema = (case s of VDict d \<Rightarrow> d | _ \<Rightarrow> []),
                          ap_description = text_or_empty str (dict_get p ''description'')\<rparr>]))"

definition param_property :: "api_param \<Rightarrow> pydict \<Rightarrow> pydict" where
  "param_property p props =
     dict_put (ap_name p)
       (VDict (if ap_description p \<noteq> [] \<and> dict_lookup (ap_schema p) ''description'' = None
               then dict_put ''description'' (VStr (ap_description p)) (ap_schema p) else ap_schema p)) props"

record body =
  bd_mode :: "body_mode option"
  bd_keys :: "pykey list"
  bd_required :: bool
  bd_schema :: "pydict option"
  bd_type :: string
  bd_properties :: pydict
  bd_needed :: "pyval list"

definition no_body :: "pydict \<Rightarrow> body" where
  "no_body props =
     \<lparr>bd_mode = None, bd_keys = [], bd_required = False, bd_schema = None, bd_type = ''application/json'',
      bd_properties = props, bd_needed = []\<rparr>"

definition writable :: "pydict \<Rightarrow> pydict" where
  "writable props = filter (\<lambda>(_, v). case v of VDict e \<Rightarrow> \<not> truthy (dict_get e ''readOnly'') | _ \<Rightarrow> True) props"

text \<open>The body's properties next to the parameters, or the body as one argument.\<close>

definition place_body :: "pydict \<Rightarrow> pydict \<Rightarrow> body \<Rightarrow> api_error + body" where
  "place_body s props b =
     ebind (items_or_empty (dict_get s ''properties'')) (\<lambda>all_props.
       let own = writable all_props; ty = dict_get s ''type''
       in if (ty = VNone \<or> ty = VStr ''object'') \<and> own \<noteq> []
             \<and> fst ` set own \<inter> fst ` set props = {}
          then ebind (if bd_required b then list_or_empty (dict_get s ''required'') else Inr []) (\<lambda>rs.
               ebind (traverse (\<lambda>r. case key_in_dict r own of Inl _ \<Rightarrow> Inl PyRaise | Inr h \<Rightarrow> Inr (r, h)) rs) (\<lambda>hs.
                 Inr (b\<lparr>bd_mode := Some MergeBody, bd_keys := map fst own,
                        bd_properties := fold (\<lambda>(k, v) out. AList.update k
                            (case v of VDict e \<Rightarrow> VDict (dict_pop ''readOnly'' e) | _ \<Rightarrow> v) out) own props,
                        bd_needed := map fst (filter snd hs)\<rparr>)))
          else Inr (b\<lparr>bd_mode := Some WrapBody, bd_properties := dict_put ''body'' (VDict s) props,
                      bd_needed := (if bd_required b then [VStr ''body''] else [])\<rparr>))"

definition media_body ::
  "(pyval \<Rightarrow> string) \<Rightarrow> pydict \<Rightarrow> bool \<Rightarrow> string \<Rightarrow> pyval \<Rightarrow> pydict \<Rightarrow> api_error + body" where
  "media_body str doc required ct media props =
     ebind (media_schema media [(KStr ''type'', VStr ''object'')]) (\<lambda>raw.
     ebind (schema str doc [] raw) (\<lambda>s.
       let b = (no_body props)\<lparr>bd_type := ct, bd_required := required\<rparr>
       in case s of VDict d \<Rightarrow> place_body d props (b\<lparr>bd_schema := Some d\<rparr>) | _ \<Rightarrow> Inr b))"

definition read_body :: "(pyval \<Rightarrow> string) \<Rightarrow> pydict \<Rightarrow> pydict \<Rightarrow> pydict \<Rightarrow> api_error + body" where
  "read_body str doc op props =
     ebind (if truthy (dict_get op ''requestBody'') then deref doc [] (dict_get op ''requestBody'') else Inr VNone)
       (\<lambda>rb.
        case rb of
          VDict r \<Rightarrow>
            ebind (pick_content (dict_get r ''content'')) (\<lambda>picked.
              case picked of
                None \<Rightarrow> Inr (no_body props)
              | Some (ct, media) \<Rightarrow> media_body str doc (truthy (dict_get r ''required'')) ct media props)
        | _ \<Rightarrow> Inr (no_body props))"

definition read_responses :: "(pyval \<Rightarrow> string) \<Rightarrow> pydict \<Rightarrow> pydict \<Rightarrow> api_error + response list" where
  "read_responses str doc op =
     ebind (items_or_empty (dict_get op ''responses'')) (\<lambda>rs.
       efold (\<lambda>out (code, resp).
                ebind (deref doc [] resp) (\<lambda>r.
                  case r of
                    VDict d \<Rightarrow>
                      ebind (pick_content (dict_get d ''content'')) (\<lambda>picked.
                      ebind (case picked of
                               None \<Rightarrow> Inr []
                             | Some (_, media) \<Rightarrow>
                                 ebind (media_schema media []) (\<lambda>raw.
                                 ebind (schema str doc [] raw) (reason_enums str 4))) (\<lambda>reasons.
                        Inr (AList.update (key_str code)
                               (text_or_empty str (dict_get d ''description''), reasons) out)))
                  | _ \<Rightarrow> Inr out)) [] rs)"

text \<open>
  The declaration's own map decides first; a hint in the document can only make the safe class
  stricter.
\<close>

definition operation_approval ::
  "pydict \<Rightarrow> string \<Rightarrow> string \<Rightarrow> pyval \<Rightarrow> approval \<Rightarrow> api_error + approval" where
  "operation_approval overrides name op_id hint safe =
     (let chosen = (if truthy (dict_get overrides name) then dict_get overrides name else dict_get overrides op_id)
      in if truthy chosen
         then (case check_approval chosen of None \<Rightarrow> Inl (BadApproval chosen) | Some a \<Rightarrow> Inr a)
         else if truthy hint
         then (case check_approval hint of None \<Rightarrow> Inl (BadApproval hint) | Some a \<Rightarrow> Inr (stricter a safe))
         else Inr safe)"

record naming =
  nm_operation_id :: bool
  nm_names :: pydict
  nm_strips :: "string list"
  nm_approvals :: pydict
  nm_cap :: int

definition build_operation ::
  "(pyval \<Rightarrow> string) \<Rightarrow> pydict \<Rightarrow> naming \<Rightarrow> string \<Rightarrow> string \<Rightarrow> pydict \<Rightarrow> pyval list \<Rightarrow> string \<Rightarrow> string
     \<Rightarrow> string list \<Rightarrow> string \<times> string \<Rightarrow> api_error + operation" where
  "build_operation str doc nm path verb op shared name op_id aliases parts =
     ebind (list_or_empty (dict_get op ''parameters'')) (\<lambda>own.
     ebind (merge_params str doc (shared @ own)) (\<lambda>merged.
     ebind (traverse (read_param str doc) merged) (\<lambda>pss.
     let params = concat pss; props = fold param_property params [] in
     ebind (read_body str doc op props) (\<lambda>b.
     ebind (from_keys (map (VStr \<circ> ap_name) (filter ap_required params) @ bd_needed b)) (\<lambda>needed.
     ebind (read_responses str doc op) (\<lambda>responses.
     let summary = strip (text_or_empty str (dict_get op ''summary''));
         detail = strip (text_or_empty str (dict_get op ''description''));
         safe = safe_approval (Some verb) [name, op_id, path, summary] in
     ebind (operation_approval (nm_approvals nm) name op_id (dict_get op ''x-fabri-approval'') safe) (\<lambda>a.
     ebind (list_or_empty (dict_get op ''tags'')) (\<lambda>tags.
       Inr \<lparr>op_name = name, op_operation_id = op_id, op_method = map upper_char verb, op_path = path,
            op_resource = fst parts, op_action = snd parts, op_summary = summary, op_text = detail,
            op_description = compose_description summary detail responses
                               (map upper_char verb @ '' '' @ path) (nm_cap nm),
            op_input_schema = VDict ([(KStr ''type'', VStr ''object''), (KStr ''properties'', VDict (bd_properties b))]
                                @ (if needed = [] then [] else [(KStr ''required'', VList needed)])),
            op_approval = a, op_tags = map str tags, op_params = params, op_body_mode = bd_mode b,
            op_body_keys = bd_keys b, op_body_required = bd_required b, op_body_schema = bd_schema b,
            op_body_content_type = bd_type b, op_responses = responses,
            op_probe_safe = truthy (dict_get op ''x-fabri-probe-safe''), op_aliases = aliases,
            op_safe_approval = safe\<rparr>))))))))"

section \<open>The operations of a document\<close>

definition http_methods :: "string list" where
  "http_methods = [''get'', ''put'', ''post'', ''delete'', ''patch'', ''head'', ''options'', ''trace'']"

type_synonym raw_operation = "string \<times> string \<times> pydict \<times> pyval list"

definition path_operations :: "pydict \<Rightarrow> string \<times> pyval \<Rightarrow> api_error + raw_operation list" where
  "path_operations doc entry =
     (case entry of
        (path, item) \<Rightarrow>
          ebind (deref doc [] item) (\<lambda>v.
            case v of
              VDict it \<Rightarrow>
                ebind (traverse (\<lambda>verb.
                         case dict_get it verb of
                           VDict op \<Rightarrow>
                             ebind (list_or_empty (dict_get it ''parameters'')) (\<lambda>shared.
                               Inr [(path, verb, op, shared)])
                         | _ \<Rightarrow> Inr []) http_methods) (\<lambda>os. Inr (concat os))
            | _ \<Rightarrow> Inr []))"

definition raw_operations :: "pydict \<Rightarrow> api_error + raw_operation list" where
  "raw_operations doc =
     ebind (items_or_empty (dict_get doc ''paths'')) (\<lambda>ps.
       if list_all (\<lambda>(k, _). case k of KStr _ \<Rightarrow> True | _ \<Rightarrow> False) ps
       then ebind (traverse (path_operations doc) (sort_key fst (map (\<lambda>(k, v). (key_str k, v)) ps)))
              (\<lambda>os. Inr (concat os))
       else Inl PyRaise)"

definition readable_base :: "naming \<Rightarrow> raw_operation \<Rightarrow> api_error + (string \<times> string)" where
  "readable_base nm raw =
     (case raw of (path, verb, op, _) \<Rightarrow>
        readable_parts verb path (dict_get op ''tags'') (nm_strips nm))"

definition joined :: "string \<times> string \<Rightarrow> string" where
  "joined parts = clip_name (fst parts @ ''_'' @ snd parts)"

text \<open>The name of one tool, given the names already taken, and its other names.\<close>

definition primary_name ::
  "(pyval \<Rightarrow> string) \<Rightarrow> (string \<Rightarrow> string) \<Rightarrow> naming \<Rightarrow> string list \<Rightarrow> raw_operation \<Rightarrow> string
     \<Rightarrow> string \<times> string \<times> string list" where
  "primary_name str digest nm used raw pretty =
     (case raw of (path, verb, op, _) \<Rightarrow>
        let op_id = (if truthy (dict_get op ''operationId'') then str (dict_get op ''operationId'')
                     else fallback_operation_id verb path);
            chosen = (if truthy (dict_get (nm_names nm) op_id) then dict_get (nm_names nm) op_id
                      else dict_get (nm_names nm) pretty);
            primary = (if truthy chosen then str chosen else if nm_operation_id nm then op_id else pretty);
            primary = (if primary \<in> set used then suffixed digest primary (verb @ '' '' @ path) else primary)
        in (primary, op_id, filter (\<lambda>a. a \<noteq> primary) (first_occurrences [op_id, pretty])))"

definition build_step ::
  "(pyval \<Rightarrow> string) \<Rightarrow> (string \<Rightarrow> string) \<Rightarrow> pydict \<Rightarrow> naming \<Rightarrow> string list \<times> operation list
     \<Rightarrow> raw_operation \<times> (string \<times> string) \<times> string \<Rightarrow> api_error + string list \<times> operation list" where
  "build_step str digest doc nm state entry =
     (case (state, entry) of
        ((used, ops), (raw, parts, pretty)) \<Rightarrow>
          (case (raw, primary_name str digest nm used raw pretty) of
             ((path, verb, op, shared), (primary, op_id, aliases)) \<Rightarrow>
               ebind (build_operation str doc nm path verb op shared primary op_id aliases parts)
                 (\<lambda>o'. Inr (primary # used, ops @ [o']))))"

definition parse_operations ::
  "(pyval \<Rightarrow> string) \<Rightarrow> (string \<Rightarrow> string) \<Rightarrow> pydict \<Rightarrow> naming \<Rightarrow> api_error + operation list" where
  "parse_operations str digest doc nm =
     ebind (raw_operations doc) (\<lambda>raws.
     ebind (traverse (readable_base nm) raws) (\<lambda>partss.
       let pretties = unique_names digest []
             (map (\<lambda>((path, verb, _), parts). (verb, path, joined parts)) (zip raws partss))
       in ebind (efold (build_step str digest doc nm) ([], []) (zip raws (zip partss pretties)))
            (\<lambda>(_, ops). Inr ops)))"

section \<open>Selection\<close>

definition delete_passes :: "string list option \<Rightarrow> string list option \<Rightarrow> bool \<Rightarrow> operation \<Rightarrow> bool" where
  "delete_passes allow methods allow_delete op \<longleftrightarrow>
     op_method op \<noteq> ''DELETE''
     \<or> (((case methods of None \<Rightarrow> False | Some ms \<Rightarrow> ''DELETE'' \<in> set ms)
          \<or> (case allow of None \<Rightarrow> False | Some pats \<Rightarrow> op_name op \<in> set pats \<or> op_operation_id op \<in> set pats))
         \<and> allow_delete)"

definition operation_passes ::
  "string list option \<Rightarrow> string list \<Rightarrow> string list option \<Rightarrow> string list option \<Rightarrow> bool \<Rightarrow> operation \<Rightarrow> bool" where
  "operation_passes allow deny methods tags allow_delete op \<longleftrightarrow>
     (let names = [op_name op, op_operation_id op]; ms = map_option (map (map upper_char)) methods
      in delete_passes allow ms allow_delete op
         \<and> (case ms of None \<Rightarrow> True | Some ms \<Rightarrow> op_method op \<in> set ms)
         \<and> (case tags of None \<Rightarrow> True | Some ts \<Rightarrow> list_ex (\<lambda>t. t \<in> set (op_tags op)) ts)
         \<and> (case allow of None \<Rightarrow> True | Some pats \<Rightarrow> any_match names pats)
         \<and> \<not> any_match names deny)"

definition filter_operations ::
  "string list option \<Rightarrow> string list \<Rightarrow> string list option \<Rightarrow> string list option \<Rightarrow> bool
     \<Rightarrow> operation list \<Rightarrow> operation list" where
  "filter_operations allow deny methods tags allow_delete ops =
     filter (operation_passes allow deny methods tags allow_delete) ops"

end
