(* ===== verification/Tool_Http.thy ===== *)
theory Tool_Http
  imports OpenApi
begin

text \<open>
  Calls over HTTP (\<open>src/fabri/tools/http_call.py\<close>, the handlers of \<open>tools/openapi.py\<close> and
  \<open>tools/sources.py\<close>): header specs are resolved on every call, the arguments fill the path,
  the query and the body, and every response becomes a tool result.  The HTTP client, the
  environment and \<open>str\<close> of a value that is not a string are parameters; the world a handler acts
  on is the audit log of the credential lookups together with the client's own.
\<close>

section \<open>Requests and responses\<close>

record http_request =
  rq_method :: string
  rq_url :: string
  rq_headers :: "(string \<times> string) list"
  rq_params :: "pydict option"
  rq_json :: "pyval option"
  rq_form :: "pydict option"
  rq_timeout :: rat

text \<open>\<open>rs_json\<close> is \<open>None\<close> where \<open>resp.json()\<close> raises a \<open>ValueError\<close>.\<close>

record http_response =
  rs_status :: int
  rs_content_type :: string
  rs_json :: "pyval option"
  rs_text :: string

text \<open>The client answers or fails with the name of an \<open>httpx.HTTPError\<close>.\<close>

record 'v http_io =
  io_client :: "http_request \<Rightarrow> 'v \<Rightarrow> (string + http_response) \<times> 'v"
  io_env :: "string \<Rightarrow> string option"
  io_store :: credential_store
  io_str :: "pyval \<Rightarrow> string"

definition max_body_chars :: nat where "max_body_chars = 20000"

definition response_body :: "http_response \<Rightarrow> pyval" where
  "response_body resp =
     (case (is_infix ''json'' (rs_content_type resp), rs_json resp) of
        (True, Some v) \<Rightarrow> v
      | _ \<Rightarrow>
          let s = rs_text resp;
              s = (if max_body_chars < length s
                   then take max_body_chars s @ ''... [truncated '' @ show_nat (length s - max_body_chars) @ '' chars]''
                   else s)
          in if s = [] then VNone else VStr s)"

definition status_result :: "string \<Rightarrow> pyval \<Rightarrow> pydict \<Rightarrow> pyval" where
  "status_result status code extra = VDict ([(KStr ''status'', VStr status), (KStr ''code'', code)] @ extra)"

definition map_response :: "http_response \<Rightarrow> pydict" where
  "map_response resp =
     (let code = rs_status resp; payload = [(KStr ''data'', response_body resp)]
      in if 200 \<le> code \<and> code < 300 then tool_ok (status_result ''ok'' (VInt code) payload) []
         else if code = 409 then tool_error ''conflict'' (status_result ''conflict'' (VInt 409) payload) []
         else tool_error (''HTTP '' @ show_int code) (status_result ''error'' (VInt code) payload) [])"

definition no_code :: pyval where "no_code = status_result ''error'' VNone []"

section \<open>Headers\<close>

definition credential_text :: "credential_error \<Rightarrow> string" where
  "credential_text e =
     (case e of
        CredentialNotFound m \<Rightarrow> m
      | MalformedRef m \<Rightarrow> m
      | CredentialScope p h \<Rightarrow> ''credential '' @ p @ '':'' @ h @ '' is not granted to this run'')"

text \<open>One header: its value, or the message of a \<open>HeaderSpecError\<close>.\<close>

definition resolve_header :: "'v http_io \<Rightarrow> string \<Rightarrow> pyval \<Rightarrow> audit \<Rightarrow> (string + string) \<times> audit" where
  "resolve_header io header spec trail =
     (let fail = (\<lambda>why. Inl (''header '' @ header @ '': '' @ why)) in
      case spec of
        VStr s \<Rightarrow> (Inr s, trail)
      | VDict d \<Rightarrow>
          let prefix = text_or_empty (io_str io) (dict_get d ''prefix'') in
          if has_key d ''secret_ref''
          then (case resolve_secret (io_store io) (io_str io (dict_get d ''secret_ref'')) trail of
                  (Inl e, t) \<Rightarrow> (fail (''credential unavailable ('' @ credential_text e @ '')''), t)
                | (Inr v, t) \<Rightarrow> (Inr (prefix @ v), t))
          else if has_key d ''env''
          then (let var = io_str io (dict_get d ''env'')
                in case io_env io var of
                     Some v \<Rightarrow> if v = [] then (fail (''environment variable '' @ var @ '' is not set''), trail)
                               else (Inr (prefix @ v), trail)
                   | None \<Rightarrow> (fail (''environment variable '' @ var @ '' is not set''), trail))
          else if has_key d ''value'' then (Inr (prefix @ io_str io (dict_get d ''value'')), trail)
          else (fail ''give secret_ref, env or value'', trail)
      | _ \<Rightarrow> (fail ''spec must be a string or a mapping'', trail))"

fun resolve_headers ::
  "'v http_io \<Rightarrow> pydict \<Rightarrow> (string \<times> string) list \<Rightarrow> audit \<Rightarrow> (string + (string \<times> string) list) \<times> audit" where
  "resolve_headers io [] out trail = (Inr out, trail)"
| "resolve_headers io ((k, spec) # specs) out trail =
     (case resolve_header io (key_str k) spec trail of
        (Inl e, t) \<Rightarrow> (Inl e, t)
      | (Inr v, t) \<Rightarrow> resolve_headers io specs (AList.update (key_str k) v out) t)"

text \<open>\<open>(specs or {}).items()\<close> of header specs that passed \<open>check_header_specs\<close>.\<close>

definition header_items :: "pyval \<Rightarrow> pydict" where
  "header_items specs = (case specs of VDict d \<Rightarrow> d | _ \<Rightarrow> [])"

text \<open>The extra header of a dry run; \<open>None\<close> is the \<open>KeyError\<close> of a mapping without a name.\<close>

definition dry_run_headers :: "(pyval \<Rightarrow> string) \<Rightarrow> pyval \<Rightarrow> (string \<times> string) list option" where
  "dry_run_headers str spec =
     (if \<not> truthy spec then Some []
      else case spec of
             VStr s \<Rightarrow> Some [(s, ''true'')]
           | VDict d \<Rightarrow>
               map_option (\<lambda>n. [(str n, str (dict_get_default d ''value'' (VStr ''true'')))]) (dict_lookup d ''name'')
           | _ \<Rightarrow> None)"

section \<open>Sending\<close>

text \<open>What a handler asks for: everything of a request but the headers.\<close>

record call_plan =
  cp_method :: string
  cp_url :: string
  cp_params :: pydict
  cp_json :: pyval
  cp_form :: "pydict option"

definition request_of :: "call_plan \<Rightarrow> (string \<times> string) list \<Rightarrow> rat \<Rightarrow> http_request" where
  "request_of plan headers timeout =
     \<lparr>rq_method = map upper_char (cp_method plan), rq_url = cp_url plan, rq_headers = headers,
      rq_params = (if cp_params plan = [] then None else Some (filter (\<lambda>(_, v). v \<noteq> VNone) (cp_params plan))),
      rq_json = (if cp_json plan = VNone then None else Some (cp_json plan)),
      rq_form = (if cp_json plan = VNone then cp_form plan else None), rq_timeout = timeout\<rparr>"

definition send ::
  "'v http_io \<Rightarrow> pydict \<Rightarrow> (string \<times> string) list \<Rightarrow> rat \<Rightarrow> call_plan \<Rightarrow> audit \<times> 'v
     \<Rightarrow> pydict \<times> audit \<times> 'v" where
  "send io specs extra timeout plan w =
     (case resolve_headers io specs [] (fst w) of
        (Inl e, t) \<Rightarrow> (tool_error e no_code [], t, snd w)
      | (Inr hs, t) \<Rightarrow>
          let hs = fold (\<lambda>(k, v) out. AList.update k v out) extra hs in
          case io_client io (request_of plan hs timeout) (snd w) of
            (Inl exc, v) \<Rightarrow> (tool_error (''request failed: '' @ exc) no_code [], t, v)
          | (Inr resp, v) \<Rightarrow> (map_response resp, t, v))"

section \<open>Arguments in the path\<close>

text \<open>\<open>quote(s, safe="")\<close>: the bytes of the UTF-8 encoding outside the unreserved characters.\<close>

definition pct :: "nat \<Rightarrow> string" where
  "pct n = CHR ''%'' # map upper_char [hex_digit (n div 16), hex_digit (n mod 16)]"

definition quote_char :: "char \<Rightarrow> string" where
  "quote_char c =
     (let n = (of_char c :: nat)
      in if is_alnum c \<or> c \<in> {CHR ''_'', CHR ''.'', CHR ''-'', CHR ''~''} then [c]
         else if n < 128 then pct n
         else pct (192 + n div 64) @ pct (128 + n mod 64))"

definition quote :: "string \<Rightarrow> string" where
  "quote s = concat (map quote_char s)"

definition placeholder :: "string \<Rightarrow> string" where
  "placeholder key = ''{'' @ key @ ''}''"

text \<open>\<open>_PARAM\<close>: a name in braces.\<close>

definition param_match :: pattern where
  "param_match prev s =
     (case s of
        a # c # cs \<Rightarrow>
          if a = CHR ''{'' \<and> (is_alpha c \<or> c = CHR ''_'')
          then (let body = takeWhile (\<lambda>x. is_alnum x \<or> x = CHR ''_'') cs
                in if starts_with ''}'' (drop (length body) cs) then length body + 3 else 0)
          else 0
      | _ \<Rightarrow> 0)"

definition placeholders :: "string \<Rightarrow> string list" where
  "placeholders url = map (\<lambda>s. butlast (tl s)) (find_all param_match None url)"

fun fill_placeholders :: "(pyval \<Rightarrow> string) \<Rightarrow> string list \<Rightarrow> string \<Rightarrow> pydict \<Rightarrow> string + string \<times> pydict" where
  "fill_placeholders str [] target args = Inr (target, args)"
| "fill_placeholders str (k # ks) target args =
     (case dict_lookup args k of
        None \<Rightarrow> Inl k
      | Some v \<Rightarrow> fill_placeholders str ks (str_replace (placeholder k) (quote (str v)) target) (dict_pop k args))"

definition missing_path_parameter :: "string \<Rightarrow> string \<Rightarrow> pydict" where
  "missing_path_parameter name key =
     tool_error (name @ '': missing path parameter '' @ [CHR 0x27] @ key @ [CHR 0x27]) no_code []"

section \<open>One endpoint\<close>

definition no_body_methods :: "string list" where
  "no_body_methods = [''GET'', ''HEAD'', ''OPTIONS'', ''DELETE'']"

definition endpoint_plan ::
  "(pyval \<Rightarrow> string) \<Rightarrow> string \<Rightarrow> string \<Rightarrow> string \<Rightarrow> pydict \<Rightarrow> pydict + call_plan" where
  "endpoint_plan str name verb url args =
     (case fill_placeholders str (placeholders url) url args of
        Inl key \<Rightarrow> Inl (missing_path_parameter name key)
      | Inr (target, rest) \<Rightarrow>
          Inr (if verb \<in> set no_body_methods
               then \<lparr>cp_method = verb, cp_url = target, cp_params = rest, cp_json = VNone, cp_form = None\<rparr>
               else \<lparr>cp_method = verb, cp_url = target, cp_params = [], cp_json = VDict rest, cp_form = None\<rparr>))"

text \<open>A handler from its plan: it never raises.\<close>

definition plan_handler ::
  "'v http_io \<Rightarrow> pydict \<Rightarrow> (string \<times> string) list \<Rightarrow> rat \<Rightarrow> (pydict \<Rightarrow> pydict + call_plan)
     \<Rightarrow> (audit \<times> 'v) handler" where
  "plan_handler io specs extra timeout plan args w =
     (case plan args of
        Inl refusal \<Rightarrow> (Inr refusal, w)
      | Inr p \<Rightarrow> (case send io specs extra timeout p w of (r, w') \<Rightarrow> (Inr r, w')))"

section \<open>One operation\<close>

definition known_args :: "operation \<Rightarrow> pykey list" where
  "known_args op =
     map (KStr \<circ> ap_name) (op_params op) @ op_body_keys op
     @ (if op_body_mode op = Some WrapBody then [KStr ''body''] else [])"

fun fill_params ::
  "(pyval \<Rightarrow> string) \<Rightarrow> pydict \<Rightarrow> api_param list \<Rightarrow> string \<Rightarrow> pydict \<Rightarrow> string + string \<times> pydict" where
  "fill_params str args [] path query = Inr (path, query)"
| "fill_params str args (p # ps) path query =
     (case (ap_location p = ''path'', dict_lookup args (ap_name p)) of
        (True, None) \<Rightarrow> Inl (ap_name p)
      | (True, Some v) \<Rightarrow>
          if v = VNone \<or> v = VStr [] then Inl (ap_name p)
          else fill_params str args ps (str_replace (placeholder (ap_name p)) (quote (str v)) path) query
      | (False, None) \<Rightarrow> fill_params str args ps path query
      | (False, Some v) \<Rightarrow>
          fill_params str args ps path
            (dict_put (ap_name p) (case v of VBool b \<Rightarrow> VStr (if b then ''true'' else ''false'') | _ \<Rightarrow> v) query))"

definition body_args :: "operation \<Rightarrow> pydict \<Rightarrow> pydict" where
  "body_args op args = List.map_filter (\<lambda>k. map_option (Pair k) (map_of args k)) (op_body_keys op)"

text \<open>The JSON body (\<open>VNone\<close> for none) and the form.\<close>

definition operation_body :: "operation \<Rightarrow> pydict \<Rightarrow> pyval \<times> pydict option" where
  "operation_body op args =
     (case op_body_mode op of
        Some MergeBody \<Rightarrow>
          let b = body_args op args
          in if b \<noteq> [] \<or> op_body_required op
             then (if starts_with form_type (op_body_content_type op) then (VNone, Some b) else (VDict b, None))
             else (VNone, None)
      | Some WrapBody \<Rightarrow> (dict_get args ''body'', None)
      | None \<Rightarrow> (VNone, None))"

definition operation_plan ::
  "(pyval \<Rightarrow> string) \<Rightarrow> string \<Rightarrow> operation \<Rightarrow> pydict \<Rightarrow> pydict + call_plan" where
  "operation_plan str base_url op args =
     (let unknown = filter (\<lambda>k. k \<notin> set (known_args op)) (map fst args)
      in if unknown \<noteq> []
         then Inl (tool_error (op_name op @ '': unknown arguments '' @ str (VList (map VStr (sort (map key_str unknown)))))
                     no_code [])
         else case fill_params str args (op_params op) (op_path op) [] of
                Inl key \<Rightarrow> Inl (missing_path_parameter (op_name op) key)
              | Inr (path, query) \<Rightarrow>
                  Inr \<lparr>cp_method = op_method op, cp_url = rstrip_char CHR ''/'' base_url @ path,
                       cp_params = query, cp_json = fst (operation_body op args),
                       cp_form = snd (operation_body op args)\<rparr>)"

definition operation_handler ::
  "'v http_io \<Rightarrow> pydict \<Rightarrow> (string \<times> string) list \<Rightarrow> rat \<Rightarrow> string \<Rightarrow> operation \<Rightarrow> (audit \<times> 'v) handler" where
  "operation_handler io specs extra timeout base_url op =
     plan_handler io specs extra timeout (operation_plan (io_str io) base_url op)"

section \<open>Lemmas\<close>

end
