(* ===== verification/Tool_Build.thy ===== *)
theory Tool_Build
  imports Tool_Http
begin

text \<open>
  Building the tools of a source declaration (\<open>src/fabri/tools/sources.py\<close>): the declaration is
  checked against the policy, its store is capped by the grants, and each kind has a builder.
  What lies outside is a parameter: the document a spec names, the callable of a dotted path,
  the tools an MCP server lists, the HTTP client, the environment and the \<open>g\<close> format of a
  number.  A timeout is a finite number.
\<close>

section \<open>Built tools\<close>

record 'w source_tool =
  so_manifest :: manifest
  so_handler :: "'w handler"
  so_kind :: string
  so_source :: string
  so_method :: "string option"
  so_path :: "string option"
  so_safe_approval :: approval

datatype source_build_error = DeclError source_error | ApiError api_error | OtherError string

text \<open>How an in-process callable ends.\<close>

datatype call_end = Returned pyval | Raised string | TimedOut

record 'v build_env =
  be_str :: "pyval \<Rightarrow> string"
  be_general :: "rat \<Rightarrow> string"
  be_hostname :: "string \<Rightarrow> string option"
  be_scheme :: "string \<Rightarrow> string"
  be_digest :: "string \<Rightarrow> string"
  be_client :: "http_request \<Rightarrow> 'v \<Rightarrow> (string + http_response) \<times> 'v"
  be_env :: "string \<Rightarrow> string option"
  be_store :: credential_store
  be_document :: "pyval \<Rightarrow> string + pyval"
  be_callable :: "string \<Rightarrow> string + (pydict \<Rightarrow> audit \<times> 'v \<Rightarrow> call_end \<times> audit \<times> 'v) \<times> string option"
  be_mcp :: "pydict \<Rightarrow> string + (string \<times> pyval \<times> manifest \<times> (audit \<times> 'v) handler) list"

definition http_io_of :: "'v build_env \<Rightarrow> credential_store \<Rightarrow> 'v http_io" where
  "http_io_of be st = \<lparr>io_client = be_client be, io_env = be_env be, io_store = st, io_str = be_str be\<rparr>"

section \<open>Reading a declaration\<close>

definition need :: "'a option \<Rightarrow> source_build_error \<Rightarrow> source_build_error + 'a" where
  "need v e = (case v of None \<Rightarrow> Inl e | Some x \<Rightarrow> Inr x)"

text \<open>\<open>float(v or 30.0)\<close>.\<close>

definition timeout_of :: "pyval \<Rightarrow> source_build_error + rat" where
  "timeout_of v =
     (if \<not> truthy v then Inr 30
      else need (case v of
                   VStr s \<Rightarrow> (case py_float s of Some (Fin r) \<Rightarrow> Some r | _ \<Rightarrow> None)
                 | _ \<Rightarrow> (case num_of v of Some (Fin r) \<Rightarrow> Some r | _ \<Rightarrow> None)) (OtherError ''timeout_s''))"

text \<open>\<open>int(v or 1500)\<close>.\<close>

definition description_cap :: "pyval \<Rightarrow> source_build_error + int" where
  "description_cap v =
     (if \<not> truthy v then Inr 1500
      else need (case v of
                   VStr s \<Rightarrow> py_int s
                 | _ \<Rightarrow> (case num_of v of
                           Some (Fin r) \<Rightarrow> Some (if 0 \<le> r then floor r else ceiling r) | _ \<Rightarrow> None))
             (OtherError ''description_cap''))"

definition approval_for :: "pydict \<Rightarrow> string \<Rightarrow> approval \<Rightarrow> source_build_error + approval" where
  "approval_for decl name dflt =
     (let v = (case dict_get decl ''approval'' of VDict m \<Rightarrow> dict_get m name | a \<Rightarrow> a);
          v = (if truthy v then v else VStr (approval_name dflt))
      in need (check_approval v) (DeclError (ApprovalErr v)))"

definition title_of :: "pyval \<Rightarrow> string option" where
  "title_of v = (case v of VStr s \<Rightarrow> Some s | _ \<Rightarrow> None)"

text \<open>An optional list of strings.\<close>

definition string_list :: "pyval \<Rightarrow> source_build_error + string list option" where
  "string_list v =
     (if v = VNone then Inr None
      else ebind (emap_err ApiError (iter_value v)) (\<lambda>xs.
             if list_all is_str xs then Inr (Some (map plain_str xs)) else Inl (ApiError PyRaise)))"

definition api :: "api_error + 'a \<Rightarrow> source_build_error + 'a" where
  "api m = emap_err ApiError m"

section \<open>Builders\<close>

definition check_document :: "(pyval \<Rightarrow> string) \<Rightarrow> pyval \<Rightarrow> source_build_error + pydict" where
  "check_document str v =
     (case v of
        VDict d \<Rightarrow>
          if starts_with ''3'' (str (dict_get_default d ''openapi'' (VStr []))) then Inr d
          else Inl (OtherError ''not an OpenAPI 3 document'')
      | _ \<Rightarrow> Inl (OtherError ''not an OpenAPI 3 document''))"

fun first_server :: "'v build_env \<Rightarrow> pyval list \<Rightarrow> api_error + string option" where
  "first_server be [] = Inr None"
| "first_server be (s # ss) =
     ebind (items_or_empty s) (\<lambda>d.
       let url = text_or_empty (be_str be) (dict_get d ''url'')
       in if be_scheme be url \<in> {''http'', ''https''} then Inr (Some url) else first_server be ss)"

definition default_base_url :: "'v build_env \<Rightarrow> pydict \<Rightarrow> api_error + string option" where
  "default_base_url be doc = ebind (list_or_empty (dict_get doc ''servers'')) (first_server be)"

definition naming_mode :: "pyval \<Rightarrow> api_error + bool" where
  "naming_mode v =
     (if \<not> truthy v \<or> v = VStr ''readable'' then Inr False
      else if v = VStr ''operation_id'' then Inr True else Inl BadNaming)"

definition decl_naming :: "pydict \<Rightarrow> source_build_error + naming" where
  "decl_naming decl =
     ebind (api (naming_mode (dict_get decl ''naming''))) (\<lambda>mode.
     ebind (api (items_or_empty (dict_get decl ''names''))) (\<lambda>names.
     ebind (if truthy (dict_get decl ''strip_prefixes'') then string_list (dict_get decl ''strip_prefixes'')
            else Inr (Some [''api''])) (\<lambda>strips.
     ebind (description_cap (dict_get decl ''description_cap'')) (\<lambda>cap.
       Inr \<lparr>nm_operation_id = mode, nm_names = names,
            nm_strips = (case strips of None \<Rightarrow> [] | Some s \<Rightarrow> s),
            nm_approvals = (case dict_get decl ''approval'' of VDict m \<Rightarrow> m | _ \<Rightarrow> []), nm_cap = cap\<rparr>))))"

text \<open>A class given for the whole source replaces that of every operation.\<close>

definition override_approval :: "pydict \<Rightarrow> operation \<Rightarrow> source_build_error + operation" where
  "override_approval decl op =
     (case dict_get decl ''approval'' of
        VStr a \<Rightarrow>
          ebind (need (check_approval (VStr a)) (DeclError (ApprovalErr (VStr a))))
            (\<lambda>c. Inr (op\<lparr>op_approval := c\<rparr>))
      | _ \<Rightarrow> Inr op)"

definition kept_operations ::
  "'v build_env \<Rightarrow> tool_policy option \<Rightarrow> pydict \<Rightarrow> pydict \<Rightarrow> source_build_error + operation list" where
  "kept_operations be p decl doc =
     ebind (decl_naming decl) (\<lambda>nm.
     ebind (api (parse_operations (be_str be) (be_digest be) doc nm)) (\<lambda>ops.
     ebind (string_list (dict_get decl ''allow'')) (\<lambda>allow.
     ebind (string_list (dict_get decl ''deny'')) (\<lambda>deny.
     ebind (string_list (dict_get decl ''methods'')) (\<lambda>methods.
     ebind (string_list (dict_get decl ''tags'')) (\<lambda>tags.
       traverse (override_approval decl)
         (filter_operations allow (case deny of None \<Rightarrow> [] | Some ds \<Rightarrow> ds) methods tags
            (case p of None \<Rightarrow> True | Some q \<Rightarrow> tp_allow_delete q) ops)))))))"

definition build_openapi ::
  "'v build_env \<Rightarrow> tool_policy option \<Rightarrow> pydict \<Rightarrow> string \<Rightarrow> credential_store \<Rightarrow> (string \<times> string) list
     \<Rightarrow> source_build_error + (audit \<times> 'v) source_tool list" where
  "build_openapi be p decl name st dry =
     ebind (timeout_of (dict_get decl ''timeout_s'')) (\<lambda>timeout.
     ebind (emap_err OtherError (be_document be (dict_get decl ''spec''))) (\<lambda>raw.
     ebind (check_document (be_str be) raw) (\<lambda>doc.
     ebind (if truthy (dict_get decl ''base_url'') then Inr (Some (be_str be (dict_get decl ''base_url'')))
            else api (default_base_url be doc)) (\<lambda>base.
     ebind (need base (OtherError ''no base_url'')) (\<lambda>base_url.
     ebind (case p of None \<Rightarrow> Inr ()
            | Some q \<Rightarrow> emap_err DeclError (check_url (be_hostname be) (be_str be) q (VStr base_url))) (\<lambda>_.
     ebind (kept_operations be p decl doc) (\<lambda>ops.
       Inr (map (\<lambda>op.
         \<lparr>so_manifest = op_manifest timeout op,
          so_handler = operation_handler (http_io_of be st) (header_items (dict_get decl ''headers'')) dry timeout
                         base_url op,
          so_kind = ''openapi'', so_source = name, so_method = Some (op_method op), so_path = Some (op_path op),
          so_safe_approval = op_safe_approval op\<rparr>) ops))))))))"

definition open_object :: pyval where "open_object = VDict [(KStr ''type'', VStr ''object'')]"

definition build_http ::
  "'v build_env \<Rightarrow> pydict \<Rightarrow> string \<Rightarrow> credential_store \<Rightarrow> (string \<times> string) list
     \<Rightarrow> source_build_error + (audit \<times> 'v) source_tool list" where
  "build_http be decl name st dry =
     (let url = be_str be (dict_get decl ''url''); verb = http_method (be_str be) decl;
          safe = safe_approval (Some verb) [name, url] in
      ebind (timeout_of (dict_get decl ''timeout_s'')) (\<lambda>timeout.
      ebind (approval_for decl name safe) (\<lambda>a.
        Inr [\<lparr>so_manifest =
                \<lparr>m_name = name,
                 m_description = (let d = text_or_empty (be_str be) (dict_get decl ''description'')
                                  in if d = [] then verb @ '' '' @ url else d),
                 m_command = [],
                 m_input_schema = (if truthy (dict_get decl ''input_schema'') then dict_get decl ''input_schema''
                                   else VDict [(KStr ''type'', VStr ''object''), (KStr ''properties'', VDict [])]),
                 m_output_schema = open_object, m_timeout_s = timeout, m_approval = Some (approval_name a),
                 m_aliases = [], m_title = title_of (dict_get decl ''title'')\<rparr>,
              so_handler = plan_handler (http_io_of be st) (header_items (dict_get decl ''headers'')) dry timeout
                             (endpoint_plan (be_str be) name verb url),
              so_kind = ''http'', so_source = name, so_method = Some verb, so_path = Some url,
              so_safe_approval = safe\<rparr>])))"

text \<open>A result that is not a tool result already is wrapped; a call past its timeout is an error.\<close>

definition callable_handler ::
  "string \<Rightarrow> string \<Rightarrow> (pydict \<Rightarrow> 'w \<Rightarrow> call_end \<times> 'w) \<Rightarrow> 'w handler" where
  "callable_handler name timeout_text fn args w =
     (case fn args w of
        (Returned (VDict d), w') \<Rightarrow>
          (Inr (if has_key d ''ok'' then d
                else tool_ok (VDict [(KStr ''status'', VStr ''ok''), (KStr ''data'', VDict d)]) []), w')
      | (Returned v, w') \<Rightarrow> (Inr (tool_ok (VDict [(KStr ''status'', VStr ''ok''), (KStr ''data'', v)]) []), w')
      | (Raised exc, w') \<Rightarrow> (Inl exc, w')
      | (TimedOut, w') \<Rightarrow> (Inr (tool_error (name @ '': timed out after '' @ timeout_text @ ''s'') VNone []), w'))"

text \<open>\<open>(fn.__doc__ or name).strip().splitlines()[0]\<close>, an \<open>IndexError\<close> on a blank docstring.\<close>

definition first_doc_line :: "string option \<Rightarrow> string \<Rightarrow> source_build_error + string" where
  "first_doc_line doc name =
     (case split_lines (strip (case doc of None \<Rightarrow> name | Some d \<Rightarrow> if d = [] then name else d)) of
        [] \<Rightarrow> Inl (OtherError ''IndexError'') | l # _ \<Rightarrow> Inr l)"

definition build_python ::
  "'v build_env \<Rightarrow> pydict \<Rightarrow> string \<Rightarrow> source_build_error + (audit \<times> 'v) source_tool list" where
  "build_python be decl name =
     ebind (emap_err OtherError (be_callable be (be_str be (dict_get decl ''callable'')))) (\<lambda>(fn, doc).
     ebind (timeout_of (dict_get decl ''timeout_s'')) (\<lambda>timeout.
     ebind (let d = text_or_empty (be_str be) (dict_get decl ''description'')
            in if d = [] then first_doc_line doc name else Inr d) (\<lambda>description.
     ebind (approval_for decl name Write) (\<lambda>a.
       Inr [\<lparr>so_manifest =
               \<lparr>m_name = name, m_description = description, m_command = [],
                m_input_schema = (if truthy (dict_get decl ''input_schema'') then dict_get decl ''input_schema''
                                  else open_object),
                m_output_schema = open_object, m_timeout_s = timeout, m_approval = Some (approval_name a),
                m_aliases = [], m_title = title_of (dict_get decl ''title'')\<rparr>,
             so_handler = callable_handler name (be_general be timeout) fn,
             so_kind = ''python'', so_source = name, so_method = None, so_path = None,
             so_safe_approval = Write\<rparr>]))))"

definition build_mcp ::
  "'v build_env \<Rightarrow> pydict \<Rightarrow> string \<Rightarrow> source_build_error + (audit \<times> 'v) source_tool list" where
  "build_mcp be decl name =
     ebind (emap_err OtherError (be_mcp be decl))
       (traverse (\<lambda>(remote, annotations, m, h).
          let safe = mcp_approval remote annotations in
          ebind (approval_for decl (m_name m) safe) (\<lambda>a.
            Inr \<lparr>so_manifest = m\<lparr>m_approval := Some (approval_name a)\<rparr>, so_handler = h, so_kind = ''mcp'',
                 so_source = name, so_method = None, so_path = None, so_safe_approval = safe\<rparr>)))"

section \<open>Building a declaration\<close>

text \<open>The store a source may use: capped at call time by the grants of the policy.\<close>

definition source_store :: "tool_policy option \<Rightarrow> string \<Rightarrow> credential_store \<Rightarrow> credential_store" where
  "source_store p name st =
     (case p of
        None \<Rightarrow> st
      | Some q \<Rightarrow> (case grants_for q name of None \<Rightarrow> st | Some gs \<Rightarrow> scoped_store st (Some gs) False))"

definition dry_headers ::
  "'v build_env \<Rightarrow> tool_policy option \<Rightarrow> bool \<Rightarrow> pydict \<Rightarrow> source_build_error + (string \<times> string) list" where
  "dry_headers be p dry_run decl =
     (if \<not> dry_run then Inr []
      else ebind (need (dry_run_headers (be_str be) (dict_get decl ''dry_run_header'')) (OtherError ''KeyError'')) (\<lambda>own.
           ebind (need (dry_run_headers (be_str be) (case p of None \<Rightarrow> VNone | Some q \<Rightarrow> tp_dry_run_header q))
                    (OtherError ''KeyError'')) (\<lambda>host.
             Inr (fold (\<lambda>(k, v) out. AList.update k v out) host own))))"

definition build_source_tools ::
  "'v build_env \<Rightarrow> tool_policy option \<Rightarrow> bool \<Rightarrow> pydict \<Rightarrow> source_build_error + (audit \<times> 'v) source_tool list" where
  "build_source_tools be p dry_run decl =
     ebind (emap_err DeclError (validate_source_decl (be_hostname be) (be_str be) (VDict decl) p)) (\<lambda>_.
     ebind (dry_headers be p dry_run decl) (\<lambda>dry.
       let name = plain_str (dict_get decl ''name''); kind = plain_str (dict_get decl ''kind'');
           st = source_store p name (be_store be)
       in if kind = ''openapi'' then build_openapi be p decl name st dry
          else if kind = ''http'' then build_http be decl name st dry
          else if kind = ''python'' then build_python be decl name
          else build_mcp be decl name))"

text \<open>\<open>register_tool_sources\<close>: a source that fails to build is skipped and reported.\<close>

fun register_tool_sources ::
  "'v build_env \<Rightarrow> tool_policy option \<Rightarrow> bool \<Rightarrow> pydict list \<Rightarrow> (audit \<times> 'v) registry
     \<Rightarrow> source_build_error list \<times> (audit \<times> 'v) registry" where
  "register_tool_sources be p dry_run [] reg = ([], reg)"
| "register_tool_sources be p dry_run (decl # decls) reg =
     (case build_source_tools be p dry_run decl of
        Inl e \<Rightarrow> (case register_tool_sources be p dry_run decls reg of (es, reg') \<Rightarrow> (e # es, reg'))
      | Inr ts \<Rightarrow>
          register_tool_sources be p dry_run decls
            (fold (\<lambda>t r. register_callable (so_manifest t) (so_handler t) r) ts reg))"

end
