(* ===== verification/Toolset.thy ===== *)
theory Toolset
  imports Tool_Build
begin

text \<open>
  The tool set of a resolved setup (\<open>src/fabri/setups/toolset.py\<close>): the sources of every layer
  are built in order, a tool is kept when a layer's allow entry and the caller's policy both
  match one of its names, the policy's floor raises its approval class, and a deeper tool
  replaces a shallower one of the same name.  The fingerprint of a tool
  (\<open>hashlib.sha256\<close> of its row) is a parameter.
\<close>

section \<open>Resolved tools\<close>

record 'w resolved_tool =
  rt_name :: string
  rt_manifest :: manifest
  rt_handler :: "'w handler"
  rt_approval :: string
  rt_kind :: string
  rt_source :: string
  rt_layer :: string
  rt_origin :: string
  rt_method :: "string option"
  rt_path :: "string option"
  rt_base_description :: string
  rt_safe_approval :: approval

definition rt_aliases :: "'w resolved_tool \<Rightarrow> string list" where
  "rt_aliases t = m_aliases (rt_manifest t)"

record 'w toolset =
  ts_tools :: "(string \<times> 'w resolved_tool) list"
  ts_errors :: "string list"
  ts_content_hash :: string

definition toolset_names :: "'w toolset \<Rightarrow> string list" where
  "toolset_names ts = map fst (ts_tools ts)"

text \<open>\<open>out.setdefault(alias, approval)\<close>.\<close>

definition set_default :: "'a \<Rightarrow> 'b \<Rightarrow> ('a \<times> 'b) list \<Rightarrow> ('a \<times> 'b) list" where
  "set_default k v d = (if map_of d k = None then AList.update k v d else d)"

definition add_approvals :: "'w resolved_tool \<Rightarrow> (string \<times> string) list \<Rightarrow> (string \<times> string) list" where
  "add_approvals t out =
     fold (\<lambda>a. set_default a (rt_approval t)) (rt_aliases t) (AList.update (rt_name t) (rt_approval t) out)"

definition approvals :: "'w toolset \<Rightarrow> (string \<times> string) list" where
  "approvals ts = fold add_approvals (map snd (ts_tools ts)) []"

definition approval_of :: "'w toolset \<Rightarrow> string \<Rightarrow> string option" where
  "approval_of ts name = map_of (approvals ts) name"

definition get_tool :: "'w toolset \<Rightarrow> string \<Rightarrow> 'w resolved_tool option" where
  "get_tool ts name =
     (case map_of (ts_tools ts) name of
        Some t \<Rightarrow> Some t
      | None \<Rightarrow> List.find (\<lambda>t. name \<in> set (rt_aliases t)) (map snd (ts_tools ts)))"

text \<open>Tools of one set are compared by name, the key under which the set holds them.\<close>

definition select_tools :: "'w toolset \<Rightarrow> string list option \<Rightarrow> 'w resolved_tool list" where
  "select_tools ts names =
     (case names of
        None \<Rightarrow> map snd (ts_tools ts)
      | Some ns \<Rightarrow>
          fold (\<lambda>n out. case get_tool ts n of
                  None \<Rightarrow> out
                | Some t \<Rightarrow> if rt_name t \<in> set (map rt_name out) then out else out @ [t]) ns [])"

definition toolset_registry :: "'w registry \<Rightarrow> 'w toolset \<Rightarrow> string list option \<Rightarrow> 'w registry" where
  "toolset_registry reg0 ts names =
     fold (\<lambda>t reg. register_callable (rt_manifest t) (rt_handler t) reg) (select_tools ts names) reg0"

section \<open>Approval warnings and snapshots\<close>

definition rank_or :: "nat \<Rightarrow> string \<Rightarrow> nat" where
  "rank_or dflt a = (case check_approval (VStr a) of None \<Rightarrow> dflt | Some c \<Rightarrow> rank c)"

definition approval_warnings :: "'w toolset \<Rightarrow> ('w resolved_tool \<times> string) list" where
  "approval_warnings ts =
     map (\<lambda>t. (t, ''tool '' @ rt_name t @ '' has approval '' @ rt_approval t @ '', looser than the default ''
                  @ approval_name (rt_safe_approval t) @ ''; keep it only if that is intended''))
       (filter (\<lambda>t. rank_or 1 (rt_approval t) < rank (rt_safe_approval t))
          (sort_key rt_name (map snd (ts_tools ts))))"

text \<open>A snapshot: the fingerprint of every tool, by name.\<close>

definition snapshot :: "('w resolved_tool \<Rightarrow> string) \<Rightarrow> 'w toolset \<Rightarrow> (string \<times> string) list" where
  "snapshot print_of ts = map (\<lambda>(n, t). (n, print_of t)) (sort_key fst (ts_tools ts))"

definition diff_snapshots ::
  "(string \<times> string) list \<Rightarrow> (string \<times> string) list \<Rightarrow> string list \<times> string list \<times> string list" where
  "diff_snapshots old new =
     (sort (filter (\<lambda>n. map_of old n = None) (map fst new)),
      sort (filter (\<lambda>n. map_of new n = None) (map fst old)),
      sort (filter (\<lambda>n. map_of new n \<noteq> None \<and> map_of old n \<noteq> map_of new n) (map fst old)))"

section \<open>Building the set\<close>

text \<open>A source of a layer: its declaration, the layer and the origin.\<close>

record source_item =
  si_decl :: pydict
  si_layer :: string
  si_origin :: string

definition tool_names :: "manifest \<Rightarrow> string list" where
  "tool_names m = m_name m # m_aliases m"

definition approval_or_write :: "manifest \<Rightarrow> string" where
  "approval_or_write m = (case m_approval m of None \<Rightarrow> ''write'' | Some a \<Rightarrow> if a = [] then ''write'' else a)"

text \<open>The floor raises the class; an unknown class is the \<open>ApprovalError\<close> of \<open>stricter\<close>.\<close>

definition apply_floor :: "tool_policy \<Rightarrow> manifest \<Rightarrow> source_build_error + manifest" where
  "apply_floor p m =
     (case floor_for p (tool_names m) of
        None \<Rightarrow> Inr m
      | Some f \<Rightarrow>
          ebind (need (check_approval (VStr (approval_or_write m)))
                   (DeclError (ApprovalErr (VStr (approval_or_write m)))))
            (\<lambda>a. Inr (m\<lparr>m_approval := Some (approval_name (stricter a f))\<rparr>)))"

definition resolve_tool :: "source_item \<Rightarrow> 'w source_tool \<Rightarrow> manifest \<Rightarrow> 'w resolved_tool" where
  "resolve_tool item t m =
     \<lparr>rt_name = m_name m, rt_manifest = m, rt_handler = so_handler t, rt_approval = approval_or_write m,
      rt_kind = so_kind t, rt_source = so_source t, rt_layer = si_layer item, rt_origin = si_origin item,
      rt_method = so_method t, rt_path = so_path t, rt_base_description = m_description m,
      rt_safe_approval = so_safe_approval t\<rparr>"

definition source_label :: "(pyval \<Rightarrow> string) \<Rightarrow> source_item \<Rightarrow> string" where
  "source_label str item = si_layer item @ '':'' @ str (dict_get (si_decl item) ''name'')"

definition collision ::
  "string \<Rightarrow> 'w source_tool \<Rightarrow> (string \<times> 'w resolved_tool) list \<Rightarrow> string list" where
  "collision label t tools =
     (case map_of tools (m_name (so_manifest t)) of
        Some old \<Rightarrow>
          if rt_source old \<noteq> so_source t
          then [label @ '': tool '' @ m_name (so_manifest t) @ '' also built by source '' @ rt_source old
                @ ''; the deeper one wins'']
          else []
      | None \<Rightarrow> [])"

definition add_tool ::
  "string list \<Rightarrow> tool_policy \<Rightarrow> string \<Rightarrow> source_item
     \<Rightarrow> (string \<times> 'w resolved_tool) list \<times> string list \<Rightarrow> 'w source_tool
     \<Rightarrow> source_build_error + (string \<times> 'w resolved_tool) list \<times> string list" where
  "add_tool entries p label item state t =
     (let m = so_manifest t in
      if \<not> any_match (tool_names m) entries \<or> \<not> name_allowed p (tool_names m) then Inr state
      else ebind (apply_floor p m) (\<lambda>m'.
             Inr (AList.update (m_name m) (resolve_tool item t m') (fst state),
                  snd state @ collision label t (fst state))))"

definition add_source ::
  "(pydict \<Rightarrow> source_build_error + 'w source_tool list) \<Rightarrow> (pyval \<Rightarrow> string) \<Rightarrow> (source_build_error \<Rightarrow> string)
     \<Rightarrow> string list \<Rightarrow> tool_policy \<Rightarrow> (string \<times> 'w resolved_tool) list \<times> string list \<Rightarrow> source_item
     \<Rightarrow> source_build_error + (string \<times> 'w resolved_tool) list \<times> string list" where
  "add_source build str error_text entries p state item =
     (if dict_get (si_decl item) ''enabled'' = VBool False then Inr state
      else case build (si_decl item) of
             Inl e \<Rightarrow> Inr (fst state, snd state @ [source_label str item @ '': '' @ error_text e])
           | Inr ts \<Rightarrow> efold (add_tool entries p (source_label str item) item) state ts)"

text \<open>\<open>_build\<close>, over the builder of one declaration (\<open>build_source_tools\<close> with its environment).\<close>

definition build_toolset ::
  "(pydict \<Rightarrow> source_build_error + 'w source_tool list) \<Rightarrow> (pyval \<Rightarrow> string) \<Rightarrow> (source_build_error \<Rightarrow> string)
     \<Rightarrow> string list \<Rightarrow> source_item list \<Rightarrow> string \<Rightarrow> tool_policy \<Rightarrow> source_build_error + 'w toolset" where
  "build_toolset build str error_text entries items hash p =
     ebind (efold (add_source build str error_text entries p) ([], []) items)
       (\<lambda>(tools, errors). Inr \<lparr>ts_tools = tools, ts_errors = errors, ts_content_hash = hash\<rparr>)"

text \<open>\<open>resolve_tools\<close> without its cache and catalog.\<close>

definition resolve_tools ::
  "'v build_env \<Rightarrow> (source_build_error \<Rightarrow> string) \<Rightarrow> bool \<Rightarrow> string list \<Rightarrow> source_item list \<Rightarrow> string
     \<Rightarrow> tool_policy option \<Rightarrow> string list option \<Rightarrow> source_build_error + (audit \<times> 'v) toolset" where
  "resolve_tools be error_text dry_run entries items hash policy global_allow =
     (let p = (case policy of None \<Rightarrow> permissive None | Some q \<Rightarrow> q);
          p = (case global_allow of None \<Rightarrow> p | Some allow \<Rightarrow> with_allow p (Some allow))
      in build_toolset (build_source_tools be (Some p) dry_run) (be_str be) error_text entries items hash p)"

end
