(* ===== verification/Toolset_Laws.thy ===== *)
theory Toolset_Laws
  imports Toolset
begin

text \<open>
  The interface between the tool set and the builder of a source, as locales: what the set
  keeps of a built tool, and why a builder whose tools carry a known approval class makes
  building the set total.  The interpretation is on the model's own builder.
\<close>

section \<open>Floors\<close>

lemma check_approval_name [simp]: "check_approval (VStr (approval_name a)) = Some a"
  by (cases a) (simp_all add: check_approval_def approval_name_def)

lemma approval_name_nonempty [simp]: "approval_name a \<noteq> []"
  by (cases a) (simp_all add: approval_name_def)

text \<open>The floor of a tool is at least every class whose pattern matches one of its names.\<close>

lemma fold_floor_rank:
  "fold (floor_step names) fls found = Some f \<Longrightarrow>
     (\<forall>g. found = Some g \<longrightarrow> rank g \<le> rank f)
     \<and> (\<forall>(pat, c) \<in> set fls. list_ex (\<lambda>n. fnmatchcase n pat) names \<longrightarrow> rank c \<le> rank f)"
proof (induction fls arbitrary: found)
  case Nil
  then show ?case by simp
next
  case (Cons fl fls)
  obtain pat c where fl: "fl = (pat, c)" by fastforce
  from Cons.prems have "fold (floor_step names) fls (floor_step names fl found) = Some f" by simp
  note ih = Cons.IH[OF this]
  show ?case
  proof (cases "list_ex (\<lambda>n. fnmatchcase n pat) names")
    case False
    with ih show ?thesis by (simp add: fl floor_step_def)
  next
    case True
    define h where "h = (case found of None \<Rightarrow> c | Some g \<Rightarrow> stricter g c)"
    from ih True have h: "rank h \<le> rank f"
      by (simp add: fl floor_step_def h_def split: option.splits)
    moreover have "rank c \<le> rank h" "\<forall>g. found = Some g \<longrightarrow> rank g \<le> rank h"
      by (auto simp: h_def rank_stricter split: option.split)
    ultimately show ?thesis using ih by (auto simp: fl)
  qed
qed

lemma fold_floor_None:
  "fold (floor_step names) fls found = None \<Longrightarrow>
     found = None \<and> (\<forall>(pat, c) \<in> set fls. \<not> list_ex (\<lambda>n. fnmatchcase n pat) names)"
  by (induction fls arbitrary: found) (auto simp: floor_step_def split: if_splits)

lemma tool_names_approval [simp]: "tool_names (m\<lparr>m_approval := a\<rparr>) = tool_names m"
  by (simp add: tool_names_def)

lemma approval_or_write_name [simp]: "approval_or_write (m\<lparr>m_approval := Some (approval_name a)\<rparr>) = approval_name a"
  by (simp add: approval_or_write_def)

text \<open>Every class the policy's floors ask of the names of a tool is met.\<close>

definition meets_floors :: "tool_policy \<Rightarrow> manifest \<Rightarrow> bool" where
  "meets_floors p m \<longleftrightarrow>
     (\<forall>(pat, c) \<in> set (tp_approval_floor p). list_ex (\<lambda>n. fnmatchcase n pat) (tool_names m)
        \<longrightarrow> (\<exists>a. check_approval (VStr (approval_or_write m)) = Some a \<and> rank c \<le> rank a))"

lemma apply_floor_meets:
  assumes "apply_floor p m = Inr m'"
  shows "meets_floors p m' \<and> tool_names m' = tool_names m \<and> m_name m' = m_name m"
proof (cases "floor_for p (tool_names m)")
  case None
  with assms have "m' = m" by (simp add: apply_floor_def)
  with fold_floor_None[OF None[unfolded floor_for_def]] show ?thesis by (auto simp: meets_floors_def)
next
  case (Some f)
  with assms obtain a where m': "m' = m\<lparr>m_approval := Some (approval_name (stricter a f))\<rparr>"
    by (auto simp: apply_floor_def)
  have "rank c \<le> rank (stricter a f)"
    if "(pat, c) \<in> set (tp_approval_floor p)" "list_ex (\<lambda>n. fnmatchcase n pat) (tool_names m)" for pat c
    using fold_floor_rank[OF Some[unfolded floor_for_def]] that rank_stricter(2)[of f a] by fastforce
  then show ?thesis by (auto simp: meets_floors_def m')
qed

section \<open>Builders of sources\<close>

locale source_builder =
  fixes build :: "pydict \<Rightarrow> source_build_error + 'w source_tool list"
    and sound :: "'w source_tool \<Rightarrow> bool"
  assumes build_sound: "build decl = Inr ts \<Longrightarrow> t \<in> set ts \<Longrightarrow> sound t"
begin

text \<open>What holds of every tool of a set, and of the set.\<close>

definition admitted :: "string list \<Rightarrow> tool_policy \<Rightarrow> 'w resolved_tool \<Rightarrow> bool" where
  "admitted entries p t \<longleftrightarrow>
     rt_name t = m_name (rt_manifest t) \<and> rt_approval t = approval_or_write (rt_manifest t)
     \<and> any_match (tool_names (rt_manifest t)) entries \<and> name_allowed p (tool_names (rt_manifest t))
     \<and> meets_floors p (rt_manifest t)
     \<and> (\<exists>s. sound s \<and> rt_method t = so_method s \<and> rt_kind t = so_kind s \<and> rt_safe_approval t = so_safe_approval s)"

definition set_ok :: "string list \<Rightarrow> tool_policy \<Rightarrow> (string \<times> 'w resolved_tool) list \<Rightarrow> bool" where
  "set_ok entries p tools \<longleftrightarrow>
     distinct (map fst tools) \<and> (\<forall>(n, t) \<in> set tools. n = rt_name t \<and> admitted entries p t)"

lemma add_tool_ok:
  assumes "add_tool entries p label item state t = Inr state'" and "set_ok entries p (fst state)" and "sound t"
  shows "set_ok entries p (fst state')"
proof (cases "any_match (tool_names (so_manifest t)) entries \<and> name_allowed p (tool_names (so_manifest t))")
  case False
  with assms show ?thesis by (auto simp: add_tool_def Let_def)
next
  case True
  with assms(1) obtain m' where m': "apply_floor p (so_manifest t) = Inr m'"
    and tools: "fst state' = AList.update (m_name (so_manifest t)) (resolve_tool item t m') (fst state)"
    by (auto simp: add_tool_def Let_def)
  have "admitted entries p (resolve_tool item t m')"
    using apply_floor_meets[OF m'] True assms(3) by (auto simp: admitted_def resolve_tool_def)
  moreover have "rt_name (resolve_tool item t m') = m_name (so_manifest t)"
    using apply_floor_meets[OF m'] by (simp add: resolve_tool_def)
  ultimately show ?thesis
    using assms(2) set_update_subset[of "m_name (so_manifest t)" "resolve_tool item t m'" "fst state"]
    by (auto simp: set_ok_def tools distinct_update)
qed

lemma add_source_ok:
  assumes "add_source build str error_text entries p state item = Inr state'" and "set_ok entries p (fst state)"
  shows "set_ok entries p (fst state')"
proof (cases "build (si_decl item)")
  case (Inl e)
  with assms show ?thesis by (auto simp: add_source_def split: if_splits)
next
  case (Inr ts)
  show ?thesis
  proof (cases "dict_get (si_decl item) ''enabled'' = VBool False")
    case True
    with assms show ?thesis by (simp add: add_source_def)
  next
    case False
    with assms(1) Inr have "efold (add_tool entries p (source_label str item) item) state ts = Inr state'"
      by (simp add: add_source_def)
    then show ?thesis
      by (rule efold_invariant[where P = "\<lambda>s. set_ok entries p (fst s)"])
         (use assms(2) build_sound[OF Inr] in \<open>auto intro: add_tool_ok\<close>)
  qed
qed

lemma built_set_ok:
  assumes "build_toolset build str error_text entries items hash p = Inr ts"
  shows "set_ok entries p (ts_tools ts)"
proof -
  from assms obtain state where "efold (add_source build str error_text entries p) ([], []) items = Inr state"
    "ts_tools ts = fst state"
    by (auto simp: build_toolset_def)
  moreover have "set_ok entries p (fst ([], []))" by (simp add: set_ok_def)
  ultimately show ?thesis
    using efold_invariant[of "add_source build str error_text entries p" "([], [])" items state
        "\<lambda>s. set_ok entries p (fst s)"] add_source_ok by metis
qed

lemma built_tool_admitted:
  assumes "build_toolset build str error_text entries items hash p = Inr ts" and "(n, t) \<in> set (ts_tools ts)"
  shows "n = rt_name t \<and> admitted entries p t"
  using built_set_ok[OF assms(1)] assms(2) by (auto simp: set_ok_def)

end

text \<open>A builder that gives every tool a known class: nothing can stop the set from being built.\<close>

locale classed_builder = source_builder +
  assumes classed: "sound t \<Longrightarrow> \<exists>a. m_approval (so_manifest t) = Some (approval_name a)"
begin

lemma add_tool_total:
  assumes "sound t"
  shows "\<exists>state'. add_tool entries p label item state t = Inr state'"
proof -
  from classed[OF assms] obtain a where "approval_or_write (so_manifest t) = approval_name a"
    by (auto simp: approval_or_write_def)
  then have "\<exists>m. apply_floor p (so_manifest t) = Inr m"
    by (cases "floor_for p (tool_names (so_manifest t))") (simp_all add: apply_floor_def need_def)
  then show ?thesis by (auto simp: add_tool_def Let_def)
qed

lemma sources_total: "(\<And>s x. x \<in> set xs \<Longrightarrow> \<exists>s'. f s x = Inr s') \<Longrightarrow> \<exists>s'. efold f s xs = Inr s'"
proof (induction xs arbitrary: s)
  case Nil
  then show ?case by simp
next
  case (Cons x xs)
  from Cons.prems[of x s] obtain s' where "f s x = Inr s'" by auto
  with Cons.IH[of s'] Cons.prems show ?case by auto
qed

lemma add_source_total: "\<exists>state'. add_source build str error_text entries p state item = Inr state'"
proof (cases "build (si_decl item)")
  case (Inr ts)
  then show ?thesis
    using sources_total[of ts "add_tool entries p (source_label str item) item" state]
      add_tool_total build_sound[OF Inr]
    by (auto simp: add_source_def)
qed (simp add: add_source_def)

lemma build_total: "\<exists>ts. build_toolset build str error_text entries items hash p = Inr ts"
  using sources_total[of items "add_source build str error_text entries p" "([], [])"] add_source_total
  by (auto simp: build_toolset_def)

end

section \<open>The builder of the model\<close>

text \<open>What the builders promise of a tool under a policy.\<close>

lemma known_class [simp]: "\<exists>a. approval_name c = approval_name a"
  by blast

definition sound_tool :: "tool_policy \<Rightarrow> 'w source_tool \<Rightarrow> bool" where
  "sound_tool p t \<longleftrightarrow>
     (\<exists>a. m_approval (so_manifest t) = Some (approval_name a))
     \<and> (so_method t = Some ''DELETE'' \<longrightarrow> tp_allow_delete p)"

lemma kept_operation_delete:
  assumes "kept_operations be (Some p) decl doc = Inr ops" and "op \<in> set ops" and "op_method op = ''DELETE''"
  shows "tp_allow_delete p"
proof -
  from assms(1) obtain allow deny methods tags ops0 where
    "traverse (override_approval decl) (filter_operations allow deny methods tags (tp_allow_delete p) ops0) = Inr ops"
    by (auto simp: kept_operations_def)
  from traverse_mem[OF this assms(2)] obtain op0 where
    "op0 \<in> set (filter_operations allow deny methods tags (tp_allow_delete p) ops0)"
    "override_approval decl op0 = Inr op" by blast
  moreover from this(2) have "op_method op0 = op_method op"
    by (auto simp: override_approval_def split: pyval.splits)
  ultimately show ?thesis
    using assms(3) by (auto simp: filter_operations_def operation_passes_def delete_passes_def Let_def)
qed

lemma validated_http_delete:
  assumes "validate_source_decl hostname str (VDict decl) (Some p) = Inr warns"
    and "plain_str (dict_get decl ''kind'') = ''http''" and "http_method str decl = ''DELETE''"
  shows "tp_allow_delete p"
  using assms
  by (auto simp: validate_source_decl_def check_decl_policy_def guard_def plain_str_def
           split: pyval.splits if_splits)

lemma build_source_sound:
  assumes b: "build_source_tools be (Some p) dry_run decl = Inr ts" and t: "t \<in> set ts"
  shows "sound_tool p t"
proof -
  from b obtain warns dry where
    valid: "validate_source_decl (be_hostname be) (be_str be) (VDict decl) (Some p) = Inr warns"
    and built: "(let name = plain_str (dict_get decl ''name''); kind = plain_str (dict_get decl ''kind'');
           st = source_store (Some p) name (be_store be)
       in if kind = ''openapi'' then build_openapi be (Some p) decl name st dry
          else if kind = ''http'' then build_http be decl name st dry
          else if kind = ''python'' then build_python be decl name
          else build_mcp be decl name) = Inr ts"
    by (auto simp: build_source_tools_def)
  consider (openapi) st where "build_openapi be (Some p) decl (plain_str (dict_get decl ''name'')) st dry = Inr ts"
    | (http) st where "build_http be decl (plain_str (dict_get decl ''name'')) st dry = Inr ts"
        "plain_str (dict_get decl ''kind'') = ''http''"
    | (python) "build_python be decl (plain_str (dict_get decl ''name'')) = Inr ts"
    | (mcp) "build_mcp be decl (plain_str (dict_get decl ''name'')) = Inr ts"
    using built by (auto simp: Let_def split: if_splits)
  then show ?thesis
  proof cases
    case openapi
    then obtain doc ops where ops: "kept_operations be (Some p) decl doc = Inr ops"
      and "\<exists>op \<in> set ops. so_method t = Some (op_method op)
             \<and> m_approval (so_manifest t) = Some (approval_name (op_approval op))"
      using t by (fastforce simp: build_openapi_def op_manifest_def)
    then show ?thesis using kept_operation_delete[OF ops] by (auto simp: sound_tool_def)
  next
    case http
    with t validated_http_delete[OF valid http(2)] show ?thesis
      by (auto simp: build_http_def sound_tool_def Let_def)
  next
    case python
    with t show ?thesis by (auto simp: build_python_def sound_tool_def)
  next
    case mcp
    then obtain tools where
      "traverse (\<lambda>(remote, annotations, m, h).
          let safe = mcp_approval remote annotations in
          ebind (approval_for decl (m_name m) safe) (\<lambda>a.
            Inr \<lparr>so_manifest = m\<lparr>m_approval := Some (approval_name a)\<rparr>, so_handler = h, so_kind = ''mcp'',
                 so_source = plain_str (dict_get decl ''name''), so_method = None, so_path = None,
                 so_safe_approval = safe\<rparr>)) tools = Inr ts"
      by (auto simp: build_mcp_def)
    from traverse_mem[OF this t] show ?thesis by (auto simp: sound_tool_def Let_def)
  qed
qed

interpretation sources: classed_builder "build_source_tools be (Some p) dry_run" "sound_tool p"
  for be :: "'v build_env" and p dry_run
  by unfold_locales (rule build_source_sound, assumption+, simp add: sound_tool_def)

end
