(* ===== verification/Http_Promises.thy ===== *)
theory Http_Promises
  imports Tool_Http
begin

text \<open>
  What a call over HTTP promises: an argument never adds a path segment, a query or a fragment
  to the URL, a call succeeds exactly on a 2xx answer, and a source's headers use only the
  secrets its grants name.
\<close>

section \<open>Path arguments\<close>

lemma count_char_append [simp]: "count_char c (a @ b) = count_char c a + count_char c b"
  by (simp add: count_char_def)

lemma count_char_none: "c \<notin> set s \<Longrightarrow> count_char c s = 0"
  by (auto simp: count_char_def filter_empty_conv)

lemma str_replace_count:
  assumes "c \<notin> set old" and "c \<notin> set new"
  shows "count_char c (str_replace old new s) = count_char c s"
  using assms
proof (induction old new s rule: str_replace.induct)
  case (1 old new s)
  show ?case
  proof (cases "old = [] \<or> s = []")
    case True
    then show ?thesis by (auto simp: str_replace.simps)
  next
    case False
    then obtain x xs where s: "s = x # xs" and old: "old \<noteq> []" by (cases s) auto
    show ?thesis
    proof (cases "starts_with old s")
      case True
      have "count_char c s = count_char c (take (length old) s) + count_char c (drop (length old) s)"
        by (metis append_take_drop_id count_char_append)
      moreover have "take (length old) s = old" using True by (simp add: starts_with_def)
      ultimately show ?thesis
        using 1 True s old by (simp add: str_replace_Cons count_char_none)
    next
      case False
      then show ?thesis using 1 s old by (simp add: str_replace_Cons) (simp add: count_char_def)
    qed
  qed
qed

definition unreserved :: "char \<Rightarrow> bool" where
  "unreserved c \<longleftrightarrow> is_alnum c \<or> c \<in> {CHR ''_'', CHR ''.'', CHR ''-'', CHR ''~'', CHR ''%''}"

lemma hex_upper: "d < 16 \<Longrightarrow> unreserved (upper_char (hex_digit d))"
  by (auto simp: hex_digit_def upper_char_def unreserved_def is_alnum_def is_digit_char_def is_alpha_def Let_def)

lemma pct_unreserved: "n < 256 \<Longrightarrow> c \<in> set (pct n) \<Longrightarrow> unreserved c"
  using hex_upper[of "n div 16"] hex_upper[of "n mod 16"]
  by (auto simp: pct_def unreserved_def)

lemma quote_char_unreserved: "c \<in> set (quote_char x) \<Longrightarrow> unreserved c"
proof -
  assume c: "c \<in> set (quote_char x)"
  have n: "(of_char x :: nat) < 256" by simp
  then have "192 + (of_char x :: nat) div 64 < 256" "128 + (of_char x :: nat) mod 64 < 256" by linarith+
  then show ?thesis
    using c n pct_unreserved[of "of_char x" c] pct_unreserved[of "192 + of_char x div 64" c]
      pct_unreserved[of "128 + of_char x mod 64" c]
    by (auto simp: quote_char_def Let_def unreserved_def split: if_splits)
qed

lemma quote_unreserved: "c \<in> set (quote s) \<Longrightarrow> unreserved c"
  by (auto simp: quote_def intro: quote_char_unreserved)

definition delimiters :: "string" where "delimiters = ''/?#''"

lemma delimiter_reserved: "c \<in> set delimiters \<Longrightarrow> \<not> unreserved c \<and> c \<notin> {CHR ''{'', CHR ''}''}"
  by (auto simp: delimiters_def unreserved_def is_alnum_def is_alpha_def is_digit_char_def)

lemma placeholder_count:
  "c \<in> set delimiters \<Longrightarrow> c \<notin> set key \<Longrightarrow>
     count_char c (str_replace (placeholder key) (quote v) s) = count_char c s"
  using delimiter_reserved[of c] quote_unreserved[of c v]
  by (intro str_replace_count) (auto simp: placeholder_def)

lemma fill_params_count:
  assumes "fill_params str args ps path query = Inr (path', query')" and "c \<in> set delimiters"
    and "\<forall>p \<in> set ps. c \<notin> set (ap_name p)"
  shows "count_char c path' = count_char c path"
  using assms
  by (induction str args ps path query rule: fill_params.induct)
     (auto simp: placeholder_count split: option.splits bool.splits if_splits)


text \<open>A dot is left as it is, so a segment can become a parent reference.\<close>

lemma quote_keeps_dots: "quote ''..'' = ''..''"
  by (simp add: quote_def quote_char_def)

section \<open>Endpoints\<close>

lemma dict_pop_keeps: "dict_lookup (dict_pop k d) k' \<noteq> None \<Longrightarrow> dict_lookup d k' \<noteq> None"
  using dict_pop_subset[of k d] unfolding dict_lookup_def map_of_eq_None_iff by auto

lemma fill_placeholders_distinct:
  assumes "fill_placeholders str ks target args = Inr r"
  shows "distinct ks \<and> (\<forall>k \<in> set ks. dict_lookup args k \<noteq> None)"
  using assms
proof (induction str ks target args rule: fill_placeholders.induct)
  case (2 str k ks target args)
  from "2.prems" obtain v where v: "dict_lookup args k = Some v"
    "fill_placeholders str ks (str_replace (placeholder k) (quote (str v)) target) (dict_pop k args) = Inr r"
    by (auto split: option.splits)
  from "2.IH"[OF v] have ih: "distinct ks" "\<forall>k' \<in> set ks. dict_lookup (dict_pop k args) k' \<noteq> None" by auto
  moreover have "dict_lookup args k' \<noteq> None" if "dict_lookup (dict_pop k args) k' \<noteq> None" for k'
    using that by (rule dict_pop_keeps)
  moreover have "k \<notin> set ks" using ih(2) by auto
  ultimately show ?case using v(1) by auto
qed simp

text \<open>An endpoint whose URL names a placeholder twice refuses every call, whatever its arguments.\<close>

theorem repeated_placeholder_refuses:
  assumes "\<not> distinct (placeholders url)"
  shows "\<exists>key. endpoint_plan str name verb url args = Inl (missing_path_parameter name key)"
  using assms fill_placeholders_distinct[of str "placeholders url" url args]
  by (auto simp: endpoint_plan_def split: sum.splits)

section \<open>Results\<close>

lemma tool_ok_is_ok [simp]: "is_ok (tool_ok payload [])"
  by (simp add: tool_ok_def is_ok_def dict_get_default_def dict_lookup_def)

lemma tool_error_not_ok [simp]: "\<not> is_ok (tool_error e payload [])"
  by (simp add: tool_error_def is_ok_def dict_get_default_def dict_lookup_def)

text \<open>
  A call succeeds exactly when its headers resolve and the client answers with a 2xx status;
  it asks the client at most once, and never when a header is missing.
\<close>

theorem send_succeeds_iff:
  "(let (r, t, v) = send io specs extra timeout plan (trail, w) in
      is_ok r = (\<exists>hs t' resp. resolve_headers io specs [] trail = (Inr hs, t')
                   \<and> fst (io_client io (request_of plan (fold (\<lambda>(k, v) out. AList.update k v out) extra hs) timeout) w)
                       = Inr resp \<and> 200 \<le> rs_status resp \<and> rs_status resp < 300)
      \<and> (isl (fst (resolve_headers io specs [] trail)) \<longrightarrow> v = w))"
proof -
  have ok: "is_ok (map_response resp) \<longleftrightarrow> 200 \<le> rs_status resp \<and> rs_status resp < 300" for resp
    by (auto simp: map_response_def Let_def)
  show ?thesis
    by (auto simp: send_def ok Let_def split: prod.splits sum.splits)
qed

section \<open>Secrets\<close>

text \<open>The secrets a header names.\<close>

definition header_ref :: "(pyval \<Rightarrow> string) \<Rightarrow> pyval \<Rightarrow> string option" where
  "header_ref str spec = (case spec of VDict d \<Rightarrow> map_option str (dict_lookup d ''secret_ref'') | _ \<Rightarrow> None)"

lemma split_ref_join:
  assumes "split_ref ref = Inr (provider, handle)"
  shows "ref = provider @ '':'' @ handle"
proof -
  let ?p = "takeWhile (\<lambda>c. c \<noteq> CHR '':'') ref"
  from assms have ph: "provider = ?p" "handle = drop (Suc (length ?p)) ref" and "count_char CHR '':'' ref = 1"
    by (auto simp: split_ref_def Let_def split: if_splits)
  then have "CHR '':'' \<in> set ref" by (metis count_char_none zero_neq_one)
  then have "dropWhile (\<lambda>c. c \<noteq> CHR '':'') ref = CHR '':'' # handle"
    using ph(2) by (induction ref) auto
  then show ?thesis using ph(1) by (metis append_Cons append_Nil takeWhile_dropWhile_id)
qed

lemma scoped_secret_granted:
  assumes "resolve_secret (scoped_store st grants audited) ref trail = (Inr v, t)"
  shows "granted grants ref"
  using assms split_ref_join[of ref]
  by (auto simp: resolve_secret_def scoped_store_def scope_allows_def split: sum.splits if_splits prod.splits)

lemma resolve_headers_granted:
  assumes "resolve_headers io specs out trail = (Inr hs, t)"
    and "io_store io = scoped_store st grants audited" and "(k, spec) \<in> set specs"
    and "header_ref (io_str io) spec = Some ref"
  shows "granted grants ref"
  using assms
proof (induction io specs out trail rule: resolve_headers.induct)
  case (2 io k' spec' specs out trail)
  from "2.prems"(1) obtain v t' where head: "resolve_header io (key_str k') spec' trail = (Inr v, t')"
    and rest: "resolve_headers io specs (AList.update (key_str k') v out) t' = (Inr hs, t)"
    by (auto split: prod.splits sum.splits)
  show ?case
  proof (cases "(k, spec) = (k', spec')")
    case True
    with head "2.prems"(2,4) show ?thesis
      by (auto simp: resolve_header_def header_ref_def has_key_def dict_get_def Let_def
               split: pyval.splits if_splits prod.splits sum.splits option.splits
               dest: scoped_secret_granted)
  next
    case False
    with "2.prems"(3) have "(k, spec) \<in> set specs" by auto
    with "2.IH"[OF head[symmetric] refl rest] "2.prems"(2,4) show ?thesis by blast
  qed
qed simp

text \<open>
  C22: under grants a handler reaches the client only if every secret its headers name is granted;
  otherwise the call fails and the client's world is untouched.
\<close>

theorem ungranted_secret_stops_call:
  assumes "io_store io = scoped_store st grants audited" and "(k, spec) \<in> set specs"
    and "header_ref (io_str io) spec = Some ref" and "\<not> granted grants ref"
    and "plan_handler io specs extra timeout plan args (trail, w) = (res, (t, w'))"
  shows "w' = w \<and> (\<exists>d. res = Inr d \<and> (plan args = Inl d \<or> \<not> is_ok d))"
proof (cases "plan args")
  case (Inl d)
  with assms(5) show ?thesis by (auto simp: plan_handler_def)
next
  case (Inr p)
  obtain e t' where "resolve_headers io specs [] trail = (Inl e, t')"
    using resolve_headers_granted[OF _ assms(1,2,3)] assms(4)
    by (metis prod.collapse sum.exhaust)
  with assms(5) Inr show ?thesis by (auto simp: plan_handler_def send_def)
qed

end
