(* ===== verification/OpenApi_Promises.thy ===== *)
theory OpenApi_Promises
  imports OpenApi
begin

text \<open>
  What the operations of a document promise: every one comes from a path and a method of the
  document, answers to its operation id, has a short readable name and a bounded description,
  and an approval class that only the declaration's own map can loosen.
\<close>

section \<open>Where an operation comes from\<close>

lemma build_operation_fields:
  assumes "build_operation str doc nm path verb op shared name op_id aliases parts = Inr r"
  obtains "op_name r = name" "op_operation_id r = op_id" "op_method r = map upper_char verb" "op_path r = path"
    "op_aliases r = aliases"
    "op_safe_approval r = safe_approval (Some verb) [name, op_id, path, op_summary r]"
    "operation_approval (nm_approvals nm) name op_id (dict_get op ''x-fabri-approval'') (op_safe_approval r)
       = Inr (op_approval r)"
    "op_description r = compose_description (op_summary r) (op_text r) (op_responses r)
                          (map upper_char verb @ '' '' @ path) (nm_cap nm)"
  using assms by (auto simp: build_operation_def Let_def)

definition built_from ::
  "(pyval \<Rightarrow> string) \<Rightarrow> (string \<Rightarrow> string) \<Rightarrow> pydict \<Rightarrow> naming \<Rightarrow> raw_operation list \<Rightarrow> string list
     \<Rightarrow> operation \<Rightarrow> bool" where
  "built_from str digest doc nm raws pretties r \<longleftrightarrow>
     (\<exists>path verb op shared parts pretty used primary op_id aliases.
        (path, verb, op, shared) \<in> set raws \<and> pretty \<in> set pretties
        \<and> primary_name str digest nm used (path, verb, op, shared) pretty = (primary, op_id, aliases)
        \<and> build_operation str doc nm path verb op shared primary op_id aliases parts = Inr r)"

definition pretty_names ::
  "(string \<Rightarrow> string) \<Rightarrow> raw_operation list \<Rightarrow> (string \<times> string) list \<Rightarrow> string list" where
  "pretty_names digest raws partss =
     unique_names digest [] (map (\<lambda>((path, verb, _), parts). (verb, path, joined parts)) (zip raws partss))"

lemma build_step_from:
  assumes "build_step str digest doc nm (used, ops) ((path, verb, op, shared), parts, pretty) = Inr state'"
    and "(path, verb, op, shared) \<in> set raws" and "pretty \<in> set pretties"
    and "\<forall>r \<in> set ops. built_from str digest doc nm raws pretties r"
  shows "\<forall>r \<in> set (snd state'). built_from str digest doc nm raws pretties r"
proof -
  obtain primary op_id aliases where
    name: "primary_name str digest nm used (path, verb, op, shared) pretty = (primary, op_id, aliases)"
    by (metis prod.collapse)
  from assms(1) obtain r where
    r: "build_operation str doc nm path verb op shared primary op_id aliases parts = Inr r"
    and state': "state' = (primary # used, ops @ [r])"
    by (auto simp: build_step_def name)
  have "built_from str digest doc nm raws pretties r"
    unfolding built_from_def using assms(2,3) name r by blast
  with assms(4) state' show ?thesis by auto
qed

lemma parse_operations_mem:
  assumes "parse_operations str digest doc nm = Inr ops" and "r \<in> set ops"
  obtains raws partss where "raw_operations doc = Inr raws" "traverse (readable_base nm) raws = Inr partss"
    "built_from str digest doc nm raws (pretty_names digest raws partss) r"
proof -
  from assms(1) obtain raws partss used' where
    raws: "raw_operations doc = Inr raws" and partss: "traverse (readable_base nm) raws = Inr partss"
    and loop: "efold (build_step str digest doc nm) ([], [])
        (zip raws (zip partss (pretty_names digest raws partss))) = Inr (used', ops)"
    by (auto simp: parse_operations_def pretty_names_def Let_def)
  let ?from = "built_from str digest doc nm raws (pretty_names digest raws partss)"
  have "\<forall>r \<in> set (snd (used', ops)). ?from r"
  proof (rule efold_invariant[OF loop, where P = "\<lambda>s. \<forall>r \<in> set (snd s). ?from r"], goal_cases)
    case (2 state entry state')
    obtain used ops path verb op shared parts pretty where
      "state = (used, ops)" "entry = ((path, verb, op, shared), parts, pretty)"
      by (metis prod.collapse)
    with 2 show ?case
      by (intro build_step_from[of str digest doc nm used ops path verb op shared parts pretty])
         (auto dest: set_zip_leftD set_zip_rightD)
  qed simp
  with assms(2) raws partss that show thesis by simp
qed

lemma pretty_names_readable:
  assumes "hex_digest digest" and "n \<in> set (pretty_names digest raws partss)"
  shows "readable_name n"
  using assms(2) unfolding pretty_names_def
  by (rule unique_names_readable[OF assms(1), rotated]) (auto simp: joined_def clip_name_readable)

section \<open>Names\<close>

text \<open>
  Without overrides every tool of a document has a readable name: one to 64 lower-case
  letters, digits and underscores.
\<close>

theorem document_tool_names:
  assumes "hex_digest digest" and "\<not> nm_operation_id nm" and "nm_names nm = []"
    and "parse_operations str digest doc nm = Inr ops" and "r \<in> set ops"
  shows "readable_name (op_name r)"
  using assms(4,5)
proof (rule parse_operations_mem)
  fix raws partss
  assume "built_from str digest doc nm raws (pretty_names digest raws partss) r"
  then obtain path verb op shared parts pretty used op_id aliases where
    pretty: "pretty \<in> set (pretty_names digest raws partss)"
    and name: "primary_name str digest nm used (path, verb, op, shared) pretty = (op_name r, op_id, aliases)"
    by (auto simp: built_from_def elim!: build_operation_fields)
  have "op_name r = pretty \<or> op_name r = suffixed digest pretty (verb @ '' '' @ path)"
    using name assms(2,3) by (auto simp: primary_name_def dict_get_def dict_lookup_def Let_def split: if_splits)
  then show ?thesis using pretty_names_readable[OF assms(1) pretty] suffixed_readable[OF assms(1)] by auto
qed

text \<open>Whatever its name, an operation still answers to its operation id.\<close>

theorem operation_id_resolves:
  assumes "parse_operations str digest doc nm = Inr ops" and "r \<in> set ops"
  shows "op_operation_id r \<in> set (op_name r # op_aliases r)"
  using assms
proof (rule parse_operations_mem)
  fix raws partss
  assume "built_from str digest doc nm raws (pretty_names digest raws partss) r"
  then obtain path verb op shared pretty used where
    "primary_name str digest nm used (path, verb, op, shared) pretty
       = (op_name r, op_operation_id r, op_aliases r)"
    by (auto simp: built_from_def elim!: build_operation_fields)
  then have "op_aliases r = filter (\<lambda>a. a \<noteq> op_name r) (first_occurrences [op_operation_id r, pretty])"
    by (auto simp: primary_name_def Let_def)
  then show ?thesis by (auto simp: first_occurrences_def)
qed

section \<open>Descriptions\<close>

lemma length_rstrip: "length (rstrip s) \<le> length s"
  by (simp add: rstrip_def) (metis length_dropWhile_le length_rev)

lemma cut_text_length: "3 \<le> cap \<Longrightarrow> int (length (cut_text s cap)) \<le> cap"
  using length_rstrip[of "take (nat (cap - 3)) s"] by (auto simp: cut_text_def)

lemma compose_description_length:
  assumes "3 \<le> cap"
  shows "int (length (compose_description summary detail responses fallback cap)) \<le> cap"
proof -
  have "int (length (cut_text b (cap - int (length (responses_line responses)) - 1)
               @ [CHR 0x0A] @ responses_line responses)) \<le> cap"
    if "40 \<le> cap - int (length (responses_line responses)) - 1" for b
    using cut_text_length[of "cap - int (length (responses_line responses)) - 1" b] that by simp
  then show ?thesis
    using cut_text_length[OF assms] by (auto simp: compose_description_def Let_def)
qed

section \<open>Approval classes\<close>

text \<open>
  C20: the approval class of an operation the declaration's map does not name is at least the
  one its method and names call for; a DELETE is always approved by a human.
\<close>

theorem document_only_tightens:
  assumes "parse_operations str digest doc nm = Inr ops" and "r \<in> set ops"
    and "\<not> truthy (dict_get (nm_approvals nm) (op_name r))"
    and "\<not> truthy (dict_get (nm_approvals nm) (op_operation_id r))"
  shows "rank (op_safe_approval r) \<le> rank (op_approval r)
         \<and> (op_method r = ''DELETE'' \<longrightarrow> op_approval r = AlwaysApprove)"
  using assms(1,2)
proof (rule parse_operations_mem)
  fix raws partss
  assume "built_from str digest doc nm raws (pretty_names digest raws partss) r"
  then obtain path verb op where
    verb_eq: "op_method r = map upper_char verb"
    and class_eq: "op_safe_approval r = safe_approval (Some verb) [op_name r, op_operation_id r, path, op_summary r]"
    and appr: "operation_approval (nm_approvals nm) (op_name r) (op_operation_id r)
                 (dict_get op ''x-fabri-approval'') (op_safe_approval r) = Inr (op_approval r)"
    by (auto simp: built_from_def elim!: build_operation_fields)
  have rank: "rank (op_safe_approval r) \<le> rank (op_approval r)"
    using appr assms(3,4)
    by (auto simp: operation_approval_def split: if_splits option.splits) (metis rank_stricter(2))
  moreover have "op_approval r = AlwaysApprove" if "op_method r = ''DELETE''"
  proof -
    have "op_safe_approval r = AlwaysApprove"
      using that verb_eq class_eq by (simp add: safe_approval_def read_methods_def)
    with rank show ?thesis by (cases "op_approval r") (auto simp: rank_def)
  qed
  ultimately show ?thesis by blast
qed

section \<open>Input schemas\<close>

definition subs_free :: "pydict \<Rightarrow> bool" where
  "subs_free props \<longleftrightarrow> (\<forall>(n, v) \<in> set props. ref_free v)"

lemma subs_free_put: "subs_free props \<Longrightarrow> ref_free v \<Longrightarrow> subs_free (AList.update k v props)"
  using set_update_subset[of k v props] by (auto simp: subs_free_def)

lemma read_param_free:
  assumes "read_param str doc entry = Inr ps" and "p \<in> set ps"
  shows "ref_free (VDict (ap_schema p))"
proof -
  obtain raw s where "schema str doc [] raw = Inr s" "ap_schema p = (case s of VDict d \<Rightarrow> d | _ \<Rightarrow> [])"
    using assms unfolding read_param_def Let_def
    by (cases entry) (auto simp del: schema.simps split: if_splits prod.splits)
  then show ?thesis using schema_free[of str doc "[]" raw s] by (cases s) (auto simp: ref_free_dict)
qed

lemma param_property_free:
  assumes "ref_free (VDict (ap_schema p))" and "subs_free props"
  shows "subs_free (param_property p props)"
proof -
  have "ref_free (VDict (dict_put ''description'' v (ap_schema p)))" for v
    by (rule ref_free_put[OF assms(1)]) (simp add: entry_free_iff)
  with assms show ?thesis by (auto simp: param_property_def dict_put_def intro!: subs_free_put)
qed

lemma params_free:
  "\<forall>p \<in> set ps. ref_free (VDict (ap_schema p)) \<Longrightarrow> subs_free props \<Longrightarrow> subs_free (fold param_property ps props)"
  by (induction ps arbitrary: props) (auto intro: param_property_free)

lemma writable_free:
  assumes "ref_free (VDict s)" and "items_or_empty (dict_get s ''properties'') = Inr props"
  shows "subs_free (writable props)"
proof (cases "dict_lookup s ''properties''")
  case None
  with assms(2) show ?thesis by (simp add: dict_get_def items_or_empty_def subs_free_def writable_def)
next
  case (Some v)
  from assms(2) have "props = [] \<or> v = VDict props"
    by (auto simp: dict_get_def Some items_or_empty_def split: if_splits pyval.splits)
  with ref_free_lookup[OF assms(1) Some] show ?thesis
    by (force simp: entry_free_iff subs_free_def writable_def)
qed

lemma drop_read_only_free:
  "ref_free v \<Longrightarrow> ref_free (case v of VDict e \<Rightarrow> VDict (dict_pop ''readOnly'' e) | _ \<Rightarrow> v)"
  by (cases v) (auto intro: ref_free_pop)

lemma fold_own_free:
  "subs_free own \<Longrightarrow> subs_free props \<Longrightarrow>
     subs_free (fold (\<lambda>(k, v) out. AList.update k
       (case v of VDict e \<Rightarrow> VDict (dict_pop ''readOnly'' e) | _ \<Rightarrow> v) out) own props)"
proof (induction own arbitrary: props)
  case Nil
  then show ?case by simp
next
  case (Cons kv own)
  obtain k v where kv: "kv = (k, v)" by fastforce
  have v: "ref_free v" "subs_free own" using Cons.prems(1) by (auto simp: kv subs_free_def)
  show ?case
    using Cons.IH[OF v(2) subs_free_put[OF Cons.prems(2) drop_read_only_free[OF v(1)]]] by (simp add: kv)
qed

lemma place_body_free:
  assumes "place_body s props b = Inr b'" and "ref_free (VDict s)" and "subs_free props"
  shows "subs_free (bd_properties b')"
proof -
  from assms(1) obtain all_props where
    all_props: "items_or_empty (dict_get s ''properties'') = Inr all_props"
    by (auto simp: place_body_def)
  have "bd_properties b' = dict_put ''body'' (VDict s) props
        \<or> bd_properties b' = fold (\<lambda>(k, v) out. AList.update k
            (case v of VDict e \<Rightarrow> VDict (dict_pop ''readOnly'' e) | _ \<Rightarrow> v) out) (writable all_props) props"
    using assms(1) by (auto simp: place_body_def all_props Let_def split: if_splits)
  then show ?thesis
  proof
    assume "bd_properties b' = dict_put ''body'' (VDict s) props"
    with assms(2,3) show ?thesis by (simp add: dict_put_def subs_free_put)
  qed (simp add: fold_own_free[OF writable_free[OF assms(2) all_props] assms(3)])
qed

lemma media_body_free:
  assumes "media_body str doc required ct media props = Inr b" and "subs_free props"
  shows "subs_free (bd_properties b)"
proof -
  from assms(1) obtain raw s where s: "schema str doc [] raw = Inr s"
    and b: "(case s of
              VDict d \<Rightarrow> place_body d props ((no_body props)\<lparr>bd_type := ct, bd_required := required, bd_schema := Some d\<rparr>)
            | _ \<Rightarrow> Inr ((no_body props)\<lparr>bd_type := ct, bd_required := required\<rparr>)) = Inr b"
    unfolding media_body_def Let_def by (auto simp del: schema.simps)
  then show ?thesis
    using schema_free[OF s] assms(2) by (cases s) (auto simp: no_body_def intro: place_body_free)
qed

lemma read_body_free:
  assumes "read_body str doc op props = Inr b" and "subs_free props"
  shows "subs_free (bd_properties b)"
proof -
  from assms(1) obtain rb where
    "(case rb of
        VDict r \<Rightarrow>
          ebind (pick_content (dict_get r ''content'')) (\<lambda>picked.
            case picked of
              None \<Rightarrow> Inr (no_body props)
            | Some (ct, media) \<Rightarrow> media_body str doc (truthy (dict_get r ''required'')) ct media props)
      | _ \<Rightarrow> Inr (no_body props)) = Inr b"
    unfolding read_body_def ebind_Inr_iff by blast
  then show ?thesis
    using assms(2) by (cases rb) (auto simp: no_body_def split: option.splits intro: media_body_free)
qed


end
