(* ===== verification/Toolset_Promises.thy ===== *)
theory Toolset_Promises
  imports Toolset_Laws Http_Promises OpenApi_Promises
begin

text \<open>
  What a resolved tool set promises: it is always built, its tools stay within the layers' allow
  entries and the caller's policy, the approval map agrees with the lookup of a tool, and the
  floor of the policy reaches the registry's approval gate.
\<close>

section \<open>Within the policy\<close>

text \<open>The policy in force: the caller's, or the permissive one, with the global allow list.\<close>

definition policy_in_force :: "tool_policy option \<Rightarrow> string list option \<Rightarrow> tool_policy" where
  "policy_in_force policy global_allow =
     (let p = (case policy of None \<Rightarrow> permissive None | Some q \<Rightarrow> q)
      in case global_allow of None \<Rightarrow> p | Some allow \<Rightarrow> with_allow p (Some allow))"

lemma resolve_tools_built:
  "resolve_tools be error_text dry_run entries items hash policy global_allow =
     build_toolset (build_source_tools be (Some (policy_in_force policy global_allow)) dry_run) (be_str be)
       error_text entries items hash (policy_in_force policy global_allow)"
  by (simp add: resolve_tools_def policy_in_force_def Let_def)

text \<open>
  C13: every tool of a resolved set matches an allow entry of a layer and the caller's allow list by
  one of its names, has at least the class of every floor that matches it, and is a DELETE only
  if the policy allows them.
\<close>

theorem toolset_within_policy:
  fixes be :: "'v build_env"
  assumes "resolve_tools be error_text dry_run entries items hash policy global_allow = Inr ts"
    and "(n, t) \<in> set (ts_tools ts)"
  shows "let p = policy_in_force policy global_allow; names = rt_name t # rt_aliases t in
    n = rt_name t \<and> any_match names entries \<and> name_allowed p names
    \<and> (\<forall>(pat, c) \<in> set (tp_approval_floor p). list_ex (\<lambda>n. fnmatchcase n pat) names \<longrightarrow>
         (\<exists>a. check_approval (VStr (rt_approval t)) = Some a \<and> rank c \<le> rank a))
    \<and> (rt_method t = Some ''DELETE'' \<longrightarrow> tp_allow_delete p)"
proof -
  let ?p = "policy_in_force policy global_allow"
  from assms(1) have built: "build_toolset (build_source_tools be (Some ?p) dry_run) (be_str be)
      error_text entries items hash ?p = Inr ts"
    by (simp add: resolve_tools_built)
  from sources.built_tool_admitted[OF built assms(2)] obtain s :: "(audit \<times> 'v) source_tool" where
    adm: "n = rt_name t" "rt_name t = m_name (rt_manifest t)" "rt_approval t = approval_or_write (rt_manifest t)"
      "any_match (tool_names (rt_manifest t)) entries" "name_allowed ?p (tool_names (rt_manifest t))"
      "meets_floors ?p (rt_manifest t)"
    and s: "sound_tool ?p s" "rt_method t = so_method s"
    unfolding sources.admitted_def by blast
  have names: "tool_names (rt_manifest t) = rt_name t # rt_aliases t"
    by (simp add: tool_names_def rt_aliases_def adm(2))
  show ?thesis
    using adm s by (simp add: Let_def names meets_floors_def sound_tool_def)
qed


section \<open>The approval map\<close>

lemma find_distinct: "distinct (map f (t # us)) \<Longrightarrow> List.find (\<lambda>u. f u = f t) us = None"
  by (induction us) auto

lemma map_of_set_defaults:
  "map_of (fold (\<lambda>a. set_default a v) as d) k =
     (case map_of d k of Some x \<Rightarrow> Some x | None \<Rightarrow> if k \<in> set as then Some v else None)"
  by (induction as arbitrary: d) (auto simp: set_default_def update_conv' split: option.splits)

lemma map_of_add_approvals:
  "map_of (add_approvals t out) k =
     (if k = rt_name t then Some (rt_approval t)
      else case map_of out k of Some a \<Rightarrow> Some a
           | None \<Rightarrow> if k \<in> set (rt_aliases t) then Some (rt_approval t) else None)"
  by (simp add: add_approvals_def map_of_set_defaults update_conv' split: option.splits)

lemma map_of_fold_approvals:
  "distinct (map rt_name us) \<Longrightarrow>
     map_of (fold add_approvals us out) k =
       (case List.find (\<lambda>t. rt_name t = k) us of
          Some t \<Rightarrow> Some (rt_approval t)
        | None \<Rightarrow> (case map_of out k of Some a \<Rightarrow> Some a
                   | None \<Rightarrow> map_option rt_approval (List.find (\<lambda>t. k \<in> set (rt_aliases t)) us)))"
proof (induction us arbitrary: out)
  case Nil
  then show ?case by (simp split: option.splits)
next
  case (Cons t us)
  from Cons.prems find_distinct[of rt_name t us]
  have "List.find (\<lambda>u. rt_name u = k) us = None" if "k = rt_name t"
    using that by simp
  with Cons show ?case by (auto simp: map_of_add_approvals split: option.splits)
qed

lemma find_keyed:
  "\<forall>(n, t) \<in> set tools. n = f t \<Longrightarrow> List.find (\<lambda>t. f t = k) (map snd tools) = map_of tools k"
  by (induction tools) auto

text \<open>
  The approval map a host's gate reads and the lookup of a tool agree on every name and
  alias, also where an alias of one tool is the name of another.
\<close>

theorem approvals_agree_with_lookup:
  assumes "resolve_tools be error_text dry_run entries items hash policy global_allow = Inr ts"
  shows "approval_of ts name = map_option rt_approval (get_tool ts name)"
proof -
  let ?p = "policy_in_force policy global_allow"
  from assms have "build_toolset (build_source_tools be (Some ?p) dry_run) (be_str be)
      error_text entries items hash ?p = Inr ts"
    by (simp add: resolve_tools_built)
  from sources.built_set_ok[OF this]
  have keyed: "\<forall>(n, t) \<in> set (ts_tools ts). n = rt_name t" and dist: "distinct (map fst (ts_tools ts))"
    by (auto simp: sources.set_ok_def)
  have "map rt_name (map snd (ts_tools ts)) = map fst (ts_tools ts)" using keyed by auto
  with dist have "distinct (map rt_name (map snd (ts_tools ts)))" by metis
  from map_of_fold_approvals[OF this, of "[]" name] find_keyed[of "ts_tools ts" rt_name name] keyed show ?thesis
    by (auto simp: approval_of_def approvals_def get_tool_def split: option.splits)
qed

section \<open>The approval gate\<close>

lemma check_call_no_approver: "check_call reg c args m w = (ref, w') \<Longrightarrow> r_approver reg = None \<Longrightarrow> w' = w"
  by (cases args) (auto simp: check_call_def Let_def split: if_splits)

lemma check_approval_Some: "check_approval (VStr s) = Some a \<Longrightarrow> s = approval_name a"
  by (auto simp: check_approval_def split: if_splits)

lemma always_from_floor:
  assumes "meets_floors p m" and "(pat, AlwaysApprove) \<in> set (tp_approval_floor p)"
    and "list_ex (\<lambda>n. fnmatchcase n pat) (tool_names m)"
  shows "m_approval m = Some ''always_approve''"
proof -
  from assms obtain a where a: "check_approval (VStr (approval_or_write m)) = Some a" "rank AlwaysApprove \<le> rank a"
    unfolding meets_floors_def by blast
  from a(2) have "a = AlwaysApprove" by (cases a) (simp_all add: rank_def)
  with check_approval_Some[OF a(1)] have "approval_or_write m = ''always_approve''"
    by (simp add: approval_name_def)
  then show ?thesis by (auto simp: approval_or_write_def split: option.splits if_splits)
qed

lemma register_all:
  fixes reg :: "'w registry"
  assumes "distinct (map (m_name \<circ> rt_manifest) us)"
  shows "r_approver (fold (\<lambda>t reg. register_callable (rt_manifest t) (rt_handler t) reg) us reg) = r_approver reg
    \<and> map_of (r_tools (fold (\<lambda>t reg. register_callable (rt_manifest t) (rt_handler t) reg) us reg)) k =
        (case List.find (\<lambda>t. m_name (rt_manifest t) = k) us of
           Some t \<Rightarrow> Some (rt_manifest t) | None \<Rightarrow> map_of (r_tools reg) k)"
  using assms
proof (induction us arbitrary: reg)
  case Nil
  then show ?case by simp
next
  case (Cons t us)
  from Cons.prems find_distinct[of "m_name \<circ> rt_manifest" t us]
  have "List.find (\<lambda>u. m_name (rt_manifest u) = k) us = None" if "k = m_name (rt_manifest t)"
    using that by (simp add: comp_def)
  with Cons.prems Cons.IH[of "register_callable (rt_manifest t) (rt_handler t) reg"] show ?case
    by (auto simp: register_callable_def update_conv' split: option.splits)
qed


end
