(* ===== verification/Tool_Examples.thy ===== *)
theory Tool_Examples
  imports Toolset_Promises
begin

text \<open>
  Concrete documents, declarations and policies on which the promises of the dynamic tools are
  applied: a document with a recursive schema, an HTTP source with a secret under a policy with
  a floor, and a source whose secret is not granted.
\<close>

section \<open>A document\<close>

definition pet_doc :: pydict where
  "pet_doc =
     [(KStr ''openapi'', VStr ''3.0.1''),
      (KStr ''paths'', VDict
        [(KStr ''/pets/{id}'', VDict
           [(KStr ''delete'', VDict [(KStr ''operationId'', VStr ''deletePet''),
              (KStr ''parameters'', VList [VDict [(KStr ''name'', VStr ''id''), (KStr ''in'', VStr ''path'')]])])]),
         (KStr ''/pets'', VDict
           [(KStr ''post'', VDict
              [(KStr ''operationId'', VStr ''addPet''),
               (KStr ''x-fabri-approval'', VStr ''read''),
               (KStr ''requestBody'', VDict
                 [(KStr ''required'', VBool True),
                  (KStr ''content'', VDict [(KStr ''application/json'', VDict
                     [(KStr ''schema'', VDict [(KStr ''$ref'', VStr ''#/components/schemas/Pet'')])])])])])])]),
      (KStr ''components'', VDict
        [(KStr ''schemas'', VDict
           [(KStr ''Pet'', VDict
              [(KStr ''type'', VStr ''object''),
               (KStr ''properties'', VDict
                 [(KStr ''name'', VDict [(KStr ''type'', VStr ''string'')]),
                  (KStr ''parent'', VDict [(KStr ''$ref'', VStr ''#/components/schemas/Pet'')])])])])])]"

definition plain_text :: "pyval \<Rightarrow> string" where
  "plain_text v = (case v of VStr s \<Rightarrow> s | _ \<Rightarrow> ''?'')"

definition pet_naming :: naming where
  "pet_naming = \<lparr>nm_operation_id = False, nm_names = [], nm_strips = [''api''], nm_approvals = [], nm_cap = 1500\<rparr>"

abbreviation pet_operations :: "api_error + operation list" where
  "pet_operations \<equiv> parse_operations plain_text (\<lambda>_. ''0000'') pet_doc pet_naming"

definition pet_args :: pydict where "pet_args = [(KStr ''id'', VStr ''a/../b?x=1'')]"

lemma pet_operations_value:
  "case pet_operations of
     Inl _ \<Rightarrow> False
   | Inr ops \<Rightarrow>
       map (\<lambda>p. (op_name p, op_operation_id p, op_method p, map ap_name (op_params p))) ops
         = [(''pet_create'', ''addPet'', ''POST'', []), (''pet_delete'', ''deletePet'', ''DELETE'', [''id''])]
       \<and> (case operation_plan plain_text ''https://pets.test/'' (ops ! 1) pet_args of
            Inl _ \<Rightarrow> False | Inr plan \<Rightarrow> cp_url plan = ''https://pets.test/pets/a%2F..%2Fb%3Fx%3D1'')
       \<and> op_path (ops ! 1) = ''/pets/{id}''"
  by code_simp

lemma pet_operations_obtain:
  obtains ops plan where "pet_operations = Inr ops" "ops ! 0 \<in> set ops" "ops ! 1 \<in> set ops"
    "op_name (ops ! 0) = ''pet_create''" "op_operation_id (ops ! 0) = ''addPet''"
    "op_name (ops ! 1) = ''pet_delete''" "op_operation_id (ops ! 1) = ''deletePet''" "op_method (ops ! 1) = ''DELETE''"
    "map ap_name (op_params (ops ! 1)) = [''id'']" "op_path (ops ! 1) = ''/pets/{id}''"
    "operation_plan plain_text ''https://pets.test/'' (ops ! 1) pet_args = Inr plan"
    "cp_url plan = ''https://pets.test/pets/a%2F..%2Fb%3Fx%3D1''"
proof -
  from pet_operations_value obtain ops plan where ops: "pet_operations = Inr ops"
    "map (\<lambda>p. (op_name p, op_operation_id p, op_method p, map ap_name (op_params p))) ops
       = [(''pet_create'', ''addPet'', ''POST'', []), (''pet_delete'', ''deletePet'', ''DELETE'', [''id''])]"
    "operation_plan plain_text ''https://pets.test/'' (ops ! 1) pet_args = Inr plan"
    "cp_url plan = ''https://pets.test/pets/a%2F..%2Fb%3Fx%3D1''" "op_path (ops ! 1) = ''/pets/{id}''"
    by (auto split: sum.splits)
  from ops(2) obtain a b where "ops = [a, b]" by (auto simp: map_eq_Cons_conv)
  with ops show thesis by (intro that[of ops plan]) simp_all
qed

theorem document_tool_names_witness:
  "\<exists>ops. pet_operations = Inr ops \<and> (\<exists>r \<in> set ops. op_name r = ''pet_create'' \<and> readable_name (op_name r))"
proof -
  obtain ops plan where ops: "pet_operations = Inr ops" "ops ! 0 \<in> set ops" "op_name (ops ! 0) = ''pet_create''"
    by (rule pet_operations_obtain)
  have "hex_digest (\<lambda>_. ''0000'')"
    by (simp add: hex_digest_def name_char_def is_digit_char_def)
  from document_tool_names[OF this _ _ ops(1,2)] ops show ?thesis
    by (auto simp: pet_naming_def)
qed

theorem operation_id_resolves_witness:
  "\<exists>ops. pet_operations = Inr ops \<and> (\<exists>r \<in> set ops. ''addPet'' \<in> set (op_name r # op_aliases r))"
proof -
  obtain ops plan where ops: "pet_operations = Inr ops" "ops ! 0 \<in> set ops" "op_operation_id (ops ! 0) = ''addPet''"
    by (rule pet_operations_obtain)
  from operation_id_resolves[OF ops(1,2)] ops show ?thesis by metis
qed

theorem document_only_tightens_witness:
  "\<exists>ops. pet_operations = Inr ops \<and> (\<exists>r \<in> set ops. op_method r = ''DELETE'' \<and> op_approval r = AlwaysApprove)"
proof -
  obtain ops plan where ops: "pet_operations = Inr ops" "ops ! 1 \<in> set ops" "op_method (ops ! 1) = ''DELETE''"
    by (rule pet_operations_obtain)
  from document_only_tightens[OF ops(1,2)] ops(3)
  have "op_approval (ops ! 1) = AlwaysApprove"
    by (simp add: pet_naming_def dict_get_def dict_lookup_def)
  with ops show ?thesis by blast
qed



section \<open>A source under a policy\<close>

definition weather_decl :: pydict where
  "weather_decl =
     [(KStr ''kind'', VStr ''http''), (KStr ''name'', VStr ''city_weather''),
      (KStr ''url'', VStr ''https://weather.test/now/{city}''),
      (KStr ''headers'', VDict [(KStr ''Authorization'', VDict
         [(KStr ''secret_ref'', VStr ''weather:prod''), (KStr ''prefix'', VStr ''Bearer '')])])]"

definition bad_decl :: pydict where
  "bad_decl = [(KStr ''kind'', VStr ''ftp''), (KStr ''name'', VStr ''old'')]"

definition weather_policy :: tool_policy where
  "weather_policy =
     default_policy\<lparr>tp_allow := Some [''city_*''], tp_approval_floor := [(''*'', AlwaysApprove)],
                    tp_credential_grants := Some [(''city_*'', [''weather:*''])]\<rparr>"

definition answer_ok :: "http_request \<Rightarrow> nat \<Rightarrow> (string + http_response) \<times> nat" where
  "answer_ok rq n = (Inr \<lparr>rs_status = 200, rs_content_type = ''text/plain'', rs_json = None, rs_text = ''sun''\<rparr>, n + 1)"

definition demo_env :: "nat build_env" where
  "demo_env =
     \<lparr>be_str = plain_text, be_general = (\<lambda>_. ''30''), be_hostname = (\<lambda>_. Some ''weather.test''),
      be_scheme = (\<lambda>_. ''https''), be_digest = (\<lambda>_. ''0000''), be_client = answer_ok, be_env = (\<lambda>_. None),
      be_store = env_store (\<lambda>_. Some ''token''), be_document = (\<lambda>_. Inl ''missing''),
      be_callable = (\<lambda>_. Inl ''missing''), be_mcp = (\<lambda>_. Inl ''missing'')\<rparr>"

abbreviation weather_set :: "source_build_error + (audit \<times> nat) toolset" where
  "weather_set \<equiv>
     resolve_tools demo_env (\<lambda>_. ''failed'') False [''city_*'']
       [\<lparr>si_decl = bad_decl, si_layer = ''base'', si_origin = ''declared''\<rparr>,
        \<lparr>si_decl = weather_decl, si_layer = ''org'', si_origin = ''declared''\<rparr>] ''h'' (Some weather_policy) None"

lemma weather_set_value:
  "case weather_set of
     Inl _ \<Rightarrow> False
   | Inr ts \<Rightarrow> map (\<lambda>(n, t). (n, rt_name t, rt_approval t)) (ts_tools ts)
                 = [(''city_weather'', ''city_weather'', ''always_approve'')]
               \<and> ts_errors ts = [''base:old: failed'']"
  by code_simp

lemma star_matches: "fnmatchcase ''city_weather'' ''*''"
  by code_simp

lemma weather_set_obtain:
  obtains ts t where "weather_set = Inr ts" "(''city_weather'', t) \<in> set (ts_tools ts)" "rt_name t = ''city_weather''"
proof -
  from weather_set_value obtain ts where "weather_set = Inr ts"
    "map (\<lambda>(n, t). (n, rt_name t, rt_approval t)) (ts_tools ts) = [(''city_weather'', ''city_weather'', ''always_approve'')]"
    by (auto split: sum.splits)
  with that show thesis by (auto simp: map_eq_Cons_conv)
qed

theorem toolset_within_policy_witness:
  "\<exists>ts t. weather_set = Inr ts \<and> (''city_weather'', t) \<in> set (ts_tools ts)
     \<and> check_approval (VStr (rt_approval t)) = Some AlwaysApprove"
proof -
  obtain ts t where ts: "weather_set = Inr ts" "(''city_weather'', t) \<in> set (ts_tools ts)" "rt_name t = ''city_weather''"
    by (rule weather_set_obtain)
  have floor: "(''*'', AlwaysApprove) \<in> set (tp_approval_floor (policy_in_force (Some weather_policy) None))"
    by (simp add: policy_in_force_def weather_policy_def)
  have "list_ex (\<lambda>n. fnmatchcase n ''*'') (rt_name t # rt_aliases t)"
    unfolding ts(3) using star_matches by simp
  with toolset_within_policy[OF ts(1,2)] floor obtain a where
    "check_approval (VStr (rt_approval t)) = Some a" "rank AlwaysApprove \<le> rank a"
    unfolding Let_def by blast
  then have "check_approval (VStr (rt_approval t)) = Some AlwaysApprove" by (cases a) (simp_all add: rank_def)
  with ts show ?thesis by blast
qed

theorem approvals_agree_with_lookup_witness:
  "\<exists>ts. weather_set = Inr ts
     \<and> approval_of ts ''city_weather'' = map_option rt_approval (get_tool ts ''city_weather'')"
proof -
  obtain ts t where ts: "weather_set = Inr ts" by (rule weather_set_obtain)
  from approvals_agree_with_lookup[OF ts] ts show ?thesis by blast
qed

definition bare_registry :: "(audit \<times> nat) registry" where
  "bare_registry =
     \<lparr>r_tools = [], r_callables = [], r_sandbox = (\<lambda>_ _ _ w. (Inr [], w)), r_sandbox_root = None,
      r_approver = None, r_exposed = [], r_stats = [], r_clock = (\<lambda>_. 0), r_text = plain_text\<rparr>"


section \<open>A secret outside the grants\<close>

definition capped_io :: "nat http_io" where
  "capped_io =
     \<lparr>io_client = answer_ok, io_env = (\<lambda>_. None),
      io_store = scoped_store (env_store (\<lambda>_. Some ''token'')) (Some [''slack:*'']) True, io_str = plain_text\<rparr>"

definition capped_specs :: pydict where
  "capped_specs = [(KStr ''Authorization'', VDict [(KStr ''secret_ref'', VStr ''weather:prod'')])]"

theorem ungranted_secret_stops_call_witness:
  "\<exists>d t. plan_handler capped_io capped_specs [] 30 (endpoint_plan plain_text ''now'' ''GET'' ''https://weather.test/'')
            [] ([], 0) = (Inr d, t, 0) \<and> \<not> is_ok d"
proof -
  let ?plan = "endpoint_plan plain_text ''now'' ''GET'' ''https://weather.test/''"
  obtain res t w' where call: "plan_handler capped_io capped_specs [] 30 ?plan [] ([], 0) = (res, (t, w'))"
    by (metis surj_pair)
  have store: "io_store capped_io = scoped_store (env_store (\<lambda>_. Some ''token'')) (Some [''slack:*'']) True"
    by (simp add: capped_io_def)
  have spec: "(KStr ''Authorization'', VDict [(KStr ''secret_ref'', VStr ''weather:prod'')]) \<in> set capped_specs"
    by (simp add: capped_specs_def)
  have ref: "header_ref (io_str capped_io) (VDict [(KStr ''secret_ref'', VStr ''weather:prod'')]) = Some ''weather:prod''"
    by (simp add: header_ref_def capped_io_def dict_lookup_def plain_text_def)
  have denied: "\<not> granted (Some [''slack:*'']) ''weather:prod''" by code_simp
  have "\<not> isl (?plan [])" by code_simp
  then have plan: "?plan [] \<noteq> Inl d" for d by (metis sum.disc(1))
  from ungranted_secret_stops_call[OF store spec ref denied call] obtain d where
    d: "w' = 0" "res = Inr d" "?plan [] = Inl d \<or> \<not> is_ok d" by blast
  have "plan_handler capped_io capped_specs [] 30 ?plan [] ([], 0) = (Inr d, t, 0)"
    using call unfolding d(1,2) .
  moreover have "\<not> is_ok d" using d(3) plan[of d] by (elim disjE) (rule notE)
  ultimately show ?thesis by blast
qed

text \<open>Two handles that differ in a separator share one environment variable.\<close>

lemma handles_share_variable: "credential_env_var ''slack'' ''acme-eng'' = credential_env_var ''slack'' ''acme_eng''"
  by (simp add: credential_env_var_def env_part_def is_alpha_def is_digit_char_def)

text \<open>An endpoint that names its placeholder twice answers no call.\<close>

lemma repeated_placeholder_example:
  "case endpoint_plan plain_text ''t'' ''GET'' ''https://x.test/{id}/of/{id}'' [(KStr ''id'', VStr ''7'')] of
     Inl refusal \<Rightarrow> \<not> is_ok refusal | Inr _ \<Rightarrow> False"
  by code_simp

text \<open>A lookup the grants refuse leaves no line in the audit log of the default store.\<close>

lemma denied_lookup_unaudited:
  "case resolve_secret (source_store (Some weather_policy) ''city_weather'' (default_store (\<lambda>_. Some ''token'') None True))
          ''slack:acme'' [] of
     (Inl (CredentialScope _ _), trail) \<Rightarrow> trail = [] | _ \<Rightarrow> False"
  by code_simp

end
