(* ===== verification/Scopes.thy ===== *)
theory Scopes
  imports Memory_Ingest Tool_Sources
begin

text \<open>
  Memory scopes and the guard of the stores (\<open>src/fabri/memory/scopes.py\<close>): hashed ids,
  collection names, the scope of a run, and the check every store method makes before it
  touches its collection.  The SHA-256 digest and the salt of the environment are parameters;
  so is \<open>str\<close> of a configured value that is not a string.
\<close>

section \<open>Ids and collections\<close>

definition user_prefix :: string where "user_prefix = ''fabri_u_''"
definition org_prefix :: string where "org_prefix = ''fabri_o_''"
definition global_collection :: string where "global_collection = ''fabri_global''"
definition candidates_collection :: string where "candidates_collection = ''fabri_global_candidates''"

datatype scope_tag = User | Org | Global

definition scope_tags :: "scope_tag list" where "scope_tags = [User, Org, Global]"

fun tag_name :: "scope_tag \<Rightarrow> string" where
  "tag_name User = ''user''" | "tag_name Org = ''org''" | "tag_name Global = ''global''"

definition tag_of :: "string \<Rightarrow> scope_tag option" where
  "tag_of s = List.find (\<lambda>t. tag_name t = s) scope_tags"

definition hash_len :: nat where "hash_len = 24"

text \<open>The hexadecimal SHA-256 digest of a text and the value of \<open>FABRI_SCOPE_SALT\<close>.\<close>

record hashing =
  ha_sha :: "string \<Rightarrow> string"
  ha_salt :: string

definition norm_id :: "string \<Rightarrow> string" where "norm_id raw = lower (strip raw)"

definition hash_id :: "hashing \<Rightarrow> string \<Rightarrow> string \<Rightarrow> raised + string" where
  "hash_id h kind raw =
     (if norm_id raw = [] then Inl (ValueErr (kind @ '' id must be a non-empty string''))
      else Inr (take hash_len
                  (ha_sha h (''fabri-scope-v1/'' @ ha_salt h @ ''/'' @ kind @ ''/'' @ norm_id raw))))"

definition user_collection_name :: "hashing \<Rightarrow> string \<Rightarrow> raised + string" where
  "user_collection_name h uid = ebind (hash_id h ''user'' uid) (\<lambda>x. Inr (user_prefix @ x))"

definition org_collection_name :: "hashing \<Rightarrow> string \<Rightarrow> raised + string" where
  "org_collection_name h oid = ebind (hash_id h ''org'' oid) (\<lambda>x. Inr (org_prefix @ x))"

section \<open>The scope of a run\<close>

record memory_scope =
  sc_user :: string
  sc_org :: string
  sc_project :: "string option"
  sc_aliases :: "string list"

definition make_scope ::
  "string \<Rightarrow> string \<Rightarrow> string option \<Rightarrow> string list \<Rightarrow> raised + memory_scope" where
  "make_scope user org project aliases =
     (if strip user = [] \<or> strip org = []
      then Inl (ValueErr ''MemoryScope needs a non-empty user_id and org_id'')
      else Inr \<lparr>sc_user = user, sc_org = org, sc_project = project, sc_aliases = aliases\<rparr>)"

text \<open>A scope that \<open>make_scope\<close> let through.\<close>

definition scope_ok :: "memory_scope \<Rightarrow> bool" where
  "scope_ok s \<longleftrightarrow> strip (sc_user s) \<noteq> [] \<and> strip (sc_org s) \<noteq> []"

definition project_hash :: "hashing \<Rightarrow> memory_scope \<Rightarrow> raised + string option" where
  "project_hash h s =
     (case sc_project s of
        None \<Rightarrow> Inr None
      | Some p \<Rightarrow> if p = [] then Inr None else ebind (hash_id h ''project'' p) (\<lambda>x. Inr (Some x)))"

definition allowed_collections :: "hashing \<Rightarrow> memory_scope \<Rightarrow> raised + string list" where
  "allowed_collections h s =
     ebind (user_collection_name h (sc_user s)) (\<lambda>u.
     ebind (org_collection_name h (sc_org s)) (\<lambda>v. Inr [u, v]))"

definition scope_names :: "memory_scope \<Rightarrow> string list" where
  "scope_names s =
     filter (\<lambda>n. strip n \<noteq> [])
       (sc_user s # sc_org s # sc_aliases s
        @ (case sc_project s of None \<Rightarrow> [] | Some p \<Rightarrow> [p]))"

text \<open>\<open>MemoryScope.from_config\<close>: none when scoping is off or an id is missing.\<close>

definition scope_from_config :: "(pyval \<Rightarrow> string) \<Rightarrow> pydict \<Rightarrow> raised + memory_scope option" where
  "scope_from_config str_of mem_cfg =
     (case dict_get mem_cfg ''scoped'' of
        VDict cfg \<Rightarrow>
          let user = dict_get cfg ''user_id''; org = dict_get cfg ''org_id'';
              project = dict_get cfg ''project_id'' in
          if \<not> truthy (dict_get cfg ''enabled'') \<or> \<not> truthy user \<or> \<not> truthy org then Inr None
          else ebind (if truthy (dict_get cfg ''aliases'')
                      then map_sum (\<lambda>_. OtherErr ''TypeError'') (map str_of) (py_iter (dict_get cfg ''aliases''))
                      else Inr [])
                 (\<lambda>aliases. ebind (make_scope (str_of user) (str_of org)
                              (if truthy project then Some (str_of project) else None) aliases)
                              (\<lambda>s. Inr (Some s)))
      | v \<Rightarrow> if truthy v then Inl (OtherErr ''AttributeError'') else Inr None)"

section \<open>Budgets\<close>

text \<open>\<open>int(v)\<close>.\<close>

definition int_of :: "pyval \<Rightarrow> raised + int" where
  "int_of v =
     (case v of
        VInt i \<Rightarrow> Inr i
      | VBool b \<Rightarrow> Inr (if b then 1 else 0)
      | VFloat (Fin r) \<Rightarrow> Inr (if r < 0 then ceiling r else floor r)
      | VFloat NaN \<Rightarrow> Inl (ValueErr ''cannot convert float NaN to integer'')
      | VFloat _ \<Rightarrow> Inl (OtherErr ''OverflowError'')
      | VStr s \<Rightarrow> (case py_int s of None \<Rightarrow> Inl (ValueErr ''invalid literal for int()'') | Some i \<Rightarrow> Inr i)
      | _ \<Rightarrow> Inl (OtherErr ''TypeError''))"

record scope_budgets =
  sb_user :: int
  sb_org :: int
  sb_glob :: int

definition default_budgets :: scope_budgets where
  "default_budgets = \<lparr>sb_user = 2, sb_org = 3, sb_glob = 2\<rparr>"

definition budgets_from_mapping :: "pyval \<Rightarrow> raised + scope_budgets" where
  "budgets_from_mapping raw =
     (case (if truthy raw then raw else VDict []) of
        VDict d \<Rightarrow>
          ebind (int_of (dict_get_default d ''user'' (VInt (sb_user default_budgets)))) (\<lambda>u.
          ebind (int_of (dict_get_default d ''org'' (VInt (sb_org default_budgets)))) (\<lambda>v.
          ebind (int_of (dict_get_default d ''global''
                   (dict_get_default d ''glob'' (VInt (sb_glob default_budgets))))) (\<lambda>w.
            Inr \<lparr>sb_user = u, sb_org = v, sb_glob = w\<rparr>)))
      | _ \<Rightarrow> Inl (OtherErr ''AttributeError''))"

definition budget_of :: "scope_budgets \<Rightarrow> scope_tag \<Rightarrow> int" where
  "budget_of b t = (case t of User \<Rightarrow> sb_user b | Org \<Rightarrow> sb_org b | Global \<Rightarrow> sb_glob b)"

section \<open>The guard\<close>

datatype violation = BoundElsewhere | NoScopeInForce string | ForeignCollection string

text \<open>What a store call raises: a violation of the guard or what the store itself raises.\<close>

datatype failure = Violation violation | Failed raised

text \<open>The two context variables: the scope in force and the operator's access.\<close>

record context_vars =
  cv_scope :: "memory_scope option"
  cv_admin :: bool

definition no_context :: context_vars where "no_context = \<lparr>cv_scope = None, cv_admin = False\<rparr>"

text \<open>A \<open>with\<close> block runs its body under the changed variables and restores them on every exit.\<close>

definition scope_context :: "memory_scope option \<Rightarrow> (context_vars \<Rightarrow> 'a) \<Rightarrow> context_vars \<Rightarrow> 'a" where
  "scope_context s body cv = body (cv\<lparr>cv_scope := s\<rparr>)"

definition admin_access :: "(context_vars \<Rightarrow> 'a) \<Rightarrow> context_vars \<Rightarrow> 'a" where
  "admin_access body cv = body (cv\<lparr>cv_admin := True\<rparr>)"

definition is_scoped_collection :: "string \<Rightarrow> bool" where
  "is_scoped_collection c \<longleftrightarrow> starts_with user_prefix c \<or> starts_with org_prefix c"

definition check_collection_access ::
  "hashing \<Rightarrow> context_vars \<Rightarrow> string \<Rightarrow> memory_scope option \<Rightarrow> failure + unit" where
  "check_collection_access h cv c bound =
     (if \<not> is_scoped_collection c then Inr ()
      else if cv_admin cv then Inr ()
      else if bound \<noteq> None \<and> cv_scope cv \<noteq> None \<and> bound \<noteq> cv_scope cv then Inl (Violation BoundElsewhere)
      else case (if bound \<noteq> None then bound else cv_scope cv) of
             None \<Rightarrow> Inl (Violation (NoScopeInForce c))
           | Some s \<Rightarrow>
               ebind (emap_err Failed (allowed_collections h s))
                 (\<lambda>cs. if c \<in> set cs then Inr () else Inl (Violation (ForeignCollection c))))"

section \<open>Stores of one instance\<close>

text \<open>
  The collections an instance holds, by name (\<open>memory/store.py\<close>, \<open>memory/embedded_store.py\<close>);
  a store is a name and the scope it was opened for.
\<close>

type_synonym collections = "(string \<times> points) list"

record handle =
  hd_name :: string
  hd_bound :: "memory_scope option"

type_synonym 'a store_call = "collections \<Rightarrow> (failure + 'a) \<times> collections"

definition list_collections :: "collections \<Rightarrow> string list" where
  "list_collections cs = sort (map fst cs)"

text \<open>Opening a store checks the guard first and creates the collection if it is not there.\<close>

definition sibling ::
  "hashing \<Rightarrow> context_vars \<Rightarrow> string \<Rightarrow> memory_scope option \<Rightarrow> handle store_call" where
  "sibling h cv name bound cs =
     (case check_collection_access h cv name bound of
        Inl x \<Rightarrow> (Inl x, cs)
      | Inr _ \<Rightarrow> (Inr \<lparr>hd_name = name, hd_bound = bound\<rparr>,
                  if map_of cs name = None then cs @ [(name, [])] else cs))"

text \<open>
  A guarded method: the check on every call, then the method on the store's own collection.
  The client raises when the collection is gone.
\<close>

definition guarded :: "hashing \<Rightarrow> context_vars \<Rightarrow> handle \<Rightarrow> 'a writer \<Rightarrow> 'a store_call" where
  "guarded h cv st w cs =
     (case check_collection_access h cv (hd_name st) (hd_bound st) of
        Inl x \<Rightarrow> (Inl x, cs)
      | Inr _ \<Rightarrow>
          (case map_of cs (hd_name st) of
             None \<Rightarrow> (Inl (Failed (OtherErr (''no collection '' @ hd_name st))), cs)
           | Some ps \<Rightarrow>
               (case w ps of (res, qs) \<Rightarrow> (emap_err Failed res, AList.update (hd_name st) qs cs))))"

definition drop_collection :: "hashing \<Rightarrow> context_vars \<Rightarrow> handle \<Rightarrow> unit store_call" where
  "drop_collection h cv st cs =
     (case check_collection_access h cv (hd_name st) (hd_bound st) of
        Inl x \<Rightarrow> (Inl x, cs)
      | Inr _ \<Rightarrow> (Inr (), filter (\<lambda>p. fst p \<noteq> hd_name st) cs))"

definition cbind :: "'a store_call \<Rightarrow> ('a \<Rightarrow> 'b store_call) \<Rightarrow> 'b store_call" where
  "cbind m f = (\<lambda>cs. case m cs of (Inl x, cs') \<Rightarrow> (Inl x, cs') | (Inr a, cs') \<Rightarrow> f a cs')"

definition creturn :: "'a \<Rightarrow> 'a store_call" where
  "creturn x = (\<lambda>cs. (Inr x, cs))"

definition craise :: "failure \<Rightarrow> 'a store_call" where
  "craise x = (\<lambda>cs. (Inl x, cs))"

fun cfor :: "('s \<Rightarrow> 'a \<Rightarrow> 's store_call) \<Rightarrow> 's \<Rightarrow> 'a list \<Rightarrow> 's store_call" where
  "cfor f s [] = creturn s"
| "cfor f s (x # xs) = cbind (f s x) (\<lambda>s'. cfor f s' xs)"

text \<open>\<open>iterate()\<close>: every entry.\<close>

definition all_entries :: "memory_entry list writer" where
  "all_entries = (\<lambda>ps. (Inr (map snd ps), ps))"

end
