(* ===== verification/Regex.thy ===== *)
theory Regex
  imports PyText
begin

text \<open>
  The regular expressions of Python's \<open>re\<close> that the memory's rules are written in, as a
  backtracking matcher.  A cursor is the text already read, reversed, and the text still to
  read.  \<open>ends r c\<close> lists every cursor at which a match of \<open>r\<close> from \<open>c\<close> may stop, in the
  order in which the backtracking engine tries them, so that its first element is the match
  the engine reports.  No pattern of the code repeats an expression that matches the empty
  text.  A case-insensitive pattern has its classes closed under the case of a letter.
\<close>

section \<open>Syntax\<close>

type_synonym cursor = "string \<times> string"

datatype regex =
    Sat "char \<Rightarrow> bool"
  | Emp
  | Sequence regex regex
  | Alternative regex regex
  | Rep nat "nat option" bool regex
  | Ahead bool regex
  | Behind bool "char \<Rightarrow> bool"
  | Boundary
  | AtStart
  | AtFinish

abbreviation zero_or_more :: "regex \<Rightarrow> regex" where "zero_or_more r \<equiv> Rep 0 None True r"
abbreviation one_or_more :: "regex \<Rightarrow> regex" where "one_or_more r \<equiv> Rep 1 None True r"
abbreviation optional :: "regex \<Rightarrow> regex" where "optional r \<equiv> Rep 0 (Some 1) True r"
abbreviation between :: "nat \<Rightarrow> nat \<Rightarrow> regex \<Rightarrow> regex" where "between m n r \<equiv> Rep m (Some n) True r"
abbreviation exactly :: "nat \<Rightarrow> regex \<Rightarrow> regex" where "exactly n r \<equiv> Rep n (Some n) True r"

definition seqs :: "regex list \<Rightarrow> regex" where "seqs rs = foldr Sequence rs Emp"

fun alts :: "regex list \<Rightarrow> regex" where
  "alts [] = Sat (\<lambda>_. False)"
| "alts [r] = r"
| "alts (r # s # rs) = Alternative r (alts (s # rs))"

definition lit :: "string \<Rightarrow> regex" where "lit s = seqs (map (\<lambda>c. Sat (\<lambda>x. x = c)) s)"

section \<open>Character classes\<close>

definition code_in :: "nat \<Rightarrow> nat \<Rightarrow> char \<Rightarrow> bool" where
  "code_in a b c \<longleftrightarrow> a \<le> of_char c \<and> of_char c \<le> b"

definition lower_az :: "char \<Rightarrow> bool" where "lower_az = code_in 97 122"
definition upper_az :: "char \<Rightarrow> bool" where "upper_az = code_in 65 90"
definition letter_az :: "char \<Rightarrow> bool" where "letter_az c \<longleftrightarrow> lower_az c \<or> upper_az c"
definition digit_09 :: "char \<Rightarrow> bool" where "digit_09 = code_in 48 57"
definition letter_or_digit :: "char \<Rightarrow> bool" where "letter_or_digit c \<longleftrightarrow> letter_az c \<or> digit_09 c"

text \<open>\<open>\\w\<close>: \<open>str.isalnum\<close> or the underscore, on the modelled code points.\<close>

definition re_word :: "char \<Rightarrow> bool" where
  "re_word c \<longleftrightarrow>
     letter_or_digit c \<or> c = CHR ''_''
     \<or> (128 \<le> (of_char c :: nat)
        \<and> (of_char c :: nat) \<in> {170, 178, 179, 181, 185, 186, 188, 189, 190}
           \<union> ({192..255} - {215, 247}))"

text \<open>The other case of a letter; a class under \<open>re.I\<close> also takes the characters of the other case.\<close>

definition swap_case :: "char \<Rightarrow> char" where
  "swap_case c =
     (let n = (of_char c :: nat) in
      if lower_az c \<or> (224 \<le> n \<and> n \<le> 254 \<and> n \<noteq> 247) then char_of (n - 32)
      else if upper_az c \<or> (192 \<le> n \<and> n \<le> 222 \<and> n \<noteq> 215) then char_of (n + 32) else c)"

definition any_case :: "(char \<Rightarrow> bool) \<Rightarrow> char \<Rightarrow> bool" where
  "any_case p c \<longleftrightarrow> p c \<or> p (swap_case c)"

definition ilit :: "string \<Rightarrow> regex" where
  "ilit s = seqs (map (\<lambda>c. Sat (any_case (\<lambda>x. x = c))) s)"

text \<open>A class written as the characters it lists.\<close>

definition one_of :: "string \<Rightarrow> char \<Rightarrow> bool" where "one_of s c \<longleftrightarrow> c \<in> set s"

definition any_word :: "string list \<Rightarrow> regex" where "any_word ws = alts (map ilit ws)"

section \<open>Matching\<close>

definition prev_word :: "cursor \<Rightarrow> bool" where
  "prev_word c = (case fst c of [] \<Rightarrow> False | x # _ \<Rightarrow> re_word x)"

definition next_word :: "cursor \<Rightarrow> bool" where
  "next_word c = (case snd c of [] \<Rightarrow> False | x # _ \<Rightarrow> re_word x)"

text \<open>
  A repetition: as many more iterations as the bounds allow, those past the lower bound only
  when they read something; a greedy one prefers to go on.
\<close>

fun iterate :: "(cursor \<Rightarrow> cursor list) \<Rightarrow> bool \<Rightarrow> nat \<Rightarrow> nat \<Rightarrow> nat option \<Rightarrow> cursor \<Rightarrow> cursor list" where
  "iterate step greedy 0 lo hi c = (if lo = 0 then [c] else [])"
| "iterate step greedy (Suc fuel) lo hi c =
     (let onward = (if hi = Some 0 then [] else
            concat (map (iterate step greedy fuel (lo - 1) (map_option (\<lambda>n. n - 1) hi))
                     (filter (\<lambda>d. 0 < lo \<or> length (snd d) < length (snd c)) (step c))));
          stop = (if lo = 0 then [c] else [])
      in if greedy then onward @ stop else stop @ onward)"

primrec ends :: "regex \<Rightarrow> cursor \<Rightarrow> cursor list" where
  "ends (Sat p) c = (case snd c of [] \<Rightarrow> [] | x # xs \<Rightarrow> if p x then [(x # fst c, xs)] else [])"
| "ends Emp c = [c]"
| "ends (Sequence r s) c = concat (map (ends s) (ends r c))"
| "ends (Alternative r s) c = ends r c @ ends s c"
| "ends (Rep lo hi greedy r) c = iterate (ends r) greedy (lo + length (snd c)) lo hi c"
| "ends (Ahead b r) c = (if (ends r c \<noteq> []) = b then [c] else [])"
| "ends (Behind b p) c = (if (fst c \<noteq> [] \<and> p (hd (fst c))) = b then [c] else [])"
| "ends Boundary c = (if prev_word c \<noteq> next_word c then [c] else [])"
| "ends AtStart c = (if fst c = [] then [c] else [])"
| "ends AtFinish c = (if snd c = [] \<or> snd c = [CHR 0x0A] then [c] else [])"

text \<open>\<open>pattern.search(s) is not None\<close>: a match somewhere.\<close>

fun search_from :: "regex \<Rightarrow> string \<Rightarrow> string \<Rightarrow> bool" where
  "search_from r before [] = (ends r (before, []) \<noteq> [])"
| "search_from r before (x # xs) = (ends r (before, x # xs) \<noteq> [] \<or> search_from r (x # before) xs)"

definition found :: "regex \<Rightarrow> string \<Rightarrow> bool" where
  "found r s = search_from r [] s"

text \<open>
  \<open>pattern.sub(repl, s)\<close>: leftmost, non-overlapping, each match replaced by what \<open>repl\<close> gives for
  the cursors before and after it.  A match of the empty text is passed over.
\<close>

definition matched :: "cursor \<Rightarrow> cursor \<Rightarrow> string" where
  "matched c d = take (length (snd c) - length (snd d)) (snd c)"

definition match_at :: "regex \<Rightarrow> cursor \<Rightarrow> cursor option" where
  "match_at r c =
     (case ends r c of [] \<Rightarrow> None | d # _ \<Rightarrow> if length (snd d) < length (snd c) then Some d else None)"

function sub_with :: "(cursor \<Rightarrow> cursor option) \<Rightarrow> (cursor \<Rightarrow> cursor \<Rightarrow> string) \<Rightarrow> string \<Rightarrow> string \<Rightarrow> string" where
  "sub_with m repl before [] = []"
| "sub_with m repl before (x # xs) =
     (case m (before, x # xs) of
        Some d \<Rightarrow> (if length (snd d) < length (x # xs)
                    then repl (before, x # xs) d @ sub_with m repl (fst d) (snd d)
                    else x # sub_with m repl (x # before) xs)
      | None \<Rightarrow> x # sub_with m repl (x # before) xs)"
  by pat_completeness auto
termination by (relation "measure (\<lambda>(m, repl, before, xs). length xs)") auto

declare sub_with.simps(2) [simp del]

definition sub :: "regex \<Rightarrow> string \<Rightarrow> string \<Rightarrow> string" where
  "sub r new s = sub_with (match_at r) (\<lambda>_ _. new) [] s"

section \<open>What a match is\<close>

text \<open>The cursors a match may lead to, stated without the search.\<close>

primrec reads :: "regex \<Rightarrow> cursor \<Rightarrow> cursor \<Rightarrow> bool" where
  "reads (Sat p) c d \<longleftrightarrow> (\<exists>x xs. snd c = x # xs \<and> p x \<and> d = (x # fst c, xs))"
| "reads Emp c d \<longleftrightarrow> d = c"
| "reads (Sequence r s) c d \<longleftrightarrow> (\<exists>e. reads r c e \<and> reads s e d)"
| "reads (Alternative r s) c d \<longleftrightarrow> reads r c d \<or> reads s c d"
| "reads (Rep lo hi greedy r) c d \<longleftrightarrow>
     (\<exists>n. lo \<le> n \<and> (case hi of None \<Rightarrow> True | Some h \<Rightarrow> n \<le> h) \<and> (reads r ^^ n) c d)"
| "reads (Ahead b r) c d \<longleftrightarrow> d = c \<and> (\<exists>e. reads r c e) = b"
| "reads (Behind b p) c d \<longleftrightarrow> d = c \<and> (fst c \<noteq> [] \<and> p (hd (fst c))) = b"
| "reads Boundary c d \<longleftrightarrow> d = c \<and> prev_word c \<noteq> next_word c"
| "reads AtStart c d \<longleftrightarrow> d = c \<and> fst c = []"
| "reads AtFinish c d \<longleftrightarrow> d = c \<and> (snd c = [] \<or> snd c = [CHR 0x0A])"

text \<open>A match only moves the cursor over the text.\<close>

definition moves :: "cursor \<Rightarrow> cursor \<Rightarrow> bool" where
  "moves c d \<longleftrightarrow> (\<exists>t. snd c = t @ snd d \<and> fst d = rev t @ fst c)"

lemma moves_refl [simp, intro]: "moves c c" by (simp add: moves_def)

lemma moves_trans [trans]: "moves c d \<Longrightarrow> moves d e \<Longrightarrow> moves c e"
  unfolding moves_def by (metis append_assoc rev_append)

lemma moves_length: "moves c d \<Longrightarrow> length (snd d) \<le> length (snd c)"
  by (auto simp: moves_def)

lemma moves_same: "moves c d \<Longrightarrow> length (snd d) = length (snd c) \<Longrightarrow> d = c"
  by (cases c; cases d) (auto simp: moves_def)

lemma moves_power: "(\<And>c d. S c d \<Longrightarrow> moves c d) \<Longrightarrow> (S ^^ n) c d \<Longrightarrow> moves c d"
proof (induction n arbitrary: c)
  case 0
  then show ?case by simp
next
  case (Suc n)
  from Suc.prems(2) obtain e where "S c e" "(S ^^ n) e d" by (rule relpowp_Suc_E2)
  with Suc.IH Suc.prems(1) moves_trans show ?case by blast
qed

lemma reads_moves: "reads r c d \<Longrightarrow> moves c d"
proof (induction r arbitrary: c d)
  case (Sat p)
  then show ?case by (auto simp: moves_def)
next
  case (Sequence r s)
  then show ?case by (metis moves_trans reads.simps(3))
next
  case (Rep lo hi greedy r)
  then show ?case by (metis moves_power reads.simps(5))
qed auto

lemma iterate_Suc_set:
  "set (iterate step greedy (Suc fuel) lo hi c) =
     (if lo = 0 then {c} else {})
     \<union> (if hi = Some 0 then {}
        else \<Union>e \<in> {e \<in> set (step c). 0 < lo \<or> length (snd e) < length (snd c)}.
               set (iterate step greedy fuel (lo - 1) (map_option (\<lambda>n. n - 1) hi) e))"
  by (simp add: Let_def)

text \<open>The fuel of a repetition, its lower bound and the text left, is enough.\<close>

lemma iterate_iff:
  assumes step: "\<And>c d. d \<in> set (step c) \<longleftrightarrow> S c d" and moving: "\<And>c d. S c d \<Longrightarrow> moves c d"
    and "lo + length (snd c) \<le> fuel"
  shows "d \<in> set (iterate step greedy fuel lo hi c)
    \<longleftrightarrow> (\<exists>n. lo \<le> n \<and> (case hi of None \<Rightarrow> True | Some h \<Rightarrow> n \<le> h) \<and> (S ^^ n) c d)"
proof
  show "d \<in> set (iterate step greedy fuel lo hi c)
    \<Longrightarrow> \<exists>n. lo \<le> n \<and> (case hi of None \<Rightarrow> True | Some h \<Rightarrow> n \<le> h) \<and> (S ^^ n) c d"
  proof (induction fuel arbitrary: lo hi c)
    case 0
    then show ?case by (auto split: if_splits option.splits intro!: exI[of _ 0])
  next
    case (Suc fuel)
    then consider "lo = 0" "d = c"
      | e where "hi \<noteq> Some 0" "S c e" "d \<in> set (iterate step greedy fuel (lo - 1) (map_option (\<lambda>n. n - 1) hi) e)"
      by (auto simp: step Let_def split: if_splits)
    then show ?case
    proof cases
      case 1
      then show ?thesis by (auto split: option.splits intro!: exI[of _ 0])
    next
      case 2
      from Suc.IH[OF 2(3)] obtain n where "lo - 1 \<le> n" "(S ^^ n) e d"
        "case map_option (\<lambda>n. n - 1) hi of None \<Rightarrow> True | Some h \<Rightarrow> n \<le> h" by auto
      moreover from this(2) 2(2) have "(S ^^ Suc n) c d" by (rule relpowp_Suc_I2[rotated])
      ultimately show ?thesis using 2(1)
        by (intro exI[of _ "Suc n"]) (auto split: option.splits)
    qed
  qed
next
  assume "\<exists>n. lo \<le> n \<and> (case hi of None \<Rightarrow> True | Some h \<Rightarrow> n \<le> h) \<and> (S ^^ n) c d"
  then obtain n where "lo \<le> n" "case hi of None \<Rightarrow> True | Some h \<Rightarrow> n \<le> h" "(S ^^ n) c d" by auto
  with assms(3) show "d \<in> set (iterate step greedy fuel lo hi c)"
  proof (induction n arbitrary: lo hi c fuel)
    case 0
    then show ?case by (cases fuel) (auto simp: Let_def)
  next
    case (Suc n)
    from Suc.prems(4) obtain e where e: "S c e" "(S ^^ n) e d" using relpowp_Suc_E2 by metis
    have bound: "hi \<noteq> Some 0" using Suc.prems(3) by auto
    show ?case
    proof (cases "0 < lo \<or> length (snd e) < length (snd c)")
      case True
      have shorter: "length (snd e) \<le> length (snd c)" by (rule moves_length[OF moving[OF e(1)]])
      obtain f where f: "fuel = Suc f" "lo - 1 + length (snd e) \<le> f"
        using Suc.prems(1) True shorter by (cases fuel) auto
      have "d \<in> set (iterate step greedy f (lo - 1) (map_option (\<lambda>n. n - 1) hi) e)"
        by (rule Suc.IH[OF f(2)]) (use Suc.prems(2,3) e(2) in \<open>auto split: option.splits\<close>)
      moreover have "e \<in> {e \<in> set (step c). 0 < lo \<or> length (snd e) < length (snd c)}"
        using True e(1) by (simp add: step)
      ultimately show ?thesis using bound unfolding f(1) iterate_Suc_set by (simp only: if_False Un_iff UN_iff) blast
    next
      case False
      then have "lo = 0" "e = c" using moves_same moves_length moving[OF e(1)] by (auto simp: not_less le_antisym)
      with Suc.IH[of 0 c fuel hi] Suc.prems(1,3) e(2) show ?thesis by (auto split: option.splits)
    qed
  qed
qed

theorem ends_iff: "d \<in> set (ends r c) \<longleftrightarrow> reads r c d"
proof (induction r arbitrary: c d)
  case (Rep lo hi greedy r)
  then show ?case by (simp add: iterate_iff[of "ends r" "reads r"] reads_moves)
next
  case (Sequence r s)
  then show ?case by (simp add: Bex_def)
next
  case (Ahead b r)
  then have "(\<exists>e. reads r c e) \<longleftrightarrow> ends r c \<noteq> []" by (metis ex_in_conv set_empty)
  then show ?case by auto
qed (auto split: list.splits)

lemma ends_nonempty: "ends r c \<noteq> [] \<longleftrightarrow> (\<exists>d. reads r c d)"
  by (metis ends_iff ex_in_conv set_empty)

lemma search_from_iff:
  "search_from r before s \<longleftrightarrow> (\<exists>u v d. s = u @ v \<and> reads r (rev u @ before, v) d)"
proof (induction s arbitrary: before)
  case Nil
  then show ?case by (simp add: ends_nonempty)
next
  case (Cons x xs)
  have "(\<exists>u v d. x # xs = u @ v \<and> reads r (rev u @ before, v) d)
     \<longleftrightarrow> (\<exists>d. reads r (before, x # xs) d) \<or> (\<exists>u v d. xs = u @ v \<and> reads r (rev u @ x # before, v) d)"
    (is "?all \<longleftrightarrow> ?here \<or> ?later")
  proof
    assume ?all
    then obtain u v d where split: "x # xs = u @ v" "reads r (rev u @ before, v) d" by blast
    then show "?here \<or> ?later"
    proof (cases u)
      case Nil
      with split have "reads r (before, x # xs) d" by simp
      then show ?thesis by blast
    next
      case (Cons y us)
      with split have "xs = us @ v" "reads r (rev us @ x # before, v) d" by simp_all
      then show ?thesis by blast
    qed
  next
    assume "?here \<or> ?later"
    then show ?all
    proof
      assume ?here
      then obtain d where "reads r (before, x # xs) d" by blast
      then show ?all by (intro exI[of _ "[]"] exI[of _ "x # xs"] exI[of _ d]) simp
    next
      assume ?later
      then obtain u v d where "xs = u @ v" "reads r (rev u @ x # before, v) d" by blast
      then show ?all by (intro exI[of _ "x # u"] exI[of _ v] exI[of _ d]) simp
    qed
  qed
  with Cons show ?case by (simp add: ends_nonempty)
qed

theorem found_iff: "found r s \<longleftrightarrow> (\<exists>u v d. s = u @ v \<and> reads r (rev u, v) d)"
  by (simp add: found_def search_from_iff)

text \<open>\<open>pattern.findall(s)\<close> for a pattern without groups.\<close>

function matches_from :: "regex \<Rightarrow> string \<Rightarrow> string \<Rightarrow> string list" where
  "matches_from r before [] = []"
| "matches_from r before (x # xs) =
     (case match_at r (before, x # xs) of
        Some d \<Rightarrow> (if length (snd d) < length (x # xs)
                    then matched (before, x # xs) d # matches_from r (fst d) (snd d)
                    else matches_from r (x # before) xs)
      | None \<Rightarrow> matches_from r (x # before) xs)"
  by pat_completeness auto
termination by (relation "measure (\<lambda>(r, before, xs). length xs)") auto

declare matches_from.simps(2) [simp del]

definition matches :: "regex \<Rightarrow> string \<Rightarrow> string list" where
  "matches r s = matches_from r [] s"

end
