(* ===== verification/Scope_Classify.thy ===== *)
theory Scope_Classify
  imports Scopes Regex
begin

text \<open>
  Whether a new memory item is personal or a lesson of the organization
  (\<open>src/fabri/memory/scope_classify.py\<close>): the rules, in the order they run, and the model call
  that decides when no rule does.  The model's answer is a parameter.
\<close>

section \<open>Markers\<close>

definition user_kinds :: "string list" where
  "user_kinds = [''preference'', ''user_preference'', ''phrasing'', ''shortcut'']"

definition favourite :: regex where "favourite = seqs [ilit ''favo'', optional (ilit ''u''), ilit ''rite'']"
definition possessive :: regex where "possessive = optional (ilit [CHR 0x27, CHR ''s''])"
definition organisation :: regex where
  "organisation = seqs [ilit ''organi'', Sat (any_case (one_of ''sz'')), ilit ''ation'']"
definition anything :: regex where "anything = zero_or_more (Sat (\<lambda>_. True))"

definition user_markers :: "regex list" where
  "user_markers =
     [seqs [Boundary, ilit ''I '',
            any_word [''prefer'', ''like'', ''love'', ''want'', ''need'', ''always'', ''never'', ''usually'',
                      ''tend'', ''hate'', ''dislike''], Boundary],
      seqs [Boundary, ilit ''I'', any_word [[CHR 0x27, CHR ''d''], '' would''], ilit '' '',
            any_word [''rather'', ''prefer''], Boundary],
      seqs [Boundary, ilit ''my '',
            alts [ilit ''preferred'', favourite, ilit ''own'', ilit ''style'', ilit ''shortcut'',
                  ilit ''shortcuts'', ilit ''habit'', ilit ''habits'', ilit ''tone'', ilit ''phrasing'',
                  ilit ''signature'', ilit ''nickname'', ilit ''name'', ilit ''wording'', ilit ''template''],
            Boundary],
      seqs [Boundary, any_word [''call'', ''address'', ''refer to'', ''greet''], ilit '' me'', Boundary],
      seqs [Boundary, ilit ''the user '',
            any_word [''prefers'', ''likes'', ''wants'', ''always'', ''never'', ''asked to be'', ''likes to''],
            Boundary],
      seqs [Boundary, ilit ''this user'', possessive, ilit '' '', any_word [''prefers'', ''likes'', ''wants''],
            Boundary],
      seqs [Boundary, ilit ''user'', possessive, ilit '' '',
            alts [ilit ''preferred'', favourite, ilit ''personal'', ilit ''own''], ilit '' '',
            one_or_more (Sat re_word)],
      seqs [Boundary, ilit ''personal '', any_word [''preference'', ''shortcut'', ''style'', ''habit''], Boundary],
      seqs [Boundary, ilit ''in '', any_word [''my'', ''their own''], ilit '' '',
            any_word [''words'', ''style'', ''voice''], Boundary]]"

definition failure_words :: "string list" where
  "failure_words = [''fail'', ''fails'', ''failed'', ''error'', ''timeout'']"

definition service_words :: "string list" where
  "service_words = [''tool'', ''api'', ''endpoint'', ''service'', ''command'']"

definition check_words :: "string list" where
  "check_words = [''retry'', ''re-read'', ''verify'', ''confirm'', ''check'']"

text \<open>\<open>\\b(a)\\b.*\\b(b)\\b\<close>.\<close>

definition one_then :: "regex \<Rightarrow> regex \<Rightarrow> regex" where
  "one_then a b = seqs [Boundary, a, Boundary, anything, Boundary, b, Boundary]"

definition org_markers :: "regex list" where
  "org_markers =
     [seqs [Boundary, any_word [''our'', ''the''], ilit '' '',
            alts [ilit ''company'', ilit ''org'', organisation, ilit ''team'', ilit ''department'',
                  ilit ''policy'', ilit ''policies'', ilit ''process'', ilit ''workflow'', ilit ''pipeline'',
                  ilit ''runbook'', ilit ''standard'', seqs [ilit ''customer'', optional (ilit ''s'')],
                  seqs [ilit ''client'', optional (ilit ''s'')]], Boundary],
      seqs [Boundary, alts [ilit ''company'', ilit ''org'', ilit ''team'', organisation],
            Sat (one_of ''- ''), ilit ''wide'', Boundary],
      seqs [Boundary, ilit ''approval '', optional (ilit ''is ''), ilit ''required'', Boundary],
      one_then (any_word service_words)
        (alts (map ilit failure_words @ [seqs [ilit ''return'', optional (ilit ''s'')]])),
      one_then (any_word failure_words) (any_word service_words),
      one_then (any_word check_words) (any_word [''before'', ''after'']),
      one_then (any_word [''before'', ''after'']) (any_word check_words),
      seqs [Boundary, any_word [''write_file'', ''edit_file'', ''read_file'', ''bash'', ''grep''], Boundary]]"

section \<open>The decision\<close>

datatype decided_by = ByKind | ByIdentity | ByRule nat | ByModel | ByDefault

text \<open>The scope decided and what decided it; a rule is given by its position in its list.\<close>

record scope_decision =
  sd_scope :: string
  sd_method :: decided_by

definition mentions_person :: "string \<Rightarrow> memory_scope option \<Rightarrow> bool" where
  "mentions_person s scope \<longleftrightarrow>
     (case scope of
        None \<Rightarrow> False
      | Some sc \<Rightarrow> strip (sc_user sc) \<noteq> [] \<and> is_infix (lower (strip (sc_user sc))) (lower s))"

fun first_marker :: "regex list \<Rightarrow> string \<Rightarrow> nat option" where
  "first_marker [] s = None"
| "first_marker (r # rs) s = (if found r s then Some 0 else map_option Suc (first_marker rs s))"

text \<open>The final text of the model for a note, nothing when it gave none; any failure is no answer.\<close>

type_synonym note_model = "string \<Rightarrow> raised + string option"

definition llm_classify :: "note_model \<Rightarrow> string \<Rightarrow> scope_tag option" where
  "llm_classify model s =
     (case model (take 1000 s) of
        Inl _ \<Rightarrow> None
      | Inr answer \<Rightarrow>
          (let a = map upper_char (strip (case answer of None \<Rightarrow> [] | Some t \<Rightarrow> t)) in
           if starts_with ''USER'' a then Some User
           else if starts_with ''ORG'' a then Some Org
           else None))"

definition classify_scope ::
  "string \<Rightarrow> string option \<Rightarrow> memory_scope option \<Rightarrow> note_model option \<Rightarrow> bool \<Rightarrow> string
     \<Rightarrow> scope_decision" where
  "classify_scope s kind scope model use_llm dflt =
     (if kind \<in> Some ` set user_kinds then \<lparr>sd_scope = tag_name User, sd_method = ByKind\<rparr>
      else if mentions_person s scope then \<lparr>sd_scope = tag_name User, sd_method = ByIdentity\<rparr>
      else case first_marker user_markers s of
             Some i \<Rightarrow> \<lparr>sd_scope = tag_name User, sd_method = ByRule i\<rparr>
           | None \<Rightarrow>
               (case first_marker org_markers s of
                  Some i \<Rightarrow> \<lparr>sd_scope = tag_name Org, sd_method = ByRule i\<rparr>
                | None \<Rightarrow>
                    (case (if use_llm then Option.bind model (\<lambda>m. llm_classify m s) else None) of
                       Some t \<Rightarrow> \<lparr>sd_scope = tag_name t, sd_method = ByModel\<rparr>
                     | None \<Rightarrow> \<lparr>sd_scope = dflt, sd_method = ByDefault\<rparr>)))"

end
