(* ===== verification/Scoped_Memory.thy ===== *)
theory Scoped_Memory
  imports Scope_Classify
begin

text \<open>
  The three stores of one scope (\<open>ScopedMemory\<close> of \<open>src/fabri/memory/scopes.py\<close>): opening them,
  routing a new item to one of them, stamping it, and the retrieval that merges the three.
\<close>

section \<open>State\<close>

text \<open>The scope, its settings, and the tags whose stores are already open.\<close>

record scoped_memory =
  sm_scope :: memory_scope
  sm_budgets :: scope_budgets
  sm_global :: string
  sm_default :: string
  sm_use_llm :: bool
  sm_opened :: "scope_tag list"

definition scoped_from_store :: "memory_scope \<Rightarrow> scope_budgets option \<Rightarrow> scoped_memory" where
  "scoped_from_store s budgets =
     \<lparr>sm_scope = s, sm_budgets = (case budgets of None \<Rightarrow> default_budgets | Some b \<Rightarrow> b),
      sm_global = global_collection, sm_default = tag_name Org, sm_use_llm = False, sm_opened = []\<rparr>"

definition scoped_from_config ::
  "(pyval \<Rightarrow> string) \<Rightarrow> pydict \<Rightarrow> memory_scope \<Rightarrow> raised + scoped_memory" where
  "scoped_from_config str_of mem_cfg s =
     (case dict_get mem_cfg ''scoped'' of
        VDict cfg \<Rightarrow>
          ebind (budgets_from_mapping (dict_get cfg ''budgets'')) (\<lambda>b.
            let name = dict_get cfg ''global_collection'' in
            Inr \<lparr>sm_scope = s, sm_budgets = b,
                 sm_global = (if truthy name then str_of name else global_collection),
                 sm_default = str_of (dict_get_default cfg ''default_scope'' (VStr (tag_name Org))),
                 sm_use_llm = truthy (dict_get cfg ''llm_classifier''), sm_opened = []\<rparr>)
      | v \<Rightarrow> if truthy v then Inl (OtherErr ''AttributeError'')
             else Inr (scoped_from_store s None))"

section \<open>Stores\<close>

definition scope_collection :: "hashing \<Rightarrow> scoped_memory \<Rightarrow> scope_tag \<Rightarrow> raised + string" where
  "scope_collection h sm t =
     ebind (user_collection_name h (sc_user (sm_scope sm))) (\<lambda>u.
     ebind (org_collection_name h (sc_org (sm_scope sm))) (\<lambda>v.
       Inr (case t of User \<Rightarrow> u | Org \<Rightarrow> v | Global \<Rightarrow> sm_global sm)))"

text \<open>
  The store of a tag: opened for the scope on first use, which checks the guard, and kept.
\<close>

definition scope_store ::
  "hashing \<Rightarrow> context_vars \<Rightarrow> scoped_memory \<Rightarrow> scope_tag \<Rightarrow> (handle \<times> scoped_memory) store_call" where
  "scope_store h cv sm t =
     (case scope_collection h sm t of
        Inl x \<Rightarrow> craise (Failed x)
      | Inr name \<Rightarrow>
          if t \<in> set (sm_opened sm)
          then creturn (\<lparr>hd_name = name, hd_bound = Some (sm_scope sm)\<rparr>, sm)
          else cbind (sibling h cv name (Some (sm_scope sm)))
                 (\<lambda>st. creturn (st, sm\<lparr>sm_opened := t # sm_opened sm\<rparr>)))"

section \<open>Writes\<close>

definition classify ::
  "scoped_memory \<Rightarrow> note_model option \<Rightarrow> string \<Rightarrow> string option \<Rightarrow> scope_decision" where
  "classify sm model s kind = classify_scope s kind (Some (sm_scope sm)) model (sm_use_llm sm) (sm_default sm)"

text \<open>The tag and the store a new item goes to; \<open>force\<close> overrides the rules unless it is empty.\<close>

definition route ::
  "hashing \<Rightarrow> context_vars \<Rightarrow> scoped_memory \<Rightarrow> note_model option \<Rightarrow> string \<Rightarrow> string option
     \<Rightarrow> string option \<Rightarrow> (scope_tag \<times> handle \<times> scoped_memory) store_call" where
  "route h cv sm model s kind force =
     (let tag = (case force of Some (c # cs) \<Rightarrow> c # cs | _ \<Rightarrow> sd_scope (classify sm model s kind)) in
      if tag \<notin> {tag_name User, tag_name Org}
      then craise (Failed (ValueErr
             ''writes go to the user or org scope; global is promotion-only''))
      else let t = (if tag = tag_name User then User else Org) in
           cbind (scope_store h cv sm t) (\<lambda>(st, sm'). creturn (t, st, sm')))"

definition stamped :: "memory_scope \<Rightarrow> scope_tag \<Rightarrow> memory_entry \<Rightarrow> memory_entry" where
  "stamped s t e =
     (let p = AList.update (KStr ''memory_scope'') (VStr (tag_name t)) (me_payload e)
      in e\<lparr>me_payload :=
             (if t = Org then AList.update (KStr ''aliases'') (VList (map VStr (scope_names s))) p else p)\<rparr>)"

definition annotate ::
  "hashing \<Rightarrow> ingest_backend \<Rightarrow> scoped_memory \<Rightarrow> memory_entry \<Rightarrow> scope_tag \<Rightarrow> handle
     \<Rightarrow> context_vars \<Rightarrow> unit store_call" where
  "annotate h be sm e t st =
     scope_context (Some (sm_scope sm)) (\<lambda>cv. guarded h cv st (upsert be (stamped (sm_scope sm) t e)))"

section \<open>Reads\<close>

definition split_once :: "string \<Rightarrow> string \<Rightarrow> (string \<times> string) option" where
  "split_once sep s =
     re_search (\<lambda>t. if starts_with sep t then Some (drop (length sep) t) else None) s"

definition strip_newlines :: "string \<Rightarrow> string" where
  "strip_newlines s =
     (let p = (\<lambda>c. c = CHR 0x0A) in rev (dropWhile p (rev (dropWhile p s))))"

definition fence_inner :: "string \<Rightarrow> string \<Rightarrow> string \<Rightarrow> string" where
  "fence_inner s open_tag close_tag =
     (case split_once open_tag s of
        None \<Rightarrow> []
      | Some (_, rest) \<Rightarrow>
          strip_newlines (case split_once close_tag rest of None \<Rightarrow> rest | Some (inner, _) \<Rightarrow> inner))"

definition block_open :: string where "block_open = ''<convention>''"

definition block_regex :: regex where
  "block_regex = seqs [lit block_open, Rep 0 None False (Sat (\<lambda>_. True)), lit ''</convention>'']"

definition tagged_block :: "scope_tag \<Rightarrow> string \<Rightarrow> string" where
  "tagged_block t b =
     ''<convention scope='' @ [CHR 0x22] @ tag_name t @ [CHR 0x22] @ ''>'' @ drop (length block_open) b"

text \<open>What a line is told apart by: what follows its tag, in lower case.\<close>

definition line_key :: "string \<Rightarrow> string" where
  "line_key l =
     lower (strip (case split_once ''] '' l of None \<Rightarrow> l | Some (_, rest) \<Rightarrow> rest))"

record merge_state =
  ms_lines :: "string list"
  ms_blocks :: "string list"
  ms_seen :: "string list"
  ms_all :: "scored list"
  ms_counts :: "(scope_tag \<times> nat) list"

definition no_merge :: merge_state where
  "no_merge = \<lparr>ms_lines = [], ms_blocks = [], ms_seen = [], ms_all = [],
                ms_counts = map (\<lambda>t. (t, 0)) scope_tags\<rparr>"

definition count_one :: "scope_tag \<Rightarrow> (scope_tag \<times> nat) list \<Rightarrow> (scope_tag \<times> nat) list" where
  "count_one t cs = map (\<lambda>(u, n). (u, if u = t then n + 1 else n)) cs"

definition add_line :: "scope_tag \<Rightarrow> string \<Rightarrow> merge_state \<Rightarrow> merge_state" where
  "add_line t l ms =
     (if \<not> starts_with ''- ['' l then ms\<lparr>ms_lines := ms_lines ms @ [l]\<rparr>
      else if line_key l \<in> set (ms_seen ms) then ms
      else ms\<lparr>ms_seen := line_key l # ms_seen ms,
              ms_lines := ms_lines ms @ [''- ['' @ tag_name t @ ''] '' @ drop 2 l],
              ms_counts := count_one t (ms_counts ms)\<rparr>)"

definition add_block :: "scope_tag \<Rightarrow> string \<Rightarrow> merge_state \<Rightarrow> merge_state" where
  "add_block t b ms =
     ms\<lparr>ms_blocks := ms_blocks ms @ [tagged_block t b], ms_counts := count_one t (ms_counts ms)\<rparr>"

definition merge_scope :: "scope_tag \<Rightarrow> string \<Rightarrow> scored list \<Rightarrow> merge_state \<Rightarrow> merge_state" where
  "merge_scope t s merged ms =
     (if merged = [] then ms
      else let ms1 = fold (add_line t)
                       (split_lines (fence_inner s guideline_fence_open guideline_fence_close)) ms;
               ms2 = fold (add_block t)
                       (matches block_regex (fence_inner s convention_fence_open convention_fence_close)) ms1
           in ms2\<lparr>ms_all := ms_all ms2 @ merged\<rparr>)"

text \<open>\<open>except ScopeViolation: raise\<close>, \<open>except Exception: continue\<close>: no result for the latter.\<close>

definition surviving :: "'a store_call \<Rightarrow> 'a option store_call" where
  "surviving m cs =
     (case m cs of
        (Inr a, cs') \<Rightarrow> (Inr (Some a), cs')
      | (Inl (Failed _), cs') \<Rightarrow> (Inr None, cs')
      | (Inl (Violation v), cs') \<Rightarrow> (Inl (Violation v), cs'))"

text \<open>
  One scope's retrieval: the store, then the pipeline on it.  A violation of the guard goes
  out; any other failure leaves the scope out.
\<close>

type_synonym scope_fetch = "context_vars \<Rightarrow> handle \<Rightarrow> nat \<Rightarrow> (string \<times> scored list) store_call"

definition retrieve_scope ::
  "hashing \<Rightarrow> scope_fetch \<Rightarrow> context_vars \<Rightarrow> (scoped_memory \<times> merge_state) \<Rightarrow> scope_tag
     \<Rightarrow> (scoped_memory \<times> merge_state) store_call" where
  "retrieve_scope h fetch cv st t =
     (let (sm, ms) = st; k = budget_of (sm_budgets sm) t in
      if k \<le> 0 then creturn st
      else cbind (surviving (scope_store h cv sm t)) (\<lambda>opened.
             case opened of
               None \<Rightarrow> creturn (sm, ms)
             | Some (store, sm') \<Rightarrow>
                 cbind (surviving (fetch cv store (nat k))) (\<lambda>got.
                   creturn (case got of None \<Rightarrow> (sm', ms)
                            | Some (s, merged) \<Rightarrow> (sm', merge_scope t s merged ms)))))"

definition sections_text :: "merge_state \<Rightarrow> string" where
  "sections_text ms =
     join [CHR 0x0A] (fenced guideline_fence_open guideline_fence_close (ms_lines ms)
                      @ fenced convention_fence_open convention_fence_close (ms_blocks ms))"

record scoped_meta =
  so_retrieved :: nat
  so_from_prior :: nat
  so_strategic :: nat
  so_by_scope :: "(scope_tag \<times> nat) list"
  so_conventions :: "memory_entry list"

definition scoped_meta_of :: "string option \<Rightarrow> merge_state \<Rightarrow> scoped_meta" where
  "scoped_meta_of session ms =
     (let es = map fst (ms_all ms) in
      \<lparr>so_retrieved = length es,
       so_from_prior = length (filter (\<lambda>e. list_ex (\<lambda>s. Some s \<noteq> session) (me_session_ids e)
                                           \<or> 2 \<le> me_hit_count e) es),
       so_strategic = length (filter (\<lambda>e. me_kind e = ''strategic'') es),
       so_by_scope = ms_counts ms,
       so_conventions = filter (\<lambda>e. me_kind e = ''convention'') es\<rparr>)"

definition scoped_retrieve ::
  "hashing \<Rightarrow> scope_fetch \<Rightarrow> scoped_memory \<Rightarrow> string option
     \<Rightarrow> context_vars \<Rightarrow> (string \<times> scoped_meta \<times> scoped_memory) store_call" where
  "scoped_retrieve h fetch sm session =
     scope_context (Some (sm_scope sm)) (\<lambda>cv.
       cbind (cfor (retrieve_scope h fetch cv) (sm, no_merge) scope_tags)
         (\<lambda>(sm', ms). creturn (sections_text ms, scoped_meta_of session ms, sm')))"

text \<open>
  The pipeline of \<open>orchestrator/retrieval.py\<close> as the fetch, without its global tier; \<open>view\<close>
  gives the searches of a store over its points.  Its store calls are guarded one by one; as
  nothing changes in between, one check decides them all.
\<close>

definition pipeline_fetch ::
  "hashing \<Rightarrow> services \<Rightarrow> retrieval_config \<Rightarrow> (points \<Rightarrow> store) \<Rightarrow> string \<Rightarrow> string list \<Rightarrow> rat
     \<Rightarrow> string option \<Rightarrow> scope_fetch" where
  "pipeline_fetch h sv rc view task tool_names tag_floor session cv st k =
     guarded h cv st
       (\<lambda>ps. (map_sum id (\<lambda>r. (rt_text r, rt_merged r))
                (retrieve_inner sv (rc\<lparr>rc_global_collection := None\<rparr>) (view ps) task k tool_names tag_floor session),
              ps))"

end
