(* ===== verification/Scope_Laws.thy ===== *)
theory Scope_Laws
  imports Scoped_Memory
begin

text \<open>
  What the guard gives: the collections a scope may touch, the laws of the guarded store
  methods, and the isolation of a run, whatever calls it makes and however they depend on the
  replies it got.
\<close>

named_theorems store_calls \<open>unfolding of the calls on the stores of an instance\<close>

lemmas [store_calls] = creturn_def craise_def cbind_def

lemma cbind_cases [case_names Raise Return]:
  assumes "cbind m f cs = (res, ds)"
  obtains x where "m cs = (Inl x, ds)" "res = Inl x"
  | a cs' where "m cs = (Inr a, cs')" "f a cs' = (res, ds)"
  using assms by (auto simp: cbind_def split: prod.splits sum.splits)

section \<open>Collections of a scope\<close>

definition owned :: "hashing \<Rightarrow> memory_scope \<Rightarrow> string \<Rightarrow> bool" where
  "owned h s c \<longleftrightarrow> (case allowed_collections h s of Inl _ \<Rightarrow> False | Inr cs \<Rightarrow> c \<in> set cs)"

definition visible :: "hashing \<Rightarrow> memory_scope \<Rightarrow> string \<Rightarrow> bool" where
  "visible h s c \<longleftrightarrow> \<not> is_scoped_collection c \<or> owned h s c"

lemma strip_lower: "strip s \<noteq> [] \<Longrightarrow> norm_id s \<noteq> []"
  by (simp add: norm_id_def lower_def)

lemma hash_id_total: "strip s \<noteq> [] \<Longrightarrow> \<exists>x. hash_id h kind s = Inr x"
  using strip_lower[of s] by (simp add: hash_id_def)

lemma scope_ok_allowed:
  assumes "scope_ok s"
  obtains u v where "user_collection_name h (sc_user s) = Inr u"
    and "org_collection_name h (sc_org s) = Inr v" and "allowed_collections h s = Inr [u, v]"
    and "is_scoped_collection u" and "is_scoped_collection v" and "u \<noteq> v"
proof -
  obtain x y where "hash_id h ''user'' (sc_user s) = Inr x" "hash_id h ''org'' (sc_org s) = Inr y"
    using assms hash_id_total by (metis scope_ok_def)
  then show ?thesis
    by (intro that[of "user_prefix @ x" "org_prefix @ y"])
       (simp_all add: user_collection_name_def org_collection_name_def allowed_collections_def
          is_scoped_collection_def starts_with_def user_prefix_def org_prefix_def)
qed

lemma make_scope_ok: "make_scope u v p as = Inr s \<Longrightarrow> scope_ok s"
  by (auto simp: make_scope_def scope_ok_def split: if_splits)

text \<open>The guard lets a call through only to a collection the scope in force may see.\<close>

lemma guard_visible:
  assumes "check_collection_access h cv c bound = Inr ()" and "cv_scope cv = Some s" and "\<not> cv_admin cv"
  shows "visible h s c"
  using assms by (auto simp: check_collection_access_def visible_def owned_def split: if_splits)

lemma guard_open: "\<not> is_scoped_collection c \<Longrightarrow> check_collection_access h cv c bound = Inr ()"
  by (simp add: check_collection_access_def)

lemma guard_own:
  assumes "owned h s c" and "bound = None \<or> bound = Some s" and "cv_scope cv = Some s"
  shows "check_collection_access h cv c bound = Inr ()"
  using assms by (auto simp: check_collection_access_def owned_def split: sum.splits)

lemma guard_failed:
  assumes "check_collection_access h cv c bound = Inl (Failed x)"
  obtains s where "allowed_collections h s = Inl x"
  using assms
  by (auto simp: check_collection_access_def emap_err_def ebind_def split: if_splits option.splits sum.splits)

section \<open>Guarded calls\<close>

text \<open>Two instances look the same to a scope.\<close>

definition same_view :: "hashing \<Rightarrow> memory_scope \<Rightarrow> collections \<Rightarrow> collections \<Rightarrow> bool" where
  "same_view h s cs ds \<longleftrightarrow> (\<forall>c. visible h s c \<longrightarrow> map_of cs c = map_of ds c)"

definition untouched :: "hashing \<Rightarrow> memory_scope \<Rightarrow> collections \<Rightarrow> collections \<Rightarrow> bool" where
  "untouched h s cs ds \<longleftrightarrow> (\<forall>c. \<not> visible h s c \<longrightarrow> map_of cs c = map_of ds c)"

text \<open>
  The contract of a call made under a scope: it changes only what the scope may see, and what
  it returns and leaves depends only on that.
\<close>

definition confined :: "hashing \<Rightarrow> memory_scope \<Rightarrow> 'a store_call \<Rightarrow> bool" where
  "confined h s m \<longleftrightarrow>
     (\<forall>cs. untouched h s cs (snd (m cs)))
     \<and> (\<forall>cs ds. same_view h s cs ds \<longrightarrow>
          fst (m cs) = fst (m ds) \<and> same_view h s (snd (m cs)) (snd (m ds)))"

lemma untouched_refl [simp]: "untouched h s cs cs" by (simp add: untouched_def)

lemma untouched_trans: "untouched h s cs ds \<Longrightarrow> untouched h s ds es \<Longrightarrow> untouched h s cs es"
  by (simp add: untouched_def)

lemma confined_return: "confined h s (creturn x)" "confined h s (craise y)"
  by (simp_all add: confined_def store_calls)

lemma confined_bind:
  assumes "confined h s m" and "\<And>a. confined h s (f a)"
  shows "confined h s (cbind m f)"
  unfolding confined_def
proof (intro conjI allI impI)
  fix cs
  show "untouched h s cs (snd (cbind m f cs))"
    using assms untouched_trans unfolding confined_def cbind_def
    by (cases "m cs"; cases "fst (m cs)") (simp_all, metis snd_conv, metis snd_conv untouched_trans)
next
  fix cs ds
  assume same: "same_view h s cs ds"
  obtain r cs' ds' where "m cs = (r, cs')" "m ds = (r, ds')" "same_view h s cs' ds'"
    using assms(1) same unfolding confined_def by (metis prod.collapse)
  then show "fst (cbind m f cs) = fst (cbind m f ds)"
    and "same_view h s (snd (cbind m f cs)) (snd (cbind m f ds))"
    using assms(2) unfolding confined_def cbind_def by (cases r; simp)+
qed

lemma confined_for:
  "(\<And>t x. confined h s (f t x)) \<Longrightarrow> confined h s (cfor f t xs)"
  by (induction xs arbitrary: t) (auto intro: confined_return confined_bind)

lemma confined_surviving:
  assumes "confined h s m"
  shows "confined h s (surviving m)"
proof -
  have left: "snd (surviving m cs) = snd (m cs)" for cs
    by (auto simp: surviving_def split: prod.splits sum.splits failure.splits)
  have res: "fst (surviving m cs) = fst (surviving m ds)" if "fst (m cs) = fst (m ds)" for cs ds
    using that by (auto simp: surviving_def split: prod.splits sum.splits failure.splits)
  show ?thesis unfolding confined_def left
  proof (intro conjI allI impI)
    show "untouched h s cs (snd (m cs))" for cs using assms by (simp add: confined_def)
  next
    fix cs ds
    assume "same_view h s cs ds"
    then have "fst (m cs) = fst (m ds)" and "same_view h s (snd (m cs)) (snd (m ds))"
      using assms unfolding confined_def by blast+
    then show "fst (surviving m cs) = fst (surviving m ds)" and "same_view h s (snd (m cs)) (snd (m ds))"
      by (auto intro: res)
  qed
qed

lemma confined_sibling:
  assumes "cv_scope cv = Some s" and "\<not> cv_admin cv"
  shows "confined h s (sibling h cv c bound)"
proof -
  have "visible h s c" if "check_collection_access h cv c bound = Inr ()"
    using guard_visible[OF that] assms by simp
  then show ?thesis
    by (auto simp: confined_def sibling_def untouched_def same_view_def map_add_def
          split: sum.splits option.splits if_splits)
qed

lemma confined_guarded:
  assumes "cv_scope cv = Some s" and "\<not> cv_admin cv"
  shows "confined h s (guarded h cv st w)"
proof (cases "check_collection_access h cv (hd_name st) (hd_bound st)")
  case (Inl x)
  then show ?thesis by (simp add: confined_def guarded_def)
next
  case (Inr u)
  then have see: "visible h s (hd_name st)" using guard_visible[OF _ assms] by simp
  show ?thesis unfolding confined_def
  proof (intro conjI allI impI)
    fix cs
    show "untouched h s cs (snd (guarded h cv st w cs))"
      using Inr see by (auto simp: guarded_def untouched_def update_conv' split: option.splits prod.splits)
  next
    fix cs ds
    assume same: "same_view h s cs ds"
    then have "map_of cs (hd_name st) = map_of ds (hd_name st)" using see by (simp add: same_view_def)
    with same Inr show "fst (guarded h cv st w cs) = fst (guarded h cv st w ds)"
      and "same_view h s (snd (guarded h cv st w cs)) (snd (guarded h cv st w ds))"
      by (auto simp: guarded_def same_view_def update_conv' split: option.splits prod.splits)
  qed
qed

lemma map_of_drop: "map_of (filter (\<lambda>p. fst p \<noteq> n) cs) c = (if c = n then None else map_of cs c)"
  by (induction cs) auto

lemma confined_drop:
  assumes "cv_scope cv = Some s" and "\<not> cv_admin cv"
  shows "confined h s (drop_collection h cv st)"
proof -
  have "visible h s (hd_name st)" if "check_collection_access h cv (hd_name st) (hd_bound st) = Inr ()"
    using guard_visible[OF that] assms by simp
  then show ?thesis
    by (auto simp: confined_def drop_collection_def untouched_def same_view_def map_of_drop split: sum.splits)
qed

section \<open>A run under a scope\<close>

datatype access =
    Open string "memory_scope option"
  | Call handle "pyval writer"
  | Drop handle

definition perform :: "hashing \<Rightarrow> context_vars \<Rightarrow> access \<Rightarrow> pyval store_call" where
  "perform h cv a =
     (case a of
        Open c bound \<Rightarrow> cbind (sibling h cv c bound) (\<lambda>_. creturn VNone)
      | Call st w \<Rightarrow> guarded h cv st w
      | Drop st \<Rightarrow> cbind (drop_collection h cv st) (\<lambda>_. creturn VNone))"

text \<open>A run picks each access from the replies so far, violations included; \<open>n\<close> bounds their number.\<close>

fun run_accesses ::
  "hashing \<Rightarrow> context_vars \<Rightarrow> ((failure + pyval) list \<Rightarrow> access option) \<Rightarrow> nat
     \<Rightarrow> (failure + pyval) list \<Rightarrow> collections \<Rightarrow> (failure + pyval) list \<times> collections" where
  "run_accesses h cv strategy 0 replies cs = (replies, cs)"
| "run_accesses h cv strategy (Suc n) replies cs =
     (case strategy replies of
        None \<Rightarrow> (replies, cs)
      | Some a \<Rightarrow> (case perform h cv a cs of (r, cs') \<Rightarrow> run_accesses h cv strategy n (replies @ [r]) cs'))"

lemma confined_perform:
  assumes "cv_scope cv = Some s" and "\<not> cv_admin cv"
  shows "confined h s (perform h cv a)"
  by (cases a)
     (simp_all add: perform_def assms confined_guarded confined_bind confined_return confined_sibling confined_drop)

lemma run_untouched:
  assumes "cv_scope cv = Some s" and "\<not> cv_admin cv"
  shows "untouched h s cs (snd (run_accesses h cv strategy n replies cs))"
proof (induction n arbitrary: replies cs)
  case (Suc n)
  show ?case
  proof (cases "strategy replies")
    case (Some a)
    obtain r cs' where step: "perform h cv a cs = (r, cs')" by fastforce
    then have "untouched h s cs cs'"
      using confined_perform[OF assms, of h a] unfolding confined_def by (metis snd_conv)
    with Suc.IH Some step show ?thesis by (auto intro: untouched_trans)
  qed simp
qed simp

lemma run_same_view:
  assumes "cv_scope cv = Some s" and "\<not> cv_admin cv" and "same_view h s cs ds"
  shows "fst (run_accesses h cv strategy n replies cs) = fst (run_accesses h cv strategy n replies ds)
    \<and> same_view h s (snd (run_accesses h cv strategy n replies cs)) (snd (run_accesses h cv strategy n replies ds))"
  using assms(3)
proof (induction n arbitrary: replies cs ds)
  case (Suc n)
  show ?case
  proof (cases "strategy replies")
    case (Some a)
    obtain r cs' ds' where "perform h cv a cs = (r, cs')" "perform h cv a ds = (r, ds')" "same_view h s cs' ds'"
      using confined_perform[OF assms(1,2), of h a] Suc.prems unfolding confined_def by (metis prod.collapse)
    with Suc.IH Some show ?thesis by simp
  qed (simp add: Suc.prems)
qed simp

end
