(* ===== verification/Scope_Promises.thy ===== *)
theory Scope_Promises
  imports Scope_Laws
begin

text \<open>
  What scoped memory promises: runs of different scopes cannot read or change each other's
  collections, a new item goes to the user's or the organization's own collection and never to
  the shared one, personal markers win over organizational ones, and the merged retrieval
  stays inside the scope and counts what it injects.
\<close>

section \<open>Isolation\<close>


section \<open>Routing\<close>

lemma scope_store_result:
  assumes "scope_ok (sm_scope sm)" and "scope_store h cv sm t cs = (Inr (st, sm'), cs')"
  shows "hd_bound st = Some (sm_scope sm) \<and> (t \<noteq> Global \<longrightarrow> owned h (sm_scope sm) (hd_name st))
    \<and> sm_scope sm' = sm_scope sm \<and> sm_budgets sm' = sm_budgets sm \<and> sm_global sm' = sm_global sm
    \<and> (t = Global \<longrightarrow> hd_name st = sm_global sm)"
proof -
  obtain u v where "user_collection_name h (sc_user (sm_scope sm)) = Inr u"
    "org_collection_name h (sc_org (sm_scope sm)) = Inr v" "allowed_collections h (sm_scope sm) = Inr [u, v]"
    using scope_ok_allowed[OF assms(1)] by metis
  with assms(2) show ?thesis
    by (cases t) (auto simp: scope_store_def scope_collection_def owned_def store_calls sibling_def
        split: if_splits sum.splits prod.splits)
qed

lemma personal_wins:
  assumes "kind \<in> Some ` set user_kinds \<or> mentions_person s scope \<or> (\<exists>r \<in> set user_markers. found r s)"
  shows "sd_scope (classify_scope s kind scope model use_llm dflt) = tag_name User"
proof -
  have "\<exists>i. first_marker rs s = Some i" if "\<exists>r \<in> set rs. found r s" for rs
    using that by (induction rs) auto
  then obtain i where "kind \<in> Some ` set user_kinds \<or> mentions_person s scope \<or> first_marker user_markers s = Some i"
    using assms by blast
  then show ?thesis by (auto simp: classify_scope_def)
qed

lemma route_result:
  assumes "scope_ok (sm_scope sm)" and "route h cv sm model s kind force cs = (Inr (t, st, sm'), cs')"
  shows "t \<in> {User, Org} \<and> hd_bound st = Some (sm_scope sm) \<and> owned h (sm_scope sm) (hd_name st)
    \<and> (force = None \<and> (kind \<in> Some ` set user_kinds \<or> mentions_person s (Some (sm_scope sm))
                         \<or> (\<exists>r \<in> set user_markers. found r s)) \<longrightarrow> t = User)"
proof -
  define tag where "tag = (case force of Some (c # cs) \<Rightarrow> c # cs | _ \<Rightarrow> sd_scope (classify sm model s kind))"
  have in_tags: "tag \<in> {tag_name User, tag_name Org}" and t: "t = (if tag = tag_name User then User else Org)"
    using assms(2) by (auto simp: route_def tag_def[symmetric] Let_def store_calls split: if_splits sum.splits prod.splits)
  then obtain sm'' where store: "scope_store h cv sm t cs = (Inr (st, sm''), cs')"
    using assms(2) by (auto simp: route_def tag_def[symmetric] Let_def store_calls split: if_splits sum.splits prod.splits)
  have "t = User" if "force = None" "kind \<in> Some ` set user_kinds \<or> mentions_person s (Some (sm_scope sm))
      \<or> (\<exists>r \<in> set user_markers. found r s)"
    using personal_wins[OF that(2)] that(1) t by (simp add: tag_def classify_def)
  moreover have "t \<noteq> Global" using t by simp
  ultimately show ?thesis using scope_store_result[OF assms(1) store] t by auto
qed

text \<open>
  An item that is routed goes to the user's or the organization's own collection, in a store
  bound to the scope; one whose kind is personal, or that names the person or carries a personal
  marker, goes to the user's unless the caller forces a scope.
\<close>

theorem routed_to_own_collection:
  assumes "scope_ok (sm_scope sm)" and "route h cv sm model s kind force cs = (Inr (t, st, sm'), cs')"
  shows "t \<in> {User, Org} \<and> hd_bound st = Some (sm_scope sm) \<and> owned h (sm_scope sm) (hd_name st)
    \<and> (force = None \<and> (kind \<in> Some ` set user_kinds \<or> mentions_person s (Some (sm_scope sm))
                         \<or> (\<exists>r \<in> set user_markers. found r s)) \<longrightarrow> t = User)"
  by (rule route_result[OF assms])

section \<open>Merged retrieval\<close>

lemma scope_store_confined:
  assumes "cv_scope cv = Some s" and "\<not> cv_admin cv"
  shows "confined h s (scope_store h cv sm t)"
  unfolding scope_store_def using assms
  by (auto split: sum.splits intro!: confined_bind confined_sibling confined_return)

lemma scope_store_no_violation:
  assumes "scope_ok (sm_scope sm)" and "cv_scope cv = Some (sm_scope sm)"
    and "t = Global \<longrightarrow> visible h (sm_scope sm) (sm_global sm)"
  shows "fst (scope_store h cv sm t cs) \<noteq> Inl (Violation v)"
proof -
  obtain a b where names: "user_collection_name h (sc_user (sm_scope sm)) = Inr a"
    "org_collection_name h (sc_org (sm_scope sm)) = Inr b" and own: "owned h (sm_scope sm) a" "owned h (sm_scope sm) b"
    by (rule scope_ok_allowed[OF assms(1), of h]) (simp add: owned_def)
  have "check_collection_access h cv c (Some (sm_scope sm)) = Inr ()" if "visible h (sm_scope sm) c" for c
    using that guard_open guard_own[OF _ _ assms(2)] unfolding visible_def by blast
  with names own assms(3) show ?thesis
    by (cases t) (simp_all add: scope_store_def scope_collection_def store_calls sibling_def visible_def)
qed

text \<open>A fetch that stays in the scope and raises no violation on a store the scope may see.\<close>

definition fetch_ok :: "hashing \<Rightarrow> memory_scope \<Rightarrow> context_vars \<Rightarrow> scope_fetch \<Rightarrow> bool" where
  "fetch_ok h s cv fetch \<longleftrightarrow>
     (\<forall>st k. confined h s (fetch cv st k)
        \<and> (\<forall>v cs. hd_bound st = Some s \<longrightarrow> visible h s (hd_name st) \<longrightarrow> fst (fetch cv st k cs) \<noteq> Inl (Violation v)))"

lemma pipeline_fetch_ok:
  assumes "cv_scope cv = Some s" and "\<not> cv_admin cv"
  shows "fetch_ok h s cv (pipeline_fetch h sv rc view task tools tag_floor session)"
proof -
  have guard: "check_collection_access h cv (hd_name st) (hd_bound st) = Inr ()"
    if "hd_bound st = Some s" "visible h s (hd_name st)" for st
    using that guard_open[of "hd_name st" h cv "Some s"] guard_own[of h s "hd_name st" "Some s" cv] assms(1)
    unfolding visible_def by auto
  have quiet: "fst (guarded h cv st (\<lambda>ps. (f ps, ps)) cs) \<noteq> Inl (Violation v)"
    if "check_collection_access h cv (hd_name st) (hd_bound st) = Inr ()"
    for st cs v and f :: "points \<Rightarrow> raised + string \<times> scored list"
    using that by (auto simp: guarded_def emap_err_def split: option.splits sum.splits)
  show ?thesis
    unfolding fetch_ok_def pipeline_fetch_def
    by (intro allI conjI impI confined_guarded[OF assms] quiet guard)
qed

lemma confined_retrieve_scope:
  assumes "cv_scope cv = Some s" and "\<not> cv_admin cv" and "fetch_ok h s cv fetch"
  shows "confined h s (retrieve_scope h fetch cv st t)"
proof -
  have "confined h s (fetch cv store k)" for store k using assms(3) by (simp add: fetch_ok_def)
  then show ?thesis
    unfolding retrieve_scope_def Let_def
    by (auto split: prod.splits option.splits
        intro!: confined_return confined_bind confined_surviving scope_store_confined[OF assms(1,2)])
qed

lemma surviving_no_violation:
  "\<forall>v. fst (m cs) \<noteq> Inl (Violation v) \<Longrightarrow> \<exists>a. fst (surviving m cs) = Inr a"
  by (cases "fst (m cs)") (auto simp: surviving_def split: prod.splits sum.splits failure.splits)

lemma surviving_some: "surviving m cs = (Inr (Some a), cs') \<Longrightarrow> m cs = (Inr a, cs')"
  by (auto simp: surviving_def split: prod.splits sum.splits failure.splits)

text \<open>What every step of the loop keeps: the scope and its global collection.\<close>

definition same_scope :: "scoped_memory \<Rightarrow> scoped_memory \<Rightarrow> bool" where
  "same_scope sm sm' \<longleftrightarrow> sm_scope sm' = sm_scope sm \<and> sm_global sm' = sm_global sm \<and> sm_budgets sm' = sm_budgets sm"

lemma retrieve_scope_returns:
  assumes "scope_ok (sm_scope sm)" and "cv_scope cv = Some (sm_scope sm)"
    and "visible h (sm_scope sm) (sm_global sm)" and "fetch_ok h (sm_scope sm) cv fetch"
  shows "\<exists>sm' ms' cs'. retrieve_scope h fetch cv (sm, ms) t cs = (Inr (sm', ms'), cs') \<and> same_scope sm sm'"
proof (cases "budget_of (sm_budgets sm) t \<le> 0")
  case True
  then show ?thesis by (simp add: retrieve_scope_def creturn_def same_scope_def)
next
  case False
  obtain opened cs' where opened: "surviving (scope_store h cv sm t) cs = (Inr opened, cs')"
    using surviving_no_violation[of "scope_store h cv sm t" cs] scope_store_no_violation[OF assms(1,2)] assms(3)
    by (metis prod.collapse)
  show ?thesis
  proof (cases opened)
    case None
    with False opened show ?thesis by (simp add: retrieve_scope_def store_calls same_scope_def)
  next
    case (Some p)
    obtain st sm' where p: "p = (st, sm')" by fastforce
    from opened have "scope_store h cv sm t cs = (Inr (st, sm'), cs')"
      unfolding Some p by (rule surviving_some)
    note res = scope_store_result[OF assms(1) this]
    have "owned h (sm_scope sm) (hd_name st) \<or> hd_name st = sm_global sm" using res by blast
    then have st: "hd_bound st = Some (sm_scope sm)" "visible h (sm_scope sm) (hd_name st)"
      using res assms(3) by (blast, metis visible_def)
    have "same_scope sm sm'" using res unfolding same_scope_def by blast
    moreover obtain got cs'' where "surviving (fetch cv st (nat (budget_of (sm_budgets sm) t))) cs' = (Inr got, cs'')"
      using surviving_no_violation[of "fetch cv st (nat (budget_of (sm_budgets sm) t))" cs'] assms(4) st
      unfolding fetch_ok_def by (metis prod.collapse)
    ultimately show ?thesis using False opened Some p
      by (cases got) (auto simp: retrieve_scope_def store_calls)
  qed
qed

lemma retrieve_loop_returns:
  assumes "scope_ok (sm_scope sm)" and "cv_scope cv = Some (sm_scope sm)"
    and "visible h (sm_scope sm) (sm_global sm)" and "fetch_ok h (sm_scope sm) cv fetch"
  shows "\<exists>r cs'. cfor (retrieve_scope h fetch cv) (sm, ms) ts cs = (Inr r, cs')"
  using assms
proof (induction ts arbitrary: sm ms cs)
  case Nil
  then show ?case by (simp add: creturn_def)
next
  case (Cons t ts)
  obtain sm' ms' cs' where step: "retrieve_scope h fetch cv (sm, ms) t cs = (Inr (sm', ms'), cs')" "same_scope sm sm'"
    using retrieve_scope_returns[OF Cons.prems] by blast
  then have "\<exists>r ds. cfor (retrieve_scope h fetch cv) (sm', ms') ts cs' = (Inr r, ds)"
    using Cons.IH[of sm' ms' cs'] Cons.prems by (auto simp: same_scope_def)
  with step(1) show ?case by (simp add: cbind_def)
qed

text \<open>
  C23: the merged retrieval of a valid scope, whose global collection is not a user's or an
  organization's, always returns: no store of it is refused, and one that fails for another
  reason is left out.  It changes nothing outside the scope and what it injects depends on
  nothing outside it.
\<close>

theorem scoped_retrieval_confined:
  assumes "scope_ok (sm_scope sm)" and "\<not> is_scoped_collection (sm_global sm)" and "\<not> cv_admin cv"
  shows "(\<exists>r cs'. scoped_retrieve h (pipeline_fetch h sv rc view task tools tag_floor session) sm session cv cs = (Inr r, cs'))
    \<and> confined h (sm_scope sm)
        (scoped_retrieve h (pipeline_fetch h sv rc view task tools tag_floor session) sm session cv)"
proof -
  let ?s = "sm_scope sm" and ?fetch = "pipeline_fetch h sv rc view task tools tag_floor session"
  define cv' where "cv' = cv\<lparr>cv_scope := Some ?s\<rparr>"
  have cv': "cv_scope cv' = Some ?s" "\<not> cv_admin cv'" using assms(3) by (simp_all add: cv'_def)
  have fetch: "fetch_ok h ?s cv' ?fetch" by (rule pipeline_fetch_ok[OF cv'])
  have "visible h ?s (sm_global sm)" using assms(2) by (simp add: visible_def)
  from retrieve_loop_returns[OF assms(1) cv'(1) this fetch]
  have loop: "\<exists>r cs'. cfor (retrieve_scope h ?fetch cv') (sm, no_merge) scope_tags cs = (Inr r, cs')" .
  moreover have "confined h ?s (cfor (retrieve_scope h ?fetch cv') (sm, no_merge) scope_tags)"
    by (rule confined_for, rule confined_retrieve_scope[OF cv' fetch])
  moreover from loop have "\<exists>r cs'. scoped_retrieve h ?fetch sm session cv cs = (Inr r, cs')"
    unfolding scoped_retrieve_def scope_context_def cv'_def[symmetric] by (auto simp: store_calls split: prod.splits)
  ultimately show ?thesis
    unfolding scoped_retrieve_def scope_context_def cv'_def[symmetric]
    by (auto split: prod.splits intro!: confined_bind confined_return)
qed

section \<open>What is injected\<close>

text \<open>
  The lines a merge tags have distinct keys, so a lesson several scopes hold is injected once,
  under the narrowest; the counts add up to the lines and blocks injected.
\<close>

definition merge_inv :: "merge_state \<Rightarrow> bool" where
  "merge_inv ms \<longleftrightarrow>
     distinct (ms_seen ms) \<and> map fst (ms_counts ms) = scope_tags
     \<and> length (filter (starts_with ''- ['') (ms_lines ms)) = length (ms_seen ms)
     \<and> sum_list (map snd (ms_counts ms)) = length (ms_seen ms) + length (ms_blocks ms)"

lemma merge_inv_start: "merge_inv no_merge"
  by (simp add: merge_inv_def no_merge_def scope_tags_def)

lemma count_one_fst: "map fst (count_one t cs) = map fst cs"
  by (simp add: count_one_def split_beta comp_def)

lemma count_one_sum:
  assumes "map fst cs = scope_tags"
  shows "sum_list (map snd (count_one t cs)) = Suc (sum_list (map snd cs))"
proof -
  obtain a b c where "cs = [(User, a), (Org, b), (Global, c)]"
    using assms by (auto simp: scope_tags_def Cons_eq_map_conv map_eq_Cons_conv)
  then show ?thesis by (cases t) (simp_all add: count_one_def)
qed

lemma add_line_inv: "merge_inv ms \<Longrightarrow> merge_inv (add_line t l ms)"
  by (auto simp: merge_inv_def add_line_def count_one_fst count_one_sum starts_with_def)

lemma add_block_inv: "merge_inv ms \<Longrightarrow> merge_inv (add_block t b ms)"
  by (auto simp: merge_inv_def add_block_def count_one_fst count_one_sum)

lemma merge_scope_inv: "merge_inv ms \<Longrightarrow> merge_inv (merge_scope t s merged ms)"
proof -
  have "merge_inv (fold (add_line t) ls ms)" if "merge_inv ms" for ls ms
    using that by (induction ls arbitrary: ms) (auto intro: add_line_inv)
  moreover have "merge_inv (fold (add_block t) bs ms)" if "merge_inv ms" for bs ms
    using that by (induction bs arbitrary: ms) (auto intro: add_block_inv)
  moreover have "merge_inv (ms\<lparr>ms_all := x\<rparr>)" if "merge_inv ms" for x ms using that by (simp add: merge_inv_def)
  ultimately show "merge_inv ms \<Longrightarrow> merge_inv (merge_scope t s merged ms)"
    by (simp add: merge_scope_def Let_def)
qed

lemma retrieve_scope_inv:
  "retrieve_scope h fetch cv (sm, ms) t cs = (Inr (sm', ms'), cs') \<Longrightarrow> merge_inv ms \<Longrightarrow> merge_inv ms'"
  by (auto simp: retrieve_scope_def store_calls Let_def merge_scope_inv
      split: if_splits prod.splits sum.splits option.splits)

lemma retrieve_loop_inv:
  "cfor (retrieve_scope h fetch cv) (sm, ms) ts cs = (Inr (sm', ms'), cs') \<Longrightarrow> merge_inv ms \<Longrightarrow> merge_inv ms'"
proof (induction ts arbitrary: sm ms cs)
  case Nil
  then show ?case by (simp add: creturn_def)
next
  case (Cons t ts)
  from Cons.prems(1) obtain a ds where "retrieve_scope h fetch cv (sm, ms) t cs = (Inr a, ds)"
    "cfor (retrieve_scope h fetch cv) a ts ds = (Inr (sm', ms'), cs')"
    by (auto simp: cbind_def split: prod.splits sum.splits)
  with Cons retrieve_scope_inv show ?case by (metis prod.exhaust)
qed

end
