(* ===== verification/Entry_Payload.thy ===== *)
theory Entry_Payload
  imports Memory_Entries
begin

text \<open>
  The stored form of a memory entry (\<open>to_payload\<close> and \<open>from_payload\<close> of
  \<open>src/fabri/memory/schema.py\<close>): a dictionary of its fields, and back.  A payload whose fields
  have other types than the dataclass declares is refused here, where the code would carry the
  values along untyped.
\<close>

section \<open>Writing\<close>

definition strs :: "string list \<Rightarrow> pyval" where "strs xs = VList (map VStr xs)"
definition opt_str :: "string option \<Rightarrow> pyval" where "opt_str x = (case x of None \<Rightarrow> VNone | Some s \<Rightarrow> VStr s)"

definition to_payload :: "memory_entry \<Rightarrow> pydict" where
  "to_payload e =
     [(KStr ''text'', VStr (me_text e)), (KStr ''kind'', VStr (me_kind e)),
      (KStr ''session_ids'', strs (me_session_ids e)), (KStr ''tags'', strs (me_tags e)),
      (KStr ''tools'', strs (me_tools e)), (KStr ''hit_count'', VInt (me_hit_count e)),
      (KStr ''created_at'', VFloat (Fin (me_created_at e))), (KStr ''model_version'', VStr (me_model_version e)),
      (KStr ''domain'', VStr (me_domain e)), (KStr ''outcome'', VStr (me_outcome e)),
      (KStr ''agent_id'', opt_str (me_agent_id e)),
      (KStr ''task_embedding_hash'', opt_str (me_task_embedding_hash e)),
      (KStr ''dedup_key'', opt_str (me_dedup_key e)),
      (KStr ''producer_agent_id'', opt_str (me_producer_agent_id e)), (KStr ''scope'', VStr (me_scope e)),
      (KStr ''verification'', VStr (me_verification e)), (KStr ''tier'', VStr (me_tier e)),
      (KStr ''resolution'', case me_resolution e of None \<Rightarrow> VNone | Some d \<Rightarrow> VDict d),
      (KStr ''source_session_ids'', strs (me_source_session_ids e)),
      (KStr ''source_event_ids'', strs (me_source_event_ids e)),
      (KStr ''applicability'', strs (me_applicability e)),
      (KStr ''do_not_reuse_when'', strs (me_do_not_reuse_when e)), (KStr ''payload'', VDict (me_payload e))]"

section \<open>Reading\<close>

definition read_str :: "pyval \<Rightarrow> raised + string" where
  "read_str v = (case v of VStr s \<Rightarrow> Inr s | _ \<Rightarrow> Inl (OtherErr ''not a string''))"

definition read_opt_str :: "pyval \<Rightarrow> raised + string option" where
  "read_opt_str v =
     (case v of VNone \<Rightarrow> Inr None | VStr s \<Rightarrow> Inr (Some s) | _ \<Rightarrow> Inl (OtherErr ''not a string''))"

definition read_strs :: "pyval \<Rightarrow> raised + string list" where
  "read_strs v = (case v of VList xs \<Rightarrow> traverse read_str xs | _ \<Rightarrow> Inl (OtherErr ''not a list''))"

definition read_int :: "pyval \<Rightarrow> raised + int" where
  "read_int v = (case v of VInt i \<Rightarrow> Inr i | _ \<Rightarrow> Inl (OtherErr ''not an int''))"

definition read_time :: "pyval \<Rightarrow> raised + rat" where
  "read_time v =
     (case v of VFloat (Fin r) \<Rightarrow> Inr r | VInt i \<Rightarrow> Inr (of_int i) | _ \<Rightarrow> Inl (OtherErr ''not a time''))"

definition read_opt_dict :: "pyval \<Rightarrow> raised + pydict option" where
  "read_opt_dict v =
     (case v of VNone \<Rightarrow> Inr None | VDict d \<Rightarrow> Inr (Some d) | _ \<Rightarrow> Inl (OtherErr ''not a mapping''))"

definition read_dict :: "pyval \<Rightarrow> raised + pydict" where
  "read_dict v = (case v of VDict d \<Rightarrow> Inr d | _ \<Rightarrow> Inl (OtherErr ''not a mapping''))"

definition required :: "pydict \<Rightarrow> string \<Rightarrow> raised + pyval" where
  "required p k = (case dict_lookup p k of None \<Rightarrow> Inl (OtherErr (''KeyError: '' @ k)) | Some v \<Rightarrow> Inr v)"

text \<open>The fields that stand for another when it is missing, and the defaults of the rest.\<close>

definition from_payload :: "rat \<Rightarrow> pydict \<Rightarrow> raised + memory_entry" where
  "from_payload now p =
     ebind (ebind (required p ''text'') read_str) (\<lambda>txt.
     ebind (ebind (required p ''kind'') read_str) (\<lambda>kind.
     ebind (read_strs (dict_get_default p ''session_ids'' (dict_get_default p ''source_session_ids'' (VList [])))) (\<lambda>sessions.
     ebind (read_strs (dict_get_default p ''tags'' (VList []))) (\<lambda>tags.
     ebind (read_strs (dict_get_default p ''tools'' (VList []))) (\<lambda>tools.
     ebind (read_int (dict_get_default p ''hit_count'' (VInt 1))) (\<lambda>hit_count.
     ebind (read_time (dict_get_default p ''created_at'' (VFloat (Fin now)))) (\<lambda>created.
     ebind (read_str (dict_get_default p ''model_version'' (VStr ''minilm-l6-v2''))) (\<lambda>model_version.
     ebind (read_str (dict_get_default p ''domain'' (VStr ''generic''))) (\<lambda>domain.
     ebind (read_str (dict_get_default p ''outcome'' (VStr ''unknown''))) (\<lambda>outcome.
     ebind (read_opt_str (dict_get_default p ''agent_id'' (dict_get p ''producer_agent_id''))) (\<lambda>agent.
     ebind (read_opt_str (dict_get p ''task_embedding_hash'')) (\<lambda>task_hash.
     ebind (read_opt_str (dict_get p ''dedup_key'')) (\<lambda>dedup.
     ebind (read_opt_str (dict_get_default p ''producer_agent_id'' (dict_get p ''agent_id''))) (\<lambda>producer.
     ebind (read_str (dict_get_default p ''scope'' (VStr ''agent''))) (\<lambda>scope.
     ebind (read_str (dict_get_default p ''verification'' (VStr ''unverified''))) (\<lambda>verification.
     ebind (read_str (dict_get_default p ''tier'' (VStr ''unclassified''))) (\<lambda>tier.
     ebind (read_opt_dict (dict_get p ''resolution'')) (\<lambda>resolution.
     ebind (read_strs (dict_get_default p ''source_session_ids'' (dict_get_default p ''session_ids'' (VList [])))) (\<lambda>sources.
     ebind (read_strs (dict_get_default p ''source_event_ids'' (VList []))) (\<lambda>events.
     ebind (read_strs (dict_get_default p ''applicability'' (VList []))) (\<lambda>applicability.
     ebind (read_strs (dict_get_default p ''do_not_reuse_when'' (VList []))) (\<lambda>avoid.
     ebind (read_dict (dict_get_default p ''payload'' (VDict []))) (\<lambda>payload.
       Inr (post_init
         \<lparr>me_text = txt, me_kind = kind, me_session_ids = sessions, me_tags = tags, me_tools = tools,
          me_hit_count = hit_count, me_created_at = created, me_model_version = model_version,
          me_domain = domain, me_outcome = outcome, me_agent_id = agent, me_task_embedding_hash = task_hash,
          me_dedup_key = dedup, me_producer_agent_id = producer, me_scope = scope,
          me_verification = verification, me_tier = tier, me_resolution = resolution,
          me_source_session_ids = sources, me_source_event_ids = events, me_applicability = applicability,
          me_do_not_reuse_when = avoid, me_payload = payload\<rparr>))))))))))))))))))))))))"

section \<open>Round trip\<close>

lemma read_strs_strs: "read_strs (strs xs) = Inr xs"
proof -
  have "traverse read_str (map VStr xs) = Inr xs" by (induction xs) (simp_all add: read_str_def)
  then show ?thesis by (simp add: read_strs_def strs_def)
qed

lemma read_opt_str_opt_str: "read_opt_str (opt_str x) = Inr x"
  by (simp add: read_opt_str_def opt_str_def split: option.splits)

text \<open>Every field of a written payload is found under its key.\<close>

lemma payload_fields:
  "dict_lookup (to_payload e) ''text'' = Some (VStr (me_text e))"
  "dict_lookup (to_payload e) ''kind'' = Some (VStr (me_kind e))"
  "dict_lookup (to_payload e) ''session_ids'' = Some (strs (me_session_ids e))"
  "dict_lookup (to_payload e) ''tags'' = Some (strs (me_tags e))"
  "dict_lookup (to_payload e) ''tools'' = Some (strs (me_tools e))"
  "dict_lookup (to_payload e) ''hit_count'' = Some (VInt (me_hit_count e))"
  "dict_lookup (to_payload e) ''created_at'' = Some (VFloat (Fin (me_created_at e)))"
  "dict_lookup (to_payload e) ''model_version'' = Some (VStr (me_model_version e))"
  "dict_lookup (to_payload e) ''domain'' = Some (VStr (me_domain e))"
  "dict_lookup (to_payload e) ''outcome'' = Some (VStr (me_outcome e))"
  "dict_lookup (to_payload e) ''agent_id'' = Some (opt_str (me_agent_id e))"
  "dict_lookup (to_payload e) ''task_embedding_hash'' = Some (opt_str (me_task_embedding_hash e))"
  "dict_lookup (to_payload e) ''dedup_key'' = Some (opt_str (me_dedup_key e))"
  "dict_lookup (to_payload e) ''producer_agent_id'' = Some (opt_str (me_producer_agent_id e))"
  "dict_lookup (to_payload e) ''scope'' = Some (VStr (me_scope e))"
  "dict_lookup (to_payload e) ''verification'' = Some (VStr (me_verification e))"
  "dict_lookup (to_payload e) ''tier'' = Some (VStr (me_tier e))"
  "dict_lookup (to_payload e) ''resolution'' = Some (case me_resolution e of None \<Rightarrow> VNone | Some d \<Rightarrow> VDict d)"
  "dict_lookup (to_payload e) ''source_session_ids'' = Some (strs (me_source_session_ids e))"
  "dict_lookup (to_payload e) ''source_event_ids'' = Some (strs (me_source_event_ids e))"
  "dict_lookup (to_payload e) ''applicability'' = Some (strs (me_applicability e))"
  "dict_lookup (to_payload e) ''do_not_reuse_when'' = Some (strs (me_do_not_reuse_when e))"
  "dict_lookup (to_payload e) ''payload'' = Some (VDict (me_payload e))"
  by (simp_all add: dict_lookup_def to_payload_def)

lemma payload_roundtrip: "from_payload now (to_payload e) = Inr (post_init e)"
proof -
  have "read_opt_dict (case me_resolution e of None \<Rightarrow> VNone | Some d \<Rightarrow> VDict d) = Inr (me_resolution e)"
    by (simp add: read_opt_dict_def split: option.splits)
  then show ?thesis
    by (simp only: from_payload_def required_def dict_get_def dict_get_default_def payload_fields option.case
        ebind_simps read_strs_strs read_opt_str_opt_str)
       (cases e, simp add: read_str_def read_int_def read_time_def read_dict_def)
qed

text \<open>
  C28: what is stored of an entry reads back as the entry, whatever the clock says, provided its
  aliases are synchronized, which every entry the constructor returns is.
\<close>

theorem payload_reads_back: "from_payload now (to_payload (post_init e)) = Inr (post_init e)"
  by (simp add: payload_roundtrip post_init_idem)

end
