(* ===== verification/Embedded_Store.thy ===== *)
theory Embedded_Store
  imports Entry_Payload Memory_Ingest Regex
begin

text \<open>
  The SQLite store of the memory (\<open>src/fabri/memory/embedded_store.py\<close>): three tables, the rows
  of the entries, their vectors and their texts for full-text search, kept together by every
  operation.  The embedding model, JSON, the distance of two vectors and the ranking of the
  full-text index are parameters; every statement of a method is committed together.
\<close>

section \<open>Tables\<close>

record db_row =
  dr_id :: string
  dr_text :: string
  dr_kind :: string
  dr_payload :: string
  dr_hits :: int
  dr_dedup :: "string option"

record sqlite_db =
  db_rows :: "db_row list"
  db_vecs :: "(string \<times> vec) list"
  db_fts :: "(string \<times> string) list"

definition fresh_db :: sqlite_db where "fresh_db = \<lparr>db_rows = [], db_vecs = [], db_fts = []\<rparr>"

text \<open>
  \<open>ss_match\<close> gives the rows of the full-text index that match a query with their BM25 value, in
  ascending order of it, or raises.
\<close>

record sqlite_services =
  ss_uuid :: "string \<Rightarrow> string"
  ss_embed :: "string \<Rightarrow> raised + vec"
  ss_dumps :: "pydict \<Rightarrow> raised + string"
  ss_loads :: "string \<Rightarrow> raised + pydict"
  ss_distance :: "vec \<Rightarrow> vec \<Rightarrow> rat"
  ss_match :: "(string \<times> string) list \<Rightarrow> string \<Rightarrow> raised + (string \<times> rat) list"
  ss_now :: rat

section \<open>Writes\<close>

definition row_of :: "sqlite_services \<Rightarrow> memory_entry \<Rightarrow> string \<Rightarrow> db_row" where
  "row_of ss e payload =
     \<lparr>dr_id = entry_id (ss_uuid ss) e, dr_text = me_text e, dr_kind = me_kind e, dr_payload = payload,
      dr_hits = me_hit_count e, dr_dedup = me_dedup_key e\<rparr>"

text \<open>\<open>INSERT OR REPLACE\<close> and \<open>DELETE; INSERT\<close>: the new row is the last one.\<close>

definition replace_row :: "('r \<Rightarrow> string) \<Rightarrow> 'r \<Rightarrow> 'r list \<Rightarrow> 'r list" where
  "replace_row key r rs = filter (\<lambda>x. key x \<noteq> key r) rs @ [r]"

definition db_upsert :: "sqlite_services \<Rightarrow> memory_entry \<Rightarrow> sqlite_db \<Rightarrow> (raised + string) \<times> sqlite_db" where
  "db_upsert ss e db =
     (case ss_embed ss (me_text e) of
        Inl x \<Rightarrow> (Inl x, db)
      | Inr v \<Rightarrow>
          (case ss_dumps ss (to_payload e) of
             Inl x \<Rightarrow> (Inl x, db)
           | Inr payload \<Rightarrow>
               let i = entry_id (ss_uuid ss) e in
               (Inr i, \<lparr>db_rows = replace_row dr_id (row_of ss e payload) (db_rows db),
                        db_vecs = replace_row fst (i, v) (db_vecs db),
                        db_fts = replace_row fst (i, me_text e) (db_fts db)\<rparr>)))"

definition db_delete :: "string \<Rightarrow> sqlite_db \<Rightarrow> sqlite_db" where
  "db_delete i db =
     \<lparr>db_rows = filter (\<lambda>r. dr_id r \<noteq> i) (db_rows db),
      db_vecs = filter (\<lambda>r. fst r \<noteq> i) (db_vecs db),
      db_fts = filter (\<lambda>r. fst r \<noteq> i) (db_fts db)\<rparr>"

section \<open>Reads\<close>

definition decode_entry :: "sqlite_services \<Rightarrow> string \<Rightarrow> raised + memory_entry" where
  "decode_entry ss payload = ebind (ss_loads ss payload) (from_payload (ss_now ss))"

definition find_row :: "string \<Rightarrow> sqlite_db \<Rightarrow> db_row option" where
  "find_row i db = List.find (\<lambda>r. dr_id r = i) (db_rows db)"

definition db_get :: "sqlite_services \<Rightarrow> string \<Rightarrow> sqlite_db \<Rightarrow> raised + memory_entry option" where
  "db_get ss i db =
     (case find_row i db of
        None \<Rightarrow> Inr None | Some r \<Rightarrow> ebind (decode_entry ss (dr_payload r)) (\<lambda>e. Inr (Some e)))"

definition db_count :: "string option \<Rightarrow> sqlite_db \<Rightarrow> nat" where
  "db_count kind db = length (filter (\<lambda>r. kind = None \<or> kind = Some (dr_kind r)) (db_rows db))"

definition db_iterate ::
  "sqlite_services \<Rightarrow> string option \<Rightarrow> nat option \<Rightarrow> sqlite_db \<Rightarrow> raised + memory_entry list" where
  "db_iterate ss kind limit db =
     (let rs = filter (\<lambda>r. kind = None \<or> kind = Some (dr_kind r)) (db_rows db) in
      traverse (decode_entry ss \<circ> dr_payload) (case limit of None \<Rightarrow> rs | Some n \<Rightarrow> take n rs))"

definition db_find_by_dedup_key ::
  "sqlite_services \<Rightarrow> string \<Rightarrow> string option \<Rightarrow> sqlite_db \<Rightarrow> raised + (memory_entry \<times> rat) option" where
  "db_find_by_dedup_key ss key kind db =
     (case List.find (\<lambda>r. dr_dedup r = Some key \<and> (kind = None \<or> kind = Some (dr_kind r))) (db_rows db) of
        None \<Rightarrow> Inr None | Some r \<Rightarrow> ebind (decode_entry ss (dr_payload r)) (\<lambda>e. Inr (Some (e, 1))))"

section \<open>Searches\<close>

text \<open>The rows fetched before the filters on kind and tools are applied to them.\<close>

definition over_fetch :: "nat \<Rightarrow> string option \<Rightarrow> string list option \<Rightarrow> nat" where
  "over_fetch top_k kind tools =
     (if kind \<noteq> None \<or> (tools \<noteq> None \<and> tools \<noteq> Some []) then top_k * 4 else top_k)"

definition passes_filters :: "string option \<Rightarrow> string list option \<Rightarrow> memory_entry \<Rightarrow> bool" where
  "passes_filters kind tools e \<longleftrightarrow>
     (kind = None \<or> kind = Some (me_kind e))
     \<and> (case tools of None \<Rightarrow> True | Some ts \<Rightarrow> set (me_tools e) \<inter> set ts \<noteq> {})"

text \<open>The nearest candidates that pass, closest first, with the similarity of each.\<close>

definition nearest_entries ::
  "sqlite_services \<Rightarrow> vec \<Rightarrow> nat \<Rightarrow> string option \<Rightarrow> string list option
     \<Rightarrow> ('a \<times> vec) list \<Rightarrow> ('a \<times> rat) list" where
  "nearest_entries ss v top_k kind tools cands =
     map (\<lambda>(x, w). (x, 1 - ss_distance ss w v / 2))
       (take (over_fetch top_k kind tools) (sort_key (\<lambda>(x, w). ss_distance ss w v) cands))"

text \<open>The loop over the fetched rows; it stops as soon as it has enough.\<close>

fun collect_rows ::
  "sqlite_services \<Rightarrow> nat \<Rightarrow> string option \<Rightarrow> string list option \<Rightarrow> (db_row \<times> rat) list
     \<Rightarrow> scored list \<Rightarrow> raised + scored list" where
  "collect_rows ss top_k kind tools [] out = Inr out"
| "collect_rows ss top_k kind tools ((r, score) # rs) out =
     ebind (decode_entry ss (dr_payload r)) (\<lambda>e.
       if \<not> passes_filters kind tools e then collect_rows ss top_k kind tools rs out
       else if top_k \<le> length out + 1 then Inr (out @ [(e, score)])
       else collect_rows ss top_k kind tools rs (out @ [(e, score)]))"

text \<open>The join of a ranking with the rows of the entries.\<close>

definition joined_rows :: "sqlite_db \<Rightarrow> (string \<times> rat) list \<Rightarrow> (db_row \<times> rat) list" where
  "joined_rows db ranked = List.map_filter (\<lambda>(i, score). map_option (\<lambda>r. (r, score)) (find_row i db)) ranked"

definition db_query_by_vector ::
  "sqlite_services \<Rightarrow> vec \<Rightarrow> nat \<Rightarrow> string option \<Rightarrow> string list option \<Rightarrow> sqlite_db
     \<Rightarrow> raised + scored list" where
  "db_query_by_vector ss v top_k kind tools db =
     collect_rows ss top_k kind tools (joined_rows db (nearest_entries ss v top_k kind tools (db_vecs db))) []"

definition db_query ::
  "sqlite_services \<Rightarrow> string \<Rightarrow> nat \<Rightarrow> string option \<Rightarrow> string list option \<Rightarrow> sqlite_db
     \<Rightarrow> raised + scored list" where
  "db_query ss t top_k kind tools db =
     ebind (ss_embed ss t) (\<lambda>v. db_query_by_vector ss v top_k kind tools db)"

definition db_find_similar ::
  "sqlite_services \<Rightarrow> string \<Rightarrow> rat \<Rightarrow> string option \<Rightarrow> sqlite_db \<Rightarrow> raised + (memory_entry \<times> rat) option" where
  "db_find_similar ss t threshold kind db =
     ebind (db_query ss t 1 kind None db)
       (\<lambda>matched_rows. Inr (case matched_rows of (e, score) # _ \<Rightarrow> if threshold \<le> score then Some (e, score) else None
                    | [] \<Rightarrow> None))"

text \<open>The expression of the full-text index: at most fifty quoted words, any of them.\<close>

definition fts_words :: "string \<Rightarrow> string list" where
  "fts_words s = filter (\<lambda>w. w \<noteq> []) (split_on CHR '' '' (map (\<lambda>c. if re_word c \<and> c \<noteq> CHR ''_'' then c else CHR '' '') s))"

definition fts5_query :: "string \<Rightarrow> string" where
  "fts5_query s = join '' OR '' (map (\<lambda>w. [CHR 0x22] @ w @ [CHR 0x22]) (take 50 (fts_words s)))"

definition db_query_bm25 ::
  "sqlite_services \<Rightarrow> string \<Rightarrow> nat \<Rightarrow> string option \<Rightarrow> string list option \<Rightarrow> sqlite_db
     \<Rightarrow> raised + scored list" where
  "db_query_bm25 ss t top_k kind tools db =
     (if fts5_query t = [] then Inr []
      else case ss_match ss (db_fts db) (fts5_query t) of
             Inl _ \<Rightarrow> Inr []
           | Inr ranked \<Rightarrow>
               collect_rows ss top_k kind tools
                 (joined_rows db (map (\<lambda>(i, b). (i, - b)) (take (over_fetch top_k kind tools) ranked))) [])"

text \<open>A database written by another embedding model is refused when it is opened.\<close>

definition check_model_version :: "sqlite_services \<Rightarrow> sqlite_db \<Rightarrow> raised + unit" where
  "check_model_version ss db =
     (case db_rows db of
        [] \<Rightarrow> Inr ()
      | r # _ \<Rightarrow>
          ebind (ss_loads ss (dr_payload r)) (\<lambda>p.
            let stored = dict_get p ''model_version'' in
            if truthy stored \<and> stored \<noteq> VStr ''minilm-l6-v2''
            then Inl (RuntimeErr ''the sqlite memory db was written with another embedding model'') else Inr ()))"

section \<open>The backend of an ingestion\<close>

text \<open>
  The store as the backend of \<open>ingest_guideline\<close>: the search of the vector table, over points
  whose vectors are the embeddings of their texts.
\<close>

definition point_vec :: "sqlite_services \<Rightarrow> memory_entry \<Rightarrow> vec" where
  "point_vec ss e = (case ss_embed ss (me_text e) of Inl _ \<Rightarrow> [] | Inr v \<Rightarrow> v)"

definition sqlite_nearest ::
  "sqlite_services \<Rightarrow> string \<Rightarrow> string option \<Rightarrow> points \<Rightarrow> raised + (memory_entry \<times> rat) option" where
  "sqlite_nearest ss t kind ps =
     ebind (ss_embed ss t) (\<lambda>v.
       Inr (List.find (\<lambda>(e, _). passes_filters kind None e)
              (nearest_entries ss v 1 kind None (map (\<lambda>(_, e). (e, point_vec ss e)) ps))))"

definition sqlite_backend ::
  "sqlite_services \<Rightarrow> (rat \<Rightarrow> rat) \<Rightarrow> (string \<Rightarrow> int \<Rightarrow> string) \<Rightarrow> ingest_backend" where
  "sqlite_backend ss decay cap =
     \<lparr>be_uuid = ss_uuid ss,
      be_embed = (\<lambda>t. case ss_embed ss t of Inl x \<Rightarrow> Some x | Inr _ \<Rightarrow> None),
      be_nearest = sqlite_nearest ss, be_decay = decay, be_now = ss_now ss, be_cap = cap\<rparr>"

end
