(* ===== verification/Scrub.thy ===== *)
theory Scrub
  imports Regex Tool_Policy
begin

text \<open>
  De-identification of lessons headed to the shared scope (\<open>src/fabri/memory/scrub.py\<close>): the
  patterns, the order in which they are replaced, and the check of the result.  The order in
  which a set of names of the same length is iterated is a parameter; the euro and rupee signs
  of the amount pattern are outside the modelled code points.
\<close>

section \<open>Patterns\<close>

definition word_or :: "string \<Rightarrow> char \<Rightarrow> bool" where "word_or s c \<longleftrightarrow> re_word c \<or> c \<in> set s"
definition alnum_or :: "string \<Rightarrow> char \<Rightarrow> bool" where "alnum_or s c \<longleftrightarrow> letter_or_digit c \<or> c \<in> set s"

abbreviation digits :: "nat \<Rightarrow> nat \<Rightarrow> regex" where "digits m n \<equiv> between m n (Sat digit_09)"
abbreviation blanks :: regex where "blanks \<equiv> zero_or_more (Sat is_space)"
abbreviation blank :: regex where "blank \<equiv> Sat is_space"
abbreviation one_char :: "string \<Rightarrow> regex" where "one_char s \<equiv> Sat (one_of s)"

definition email_regex :: regex where
  "email_regex =
     seqs [one_or_more (Sat (alnum_or ''._%+-'')), lit ''@'', one_or_more (Sat (alnum_or ''-'')),
           one_or_more (seqs [lit ''.'', one_or_more (Sat (alnum_or ''-''))])]"

definition url_regex :: regex where
  "url_regex =
     seqs [Boundary, alts [seqs [ilit ''http'', optional (ilit ''s''), ilit ''://''], ilit ''www.''],
           one_or_more (Sat (\<lambda>c. \<not> is_space c))]"

definition ipv4_regex :: regex where
  "ipv4_regex = seqs [Boundary, exactly 3 (seqs [digits 1 3, lit ''.'']), digits 1 3, Boundary]"

definition hex_class :: "char \<Rightarrow> bool" where
  "hex_class = any_case (\<lambda>c. digit_09 c \<or> code_in 97 102 c)"

definition uuid_regex :: regex where
  "uuid_regex =
     seqs [Boundary, exactly 8 (Sat hex_class), lit ''-'', exactly 4 (Sat hex_class), lit ''-'',
           exactly 4 (Sat hex_class), lit ''-'', exactly 4 (Sat hex_class), lit ''-'',
           exactly 12 (Sat hex_class), Boundary]"

definition long_hex_regex :: regex where
  "long_hex_regex = seqs [Boundary, Rep 16 None True (Sat hex_class), Boundary]"

definition secret_regex :: regex where
  "secret_regex =
     seqs [Boundary, alts [lit ''sk'', lit ''pk'', lit ''ghp'', lit ''gho'',
                           seqs [lit ''xox'', one_char ''abpr''], lit ''AKIA''],
           Rep 12 None True (Sat (alnum_or ''-_'')), Boundary]"

definition token_regex :: regex where
  "token_regex =
     seqs [Boundary, Ahead True (seqs [zero_or_more (Sat (alnum_or ''_-'')), Sat digit_09]),
           Ahead True (seqs [zero_or_more (Sat (alnum_or ''_-'')), Sat letter_az]),
           Rep 28 None True (Sat (alnum_or ''_-'')), Boundary]"

definition phone_gap :: regex where "phone_gap = Sat (\<lambda>c. is_space c \<or> c \<in> set ''.-'')"

definition phone_regex :: regex where
  "phone_regex =
     alts [seqs [Behind False (word_or ''.''), optional (seqs [lit ''+'', digits 1 3, optional phone_gap]),
                 alts [seqs [lit ''('', digits 2 4, lit '')'', optional phone_gap],
                       seqs [digits 2 4, phone_gap]],
                 digits 3 4, phone_gap, digits 3 4, Ahead False (Sat re_word)],
           seqs [Behind False (word_or ''.''), lit ''+'', digits 8 15, Ahead False (Sat re_word)]]"

definition home_regex :: regex where
  "home_regex =
     seqs [alts [lit ''/Users/'', lit ''/home/'', seqs [Sat letter_az, lit ([CHR '':'', CHR 0x5C] @ ''Users'' @ [CHR 0x5C])]],
           Rep 0 None False (Sat (\<lambda>c. \<not> is_space c)),
           Ahead True (seqs [zero_or_more (one_char ''.,;:)''), alts [blank, AtFinish]])]"

definition abs_path_regex :: regex where
  "abs_path_regex =
     seqs [Behind False (word_or ''<''), lit ''/'',
           one_or_more (seqs [one_or_more (Sat (word_or ''.@-'')), lit ''/'']),
           one_or_more (Sat (word_or ''.@-''))]"

definition handle_regex :: regex where
  "handle_regex = seqs [Behind False (word_or ''@''), lit ''@'', Rep 2 None True (Sat (alnum_or ''_''))]"

definition amount_digits :: regex where
  "amount_digits =
     seqs [Sat digit_09, zero_or_more (Sat (\<lambda>c. digit_09 c \<or> c = CHR '','')),
           optional (seqs [lit ''.'', one_or_more (Sat digit_09)])]"

definition amount_regex :: regex where
  "amount_regex =
     alts [seqs [Sat (\<lambda>c. c = CHR ''$'' \<or> c = CHR 0xA3), optional blank, amount_digits,
                 optional (seqs [optional blank, one_char ''kKmMbB'', Boundary])],
           seqs [Boundary, amount_digits, optional blank,
                 any_word [''USD'', ''EUR'', ''GBP'', ''INR'', ''dollars'', ''euros''], Boundary]]"

definition date_regex :: regex where
  "date_regex =
     alts [seqs [Boundary, exactly 4 (Sat digit_09), lit ''-'', exactly 2 (Sat digit_09), lit ''-'',
                 exactly 2 (Sat digit_09), Boundary],
           seqs [Boundary, digits 1 2, lit ''/'', digits 1 2, lit ''/'', digits 2 4, Boundary],
           seqs [Boundary, any_word [''Jan'', ''Feb'', ''Mar'', ''Apr'', ''May'', ''Jun'', ''Jul'', ''Aug'',
                                     ''Sep'', ''Sept'', ''Oct'', ''Nov'', ''Dec''],
                 zero_or_more (Sat (any_case lower_az)), optional (lit ''.''), lit '' '', digits 1 2,
                 optional (any_word [''st'', ''nd'', ''rd'', ''th'']),
                 optional (seqs [optional (lit '',''), lit '' '', exactly 4 (Sat digit_09)]), Boundary]]"

definition code_id_regex :: regex where
  "code_id_regex =
     alts [seqs [Boundary, Rep 2 None True (Sat letter_az), one_char ''-_#'', one_or_more (Sat digit_09), Boundary],
           seqs [lit ''#'', one_or_more (Sat digit_09), Boundary]]"

definition long_number_regex :: regex where
  "long_number_regex =
     seqs [Boundary, Rep 3 None True (Sat digit_09),
           zero_or_more (seqs [one_char ''.,'', one_or_more (Sat digit_09)]), Boundary]"

definition cap_word :: regex where
  "cap_word = seqs [Sat upper_az, one_or_more (Sat (\<lambda>c. letter_az c \<or> c \<in> {CHR 0x27, CHR ''&'', CHR ''-''}))]"

definition num_before_regex :: regex where
  "num_before_regex =
     seqs [Boundary, one_or_more (Sat digit_09), one_or_more blank, Ahead True (lit ''<name>'')]"

definition num_after_regex :: regex where
  "num_after_regex = seqs [lit ''<name>'', blank, one_or_more (Sat digit_09), Boundary]"

definition placeholder_regex :: regex where
  "placeholder_regex = seqs [lit ''<'', one_or_more (Sat (\<lambda>c. lower_az c \<or> c = CHR ''_'')), lit ''>'']"

definition common_caps :: "string list" where
  "common_caps =
     [''I'', ''A'', ''An'', ''The'', ''This'', ''That'', ''These'', ''Those'', ''It'', ''In'', ''On'', ''At'',
      ''For'', ''And'', ''Or'', ''But'', ''If'', ''When'', ''After'', ''Before'',
      ''Python'', ''JSON'', ''YAML'', ''XML'', ''HTML'', ''CSS'', ''SQL'', ''HTTP'', ''HTTPS'', ''API'', ''URL'',
      ''CLI'', ''SDK'', ''LLM'', ''AI'', ''CSV'', ''PDF'', ''UI'', ''UX'',
      ''Git'', ''GitHub'', ''Linux'', ''Windows'', ''macOS'', ''Docker'', ''Kubernetes'', ''Qdrant'', ''SQLite'',
      ''Postgres'', ''Redis'',
      ''Monday'', ''Tuesday'', ''Wednesday'', ''Thursday'', ''Friday'', ''Saturday'', ''Sunday'', ''January'',
      ''February'', ''March'', ''April'',
      ''May'', ''June'', ''July'', ''August'', ''September'', ''October'', ''November'', ''December'', ''Note'',
      ''Task'', ''Plan'', ''Outcome'', ''Tool'',
      ''Always'', ''Never'', ''Do'', ''Don'' @ [CHR 0x27] @ ''t'', ''Use'', ''Avoid'', ''Check'', ''Verify'',
      ''Confirm'', ''Retry'', ''Re-read'', ''Ensure'']"

section \<open>Names\<close>

text \<open>A name as a whole word, in any case.\<close>

definition ci_word :: "string \<Rightarrow> regex" where
  "ci_word n = seqs [Behind False letter_or_digit, ilit n, Ahead False (Sat letter_or_digit)]"

text \<open>\<open>str.isalpha\<close> on the modelled code points.\<close>

definition alphabetic :: "char \<Rightarrow> bool" where
  "alphabetic c \<longleftrightarrow>
     letter_az c \<or> (of_char c :: nat) \<in> {170, 181, 186} \<union> ({192..255} - {215, 247})"

definition name_break :: "char \<Rightarrow> bool" where
  "name_break c \<longleftrightarrow> is_space c \<or> c \<in> set ''@._-''"

text \<open>\<open>re.split(r"[\<dots>]+", s)\<close> without the empty parts, which are too short to be kept.\<close>

fun name_parts :: "string \<Rightarrow> string \<Rightarrow> string list" where
  "name_parts acc [] = (if acc = [] then [] else [rev acc])"
| "name_parts acc (c # cs) =
     (if name_break c then (if acc = [] then [] else [rev acc]) @ name_parts [] cs
      else name_parts (c # acc) cs)"

definition full_names :: "string list \<Rightarrow> string list" where
  "full_names names = remdups (filter (\<lambda>n. 2 \<le> length n) (map strip names))"

definition long_parts :: "string list \<Rightarrow> string list" where
  "long_parts names =
     remdups (filter (\<lambda>t. 4 \<le> length t \<and> list_all alphabetic t) (concat (map (name_parts []) (full_names names))))"

text \<open>\<open>sorted(xs, key=len, reverse=True)\<close> of a set, whose iteration order is \<open>order\<close>.\<close>

definition longest_first :: "(string list \<Rightarrow> string list) \<Rightarrow> string list \<Rightarrow> string list" where
  "longest_first order xs = sort_key (\<lambda>n. - int (length n)) (order xs)"

definition ordered_names :: "(string list \<Rightarrow> string list) \<Rightarrow> string list \<Rightarrow> string list" where
  "ordered_names order names =
     (let full = full_names names in
      longest_first order full
      @ longest_first order (filter (\<lambda>p. p \<notin> set full) (long_parts names)))"

section \<open>Scrubbing\<close>

text \<open>A capitalized word with what introduces a sentence before it: where each part ends.\<close>

definition sentence_start :: regex where
  "sentence_start =
     seqs [alts [AtStart, seqs [one_char ''.!?:'', one_or_more blank], lit [CHR 0x0A]], blanks]"

definition word_split :: "cursor \<Rightarrow> (cursor \<times> cursor) option" where
  "word_split c =
     (case concat (map (\<lambda>p. map (\<lambda>e. (p, e)) (ends cap_word p)) (ends (optional sentence_start) c)) of
        [] \<Rightarrow> None | pe # _ \<Rightarrow> Some pe)"

definition is_caps :: "string \<Rightarrow> bool" where
  "is_caps w \<longleftrightarrow> list_ex upper_az w \<and> \<not> list_ex lower_az w"

definition likely_name_after :: "string \<Rightarrow> bool" where
  "likely_name_after rest \<longleftrightarrow>
     starts_with [CHR 0x27, CHR ''s''] rest
     \<or> (case rest of a # b # c # _ \<Rightarrow> is_space a \<and> upper_az b \<and> lower_az c | _ \<Rightarrow> False)"

definition noun_repl :: "cursor \<Rightarrow> cursor \<Rightarrow> string" where
  "noun_repl c d =
     (case word_split c of
        None \<Rightarrow> matched c d
      | Some (p, e) \<Rightarrow>
          let pre = matched c p; word = matched p e in
          if word \<in> set common_caps \<or> is_caps word then matched c d
          else if pre \<noteq> [] then
            (if likely_name_after (take 3 (snd d)) then pre @ ''<name>'' else matched c d)
          else ''<name>'')"

definition scrub_proper_nouns :: "string \<Rightarrow> string" where
  "scrub_proper_nouns s = sub_with (\<lambda>c. map_option snd (word_split c)) noun_repl [] s"

text \<open>Runs of one placeholder become one: the group's text is matched again after a separator.\<close>

definition repeated_at :: "cursor \<Rightarrow> (cursor \<times> cursor) option" where
  "repeated_at c =
     (case concat (map (\<lambda>g. map (\<lambda>e. (g, e))
              (ends (one_or_more (seqs [one_or_more (Sat (\<lambda>x. is_space x \<or> x \<in> set '',/-'')), lit (matched c g)])) g))
            (ends placeholder_regex c)) of
        [] \<Rightarrow> None | ge # _ \<Rightarrow> Some ge)"

definition collapse_repeats :: "string \<Rightarrow> string" where
  "collapse_repeats s =
     sub_with (\<lambda>c. map_option snd (repeated_at c))
       (\<lambda>c d. case repeated_at c of None \<Rightarrow> matched c d | Some (g, _) \<Rightarrow> matched c g) [] s"

definition scrub_rules :: "(regex \<times> string) list" where
  "scrub_rules =
     [(email_regex, ''<email>''), (url_regex, ''<url>''), (uuid_regex, ''<id>''), (secret_regex, ''<secret>''),
      (long_hex_regex, ''<id>''), (token_regex, ''<secret>''), (ipv4_regex, ''<ip>''), (home_regex, ''<path>''),
      (abs_path_regex, ''<path>''), (amount_regex, ''<amount>''), (date_regex, ''<date>''),
      (phone_regex, ''<phone>''), (handle_regex, ''<handle>'')]"

definition apply_rules :: "(regex \<times> string) list \<Rightarrow> string \<Rightarrow> string" where
  "apply_rules rules s = fold (\<lambda>(r, new). sub r new) rules s"

definition scrub :: "(string list \<Rightarrow> string list) \<Rightarrow> string \<Rightarrow> string list \<Rightarrow> string" where
  "scrub order s names =
     (let t1 = apply_rules scrub_rules s;
          t2 = apply_rules (map (\<lambda>n. (ci_word n, ''<name>'')) (ordered_names order names)) t1;
          t3 = apply_rules [(code_id_regex, ''<id>''), (long_number_regex, ''<num>'')] t2;
          t4 = scrub_proper_nouns t3;
          t5 = sub num_before_regex ''<num> '' t4;
          t6 = sub_with (match_at num_after_regex) (\<lambda>c d. take 7 (snd c) @ ''<num>'') [] t5
      in strip (sub (Rep 2 None True (Sat (\<lambda>c. c = CHR '' '' \<or> c = CHR 0x09))) '' '' (collapse_repeats t6)))"

section \<open>The check of the result\<close>

datatype leak = LeakEmail | LeakUrl | LeakPhone | LeakIp | LeakName string

definition leak_check :: "(string list \<Rightarrow> string list) \<Rightarrow> string \<Rightarrow> string list \<Rightarrow> leak list" where
  "leak_check order s names =
     (if found email_regex s then [LeakEmail] else [])
     @ (if found url_regex s then [LeakUrl] else [])
     @ (if found phone_regex s then [LeakPhone] else [])
     @ (if found ipv4_regex s then [LeakIp] else [])
     @ map LeakName (filter (\<lambda>n. found (ci_word n) s) (ordered_names order names))"

text \<open>\<open>text.split()\<close> and the share of placeholders among the words.\<close>

fun space_words :: "string \<Rightarrow> string \<Rightarrow> string list" where
  "space_words acc [] = (if acc = [] then [] else [rev acc])"
| "space_words acc (c # cs) =
     (if is_space c then (if acc = [] then [] else [rev acc]) @ space_words [] cs
      else space_words (c # acc) cs)"

definition placeholder_ratio :: "string \<Rightarrow> rat" where
  "placeholder_ratio s =
     (let ws = space_words [] s in
      if ws = [] then 1
      else of_nat (length (matches placeholder_regex s)) / of_nat (length ws))"

end
