(* ===== verification/Global_Promotion.thy ===== *)
theory Global_Promotion
  imports Scope_Laws Scrub
begin

text \<open>
  The promotion of lessons to the shared collection (\<open>src/fabri/memory/global_promotion.py\<close>): the
  scan of the organizations' collections into the queue of candidates, the queue, the decisions
  of a human, and the withdrawal of an organization or a user.  The searches and embeddings of
  the stores, the model of the optional rewrite and the order of set iteration are parameters.
\<close>

definition status_pending :: string where "status_pending = ''pending''"
definition status_approved :: string where "status_approved = ''approved''"
definition status_rejected :: string where "status_rejected = ''rejected''"

definition lesson_kinds :: "string list" where
  "lesson_kinds = [''tactical'', ''strategic'', ''success_pattern'']"

definition min_text_chars :: nat where "min_text_chars = 20"
definition max_placeholder_ratio :: rat where "max_placeholder_ratio = 35 / 100"
definition default_min_orgs :: nat where "default_min_orgs = 3"

record scan_report =
  sr_orgs :: nat
  sr_seen :: nat
  sr_ingested :: nat
  sr_unclean :: nat
  sr_other :: nat

definition no_report :: scan_report where
  "no_report = \<lparr>sr_orgs = 0, sr_seen = 0, sr_ingested = 0, sr_unclean = 0, sr_other = 0\<rparr>"

record forget_report =
  fr_dropped :: bool
  fr_updated :: nat
  fr_candidates_dropped :: nat
  fr_below_min :: nat

definition no_forget :: forget_report where
  "no_forget = \<lparr>fr_dropped = False, fr_updated = 0, fr_candidates_dropped = 0, fr_below_min = 0\<rparr>"

section \<open>The instance\<close>

text \<open>What the module runs on; \<open>pe_str\<close> is \<open>str\<close> of a value that is not a string.\<close>

record promotion_env =
  pe_hash :: hashing
  pe_backend :: ingest_backend
  pe_order :: "string list \<Rightarrow> string list"
  pe_rewriter :: "note_model option"
  pe_similarity :: rat
  pe_min_orgs :: nat
  pe_str :: "pyval \<Rightarrow> string"

definition candidates_store :: "promotion_env \<Rightarrow> context_vars \<Rightarrow> handle store_call" where
  "candidates_store pe cv = sibling (pe_hash pe) cv candidates_collection None"

definition global_store :: "promotion_env \<Rightarrow> context_vars \<Rightarrow> string \<Rightarrow> handle store_call" where
  "global_store pe cv name = sibling (pe_hash pe) cv name None"

definition entries_of :: "promotion_env \<Rightarrow> context_vars \<Rightarrow> handle \<Rightarrow> memory_entry list store_call" where
  "entries_of pe cv st = guarded (pe_hash pe) cv st all_entries"

definition put_entry :: "promotion_env \<Rightarrow> context_vars \<Rightarrow> handle \<Rightarrow> memory_entry \<Rightarrow> unit store_call" where
  "put_entry pe cv st e = guarded (pe_hash pe) cv st (upsert (pe_backend pe) e)"

definition delete_entry :: "promotion_env \<Rightarrow> context_vars \<Rightarrow> handle \<Rightarrow> string \<Rightarrow> unit store_call" where
  "delete_entry pe cv st i = guarded (pe_hash pe) cv st (delete_point i)"

definition ident :: "promotion_env \<Rightarrow> memory_entry \<Rightarrow> string" where
  "ident pe e = entry_id (be_uuid (pe_backend pe)) e"

definition status_of :: "promotion_env \<Rightarrow> memory_entry \<Rightarrow> string" where
  "status_of pe e =
     (case dict_get_default (me_payload e) ''status'' (VStr status_pending) of VStr s \<Rightarrow> s | v \<Rightarrow> pe_str pe v)"

definition source_count :: "memory_entry \<Rightarrow> nat" where
  "source_count e = card (set (me_session_ids e))"

section \<open>The scan\<close>

text \<open>\<open>list(payload.get("aliases") or [])\<close>, each used as a string by \<open>(raw or "").strip()\<close>.\<close>

definition alias_list :: "pyval \<Rightarrow> raised + string list" where
  "alias_list v =
     (if \<not> truthy v then Inr []
      else case py_iter v of
             Inl _ \<Rightarrow> Inl (OtherErr ''TypeError'')
           | Inr xs \<Rightarrow> traverse (\<lambda>x. case x of VStr s \<Rightarrow> Inr s
                                     | _ \<Rightarrow> if truthy x then Inl (OtherErr ''AttributeError'') else Inr []) xs)"

definition rewrite_generic :: "note_model \<Rightarrow> string \<Rightarrow> string option" where
  "rewrite_generic model s =
     (case model s of
        Inl _ \<Rightarrow> None
      | Inr answer \<Rightarrow>
          (let out = strip (case answer of None \<Rightarrow> [] | Some t \<Rightarrow> t) in if out = [] then None else Some out))"

text \<open>The text a lesson would enter the queue with: scrubbed, rewritten, scrubbed again.\<close>

definition generic_text :: "promotion_env \<Rightarrow> string list \<Rightarrow> string \<Rightarrow> string" where
  "generic_text pe names s =
     (let t = scrub (pe_order pe) s names in
      case Option.bind (pe_rewriter pe) (\<lambda>model. rewrite_generic model t) of
        None \<Rightarrow> t
      | Some t' \<Rightarrow> scrub (pe_order pe) t' names)"

definition is_lesson :: "memory_entry \<Rightarrow> bool" where
  "is_lesson e \<longleftrightarrow>
     me_kind e \<in> set lesson_kinds \<and> me_tier e \<noteq> ''quarantine'' \<and> me_verification e \<noteq> ''contradicted''
     \<and> dict_get (me_payload e) ''memory_scope'' \<noteq> VStr ''user''"

definition is_clean :: "promotion_env \<Rightarrow> string list \<Rightarrow> string \<Rightarrow> bool" where
  "is_clean pe names t \<longleftrightarrow>
     min_text_chars \<le> length t \<and> placeholder_ratio t \<le> max_placeholder_ratio
     \<and> leak_check (pe_order pe) t names = []"

definition lesson_candidate :: "string \<Rightarrow> string \<Rightarrow> candidate" where
  "lesson_candidate t org =
     \<lparr>ca_text = t, ca_session = org, ca_tags = [], ca_tools = [], ca_kind = ''tactical'', ca_dedup_key = None,
      ca_producer = None, ca_scope = ''agent'', ca_verification = ''unverified'', ca_event_ids = [],
      ca_applicability = [], ca_do_not_reuse = [], ca_tier = None, ca_resolution = None\<rparr>"

definition lesson_config :: "promotion_env \<Rightarrow> ingest_config" where
  "lesson_config pe =
     \<lparr>ic_similarity = pe_similarity pe, ic_promotion_sessions = pe_min_orgs pe, ic_tiering = False,
      ic_max_entries = None, ic_half_life = 30, ic_summarizer = None, ic_guideline_tokens = 30\<rparr>"

definition scan_entry ::
  "promotion_env \<Rightarrow> context_vars \<Rightarrow> handle \<Rightarrow> string \<Rightarrow> scan_report \<Rightarrow> memory_entry
     \<Rightarrow> scan_report store_call" where
  "scan_entry pe cv cand org report e =
     (let seen = report\<lparr>sr_seen := sr_seen report + 1\<rparr> in
      if \<not> is_lesson e then creturn (seen\<lparr>sr_other := sr_other seen + 1\<rparr>)
      else case alias_list (dict_get (me_payload e) ''aliases'') of
             Inl x \<Rightarrow> craise (Failed x)
           | Inr names \<Rightarrow>
               (let t = generic_text pe names (me_text e) in
                if \<not> is_clean pe names t then creturn (seen\<lparr>sr_unclean := sr_unclean seen + 1\<rparr>)
                else cbind (guarded (pe_hash pe) cv cand
                              (ingest_guideline (pe_backend pe) (lesson_config pe) (lesson_candidate t org)))
                       (\<lambda>_. creturn (seen\<lparr>sr_ingested := sr_ingested seen + 1\<rparr>))))"

definition scan_org ::
  "promotion_env \<Rightarrow> context_vars \<Rightarrow> handle \<Rightarrow> scan_report \<Rightarrow> string \<Rightarrow> scan_report store_call" where
  "scan_org pe cv cand report name =
     cbind (sibling (pe_hash pe) cv name None) (\<lambda>org_store.
     cbind (entries_of pe cv org_store) (\<lambda>es.
       cfor (scan_entry pe cv cand (drop (length org_prefix) name)) (report\<lparr>sr_orgs := sr_orgs report + 1\<rparr>) es))"

definition scan_orgs :: "promotion_env \<Rightarrow> context_vars \<Rightarrow> scan_report store_call" where
  "scan_orgs pe cv =
     cbind (candidates_store pe cv) (\<lambda>cand.
       admin_access (\<lambda>cv cs. cfor (scan_org pe cv cand) no_report
                                (filter (starts_with org_prefix) (list_collections cs)) cs) cv)"

section \<open>The queue\<close>

record queued =
  qu_id :: string
  qu_text :: string
  qu_count :: nat
  qu_status :: string

definition queue_view :: "promotion_env \<Rightarrow> string option \<Rightarrow> memory_entry list \<Rightarrow> queued list" where
  "queue_view pe status es =
     sort_key (\<lambda>q. - int (qu_count q)) (sort_key qu_id
       (map (\<lambda>e. \<lparr>qu_id = ident pe e, qu_text = me_text e, qu_count = source_count e, qu_status = status_of pe e\<rparr>)
         (filter (\<lambda>e. pe_min_orgs pe \<le> source_count e \<and> (status = None \<or> status = Some (status_of pe e))) es)))"

definition list_candidates ::
  "promotion_env \<Rightarrow> context_vars \<Rightarrow> string option \<Rightarrow> queued list store_call" where
  "list_candidates pe cv status =
     cbind (candidates_store pe cv) (\<lambda>cand.
     cbind (entries_of pe cv cand) (\<lambda>es. creturn (queue_view pe status es)))"

section \<open>Decisions\<close>

definition resolve_candidate ::
  "promotion_env \<Rightarrow> string \<Rightarrow> memory_entry list \<Rightarrow> raised + memory_entry" where
  "resolve_candidate pe i es =
     (case filter (\<lambda>e. starts_with i (ident pe e)) es of
        [] \<Rightarrow> Inl (OtherErr ''no candidate matches'')
      | [e] \<Rightarrow> Inr e
      | _ \<Rightarrow> Inl (OtherErr ''candidate id is ambiguous''))"

definition with_status :: "string \<Rightarrow> memory_entry \<Rightarrow> memory_entry" where
  "with_status s e = e\<lparr>me_payload := AList.update (KStr ''status'') (VStr s) (me_payload e)\<rparr>"

definition promoted_entry :: "memory_entry \<Rightarrow> rat \<Rightarrow> memory_entry" where
  "promoted_entry e now =
     post_init ((fresh_entry (me_text e) ''strategic'' now)
       \<lparr>me_hit_count := int (source_count e), me_verification := ''human_verified'', me_tier := ''retrieve'',
        me_scope := ''global'', me_domain := me_domain e,
        me_payload := [(KStr ''memory_scope'', VStr ''global''), (KStr ''source_orgs'', VInt (int (source_count e)))]\<rparr>)"

definition approve ::
  "promotion_env \<Rightarrow> context_vars \<Rightarrow> string \<Rightarrow> string \<Rightarrow> memory_entry store_call" where
  "approve pe cv i collection =
     cbind (candidates_store pe cv) (\<lambda>cand.
     cbind (entries_of pe cv cand) (\<lambda>es.
       case resolve_candidate pe i es of
         Inl x \<Rightarrow> craise (Failed x)
       | Inr e \<Rightarrow>
           if source_count e < pe_min_orgs pe then craise (Failed (ValueErr ''candidate has too few source orgs''))
           else if status_of pe e = status_rejected then craise (Failed (ValueErr ''candidate was rejected''))
           else let promoted = promoted_entry e (be_now (pe_backend pe)) in
                cbind (global_store pe cv collection) (\<lambda>glob.
                cbind (put_entry pe cv glob promoted) (\<lambda>_.
                cbind (put_entry pe cv cand (with_status status_approved e)) (\<lambda>_. creturn promoted)))))"

definition reject :: "promotion_env \<Rightarrow> context_vars \<Rightarrow> string \<Rightarrow> memory_entry store_call" where
  "reject pe cv i =
     cbind (candidates_store pe cv) (\<lambda>cand.
     cbind (entries_of pe cv cand) (\<lambda>es.
       case resolve_candidate pe i es of
         Inl x \<Rightarrow> craise (Failed x)
       | Inr e \<Rightarrow> cbind (put_entry pe cv cand (with_status status_rejected e))
                    (\<lambda>_. creturn (with_status status_rejected e))))"

section \<open>Withdrawal\<close>

definition withdraw ::
  "promotion_env \<Rightarrow> context_vars \<Rightarrow> handle \<Rightarrow> string \<Rightarrow> forget_report \<Rightarrow> memory_entry
     \<Rightarrow> forget_report store_call" where
  "withdraw pe cv cand org report e =
     (if org \<notin> set (me_session_ids e) then creturn report
      else let remaining = filter (\<lambda>s. s \<noteq> org) (me_session_ids e);
               few = card (set remaining) < pe_min_orgs pe;
               approved = (status_of pe e = status_approved) in
           if remaining = [] \<or> (\<not> approved \<and> few)
           then cbind (delete_entry pe cv cand (ident pe e))
                  (\<lambda>_. creturn (report\<lparr>fr_candidates_dropped := fr_candidates_dropped report + 1\<rparr>))
           else cbind (put_entry pe cv cand (e\<lparr>me_session_ids := remaining, me_source_session_ids := remaining\<rparr>))
                  (\<lambda>_. creturn (report\<lparr>fr_updated := fr_updated report + 1,
                                        fr_below_min := fr_below_min report + (if approved \<and> few then 1 else 0)\<rparr>)))"

text \<open>The name an operator gives, as an id or as a hash; exactly one of the two.\<close>

definition named_collection ::
  "(string \<Rightarrow> raised + string) \<Rightarrow> string \<Rightarrow> string option \<Rightarrow> string option \<Rightarrow> raised + string" where
  "named_collection by_id prefix raw hashed =
     (case (raw, hashed) of
        (Some r, None) \<Rightarrow> if r = [] then Inr (prefix @ ''None'') else by_id r
      | (None, Some x) \<Rightarrow> Inr (prefix @ x)
      | _ \<Rightarrow> Inl (ValueErr ''pass exactly one of the id and the hash''))"

text \<open>Opens a collection and drops it, if it is there.\<close>

definition drop_named :: "promotion_env \<Rightarrow> context_vars \<Rightarrow> string \<Rightarrow> bool store_call" where
  "drop_named pe cv name cs =
     (if name \<in> set (list_collections cs)
      then cbind (sibling (pe_hash pe) cv name None)
             (\<lambda>st. cbind (drop_collection (pe_hash pe) cv st) (\<lambda>_. creturn True)) cs
      else creturn False cs)"

definition forget_org ::
  "promotion_env \<Rightarrow> context_vars \<Rightarrow> string option \<Rightarrow> string option \<Rightarrow> forget_report store_call" where
  "forget_org pe cv org_id org_hash =
     (case named_collection (org_collection_name (pe_hash pe)) org_prefix org_id org_hash of
        Inl x \<Rightarrow> craise (Failed x)
      | Inr name \<Rightarrow>
          admin_access (\<lambda>cv.
            cbind (drop_named pe cv name) (\<lambda>dropped cs.
              let report = no_forget\<lparr>fr_dropped := dropped\<rparr> in
              if candidates_collection \<notin> set (list_collections cs) then creturn report cs
              else cbind (candidates_store pe cv) (\<lambda>cand.
                   cbind (entries_of pe cv cand) (\<lambda>es.
                     cfor (withdraw pe cv cand (drop (length org_prefix) name)) report es)) cs)) cv)"

definition forget_user ::
  "promotion_env \<Rightarrow> context_vars \<Rightarrow> string option \<Rightarrow> string option \<Rightarrow> bool store_call" where
  "forget_user pe cv uid hashed =
     (case named_collection (user_collection_name (pe_hash pe)) user_prefix uid hashed of
        Inl x \<Rightarrow> craise (Failed x)
      | Inr name \<Rightarrow> admin_access (\<lambda>cv. drop_named pe cv name) cv)"

end
