(* ===== verification/Promotion_Laws.thy ===== *)
theory Promotion_Laws
  imports Global_Promotion Scope_Promises Ingest_Laws
begin

text \<open>
  Invariants of the collections of an instance: a condition on the points of each collection
  that holds of an empty one, and the rules by which a sequence of store calls keeps it.  They
  are instantiated for the keys of the points and for what may enter the queue of candidates
  and the shared collection.
\<close>

section \<open>Rules for store calls\<close>

locale collections_invariant =
  fixes inv :: "string \<Rightarrow> points \<Rightarrow> bool"
  assumes inv_Nil: "inv c []"
begin

definition holds :: "collections \<Rightarrow> bool" where
  "holds cs \<longleftrightarrow> (\<forall>c ps. map_of cs c = Some ps \<longrightarrow> inv c ps)"

text \<open>The call keeps the invariant, returning or raising, and what it returns satisfies \<open>Q\<close>.\<close>

definition valid :: "'a store_call \<Rightarrow> ('a \<Rightarrow> bool) \<Rightarrow> bool" where
  "valid m Q \<longleftrightarrow>
     (\<forall>cs. holds cs \<longrightarrow> holds (snd (m cs)) \<and> (\<forall>a. fst (m cs) = Inr a \<longrightarrow> Q a))"

lemma validD: "valid m Q \<Longrightarrow> holds cs \<Longrightarrow> holds (snd (m cs))"
  by (simp add: valid_def)

lemma valid_return: "Q x \<Longrightarrow> valid (creturn x) Q"
  by (simp add: valid_def creturn_def)

lemma valid_raise: "valid (craise x) Q"
  by (simp add: valid_def craise_def)

lemma valid_weaken: "valid m P \<Longrightarrow> (\<And>a. P a \<Longrightarrow> Q a) \<Longrightarrow> valid m Q"
  by (simp add: valid_def)

lemma valid_bind:
  assumes "valid m P" and "\<And>a. P a \<Longrightarrow> valid (f a) Q"
  shows "valid (cbind m f) Q"
  unfolding valid_def
proof (intro allI impI)
  fix cs
  assume "holds cs"
  then have one: "holds (snd (m cs))" "\<And>a. fst (m cs) = Inr a \<Longrightarrow> P a" using assms(1) unfolding valid_def by blast+
  show "holds (snd (cbind m f cs)) \<and> (\<forall>a. fst (cbind m f cs) = Inr a \<longrightarrow> Q a)"
  proof (cases "fst (m cs)")
    case (Inl x)
    then have "cbind m f cs = (Inl x, snd (m cs))" by (cases "m cs") (simp add: cbind_def)
    with one(1) show ?thesis by simp
  next
    case (Inr a)
    then have "cbind m f cs = f a (snd (m cs))" by (cases "m cs") (simp add: cbind_def)
    with assms(2)[OF one(2)[OF Inr]] one(1) show ?thesis unfolding valid_def by simp
  qed
qed

lemma valid_for:
  assumes "\<And>s x. x \<in> set xs \<Longrightarrow> valid (f s x) (\<lambda>_. True)"
  shows "valid (cfor f s xs) (\<lambda>_. True)"
  using assms by (induction xs arbitrary: s) (auto intro: valid_return valid_bind)

lemma valid_sibling: "valid (sibling h cv c bound) (\<lambda>st. hd_name st = c)"
  by (auto simp: valid_def holds_def sibling_def map_add_def inv_Nil split: sum.splits option.splits if_splits)

lemma valid_guarded:
  assumes "\<And>ps. inv (hd_name st) ps \<Longrightarrow> inv (hd_name st) (snd (w ps)) \<and> (\<forall>a. fst (w ps) = Inr a \<longrightarrow> Q a)"
  shows "valid (guarded h cv st w) Q"
  using assms
  by (auto simp: valid_def holds_def guarded_def update_conv' emap_err_def split: sum.splits option.splits prod.splits)
     (metis fst_conv snd_conv)+

lemma valid_entries:
  "(\<And>ps. inv (hd_name st) ps \<Longrightarrow> Q (map snd ps)) \<Longrightarrow> valid (entries_of pe cv st) Q"
  unfolding entries_of_def by (rule valid_guarded) (simp add: all_entries_def)

lemma valid_drop: "valid (drop_collection h cv st) (\<lambda>_. True)"
  by (auto simp: valid_def holds_def drop_collection_def map_of_drop split: sum.splits if_splits)

lemma valid_drop_named: "valid (drop_named pe cv name) (\<lambda>_. True)"
proof -
  let ?open = "cbind (sibling (pe_hash pe) cv name None)
    (\<lambda>st. cbind (drop_collection (pe_hash pe) cv st) (\<lambda>_. creturn True))"
  have "valid ?open (\<lambda>_. True)"
    by (intro valid_bind[OF valid_sibling] valid_bind[OF valid_drop] valid_return TrueI)
  then show ?thesis unfolding valid_def drop_named_def creturn_def by auto
qed

text \<open>A call that looks at the collections before it decides.\<close>

lemma valid_inspect: "(\<And>cs. valid (m cs) Q) \<Longrightarrow> valid (\<lambda>cs. m cs cs) Q"
  by (simp add: valid_def)

end

section \<open>Points under their own ids\<close>

interpretation keyed_all: collections_invariant "\<lambda>c. keyed uuid" for uuid
  by unfold_locales (simp add: keyed_def)

section \<open>What may be promoted\<close>

text \<open>A search finds only entries of the collection it searches.\<close>

definition honest_search :: "ingest_backend \<Rightarrow> bool" where
  "honest_search be \<longleftrightarrow>
     (\<forall>t k ps e s. be_nearest be t k ps = Inr (Some (e, s)) \<longrightarrow> e \<in> snd ` set ps)"

definition clean_lesson :: "promotion_env \<Rightarrow> string \<Rightarrow> bool" where
  "clean_lesson pe t \<longleftrightarrow> (\<exists>names. is_clean pe names t)"

definition promoted_ok :: "promotion_env \<Rightarrow> memory_entry \<Rightarrow> bool" where
  "promoted_ok pe e \<longleftrightarrow>
     me_verification e = ''human_verified'' \<and> me_tier e = ''retrieve'' \<and> clean_lesson pe (me_text e)
     \<and> (\<exists>n. dict_get (me_payload e) ''source_orgs'' = VInt (int n) \<and> pe_min_orgs pe \<le> n)"

definition promotion_inv :: "promotion_env \<Rightarrow> string \<Rightarrow> string \<Rightarrow> points \<Rightarrow> bool" where
  "promotion_inv pe glob c ps \<longleftrightarrow>
     (c = candidates_collection \<longrightarrow> (\<forall>e \<in> snd ` set ps. clean_lesson pe (me_text e)))
     \<and> (c = glob \<longrightarrow> (\<forall>e \<in> snd ` set ps. promoted_ok pe e))"

interpretation promo: collections_invariant "promotion_inv pe glob" for pe glob
  by unfold_locales (simp add: promotion_inv_def)

lemma update_entries: "snd ` set (AList.update i e ps) \<subseteq> insert e (snd ` set ps)"
  using set_update_subset[of i e ps] by force

lemma raise_tier_text: "me_text (raise_tier t b e) = me_text e"
  by (auto simp: raise_tier_def Let_def split: option.splits)

lemma merged_text: "me_text (merged_entry ic c e) \<in> {me_text e, ca_text c}"
  by (simp add: merged_entry_def raise_tier_text promote_def merge_fields_def)

lemma new_text: "me_text (new_entry ic c now) = ca_text c"
  by (simp add: new_entry_def post_init_def fresh_entry_def Let_def)

text \<open>The texts of a collection stay within a set.\<close>

definition texts :: "points \<Rightarrow> string set" where "texts ps = me_text ` snd ` set ps"

definition texts_in :: "string set \<Rightarrow> 'a writer \<Rightarrow> bool" where
  "texts_in X w \<longleftrightarrow> (\<forall>ps. texts ps \<subseteq> X \<longrightarrow> texts (snd (w ps)) \<subseteq> X)"

lemma texts_in_return: "texts_in X (wreturn x)" by (simp add: texts_in_def wreturn_def)

lemma texts_in_bind:
  assumes "texts_in X m" and "\<And>a. texts_in X (f a)"
  shows "texts_in X (wbind m f)"
  unfolding texts_in_def
proof (intro allI impI)
  fix ps
  assume "texts ps \<subseteq> X"
  then have "texts (snd (m ps)) \<subseteq> X" using assms(1) by (simp add: texts_in_def)
  moreover obtain r qs where "m ps = (r, qs)" by fastforce
  ultimately show "texts (snd (wbind m f ps)) \<subseteq> X"
    using assms(2) unfolding texts_in_def wbind_def by (cases r) simp_all
qed

lemma texts_update: "texts (AList.update i e ps) \<subseteq> insert (me_text e) (texts ps)"
  using image_mono[OF update_entries[of i e ps], of me_text] by (simp add: texts_def)

lemma texts_in_upsert: "me_text e \<in> X \<Longrightarrow> texts_in X (upsert be e)"
  unfolding texts_in_def upsert_def
proof (intro allI impI)
  fix ps
  assume "me_text e \<in> X" and "texts ps \<subseteq> X"
  then have "texts (AList.update (entry_id (be_uuid be) e) e ps) \<subseteq> X"
    using texts_update[of "entry_id (be_uuid be) e" e ps] by blast
  then show "texts (snd (case be_embed be (me_text e) of Some x \<Rightarrow> (Inl x, ps)
      | None \<Rightarrow> (Inr (), AList.update (entry_id (be_uuid be) e) e ps))) \<subseteq> X"
    using \<open>texts ps \<subseteq> X\<close> by (cases "be_embed be (me_text e)") simp_all
qed

lemma texts_in_delete: "texts_in X (delete_point i)"
  unfolding texts_in_def delete_point_def texts_def by auto

lemma existing_entry:
  assumes "honest_search be" and "ca_dedup_key c = None" and "find_existing be ic c ps = Inr (Some (e, s))"
  shows "e \<in> snd ` set ps"
proof -
  obtain s' where "be_nearest be (ca_text c) (dedup_kind (ca_kind c)) ps = Inr (Some (e, s'))"
    using assms(2,3) by (auto simp: find_existing_def find_similar_def split: option.splits if_splits)
  then show ?thesis using assms(1) unfolding honest_search_def by blast
qed

text \<open>An ingestion without a limit adds no text but the candidate's.\<close>

lemma ingest_texts:
  assumes "honest_search be" and "ca_dedup_key c = None" and "ic_max_entries ic = None"
    and "texts ps \<subseteq> X" and "ca_text c \<in> X"
  shows "texts (snd (ingest_guideline be ic c ps)) \<subseteq> X"
proof -
  have new: "texts_in X (wbind (upsert be (new_entry ic c (be_now be))) (\<lambda>_. wreturn (new_entry ic c (be_now be), Inserted)))"
    by (intro texts_in_bind texts_in_upsert texts_in_return) (simp add: new_text assms(5))
  have merge: "texts_in X (wbind (upsert be (merged_entry ic c e))
      (\<lambda>_. wbind (if b then delete_point i else wreturn ()) (\<lambda>_. wreturn (merged_entry ic c e, Merged))))"
    if "find_existing be ic c ps = Inr (Some (e, s))" for e s b i
  proof -
    have "me_text (merged_entry ic c e) \<in> X"
      using merged_text[of ic c e] existing_entry[OF assms(1,2) that] assms(4,5) unfolding texts_def by auto
    moreover have "texts_in X (if b then delete_point i else wreturn ())"
      by (simp add: texts_in_delete texts_in_return)
    ultimately show ?thesis by (intro texts_in_bind texts_in_upsert texts_in_return)
  qed
  have "texts (snd (store_candidate be ic c ps)) \<subseteq> X"
  proof (cases "find_existing be ic c ps")
    case (Inl x)
    with assms(4) show ?thesis by (simp add: store_candidate_def)
  next
    case (Inr hit)
    show ?thesis
    proof (cases hit)
      case None
      with Inr have "store_candidate be ic c ps
          = wbind (upsert be (new_entry ic c (be_now be))) (\<lambda>_. wreturn (new_entry ic c (be_now be), Inserted)) ps"
        by (simp add: store_candidate_def Let_def)
      with new assms(4) show ?thesis unfolding texts_in_def by metis
    next
      case (Some p)
      obtain e s where p: "p = (e, s)" by fastforce
      with Inr Some have "store_candidate be ic c ps
          = wbind (upsert be (merged_entry ic c e))
              (\<lambda>_. wbind (if entry_id (be_uuid be) (merged_entry ic c e) \<noteq> entry_id (be_uuid be) e
                          then delete_point (entry_id (be_uuid be) e) else wreturn ())
                      (\<lambda>_. wreturn (merged_entry ic c e, Merged))) ps"
        by (simp add: store_candidate_def Let_def)
      with merge Inr Some p assms(4) show ?thesis unfolding texts_in_def by metis
    qed
  qed
  moreover have "snd (ingest_guideline be ic c ps) = snd (store_candidate be ic c ps)"
    using assms(3) by (auto simp: ingest_guideline_def wbind_def wreturn_def split: prod.splits sum.splits)
  ultimately show ?thesis by simp
qed

end
