(* ===== verification/Promotion_Promises.thy ===== *)
theory Promotion_Promises
  imports Promotion_Laws
begin

text \<open>
  What the promotion of lessons guarantees over every history of an instance: the queue holds
  only lessons that passed the check, the shared collection only what a human approved from it,
  and an organization that is forgotten is gone from both its collection and the queue.
\<close>

section \<open>Steps of an instance\<close>

text \<open>
  One call of an operator or of a run: a scan, a look at the queue, a decision, a withdrawal, or
  a write of scoped memory to the store an item was routed to.  A step leads to the collections
  the call leaves, whether it returns or raises.
\<close>

inductive promo_step :: "promotion_env \<Rightarrow> string \<Rightarrow> collections \<Rightarrow> collections \<Rightarrow> bool"
  for pe glob where
  Scan: "promo_step pe glob cs (snd (scan_orgs pe no_context cs))"
| Look: "promo_step pe glob cs (snd (list_candidates pe no_context status cs))"
| Approve: "promo_step pe glob cs (snd (approve pe no_context i glob cs))"
| Reject: "promo_step pe glob cs (snd (reject pe no_context i cs))"
| ForgetOrg: "promo_step pe glob cs (snd (forget_org pe no_context raw hashed cs))"
| ForgetUser: "promo_step pe glob cs (snd (forget_user pe no_context raw hashed cs))"
| Routed:
    "scope_ok (sm_scope sm)
     \<Longrightarrow> route (pe_hash pe) cv sm model s kind force cs = (Inr (t, st, sm'), cs')
     \<Longrightarrow> promo_step pe glob cs (snd (guarded (pe_hash pe) cv' st (w :: pyval writer) cs'))"

inductive_cases promo_stepE: "promo_step pe glob cs ds"

abbreviation reachable :: "promotion_env \<Rightarrow> string \<Rightarrow> collections \<Rightarrow> bool" where
  "reachable pe glob \<equiv> (promo_step pe glob)\<^sup>*\<^sup>* []"

lemma resolved_entry: "resolve_candidate pe i es = Inr e \<Longrightarrow> e \<in> set es"
proof -
  assume "resolve_candidate pe i es = Inr e"
  then have one: "filter (\<lambda>e. starts_with i (ident pe e)) es = [e]"
    by (auto simp: resolve_candidate_def split: list.splits)
  have "e \<in> set (filter (\<lambda>e. starts_with i (ident pe e)) es)" unfolding one by simp
  then show "e \<in> set es" by (rule subsetD[OF filter_is_subset])
qed

section \<open>Every step keeps the invariant\<close>

locale promotion_setting =
  fixes pe :: promotion_env and glob :: string
  assumes honest: "honest_search (pe_backend pe)"
    and apart: "glob \<noteq> candidates_collection" and shared: "\<not> is_scoped_collection glob"
begin

abbreviation valid where "valid \<equiv> promo.valid pe glob"

definition clean_entry :: "memory_entry \<Rightarrow> bool" where
  "clean_entry e \<longleftrightarrow> clean_lesson pe (me_text e)"

lemma candidates_inv:
  "promotion_inv pe glob candidates_collection ps \<longleftrightarrow> (\<forall>e \<in> snd ` set ps. clean_entry e)"
  using apart by (auto simp: promotion_inv_def clean_entry_def)

lemma glob_inv: "promotion_inv pe glob glob ps \<longleftrightarrow> (\<forall>e \<in> snd ` set ps. promoted_ok pe e)"
  using apart by (auto simp: promotion_inv_def)

lemma scoped_inv: "is_scoped_collection c \<Longrightarrow> promotion_inv pe glob c ps"
  using shared by (auto simp: promotion_inv_def is_scoped_collection_def candidates_collection_def
      user_prefix_def org_prefix_def starts_with_def)

lemma valid_candidates_store: "valid (candidates_store pe cv) (\<lambda>st. hd_name st = candidates_collection)"
  unfolding candidates_store_def by (rule promo.valid_sibling)

lemma valid_candidate_entries:
  "hd_name st = candidates_collection \<Longrightarrow> valid (entries_of pe cv st) (\<lambda>es. \<forall>e \<in> set es. clean_entry e)"
  by (rule promo.valid_entries) (simp only: candidates_inv set_map)

lemma upsert_all:
  assumes "\<forall>d \<in> snd ` set ps. P d" and "P e"
  shows "\<forall>d \<in> snd ` set (snd (upsert be e ps)). P d"
proof
  fix d
  assume d: "d \<in> snd ` set (snd (upsert be e ps))"
  show "P d"
  proof (cases "be_embed be (me_text e)")
    case None
    then have new: "snd (upsert be e ps) = AList.update (entry_id (be_uuid be) e) e ps" by (simp add: upsert_def)
    have "d \<in> insert e (snd ` set ps)" by (rule subsetD[OF update_entries d[unfolded new]])
    then show ?thesis using assms by (metis insertE)
  next
    case (Some x)
    then have "snd (upsert be e ps) = ps" by (simp add: upsert_def)
    with d assms(1) show ?thesis by metis
  qed
qed

lemma valid_put_candidate:
  assumes "hd_name st = candidates_collection" and "clean_entry e"
  shows "valid (put_entry pe cv st e) (\<lambda>_. True)"
  unfolding put_entry_def
  by (rule promo.valid_guarded, unfold assms(1) candidates_inv)
     (intro conjI allI impI TrueI upsert_all[where P = clean_entry, OF _ assms(2)])

lemma valid_put_glob:
  assumes "hd_name st = glob" and "promoted_ok pe e"
  shows "valid (put_entry pe cv st e) (\<lambda>_. True)"
  unfolding put_entry_def
  by (rule promo.valid_guarded, unfold assms(1) glob_inv)
     (intro conjI allI impI TrueI upsert_all[where P = "promoted_ok pe", OF _ assms(2)])

lemma valid_delete: "valid (delete_entry pe cv st i) (\<lambda>_. True)"
  unfolding delete_entry_def
  by (rule promo.valid_guarded) (auto simp: promotion_inv_def delete_point_def)

lemma valid_ingest:
  assumes "hd_name st = candidates_collection" and "clean_lesson pe t"
  shows "valid (guarded (pe_hash pe) cv st
      (ingest_guideline (pe_backend pe) (lesson_config pe) (lesson_candidate t org))) (\<lambda>_. True)"
proof (rule promo.valid_guarded)
  fix ps
  assume "promotion_inv pe glob (hd_name st) ps"
  then have "texts ps \<subseteq> Collect (clean_lesson pe)"
    unfolding assms(1) candidates_inv by (auto simp: clean_entry_def texts_def)
  then have "texts (snd (ingest_guideline (pe_backend pe) (lesson_config pe) (lesson_candidate t org) ps))
      \<subseteq> Collect (clean_lesson pe)"
    using ingest_texts[OF honest, of "lesson_candidate t org" "lesson_config pe" ps "Collect (clean_lesson pe)"] assms(2)
    by (simp add: lesson_candidate_def lesson_config_def)
  then show "promotion_inv pe glob (hd_name st)
        (snd (ingest_guideline (pe_backend pe) (lesson_config pe) (lesson_candidate t org) ps))
      \<and> (\<forall>a. fst (ingest_guideline (pe_backend pe) (lesson_config pe) (lesson_candidate t org) ps) = Inr a \<longrightarrow> True)"
    unfolding assms(1) candidates_inv by (auto simp: clean_entry_def texts_def)
qed

lemma valid_scan_entry:
  "hd_name cand = candidates_collection \<Longrightarrow> valid (scan_entry pe cv cand org report e) (\<lambda>_. True)"
  unfolding scan_entry_def Let_def
  by (auto simp: clean_lesson_def split: sum.splits
      intro!: promo.valid_return promo.valid_raise promo.valid_bind[OF valid_ingest])

lemma valid_scan_org:
  "hd_name cand = candidates_collection \<Longrightarrow> valid (scan_org pe cv cand report name) (\<lambda>_. True)"
  unfolding scan_org_def
  by (intro promo.valid_bind[OF promo.valid_sibling]
      promo.valid_bind[OF promo.valid_entries[where Q = "\<lambda>_. True"]] promo.valid_for valid_scan_entry) simp_all

lemma valid_scan: "valid (scan_orgs pe cv) (\<lambda>_. True)"
  unfolding scan_orgs_def admin_access_def
  by (rule promo.valid_bind[OF valid_candidates_store], rule promo.valid_inspect,
      rule promo.valid_for, rule valid_scan_org)

lemma valid_list: "valid (list_candidates pe cv status) (\<lambda>_. True)"
  unfolding list_candidates_def
  by (rule promo.valid_bind[OF valid_candidates_store], rule promo.valid_bind[OF valid_candidate_entries])
     (simp_all add: promo.valid_return)

lemma promoted_entry_ok:
  assumes "clean_entry e" and "pe_min_orgs pe \<le> source_count e"
  shows "promoted_ok pe (promoted_entry e now)"
  using assms
  by (auto simp: promoted_ok_def promoted_entry_def post_init_def fresh_entry_def clean_entry_def Let_def
      dict_get_def dict_lookup_def)

lemma clean_same_text: "me_text d = me_text e \<Longrightarrow> clean_entry e \<Longrightarrow> clean_entry d"
  by (simp add: clean_entry_def)

text \<open>What is decided about a candidate that was found.\<close>

lemma valid_resolve:
  assumes "\<forall>e \<in> set es. clean_entry e" and "\<And>e. clean_entry e \<Longrightarrow> valid (f e) (\<lambda>_. True)"
  shows "valid (case resolve_candidate pe i es of Inl x \<Rightarrow> craise (Failed x) | Inr e \<Rightarrow> f e) (\<lambda>_. True)"
proof (cases "resolve_candidate pe i es")
  case (Inl x)
  then show ?thesis by (simp add: promo.valid_raise)
next
  case (Inr e)
  then have "clean_entry e" using assms(1) resolved_entry by blast
  with assms(2) Inr show ?thesis by simp
qed

lemma valid_put_status:
  "hd_name st = candidates_collection \<Longrightarrow> clean_entry e \<Longrightarrow> valid (put_entry pe cv st (with_status s e)) (\<lambda>_. True)"
  by (rule valid_put_candidate, assumption, rule clean_same_text[of _ e]) (simp_all add: with_status_def)

lemma valid_approve: "valid (approve pe cv i glob) (\<lambda>_. True)"
proof -
  have "valid (cbind (global_store pe cv glob) (\<lambda>g.
          cbind (put_entry pe cv g (promoted_entry e (be_now (pe_backend pe)))) (\<lambda>_.
          cbind (put_entry pe cv cand (with_status status_approved e))
            (\<lambda>_. creturn (promoted_entry e (be_now (pe_backend pe))))))) (\<lambda>_. True)"
    if "hd_name cand = candidates_collection" "clean_entry e" "\<not> source_count e < pe_min_orgs pe" for cand e
    unfolding global_store_def
    by (rule promo.valid_bind[OF promo.valid_sibling], rule promo.valid_bind[OF valid_put_glob], assumption,
        rule promoted_entry_ok[OF that(2)], use that(3) in simp, rule promo.valid_bind[OF valid_put_status[OF that(1,2)]],
        rule promo.valid_return, rule TrueI)
  then show ?thesis
    unfolding approve_def Let_def
    by (intro promo.valid_bind[OF valid_candidates_store] promo.valid_bind[OF valid_candidate_entries] valid_resolve)
       (simp_all add: promo.valid_raise)
qed

lemma valid_reject: "valid (reject pe cv i) (\<lambda>_. True)"
  unfolding reject_def
  by (intro promo.valid_bind[OF valid_candidates_store] promo.valid_bind[OF valid_candidate_entries] valid_resolve
      promo.valid_bind[OF valid_put_status] promo.valid_return TrueI)

lemma valid_withdraw:
  assumes "hd_name cand = candidates_collection" and "clean_entry e"
  shows "valid (withdraw pe cv cand org report e) (\<lambda>_. True)"
proof -
  have put: "valid (put_entry pe cv cand (e\<lparr>me_session_ids := xs, me_source_session_ids := xs\<rparr>)) (\<lambda>_. True)" for xs
    by (rule valid_put_candidate[OF assms(1)], rule clean_same_text[OF _ assms(2)]) simp
  show ?thesis
    unfolding withdraw_def Let_def
    by (auto intro!: promo.valid_return promo.valid_bind[OF valid_delete] promo.valid_bind[OF put])
qed

lemma valid_sweep:
  "valid (cbind (candidates_store pe cv) (\<lambda>cand. cbind (entries_of pe cv cand) (\<lambda>es.
            cfor (withdraw pe cv cand org) report es))) (\<lambda>_. True)"
  by (rule promo.valid_bind[OF valid_candidates_store], rule promo.valid_bind[OF valid_candidate_entries],
      assumption, rule promo.valid_for, rule valid_withdraw) simp_all

lemma valid_forget_org: "valid (forget_org pe cv raw hashed) (\<lambda>_. True)"
proof -
  have rest: "valid (\<lambda>cs. let report = no_forget\<lparr>fr_dropped := dropped\<rparr> in
              if candidates_collection \<notin> set (list_collections cs) then creturn report cs
              else cbind (candidates_store pe cv) (\<lambda>cand.
                   cbind (entries_of pe cv cand) (\<lambda>es. cfor (withdraw pe cv cand org) report es)) cs) (\<lambda>_. True)"
    for dropped cv org
    using valid_sweep[of cv org] unfolding Let_def promo.valid_def by (simp add: creturn_def)
  show ?thesis
    unfolding forget_org_def admin_access_def
    by (cases "named_collection (org_collection_name (pe_hash pe)) org_prefix raw hashed")
       (simp_all only: sum.case promo.valid_raise promo.valid_bind[OF promo.valid_drop_named rest])
qed

lemma valid_forget_user: "valid (forget_user pe cv raw hashed) (\<lambda>_. True)"
  unfolding forget_user_def admin_access_def
  by (cases "named_collection (user_collection_name (pe_hash pe)) user_prefix raw hashed")
     (simp_all only: sum.case promo.valid_raise promo.valid_drop_named)

lemma valid_route: "valid (route (pe_hash pe) cv sm model s kind force) (\<lambda>_. True)"
proof -
  have store: "valid (scope_store (pe_hash pe) cv sm t) (\<lambda>_. True)" for t
    unfolding scope_store_def
    by (auto split: sum.splits intro!: promo.valid_raise promo.valid_return promo.valid_bind[OF promo.valid_sibling])
  have "valid (cbind (scope_store (pe_hash pe) cv sm t) (\<lambda>(st, sm'). creturn (t, st, sm'))) (\<lambda>_. True)" for t
    by (rule promo.valid_bind[OF store]) (auto split: prod.splits intro: promo.valid_return)
  then show ?thesis
    unfolding route_def Let_def by (auto intro!: promo.valid_raise)
qed

lemma step_keeps:
  assumes "promo_step pe glob cs ds" and "promo.holds pe glob cs"
  shows "promo.holds pe glob ds"
  using assms(1)
proof cases
  case (Routed sm cv model s kind force t st sm' cs' cv' w)
  have "owned (pe_hash pe) (sm_scope sm) (hd_name st)" using route_result[OF Routed(2,3)] by blast
  moreover obtain u v where "allowed_collections (pe_hash pe) (sm_scope sm) = Inr [u, v]"
    "is_scoped_collection u" "is_scoped_collection v"
    using scope_ok_allowed[OF Routed(2), of "pe_hash pe"] by metis
  ultimately have "is_scoped_collection (hd_name st)" by (auto simp: owned_def)
  then have "valid (guarded (pe_hash pe) cv' st w) (\<lambda>_. True)"
    by (intro promo.valid_guarded) (simp add: scoped_inv)
  moreover have "promo.holds pe glob cs'"
    using promo.validD[OF valid_route assms(2)] Routed(3) by (metis snd_conv)
  ultimately show ?thesis unfolding Routed(1) by (rule promo.validD)
qed (auto intro: promo.validD[OF _ assms(2)] valid_scan valid_list valid_approve valid_reject
      valid_forget_org valid_forget_user)

lemma reachable_holds: "reachable pe glob cs \<Longrightarrow> promo.holds pe glob cs"
proof (induction rule: rtranclp_induct)
  case base
  then show ?case by (simp add: promo.holds_def)
next
  case (step cs ds)
  then show ?case using step_keeps by blast
qed

end

section \<open>What reaches the shared collection\<close>

text \<open>
  C8: in every history of an instance that starts without collections, the queue holds only texts
  that passed the check of some lesson's names, and the shared collection only entries a human
  verified, with such a text, and with at least the required number of organizations behind it
  when it was approved.  Histories interleave scans, decisions, withdrawals and arbitrary writes
  to the stores that scoped memory routes to, failing calls included.
\<close>

theorem shared_only_by_approval:
  assumes "honest_search (pe_backend pe)" and "glob \<noteq> candidates_collection" and "\<not> is_scoped_collection glob"
    and "reachable pe glob cs"
  shows "(\<forall>ps i e. map_of cs candidates_collection = Some ps \<longrightarrow> (i, e) \<in> set ps \<longrightarrow>
            (\<exists>names. is_clean pe names (me_text e)))
    \<and> (\<forall>ps i e. map_of cs glob = Some ps \<longrightarrow> (i, e) \<in> set ps \<longrightarrow>
            me_verification e = ''human_verified'' \<and> me_tier e = ''retrieve''
            \<and> (\<exists>names. is_clean pe names (me_text e))
            \<and> (\<exists>n. dict_get (me_payload e) ''source_orgs'' = VInt (int n) \<and> pe_min_orgs pe \<le> n))"
proof -
  have setting: "promotion_setting pe glob" using assms(1-3) by unfold_locales
  have "promo.holds pe glob cs" by (rule promotion_setting.reachable_holds[OF setting assms(4)])
  then show ?thesis
    unfolding promo.holds_def promotion_inv_def promoted_ok_def clean_lesson_def by (intro conjI allI impI) force+
qed

section \<open>Decisions\<close>

lemma cbind_Inr: "cbind m f cs = (Inr b, ds) \<longleftrightarrow> (\<exists>a cs'. m cs = (Inr a, cs') \<and> f a cs' = (Inr b, ds))"
  by (cases "m cs"; cases "fst (m cs)") (auto simp: cbind_def)

lemma open_store: "\<not> is_scoped_collection c \<Longrightarrow>
    sibling h cv c bound cs = (Inr \<lparr>hd_name = c, hd_bound = bound\<rparr>, if map_of cs c = None then cs @ [(c, [])] else cs)"
  by (simp add: sibling_def guard_open)

lemma candidates_open: "\<not> is_scoped_collection candidates_collection" by code_simp

lemma guarded_Inr:
  assumes "guarded h cv st w cs = (Inr a, cs')"
  obtains ps qs where "map_of cs (hd_name st) = Some ps" and "w ps = (Inr a, qs)"
    and "map_of cs' = (map_of cs)(hd_name st \<mapsto> qs)"
  using assms by (auto simp: guarded_def emap_err_def update_conv' split: sum.splits option.splits prod.splits)

lemma put_Inr:
  assumes "put_entry pe cv st e cs = (Inr a, cs')"
  obtains ps where "map_of cs (hd_name st) = Some ps"
    and "map_of cs' = (map_of cs)(hd_name st \<mapsto> AList.update (ident pe e) e ps)"
proof -
  obtain ps qs where g: "map_of cs (hd_name st) = Some ps" "upsert (pe_backend pe) e ps = (Inr a, qs)"
    "map_of cs' = (map_of cs)(hd_name st \<mapsto> qs)"
    using assms unfolding put_entry_def by (rule guarded_Inr)
  then have "qs = AList.update (ident pe e) e ps" by (auto simp: upsert_def ident_def split: option.splits)
  with g that show ?thesis by simp
qed

lemma entries_Inr:
  assumes "candidates_store pe cv cs = (Inr st, cs1)" and "entries_of pe cv st cs1 = (Inr es, cs2)"
  obtains ps where "es = map snd ps" and "map_of cs1 candidates_collection = Some ps"
    and "map_of cs2 = map_of cs1" and "map_of cs candidates_collection = Some ps \<or> ps = []"
    and "hd_name st = candidates_collection"
proof -
  have st: "st = \<lparr>hd_name = candidates_collection, hd_bound = None\<rparr>"
    and cs1: "cs1 = (if map_of cs candidates_collection = None then cs @ [(candidates_collection, [])] else cs)"
    using assms(1) by (simp_all add: candidates_store_def open_store[OF candidates_open])
  obtain ps qs where g: "map_of cs1 (hd_name st) = Some ps" "all_entries ps = (Inr es, qs)"
    "map_of cs2 = (map_of cs1)(hd_name st \<mapsto> qs)"
    using assms(2) unfolding entries_of_def by (rule guarded_Inr)
  then have "es = map snd ps" "map_of cs2 = map_of cs1" by (auto simp: all_entries_def st)
  moreover have "map_of cs candidates_collection = Some ps \<or> ps = []"
    using g(1) unfolding cs1 by (auto simp: st map_add_def split: option.splits if_splits)
  ultimately show ?thesis using that g(1) st by simp
qed

text \<open>
  C26: an approval that returns found exactly one candidate whose id starts with what was typed; it
  had enough organizations and was not rejected.  The entry returned carries its text and is in
  the shared collection, and the candidate is marked as approved in the queue.
\<close>

theorem approval_sound:
  assumes "approve pe cv i glob cs = (Inr e', cs')" and "glob \<noteq> candidates_collection"
  shows "\<exists>ps e gs qs. map_of cs candidates_collection = Some ps \<and> e \<in> snd ` set ps
    \<and> filter (\<lambda>d. starts_with i (ident pe d)) (map snd ps) = [e]
    \<and> pe_min_orgs pe \<le> source_count e \<and> status_of pe e \<noteq> status_rejected \<and> me_text e' = me_text e
    \<and> map_of cs' glob = Some gs \<and> map_of gs (ident pe e') = Some e'
    \<and> map_of cs' candidates_collection = Some qs \<and> map_of qs (ident pe e) = Some (with_status status_approved e)"
proof -
  obtain st cs1 es cs2 where st: "candidates_store pe cv cs = (Inr st, cs1)" and es: "entries_of pe cv st cs1 = (Inr es, cs2)"
    and rest: "(case resolve_candidate pe i es of
         Inl x \<Rightarrow> craise (Failed x)
       | Inr e \<Rightarrow>
           if source_count e < pe_min_orgs pe then craise (Failed (ValueErr ''candidate has too few source orgs''))
           else if status_of pe e = status_rejected then craise (Failed (ValueErr ''candidate was rejected''))
           else let promoted = promoted_entry e (be_now (pe_backend pe)) in
                cbind (global_store pe cv glob) (\<lambda>g.
                cbind (put_entry pe cv g promoted) (\<lambda>_.
                cbind (put_entry pe cv st (with_status status_approved e)) (\<lambda>_. creturn promoted)))) cs2 = (Inr e', cs')"
    using assms(1) unfolding approve_def cbind_Inr by blast
  from rest obtain e where found: "resolve_candidate pe i es = Inr e" by (auto simp: craise_def split: sum.splits)
  obtain ps where ps: "es = map snd ps" "map_of cs2 = map_of cs1" "hd_name st = candidates_collection"
    and seen: "map_of cs candidates_collection = Some ps \<or> ps = []"
    using entries_Inr[OF st es] by metis
  have one: "filter (\<lambda>d. starts_with i (ident pe d)) (map snd ps) = [e]"
    using found ps(1) by (auto simp: resolve_candidate_def split: list.splits)
  have mem: "e \<in> snd ` set ps" using resolved_entry[OF found] ps(1) by simp
  have ok: "pe_min_orgs pe \<le> source_count e" "status_of pe e \<noteq> status_rejected"
    using rest found by (auto simp: craise_def split: if_splits)
  define p where "p = promoted_entry e (be_now (pe_backend pe))"
  have run: "cbind (global_store pe cv glob) (\<lambda>g. cbind (put_entry pe cv g p) (\<lambda>_.
                cbind (put_entry pe cv st (with_status status_approved e)) (\<lambda>_. creturn p))) cs2 = (Inr e', cs')"
    using rest found ok by (simp add: p_def Let_def not_less)
  obtain g cs3 cs4 where g: "global_store pe cv glob cs2 = (Inr g, cs3)" and put1: "put_entry pe cv g p cs3 = (Inr (), cs4)"
    and put2: "put_entry pe cv st (with_status status_approved e) cs4 = (Inr (), cs')" and e': "e' = p"
    using run by (auto simp: cbind_Inr creturn_def)
  have "hd_name g = glob" using g by (auto simp: global_store_def sibling_def split: sum.splits)
  moreover obtain gs where "map_of cs4 = (map_of cs3)(hd_name g \<mapsto> AList.update (ident pe p) p gs)"
    using put1 by (rule put_Inr)
  moreover obtain qs where "map_of cs' = (map_of cs4)(hd_name st \<mapsto>
      AList.update (ident pe (with_status status_approved e)) (with_status status_approved e) qs)"
    using put2 by (rule put_Inr)
  moreover have "ident pe (with_status status_approved e) = ident pe e" by (simp add: ident_def with_status_def entry_id_def)
  moreover have "me_text p = me_text e" by (simp add: p_def promoted_entry_def post_init_def fresh_entry_def Let_def)
  moreover have "map_of cs candidates_collection = Some ps" using seen mem by auto
  ultimately show ?thesis using one mem ok ps(3) e' assms(2) by (auto simp: update_conv')
qed

section \<open>Withdrawal\<close>

lemma cfor_Cons_Inr:
  "cfor f s (x # xs) cs = (Inr t, ds) \<longleftrightarrow> (\<exists>u cs'. f s x cs = (Inr u, cs') \<and> cfor f u xs cs' = (Inr t, ds))"
  by (simp add: cbind_Inr)

text \<open>One candidate withdrawn: it is no longer there with the organization among its sources.\<close>

lemma withdraw_step:
  assumes "withdraw pe cv st org report e cs = (Inr r, cs')" and "map_of cs (hd_name st) = Some ps"
    and "keyed (be_uuid (pe_backend pe)) ps"
  obtains qs where "map_of cs' = (map_of cs)(hd_name st \<mapsto> qs)" and "keyed (be_uuid (pe_backend pe)) qs"
    and "\<forall>d \<in> snd ` set qs. org \<in> set (me_session_ids d) \<longrightarrow> d \<in> snd ` set ps \<and> d \<noteq> e"
proof (cases "org \<in> set (me_session_ids e)")
  case False
  then have "cs' = cs" using assms(1) by (simp add: withdraw_def creturn_def)
  moreover have "map_of cs = (map_of cs)(hd_name st \<mapsto> ps)" using assms(2) by auto
  ultimately show ?thesis using that[of ps] False assms(3) by auto
next
  case True
  define xs where "xs = filter (\<lambda>s. s \<noteq> org) (me_session_ids e)"
  define e1 where "e1 = e\<lparr>me_session_ids := xs, me_source_session_ids := xs\<rparr>"
  have id: "ident pe e1 = ident pe e" by (simp add: ident_def entry_id_def e1_def)
  have without: "org \<notin> set (me_session_ids e1)" by (simp add: e1_def xs_def)
  consider (del) r' where "delete_entry pe cv st (ident pe e) cs = (Inr r', cs')"
    | (put) r' where "put_entry pe cv st e1 cs = (Inr r', cs')"
    using assms(1) True unfolding withdraw_def Let_def xs_def[symmetric] e1_def[symmetric]
    by (auto simp: cbind_Inr creturn_def split: if_splits)
  then show ?thesis
  proof cases
    case del
    obtain ps' qs where "map_of cs (hd_name st) = Some ps'" "delete_point (ident pe e) ps' = (Inr r', qs)"
      "map_of cs' = (map_of cs)(hd_name st \<mapsto> qs)"
      using del unfolding delete_entry_def by (rule guarded_Inr)
    then have new: "map_of cs' = (map_of cs)(hd_name st \<mapsto> filter (\<lambda>p. fst p \<noteq> ident pe e) ps)"
      using assms(2) by (auto simp: delete_point_def)
    have "d \<in> snd ` set ps \<and> d \<noteq> e" if "(j, d) \<in> set (filter (\<lambda>p. fst p \<noteq> ident pe e) ps)" for j d
    proof -
      have j: "(j, d) \<in> set ps" "j \<noteq> ident pe e" using that by simp_all
      then have "ident pe d = j" using assms(3) by (auto simp: keyed_def ident_def)
      with j show ?thesis by force
    qed
    then show ?thesis by (intro that[OF new keyed.deleted[OF assms(3)]]) auto
  next
    case put
    obtain ps' where "map_of cs (hd_name st) = Some ps'"
      "map_of cs' = (map_of cs)(hd_name st \<mapsto> AList.update (ident pe e1) e1 ps')" using put by (rule put_Inr)
    then have new: "map_of cs' = (map_of cs)(hd_name st \<mapsto> AList.update (ident pe e1) e1 ps)" using assms(2) by simp
    have keyed: "keyed (be_uuid (pe_backend pe)) (AList.update (ident pe e1) e1 ps)"
      unfolding ident_def by (rule keyed_update[OF assms(3)])
    have "d \<in> snd ` set ps \<and> d \<noteq> e" if d: "(j, d) \<in> set (AList.update (ident pe e1) e1 ps)" "org \<in> set (me_session_ids d)" for j d
    proof -
      have "d \<noteq> e1" using d(2) without by auto
      moreover have "d \<in> insert e1 (snd ` set ps)" using subsetD[OF update_entries[of "ident pe e1" e1 ps]] d(1) by force
      moreover have "d = e1" if "d = e"
      proof -
        have "j = ident pe e1" using keyed d(1) that id by (auto simp: keyed_def ident_def)
        with d(1) keyed show ?thesis by (metis (no_types) keyed_def map_of_is_SomeI option.inject update_Some_unfold)
      qed
      ultimately show ?thesis by auto
    qed
    note kept = this
    show ?thesis
    proof (rule that[OF new keyed], intro ballI impI)
      fix d
      assume "d \<in> snd ` set (AList.update (ident pe e1) e1 ps)" and org: "org \<in> set (me_session_ids d)"
      then obtain j where "(j, d) \<in> set (AList.update (ident pe e1) e1 ps)" by force
      then show "d \<in> snd ` set ps \<and> d \<noteq> e" using org by (rule kept)
    qed
  qed
qed

lemma sweep_gone:
  assumes "cfor (withdraw pe cv st org) report es cs = (Inr r, cs')" and "map_of cs (hd_name st) = Some ps"
    and "keyed (be_uuid (pe_backend pe)) ps"
  shows "\<exists>qs. map_of cs' = (map_of cs)(hd_name st \<mapsto> qs)
    \<and> (\<forall>d \<in> snd ` set qs. org \<in> set (me_session_ids d) \<longrightarrow> d \<in> snd ` set ps \<and> d \<notin> set es)"
  using assms
proof (induction es arbitrary: report cs ps)
  case Nil
  then have "map_of cs' = (map_of cs)(hd_name st \<mapsto> ps)" by (auto simp: creturn_def)
  then show ?case by (intro exI[of _ ps]) simp
next
  case (Cons e es)
  from Cons.prems(1) obtain r1 cs1 where step: "withdraw pe cv st org report e cs = (Inr r1, cs1)"
    and rest: "cfor (withdraw pe cv st org) r1 es cs1 = (Inr r, cs')" unfolding cfor_Cons_Inr by blast
  obtain ps1 where ps1: "map_of cs1 = (map_of cs)(hd_name st \<mapsto> ps1)" "keyed (be_uuid (pe_backend pe)) ps1"
    and less: "\<forall>d \<in> snd ` set ps1. org \<in> set (me_session_ids d) \<longrightarrow> d \<in> snd ` set ps \<and> d \<noteq> e"
    using withdraw_step[OF step Cons.prems(2,3)] by metis
  have "map_of cs1 (hd_name st) = Some ps1" using ps1(1) by simp
  from Cons.IH[OF rest this ps1(2)] obtain qs where qs: "map_of cs' = (map_of cs1)(hd_name st \<mapsto> qs)"
    and gone: "\<forall>d \<in> snd ` set qs. org \<in> set (me_session_ids d) \<longrightarrow> d \<in> snd ` set ps1 \<and> d \<notin> set es" by blast
  have "map_of cs' = (map_of cs)(hd_name st \<mapsto> qs)" using qs ps1(1) by simp
  moreover have "d \<in> snd ` set ps \<and> d \<notin> set (e # es)"
    if "d \<in> snd ` set qs" "org \<in> set (me_session_ids d)" for d
    using gone less that by (metis set_ConsD)
  ultimately show ?case by blast
qed

lemma drop_named_gone:
  "drop_named pe cv name cs = (Inr b, cs') \<Longrightarrow> map_of cs' = (map_of cs)(name := None)"
proof -
  assume run: "drop_named pe cv name cs = (Inr b, cs')"
  show ?thesis
  proof (cases "name \<in> set (list_collections cs)")
    case False
    then have "map_of cs name = None" by (auto simp: list_collections_def map_of_eq_None_iff)
    with run False show ?thesis by (auto simp: drop_named_def creturn_def)
  next
    case True
    then obtain ps where present: "map_of cs name = Some ps"
      by (auto simp: list_collections_def) (metis map_of_eq_None_iff image_eqI fst_conv option.exhaust)
    from run True obtain st cs1 where st: "sibling (pe_hash pe) cv name None cs = (Inr st, cs1)"
      and dropped: "drop_collection (pe_hash pe) cv st cs1 = (Inr (), cs')"
      by (auto simp: drop_named_def cbind_Inr creturn_def)
    have "hd_name st = name" "cs1 = cs" using st present by (auto simp: sibling_def split: sum.splits)
    with dropped show ?thesis by (auto simp: drop_collection_def map_of_drop fun_eq_iff split: sum.splits)
  qed
qed


section \<open>What the check finds\<close>

text \<open>Two texts that differ in the case of letters only.\<close>

definition same_letters :: "string \<Rightarrow> string \<Rightarrow> bool" where
  "same_letters t n \<longleftrightarrow> list_all2 (\<lambda>x y. x = y \<or> swap_case x = y) t n"

lemma reads_seqs: "reads (seqs (r # rs)) c d \<longleftrightarrow> (\<exists>e. reads r c e \<and> reads (seqs rs) e d)"
  by (simp add: seqs_def)

lemma reads_ilit:
  "reads (ilit n) (b, s) d \<longleftrightarrow> (\<exists>t v. s = t @ v \<and> same_letters t n \<and> d = (rev t @ b, v))"
proof (induction n arbitrary: b s)
  case Nil
  then show ?case by (simp add: ilit_def seqs_def same_letters_def)
next
  case (Cons c n)
  have "reads (ilit (c # n)) (b, s) d
     \<longleftrightarrow> (\<exists>x xs. s = x # xs \<and> (x = c \<or> swap_case x = c) \<and> reads (ilit n) (x # b, xs) d)"
    by (auto simp: ilit_def seqs_def any_case_def)
  also have "\<dots> \<longleftrightarrow> (\<exists>t v. s = t @ v \<and> same_letters t (c # n) \<and> d = (rev t @ b, v))"
  proof
    assume "\<exists>x xs. s = x # xs \<and> (x = c \<or> swap_case x = c) \<and> reads (ilit n) (x # b, xs) d"
    then obtain x xs t v where "s = x # xs" "x = c \<or> swap_case x = c" "xs = t @ v" "same_letters t n" "d = (rev t @ x # b, v)"
      unfolding Cons.IH by blast
    then show "\<exists>t v. s = t @ v \<and> same_letters t (c # n) \<and> d = (rev t @ b, v)"
      by (intro exI[of _ "x # t"] exI[of _ v]) (simp add: same_letters_def)
  next
    assume "\<exists>t v. s = t @ v \<and> same_letters t (c # n) \<and> d = (rev t @ b, v)"
    then obtain x t v where "s = x # t @ v" "x = c \<or> swap_case x = c" "same_letters t n" "d = (rev t @ x # b, v)"
      by (auto simp: same_letters_def list_all2_Cons2)
    then show "\<exists>x xs. s = x # xs \<and> (x = c \<or> swap_case x = c) \<and> reads (ilit n) (x # b, xs) d"
      unfolding Cons.IH by blast
  qed
  finally show ?case .
qed

text \<open>
  What the check of a scrubbed text guarantees about names.  If it finds nothing, no name of
  the lesson occurs in the text as a whole word, in any case of its letters, whatever the order
  in which the set of names is visited.
\<close>

theorem leak_check_finds_names:
  assumes "leak_check order s names = []" and "\<And>xs. set (order xs) = set xs"
    and "name \<in> set names" and "2 \<le> length (strip name)"
    and "s = u @ t @ v" and "same_letters t (strip name)"
  shows "(u \<noteq> [] \<and> letter_or_digit (last u)) \<or> (v \<noteq> [] \<and> letter_or_digit (hd v))"
proof (rule ccontr)
  assume free: "\<not> ?thesis"
  have "strip name \<in> set (full_names names)" using assms(3,4) by (auto simp: full_names_def)
  then have "strip name \<in> set (ordered_names order names)"
    by (simp add: ordered_names_def longest_first_def Let_def assms(2))
  moreover have "filter (\<lambda>n. found (ci_word n) s) (ordered_names order names) = []"
    using assms(1) unfolding leak_check_def by simp
  ultimately have "\<not> found (ci_word (strip name)) s" by (metis filter_empty_conv)
  moreover have "reads (ci_word (strip name)) (rev u, t @ v) (rev t @ rev u, v)"
  proof -
    have "reads (ilit (strip name)) (rev u, t @ v) (rev t @ rev u, v)" unfolding reads_ilit using assms(6) by blast
    moreover have "reads (Behind False letter_or_digit) (rev u, t @ v) (rev u, t @ v)"
      using free by (auto simp: hd_rev)
    moreover have "reads (Ahead False (Sat letter_or_digit)) (rev t @ rev u, v) (rev t @ rev u, v)"
      using free by (cases v) auto
    ultimately show ?thesis unfolding ci_word_def reads_seqs seqs_def by (auto simp del: reads.simps(6,7))
  qed
  ultimately show False using assms(5) unfolding found_iff by blast
qed

end
