(* ===== verification/Embedded_Laws.thy ===== *)
theory Embedded_Laws
  imports Embedded_Store Promotion_Promises
begin

text \<open>
  The SQLite store against its specification, a map from ids to entries: the tables stay in step,
  every operation does to the map what its name says, and a search returns stored entries only,
  at most as many as asked for, that pass the filters.  Its search is an honest one, so the
  guarantees of the promotion of lessons hold on it.
\<close>

section \<open>Tables in step\<close>

fun str_keyed :: "pyval \<Rightarrow> bool" where
  "str_keyed (VDict d) \<longleftrightarrow> (\<forall>(k, v) \<in> set d. (\<exists>s. k = KStr s) \<and> str_keyed v)"
| "str_keyed (VList xs) \<longleftrightarrow> (\<forall>x \<in> set xs. str_keyed x)"
| "str_keyed _ \<longleftrightarrow> True"

text \<open>JSON text reads back as the dictionary it was written from, if all its keys are strings.\<close>

definition json_roundtrip :: "sqlite_services \<Rightarrow> bool" where
  "json_roundtrip ss \<longleftrightarrow>
     (\<forall>d s. str_keyed (VDict d) \<longrightarrow> ss_dumps ss d = Inr s \<longrightarrow> ss_loads ss s = Inr d)"

text \<open>An entry as the constructor leaves it, with data that JSON keeps.\<close>

definition storable :: "memory_entry \<Rightarrow> bool" where
  "storable e \<longleftrightarrow>
     post_init e = e \<and> str_keyed (VDict (me_payload e))
     \<and> (\<forall>d. me_resolution e = Some d \<longrightarrow> str_keyed (VDict d))"

lemma str_keyed_payload: "storable e \<Longrightarrow> str_keyed (VDict (to_payload e))"
  by (auto simp: storable_def to_payload_def strs_def opt_str_def split: option.splits)

lemma decode_written:
  assumes "json_roundtrip ss" and "storable e" and "ss_dumps ss (to_payload e) = Inr s"
  shows "decode_entry ss s = Inr e"
proof -
  have "ss_loads ss s = Inr (to_payload e)"
    using assms str_keyed_payload[OF assms(2)] unfolding json_roundtrip_def by blast
  then show ?thesis using assms(2) by (simp add: decode_entry_def payload_roundtrip storable_def)
qed

text \<open>The invariant: one row per id in each table, and each row written from one entry.\<close>

definition row_ok :: "sqlite_services \<Rightarrow> sqlite_db \<Rightarrow> db_row \<Rightarrow> bool" where
  "row_ok ss db r \<longleftrightarrow>
     (\<exists>e v. decode_entry ss (dr_payload r) = Inr e \<and> r = row_of ss e (dr_payload r)
        \<and> ss_embed ss (me_text e) = Inr v
        \<and> map_of (db_vecs db) (dr_id r) = Some v \<and> map_of (db_fts db) (dr_id r) = Some (me_text e))"

definition db_ok :: "sqlite_services \<Rightarrow> sqlite_db \<Rightarrow> bool" where
  "db_ok ss db \<longleftrightarrow>
     distinct (map dr_id (db_rows db)) \<and> map fst (db_vecs db) = map dr_id (db_rows db)
     \<and> map fst (db_fts db) = map dr_id (db_rows db) \<and> (\<forall>r \<in> set (db_rows db). row_ok ss db r)"

text \<open>The map a database stands for.\<close>

definition db_contents :: "sqlite_services \<Rightarrow> sqlite_db \<Rightarrow> string \<Rightarrow> memory_entry option" where
  "db_contents ss db i =
     Option.bind (find_row i db) (\<lambda>r. case decode_entry ss (dr_payload r) of Inl _ \<Rightarrow> None | Inr e \<Rightarrow> Some e)"

lemma find_other: "List.find (\<lambda>r. key r = i) (filter (\<lambda>r. key r \<noteq> j) rs)
    = (if i = j then None else List.find (\<lambda>r. key r = i) rs)"
  by (induction rs) auto

lemma find_own: "distinct (map key rs) \<Longrightarrow> r \<in> set rs \<Longrightarrow> List.find (\<lambda>x. key x = key r) rs = Some r"
  by (induction rs) (auto simp: image_iff)

lemma find_append: "List.find P (xs @ ys) = (case List.find P xs of None \<Rightarrow> List.find P ys | Some x \<Rightarrow> Some x)"
  by (induction xs) auto

lemma find_replace:
  "List.find (\<lambda>x. key x = i) (replace_row key r rs)
   = (if i = key r then Some r else List.find (\<lambda>x. key x = i) rs)"
  by (auto simp: replace_row_def find_append find_other split: option.splits)

lemma map_of_filter_ne: "map_of (filter (\<lambda>p. fst p \<noteq> i) ps) j = (if j = i then None else map_of ps j)"
  by (induction ps) auto

lemma map_of_replace: "map_of (replace_row fst (i, v) ps) = (map_of ps)(i \<mapsto> v)"
  by (rule ext) (simp add: replace_row_def map_add_def map_of_filter_ne split: option.split)

lemma filter_keys: "map key (filter (\<lambda>r. key r \<noteq> i) rs) = filter (\<lambda>k. k \<noteq> i) (map key rs)"
  by (simp add: filter_map comp_def)

lemma replace_keys: "map key (replace_row key r rs) = filter (\<lambda>k. k \<noteq> key r) (map key rs) @ [key r]"
  by (simp add: replace_row_def filter_map comp_def)

lemma row_ok_other:
  assumes "row_ok ss db r" and "map_of (db_vecs db') (dr_id r) = map_of (db_vecs db) (dr_id r)"
    and "map_of (db_fts db') (dr_id r) = map_of (db_fts db) (dr_id r)"
  shows "row_ok ss db' r"
  using assms unfolding row_ok_def by metis

section \<open>Refinement\<close>

lemma upsert_refines:
  assumes "json_roundtrip ss" and "db_ok ss db" and "storable e" and "db_upsert ss e db = (Inr i, db')"
  shows "i = entry_id (ss_uuid ss) e \<and> db_ok ss db' \<and> db_contents ss db' = (db_contents ss db)(i \<mapsto> e)"
proof -
  obtain v s where v: "ss_embed ss (me_text e) = Inr v" and s: "ss_dumps ss (to_payload e) = Inr s"
    using assms(4) by (auto simp: db_upsert_def split: sum.splits)
  let ?r = "row_of ss e s"
  have i: "i = entry_id (ss_uuid ss) e"
    and db': "db' = \<lparr>db_rows = replace_row dr_id ?r (db_rows db), db_vecs = replace_row fst (i, v) (db_vecs db),
                     db_fts = replace_row fst (i, me_text e) (db_fts db)\<rparr>"
    using assms(4) by (auto simp: db_upsert_def v s Let_def)
  have decoded: "decode_entry ss s = Inr e" by (rule decode_written[OF assms(1,3) s])
  have rid: "dr_id ?r = i" and pay: "dr_payload ?r = s" by (simp_all add: row_of_def i)
  have "row_ok ss db' ?r"
    unfolding row_ok_def rid
    by (intro exI[of _ e] exI[of _ v]) (simp add: db' map_of_replace v decoded row_of_def)
  moreover have "row_ok ss db' r" if "r \<in> set (db_rows db)" "dr_id r \<noteq> i" for r
    by (rule row_ok_other[of ss db r db']) (use assms(2) that in \<open>auto simp: db_ok_def db' map_of_replace\<close>)
  ultimately have rows: "\<forall>r \<in> set (db_rows db'). row_ok ss db' r"
    by (auto simp: db' replace_row_def rid)
  have "db_ok ss db'"
    using assms(2) rows unfolding db_ok_def db' sqlite_db.select_convs replace_keys by (simp add: rid)
  moreover have "db_contents ss db' = (db_contents ss db)(i \<mapsto> e)"
    by (rule ext) (simp add: db_contents_def find_row_def db' find_replace rid pay decoded)
  ultimately show ?thesis using i by simp
qed

lemma delete_refines:
  assumes "db_ok ss db"
  shows "db_ok ss (db_delete i db) \<and> db_contents ss (db_delete i db) = (db_contents ss db)(i := None)"
proof -
  have "row_ok ss (db_delete i db) r" if "r \<in> set (db_rows db)" "dr_id r \<noteq> i" for r
    by (rule row_ok_other[of ss db r]) (use assms that in \<open>auto simp: db_ok_def db_delete_def map_of_filter_ne\<close>)
  then have "\<forall>r \<in> set (db_rows (db_delete i db)). row_ok ss (db_delete i db) r" by (simp add: db_delete_def)
  then have "db_ok ss (db_delete i db)"
    using assms unfolding db_ok_def by (simp add: db_delete_def filter_keys)
  then show ?thesis by (auto simp: fun_eq_iff db_contents_def find_row_def db_delete_def find_other)
qed

lemma get_refines:
  assumes "db_ok ss db"
  shows "db_get ss i db = Inr (db_contents ss db i)"
proof (cases "find_row i db")
  case None
  then show ?thesis by (simp add: db_get_def db_contents_def)
next
  case (Some r)
  then have "r \<in> set (db_rows db)" by (auto simp: find_row_def find_Some_iff)
  then obtain e where "decode_entry ss (dr_payload r) = Inr e" using assms by (auto simp: db_ok_def row_ok_def)
  with Some show ?thesis by (simp add: db_get_def db_contents_def)
qed

lemma iterate_refines:
  assumes "db_ok ss db"
  shows "\<exists>es. db_iterate ss None None db = Inr es \<and> length es = db_count None db
    \<and> set es = ran (db_contents ss db)"
proof -
  define f where "f r = (case decode_entry ss (dr_payload r) of Inr e \<Rightarrow> e | Inl _ \<Rightarrow> undefined)" for r :: db_row
  have dec: "decode_entry ss (dr_payload r) = Inr (f r)" if "r \<in> set (db_rows db)" for r
    using assms that by (auto simp: db_ok_def row_ok_def f_def)
  have all: "traverse (decode_entry ss \<circ> dr_payload) rs = Inr (map f rs)" if "set rs \<subseteq> set (db_rows db)" for rs
    using that dec by (induction rs) auto
  have "db_iterate ss None None db = Inr (map f (db_rows db))"
    using all[OF subset_refl] by (simp add: db_iterate_def)
  moreover have "ran (db_contents ss db) = f ` set (db_rows db)"
  proof -
    have here: "find_row (dr_id r) db = Some r" if "r \<in> set (db_rows db)" for r
      unfolding find_row_def by (rule find_own[OF _ that]) (use assms in \<open>simp add: db_ok_def\<close>)
    show ?thesis
    proof (intro set_eqI iffI)
      fix e
      assume "e \<in> ran (db_contents ss db)"
      then obtain i where i: "db_contents ss db i = Some e" by (auto simp: ran_def)
      then obtain r where r: "find_row i db = Some r" by (cases "find_row i db") (auto simp: db_contents_def)
      with i have e: "decode_entry ss (dr_payload r) = Inr e" by (auto simp: db_contents_def split: sum.splits)
      from r have "r \<in> set (db_rows db)" by (auto simp: find_row_def find_Some_iff)
      with dec e show "e \<in> f ` set (db_rows db)" by force
    next
      fix e
      assume "e \<in> f ` set (db_rows db)"
      then obtain r where "r \<in> set (db_rows db)" "e = f r" by blast
      then have "db_contents ss db (dr_id r) = Some e" using here dec by (simp add: db_contents_def)
      then show "e \<in> ran (db_contents ss db)" by (auto simp: ran_def)
    qed
  qed
  ultimately show ?thesis by (simp add: db_count_def)
qed

text \<open>One write of a store, and the same write of the map it stands for.\<close>

datatype db_write = Put memory_entry | Remove string

definition db_run :: "sqlite_services \<Rightarrow> db_write \<Rightarrow> sqlite_db \<Rightarrow> sqlite_db" where
  "db_run ss w db = (case w of Put e \<Rightarrow> snd (db_upsert ss e db) | Remove i \<Rightarrow> db_delete i db)"

definition map_run ::
  "sqlite_services \<Rightarrow> db_write \<Rightarrow> (string \<Rightarrow> memory_entry option) \<Rightarrow> string \<Rightarrow> memory_entry option" where
  "map_run ss w m =
     (case w of
        Put e \<Rightarrow> if isl (ss_embed ss (me_text e)) \<or> isl (ss_dumps ss (to_payload e)) then m
                 else m(entry_id (ss_uuid ss) e \<mapsto> e)
      | Remove i \<Rightarrow> m(i := None))"

lemma run_refines:
  assumes "json_roundtrip ss" and "db_ok ss db" and "\<forall>e. w = Put e \<longrightarrow> storable e"
  shows "db_ok ss (db_run ss w db) \<and> db_contents ss (db_run ss w db) = map_run ss w (db_contents ss db)"
proof (cases w)
  case (Remove i)
  with delete_refines[OF assms(2)] show ?thesis by (simp add: db_run_def map_run_def)
next
  case (Put e)
  obtain r db' where run: "db_upsert ss e db = (r, db')" by fastforce
  show ?thesis
  proof (cases r)
    case (Inl x)
    with run Put assms(2) show ?thesis
      by (auto simp: db_run_def map_run_def db_upsert_def Let_def split: sum.splits)
  next
    case (Inr i)
    moreover from this run have "\<not> isl (ss_embed ss (me_text e))" "\<not> isl (ss_dumps ss (to_payload e))"
      by (auto simp: db_upsert_def split: sum.splits)
    ultimately show ?thesis
      using upsert_refines[OF assms(1,2), of e i db'] assms(3) Put run by (simp add: db_run_def map_run_def)
  qed
qed

lemma runs_refine:
  assumes "json_roundtrip ss" and "db_ok ss db" and "\<forall>e. Put e \<in> set ws \<longrightarrow> storable e"
  shows "db_ok ss (fold (db_run ss) ws db) \<and> db_contents ss (fold (db_run ss) ws db) = fold (map_run ss) ws (db_contents ss db)"
  using assms(2,3)
proof (induction ws arbitrary: db)
  case (Cons w ws)
  then have "db_ok ss (db_run ss w db)" "db_contents ss (db_run ss w db) = map_run ss w (db_contents ss db)"
    using run_refines[OF assms(1), of db w] by auto
  with Cons show ?case by simp
qed simp

lemma fresh_ok: "db_ok ss fresh_db" "db_contents ss fresh_db = Map.empty"
  by (auto simp: db_ok_def fresh_db_def db_contents_def find_row_def)

text \<open>
  C9: the SQLite store implements a map from ids to entries.  After any sequence of writes to a
  fresh database, failing ones included, its three tables hold the same ids in the same order,
  a lookup returns what the map holds, and an iteration exactly the entries of the map, each once.
\<close>

theorem sqlite_implements_map:
  assumes "json_roundtrip ss" and "\<forall>e. Put e \<in> set ws \<longrightarrow> storable e"
    and "db = fold (db_run ss) ws fresh_db" and "m = fold (map_run ss) ws Map.empty"
  shows "map fst (db_vecs db) = map dr_id (db_rows db) \<and> map fst (db_fts db) = map dr_id (db_rows db)
    \<and> (\<forall>i. db_get ss i db = Inr (m i))
    \<and> (\<exists>es. db_iterate ss None None db = Inr es \<and> length es = db_count None db \<and> set es = ran m)"
proof -
  have "db_ok ss db" and "db_contents ss db = m"
    using runs_refine[OF assms(1) fresh_ok(1) assms(2)] fresh_ok(2) assms(3,4) by simp_all
  then show ?thesis using get_refines iterate_refines by (auto simp: db_ok_def)
qed

section \<open>Searches\<close>

lemma collect_rows_eq:
  assumes "\<forall>(r, s) \<in> set rs. decode_entry ss (dr_payload r) = Inr (f r)" and "length out < top_k"
  shows "collect_rows ss top_k kind tools rs out =
    Inr (out @ take (top_k - length out) (filter (\<lambda>(e, _). passes_filters kind tools e) (map (\<lambda>(r, s). (f r, s)) rs)))"
  using assms
proof (induction rs arbitrary: out)
  case (Cons x rs)
  obtain r s where x: "x = (r, s)" by fastforce
  have dec: "decode_entry ss (dr_payload r) = Inr (f r)" and rest: "\<forall>(r, s) \<in> set rs. decode_entry ss (dr_payload r) = Inr (f r)"
    using Cons.prems(1) x by auto
  consider "\<not> passes_filters kind tools (f r)"
    | "passes_filters kind tools (f r)" "top_k = length out + 1"
    | "passes_filters kind tools (f r)" "length (out @ [(f r, s)]) < top_k"
    using Cons.prems(2) by fastforce
  then show ?case
  proof cases
    case 3
    then obtain n where "top_k - length out = Suc n" "top_k - Suc (length out) = n" by (metis Suc_diff_Suc length_append_singleton Suc_lessD)
    with 3 Cons.IH[OF rest 3(2)] dec show ?thesis by (simp add: x)
  qed (use Cons.IH[OF rest Cons.prems(2)] dec in \<open>simp_all add: x\<close>)
qed simp

lemma nearest_sorted:
  "sorted_wrt (\<lambda>x y. snd y \<le> snd x) (nearest_entries ss v top_k kind tools cands)"
proof -
  let ?key = "\<lambda>(x, w). ss_distance ss w v"
  have "sorted_wrt (\<lambda>x y. ?key x \<le> ?key y) (take n (sort_key ?key cands))" for n
    using sorted_sort_key[of ?key cands] by (metis sorted_map sorted_wrt_take)
  then show ?thesis
    unfolding nearest_entries_def by (auto simp: sorted_wrt_map split_beta elim!: sorted_wrt_mono_rel[rotated])
qed

lemma sorted_map_filter:
  assumes "sorted_wrt P xs" and "\<And>x y a b. P x y \<Longrightarrow> f x = Some a \<Longrightarrow> f y = Some b \<Longrightarrow> Q a b"
  shows "sorted_wrt Q (List.map_filter f xs)"
  using assms by (induction xs) (auto simp: map_filter_simps map_filter_def split: option.splits)

text \<open>
  A search of the SQLite store.  It never fails on tables in step, and returns at most as
  many entries as asked for, most similar first, each one stored, and of the kind and with one of
  the tools asked for.
\<close>

theorem sqlite_search_sound:
  assumes "db_ok ss db"
  shows "\<exists>found_entries. db_query_by_vector ss v top_k kind tools db = Inr found_entries
    \<and> length found_entries \<le> top_k
    \<and> sorted_wrt (\<lambda>x y. snd y \<le> snd x) found_entries
    \<and> (\<forall>(e, score) \<in> set found_entries. e \<in> ran (db_contents ss db) \<and> passes_filters kind tools e)"
proof -
  define f where "f r = (case decode_entry ss (dr_payload r) of Inr e \<Rightarrow> e | Inl _ \<Rightarrow> undefined)" for r :: db_row
  let ?rs = "joined_rows db (nearest_entries ss v top_k kind tools (db_vecs db))"
  have found: "decode_entry ss (dr_payload r) = Inr (f r) \<and> db_contents ss db i = Some (f r)" if "find_row i db = Some r" for i r
  proof -
    from that have "r \<in> set (db_rows db)" by (auto simp: find_row_def find_Some_iff)
    then obtain e where "decode_entry ss (dr_payload r) = Inr e" using assms by (auto simp: db_ok_def row_ok_def)
    with that show ?thesis by (simp add: f_def db_contents_def)
  qed
  have rs: "\<forall>(r, s) \<in> set ?rs. decode_entry ss (dr_payload r) = Inr (f r) \<and> f r \<in> ran (db_contents ss db)"
    using found by (fastforce simp: joined_rows_def map_filter_def ran_def)
  have "sorted_wrt (\<lambda>x y. snd y \<le> snd x) ?rs"
    unfolding joined_rows_def by (rule sorted_map_filter[OF nearest_sorted]) auto
  then have sorted: "sorted_wrt (\<lambda>x y. snd y \<le> snd x) (map (\<lambda>(r, s). (f r, s)) ?rs)"
    by (auto simp: sorted_wrt_map split_beta)
  show ?thesis
  proof (cases "top_k = 0")
    case True
    then have "?rs = []" by (simp add: nearest_entries_def over_fetch_def joined_rows_def map_filter_simps)
    then show ?thesis by (simp add: db_query_by_vector_def)
  next
    case False
    let ?out = "take top_k (filter (\<lambda>(e, _). passes_filters kind tools e) (map (\<lambda>(r, s). (f r, s)) ?rs))"
    have "db_query_by_vector ss v top_k kind tools db = Inr ?out"
      using collect_rows_eq[of ?rs ss f "[]" top_k kind tools] rs False by (auto simp: db_query_by_vector_def split_beta)
    moreover have "sorted_wrt (\<lambda>x y. snd y \<le> snd x) ?out" using sorted by (intro sorted_wrt_take sorted_wrt_filter)
    moreover have "e \<in> ran (db_contents ss db) \<and> passes_filters kind tools e" if "(e, s) \<in> set ?out" for e s
    proof -
      from in_set_takeD[OF that] obtain r where "(r, s) \<in> set ?rs" "e = f r" "passes_filters kind tools e" by auto
      with rs show ?thesis by auto
    qed
    moreover have "length ?out \<le> top_k" by simp
    ultimately show ?thesis by (intro exI[of _ ?out] conjI ballI) (simp_all only: split_paired_all prod.case)
  qed
qed

text \<open>
  An empty list of tools excludes every entry here, where the Qdrant store takes it for no filter.
\<close>

lemma collect_no_tools:
  "collect_rows ss top_k kind (Some []) rs out = Inr x \<Longrightarrow> x = out"
  by (induction rs) (auto simp: passes_filters_def split: if_splits)

theorem empty_tool_filter:
  "db_query_by_vector ss v top_k kind (Some []) db = Inr x \<Longrightarrow> x = []"
  unfolding db_query_by_vector_def by (rule collect_no_tools)

section \<open>The store as a backend\<close>

lemma nearest_among: "(x, s) \<in> set (nearest_entries ss v n kind tools cands) \<Longrightarrow> \<exists>w. (x, w) \<in> set cands"
  unfolding nearest_entries_def by (auto dest!: in_set_takeD)

lemma sqlite_honest: "honest_search (sqlite_backend ss decay cap)"
  unfolding honest_search_def
proof (intro allI impI)
  fix t k ps e s
  assume "be_nearest (sqlite_backend ss decay cap) t k ps = Inr (Some (e, s))"
  then have "sqlite_nearest ss t k ps = Inr (Some (e, s))" by (simp add: sqlite_backend_def)
  then obtain v where "List.find (\<lambda>(e, _). passes_filters k None e)
      (nearest_entries ss v 1 k None (map (\<lambda>(_, e). (e, point_vec ss e)) ps)) = Some (e, s)"
    unfolding sqlite_nearest_def by (cases "ss_embed ss t") simp_all
  then have "(e, s) \<in> set (nearest_entries ss v 1 k None (map (\<lambda>(_, e). (e, point_vec ss e)) ps))"
    unfolding find_Some_iff by (metis nth_mem)
  then obtain w where "(e, w) \<in> set (map (\<lambda>(_, e). (e, point_vec ss e)) ps)" using nearest_among by metis
  then show "e \<in> snd ` set ps" unfolding set_map by force
qed

interpretation sqlite_promotion:
  promotion_setting "pe\<lparr>pe_backend := sqlite_backend ss decay cap\<rparr>" global_collection for pe ss decay cap
proof unfold_locales
  show "honest_search (pe_backend (pe\<lparr>pe_backend := sqlite_backend ss decay cap\<rparr>))" by (simp add: sqlite_honest)
  show "global_collection \<noteq> candidates_collection" by (simp add: global_collection_def candidates_collection_def)
  show "\<not> is_scoped_collection global_collection" by code_simp
qed

end
