(* ===== verification/Promotion_Examples.thy ===== *)
theory Promotion_Examples
  imports Embedded_Laws Scope_Examples
begin

text \<open>
  A small instance: two organizations learn the same lesson, a scan queues it, a human approves
  it, and one organization withdraws.  The witnesses of the guarantees of promotion and of the
  SQLite store are read off it.
\<close>

section \<open>An instance\<close>

text \<open>Services that embed every text alike, and write exactly the payload of the lesson below.\<close>

definition lesson_text :: string where "lesson_text = ''retry once on a timeout''"

definition demo_lesson :: memory_entry where "demo_lesson = fresh_entry lesson_text ''tactical'' 0"

definition demo_services :: sqlite_services where
  "demo_services =
     \<lparr>ss_uuid = (\<lambda>s. s), ss_embed = (\<lambda>_. Inr []),
      ss_dumps = (\<lambda>d. if d = to_payload demo_lesson then Inr ''lesson'' else Inl (OtherErr ''TypeError'')),
      ss_loads = (\<lambda>s. if s = ''lesson'' then Inr (to_payload demo_lesson) else Inl (OtherErr ''ValueError'')),
      ss_distance = (\<lambda>_ _. 0), ss_match = (\<lambda>_ _. Inr []), ss_now = 0\<rparr>"

definition demo_instance :: promotion_env where
  "demo_instance =
     \<lparr>pe_hash = plain_hash, pe_backend = sqlite_backend demo_services (\<lambda>_. 1) (\<lambda>t _. t), pe_order = (\<lambda>xs. xs),
      pe_rewriter = None, pe_similarity = 9 / 10, pe_min_orgs = 2, pe_str = (\<lambda>_. [])\<rparr>"

definition at_org :: "string \<Rightarrow> scoped_memory" where
  "at_org org = scoped_from_store \<lparr>sc_user = ''ann'', sc_org = org, sc_project = None, sc_aliases = []\<rparr> None"

definition learn :: "pyval writer" where
  "learn ps = (case upsert (pe_backend demo_instance) demo_lesson ps of (r, qs) \<Rightarrow> (case r of Inl x \<Rightarrow> Inl x | Inr _ \<Rightarrow> Inr VNone, qs))"

section \<open>A history\<close>

text \<open>Ann's runs at two organizations learn the lesson; then a scan, and an approval.\<close>

definition org_handle :: "string \<Rightarrow> handle" where
  "org_handle org =
     \<lparr>hd_name = org_prefix @ ''org/'' @ org, hd_bound = Some (sm_scope (at_org org))\<rparr>"

definition after_acme :: collections where
  "after_acme = snd (guarded plain_hash no_context (org_handle ''acme'') learn [(hd_name (org_handle ''acme''), [])])"

definition after_both :: collections where
  "after_both = snd (guarded plain_hash no_context (org_handle ''other'') learn (after_acme @ [(hd_name (org_handle ''other''), [])]))"

definition after_scan :: collections where
  "after_scan = snd (scan_orgs demo_instance no_context after_both)"

definition after_approval :: collections where
  "after_approval = snd (approve demo_instance no_context [] global_collection after_scan)"

lemma routed_acme:
  "route plain_hash no_context (at_org ''acme'') None lesson_text None (Some (tag_name Org)) []
   = (Inr (Org, org_handle ''acme'', (at_org ''acme'')\<lparr>sm_opened := [Org]\<rparr>), [(hd_name (org_handle ''acme''), [])])"
  by code_simp

lemma learned_acme: "after_acme = [(hd_name (org_handle ''acme''), [(entry_id (\<lambda>s. s) demo_lesson, demo_lesson)])]"
  by code_simp

lemma routed_other:
  "route plain_hash no_context (at_org ''other'') None lesson_text None (Some (tag_name Org)) after_acme
   = (Inr (Org, org_handle ''other'', (at_org ''other'')\<lparr>sm_opened := [Org]\<rparr>), after_acme @ [(hd_name (org_handle ''other''), [])])"
  unfolding learned_acme by code_simp

lemma demo_hash: "pe_hash demo_instance = plain_hash" by (simp add: demo_instance_def)

lemma history: "reachable demo_instance global_collection after_approval"
proof -
  have ok: "scope_ok (sm_scope (at_org ''acme''))" "scope_ok (sm_scope (at_org ''other''))" by code_simp+
  have "promo_step demo_instance global_collection [] after_acme"
    unfolding after_acme_def demo_hash[symmetric]
    by (rule promo_step.Routed[OF ok(1) routed_acme[folded demo_hash]])
  moreover have "promo_step demo_instance global_collection after_acme after_both"
    unfolding after_both_def demo_hash[symmetric]
    by (rule promo_step.Routed[OF ok(2) routed_other[folded demo_hash]])
  ultimately show ?thesis
    unfolding after_approval_def after_scan_def
    by (meson converse_rtranclp_into_rtranclp promo_step.Approve promo_step.Scan rtranclp.rtrancl_refl)
qed

theorem shared_only_by_approval_witness:
  "\<Union> (set ` ran (map_of (filter (\<lambda>c. fst c = global_collection) after_approval)))
   \<subseteq> {(i, e). me_verification e = ''human_verified'' \<and> (\<exists>names. is_clean demo_instance names (me_text e))
       \<and> (\<exists>n. dict_get (me_payload e) ''source_orgs'' = VInt (int n) \<and> 2 \<le> n)}"
proof -
  have "honest_search (pe_backend demo_instance)" by (simp add: demo_instance_def sqlite_honest)
  moreover have "global_collection \<noteq> candidates_collection" "\<not> is_scoped_collection global_collection" by code_simp+
  moreover have "pe_min_orgs demo_instance = 2" by (simp add: demo_instance_def)
  ultimately have all: "me_verification e = ''human_verified'' \<and> (\<exists>names. is_clean demo_instance names (me_text e))
     \<and> (\<exists>n. dict_get (me_payload e) ''source_orgs'' = VInt (int n) \<and> 2 \<le> n)"
    if "map_of after_approval global_collection = Some ps" "(i, e) \<in> set ps" for ps i e
    using that shared_only_by_approval[OF _ _ _ history] by metis
  have only: "map_of (filter (\<lambda>c. fst c = global_collection) cs) c
      = (if c = global_collection then map_of cs c else None)" for cs :: collections and c
    by (induction cs) auto
  show ?thesis using all by (auto simp: ran_def only split: if_splits)
qed

section \<open>A decision and a withdrawal\<close>

definition queued_lesson :: memory_entry where
  "queued_lesson = demo_lesson\<lparr>me_session_ids := [''org/acme'', ''org/other''], me_source_session_ids := [''org/acme'', ''org/other'']\<rparr>"

definition queue_of :: "memory_entry \<Rightarrow> points" where "queue_of e = [(entry_id (\<lambda>s. s) e, e)]"

definition with_queue :: collections where
  "with_queue = [(''fabri_o_org/acme'', queue_of demo_lesson), (candidates_collection, queue_of queued_lesson)]"

theorem approval_sound_witness:
  "\<exists>gs e. map_of (snd (approve demo_instance no_context [] global_collection with_queue)) global_collection = Some gs
     \<and> map_of gs (ident demo_instance e) = Some e \<and> me_text e = lesson_text"
proof -
  have "approve demo_instance no_context [] global_collection with_queue
      = (Inr (promoted_entry queued_lesson 0), snd (approve demo_instance no_context [] global_collection with_queue))"
    by code_simp
  moreover have "global_collection \<noteq> candidates_collection" by code_simp
  ultimately obtain ps e gs where "map_of with_queue candidates_collection = Some ps" "e \<in> snd ` set ps"
    "me_text (promoted_entry queued_lesson 0) = me_text e"
    "map_of (snd (approve demo_instance no_context [] global_collection with_queue)) global_collection = Some gs"
    "map_of gs (ident demo_instance (promoted_entry queued_lesson 0)) = Some (promoted_entry queued_lesson 0)"
    using approval_sound by metis
  moreover have "me_text (promoted_entry queued_lesson 0) = lesson_text" by code_simp
  ultimately show ?thesis by metis
qed


text \<open>The name stands inside another word, so the check is silent and the text may pass.\<close>

theorem leak_check_finds_names_witness:
  "(''m'' \<noteq> [] \<and> letter_or_digit (last ''m'')) \<or> (''er'' \<noteq> [] \<and> letter_or_digit (hd ''er''))"
proof (rule leak_check_finds_names)
  show "leak_check (\<lambda>xs. xs) ''manner'' [''ann''] = []" by code_simp
  show "set xs = set xs" for xs :: "string list" by (rule refl)
  show "''ann'' \<in> set [''ann'']" by simp
  show "2 \<le> length (strip ''ann'')" by code_simp
  show "''manner'' = ''m'' @ ''ann'' @ ''er''" by simp
  show "same_letters ''ann'' (strip ''ann'')" by code_simp
qed

section \<open>The store\<close>

lemma demo_storable: "storable demo_lesson"
proof -
  have "post_init demo_lesson = demo_lesson" "me_payload demo_lesson = []" "me_resolution demo_lesson = None" by code_simp+
  then show ?thesis by (simp add: storable_def)
qed

lemma demo_roundtrip: "json_roundtrip demo_services"
  unfolding json_roundtrip_def demo_services_def sqlite_services.select_convs
  by (intro allI impI) (simp only: split: if_splits; simp)

theorem sqlite_implements_map_witness:
  "db_get demo_services (entry_id (\<lambda>s. s) demo_lesson) (fold (db_run demo_services) [Put demo_lesson] fresh_db)
   = Inr (fold (map_run demo_services) [Put demo_lesson] Map.empty (entry_id (\<lambda>s. s) demo_lesson))"
  using sqlite_implements_map[OF demo_roundtrip, of "[Put demo_lesson]"] demo_storable by simp

theorem sqlite_search_sound_witness:
  "\<exists>found_entries. db_query_by_vector demo_services [] 3 (Some ''tactical'') None
       (db_run demo_services (Put demo_lesson) fresh_db) = Inr found_entries \<and> length found_entries \<le> 3"
  using sqlite_search_sound[of demo_services "db_run demo_services (Put demo_lesson) fresh_db" "[]" 3 "Some ''tactical''" None]
    run_refines[OF demo_roundtrip fresh_ok(1), of "Put demo_lesson"] demo_storable by blast

section \<open>Divergences\<close>

text \<open>The first word of a text is taken for a name, although it begins a sentence.\<close>

theorem first_word_scrubbed: "scrub_proper_nouns ''Deploy it. Ship now'' = ''<name> it. Ship now''"
  by code_simp

end
