(* ===== verification/Conventions.thy ===== *)
theory Conventions
  imports Memory_Ingest Entry_Payload Scopes Regex
begin

text \<open>
  Conventions (\<open>src/fabri/memory/conventions.py\<close>): conditional response mappings that are
  admitted to the memory or quarantined, never silently changed.  Canonical JSON, SHA-256 and
  the tokenizer are parameters; a float that arithmetic would overflow stays a rational.
\<close>

section \<open>Constants\<close>

definition config_origins :: "string list" where "config_origins = [''company_config'', ''agency_config'']"
definition mined_origins :: "string list" where "mined_origins = [''task'', ''model'', ''tool'']"
definition convention_origins :: "string list" where "convention_origins = config_origins @ mined_origins"
definition convention_scopes :: "string list" where "convention_scopes = [''agent'', ''agency'', ''company'']"

definition scope_breadth :: "string \<Rightarrow> nat option" where
  "scope_breadth s = map_of [(''agent'', 0), (''agency'', 1), (''company'', 2)] s"

definition source_max_scope :: "string \<Rightarrow> string option" where
  "source_max_scope s = map_of [(''agency_config'', ''agency''), (''company_config'', ''company'')] s"

definition hard_effects :: "string list" where "hard_effects = [''response_mapping'']"
definition active_tiers :: "string list" where "active_tiers = [''retrieve'', ''core'']"

section \<open>Prohibited content\<close>

text \<open>\<open>[\s_-]*\<close> and \<open>[\s_-]+\<close>.\<close>

definition joint :: "char \<Rightarrow> bool" where "joint c \<longleftrightarrow> is_space c \<or> c \<in> set ''_-''"

abbreviation any_gap :: regex where "any_gap \<equiv> zero_or_more (Sat joint)"
abbreviation some_gap :: regex where "some_gap \<equiv> one_or_more (Sat joint)"
abbreviation maybe_a :: regex where "maybe_a \<equiv> optional (seqs [ilit ''a'', some_gap])"
abbreviation maybe_the :: regex where "maybe_the \<equiv> optional (seqs [ilit ''the'', some_gap])"

definition path_start :: regex where
  "path_start =
     alts [AtStart, Sat (\<lambda>c. is_space c \<or> c \<in> {CHR 0x22, CHR 0x27, CHR ''='', CHR '':'', CHR ''/'', CHR 0x5C})]"

definition path_head :: regex where
  "path_head =
     alts [seqs [between 0 2 (ilit ''.''), ilit ''/''], seqs [optional (ilit ''~''), ilit ''/''],
           seqs [Sat letter_az, ilit '':'', ilit [CHR 0x5C]]]"

definition prohibited_regexes :: "regex list" where
  "prohibited_regexes =
     [seqs [Boundary, ilit ''tool'', any_gap, any_word [''call'', ''use'', ''invocation''], Boundary],
      seqs [ilit ([CHR 0x22] @ ''tool'' @ [CHR 0x22]), zero_or_more (Sat is_space), ilit '':''],
      seqs [Boundary, any_word [''call'', ''invoke'', ''run'', ''execute''], some_gap, maybe_a, ilit ''tool'', Boundary],
      seqs [Boundary, ilit ''function'', any_gap, ilit ''call'', Boundary],
      seqs [Boundary, ilit ''spawn'', any_gap, ilit ''subagent'', Boundary],
      seqs [Boundary, ilit ''delegat'', any_word [''e'', ''ion'', ''ing''], Boundary],
      seqs [Boundary, ilit ''hand'', any_gap, ilit ''off'', Boundary],
      seqs [Boundary, any_word [''company'', ''agency'', ''agent''], any_gap, ilit ''config'', Boundary],
      seqs [Boundary, ilit ''config'', optional (ilit ''uration''), any_gap,
            any_word [''path'', ''file'', ''write'', ''edit'', ''update''], Boundary],
      seqs [path_start, path_head, one_or_more (Sat (\<lambda>c. \<not> is_space c \<and> c \<noteq> CHR 0x22 \<and> c \<noteq> CHR 0x27))],
      seqs [ilit ''.'', alts [seqs [ilit ''y'', optional (ilit ''a''), ilit ''ml''], ilit ''toml'', ilit ''ini'', ilit ''cfg'',
                              ilit ''conf'', ilit ''env''], alts [Boundary, AtFinish]],
      seqs [Boundary, alts [ilit ''credential'', ilit ''password'', ilit ''passwd'', seqs [ilit ''api'', any_gap, ilit ''key''],
                            seqs [ilit ''access'', any_gap, ilit ''token''], ilit ''secret''], Boundary],
      seqs [Boundary, any_word [''read'', ''write'', ''create'', ''delete'', ''remove'', ''mutate'', ''edit''], any_gap,
            maybe_a, ilit ''file'', Boundary],
      seqs [Boundary, ilit ''file'', any_gap, any_word [''mutation'', ''write'', ''delete'', ''creation'', ''path''], Boundary],
      seqs [Boundary, ilit ''filesystem'', Boundary],
      seqs [ilit ''http'', optional (ilit ''s''), ilit ''://''],
      seqs [Boundary, alts [seqs [ilit ''network'', any_gap, any_word [''call'', ''request'', ''action'']], ilit ''webhook'',
                            ilit ''curl'', ilit ''wget''], Boundary],
      seqs [Boundary, any_word [''bypass'', ''skip'', ''disable'', ''override'', ''ignore''], any_gap, maybe_the,
            ilit ''approval'', Boundary],
      seqs [Boundary, ilit ''approval'', any_gap, ilit ''bypass'', Boundary]]"

definition prohibited_regex :: regex where "prohibited_regex = alts prohibited_regexes"

section \<open>Records\<close>

record convention_rec =
  cv_scope_of :: string
  cv_key :: string
  cv_version :: string
  cv_effect :: string
  cv_conditions :: "pydict list"
  cv_branches :: "pydict list"
  cv_origin :: string
  cv_provenance :: string
  cv_created :: rat
  cv_expires :: "pyfloat option"
  cv_supersedes :: "string option"
  cv_schema :: pydict

record convention_services =
  cs_json :: "pyval \<Rightarrow> raised + string"
  cs_sha :: "string \<Rightarrow> string"
  cs_tokens :: "string \<Rightarrow> nat"
  cs_backend :: ingest_backend

definition convention_dict :: "convention_rec \<Rightarrow> pydict" where
  "convention_dict r =
     [(KStr ''scope'', VStr (cv_scope_of r)), (KStr ''key'', VStr (cv_key r)), (KStr ''version'', VStr (cv_version r)),
      (KStr ''effect_class'', VStr (cv_effect r)), (KStr ''conditions'', VList (map VDict (cv_conditions r))),
      (KStr ''branches'', VList (map VDict (cv_branches r))), (KStr ''origin'', VStr (cv_origin r)),
      (KStr ''provenance'', VStr (cv_provenance r)), (KStr ''created_at'', VFloat (Fin (cv_created r))),
      (KStr ''expires_at'', case cv_expires r of None \<Rightarrow> VNone | Some f \<Rightarrow> VFloat f),
      (KStr ''supersedes'', case cv_supersedes r of None \<Rightarrow> VNone | Some s \<Rightarrow> VStr s),
      (KStr ''response_schema'', VDict (cv_schema r))]"

definition canonical_record :: "convention_services \<Rightarrow> convention_rec \<Rightarrow> raised + string" where
  "canonical_record sv r = cs_json sv (VDict (convention_dict r))"

definition mapping_hash :: "convention_services \<Rightarrow> convention_rec \<Rightarrow> raised + string" where
  "mapping_hash sv r =
     ebind (cs_json sv (VDict [(KStr ''conditions'', VList (map VDict (cv_conditions r))),
                               (KStr ''branches'', VList (map VDict (cv_branches r)))]))
       (\<lambda>s. Inr (cs_sha sv s))"

definition approval_key :: "convention_services \<Rightarrow> convention_rec \<Rightarrow> raised + pyval list" where
  "approval_key sv r =
     ebind (mapping_hash sv r)
       (\<lambda>h. Inr [VStr (cv_scope_of r), VStr (cv_key r), VStr (cv_version r), VStr h])"

section \<open>Configuration\<close>

definition memory_section :: "pydict \<Rightarrow> pydict" where
  "memory_section c = (case dict_get c ''memory'' of VDict m \<Rightarrow> m | _ \<Rightarrow> c)"

definition configured_list :: "pydict \<Rightarrow> string \<Rightarrow> pyval list" where
  "configured_list c k = (case dict_get_default c k (VList []) of VList xs \<Rightarrow> xs | _ \<Rightarrow> [])"

text \<open>\<open>set(xs)\<close>, as the list of its elements: an unhashable one raises.\<close>

definition set_of :: "pyval list \<Rightarrow> raised + pyval list" where
  "set_of xs = (if \<exists>x \<in> set xs. is_list x \<or> is_dict x then Inl (OtherErr ''TypeError'') else Inr xs)"

definition int_setting :: "pydict \<Rightarrow> string \<Rightarrow> int \<Rightarrow> raised + int" where
  "int_setting c k d = int_of (dict_get_default c k (VInt d))"

text \<open>\<open>float(v)\<close>.\<close>

definition float_value :: "pyval \<Rightarrow> raised + pyfloat" where
  "float_value v =
     (case v of
        VFloat f \<Rightarrow> Inr f
      | VInt i \<Rightarrow> if float_limit \<le> \<bar>i\<bar> then Inl (OtherErr ''OverflowError'') else Inr (Fin (of_int i))
      | VBool b \<Rightarrow> Inr (Fin (if b then 1 else 0))
      | VStr s \<Rightarrow> (case py_float s of None \<Rightarrow> Inl (ValueErr ''could not convert string to float'') | Some f \<Rightarrow> Inr f)
      | _ \<Rightarrow> Inl (OtherErr ''TypeError''))"

section \<open>Approval\<close>

definition approval_candidate :: "pyval \<Rightarrow> pyval list option" where
  "approval_candidate a =
     (case a of
        VDict d \<Rightarrow> Some [dict_get d ''scope'', dict_get d ''key'', dict_get d ''version'', dict_get d ''branch_mapping_hash'']
      | VList xs \<Rightarrow> Some xs
      | _ \<Rightarrow> None)"

definition approval_matches :: "convention_services \<Rightarrow> convention_rec \<Rightarrow> pyval list \<Rightarrow> raised + bool" where
  "approval_matches sv r approvals =
     ebind (approval_key sv r) (\<lambda>k. Inr (\<exists>a \<in> set approvals. approval_candidate a = Some k))"

definition config_scope_allowed :: "string \<Rightarrow> string \<Rightarrow> bool" where
  "config_scope_allowed origin s =
     (case (Option.bind (source_max_scope origin) scope_breadth, scope_breadth s) of
        (Some m, Some b) \<Rightarrow> b \<le> m
      | _ \<Rightarrow> False)"

section \<open>Validation\<close>

text \<open>The errors of \<open>json.dumps\<close> that the code handles.\<close>

definition json_error :: "raised \<Rightarrow> bool" where
  "json_error x \<longleftrightarrow> (case x of ValueErr _ \<Rightarrow> True | OtherErr s \<Rightarrow> s = ''TypeError'' | _ \<Rightarrow> False)"

definition dashes_spaced :: "string \<Rightarrow> string" where
  "dashes_spaced = map (\<lambda>c. if c \<in> set ''_-'' then CHR '' '' else c)"

definition value_prohibited :: "convention_services \<Rightarrow> pyval \<Rightarrow> raised + bool" where
  "value_prohibited sv v =
     (case cs_json sv v of
        Inl x \<Rightarrow> if json_error x then Inr True else Inl x
      | Inr s \<Rightarrow> Inr (found prohibited_regex (dashes_spaced s)))"

fun any_prohibited :: "convention_services \<Rightarrow> pyval list \<Rightarrow> raised + bool" where
  "any_prohibited sv [] = Inr False"
| "any_prohibited sv (v # vs) = ebind (value_prohibited sv v) (\<lambda>b. if b then Inr True else any_prohibited sv vs)"

text \<open>The id of a condition, \<open>None\<close> where it is not a well-formed one.\<close>

definition condition_id :: "pydict \<Rightarrow> string option" where
  "condition_id c =
     (if set (map fst c) \<noteq> {KStr ''branch_id'', KStr ''condition_text''} then None
      else case (dict_get c ''branch_id'', dict_get c ''condition_text'') of
             (VStr i, VStr _) \<Rightarrow> Some i
           | _ \<Rightarrow> None)"

fun condition_ids :: "pydict list \<Rightarrow> string list option" where
  "condition_ids [] = Some []"
| "condition_ids (c # cs) =
     (case condition_id c of None \<Rightarrow> None | Some i \<Rightarrow> map_option ((#) i) (condition_ids cs))"

text \<open>The id of a branch, or the reason why it is refused.\<close>

definition branch_id :: "convention_services \<Rightarrow> pydict \<Rightarrow> pydict \<Rightarrow> raised + (string + string)" where
  "branch_id sv schema b =
     (if set (map fst b) \<noteq> {KStr ''branch_id'', KStr ''fields''} then Inr (Inl ''invalid_branch_mapping'')
      else case (dict_get b ''branch_id'', dict_get b ''fields'') of
             (VStr i, VDict f) \<Rightarrow>
               if \<not> set (map fst f) \<subseteq> set (map fst schema) then Inr (Inl ''effect_class_not_allowed'')
               else ebind (any_prohibited sv (map snd f))
                      (\<lambda>bad. Inr (if bad then Inl ''effect_class_not_allowed'' else Inr i))
           | _ \<Rightarrow> Inr (Inl ''invalid_branch_mapping''))"

fun branch_ids :: "convention_services \<Rightarrow> pydict \<Rightarrow> pydict list \<Rightarrow> raised + (string + string list)" where
  "branch_ids sv schema [] = Inr (Inr [])"
| "branch_ids sv schema (b # bs) =
     ebind (branch_id sv schema b) (\<lambda>r. case r of
        Inl reason \<Rightarrow> Inr (Inl reason)
      | Inr i \<Rightarrow> ebind (branch_ids sv schema bs) (\<lambda>r. Inr (case r of Inl reason \<Rightarrow> Inl reason | Inr is \<Rightarrow> Inr (i # is))))"

definition allowed_effects :: "pydict \<Rightarrow> raised + pyval list" where
  "allowed_effects m =
     (if dict_lookup m ''convention_allowed_effect_classes'' \<noteq> None
      then set_of (configured_list m ''convention_allowed_effect_classes'')
      else Inr [VStr ''response_mapping''])"

definition quarantine_reason :: "convention_services \<Rightarrow> pydict \<Rightarrow> convention_rec \<Rightarrow> raised + string option" where
  "quarantine_reason sv config r =
     (let m = memory_section config in
      ebind (allowed_effects m) (\<lambda>effects.
        if cv_effect r \<notin> set hard_effects \<or> VStr (cv_effect r) \<notin> set effects then Inr (Some ''effect_class_not_allowed'')
        else if cv_origin r \<notin> set convention_origins \<or> cv_scope_of r \<notin> set convention_scopes
        then Inr (Some ''invalid_record'')
        else ebind (int_setting m ''convention_max_branches'' 8) (\<lambda>max_branches.
          if \<not> (2 \<le> int (length (cv_branches r)) \<and> int (length (cv_branches r)) \<le> max_branches)
          then Inr (Some ''branch_count_out_of_bounds'')
          else case condition_ids (cv_conditions r) of
            None \<Rightarrow> Inr (Some ''invalid_branch_mapping'')
          | Some cids \<Rightarrow> ebind (branch_ids sv (cv_schema r) (cv_branches r)) (\<lambda>res. case res of
              Inl reason \<Rightarrow> Inr (Some reason)
            | Inr bids \<Rightarrow>
                if \<not> distinct cids \<or> \<not> distinct bids \<or> set cids \<noteq> set bids
                then Inr (Some ''invalid_branch_mapping'')
                else ebind (int_setting m ''convention_max_tokens'' 384) (\<lambda>max_tokens.
                  case canonical_record sv r of
                    Inl x \<Rightarrow> if json_error x then Inr (Some ''invalid_record'') else Inl x
                  | Inr s \<Rightarrow> Inr (if max_tokens < int (cs_tokens sv s) then Some ''token_budget_exceeded'' else None))))))"

section \<open>Stored conventions\<close>

definition stored_record :: "memory_entry \<Rightarrow> pydict option" where
  "stored_record e = (case dict_get (me_payload e) ''record'' of VDict d \<Rightarrow> Some d | _ \<Rightarrow> None)"

fun float_le :: "pyfloat \<Rightarrow> pyfloat \<Rightarrow> bool" where
  "float_le NaN _ = False"
| "float_le _ NaN = False"
| "float_le NegInf _ = True"
| "float_le _ PosInf = True"
| "float_le (Fin x) (Fin y) = (x \<le> y)"
| "float_le _ _ = False"

definition record_expired :: "pydict \<Rightarrow> rat \<Rightarrow> bool" where
  "record_expired d now =
     (case dict_get d ''expires_at'' of
        VInt i \<Rightarrow> of_int i \<le> now
      | VFloat f \<Rightarrow> float_le f (Fin now)
      | _ \<Rightarrow> False)"

definition is_superseded :: "memory_entry \<Rightarrow> bool" where
  "is_superseded e \<longleftrightarrow> dict_get (me_payload e) ''status'' = VStr ''superseded''"

definition active_convention :: "string \<Rightarrow> rat \<Rightarrow> memory_entry \<Rightarrow> bool" where
  "active_convention scope now e \<longleftrightarrow>
     me_kind e = ''convention'' \<and> me_scope e = scope \<and> me_tier e \<in> set active_tiers
     \<and> (case stored_record e of None \<Rightarrow> False | Some d \<Rightarrow> \<not> record_expired d now) \<and> \<not> is_superseded e"

definition active_conventions :: "string \<Rightarrow> rat \<Rightarrow> memory_entry list \<Rightarrow> memory_entry list" where
  "active_conventions scope now es = filter (active_convention scope now) es"

definition droppable :: "string \<Rightarrow> rat \<Rightarrow> memory_entry \<Rightarrow> bool" where
  "droppable scope now e \<longleftrightarrow>
     me_kind e = ''convention'' \<and> me_scope e = scope
     \<and> (case stored_record e of None \<Rightarrow> False | Some d \<Rightarrow> record_expired d now \<or> is_superseded e)"

definition convention_entry_id :: "convention_services \<Rightarrow> memory_entry \<Rightarrow> string" where
  "convention_entry_id sv e = entry_id (be_uuid (cs_backend sv)) e"

definition drop_inactive ::
  "convention_services \<Rightarrow> string \<Rightarrow> rat \<Rightarrow> memory_entry list \<Rightarrow> memory_entry list writer" where
  "drop_inactive sv scope now es =
     wbind (delete_entries (cs_backend sv) (filter (droppable scope now) es))
       (\<lambda>_. wreturn (filter (\<lambda>e. \<not> droppable scope now e) es))"

definition supersession_target ::
  "convention_services \<Rightarrow> memory_entry list \<Rightarrow> convention_rec \<Rightarrow> rat \<Rightarrow> (memory_entry \<times> pydict) option" where
  "supersession_target sv es r now =
     (case List.map_filter (\<lambda>e. case stored_record e of
              None \<Rightarrow> None
            | Some d \<Rightarrow>
                if (dict_get d ''version'' = opt_str (cv_supersedes r) \<or> Some (convention_entry_id sv e) = cv_supersedes r)
                   \<and> dict_get d ''scope'' = VStr (cv_scope_of r) \<and> dict_get d ''key'' = VStr (cv_key r)
                then Some (e, d) else None) (active_conventions (cv_scope_of r) now es) of
        [t] \<Rightarrow> Some t
      | _ \<Rightarrow> None)"

section \<open>Verdicts\<close>

datatype authority = ByHuman | ByConfig

record admission =
  vd_reason :: "string option"
  vd_verification :: string
  vd_tier :: string
  vd_authority :: "authority option"

definition refused :: "string \<Rightarrow> admission" where
  "refused reason =
     \<lparr>vd_reason = Some reason, vd_verification = ''unverified'', vd_tier = ''quarantine'', vd_authority = None\<rparr>"

definition admitted_by :: "authority \<Rightarrow> admission" where
  "admitted_by a =
     \<lparr>vd_reason = None,
      vd_verification = (case a of ByHuman \<Rightarrow> ''human_verified'' | ByConfig \<Rightarrow> ''config_verified''),
      vd_tier = ''retrieve'', vd_authority = Some a\<rparr>"

definition first_verdict :: "convention_services \<Rightarrow> pydict \<Rightarrow> convention_rec \<Rightarrow> raised + admission" where
  "first_verdict sv m r =
     ebind (quarantine_reason sv m r) (\<lambda>reason.
     ebind (if reason = None then approval_matches sv r (configured_list m ''convention_approvals'') else Inr False) (\<lambda>human.
     ebind (set_of (configured_list m ''convention_trusted_sources'')) (\<lambda>trusted.
       let config_verified = (cv_origin r \<in> set config_origins \<and> VStr (cv_origin r) \<in> set trusted
                              \<and> config_scope_allowed (cv_origin r) (cv_scope_of r)) in
       Inr (case reason of
              Some x \<Rightarrow> refused x
            | None \<Rightarrow>
                if \<not> truthy (dict_get_default m ''convention_mining_enabled'' (VBool False))
                then refused ''convention_mining_disabled''
                else if human then admitted_by ByHuman
                else if config_verified then admitted_by ByConfig
                else if cv_origin r \<in> set config_origins then refused ''untrusted_config_source''
                else refused ''approval_required''))))"

text \<open>\<open>now + ttl_days * 86400\<close>.\<close>

definition expiry :: "rat \<Rightarrow> pyfloat \<Rightarrow> pyfloat" where
  "expiry now ttl = (case ttl of Fin d \<Rightarrow> Fin (now + d * 86400) | f \<Rightarrow> f)"

definition with_expiry ::
  "convention_services \<Rightarrow> pydict \<Rightarrow> convention_rec \<Rightarrow> admission \<Rightarrow> raised + convention_rec \<times> admission" where
  "with_expiry sv m r v =
     (let now = be_now (cs_backend sv) in
      if vd_tier v \<noteq> ''retrieve'' then Inr (r, v)
      else case cv_expires r of
        None \<Rightarrow>
          ebind (float_value (dict_get_default m ''convention_default_ttl_days'' (VInt 180))) (\<lambda>ttl.
            let r' = r\<lparr>cv_expires := Some (expiry now ttl)\<rparr> in
            ebind (quarantine_reason sv m r') (\<lambda>reason.
              Inr (case reason of Some x \<Rightarrow> (r, refused x) | None \<Rightarrow> (r', v))))
      | Some f \<Rightarrow> Inr (r, if float_le f (Fin now) then refused ''expired'' else v))"

definition supersession ::
  "convention_services \<Rightarrow> memory_entry list \<Rightarrow> convention_rec \<Rightarrow> admission \<Rightarrow> admission \<times> (memory_entry \<times> pydict) option" where
  "supersession sv es r v =
     (if cv_supersedes r = None \<or> vd_reason v \<notin> {None, Some ''approval_required'', Some ''untrusted_config_source''}
      then (v, None)
      else let target = supersession_target sv es r (be_now (cs_backend sv));
               mismatch = (case target of
                   Some (_, d) \<Rightarrow> vd_authority v = Some ByConfig
                     \<and> \<not> (dict_get d ''origin'' = VStr (cv_origin r) \<and> dict_get d ''provenance'' = VStr (cv_provenance r))
                 | None \<Rightarrow> False) in
           if vd_tier v \<noteq> ''retrieve'' \<or> vd_authority v = None \<or> mismatch
           then (refused ''supersession_not_authorized'', None)
           else case target of
             None \<Rightarrow> (refused ''supersession_conflict'', None)
           | Some (e, d) \<Rightarrow>
               if VStr (cv_version r) = dict_get d ''version'' then (refused ''supersession_conflict'', None)
               else (v, target))"

section \<open>Ingestion\<close>

definition entry_for :: "convention_services \<Rightarrow> convention_rec \<Rightarrow> admission \<Rightarrow> raised + memory_entry" where
  "entry_for sv r v =
     ebind (mapping_hash sv r) (\<lambda>h.
     ebind (approval_key sv r) (\<lambda>k.
     ebind (canonical_record sv r) (\<lambda>s.
       Inr (post_init ((fresh_entry s ''convention'' (cv_created r))
         \<lparr>me_scope := cv_scope_of r, me_verification := vd_verification v, me_tier := vd_tier v,
          me_payload :=
            [(KStr ''record'', VDict (convention_dict r)), (KStr ''branch_mapping_hash'', VStr h),
             (KStr ''approval_key'', VList k),
             (KStr ''status'', VStr (if vd_tier v \<in> set active_tiers then ''active'' else ''quarantine''))]
            @ (case vd_reason v of None \<Rightarrow> [] | Some x \<Rightarrow> [(KStr ''quarantine_reason'', VStr x)])\<rparr>)))))"

text \<open>The quota of a scope; what is replaced does not count, and a candidate already active is an update.\<close>

definition quota ::
  "convention_services \<Rightarrow> pydict \<Rightarrow> memory_entry list \<Rightarrow> convention_rec \<Rightarrow> admission \<Rightarrow> (memory_entry \<times> pydict) option
     \<Rightarrow> raised + admission \<times> (memory_entry \<times> pydict) option" where
  "quota sv m es r v target =
     (if vd_tier v \<noteq> ''retrieve'' then Inr (v, target)
      else let ids = remdups (filter (\<lambda>i. Some i \<noteq> map_option (convention_entry_id sv \<circ> fst) target)
                       (map (convention_entry_id sv) (active_conventions (cv_scope_of r) (be_now (cs_backend sv)) es))) in
           ebind (entry_for sv r (v\<lparr>vd_reason := None\<rparr>)) (\<lambda>candidate.
           ebind (int_setting m ''convention_max_entries'' 256) (\<lambda>max_entries.
             Inr (if convention_entry_id sv candidate \<notin> set ids \<and> max_entries \<le> int (length ids)
                  then (refused ''quota_exceeded'', None) else (v, target)))))"

definition lift :: "raised + 'a \<Rightarrow> 'a writer" where
  "lift x ps = (x, ps)"

definition stored_conventions :: "memory_entry list writer" where
  "stored_conventions ps = (Inr (filter (\<lambda>e. me_kind e = ''convention'') (map snd ps)), ps)"

definition ingest_convention :: "convention_services \<Rightarrow> pydict \<Rightarrow> convention_rec \<Rightarrow> memory_entry writer" where
  "ingest_convention sv config r =
     (let m = memory_section config in
      wbind (lift (first_verdict sv m r)) (\<lambda>v.
      wbind (lift (with_expiry sv m r v)) (\<lambda>(r, v).
      wbind stored_conventions (\<lambda>es.
      wbind (if vd_tier v = ''retrieve'' then drop_inactive sv (cv_scope_of r) (be_now (cs_backend sv)) es else wreturn es) (\<lambda>es.
        case supersession sv es r v of (v, target) \<Rightarrow>
          wbind (lift (quota sv m es r v target)) (\<lambda>(v, target).
          wbind (lift (entry_for sv r v)) (\<lambda>e.
          wbind (upsert (cs_backend sv) e) (\<lambda>_.
          wbind (case target of
                   Some (old, _) \<Rightarrow> if vd_tier v = ''retrieve'' then delete_point (convention_entry_id sv old) else wreturn ()
                 | None \<Rightarrow> wreturn ()) (\<lambda>_.
            wreturn e)))))))))"

end
