(* ===== verification/Convention_Laws.thy ===== *)
theory Convention_Laws
  imports Conventions Ingest_Laws
begin

text \<open>
  What the ingestion of conventions guarantees: only verified, well-formed, unexpired records
  become active, and the number of active records of a scope stays within its quota.
\<close>

section \<open>Validation\<close>

definition branch_fields :: "pydict \<Rightarrow> pyval list" where
  "branch_fields b = (case dict_get b ''fields'' of VDict f \<Rightarrow> map snd f | _ \<Rightarrow> [])"

lemma any_prohibited_none:
  "any_prohibited sv vs = Inr False \<longleftrightarrow> (\<forall>v \<in> set vs. value_prohibited sv v = Inr False)"
  by (induction vs) (auto simp: ebind_def split: sum.splits if_splits)

lemma branch_id_Inr:
  assumes "branch_id sv schema b = Inr (Inr i)"
  shows "dict_get b ''branch_id'' = VStr i \<and> (\<forall>v \<in> set (branch_fields b). value_prohibited sv v = Inr False)"
proof -
  obtain j f where b: "dict_get b ''branch_id'' = VStr j" "dict_get b ''fields'' = VDict f"
    using assms unfolding branch_id_def
    by (cases "dict_get b ''branch_id''"; cases "dict_get b ''fields''") (simp_all split: if_splits)
  then have "any_prohibited sv (map snd f) = Inr False \<and> j = i"
    using assms unfolding branch_id_def
    by (cases "any_prohibited sv (map snd f)") (simp_all split: if_splits)
  then show ?thesis using b by (simp add: any_prohibited_none branch_fields_def)
qed

lemma branch_ids_Inr:
  "branch_ids sv schema bs = Inr (Inr is) \<Longrightarrow>
     map (\<lambda>b. dict_get b ''branch_id'') bs = map VStr is
     \<and> (\<forall>b \<in> set bs. \<forall>v \<in> set (branch_fields b). value_prohibited sv v = Inr False)"
proof (induction bs arbitrary: "is")
  case (Cons b bs)
  then obtain i js where b: "branch_id sv schema b = Inr (Inr i)" and bs: "branch_ids sv schema bs = Inr (Inr js)"
    and "is": "is = i # js" by (auto simp: ebind_def split: sum.splits)
  from Cons.IH[OF bs] branch_id_Inr[OF b] show ?case unfolding "is" by simp
qed simp

lemma condition_ids_Some:
  "condition_ids cs = Some is \<Longrightarrow> map (\<lambda>c. dict_get c ''branch_id'') cs = map VStr is"
  by (induction cs arbitrary: "is") (auto simp: condition_id_def split: option.splits if_splits pyval.splits)

text \<open>What a record that passes looks like.\<close>

definition sound_convention :: "convention_services \<Rightarrow> pydict \<Rightarrow> convention_rec \<Rightarrow> bool" where
  "sound_convention sv m r \<longleftrightarrow>
     cv_effect r = ''response_mapping'' \<and> 2 \<le> length (cv_branches r)
     \<and> distinct (map (\<lambda>b. dict_get b ''branch_id'') (cv_branches r))
     \<and> set (map (\<lambda>b. dict_get b ''branch_id'') (cv_branches r)) = set (map (\<lambda>c. dict_get c ''branch_id'') (cv_conditions r))
     \<and> (\<forall>b \<in> set (cv_branches r). \<forall>v \<in> set (branch_fields b).
           \<exists>s. cs_json sv v = Inr s \<and> \<not> found prohibited_regex (dashes_spaced s))
     \<and> (\<exists>s n. canonical_record sv r = Inr s \<and> int_setting m ''convention_max_tokens'' 384 = Inr n
           \<and> int (cs_tokens sv s) \<le> n)"

lemma value_allowed: "value_prohibited sv v = Inr False \<Longrightarrow>
    \<exists>s. cs_json sv v = Inr s \<and> \<not> found prohibited_regex (dashes_spaced s)"
  by (auto simp: value_prohibited_def split: sum.splits if_splits)

lemma reason_none:
  assumes "quarantine_reason sv m r = Inr None"
  shows "sound_convention sv (memory_section m) r"
proof -
  let ?m = "memory_section m"
  obtain effects where e: "allowed_effects ?m = Inr effects"
    using assms by (cases "allowed_effects ?m") (auto simp: quarantine_reason_def Let_def)
  obtain mb where mb: "int_setting ?m ''convention_max_branches'' 8 = Inr mb"
    using assms e by (cases "int_setting ?m ''convention_max_branches'' 8")
      (auto simp: quarantine_reason_def Let_def split: if_splits)
  have effect: "cv_effect r \<in> set hard_effects" and two: "2 \<le> int (length (cv_branches r))"
    using assms e mb by (auto simp: quarantine_reason_def Let_def split: if_splits)
  obtain cids where cids: "condition_ids (cv_conditions r) = Some cids"
    using assms e mb by (cases "condition_ids (cv_conditions r)") (auto simp: quarantine_reason_def Let_def split: if_splits)
  obtain bids where bids: "branch_ids sv (cv_schema r) (cv_branches r) = Inr (Inr bids)"
    using assms e mb cids by (cases "branch_ids sv (cv_schema r) (cv_branches r)")
      (auto simp: quarantine_reason_def Let_def split: if_splits sum.splits)
  have ids: "distinct bids" "set cids = set bids"
    using assms e mb cids bids by (auto simp: quarantine_reason_def Let_def split: if_splits)
  obtain n where n: "int_setting ?m ''convention_max_tokens'' 384 = Inr n"
    using assms e mb cids bids ids by (cases "int_setting ?m ''convention_max_tokens'' 384")
      (auto simp: quarantine_reason_def Let_def split: if_splits)
  obtain s where s: "canonical_record sv r = Inr s" "int (cs_tokens sv s) \<le> n"
    using assms e mb cids bids ids n by (cases "canonical_record sv r")
      (auto simp: quarantine_reason_def Let_def split: if_splits)
  have "distinct (map (\<lambda>b. dict_get b ''branch_id'') (cv_branches r))"
    and "set (map (\<lambda>b. dict_get b ''branch_id'') (cv_branches r)) = set (map (\<lambda>c. dict_get c ''branch_id'') (cv_conditions r))"
    using branch_ids_Inr[OF bids] condition_ids_Some[OF cids] ids
    by (simp_all add: distinct_map inj_on_def)
  moreover have "\<forall>b \<in> set (cv_branches r). \<forall>v \<in> set (branch_fields b).
           \<exists>s. cs_json sv v = Inr s \<and> \<not> found prohibited_regex (dashes_spaced s)"
    using branch_ids_Inr[OF bids] value_allowed by blast
  ultimately show ?thesis
    using effect two s n unfolding sound_convention_def by (simp add: hard_effects_def)
qed

section \<open>Verdicts\<close>

text \<open>Who vouches for an admitted record.\<close>

definition vouched :: "convention_services \<Rightarrow> pydict \<Rightarrow> convention_rec \<Rightarrow> admission \<Rightarrow> bool" where
  "vouched sv m r v \<longleftrightarrow>
     truthy (dict_get_default m ''convention_mining_enabled'' (VBool False)) \<and> vd_reason v = None
     \<and> (vd_verification v = ''human_verified''
          \<and> (\<exists>k a. approval_key sv r = Inr k \<and> a \<in> set (configured_list m ''convention_approvals'') \<and> approval_candidate a = Some k)
        \<or> vd_verification v = ''config_verified'' \<and> cv_origin r \<in> set config_origins
          \<and> VStr (cv_origin r) \<in> set (configured_list m ''convention_trusted_sources'')
          \<and> config_scope_allowed (cv_origin r) (cv_scope_of r))"

lemma refused_tier [simp]: "vd_tier (refused x) = ''quarantine''"
  by (simp add: refused_def)

lemma first_verdict_retrieve:
  assumes "first_verdict sv m r = Inr v" and "vd_tier v = ''retrieve''"
  shows "quarantine_reason sv m r = Inr None \<and> vouched sv m r v"
proof -
  obtain reason where reason: "quarantine_reason sv m r = Inr reason"
    using assms(1) by (cases "quarantine_reason sv m r") (auto simp: first_verdict_def)
  have none: "reason = None"
    using assms reason by (cases reason) (auto simp: first_verdict_def Let_def ebind_def split: sum.splits)
  then show ?thesis
    using assms reason
    by (auto simp: first_verdict_def Let_def ebind_def vouched_def admitted_by_def approval_matches_def set_of_def
        split: sum.splits if_splits)
qed

lemma approval_key_expiry: "approval_key sv (r\<lparr>cv_expires := x\<rparr>) = approval_key sv r"
  by (simp add: approval_key_def mapping_hash_def)

lemma vouched_expiry: "vouched sv m (r\<lparr>cv_expires := x\<rparr>) v = vouched sv m r v"
  by (simp add: vouched_def approval_key_expiry)

lemma with_expiry_retrieve:
  assumes "with_expiry sv m r v = Inr (r', v')" and "vd_tier v' = ''retrieve''"
    and "quarantine_reason sv m r = Inr None"
  shows "v' = v \<and> vd_tier v = ''retrieve'' \<and> quarantine_reason sv m r' = Inr None
    \<and> (r' = r \<and> (\<exists>f. cv_expires r = Some f \<and> \<not> float_le f (Fin (be_now (cs_backend sv))))
       \<or> cv_expires r = None \<and> (\<exists>ttl. r' = r\<lparr>cv_expires := Some (expiry (be_now (cs_backend sv)) ttl)\<rparr>))"
  using assms
  by (auto simp: with_expiry_def Let_def ebind_def split: if_splits option.splits sum.splits)

lemma supersession_retrieve:
  assumes "supersession sv es r v = (v', target)" and "vd_tier v' = ''retrieve''"
  shows "v' = v \<and> (cv_supersedes r \<noteq> None \<longrightarrow> target \<noteq> None \<or> vd_reason v \<noteq> None)"
proof -
  have "v' = v \<and> (cv_supersedes r = None \<or> vd_reason v \<noteq> None \<or> target \<noteq> None)"
  proof (cases "supersession_target sv es r (be_now (cs_backend sv))")
    case None
    then show ?thesis using assms by (auto simp: supersession_def Let_def split: if_splits)
  next
    case (Some t)
    obtain old d where "t = (old, d)" by fastforce
    with Some have "supersession_target sv es r (be_now (cs_backend sv)) = Some (old, d)" by simp
    then show ?thesis using assms by (auto simp: supersession_def Let_def split: if_splits) metis+
  qed
  then show ?thesis by auto
qed

lemma quota_retrieve:
  assumes "quota sv m es r v target = Inr (v', target')" and "vd_tier v' = ''retrieve''"
  shows "v' = v \<and> target' = target"
  using assms by (auto simp: quota_def Let_def ebind_def split: if_splits sum.splits)


lemma first_tier: "first_verdict sv m r = Inr v \<Longrightarrow> vd_tier v \<in> {''quarantine'', ''retrieve''}"
  by (auto simp: first_verdict_def Let_def ebind_def admitted_by_def refused_def split: sum.splits option.splits if_splits)

lemma expiry_tier: "with_expiry sv m r v = Inr (r', v') \<Longrightarrow> v' = v \<or> vd_tier v' = ''quarantine''"
  by (auto simp: with_expiry_def Let_def ebind_def split: sum.splits option.splits if_splits)

lemma supersession_tier: "supersession sv es r v = (v', target) \<Longrightarrow> v' = v \<or> vd_tier v' = ''quarantine''"
  by (auto simp: supersession_def Let_def split: option.splits prod.splits if_splits)

lemma quota_tier: "quota sv m es r v target = Inr (v', target') \<Longrightarrow> v' = v \<or> vd_tier v' = ''quarantine''"
  by (auto simp: quota_def Let_def ebind_def split: sum.splits if_splits)

lemma final_tier:
  assumes "first_verdict sv m r = Inr v0" and "with_expiry sv m r v0 = Inr (r1, v1)"
    and "supersession sv es r1 v1 = (v2, target0)" and "quota sv m es r1 v2 target0 = Inr (v3, target)"
  shows "vd_tier v3 \<in> {''quarantine'', ''retrieve''}"
  using first_tier[OF assms(1)] expiry_tier[OF assms(2)] supersession_tier[OF assms(3)] quota_tier[OF assms(4)]
  by auto

section \<open>Ingestion\<close>

lemma wbind_Inr: "wbind m f ps = (Inr b, rs) \<longleftrightarrow> (\<exists>a qs. m ps = (Inr a, qs) \<and> f a qs = (Inr b, rs))"
proof (cases "m ps")
  case (Pair x qs)
  then show ?thesis by (cases x) (auto simp: wbind_def)
qed

lemma entry_for_fields:
  assumes "entry_for sv r v = Inr e"
  shows "me_kind e = ''convention'' \<and> me_scope e = cv_scope_of r \<and> me_tier e = vd_tier v
    \<and> me_verification e = vd_verification v \<and> stored_record e = Some (convention_dict r)
    \<and> canonical_record sv r = Inr (me_text e)"
  using assms
  by (auto simp: entry_for_def ebind_def post_init_def fresh_entry_def Let_def stored_record_def dict_get_def
      dict_lookup_def split: sum.splits)

text \<open>The points an ingestion that returns leaves, and how it came to its verdict.\<close>

lemma ingest_steps:
  assumes "ingest_convention sv config r ps = (Inr e, ps')"
  obtains v0 r1 v1 es qs v2 target0 v3 target where
    "first_verdict sv (memory_section config) r = Inr v0"
    and "with_expiry sv (memory_section config) r v0 = Inr (r1, v1)"
    and "(if vd_tier v1 = ''retrieve''
          then drop_inactive sv (cv_scope_of r1) (be_now (cs_backend sv)) (filter (\<lambda>e. me_kind e = ''convention'') (map snd ps))
          else wreturn (filter (\<lambda>e. me_kind e = ''convention'') (map snd ps))) ps = (Inr es, qs)"
    and "supersession sv es r1 v1 = (v2, target0)"
    and "quota sv (memory_section config) es r1 v2 target0 = Inr (v3, target)"
    and "entry_for sv r1 v3 = Inr e"
    and "ps' = (let rs = AList.update (convention_entry_id sv e) e qs in
          case target of
            Some (old, _) \<Rightarrow> if vd_tier v3 = ''retrieve'' then filter (\<lambda>p. fst p \<noteq> convention_entry_id sv old) rs else rs
          | None \<Rightarrow> rs)"
proof -
  let ?m = "memory_section config"
  obtain v0 where v0: "first_verdict sv ?m r = Inr v0"
    using assms by (auto simp: ingest_convention_def Let_def wbind_Inr lift_def)
  obtain r1 v1 where v1: "with_expiry sv ?m r v0 = Inr (r1, v1)"
    using assms v0 by (auto simp: ingest_convention_def Let_def wbind_Inr lift_def)
  let ?cs = "filter (\<lambda>e. me_kind e = ''convention'') (map snd ps)"
  let ?drop = "if vd_tier v1 = ''retrieve'' then drop_inactive sv (cv_scope_of r1) (be_now (cs_backend sv)) ?cs else wreturn ?cs"
  obtain es qs where es: "?drop ps = (Inr es, qs)"
    and rest: "(case supersession sv es r1 v1 of (v, target) \<Rightarrow>
          wbind (lift (quota sv ?m es r1 v target)) (\<lambda>(v, target).
          wbind (lift (entry_for sv r1 v)) (\<lambda>e.
          wbind (upsert (cs_backend sv) e) (\<lambda>_.
          wbind (case target of
                   Some (old, _) \<Rightarrow> if vd_tier v = ''retrieve'' then delete_point (convention_entry_id sv old) else wreturn ()
                 | None \<Rightarrow> wreturn ()) (\<lambda>_.
            wreturn e))))) qs = (Inr e, ps')"
    using assms v0 v1 by (auto simp: ingest_convention_def Let_def wbind_Inr lift_def stored_conventions_def)
  obtain v2 target0 where v2: "supersession sv es r1 v1 = (v2, target0)" by fastforce
  obtain v3 target where v3: "quota sv ?m es r1 v2 target0 = Inr (v3, target)"
    using rest v2 by (auto simp: wbind_Inr lift_def)
  have e: "entry_for sv r1 v3 = Inr e"
    using rest v2 v3 by (auto simp: wbind_Inr lift_def wreturn_def)
  have "ps' = (let rs = AList.update (convention_entry_id sv e) e qs in
          case target of
            Some (old, _) \<Rightarrow> if vd_tier v3 = ''retrieve'' then filter (\<lambda>p. fst p \<noteq> convention_entry_id sv old) rs else rs
          | None \<Rightarrow> rs)"
    using rest v2 v3 e
    by (auto simp: wbind_Inr lift_def wreturn_def upsert_def delete_point_def convention_entry_id_def Let_def
        split: option.splits if_splits)
  with that v0 v1 es v2 v3 e show ?thesis by blast
qed

text \<open>
  C24: what an ingestion admits.  An entry that comes back active holds the record given, or that
  record with a default expiry; the record is well-formed and within its budget, mining is
  enabled, and either a human approved exactly this scope, key, version and mapping, or it
  comes from a trusted configuration whose reach covers its scope.  A record with an expiry of
  its own has not expired.
\<close>

theorem admitted_conventions_verified:
  assumes "ingest_convention sv config r ps = (Inr e, ps')" and "me_tier e \<noteq> ''quarantine''"
  shows "\<exists>r' v. stored_record e = Some (convention_dict r') \<and> me_verification e = vd_verification v
    \<and> sound_convention sv (memory_section (memory_section config)) r' \<and> vouched sv (memory_section config) r' v
    \<and> (r' = r \<and> (\<exists>f. cv_expires r = Some f \<and> \<not> float_le f (Fin (be_now (cs_backend sv))))
       \<or> cv_expires r = None \<and> (\<exists>ttl. r' = r\<lparr>cv_expires := Some (expiry (be_now (cs_backend sv)) ttl)\<rparr>))"
proof -
  obtain v0 r1 v1 es qs v2 target0 v3 target where
    v0: "first_verdict sv (memory_section config) r = Inr v0"
    and v1: "with_expiry sv (memory_section config) r v0 = Inr (r1, v1)"
    and v2: "supersession sv es r1 v1 = (v2, target0)"
    and v3: "quota sv (memory_section config) es r1 v2 target0 = Inr (v3, target)"
    and e: "entry_for sv r1 v3 = Inr e"
    using assms(1) by (rule ingest_steps)
  have tier: "vd_tier v3 = ''retrieve''"
    using entry_for_fields[OF e] assms(2) final_tier[OF v0 v1 v2 v3] by auto
  have "v3 = v2" using quota_retrieve[OF v3 tier] by simp
  moreover from this have "v2 = v1" using supersession_retrieve[OF v2] tier by simp
  ultimately have same: "v3 = v1" "vd_tier v1 = ''retrieve''" using tier by auto
  have "vd_tier v0 = ''retrieve''" using v1 same(2) by (auto simp: with_expiry_def Let_def split: if_splits)
  then have first: "quarantine_reason sv (memory_section config) r = Inr None" "vouched sv (memory_section config) r v0"
    using first_verdict_retrieve[OF v0] by auto
  note exp = with_expiry_retrieve[OF v1 same(2) first(1)]
  have "vouched sv (memory_section config) r1 v0" using exp first(2) by (auto simp: vouched_expiry)
  moreover have "sound_convention sv (memory_section (memory_section config)) r1" using exp reason_none by blast
  ultimately show ?thesis
    using entry_for_fields[OF e] same(1) exp by (intro exI[of _ r1] exI[of _ v0]) simp
qed


section \<open>The quota of a scope\<close>

text \<open>The ids of the active conventions of a scope.\<close>

definition active_ids :: "string \<Rightarrow> rat \<Rightarrow> points \<Rightarrow> string set" where
  "active_ids scope now ps = fst ` {p \<in> set ps. active_convention scope now (snd p)}"

lemma finite_active: "finite (active_ids scope now ps)"
  by (simp add: active_ids_def)

lemma fewer_active:
  assumes "active_ids scope now qs \<subseteq> active_ids scope now ps"
  shows "int (card (active_ids scope now qs)) \<le> max n (int (card (active_ids scope now ps)))"
  using card_mono[OF finite_active assms] by simp

lemma active_filter: "active_ids scope now (filter P ps) \<subseteq> active_ids scope now ps"
  by (auto simp: active_ids_def)

lemma active_update:
  "active_ids scope now (AList.update i e ps)
   \<subseteq> active_ids scope now ps \<union> (if active_convention scope now e then {i} else {})"
  by (induction ps) (auto simp: active_ids_def)

lemma active_entries:
  "keyed (be_uuid (cs_backend sv)) ps \<Longrightarrow>
     set (map (convention_entry_id sv) (active_conventions scope now (map snd ps))) = active_ids scope now ps"
  unfolding keyed_def active_conventions_def active_ids_def convention_entry_id_def by force

lemma active_convention_kind: "active_convention scope now e \<Longrightarrow> me_kind e = ''convention'' \<and> me_scope e = scope"
  by (simp add: active_convention_def)

lemma not_droppable: "active_convention scope now e \<Longrightarrow> \<not> droppable scope now e"
  by (auto simp: active_convention_def droppable_def split: option.splits)

text \<open>Dropping what is inactive leaves the active ones, and the list of what is left.\<close>

lemma drop_inactive_active:
  assumes "drop_inactive sv s now (filter (\<lambda>e. me_kind e = ''convention'') (map snd ps)) ps = (Inr es, qs)"
  shows "active_conventions s now es = active_conventions s now (map snd ps)
    \<and> active_ids scope now' qs \<subseteq> active_ids scope now' ps"
proof -
  have "es = filter (\<lambda>e. \<not> droppable s now e) (filter (\<lambda>e. me_kind e = ''convention'') (map snd ps))"
    and qs: "qs = filter (\<lambda>p. fst p \<notin> set (map (entry_id (be_uuid (cs_backend sv)))
        (filter (droppable s now) (filter (\<lambda>e. me_kind e = ''convention'') (map snd ps))))) ps"
    using assms by (auto simp: drop_inactive_def wbind_def delete_entries_eq wreturn_def)
  then have "active_conventions s now es = active_conventions s now (map snd ps)"
    unfolding active_conventions_def
    by (auto simp: filter_filter intro!: filter_cong dest: not_droppable active_convention_kind)
  then show ?thesis using active_filter qs by blast
qed

text \<open>
  C25: the quota of a scope.  An ingestion that returns leaves at most \<open>convention_max_entries\<close>
  active conventions in any scope, or no more than there were before.
\<close>

theorem convention_quota:
  assumes "ingest_convention sv config r ps = (Inr e, ps')" and "keyed (be_uuid (cs_backend sv)) ps"
    and "int_setting (memory_section config) ''convention_max_entries'' 256 = Inr n"
  shows "int (card (active_ids scope (be_now (cs_backend sv)) ps'))
     \<le> max n (int (card (active_ids scope (be_now (cs_backend sv)) ps)))"
proof -
  let ?now = "be_now (cs_backend sv)" and ?uid = "convention_entry_id sv"
  let ?A = "active_ids scope ?now"
  obtain v0 r1 v1 es qs v2 target0 v3 target where
    v0: "first_verdict sv (memory_section config) r = Inr v0"
    and v1: "with_expiry sv (memory_section config) r v0 = Inr (r1, v1)"
    and es: "(if vd_tier v1 = ''retrieve''
          then drop_inactive sv (cv_scope_of r1) ?now (filter (\<lambda>e. me_kind e = ''convention'') (map snd ps))
          else wreturn (filter (\<lambda>e. me_kind e = ''convention'') (map snd ps))) ps = (Inr es, qs)"
    and v2: "supersession sv es r1 v1 = (v2, target0)"
    and v3: "quota sv (memory_section config) es r1 v2 target0 = Inr (v3, target)"
    and e: "entry_for sv r1 v3 = Inr e"
    and ps': "ps' = (let rs = AList.update (?uid e) e qs in
          case target of
            Some (old, _) \<Rightarrow> if vd_tier v3 = ''retrieve'' then filter (\<lambda>p. fst p \<noteq> ?uid old) rs else rs
          | None \<Rightarrow> rs)"
    using assms(1) by (rule ingest_steps)
  have less: "?A qs \<subseteq> ?A ps"
  proof (cases "vd_tier v1 = ''retrieve''")
    case True
    then show ?thesis using es drop_inactive_active by auto
  next
    case False
    then show ?thesis using es by (simp add: wreturn_def)
  qed
  have sub: "?A ps' \<subseteq> ?A (AList.update (?uid e) e qs)"
    unfolding ps' Let_def using active_filter by (auto split: option.splits)
  note fields = entry_for_fields[OF e]
  consider (tier) "vd_tier v3 \<noteq> ''retrieve''" | (scope) "cv_scope_of r1 \<noteq> scope" | (same) "vd_tier v3 = ''retrieve''" "cv_scope_of r1 = scope"
    by blast
  then show ?thesis
  proof cases
    case tier
    then have "\<not> active_convention scope ?now e"
      using fields final_tier[OF v0 v1 v2 v3] by (auto simp: active_convention_def active_tiers_def)
    then have "?A ps' \<subseteq> ?A ps" using sub active_update[of scope ?now "?uid e" e qs] less by auto
    then show ?thesis by (rule fewer_active)
  next
    case scope
    then have "\<not> active_convention scope ?now e" using fields by (auto simp: active_convention_def)
    then have "?A ps' \<subseteq> ?A ps" using sub active_update[of scope ?now "?uid e" e qs] less by auto
    then show ?thesis by (rule fewer_active)
  next
    case same
    have v: "v3 = v2" "target = target0" using quota_retrieve[OF v3 same(1)] by simp_all
    moreover have "v2 = v1" using supersession_retrieve[OF v2] same(1) v by simp
    ultimately have tier1: "vd_tier v1 = ''retrieve''" using same(1) by simp
    then have "active_conventions scope ?now es = active_conventions scope ?now (map snd ps)"
      using es same(2) drop_inactive_active by auto
    then have ids: "set (map ?uid (active_conventions scope ?now es)) = ?A ps" using active_entries[OF assms(2)] by metis
    define gone where "gone = (case target of None \<Rightarrow> {} | Some (old, _) \<Rightarrow> {?uid old})"
    define kept where "kept = remdups (filter (\<lambda>i. Some i \<noteq> map_option (?uid \<circ> fst) target)
                       (map ?uid (active_conventions scope ?now es)))"
    have kept: "set kept = ?A ps - gone" unfolding kept_def gone_def using ids by (auto split: option.splits)
    have card: "length kept = card (?A ps - gone)" unfolding kept[symmetric] kept_def by (simp add: length_remdups_card_conv)
    have after: "?A ps' \<subseteq> insert (?uid e) (?A ps - gone)"
    proof -
      have "?A ps' \<inter> gone = {}"
        unfolding ps' gone_def Let_def using same(1) by (auto simp: active_ids_def split: option.splits)
      then show ?thesis using sub active_update[of scope ?now "?uid e" e qs] less by (auto split: if_splits)
    qed
    have bound: "?uid e \<in> set kept \<or> int (length kept) < n"
    proof -
      have run: "quota sv (memory_section config) es r1 v3 target = Inr (v3, target)" using v3 v by simp
      then obtain d where d: "entry_for sv r1 (v3\<lparr>vd_reason := None\<rparr>) = Inr d"
        using same(1) by (cases "entry_for sv r1 (v3\<lparr>vd_reason := None\<rparr>)") (simp_all add: quota_def Let_def)
      have "?uid d = ?uid e"
        using entry_for_fields[OF d] fields by (simp add: convention_entry_id_def entry_id_def)
      moreover have "v3 \<noteq> refused ''quota_exceeded''" using same(1) by auto
      moreover have "(if ?uid d \<notin> set kept \<and> n \<le> int (length kept) then (refused ''quota_exceeded'', None) else (v3, target)) = (v3, target)"
        using run same d assms(3) by (simp add: quota_def Let_def kept_def)
      ultimately show ?thesis by (metis Pair_inject not_le)
    qed
    show ?thesis
    proof (cases "?uid e \<in> set kept")
      case True
      then have "?A ps' \<subseteq> ?A ps" using after kept by auto
      then show ?thesis by (rule fewer_active)
    next
      case False
      then have "int (length kept) < n" using bound by simp
      moreover have "card (?A ps') \<le> card (insert (?uid e) (?A ps - gone))"
        by (rule card_mono[OF _ after]) (simp add: finite_active)
      moreover have "card (insert (?uid e) (?A ps - gone)) \<le> Suc (length kept)"
        unfolding card by (simp add: card_insert_if finite_active)
      ultimately show ?thesis by simp
    qed
  qed
qed

end
