(* ===== verification/Convention_Examples.thy ===== *)
theory Convention_Examples
  imports Convention_Laws
begin

text \<open>
  Conventions ingested on small inputs: the witnesses of their guarantees, a record that cannot
  be serialized, and an approved convention that an unapproved one displaces.
\<close>

section \<open>An instance\<close>

text \<open>A rendering that shows the key of a record only, and services that answer alike.\<close>

definition key_json :: "pyval \<Rightarrow> raised + string" where
  "key_json v =
     (case v of VDict d \<Rightarrow> (case dict_get d ''key'' of VStr k \<Rightarrow> Inr k | _ \<Rightarrow> Inr ''mapping'') | _ \<Rightarrow> Inr ''value'')"

definition convention_demo :: convention_services where
  "convention_demo =
     \<lparr>cs_json = key_json, cs_sha = (\<lambda>s. s), cs_tokens = length,
      cs_backend = \<lparr>be_uuid = (\<lambda>s. s), be_embed = (\<lambda>_. None), be_nearest = (\<lambda>_ _ _. Inr None), be_decay = (\<lambda>_. 1),
                    be_now = 5, be_cap = (\<lambda>t _. t)\<rparr>\<rparr>"

definition demo_condition :: "string \<Rightarrow> pydict" where
  "demo_condition i = [(KStr ''branch_id'', VStr i), (KStr ''condition_text'', VStr ''when'')]"

definition demo_branch :: "string \<Rightarrow> pydict" where
  "demo_branch i = [(KStr ''branch_id'', VStr i), (KStr ''fields'', VDict [])]"

definition demo_record :: "string \<Rightarrow> convention_rec" where
  "demo_record key =
     \<lparr>cv_scope_of = ''agent'', cv_key = key, cv_version = ''1'', cv_effect = ''response_mapping'',
      cv_conditions = [demo_condition ''a'', demo_condition ''b''], cv_branches = [demo_branch ''b'', demo_branch ''a''],
      cv_origin = ''model'', cv_provenance = ''run'', cv_created = 0, cv_expires = Some (Fin 9),
      cv_supersedes = None, cv_schema = []\<rparr>"

definition demo_config :: pydict where
  "demo_config =
     [(KStr ''convention_mining_enabled'', VBool True),
      (KStr ''convention_approvals'', VList [VList [VStr ''agent'', VStr ''pay'', VStr ''1'', VStr ''mapping'']]),
      (KStr ''convention_max_entries'', VInt 1)]"

definition demo_run :: "string \<Rightarrow> points \<Rightarrow> (raised + memory_entry) \<times> points" where
  "demo_run key = ingest_convention convention_demo demo_config (demo_record key)"

definition approved_points :: points where "approved_points = snd (demo_run ''pay'' [])"
definition approved_entry :: memory_entry where "approved_entry = snd (hd approved_points)"

lemma approved_run: "demo_run ''pay'' [] = (Inr approved_entry, approved_points)"
  by code_simp

section \<open>Witnesses\<close>

theorem admitted_conventions_verified_witness:
  "me_verification approved_entry = ''human_verified''
   \<and> (\<exists>r. stored_record approved_entry = Some (convention_dict r) \<and> sound_convention convention_demo demo_config r)"
proof -
  have "me_tier approved_entry \<noteq> ''quarantine''" by code_simp
  moreover have "memory_section (memory_section demo_config) = demo_config" by code_simp
  ultimately have "\<exists>r. stored_record approved_entry = Some (convention_dict r) \<and> sound_convention convention_demo demo_config r"
    using admitted_conventions_verified[OF approved_run[unfolded demo_run_def]] by metis
  moreover have "me_verification approved_entry = ''human_verified''" by code_simp
  ultimately show ?thesis by simp
qed

theorem convention_quota_witness: "int (card (active_ids ''agent'' 5 approved_points)) \<le> 1"
proof -
  have "int_setting (memory_section demo_config) ''convention_max_entries'' 256 = Inr 1" by code_simp
  moreover have "be_now (cs_backend convention_demo) = 5" by (simp add: convention_demo_def)
  moreover have "keyed (be_uuid (cs_backend convention_demo)) []" by (simp add: keyed_def)
  ultimately show ?thesis
    using convention_quota[OF approved_run[unfolded demo_run_def], of 1 "''agent''"] by (simp add: active_ids_def)
qed

section \<open>Divergences\<close>

text \<open>
  A record that cannot be rendered is given the reason \<open>invalid_record\<close>, but storing it in
  quarantine renders it again: the ingestion raises instead.
\<close>

theorem invalid_record_not_stored:
  assumes "quarantine_reason sv (memory_section config) r = Inr (Some ''invalid_record'')"
    and "isl (canonical_record sv r)"
  shows "isl (fst (ingest_convention sv config r ps))"
proof (rule ccontr)
  assume "\<not> ?thesis"
  then obtain e ps' where "ingest_convention sv config r ps = (Inr e, ps')"
    by (metis prod.collapse sum.collapse(2))
  then obtain v0 r1 v1 v3 where v0: "first_verdict sv (memory_section config) r = Inr v0"
    and v1: "with_expiry sv (memory_section config) r v0 = Inr (r1, v1)" and e: "entry_for sv r1 v3 = Inr e"
    by (rule ingest_steps)
  have "v0 = refused ''invalid_record''"
    using v0 assms(1) by (auto simp: first_verdict_def Let_def ebind_def split: sum.splits)
  then have "r1 = r" using v1 by (simp add: with_expiry_def Let_def)
  then show False using entry_for_fields[OF e] assms(2) by simp
qed

text \<open>
  The id of an entry ignores letter case.  A mined candidate that differs from an active
  convention in case only is refused for want of an approval, and replaces it.
\<close>

theorem refused_candidate_displaces:
  "me_tier approved_entry = ''retrieve''
   \<and> map (\<lambda>(_, e). (me_tier e, me_text e)) (snd (demo_run ''Pay'' approved_points)) = [(''quarantine'', ''Pay'')]"
  by code_simp

end
