(* ===== verification/Setup_Layers.thy ===== *)
theory Setup_Layers
  imports Toolset Regex "HOL-Library.List_Lexorder" "HOL-Library.Char_ord"
begin

text \<open>
  Layers of agent setups (\<open>src/fabri/setups/layers.py\<close>): the files of a layer as a tree, YAML
  files and frontmatter, the deep merge of mappings, budgets, and the hash of the content.
  Parsing YAML and JSON, \<open>str\<close> and SHA-256 are parameters.  Keys of YAML mappings are compared as
  they are written: a document that uses both \<open>1\<close> and \<open>true\<close> as keys is outside the model.
\<close>

section \<open>Files\<close>

datatype file_tree = FileNode string | DirNode "(string \<times> file_tree) list"

text \<open>A failure of the setup code: \<open>SetupError\<close>, an operating-system error, or any other.\<close>

datatype setup_fault = SetupFault string | OsFault string | OtherFault string

record setup_env =
  se_yaml :: "string \<Rightarrow> unit + pyval"
  se_json :: "string \<Rightarrow> unit + pyval"
  se_str :: "pyval \<Rightarrow> string"
  se_sha :: "string \<Rightarrow> string"

fun node_at :: "string list \<Rightarrow> file_tree \<Rightarrow> file_tree option" where
  "node_at [] t = Some t"
| "node_at (p # ps) (DirNode ts) = (case map_of ts p of None \<Rightarrow> None | Some t \<Rightarrow> node_at ps t)"
| "node_at (p # ps) (FileNode s) = None"

fun is_file :: "file_tree option \<Rightarrow> bool" where
  "is_file (Some (FileNode _)) = True" | "is_file _ = False"

fun is_dir :: "file_tree option \<Rightarrow> bool" where
  "is_dir (Some (DirNode _)) = True" | "is_dir _ = False"

fun read_text :: "file_tree option \<Rightarrow> setup_fault + string" where
  "read_text (Some (FileNode s)) = Inr s"
| "read_text (Some (DirNode _)) = Inl (OsFault ''IsADirectoryError'')"
| "read_text None = Inl (OsFault ''FileNotFoundError'')"

definition hidden_name :: "string \<Rightarrow> bool" where "hidden_name s \<longleftrightarrow> starts_with ''.'' s"

text \<open>The entries of a directory that are not hidden, by name.\<close>

definition children :: "file_tree option \<Rightarrow> (string \<times> file_tree) list" where
  "children t =
     (case t of
        Some (DirNode ts) \<Rightarrow> sort_key fst (filter (\<lambda>p. \<not> hidden_name (fst p)) ts)
      | _ \<Rightarrow> [])"

text \<open>\<open>PurePath.suffix\<close> and \<open>PurePath.stem\<close>.\<close>

definition dot_split :: "string \<Rightarrow> (string \<times> string) option" where
  "dot_split s =
     (let after = rev (takeWhile (\<lambda>c. c \<noteq> CHR ''.'') (rev s));
          before = take (length s - length after - 1) s in
      if CHR ''.'' \<in> set s \<and> after \<noteq> [] \<and> before \<noteq> [] then Some (before, CHR ''.'' # after) else None)"

definition path_suffix :: "string \<Rightarrow> string" where
  "path_suffix s = (case dot_split s of None \<Rightarrow> [] | Some (_, x) \<Rightarrow> x)"

definition path_stem :: "string \<Rightarrow> string" where
  "path_stem s = (case dot_split s of None \<Rightarrow> s | Some (b, _) \<Rightarrow> b)"

section \<open>Layers\<close>

record layer =
  ly_name :: string
  ly_path :: string
  ly_root :: "file_tree option"

definition repeated_names :: "string list \<Rightarrow> string list" where
  "repeated_names ns = sort (remdups (filter (\<lambda>n. 1 < length (filter ((=) n) ns)) ns))"

definition as_layers :: "layer list \<Rightarrow> setup_fault + layer list" where
  "as_layers ls =
     (let dupes = repeated_names (map ly_name ls) in
      if dupes \<noteq> [] then Inl (SetupFault (''layer names must be unique (repeated: '' @ join '', '' dupes @ '')''))
      else Inr ls)"

definition slug_regex :: regex where
  "slug_regex =
     seqs [Sat (\<lambda>c. code_in 97 122 c \<or> digit_09 c), zero_or_more (Sat (\<lambda>c. code_in 97 122 c \<or> digit_09 c \<or> c = CHR ''-''))]"

definition is_slug :: "string \<Rightarrow> bool" where
  "is_slug s \<longleftrightarrow> (\<exists>d \<in> set (ends slug_regex ([], s)). snd d = [])"

definition check_slug :: "pyval \<Rightarrow> string \<Rightarrow> setup_fault + string" where
  "check_slug v what =
     (case v of
        VStr s \<Rightarrow> if is_slug s then Inr s else Inl (SetupFault (what @ '' must be a slug ([a-z0-9][a-z0-9-]*)''))
      | _ \<Rightarrow> Inl (SetupFault (what @ '' must be a slug ([a-z0-9][a-z0-9-]*)'')))"

section \<open>YAML\<close>

definition parse_yaml_text :: "setup_env \<Rightarrow> string \<Rightarrow> string \<Rightarrow> setup_fault + pydict" where
  "parse_yaml_text se s what =
     (case se_yaml se s of
        Inl _ \<Rightarrow> Inl (SetupFault (what @ '': invalid YAML''))
      | Inr VNone \<Rightarrow> Inr []
      | Inr (VDict d) \<Rightarrow> Inr d
      | Inr _ \<Rightarrow> Inl (SetupFault (what @ '': must be a mapping'')))"

definition read_yaml :: "setup_env \<Rightarrow> string \<Rightarrow> file_tree option \<Rightarrow> setup_fault + pydict" where
  "read_yaml se what t = (case t of Some (FileNode s) \<Rightarrow> parse_yaml_text se s what | _ \<Rightarrow> Inr [])"

text \<open>\<open>splitlines(keepends=True)\<close>.\<close>

function lines_kept :: "string \<Rightarrow> string \<Rightarrow> string list" where
  "lines_kept cur [] = (if cur = [] then [] else [cur])"
| "lines_kept cur (c # cs) =
     (if is_break c
      then (cur @ take (Suc (length cs) - length (after_break c cs)) (c # cs)) # lines_kept [] (after_break c cs)
      else lines_kept (cur @ [c]) cs)"
  by pat_completeness auto
termination
  by (relation "measure (length \<circ> snd)") (auto simp: after_break_def split: list.splits)

definition frontmatter_fence :: "string \<Rightarrow> bool" where
  "frontmatter_fence line \<longleftrightarrow> strip line = ''---''"

text \<open>The lines before the closing fence and those after it.\<close>

fun until_fence :: "string list \<Rightarrow> string list \<Rightarrow> (string list \<times> string list) option" where
  "until_fence front [] = None"
| "until_fence front (l # ls) =
     (if frontmatter_fence l then Some (front, ls) else until_fence (front @ [l]) ls)"

definition split_frontmatter :: "setup_env \<Rightarrow> string \<Rightarrow> setup_fault + pydict \<times> string" where
  "split_frontmatter se s =
     (if \<not> starts_with ''---'' s then Inr ([], s)
      else case lines_kept [] s of
             [] \<Rightarrow> Inr ([], s)
           | l # ls \<Rightarrow>
               if \<not> frontmatter_fence l then Inr ([], s)
               else case until_fence [] ls of
                      None \<Rightarrow> Inr ([], s)
                    | Some (front, body) \<Rightarrow>
                        (case se_yaml se (concat front) of
                           Inl _ \<Rightarrow> Inl (SetupFault ''invalid frontmatter'')
                         | Inr v \<Rightarrow> Inr (case v of VDict d \<Rightarrow> d | _ \<Rightarrow> [], concat body)))"

section \<open>Merging\<close>

fun deep_merge :: "pydict \<Rightarrow> pydict \<Rightarrow> pydict" where
  "deep_merge out [] = out"
| "deep_merge out ((k, VDict o1) # over) =
     deep_merge (AList.update k (case map_of out k of Some (VDict b) \<Rightarrow> VDict (deep_merge b o1) | _ \<Rightarrow> VDict o1) out) over"
| "deep_merge out ((k, v) # over) = deep_merge (AList.update k v out) over"

section \<open>Budgets\<close>

definition layer_default_budgets :: "(string \<times> int) list" where
  "layer_default_budgets =
     [(''skill_prompt_chars'', 4000), (''skills_total_chars'', 8000), (''skill_ondemand_chars'', 40000),
      (''context_chars'', 6000), (''prompt_chars'', 12000), (''data_bytes'', 1048576)]"

text \<open>\<open>isinstance(v, int)\<close>: a boolean is one.\<close>

definition int_like :: "pyval \<Rightarrow> int option" where
  "int_like v = (case v of VInt i \<Rightarrow> Some i | VBool b \<Rightarrow> Some (if b then 1 else 0) | _ \<Rightarrow> None)"

definition override_budget :: "(int \<Rightarrow> bool) \<Rightarrow> pykey \<times> pyval \<Rightarrow> (string \<times> int) list \<Rightarrow> (string \<times> int) list" where
  "override_budget ok p out =
     (case p of
        (KStr k, v) \<Rightarrow>
          (case int_like v of
             Some i \<Rightarrow> if map_of layer_default_budgets k \<noteq> None \<and> ok i then AList.update k i out else out
           | None \<Rightarrow> out)
      | _ \<Rightarrow> out)"

definition layer_budgets :: "pydict \<Rightarrow> (string \<times> int) list" where
  "layer_budgets setup =
     (case dict_get setup ''budgets'' of
        VDict raw \<Rightarrow> fold (override_budget (\<lambda>i. 0 < i)) raw layer_default_budgets
      | _ \<Rightarrow> layer_default_budgets)"

section \<open>The hash of the content\<close>

text \<open>Every file that is not hidden, with its path, in the order of the paths.\<close>

function tree_files :: "string list \<Rightarrow> file_tree \<Rightarrow> (string list \<times> string) list"
  and forest_files :: "string list \<Rightarrow> (string \<times> file_tree) list \<Rightarrow> (string list \<times> string) list" where
  "tree_files p (FileNode s) = [(p, s)]"
| "tree_files p (DirNode ts) = forest_files p ts"
| "forest_files p [] = []"
| "forest_files p ((n, t) # ts) = (if hidden_name n then [] else tree_files (p @ [n]) t) @ forest_files p ts"
  by pat_completeness auto
termination
  by (relation "measure (\<lambda>x. case x of Inl (_, t) \<Rightarrow> size t | Inr (_, ts) \<Rightarrow> size_list (size_prod (\<lambda>_. 0) size) ts)") auto

definition layer_files :: "layer \<Rightarrow> (string list \<times> string) list" where
  "layer_files l =
     (case ly_root l of
        Some (DirNode ts) \<Rightarrow> sort_key fst (forest_files [] ts)
      | _ \<Rightarrow> [])"

definition nul :: string where "nul = [CHR 0x00]"

definition layer_bytes :: "layer \<Rightarrow> string" where
  "layer_bytes l =
     nul @ ''layer'' @ nul @ ly_name l @ nul @ ly_path l @ nul
     @ concat (map (\<lambda>(p, s). join ''/'' p @ nul @ s @ nul) (layer_files l))"

definition content_hash :: "setup_env \<Rightarrow> layer list \<Rightarrow> string" where
  "content_hash se ls = se_sha se (concat (map layer_bytes ls))"

end
