(* ===== verification/Setup_Resolve.thy ===== *)
theory Setup_Resolve
  imports Setup_Layers Scopes
begin

text \<open>
  The resolution of an ordered list of layers into one setup (\<open>src/fabri/setups/resolver.py\<close>):
  agents, skills, context, data, plays and tools, each entry with the layer it comes from.
  The tools registered at run time (\<open>tools/registration.py\<close>) are a parameter.  The resolver's
  cache is left out: it returns what resolving again would.
\<close>

section \<open>Items\<close>

record agent_item =
  ai_config :: pydict
  ai_prompt :: string
  ai_prompt_sources :: "string list"
  ai_sources :: "string list"
  ai_enabled :: bool
  ai_source :: string

record skill_item =
  sk_meta :: pydict
  sk_types :: "pyval list"
  sk_tools :: "pyval list"
  sk_tags :: "string list"
  sk_when :: string
  sk_load :: "string option"
  sk_references :: "string list"
  sk_revision :: int
  sk_prompt :: string
  sk_source :: string
  sk_files :: file_tree

record context_item =
  cx_text :: string
  cx_types :: "pyval list"
  cx_source :: string

record data_item =
  di_file :: string
  di_bytes :: nat
  di_content :: string
  di_source :: string

record play_item =
  pl_meta :: pydict
  pl_source :: string

record registered_tool =
  rg_name :: string
  rg_enabled :: bool
  rg_decl :: pydict
  rg_allow :: "string list"

record resolved_setup =
  rv_setup :: pydict
  rv_agents :: "(string \<times> agent_item) list"
  rv_skills :: "(string \<times> skill_item) list"
  rv_context :: "(string \<times> context_item) list"
  rv_data :: "(string \<times> data_item) list"
  rv_plays :: "(string \<times> play_item) list"
  rv_tool_sources :: "(string \<times> source_item) list"
  rv_allow :: "(string \<times> string) list"
  rv_descriptions :: "(string \<times> (string \<times> string) list) list"
  rv_sources :: "(string \<times> string) list"
  rv_warnings :: "string list"

definition nothing_resolved :: resolved_setup where
  "nothing_resolved =
     \<lparr>rv_setup = [], rv_agents = [], rv_skills = [], rv_context = [], rv_data = [], rv_plays = [],
      rv_tool_sources = [], rv_allow = [], rv_descriptions = [], rv_sources = [], rv_warnings = []\<rparr>"

type_synonym resolving = "resolved_setup \<Rightarrow> setup_fault + resolved_setup"

record resolve_env =
  re_env :: setup_env
  re_registered :: "file_tree \<Rightarrow> registered_tool list"

definition warn :: "string \<Rightarrow> resolved_setup \<Rightarrow> resolved_setup" where
  "warn w st = st\<lparr>rv_warnings := rv_warnings st @ [w]\<rparr>"

definition record_source :: "string \<Rightarrow> string \<Rightarrow> resolved_setup \<Rightarrow> resolved_setup" where
  "record_source key name st = st\<lparr>rv_sources := AList.update key name (rv_sources st)\<rparr>"

text \<open>\<open>list(v or [])\<close>.\<close>

definition list_or :: "pyval \<Rightarrow> setup_fault + pyval list" where
  "list_or v =
     (if \<not> truthy v then Inr []
      else case py_iter v of Inl _ \<Rightarrow> Inl (OtherFault ''TypeError'') | Inr xs \<Rightarrow> Inr xs)"

text \<open>\<open>list(dict.fromkeys(xs))\<close>.\<close>

definition in_order :: "'a list \<Rightarrow> 'a list" where
  "in_order xs = fold (\<lambda>x acc. if x \<in> set acc then acc else acc @ [x]) xs []"

definition unique_values :: "pyval list \<Rightarrow> setup_fault + pyval list" where
  "unique_values xs =
     (if \<exists>x \<in> set xs. is_list x \<or> is_dict x then Inl (OtherFault ''TypeError'')
      else Inr (in_order xs))"

definition file_in :: "string \<Rightarrow> file_tree \<Rightarrow> file_tree option" where
  "file_in n t = node_at [n] t"

definition disabled_in :: "file_tree option \<Rightarrow> string \<Rightarrow> bool" where
  "disabled_in d n \<longleftrightarrow> Option.bind d (node_at [n @ ''.disabled'']) \<noteq> None"

section \<open>Agents\<close>

definition fresh_agent :: agent_item where
  "fresh_agent =
     \<lparr>ai_config = [], ai_prompt = [], ai_prompt_sources = [], ai_sources = [], ai_enabled = True, ai_source = []\<rparr>"

definition union_key :: "pydict \<Rightarrow> pydict \<Rightarrow> pyval list \<Rightarrow> string \<Rightarrow> pydict \<Rightarrow> setup_fault + pydict" where
  "union_key old new replaced k merged =
     (if dict_lookup new k = None \<or> VStr k \<in> set replaced then Inr merged
      else ebind (list_or (dict_get old k)) (\<lambda>xs.
           ebind (list_or (dict_get new k)) (\<lambda>ys.
           ebind (unique_values (xs @ ys)) (\<lambda>zs. Inr (AList.update (KStr k) (VList zs) merged)))))"

definition merge_agent_config :: "pydict \<Rightarrow> pydict \<Rightarrow> setup_fault + pydict" where
  "merge_agent_config old new =
     ebind (list_or (dict_get new ''replace'')) (\<lambda>replaced.
     ebind (unique_values replaced) (\<lambda>_.
     ebind (union_key old new replaced ''tools'' (deep_merge old new)) (\<lambda>merged.
     ebind (union_key old new replaced ''skills'' merged) (\<lambda>merged.
       Inr (filter (\<lambda>p. fst p \<noteq> KStr ''replace'') merged)))))"

definition with_agent_yaml ::
  "resolve_env \<Rightarrow> string \<Rightarrow> string \<Rightarrow> file_tree \<Rightarrow> agent_item \<times> resolved_setup \<Rightarrow> setup_fault + agent_item \<times> resolved_setup" where
  "with_agent_yaml re layer_name name d = (\<lambda>(a, st).
     ebind (read_yaml (re_env re) ''agent.yaml'' (file_in ''agent.yaml'' d)) (\<lambda>new.
       if file_in ''agent.yaml'' d = None then Inr (a, st)
       else ebind (merge_agent_config (ai_config a) new) (\<lambda>merged.
         Inr (a\<lparr>ai_config := merged, ai_enabled := dict_get_default merged ''enabled'' (VBool True) \<noteq> VBool False\<rparr>,
              record_source (''agents/'' @ name @ ''/agent.yaml'') layer_name st))))"

definition with_prompt ::
  "string \<Rightarrow> string \<Rightarrow> file_tree \<Rightarrow> agent_item \<times> resolved_setup \<Rightarrow> setup_fault + agent_item \<times> resolved_setup" where
  "with_prompt layer_name name d = (\<lambda>(a, st).
     if file_in ''prompt.md'' d = None then Inr (a, st)
     else ebind (read_text (file_in ''prompt.md'' d)) (\<lambda>s.
       Inr (a\<lparr>ai_prompt := s, ai_prompt_sources := [layer_name]\<rparr>,
            record_source (''agents/'' @ name @ ''/prompt.md'') layer_name st)))"

definition with_prompt_append ::
  "string \<Rightarrow> string \<Rightarrow> file_tree \<Rightarrow> agent_item \<times> resolved_setup \<Rightarrow> setup_fault + agent_item \<times> resolved_setup" where
  "with_prompt_append layer_name name d = (\<lambda>(a, st).
     if file_in ''prompt.append.md'' d = None then Inr (a, st)
     else ebind (read_text (file_in ''prompt.append.md'' d)) (\<lambda>s.
       Inr (a\<lparr>ai_prompt := (if ai_prompt a \<noteq> [] then rstrip (ai_prompt a) @ [CHR 0x0A, CHR 0x0A] @ s else s),
              ai_prompt_sources := ai_prompt_sources a @ [layer_name]\<rparr>,
            record_source (''agents/'' @ name @ ''/prompt.append.md'') layer_name st)))"

definition add_agent :: "resolve_env \<Rightarrow> string \<Rightarrow> file_tree option \<Rightarrow> resolved_setup \<Rightarrow> string \<times> file_tree \<Rightarrow> setup_fault + resolved_setup" where
  "add_agent re layer_name dir st = (\<lambda>(name, t).
     (case t of
        FileNode _ \<Rightarrow>
          Inr (if path_suffix name = ''.disabled''
               then case map_of (rv_agents st) (path_stem name) of
                      None \<Rightarrow> st
                    | Some a \<Rightarrow> st\<lparr>rv_agents := AList.update (path_stem name)
                                     (a\<lparr>ai_enabled := False, ai_source := layer_name\<rparr>) (rv_agents st)\<rparr>
               else st)
      | DirNode _ \<Rightarrow>
          (let current = (case map_of (rv_agents st) name of None \<Rightarrow> fresh_agent | Some a \<Rightarrow> a) in
           ebind (with_agent_yaml re layer_name name t (current, st)) (\<lambda>x.
           ebind (with_prompt layer_name name t x) (\<lambda>x.
           ebind (with_prompt_append layer_name name t x) (\<lambda>(a, st).
             let a = a\<lparr>ai_source := layer_name,
                       ai_sources := in_order (ai_sources a @ [layer_name]),
                       ai_enabled := ai_enabled a \<and> \<not> disabled_in dir name\<rparr> in
             Inr (st\<lparr>rv_agents := AList.update name a (rv_agents st)\<rparr>)))))))"

section \<open>Skills\<close>

definition history_file :: string where "history_file = ''.fabri-revisions.json''"

definition read_history :: "setup_env \<Rightarrow> file_tree option \<Rightarrow> pydict" where
  "read_history se rt =
     (case Option.bind rt (node_at [history_file]) of
        Some (FileNode s) \<Rightarrow> (case se_json se s of Inr (VDict d) \<Rightarrow> d | _ \<Rightarrow> [])
      | _ \<Rightarrow> [])"

text \<open>\<open>int((history.get(..) or {}).get("revision") or 0)\<close>.\<close>

definition skill_revision :: "setup_env \<Rightarrow> file_tree option \<Rightarrow> string \<Rightarrow> setup_fault + int" where
  "skill_revision se rt name =
     (let entry = dict_get (read_history se rt) (''skills/'' @ name) in
      if \<not> truthy entry then Inr 0
      else case entry of
             VDict d \<Rightarrow>
               if \<not> truthy (dict_get d ''revision'') then Inr 0
               else emap_err (\<lambda>_. OtherFault ''revision'') (int_of (dict_get d ''revision''))
           | _ \<Rightarrow> Inl (OtherFault ''AttributeError''))"

definition skill_references :: "file_tree \<Rightarrow> string list" where
  "skill_references d =
     (case file_in ''references'' d of
        Some (DirNode ts) \<Rightarrow>
          sort (map (\<lambda>(n, _). ''references/'' @ n)
            (filter (\<lambda>(n, t). is_file (Some t) \<and> \<not> hidden_name n) ts))
      | _ \<Rightarrow> [])"

definition str_or :: "(pyval \<Rightarrow> string) \<Rightarrow> pyval \<Rightarrow> string" where
  "str_or str v = (if truthy v then str v else [])"

definition load_of :: "pydict \<Rightarrow> string option" where
  "load_of m =
     (case dict_get m ''load'' of
        VStr s \<Rightarrow> if s = ''always'' \<or> s = ''on_demand'' then Some s else None
      | _ \<Rightarrow> None)"

definition make_skill ::
  "resolve_env \<Rightarrow> layer \<Rightarrow> string \<Rightarrow> file_tree \<Rightarrow> pydict \<Rightarrow> setup_fault + skill_item" where
  "make_skill re l name d m =
     ebind (if file_in ''prompt.md'' d = None then Inr [] else read_text (file_in ''prompt.md'' d)) (\<lambda>prompt.
     ebind (list_or (dict_get m ''types'')) (\<lambda>types.
     ebind (list_or (dict_get m ''tools'')) (\<lambda>tools.
     ebind (list_or (dict_get m ''tags'')) (\<lambda>tags.
     ebind (skill_revision (re_env re) (ly_root l) name) (\<lambda>rev.
       Inr \<lparr>sk_meta = m, sk_types = types, sk_tools = tools, sk_tags = map (se_str (re_env re)) tags,
            sk_when = str_or (se_str (re_env re)) (dict_get m ''when_to_use''), sk_load = load_of m,
            sk_references = skill_references d, sk_revision = rev, sk_prompt = prompt,
            sk_source = ly_name l, sk_files = d\<rparr>)))))"

definition drop_key :: "string \<Rightarrow> (string \<times> 'a) list \<Rightarrow> (string \<times> 'a) list" where
  "drop_key k xs = filter (\<lambda>p. fst p \<noteq> k) xs"

text \<open>A name that is given and is not that of the directory.\<close>

definition misnamed :: "pydict \<Rightarrow> string \<Rightarrow> bool" where
  "misnamed m name \<longleftrightarrow> dict_get m ''name'' \<notin> {VNone, VStr name}"

definition add_skill :: "resolve_env \<Rightarrow> layer \<Rightarrow> file_tree option \<Rightarrow> resolved_setup \<Rightarrow> string \<times> file_tree \<Rightarrow> setup_fault + resolved_setup" where
  "add_skill re l dir st = (\<lambda>(name, t).
     (case t of
        FileNode _ \<Rightarrow>
          Inr (if path_suffix name = ''.disabled''
               then record_source (''skills/'' @ path_stem name) (ly_name l)
                      (st\<lparr>rv_skills := drop_key (path_stem name) (rv_skills st)\<rparr>)
               else st)
      | DirNode _ \<Rightarrow>
          if file_in ''skill.yaml'' t = None then Inr st
          else ebind (read_yaml (re_env re) ''skill.yaml'' (file_in ''skill.yaml'' t)) (\<lambda>m.
            if misnamed m name
            then Inr (warn (''layer '' @ ly_name l @ '': skills/'' @ name
                            @ ''/skill.yaml name does not match its directory'') st)
            else if dict_get m ''enabled'' = VBool False \<or> disabled_in dir name
            then Inr (record_source (''skills/'' @ name) (ly_name l)
                        (st\<lparr>rv_skills := drop_key name (rv_skills st)\<rparr>))
            else ebind (make_skill re l name t m) (\<lambda>sk.
              Inr (record_source (''skills/'' @ name) (ly_name l)
                     (st\<lparr>rv_skills := AList.update name sk (rv_skills st)\<rparr>))))))"


section \<open>Context, data and plays\<close>

definition add_context :: "resolve_env \<Rightarrow> layer \<Rightarrow> file_tree option \<Rightarrow> resolved_setup \<Rightarrow> string \<times> file_tree \<Rightarrow> setup_fault + resolved_setup" where
  "add_context re l dir st = (\<lambda>(name, t).
     (let stem = path_stem name; key = ''context/'' @ path_stem name in
      if path_suffix name = ''.disabled''
      then Inr (record_source key (ly_name l) (st\<lparr>rv_context := drop_key stem (rv_context st)\<rparr>))
      else case t of
             DirNode _ \<Rightarrow> Inr st
           | FileNode s \<Rightarrow>
               if path_suffix name \<noteq> ''.md'' then Inr st
               else ebind (split_frontmatter (re_env re) s) (\<lambda>(m, body).
                 if dict_get m ''enabled'' = VBool False \<or> disabled_in dir stem
                 then Inr (record_source key (ly_name l) (st\<lparr>rv_context := drop_key stem (rv_context st)\<rparr>))
                 else ebind (list_or (dict_get m ''types'')) (\<lambda>types.
                   Inr (record_source key (ly_name l)
                     (st\<lparr>rv_context := AList.update stem \<lparr>cx_text = body, cx_types = types, cx_source = ly_name l\<rparr>
                                         (rv_context st)\<rparr>))))))"

definition add_data :: "layer \<Rightarrow> file_tree option \<Rightarrow> string \<times> file_tree \<Rightarrow> resolved_setup \<Rightarrow> resolved_setup" where
  "add_data l dir = (\<lambda>(name, t) st.
     (let stem = path_stem name; key = ''data/'' @ path_stem name in
      case t of
        DirNode _ \<Rightarrow> st
      | FileNode s \<Rightarrow>
          if path_suffix name = ''.disabled''
          then record_source key (ly_name l) (st\<lparr>rv_data := drop_key stem (rv_data st)\<rparr>)
          else if disabled_in dir stem then st
          else record_source key (ly_name l)
                 (st\<lparr>rv_data := AList.update stem
                       \<lparr>di_file = name, di_bytes = length s, di_content = s, di_source = ly_name l\<rparr> (rv_data st)\<rparr>)))"

definition add_play :: "resolve_env \<Rightarrow> layer \<Rightarrow> file_tree option \<Rightarrow> resolved_setup \<Rightarrow> string \<times> file_tree \<Rightarrow> setup_fault + resolved_setup" where
  "add_play re l dir st = (\<lambda>(name, t).
     (case t of
        FileNode _ \<Rightarrow>
          Inr (if path_suffix name = ''.disabled'' then st\<lparr>rv_plays := drop_key (path_stem name) (rv_plays st)\<rparr> else st)
      | DirNode _ \<Rightarrow>
          if file_in ''play.yaml'' t = None then Inr st
          else ebind (read_yaml (re_env re) ''play.yaml'' (file_in ''play.yaml'' t)) (\<lambda>m.
            Inr (record_source (''plays/'' @ name) (ly_name l)
              (if dict_get m ''enabled'' = VBool False \<or> disabled_in dir name
               then st\<lparr>rv_plays := drop_key name (rv_plays st)\<rparr>
               else if misnamed m name
               then warn (''layer '' @ ly_name l @ '': plays/'' @ name
                          @ ''/play.yaml name does not match its directory'') st
               else st\<lparr>rv_plays := AList.update name \<lparr>pl_meta = m, pl_source = ly_name l\<rparr> (rv_plays st)\<rparr>)))))"

section \<open>Tools\<close>

definition declared :: "layer \<Rightarrow> pydict \<Rightarrow> source_item" where
  "declared l d = \<lparr>si_decl = d, si_layer = ly_name l, si_origin = ''declared''\<rparr>"

definition named_source :: "pyval \<Rightarrow> pydict option" where
  "named_source v = (case v of VDict d \<Rightarrow> if truthy (dict_get d ''name'') then Some d else None | _ \<Rightarrow> None)"

definition put_source :: "(pyval \<Rightarrow> string) \<Rightarrow> layer \<Rightarrow> pydict \<Rightarrow> resolved_setup \<Rightarrow> resolved_setup" where
  "put_source str l d st =
     (let name = str (dict_get d ''name'') in
      record_source (''tools/sources/'' @ name) (ly_name l)
        (st\<lparr>rv_tool_sources := AList.update name (declared l d) (rv_tool_sources st)\<rparr>))"

definition add_source_entry :: "(pyval \<Rightarrow> string) \<Rightarrow> layer \<Rightarrow> pyval \<Rightarrow> resolved_setup \<Rightarrow> resolved_setup" where
  "add_source_entry str l v st =
     (case named_source v of
        None \<Rightarrow> warn (''layer '' @ ly_name l @ '': tools.yaml has a source without a name'') st
      | Some d \<Rightarrow> put_source str l d st)"

definition add_allow :: "layer \<Rightarrow> string list \<Rightarrow> resolved_setup \<Rightarrow> resolved_setup" where
  "add_allow l es st = st\<lparr>rv_allow := rv_allow st @ map (\<lambda>e. (e, ly_name l)) es\<rparr>"

text \<open>One source of a file under \<open>tools/sources/\<close>, with the names the layer has declared so far.\<close>

definition add_filed_source ::
  "(pyval \<Rightarrow> string) \<Rightarrow> layer \<Rightarrow> string \<Rightarrow> pyval \<Rightarrow> string list \<times> resolved_setup \<Rightarrow> string list \<times> resolved_setup" where
  "add_filed_source str l file v = (\<lambda>(here, st).
     (case named_source v of
        None \<Rightarrow> (here, warn (''layer '' @ ly_name l @ '': tools/sources/'' @ file @ '' has a source without a name'') st)
      | Some d \<Rightarrow>
          (let name = str (dict_get d ''name'');
               st = (if name \<in> set here
                     then warn (''layer '' @ ly_name l @ '': source '' @ name @ '' is in tools.yaml and tools/sources/''
                                @ file @ ''; the sources file wins'') st
                     else st)
           in (here @ [name], put_source str l d st))))"

definition add_source_file ::
  "resolve_env \<Rightarrow> layer \<Rightarrow> string list \<times> resolved_setup \<Rightarrow> string \<times> file_tree
     \<Rightarrow> setup_fault + string list \<times> resolved_setup" where
  "add_source_file re l x = (\<lambda>(file, t).
     ebind (read_yaml (re_env re) file (Some t)) (\<lambda>y.
     ebind (list_or (dict_get y ''sources'')) (\<lambda>decls.
     ebind (list_or (dict_get y ''allow'')) (\<lambda>allow.
       (case fold (add_filed_source (se_str (re_env re)) l file) decls x of
          (here, st) \<Rightarrow> Inr (here, add_allow l (map (se_str (re_env re)) allow) st))))))"

definition put_description :: "string \<Rightarrow> (pyval \<Rightarrow> string) \<Rightarrow> pydict \<Rightarrow> string \<Rightarrow> (string \<times> string) list \<Rightarrow> (string \<times> string) list" where
  "put_description layer_name str d k m =
     (if truthy (dict_get d k)
      then AList.update (k @ ''_source'') layer_name (AList.update k (str (dict_get d k)) m) else m)"

definition add_description :: "(pykey \<Rightarrow> string) \<Rightarrow> (pyval \<Rightarrow> string) \<Rightarrow> layer \<Rightarrow> pykey \<times> pyval \<Rightarrow> resolved_setup \<Rightarrow> resolved_setup" where
  "add_description key_text str l = (\<lambda>(k, v) st.
     (case v of
        VDict d \<Rightarrow>
          (let name = key_text k;
               old = (case map_of (rv_descriptions st) name of None \<Rightarrow> [] | Some m \<Rightarrow> m);
               new = put_description (ly_name l) str d ''description'' (put_description (ly_name l) str d ''title'' old)
           in st\<lparr>rv_descriptions := AList.update name new (rv_descriptions st)\<rparr>)
      | _ \<Rightarrow> st))"

text \<open>\<open>str\<close> of a key.\<close>

definition key_value_of :: "pykey \<Rightarrow> pyval" where
  "key_value_of k = (case k of KStr s \<Rightarrow> VStr s | KInt i \<Rightarrow> VInt i | KBool b \<Rightarrow> VBool b | KNone \<Rightarrow> VNone)"

definition add_registered :: "layer \<Rightarrow> registered_tool \<Rightarrow> resolved_setup \<Rightarrow> resolved_setup" where
  "add_registered l g st =
     (let key = ''registered:'' @ rg_name g in
      if \<not> rg_enabled g then st\<lparr>rv_tool_sources := drop_key key (rv_tool_sources st)\<rparr>
      else record_source (''tools/registered/'' @ rg_name g) (ly_name l)
             (add_allow l (rg_allow g)
               (st\<lparr>rv_tool_sources := AList.update key
                     \<lparr>si_decl = rg_decl g, si_layer = ly_name l, si_origin = ''registered''\<rparr> (rv_tool_sources st)\<rparr>)))"

text \<open>The files \<open>*.yaml\<close> of a directory, by name, hidden ones excluded.\<close>

definition yaml_files :: "file_tree option \<Rightarrow> (string \<times> file_tree) list" where
  "yaml_files d = filter (\<lambda>(n, _). length n \<ge> 5 \<and> drop (length n - 5) n = ''.yaml'') (children d)"

definition add_tools :: "resolve_env \<Rightarrow> layer \<Rightarrow> file_tree option \<Rightarrow> resolving" where
  "add_tools re l dir st =
     (let str = se_str (re_env re); sub = (\<lambda>ns. Option.bind dir (node_at ns)) in
      ebind (read_yaml (re_env re) ''tools.yaml'' (sub [''tools.yaml''])) (\<lambda>y.
      ebind (list_or (dict_get y ''sources'')) (\<lambda>decls.
      ebind (list_or (dict_get y ''allow'')) (\<lambda>allow.
      let st = add_allow l (map str allow) (fold (add_source_entry str l) decls st);
          here = List.map_filter (\<lambda>v. case v of VDict d \<Rightarrow> Some (str (dict_get d ''name'')) | _ \<Rightarrow> None) decls in
      ebind (efold (add_source_file re l) (here, st) (yaml_files (sub [''sources'']))) (\<lambda>(_, st).
      ebind (read_yaml (re_env re) ''descriptions.yaml'' (sub [''descriptions.yaml''])) (\<lambda>ds.
      let st = fold (add_description (str \<circ> key_value_of) str l) ds st in
        Inr (case sub [''registered''] of
               Some (DirNode ts) \<Rightarrow> fold (add_registered l) (re_registered re (DirNode ts)) st
             | _ \<Rightarrow> st)))))))"

section \<open>Resolving\<close>

definition add_layer :: "resolve_env \<Rightarrow> resolved_setup \<Rightarrow> layer \<Rightarrow> setup_fault + resolved_setup" where
  "add_layer re st l =
     (if \<not> is_dir (ly_root l)
      then Inr (warn (''layer '' @ ly_name l @ '': '' @ ly_path l @ '' does not exist'') st)
      else let part = (\<lambda>n. Option.bind (ly_root l) (node_at [n])) in
           ebind (read_yaml (re_env re) ''setup.yaml'' (part ''setup.yaml'')) (\<lambda>y.
           let st = (if y = [] then st
                     else record_source ''setup.yaml'' (ly_name l) (st\<lparr>rv_setup := deep_merge (rv_setup st) y\<rparr>)) in
           ebind (efold (add_agent re (ly_name l) (part ''agents'')) st (children (part ''agents''))) (\<lambda>st.
           ebind (efold (add_skill re l (part ''skills'')) st (children (part ''skills''))) (\<lambda>st.
           ebind (efold (add_context re l (part ''context'')) st (children (part ''context''))) (\<lambda>st.
           let st = fold (add_data l (part ''data'')) (children (part ''data'')) st in
           ebind (efold (add_play re l (part ''plays'')) st (children (part ''plays''))) (\<lambda>st.
             add_tools re l (part ''tools'') st))))))"

definition disable_type :: "pykey \<times> pyval \<Rightarrow> resolved_setup \<Rightarrow> resolved_setup" where
  "disable_type = (\<lambda>(k, v) st.
     (case k of
        KStr name \<Rightarrow>
          (case map_of (rv_agents st) name of
             Some a \<Rightarrow> if v = VBool False
                       then st\<lparr>rv_agents := AList.update name (a\<lparr>ai_enabled := False\<rparr>) (rv_agents st)\<rparr> else st
           | None \<Rightarrow> st)
      | _ \<Rightarrow> st))"

definition resolve_layers :: "resolve_env \<Rightarrow> layer list \<Rightarrow> setup_fault + resolved_setup" where
  "resolve_layers re ls =
     ebind (efold (add_layer re) nothing_resolved ls) (\<lambda>st.
       let flags = dict_get (rv_setup st) ''agent_types'' in
       if \<not> truthy flags then Inr st
       else case flags of
              VDict d \<Rightarrow> Inr (fold disable_type d st)
            | _ \<Rightarrow> Inl (OtherFault ''AttributeError''))"

definition resolve_setup :: "resolve_env \<Rightarrow> layer list \<Rightarrow> setup_fault + resolved_setup" where
  "resolve_setup re ls = ebind (as_layers ls) (resolve_layers re)"

end
