(* ===== verification/Setup_Views.thy ===== *)
theory Setup_Views
  imports Setup_Resolve
begin

text \<open>
  What an agent type loads from a resolved setup (the methods of \<open>ResolvedSetup\<close> in
  \<open>src/fabri/setups/resolver.py\<close> and the tool of \<open>setups/skill_tool.py\<close>): its skills with their
  load modes, its context, its tools, its system prompt within the budgets, and the text of a
  skill on demand.  The ranking of skills for a task is a parameter.
\<close>

section \<open>Budgets and types\<close>

definition setup_budgets :: "resolved_setup \<Rightarrow> (string \<times> int) list" where
  "setup_budgets rv =
     (case dict_get (rv_setup rv) ''budgets'' of
        VDict raw \<Rightarrow> fold (override_budget (\<lambda>_. True)) raw layer_default_budgets
      | _ \<Rightarrow> layer_default_budgets)"

definition budget :: "resolved_setup \<Rightarrow> string \<Rightarrow> int" where
  "budget rv k = (case map_of (setup_budgets rv) k of None \<Rightarrow> 0 | Some i \<Rightarrow> i)"

definition agent_types :: "resolved_setup \<Rightarrow> string list" where
  "agent_types rv = map fst (filter (\<lambda>(_, a). ai_enabled a) (rv_agents rv))"

definition agent_of :: "resolved_setup \<Rightarrow> string \<Rightarrow> setup_fault + agent_item" where
  "agent_of rv t =
     (case map_of (rv_agents rv) t of
        Some a \<Rightarrow> if ai_enabled a then Inr a else Inl (SetupFault (''agent type '' @ t @ '' is not defined or is disabled''))
      | None \<Rightarrow> Inl (SetupFault (''agent type '' @ t @ '' is not defined or is disabled'')))"

record route_option =
  ro_type :: string
  ro_description :: string
  ro_not_for :: string
  ro_source :: string

definition route_options :: "(pyval \<Rightarrow> string) \<Rightarrow> resolved_setup \<Rightarrow> route_option list" where
  "route_options str rv =
     List.map_filter (\<lambda>(n, a).
         case dict_get (ai_config a) ''route'' of
           VDict r \<Rightarrow>
             if truthy (dict_get r ''description'') \<and> truthy (dict_get r ''not_for'')
             then Some \<lparr>ro_type = n, ro_description = str (dict_get r ''description''),
                        ro_not_for = str (dict_get r ''not_for''), ro_source = ai_source a\<rparr>
             else None
         | _ \<Rightarrow> None) (filter (\<lambda>(_, a). ai_enabled a) (rv_agents rv))"

section \<open>Skills\<close>

definition config_of :: "resolved_setup \<Rightarrow> string \<Rightarrow> pydict" where
  "config_of rv t = (case map_of (rv_agents rv) t of None \<Rightarrow> [] | Some a \<Rightarrow> ai_config a)"

definition skills_for :: "resolved_setup \<Rightarrow> string \<Rightarrow> setup_fault + string list" where
  "skills_for rv t =
     ebind (list_or (dict_get (config_of rv t) ''skills'')) (\<lambda>forced.
     ebind (unique_values forced) (\<lambda>forced.
       Inr (map fst (filter (\<lambda>(n, s). VStr n \<in> set forced \<or> sk_types s = [] \<or> VStr t \<in> set (sk_types s))
             (rv_skills rv)))))"

datatype load_mode = Always | OnDemand

definition skill_load_mode :: "resolved_setup \<Rightarrow> skill_item \<Rightarrow> load_mode" where
  "skill_load_mode rv s =
     (case sk_load s of
        Some m \<Rightarrow> if m = ''always'' then Always else OnDemand
      | None \<Rightarrow>
          if ''always'' \<in> set (sk_tags s) then Always
          else if dict_get (rv_setup rv) ''skill_load'' = VStr ''on_demand'' then OnDemand else Always)"

text \<open>Why a skill moved: its own size, or the size the loaded skills would reach.\<close>

datatype move_reason = PromptSize nat int | TotalSize int int

definition skill_size :: "skill_item \<Rightarrow> nat" where
  "skill_size s = length (strip (sk_prompt s))"

fun modes_from ::
  "resolved_setup \<Rightarrow> int \<Rightarrow> (string \<times> skill_item) list \<Rightarrow> (string \<times> load_mode \<times> move_reason option) list" where
  "modes_from rv used [] = []"
| "modes_from rv used ((n, s) # rest) =
     (let size = skill_size s; cap = budget rv ''skill_prompt_chars''; all = budget rv ''skills_total_chars'' in
      if skill_load_mode rv s = OnDemand then (n, OnDemand, None) # modes_from rv used rest
      else if cap < int size then (n, OnDemand, Some (PromptSize size cap)) # modes_from rv used rest
      else if all < used + int size
      then (n, OnDemand, Some (TotalSize (used + int size) all)) # modes_from rv used rest
      else (n, Always, None) # modes_from rv (used + int size) rest)"

definition items_of :: "(string \<times> 'a) list \<Rightarrow> string list \<Rightarrow> (string \<times> 'a) list" where
  "items_of xs ns = List.map_filter (\<lambda>n. map_option (Pair n) (map_of xs n)) ns"

definition skill_modes :: "resolved_setup \<Rightarrow> string \<Rightarrow> setup_fault + (string \<times> load_mode \<times> move_reason option) list" where
  "skill_modes rv t = ebind (skills_for rv t) (\<lambda>ns. Inr (modes_from rv 0 (items_of (rv_skills rv) ns)))"

definition on_demand_skills :: "resolved_setup \<Rightarrow> string \<Rightarrow> setup_fault + string list" where
  "on_demand_skills rv t =
     ebind (skill_modes rv t) (\<lambda>ms. Inr (map fst (filter (\<lambda>(_, m, _). m = OnDemand) ms)))"

text \<open>\<open>" ".join(s.split())\<close>.\<close>

definition one_line :: "string \<Rightarrow> string" where
  "one_line s = join '' '' (filter (\<lambda>w. w \<noteq> []) (split_on CHR '' '' (map (\<lambda>c. if is_space c then CHR '' '' else c) s)))"

definition skill_index_line :: "(pyval \<Rightarrow> string) \<Rightarrow> string \<Rightarrow> skill_item \<Rightarrow> string" where
  "skill_index_line str n s =
     ''- `'' @ n @ ''`: '' @ one_line (str_or str (dict_get (sk_meta s) ''description''))
     @ (if sk_when s \<noteq> [] then '' Use when: '' @ one_line (sk_when s) else [])
     @ (if sk_references s \<noteq> []
        then '' ('' @ show_nat (length (sk_references s)) @ '' reference file''
             @ (if length (sk_references s) \<noteq> 1 then ''s'' else []) @ '')''
        else [])"

record loaded_skill =
  ld_name :: string
  ld_reference :: "string option"
  ld_revision :: int
  ld_tools :: "pyval list"
  ld_references :: "string list"
  ld_truncated :: bool
  ld_text :: string

text \<open>\<open>text[:limit]\<close>: a negative limit cuts from the end.\<close>

definition text_upto :: "int \<Rightarrow> string \<Rightarrow> string" where
  "text_upto n s = (if 0 \<le> n then take (nat n) s else take (length s - nat (- n)) s)"

text \<open>The parts of a path.\<close>

definition path_parts :: "string \<Rightarrow> string list" where "path_parts s = split_on CHR ''/'' s"

definition load_skill :: "resolved_setup \<Rightarrow> string \<Rightarrow> string \<Rightarrow> string option \<Rightarrow> setup_fault + loaded_skill" where
  "load_skill rv t name reference =
     ebind (skills_for rv t) (\<lambda>ns.
       case (if name \<in> set ns then map_of (rv_skills rv) name else None) of
         None \<Rightarrow> Inl (SetupFault (''no skill named '' @ name @ '' for agent type '' @ t))
       | Some s \<Rightarrow>
           (let limit = budget rv ''skill_ondemand_chars'';
                out = (\<lambda>text tools refs. \<lparr>ld_name = name, ld_reference = reference, ld_revision = sk_revision s,
                         ld_tools = tools, ld_references = refs, ld_truncated = limit < int (length text),
                         ld_text = text_upto limit text\<rparr>) in
            case reference of
              None \<Rightarrow> Inr (out (strip (sk_prompt s)) (sk_tools s) (sk_references s))
            | Some r \<Rightarrow>
                if r \<notin> set (sk_references s)
                then Inl (SetupFault (''skill '' @ name @ '' has no reference '' @ r))
                else ebind (read_text (node_at (path_parts r) (sk_files s))) (\<lambda>text. Inr (out text [] []))))"

section \<open>Context, tools and the prompt\<close>

definition context_for :: "resolved_setup \<Rightarrow> string option \<Rightarrow> (string \<times> context_item) list" where
  "context_for rv t =
     (case t of
        None \<Rightarrow> rv_context rv
      | Some t \<Rightarrow> filter (\<lambda>(_, c). cx_types c = [] \<or> VStr t \<in> set (cx_types c)) (rv_context rv))"

definition tools_for :: "resolved_setup \<Rightarrow> string \<Rightarrow> setup_fault + pyval list option" where
  "tools_for rv t =
     (case dict_lookup (config_of rv t) ''tools'' of
        None \<Rightarrow> Inr None
      | Some v \<Rightarrow>
          ebind (list_or v) (\<lambda>own.
          ebind (skills_for rv t) (\<lambda>ns.
          ebind (unique_values (own @ concat (map (\<lambda>(_, s). sk_tools s) (items_of (rv_skills rv) ns))))
            (\<lambda>ts. Inr (Some ts)))))"

type_synonym skill_ranker = "string \<Rightarrow> string list \<Rightarrow> string list"

definition split_skill_index ::
  "resolved_setup \<Rightarrow> skill_ranker \<Rightarrow> string list \<Rightarrow> string option \<Rightarrow> int option \<Rightarrow> string list \<times> string list" where
  "split_skill_index rv ranker ns task top_k =
     (let k = (case top_k of Some k \<Rightarrow> Some k | None \<Rightarrow> int_like (dict_get (rv_setup rv) ''skill_index_top_k'')) in
      case (task, k) of
        (Some t, Some k) \<Rightarrow>
          if t \<noteq> [] \<and> k < int (length ns)
          then (let ranked = ranker t ns;
                    stop = (if 0 \<le> k then nat k else length ranked - nat (- k)) in (take stop ranked, drop stop ranked))
          else (ns, [])
      | _ \<Rightarrow> (ns, []))"

definition section_of :: "string \<times> context_item \<Rightarrow> string" where
  "section_of = (\<lambda>(n, c). ''### '' @ n @ [CHR 0x0A] @ strip (cx_text c))"

text \<open>Whole files that fit, and the one at which the context was cut.\<close>

fun context_parts :: "int \<Rightarrow> int \<Rightarrow> (string \<times> context_item) list \<Rightarrow> string list \<times> string option" where
  "context_parts cap used [] = ([], None)"
| "context_parts cap used (c # cs) =
     (if cap < used + int (length (section_of c)) then ([], Some (fst c))
      else case context_parts cap (used + int (length (section_of c))) cs of
             (parts, stop) \<Rightarrow> (section_of c # parts, stop))"

definition two_breaks :: string where "two_breaks = [CHR 0x0A, CHR 0x0A]"

definition on_demand_intro :: string where
  "on_demand_intro =
     ''## Skills to load on demand'' @ two_breaks
     @ ''Each skill below holds detailed instructions that are not in this prompt. ''
     @ ''Call `load_skill` with the skill name when a task matches its description, ''
     @ ''before you act on that task.'' @ two_breaks"

definition skill_index :: "(pyval \<Rightarrow> string) \<Rightarrow> resolved_setup \<Rightarrow> string list \<times> string list \<Rightarrow> string" where
  "skill_index str rv = (\<lambda>(full, rest).
     join [CHR 0x0A] (map (\<lambda>(n, s). skill_index_line str n s) (items_of (rv_skills rv) full))
     @ (if rest = [] then []
        else two_breaks @ ''Also available to load by name: '' @ join '', '' (map (\<lambda>n. ''`'' @ n @ ''`'') rest)))"

definition show_reason :: "move_reason \<Rightarrow> string" where
  "show_reason r =
     (case r of
        PromptSize n cap \<Rightarrow> ''prompt is '' @ show_nat n @ '' chars, budget '' @ show_int cap
      | TotalSize n cap \<Rightarrow> ''always-loaded skills would reach '' @ show_int n @ '' chars, budget '' @ show_int cap)"

definition skill_warnings :: "(string \<times> load_mode \<times> move_reason option) list \<Rightarrow> string list" where
  "skill_warnings ms =
     List.map_filter (\<lambda>(n, m, r). map_option (\<lambda>r. ''skill '' @ n @ '' moved to on demand: '' @ show_reason r) r) ms"

definition always_parts :: "resolved_setup \<Rightarrow> (string \<times> load_mode \<times> move_reason option) list \<Rightarrow> string list" where
  "always_parts rv ms =
     List.map_filter (\<lambda>(n, s). let text = strip (sk_prompt s) in
         if text = [] then None else Some (''### '' @ n @ [CHR 0x0A] @ text))
       (items_of (rv_skills rv) (map fst (filter (\<lambda>(_, m, _). m = Always) ms)))"

definition setup_prompt ::
  "(pyval \<Rightarrow> string) \<Rightarrow> skill_ranker \<Rightarrow> resolved_setup \<Rightarrow> string \<Rightarrow> string \<Rightarrow> string option \<Rightarrow> int option
     \<Rightarrow> setup_fault + string \<times> string list" where
  "setup_prompt str ranker rv t base task top_k =
     ebind (agent_of rv t) (\<lambda>a.
     ebind (skill_modes rv t) (\<lambda>ms.
       let head = filter (\<lambda>p. p \<noteq> []) [strip base, strip (ai_prompt a)];
           skills = always_parts rv ms;
           later = map fst (filter (\<lambda>(_, m, _). m = OnDemand) ms);
           cap = budget rv ''context_chars'' in
       case context_parts cap 0 (context_for rv (Some t)) of
         (parts, stop) \<Rightarrow>
           Inr (join two_breaks
                  (head
                   @ (if skills = [] then [] else [''## Skills'' @ two_breaks @ join two_breaks skills])
                   @ (if later = [] then [] else [on_demand_intro @ skill_index str rv (split_skill_index rv ranker later task top_k)])
                   @ (if parts = [] then [] else [''## Context'' @ two_breaks @ join two_breaks parts])),
                skill_warnings ms
                @ (case stop of None \<Rightarrow> []
                   | Some n \<Rightarrow> [''context cut at '' @ n @ '': over the '' @ show_int cap @ '' char budget'']))))"

definition read_data :: "resolved_setup \<Rightarrow> string \<Rightarrow> setup_fault + string" where
  "read_data rv n =
     (case map_of (rv_data rv) n of
        None \<Rightarrow> Inl (SetupFault (''no data item named '' @ n)) | Some d \<Rightarrow> Inr (di_content d))"

section \<open>The tool that loads a skill\<close>

text \<open>What a call of \<open>load_skill\<close> answers, and the tools it exposes.\<close>

datatype skill_reply = SkillError string | SkillLoaded loaded_skill "pyval list"

definition load_skill_tool :: "(pyval \<Rightarrow> string) \<Rightarrow> resolved_setup \<Rightarrow> string \<Rightarrow> string list \<Rightarrow> pydict \<Rightarrow> setup_fault + skill_reply" where
  "load_skill_tool str rv t names args =
     (let name = strip (str_or str (dict_get args ''name''));
          v = dict_get args ''reference'';
          reference = (if truthy v then Some (str v) else None) in
      if name = [] then Inr (SkillError (''load_skill: `name` is required. Skills: '' @ join '', '' names))
      else if name \<notin> set names
      then Inr (SkillError (''load_skill: no on-demand skill named '' @ name @ ''. Skills: '' @ join '', '' names))
      else case load_skill rv t name reference of
             Inr r \<Rightarrow> Inr (SkillLoaded r (if reference = None then ld_tools r else []))
           | Inl (SetupFault e) \<Rightarrow> Inr (SkillError (''load_skill: '' @ e))
           | Inl (OsFault e) \<Rightarrow> Inr (SkillError (''load_skill: '' @ e))
           | Inl (OtherFault e) \<Rightarrow> Inl (OtherFault e))"

text \<open>\<open>register_load_skill\<close>: nothing where the type has no skills on demand.\<close>

definition register_load_skill :: "resolved_setup \<Rightarrow> string \<Rightarrow> setup_fault + string list option" where
  "register_load_skill rv t =
     ebind (on_demand_skills rv t) (\<lambda>ns. Inr (if ns = [] then None else Some ns))"

end
