(* ===== verification/Setup_Laws.thy ===== *)
theory Setup_Laws
  imports Setup_Views
begin

text \<open>
  What the resolution of layers guarantees: mappings merge key by key, the deepest layer that
  says something of a skill decides it, prompts stay within their budgets, and a skill that moved
  out of a prompt can still be loaded.
\<close>

section \<open>Merging\<close>

definition merge_value :: "pyval option \<Rightarrow> pyval \<Rightarrow> pyval" where
  "merge_value old v =
     (case v of
        VDict o1 \<Rightarrow> (case old of Some (VDict b) \<Rightarrow> VDict (deep_merge b o1) | _ \<Rightarrow> v)
      | _ \<Rightarrow> v)"

lemma deep_merge_Cons:
  "deep_merge out ((k, v) # over) = deep_merge (AList.update k (merge_value (map_of out k) v) out) over"
  by (cases v) (simp_all add: merge_value_def split: option.split pyval.split)

text \<open>
  The merge of two mappings, key by key: a key of the deeper one alone or of the shallower one
  alone keeps its value, two mappings under one key are merged in the same way, and any other
  value of the deeper one replaces what was there.
\<close>

theorem deep_merge_by_key:
  assumes "distinct (map fst over)"
  shows "map_of (deep_merge base over) k =
    (case map_of over k of None \<Rightarrow> map_of base k | Some v \<Rightarrow> Some (merge_value (map_of base k) v))"
  using assms
proof (induction over arbitrary: base)
  case (Cons p over)
  obtain j v where p: "p = (j, v)" by fastforce
  have "j \<notin> fst ` set over" "distinct (map fst over)" using Cons.prems p by auto
  moreover from this have "map_of over j = None" by (simp add: map_of_eq_None_iff)
  ultimately show ?case
    using Cons.IH[of "AList.update j (merge_value (map_of base j) v) base"]
    by (auto simp: p deep_merge_Cons update_conv' split: option.split)
qed simp

section \<open>The deepest layer decides\<close>

lemma warn_skills [simp]: "rv_skills (warn w st) = rv_skills st"
  by (simp add: warn_def)

lemma record_source_skills [simp]: "rv_skills (record_source k n st) = rv_skills st"
  by (simp add: record_source_def)

lemma add_allow_skills [simp]: "rv_skills (add_allow l es st) = rv_skills st"
  by (simp add: add_allow_def)

lemma put_source_skills [simp]: "rv_skills (put_source str l d st) = rv_skills st"
  by (simp add: put_source_def Let_def)

lemma fold_keeps: "(\<And>x s. x \<in> set xs \<Longrightarrow> f (g x s) = f s) \<Longrightarrow> f (fold g xs s) = f s"
  by (induction xs arbitrary: s) auto

lemma efold_keeps:
  "(\<And>x s t. x \<in> set xs \<Longrightarrow> g s x = Inr t \<Longrightarrow> f t = f s) \<Longrightarrow> efold g s xs = Inr t \<Longrightarrow> f t = f s"
proof (induction xs arbitrary: s)
  case (Cons x xs)
  then obtain u where "g s x = Inr u" "efold g u xs = Inr t" by (cases "g s x") auto
  with Cons show ?case by (metis list.set_intros)
qed simp

lemma efold_append: "efold f s (xs @ ys) = ebind (efold f s xs) (\<lambda>t. efold f t ys)"
proof (induction xs arbitrary: s)
  case (Cons x xs)
  then show ?case by (cases "f s x") simp_all
qed simp

lemma add_agent_skills: "add_agent re n dir st p = Inr st' \<Longrightarrow> rv_skills st' = rv_skills st"
  by (auto simp: add_agent_def with_agent_yaml_def with_prompt_def with_prompt_append_def ebind_def Let_def
      split: prod.splits file_tree.splits sum.splits if_splits option.splits)

lemma add_context_skills: "add_context re l dir st p = Inr st' \<Longrightarrow> rv_skills st' = rv_skills st"
  by (auto simp: add_context_def ebind_def Let_def split: prod.splits file_tree.splits sum.splits if_splits)

lemma add_data_skills: "rv_skills (add_data l dir p st) = rv_skills st"
  by (auto simp: add_data_def Let_def split: prod.splits file_tree.splits if_splits)

lemma add_play_skills: "add_play re l dir st p = Inr st' \<Longrightarrow> rv_skills st' = rv_skills st"
  by (auto simp: add_play_def ebind_def split: prod.splits file_tree.splits sum.splits if_splits)

lemma add_source_entry_skills: "rv_skills (add_source_entry str l v st) = rv_skills st"
  by (simp add: add_source_entry_def split: option.split)

lemma add_filed_source_skills: "rv_skills (snd (add_filed_source str l file v x)) = rv_skills (snd x)"
  by (auto simp: add_filed_source_def Let_def split: prod.splits option.split)

lemma add_source_file_skills:
  assumes "add_source_file re l x p = Inr y"
  shows "rv_skills (snd y) = rv_skills (snd x)"
proof -
  obtain f t where p: "p = (f, t)" by fastforce
  obtain y0 decls allow where "read_yaml (re_env re) f (Some t) = Inr y0"
    and "list_or (dict_get y0 ''sources'') = Inr decls" and "list_or (dict_get y0 ''allow'') = Inr allow"
    using assms by (auto simp: add_source_file_def p)
  then have "y = (case fold (add_filed_source (se_str (re_env re)) l f) decls x of
          (here, st) \<Rightarrow> (here, add_allow l (map (se_str (re_env re)) allow) st))"
    using assms by (cases "fold (add_filed_source (se_str (re_env re)) l f) decls x") (simp add: add_source_file_def p)
  then have "rv_skills (snd y) = rv_skills (snd (fold (add_filed_source (se_str (re_env re)) l f) decls x))"
    by (simp split: prod.split)
  then show ?thesis
    using fold_keeps[of decls "rv_skills \<circ> snd" "add_filed_source (se_str (re_env re)) l f"] add_filed_source_skills
    by simp
qed

lemma add_description_skills: "rv_skills (add_description kt str l p st) = rv_skills st"
  by (auto simp: add_description_def Let_def split: prod.splits pyval.split)

lemma add_registered_skills: "rv_skills (add_registered l g st) = rv_skills st"
  by (simp add: add_registered_def Let_def)

lemma add_tools_skills:
  assumes "add_tools re l dir st = Inr st'"
  shows "rv_skills st' = rv_skills st"
proof -
  let ?str = "se_str (re_env re)" and ?sub = "\<lambda>ns. Option.bind dir (node_at ns)"
  obtain decls allow here ds here' st2 where
    x: "efold (add_source_file re l) (here, add_allow l (map ?str allow) (fold (add_source_entry ?str l) decls st))
          (yaml_files (?sub [''sources''])) = Inr (here', st2)"
    and st': "st' = (let st = fold (add_description (?str \<circ> key_value_of) ?str l) ds st2 in
        case ?sub [''registered''] of
               Some (DirNode ts) \<Rightarrow> fold (add_registered l) (re_registered re (DirNode ts)) st
             | _ \<Rightarrow> st)"
    using assms unfolding add_tools_def Let_def
    by (auto simp: ebind_def split: sum.splits prod.splits)
  have "rv_skills st2 = rv_skills (fold (add_source_entry ?str l) decls st)"
    using efold_keeps[OF _ x, of "rv_skills \<circ> snd"] add_source_file_skills by simp
  also have "\<dots> = rv_skills st" by (rule fold_keeps) (rule add_source_entry_skills)
  finally have "rv_skills (fold (add_description (?str \<circ> key_value_of) ?str l) ds st2) = rv_skills st"
    by (subst fold_keeps) (auto simp: add_description_skills)
  then show ?thesis
    unfolding st' Let_def using fold_keeps[of _ rv_skills "add_registered l"] add_registered_skills
    by (auto split: option.split file_tree.split)
qed

text \<open>The skills after one layer are those after its directory of skills.\<close>

definition part :: "layer \<Rightarrow> string \<Rightarrow> file_tree option" where
  "part l n = Option.bind (ly_root l) (node_at [n])"

lemma add_layer_skills:
  assumes "add_layer re st l = Inr st'" and "is_dir (ly_root l)"
  shows "\<exists>s t. rv_skills s = rv_skills st
    \<and> efold (add_skill re l (part l ''skills'')) s (children (part l ''skills'')) = Inr t \<and> rv_skills st' = rv_skills t"
proof -
  obtain y where y: "ebind (efold (add_agent re (ly_name l) (part l ''agents''))
      (if y = [] then st else record_source ''setup.yaml'' (ly_name l) (st\<lparr>rv_setup := deep_merge (rv_setup st) y\<rparr>))
      (children (part l ''agents''))) (\<lambda>st.
           ebind (efold (add_skill re l (part l ''skills'')) st (children (part l ''skills''))) (\<lambda>st.
           ebind (efold (add_context re l (part l ''context'')) st (children (part l ''context''))) (\<lambda>st.
           ebind (efold (add_play re l (part l ''plays'')) (fold (add_data l (part l ''data'')) (children (part l ''data'')) st)
                   (children (part l ''plays''))) (\<lambda>st.
             add_tools re l (part l ''tools'') st)))) = Inr st'"
    using assms unfolding part_def
    by (cases "read_yaml (re_env re) ''setup.yaml'' (Option.bind (ly_root l) (node_at [''setup.yaml'']))")
       (simp_all add: add_layer_def Let_def del: ebind_Inr_iff)
  define s0 where "s0 = (if y = [] then st
      else record_source ''setup.yaml'' (ly_name l) (st\<lparr>rv_setup := deep_merge (rv_setup st) y\<rparr>))"
  have s0: "rv_skills s0 = rv_skills st" by (simp add: s0_def)
  obtain s1 s2 s3 s4 where
    s1: "efold (add_agent re (ly_name l) (part l ''agents'')) s0 (children (part l ''agents'')) = Inr s1"
    and s2: "efold (add_skill re l (part l ''skills'')) s1 (children (part l ''skills'')) = Inr s2"
    and s3: "efold (add_context re l (part l ''context'')) s2 (children (part l ''context'')) = Inr s3"
    and s4: "efold (add_play re l (part l ''plays''))
               (fold (add_data l (part l ''data'')) (children (part l ''data'')) s3) (children (part l ''plays'')) = Inr s4"
    and st': "add_tools re l (part l ''tools'') s4 = Inr st'"
    using y unfolding s0_def[symmetric] ebind_Inr_iff by blast
  have "rv_skills s1 = rv_skills s0" by (rule efold_keeps[OF _ s1]) (rule add_agent_skills)
  moreover have "rv_skills s3 = rv_skills s2" by (rule efold_keeps[OF _ s3]) (rule add_context_skills)
  moreover have "rv_skills s4 = rv_skills (fold (add_data l (part l ''data'')) (children (part l ''data'')) s3)"
    by (rule efold_keeps[OF _ s4]) (rule add_play_skills)
  moreover have "rv_skills (fold (add_data l (part l ''data'')) (children (part l ''data'')) s3) = rv_skills s3"
    by (rule fold_keeps) (rule add_data_skills)
  moreover have "rv_skills st' = rv_skills s4" using add_tools_skills[OF st'] .
  ultimately show ?thesis using s0 s2 by (intro exI[of _ s1] exI[of _ s2]) simp
qed


text \<open>What one entry of the directory of skills does to the skill \<open>n\<close>.\<close>

definition skill_effect ::
  "resolve_env \<Rightarrow> layer \<Rightarrow> file_tree option \<Rightarrow> string \<Rightarrow> file_tree \<Rightarrow> skill_item option \<Rightarrow> skill_item option" where
  "skill_effect re l dir n t old =
     (if file_in ''skill.yaml'' t = None then old
      else case read_yaml (re_env re) ''skill.yaml'' (file_in ''skill.yaml'' t) of
             Inl _ \<Rightarrow> old
           | Inr m \<Rightarrow>
               if misnamed m n then old
               else if dict_get m ''enabled'' = VBool False \<or> disabled_in dir n then None
               else case make_skill re l n t m of Inl _ \<Rightarrow> old | Inr sk \<Rightarrow> Some sk)"

lemma map_of_drop_key: "map_of (drop_key k xs) n = (if n = k then None else map_of xs n)"
  by (induction xs) (auto simp: drop_key_def)

lemma add_skill_own:
  assumes "add_skill re l dir st (n, DirNode ts) = Inr st'"
  shows "map_of (rv_skills st') n = skill_effect re l dir n (DirNode ts) (map_of (rv_skills st) n)"
proof (cases "file_in ''skill.yaml'' (DirNode ts) = None")
  case True
  then show ?thesis using assms by (simp add: add_skill_def skill_effect_def)
next
  case False
  then obtain m where m: "read_yaml (re_env re) ''skill.yaml'' (file_in ''skill.yaml'' (DirNode ts)) = Inr m"
    using assms by (auto simp: add_skill_def)
  consider "misnamed m n" | "\<not> misnamed m n" "dict_get m ''enabled'' = VBool False \<or> disabled_in dir n"
    | "\<not> misnamed m n" "\<not> (dict_get m ''enabled'' = VBool False \<or> disabled_in dir n)" by blast
  then show ?thesis
  proof cases
    case 3
    then obtain sk where "make_skill re l n (DirNode ts) m = Inr sk"
      using assms False m by (auto simp: add_skill_def)
    with 3 show ?thesis using assms False m by (auto simp: add_skill_def skill_effect_def update_conv')
  qed (use assms False m in \<open>auto simp: add_skill_def skill_effect_def map_of_drop_key\<close>)
qed

lemma drop_to: "c \<in> set xs \<Longrightarrow> \<exists>r. dropWhile (\<lambda>x. x \<noteq> c) xs = c # r"
  by (induction xs) auto

lemma suffix_stem:
  assumes "path_suffix m = x" and "x \<noteq> []"
  shows "m = path_stem m @ x"
proof -
  define a where "a = rev (takeWhile (\<lambda>c. c \<noteq> CHR ''.'') (rev m))"
  have "CHR ''.'' \<in> set m"
    using assms by (cases "CHR ''.'' \<in> set m") (simp_all add: path_suffix_def dot_split_def Let_def)
  then obtain r0 where "dropWhile (\<lambda>c. c \<noteq> CHR ''.'') (rev m) = CHR ''.'' # r0"
    using drop_to[of "CHR ''.''" "rev m"] by auto
  then have "rev m = rev a @ CHR ''.'' # r0"
    using takeWhile_dropWhile_id[of "\<lambda>c. c \<noteq> CHR ''.''" "rev m"] unfolding a_def by (metis rev_rev_ident)
  then have "rev (rev m) = rev (rev a @ CHR ''.'' # r0)" by (rule arg_cong)
  then have m: "m = rev r0 @ CHR ''.'' # a" by simp
  have len: "length m - length a - 1 = length r0" using arg_cong[OF m, of length] by simp
  have "take (length r0) m = rev r0" using arg_cong[OF m, of "take (length r0)"] by simp
  then have "dot_split m = (if CHR ''.'' \<in> set m \<and> a \<noteq> [] \<and> rev r0 \<noteq> [] then Some (rev r0, CHR ''.'' # a) else None)"
    unfolding dot_split_def Let_def a_def[symmetric] len by simp
  then have "path_stem m = rev r0 \<and> x = CHR ''.'' # a"
    using assms unfolding path_suffix_def path_stem_def by (simp split: if_splits)
  then show ?thesis using m by simp
qed

lemma add_skill_other:
  assumes "add_skill re l dir st (m, t) = Inr st'" and "m \<noteq> n \<or> is_file (Some t)"
    and "m \<noteq> n @ ''.disabled'' \<or> \<not> is_file (Some t)"
  shows "map_of (rv_skills st') n = map_of (rv_skills st) n"
proof (cases t)
  case (FileNode b)
  then have "path_suffix m = ''.disabled'' \<Longrightarrow> path_stem m \<noteq> n" using suffix_stem[of m "''.disabled''"] assms(3) by auto
  then show ?thesis using assms(1) FileNode by (auto simp: add_skill_def map_of_drop_key split: if_splits)
next
  case (DirNode ts)
  then show ?thesis using assms(1,2) by (auto simp: add_skill_def map_of_drop_key update_conv' split: if_splits)
qed

lemma stem_suffix: "n \<noteq> [] \<Longrightarrow> path_suffix (n @ ''.disabled'') = ''.disabled'' \<and> path_stem (n @ ''.disabled'') = n"
proof -
  assume "n \<noteq> []"
  moreover have "takeWhile (\<lambda>c. c \<noteq> CHR ''.'') (rev (n @ ''.disabled'')) = rev ''disabled''" by simp
  ultimately have "dot_split (n @ ''.disabled'') = Some (n, ''.disabled'')" by (simp add: dot_split_def Let_def)
  then show ?thesis by (simp add: path_suffix_def path_stem_def)
qed

lemma add_skill_marker:
  "add_skill re l dir st (n @ ''.disabled'', FileNode b) = Inr st' \<Longrightarrow> n \<noteq> [] \<Longrightarrow> map_of (rv_skills st') n = None"
  using stem_suffix[of n] by (auto simp: add_skill_def map_of_drop_key)

lemma effect_disabled: "disabled_in dir n \<Longrightarrow> skill_effect re l dir n t None = None"
  by (simp add: skill_effect_def split: sum.split)

lemma skills_of_directory:
  assumes "efold (add_skill re l dir) st xs = Inr st'" and "distinct (map fst xs)" and "n \<noteq> []"
    and "\<And>b. (n @ ''.disabled'', FileNode b) \<in> set xs \<Longrightarrow> disabled_in dir n"
  shows "map_of (rv_skills st') n =
    (if \<exists>b. (n @ ''.disabled'', FileNode b) \<in> set xs then None
     else case map_of xs n of
            Some (DirNode ts) \<Rightarrow> skill_effect re l dir n (DirNode ts) (map_of (rv_skills st) n)
          | _ \<Rightarrow> map_of (rv_skills st) n)"
  using assms
proof (induction xs arbitrary: st)
  case (Cons x xs)
  obtain m t where x: "x = (m, t)" by fastforce
  from Cons.prems(1) obtain su where one: "add_skill re l dir st (m, t) = Inr su"
    and rest: "efold (add_skill re l dir) su xs = Inr st'" by (auto simp: x split: sum.splits)
  have fresh: "\<And>t. (m, t) \<notin> set xs" using Cons.prems(2) by (force simp: x)
  have IH: "map_of (rv_skills st') n =
    (if \<exists>b. (n @ ''.disabled'', FileNode b) \<in> set xs then None
     else case map_of xs n of
            Some (DirNode ts) \<Rightarrow> skill_effect re l dir n (DirNode ts) (map_of (rv_skills su) n)
          | _ \<Rightarrow> map_of (rv_skills su) n)"
    by (rule Cons.IH[OF rest]) (use Cons.prems in auto)
  consider (marker) b where "m = n @ ''.disabled''" "t = FileNode b"
    | (own) ts where "m = n" "t = DirNode ts"
    | (other) "m \<noteq> n \<or> is_file (Some t)" "m \<noteq> n @ ''.disabled'' \<or> \<not> is_file (Some t)"
    by (cases t) auto
  then show ?case
  proof cases
    case marker
    have "map_of (rv_skills su) n = None" using add_skill_marker one marker Cons.prems(3) by metis
    moreover have "disabled_in dir n" using Cons.prems(4) marker x by auto
    ultimately have "map_of (rv_skills st') n = None"
      unfolding IH using effect_disabled by (auto split: option.split file_tree.split)
    then show ?thesis using marker x by auto
  next
    case own
    then have "map_of xs n = None" using fresh by (meson map_of_SomeD not_None_eq)
    then show ?thesis using IH add_skill_own[of re l dir st n ts su] one own x by (auto split: if_splits)
  next
    case other
    have same: "map_of (rv_skills su) n = map_of (rv_skills st) n" by (rule add_skill_other[OF one other])
    have "m = n \<longrightarrow> map_of xs n = None" using fresh by (meson map_of_SomeD not_None_eq)
    moreover have "(\<exists>b. (n @ ''.disabled'', FileNode b) \<in> set (x # xs)) = (\<exists>b. (n @ ''.disabled'', FileNode b) \<in> set xs)"
      using x other by auto
    ultimately show ?thesis using IH[unfolded same] x other(1) by (cases t) auto
  qed
qed simp

end
