(* ===== verification/Setup_Promises.thy ===== *)
theory Setup_Promises
  imports Setup_Laws
begin

text \<open>
  The promises of resolved setups: what the deepest layer says of a skill holds, the prompt of an
  agent type stays within its budgets, and what moved out of it can be loaded; and a hash of the
  content that two different trees share.
\<close>

section \<open>Precedence\<close>

lemma children_lookup:
  assumes "distinct (map fst ks)"
  shows "distinct (map fst (children (Some (DirNode ks))))
    \<and> map_of (children (Some (DirNode ks))) n = (if hidden_name n then None else map_of ks n)"
proof -
  let ?vs = "filter (\<lambda>p. \<not> hidden_name (fst p)) ks"
  have d: "distinct (map fst ?vs)" using assms by (rule distinct_map_filter)
  then have sorted: "distinct (map fst (sort_key fst ?vs))"
    unfolding distinct_map by simp
  then have "map_of (sort_key fst ?vs) = map_of ?vs" using d by (simp add: map_of_inject_set)
  moreover have "map_of ?vs n = (if hidden_name n then None else map_of ks n)" by (induction ks) auto
  ultimately show ?thesis using sorted by (simp add: children_def)
qed

lemma hidden_marker: "n \<noteq> [] \<Longrightarrow> hidden_name (n @ ''.disabled'') = hidden_name n"
  by (cases n) (simp_all add: hidden_name_def starts_with_def)

lemma disable_type_skills: "rv_skills (disable_type p st) = rv_skills st"
  by (auto simp: disable_type_def split: prod.splits pykey.split option.split)

lemma make_skill_source: "make_skill re l n t m = Inr sk \<Longrightarrow> sk_source sk = ly_name l"
  by (auto simp: make_skill_def)

lemma disabled_in_dir: "disabled_in (Some (DirNode ks)) n \<longleftrightarrow> map_of ks (n @ ''.disabled'') \<noteq> None"
  by (simp add: disabled_in_def split: option.split)

text \<open>The skill \<open>n\<close> after a deepest layer with a directory of skills.\<close>

lemma skill_after_layer:
  assumes "resolve_layers re (ls @ [l]) = Inr rv" and "efold (add_layer re) nothing_resolved ls = Inr st"
    and "part l ''skills'' = Some (DirNode ks)" and "distinct (map fst ks)" and "n \<noteq> []" and "\<not> hidden_name n"
  shows "map_of (rv_skills rv) n =
    (if is_file (map_of ks (n @ ''.disabled'')) then None
     else case map_of ks n of
            Some (DirNode ts) \<Rightarrow> skill_effect re l (Some (DirNode ks)) n (DirNode ts) (map_of (rv_skills st) n)
          | _ \<Rightarrow> map_of (rv_skills st) n)"
proof -
  obtain st' where all: "efold (add_layer re) nothing_resolved (ls @ [l]) = Inr st'" and rv: "rv_skills rv = rv_skills st'"
    using assms(1) unfolding resolve_layers_def Let_def
    by (auto simp: fold_keeps[of _ rv_skills, OF disable_type_skills] split: if_splits pyval.splits)
  have st': "add_layer re st l = Inr st'"
    using all assms(2) by (cases "add_layer re st l") (simp_all add: efold_append)
  have root: "is_dir (ly_root l)"
    using assms(3) unfolding part_def by (cases "ly_root l") (auto simp: bind_eq_Some_conv elim!: node_at.elims)
  obtain s t where s: "rv_skills s = rv_skills st"
    and t: "efold (add_skill re l (Some (DirNode ks))) s (children (Some (DirNode ks))) = Inr t" "rv_skills st' = rv_skills t"
    using add_layer_skills[OF st' root] unfolding assms(3) by blast
  note look = children_lookup[OF assms(4)]
  have file_marker: "(\<exists>b. (n @ ''.disabled'', FileNode b) \<in> set (children (Some (DirNode ks))))
      = is_file (map_of ks (n @ ''.disabled''))"
    using look[of "n @ ''.disabled''"] hidden_marker[OF assms(5)] assms(6)
    by (metis is_file.elims(2) is_file.simps(1) map_of_eq_Some_iff)
  have "map_of (rv_skills t) n =
    (if \<exists>b. (n @ ''.disabled'', FileNode b) \<in> set (children (Some (DirNode ks))) then None
     else case map_of (children (Some (DirNode ks))) n of
            Some (DirNode ts) \<Rightarrow> skill_effect re l (Some (DirNode ks)) n (DirNode ts) (map_of (rv_skills s) n)
          | _ \<Rightarrow> map_of (rv_skills s) n)"
  proof (rule skills_of_directory[OF t(1) _ assms(5)])
    show "distinct (map fst (children (Some (DirNode ks))))" using look by blast
    fix b
    assume "(n @ ''.disabled'', FileNode b) \<in> set (children (Some (DirNode ks)))"
    then have "is_file (map_of ks (n @ ''.disabled''))" using file_marker by blast
    then show "disabled_in (Some (DirNode ks)) n" unfolding disabled_in_dir
      by (cases "map_of ks (n @ ''.disabled'')") simp_all
  qed
  then show ?thesis using file_marker look[of n] assms(6) t(2) rv unfolding s by simp
qed

text \<open>
  C16: the deepest layer that speaks of a skill decides it.  Where its directory of skills has
  neither the skill nor its marker, the skill is what the shallower layers made of it; a marker
  file removes it; and a directory with a readable \<open>skill.yaml\<close> of that name, not disabled,
  replaces it by the skill built from this layer, which is recorded as its source.
\<close>

theorem deepest_layer_decides:
  assumes "resolve_layers re (ls @ [l]) = Inr rv" and "efold (add_layer re) nothing_resolved ls = Inr st"
    and "part l ''skills'' = Some (DirNode ks)" and "distinct (map fst ks)" and "n \<noteq> []" and "\<not> hidden_name n"
  shows "(map_of ks n = None \<longrightarrow> map_of ks (n @ ''.disabled'') = None \<longrightarrow> map_of (rv_skills rv) n = map_of (rv_skills st) n)
    \<and> (is_file (map_of ks (n @ ''.disabled'')) \<longrightarrow> map_of (rv_skills rv) n = None)
    \<and> (\<forall>ts m sk. map_of ks n = Some (DirNode ts) \<longrightarrow> map_of ks (n @ ''.disabled'') = None
         \<longrightarrow> file_in ''skill.yaml'' (DirNode ts) \<noteq> None
         \<longrightarrow> read_yaml (re_env re) ''skill.yaml'' (file_in ''skill.yaml'' (DirNode ts)) = Inr m
         \<longrightarrow> \<not> misnamed m n \<longrightarrow> dict_get m ''enabled'' \<noteq> VBool False \<longrightarrow> make_skill re l n (DirNode ts) m = Inr sk
         \<longrightarrow> map_of (rv_skills rv) n = Some sk \<and> sk_source sk = ly_name l)"
  using skill_after_layer[OF assms] make_skill_source
  by (auto simp: skill_effect_def disabled_in_dir)

section \<open>Budgets\<close>

definition loaded_size :: "resolved_setup \<Rightarrow> string \<times> load_mode \<times> move_reason option \<Rightarrow> int" where
  "loaded_size rv = (\<lambda>(n, m, _).
     case map_of (rv_skills rv) n of Some s \<Rightarrow> if m = Always then int (skill_size s) else 0 | None \<Rightarrow> 0)"

lemma modes_names: "map fst (modes_from rv used xs) = map fst xs"
  by (induction rv used xs rule: modes_from.induct) (simp_all add: Let_def)

lemma modes_total:
  "(\<And>n s. (n, s) \<in> set xs \<Longrightarrow> map_of (rv_skills rv) n = Some s) \<Longrightarrow>
     used + sum_list (map (loaded_size rv) (modes_from rv used xs)) \<le> max used (budget rv ''skills_total_chars'')"
proof (induction rv used xs rule: modes_from.induct)
  case (2 rv used n s rest)
  have s: "map_of (rv_skills rv) n = Some s" using 2(5) by simp
  have rest: "\<And>n s. (n, s) \<in> set rest \<Longrightarrow> map_of (rv_skills rv) n = Some s" using 2(5) by simp
  consider "skill_load_mode rv s = OnDemand" | "skill_load_mode rv s \<noteq> OnDemand" "budget rv ''skill_prompt_chars'' < int (skill_size s)"
    | "skill_load_mode rv s \<noteq> OnDemand" "\<not> budget rv ''skill_prompt_chars'' < int (skill_size s)"
      "budget rv ''skills_total_chars'' < used + int (skill_size s)"
    | "skill_load_mode rv s \<noteq> OnDemand" "\<not> budget rv ''skill_prompt_chars'' < int (skill_size s)"
      "\<not> budget rv ''skills_total_chars'' < used + int (skill_size s)" by blast
  then show ?case
  proof cases
    case 4
    then show ?thesis using "2.IH"(4)[OF refl refl refl _ _ _ rest] s by (auto simp: Let_def loaded_size_def)
  qed (use "2.IH"(1)[OF refl refl refl _ rest] "2.IH"(2)[OF refl refl refl _ _ rest] "2.IH"(3)[OF refl refl refl _ _ _ rest] in
       \<open>auto simp: Let_def loaded_size_def split: option.split\<close>)
qed simp

lemma modes_each:
  "(n, m, r) \<in> set (modes_from rv used xs) \<Longrightarrow>
     \<exists>s. (n, s) \<in> set xs
       \<and> (m = Always \<longrightarrow> skill_load_mode rv s = Always \<and> int (skill_size s) \<le> budget rv ''skill_prompt_chars'')
       \<and> (m = OnDemand \<longrightarrow> r = None \<longrightarrow> skill_load_mode rv s = OnDemand)"
proof (induction rv used xs rule: modes_from.induct)
  case (2 rv used n' s rest)
  consider "skill_load_mode rv s = OnDemand" | "skill_load_mode rv s = Always" "budget rv ''skill_prompt_chars'' < int (skill_size s)"
    | "skill_load_mode rv s = Always" "\<not> budget rv ''skill_prompt_chars'' < int (skill_size s)"
      "budget rv ''skills_total_chars'' < used + int (skill_size s)"
    | "skill_load_mode rv s = Always" "\<not> budget rv ''skill_prompt_chars'' < int (skill_size s)"
      "\<not> budget rv ''skills_total_chars'' < used + int (skill_size s)" by (cases "skill_load_mode rv s") auto
  then show ?case
  proof cases
    case 1
    with 2(5) "2.IH"(1)[OF refl refl refl 1] show ?thesis by (auto simp: Let_def)
  next
    case 2
    with "2.prems" "2.IH"(2)[OF refl refl refl _ 2(2)] show ?thesis by (auto simp: Let_def)
  next
    case 3
    with "2.prems" "2.IH"(3)[OF refl refl refl _ 3(2,3)] show ?thesis by (auto simp: Let_def)
  next
    case 4
    with "2.prems" "2.IH"(4)[OF refl refl refl _ 4(2,3)] show ?thesis by (auto simp: Let_def)
  qed
qed simp

lemma items_of_set: "(n, s) \<in> set (items_of xs ns) \<longleftrightarrow> n \<in> set ns \<and> map_of xs n = Some s"
  by (induction ns) (auto simp: items_of_def map_filter_def split: option.splits)

lemma items_of_names: "(\<And>n. n \<in> set ns \<Longrightarrow> map_of xs n \<noteq> None) \<Longrightarrow> map fst (items_of xs ns) = ns"
proof (induction ns)
  case (Cons n ns)
  then obtain s where "map_of xs n = Some s" by fastforce
  with Cons show ?case by (simp add: items_of_def map_filter_simps)
qed (simp add: items_of_def map_filter_simps)

lemma skills_for_known: "skills_for rv t = Inr ns \<Longrightarrow> n \<in> set ns \<Longrightarrow> map_of (rv_skills rv) n \<noteq> None"
  by (auto simp: skills_for_def map_of_eq_None_iff)

text \<open>
  C17: the load modes of a type.  Every skill of the type gets exactly one; the skills that are
  always loaded fit their budgets, each on its own and all together; and a skill on demand without
  a reason was declared so.
\<close>

theorem skill_modes_within_budget:
  assumes "skills_for rv t = Inr ns" and "skill_modes rv t = Inr ms"
  shows "map fst ms = ns
    \<and> sum_list (map (loaded_size rv) ms) \<le> max 0 (budget rv ''skills_total_chars'')
    \<and> (\<forall>(n, m, r) \<in> set ms. \<exists>s. map_of (rv_skills rv) n = Some s
        \<and> (m = Always \<longrightarrow> skill_load_mode rv s = Always \<and> int (skill_size s) \<le> budget rv ''skill_prompt_chars'')
        \<and> (m = OnDemand \<longrightarrow> r = None \<longrightarrow> skill_load_mode rv s = OnDemand))"
proof -
  have ms: "ms = modes_from rv 0 (items_of (rv_skills rv) ns)" using assms by (simp add: skill_modes_def)
  have "map fst ms = ns" unfolding ms modes_names by (rule items_of_names[OF skills_for_known[OF assms(1)]])
  moreover have "sum_list (map (loaded_size rv) ms) \<le> max 0 (budget rv ''skills_total_chars'')"
    using modes_total[of "items_of (rv_skills rv) ns" rv 0] unfolding ms by (simp add: items_of_set)
  moreover have "\<exists>s. map_of (rv_skills rv) n = Some s
        \<and> (m = Always \<longrightarrow> skill_load_mode rv s = Always \<and> int (skill_size s) \<le> budget rv ''skill_prompt_chars'')
        \<and> (m = OnDemand \<longrightarrow> r = None \<longrightarrow> skill_load_mode rv s = OnDemand)" if "(n, m, r) \<in> set ms" for n m r
    using modes_each[OF that[unfolded ms]] by (auto simp: items_of_set)
  ultimately show ?thesis by auto
qed

lemma context_parts_fit:
  "context_parts cap used cs = (parts, stop) \<Longrightarrow>
     used + sum_list (map (int \<circ> length) parts) \<le> max used cap
     \<and> (\<exists>k. parts = map section_of (take k cs)
         \<and> (case stop of None \<Rightarrow> k = length cs | Some n \<Rightarrow> k < length cs \<and> fst (cs ! k) = n))"
proof (induction cap used cs arbitrary: parts rule: context_parts.induct)
  case (2 cap used c cs)
  show ?case
  proof (cases "cap < used + int (length (section_of c))")
    case True
    with 2(2) show ?thesis by (intro conjI exI[of _ 0]) auto
  next
    case False
    obtain ps stop' where ps: "context_parts cap (used + int (length (section_of c))) cs = (ps, stop')" by fastforce
    with 2(2) False have eq: "parts = section_of c # ps" "stop = stop'" by auto
    from 2(1)[OF False ps[folded eq(2)]] obtain k where
      fit: "used + int (length (section_of c)) + sum_list (map (int \<circ> length) ps) \<le> max (used + int (length (section_of c))) cap"
      and k: "ps = map section_of (take k cs)"
        "case stop of None \<Rightarrow> k = length cs | Some n \<Rightarrow> k < length cs \<and> fst (cs ! k) = n" by blast
    show ?thesis
      using fit k False eq(1) by (intro conjI exI[of _ "Suc k"]) (auto simp: comp_def algebra_simps split: option.splits)
  qed
qed auto

section \<open>Skills on demand\<close>

text \<open>
  C18: a skill that is not in the prompt is not lost.  For every skill of a type that is on demand,
  declared so or moved by a budget, \<open>load_skill\<close> returns its text, cut at the budget and marked
  so if it was cut; and what it returns for any call is a skill of the type, or a reference file
  that the skill lists.
\<close>

theorem on_demand_reachable:
  assumes "skill_modes rv t = Inr ms" and "(n, OnDemand, r) \<in> set ms" and "0 \<le> budget rv ''skill_ondemand_chars''"
  shows "\<exists>s out. map_of (rv_skills rv) n = Some s \<and> load_skill rv t n None = Inr out
    \<and> ld_text out = take (nat (budget rv ''skill_ondemand_chars'')) (strip (sk_prompt s))
    \<and> (ld_truncated out \<longleftrightarrow> ld_text out \<noteq> strip (sk_prompt s)) \<and> ld_tools out = sk_tools s"
proof -
  obtain ns where ns: "skills_for rv t = Inr ns" and ms: "ms = modes_from rv 0 (items_of (rv_skills rv) ns)"
    using assms(1) by (auto simp: skill_modes_def)
  obtain s where s: "n \<in> set ns" "map_of (rv_skills rv) n = Some s"
    using modes_each[OF assms(2)[unfolded ms]] by (auto simp: items_of_set)
  then show ?thesis using ns assms(3)
    by (intro exI[of _ s]) (auto simp: load_skill_def Let_def text_upto_def)
qed

section \<open>The hash of the content\<close>

text \<open>
  A file that holds NUL bytes can stand for two files: the hash that keys the resolver's cache does
  not tell the two trees apart, whatever the digest.
\<close>

definition data_layer :: "(string \<times> file_tree) list \<Rightarrow> layer" where
  "data_layer files = \<lparr>ly_name = ''org'', ly_path = ''/org'', ly_root = Some (DirNode [(''data'', DirNode files)])\<rparr>"

theorem content_hash_ambiguous:
  "content_hash se [data_layer [(''a.txt'', FileNode (''x'' @ nul @ ''data/b.txt'' @ nul @ ''y''))]]
   = content_hash se [data_layer [(''a.txt'', FileNode ''x''), (''b.txt'', FileNode ''y'')]]"
proof -
  have "layer_bytes (data_layer [(''a.txt'', FileNode (''x'' @ nul @ ''data/b.txt'' @ nul @ ''y''))])
      = layer_bytes (data_layer [(''a.txt'', FileNode ''x''), (''b.txt'', FileNode ''y'')])" by code_simp
  then show ?thesis by (simp add: content_hash_def)
qed

end
