(* ===== verification/Setup_Examples.thy ===== *)
theory Setup_Examples
  imports Setup_Promises
begin

text \<open>
  Two layers, a baseline with two skills and an organization that disables one of them and adds
  its own version of the other: the witnesses of the promises of resolved setups.
\<close>

definition demo_resolve :: resolve_env where
  "demo_resolve =
     \<lparr>re_env = \<lparr>se_yaml = (\<lambda>s. if s = ''empty'' then Inr (VDict []) else Inr VNone), se_json = (\<lambda>_. Inl ()),
               se_str = (\<lambda>v. case v of VStr s \<Rightarrow> s | _ \<Rightarrow> []), se_sha = (\<lambda>s. s)\<rparr>,
      re_registered = (\<lambda>_. [])\<rparr>"

definition skill_dir :: "string \<Rightarrow> file_tree" where
  "skill_dir prompt = DirNode [(''skill.yaml'', FileNode ''empty''), (''prompt.md'', FileNode prompt)]"

definition baseline :: layer where
  "baseline = \<lparr>ly_name = ''base'', ly_path = ''/base'',
     ly_root = Some (DirNode [(''skills'', DirNode [(''deploy'', skill_dir ''ship it''), (''review'', skill_dir ''read it'')])])\<rparr>"

definition org_skills :: "(string \<times> file_tree) list" where
  "org_skills = [(''deploy'', skill_dir ''ask first''), (''review.disabled'', FileNode [])]"

definition org_layer :: layer where
  "org_layer = \<lparr>ly_name = ''org'', ly_path = ''/org'', ly_root = Some (DirNode [(''skills'', DirNode org_skills)])\<rparr>"

definition of_base :: resolved_setup where
  "of_base = projr (efold (add_layer demo_resolve) nothing_resolved [baseline])"

definition of_both :: resolved_setup where
  "of_both = projr (resolve_layers demo_resolve ([baseline] @ [org_layer]))"

lemma resolved_base: "efold (add_layer demo_resolve) nothing_resolved [baseline] = Inr of_base"
  by code_simp

lemma resolved_both: "resolve_layers demo_resolve ([baseline] @ [org_layer]) = Inr of_both"
  by code_simp

lemma org_part: "part org_layer ''skills'' = Some (DirNode org_skills)"
  by (simp add: part_def org_layer_def)

theorem deepest_layer_decides_witness:
  "map_of (rv_skills of_both) ''review'' = None \<and> map_of (rv_skills of_base) ''review'' \<noteq> None"
proof -
  have "distinct (map fst org_skills)" "''review'' \<noteq> []" "\<not> hidden_name ''review''" by code_simp+
  moreover have "is_file (map_of org_skills (''review'' @ ''.disabled''))" by code_simp
  ultimately have "map_of (rv_skills of_both) ''review'' = None"
    using deepest_layer_decides[OF resolved_both resolved_base org_part] by blast
  moreover have "map_of (rv_skills of_base) ''review'' \<noteq> None" by code_simp
  ultimately show ?thesis by simp
qed

text \<open>The deeper skill replaced the shallower one; a budget of nine characters moves it out of the prompt.\<close>

definition tight :: resolved_setup where
  "tight = of_both\<lparr>rv_setup := [(KStr ''budgets'', VDict [(KStr ''skills_total_chars'', VInt 8)])]\<rparr>"

lemma tight_modes: "skill_modes tight ''coder'' = Inr [(''deploy'', OnDemand, Some (TotalSize 9 8))]"
  by code_simp

theorem skill_modes_within_budget_witness:
  "sum_list (map (loaded_size tight) [(''deploy'', OnDemand, Some (TotalSize 9 8))]) \<le> max 0 (budget tight ''skills_total_chars'')"
proof -
  have "skills_for tight ''coder'' = Inr [''deploy'']" by code_simp
  then show ?thesis using skill_modes_within_budget[OF _ tight_modes] by blast
qed

theorem on_demand_reachable_witness:
  "\<exists>out. load_skill tight ''coder'' ''deploy'' None = Inr out \<and> ld_text out = ''ask first''"
proof -
  have "0 \<le> budget tight ''skill_ondemand_chars''" by code_simp
  then obtain s out where s: "map_of (rv_skills tight) ''deploy'' = Some s"
    and out: "load_skill tight ''coder'' ''deploy'' None = Inr out"
    "ld_text out = take (nat (budget tight ''skill_ondemand_chars'')) (strip (sk_prompt s))"
    using on_demand_reachable[OF tight_modes list.set_intros(1)] by blast
  have "map_option (strip \<circ> sk_prompt) (map_of (rv_skills tight) ''deploy'') = Some ''ask first''" by code_simp
  then have "strip (sk_prompt s) = ''ask first''" unfolding s option.map comp_apply option.inject .
  moreover have "int (length ''ask first'') \<le> budget tight ''skill_ondemand_chars''" by code_simp
  then have "length ''ask first'' \<le> nat (budget tight ''skill_ondemand_chars'')" by linarith
  ultimately have "ld_text out = ''ask first''" using out(2) take_all by metis
  with out(1) show ?thesis by blast
qed

theorem deep_merge_by_key_witness:
  "map_of (deep_merge [(KStr ''llm'', VDict [(KStr ''model'', VStr ''a''), (KStr ''seed'', VInt 1)])]
             [(KStr ''llm'', VDict [(KStr ''model'', VStr ''b'')])]) (KStr ''llm'')
   = Some (VDict (deep_merge [(KStr ''model'', VStr ''a''), (KStr ''seed'', VInt 1)] [(KStr ''model'', VStr ''b'')]))"
  by (subst deep_merge_by_key) (simp_all add: merge_value_def)

end
