(* ===== verification/Spec2Isabelle.thy ===== *)
theory Spec2Isabelle
  imports Decide_Tree Waves Agent_Liveness Repair_Signature Retrieval_Promises Ingest_Promises Tool_Examples
    Scope_Examples Promotion_Examples Convention_Examples Setup_Examples
begin

text \<open>
  A model of the core of fabri, an engine that runs tool-using language-model agents
  (\<open>src/fabri/\<close>), and of the pure components around it.

  The program.  \<open>run_agent\<close> (\<open>core/agent.py\<close>) runs attempts at a task.  An attempt retrieves
  memory, builds the system prompt, and either plans the task and runs a step loop per plan
  item or runs one step loop for the whole task.  A step asks the model; tool calls are
  dispatched to the registry (\<open>tools/registry.py\<close>), results go back into the conversation as
  TOON or JSON, child agents report their cost, and a text ends the loop.  The final answer of
  the single loop may be held to a response schema.  The attempt ends with one outcome, one
  terminal event and a usage record; a repair block reruns it while a verifier rejects it.
  Beside the loop stand the decision layer (\<open>decide/\<close>: deciders, cascades, decision trees),
  the planner and the wave planner, the memory that runs write to and retrieve from, and the
  dynamic tools: a setup declares sources (an OpenAPI document, an endpoint, an MCP server, a
  callable), a policy caps them, and what is left becomes tools of a registry.

  Theories and the code they model.
  \<^item> \<open>PyPrelude\<close>, \<open>PyText\<close>: the values and text functions of Python the code uses: \<open>pyval\<close> for
    JSON values, dictionaries as association lists in insertion order, floats as exact
    rationals with infinities and NaN, \<open>strip\<close>, \<open>splitlines\<close>, \<open>int\<close>, \<open>float\<close>, JSON strings,
    regular expressions written out as matchers.
  \<^item> \<open>Decide_Types\<close>, \<open>Decide_Llm\<close>, \<open>Decide_Jev\<close>, \<open>Decide_Cascade\<close>, \<open>Decide_Tree\<close>: \<open>decide/\<close>.
    Questions and answers, the two deciders, the cascade, the loading and running of trees.
  \<^item> \<open>Pricing\<close>: \<open>pricing.py\<close>, and the records and the retry loop of \<open>core/llm.py\<close>.
  \<^item> \<open>Structured\<close>: \<open>core/structured.py\<close>.  \<open>Planner\<close>: \<open>core/planner.py\<close>.  \<open>Waves\<close>:
    \<open>builder/waves.py\<close>.  \<open>Toon\<close>: \<open>toon.py\<close>.  \<open>Tools\<close>: \<open>tools/registry.py\<close>.
  \<^item> \<open>Agent_Output\<close>: \<open>memory/output.py\<close> and \<open>orchestrator/convention_application.py\<close>.
  \<^item> \<open>Agent_Types\<close>: the state of an attempt.  The record \<open>run\<close> holds the locals that
    \<open>_run_single_attempt\<close> shares with its inner functions (totals, per-model usage, child cost,
    spawn statistics, last text, visible tools), the tool registry, the trace as a list of
    \<open>event\<close>s, and a world of any type that backends and tools act on.  \<open>settings\<close> holds its
    arguments.  Code that may raise is an \<open>act\<close>, a function from a run to an exception or a
    value and the new run.
  \<^item> \<open>Agent_Dispatch\<close>: \<open>core/decompose.py\<close>, \<open>_index_parallel_groups\<close>, \<open>_dispatch_tool_calls\<close>.
  \<^item> \<open>Agent_Loop\<close>: nudge, narration, exposed tools, \<open>_run_step_loop\<close>.
  \<^item> \<open>Agent_Answer\<close>: \<open>_finalize_structured\<close>.
  \<^item> \<open>Agent_Attempt\<close>: \<open>build_system_prompt\<close>, the planned path, the single loop,
    \<open>_classify_outcome\<close>, usage and result, \<open>_run_single_attempt\<close>.
  \<^item> \<open>Agent_Run\<close>: \<open>_run_verifier\<close>, \<open>_error_signature\<close>, \<open>_run_with_repair\<close>, \<open>run_agent\<close>.
  \<^item> \<open>Recurrence\<close>: \<open>memory/recurrence.py\<close>, the matching of recorded recoveries.
  \<^item> \<open>Memory_Entries\<close>: \<open>memory/schema.py\<close> and \<open>memory/verification.py\<close>; a store is a record of its
    operations, each of which may raise.
  \<^item> \<open>Retrieval\<close>: \<open>orchestrator/retrieval.py\<close>, one definition per stage of \<open>_retrieve_inner\<close>;
    \<open>Retrieval_Laws\<close>, \<open>Retrieval_Slots\<close>, \<open>Global_Tier\<close>, \<open>Retrieval_Promises\<close> hold what is proved.
  \<^item> \<open>Memory_Ingest\<close>: \<open>memory/pruning.py\<close>; code that writes to a collection and may raise is a
    \<open>writer\<close>, which keeps what was written before the raise.  \<open>Ingest_Laws\<close> and
    \<open>Ingest_Promises\<close> hold what is proved.
  \<^item> \<open>Tool_Policy\<close>: \<open>tools/approval.py\<close> and \<open>tools/policy.py\<close>.  \<open>Tool_Sources\<close>: header specs,
    secrets and the check of a declaration (\<open>tools/http_call.py\<close>, \<open>secret_refs.py\<close>,
    \<open>credential_store.py\<close>, \<open>sources.py\<close>).  \<open>OpenApi_Schema\<close>, \<open>OpenApi_Names\<close>, \<open>OpenApi\<close>:
    \<open>tools/openapi.py\<close>.  \<open>Tool_Http\<close>: requests, responses and the handlers.  \<open>Tool_Build\<close>: the
    builders of \<open>tools/sources.py\<close>.  \<open>Toolset\<close>: \<open>setups/toolset.py\<close>.  \<open>OpenApi_Promises\<close>,
    \<open>Http_Promises\<close>, \<open>Toolset_Laws\<close>, \<open>Toolset_Promises\<close> and \<open>Tool_Examples\<close> hold what is proved.
  \<^item> \<open>Attempt_Laws\<close>, \<open>Attempt_Outcome\<close>, \<open>Agent_Lifecycle\<close>, \<open>Agent_Liveness\<close>,
    \<open>Repair_Signature\<close>: what is proved of them.

  What the lemmas show.  Memory: fingerprints determine signatures, confidences lie in bands that
  tell what was checked; a retrieved list is short, free of duplicates and of excluded entries
  (the locale \<open>reranker\<close>, interpreted for the sorting stages, and the locale \<open>slot_rule\<close>,
  interpreted for the rules that fill the slots), its slots are shared as documented, and a
  failing second store changes nothing; a merge loses nothing and demotes nothing, and ingestion
  keeps the collection keyed (the locale \<open>collection_invariant\<close>).  Dynamic tools: a tool set is
  always built and stays within its policy (the locales \<open>source_builder\<close> and
  \<open>classed_builder\<close>, interpreted for \<open>build_source_tools\<close>), its floors reach the registry's gate,
  documents cannot loosen approval classes nor smuggle references into schemas, and a call
  uses no secret outside the grants and leaves the path of its operation intact up to dots.
  Decision layer: answers are allowed values or none, charges are
  conserved, a tree that loads runs to a leaf.  Data: validation agrees with an inductive
  conformance relation, TOON and the memory block read back what was written, plan orders and
  waves respect dependencies.  Tools: the approval gate, the accounting of calls, batches.
  Agent: a relation between two states that the primitive actions keep is kept by every
  composed one (the locales \<open>run_relation\<close>, \<open>book_relation\<close>, \<open>loop_relation\<close> and
  \<open>open_relation\<close>, interpreted for the growth of the trace, kinds of events, usage totals,
  prices, children and the registry); from these follow the pairing of step events, the
  bounds on steps and reruns, the outcome as a function of the reported tool calls, the sums
  of the usage record, and a refinement of an abstract lifecycle machine, \<open>life_step\<close>.

  Fuel and bounds.  Loops are structural on the steps, items or attempts left, or have a
  measure; the resolution of schemas ends because every reference followed is new among those
  of the document, lexicographically before the size of the node.  The topological order and the TOON decoder take fuel, and \<open>topo_loop_finishes\<close> and
  \<open>decode_never_out_of_fuel\<close> show that it is enough; the tree runner's bound is the code's own
  \<open>MAX_DEPTH\<close>.  Integers are Python's, unbounded; where a float conversion can overflow
  (\<open>float_limit\<close>) the model raises as the code does.

  Parameters.  Backends, the planner's and narrator's models, tool handlers, approvers, the
  sandbox, the verifier's process, SHA-256, \<open>json.loads\<close> and \<open>json.dumps\<close>, \<open>repr\<close>, the rendering
  of floats, the litellm prices, the stores, the embedding model and BM25, the HTTP client, \<open>urlparse\<close>, \<open>str\<close> of a value that
  is not a string, the fetched document of a spec, the callable of a dotted path, and the tools
  an MCP server lists are arguments of the definitions; the agent loop takes the text and tools retrieval gives it as arguments.  A handler cannot register tools during a run.  Threads of a parallel group
  appear as the order in which its members complete, a parameter of which the proofs only use
  that it is an order of the members; the cap on concurrent threads then has no effect and is
  left out.  Time stamps, elapsed times, log lines, session ids and, in the trace, the fields
  that repeat a setting (\<open>max_cost_usd\<close>) or a counter (\<open>had_tool_failure\<close> of a protocol
  error) are left out.  Dashes of the prompts' texts are written \<open>--\<close>.  Characters are those of
  \<open>char\<close>; \<open>\d\<close> and \<open>\w\<close> mean their ASCII ranges.  \<open>str.format\<close> knows the one field the code
  documents.

  Not modelled.  The four provider adapters of \<open>core/llm.py\<close> and the HTTP client of
  \<open>decide/jev.py\<close> (third-party clients); the adapters to the vector stores and the
  mining, conventions and global promotion of memory (\<open>orchestrator/\<close>, \<open>memory/\<close>); tool execution
  (\<open>tools/runner.py\<close>, connectors, the MCP transports, the catalog, the built-in tools),
  \<open>sandbox/\<close>, \<open>repo/\<close>, \<open>service/\<close> and \<open>integrations/\<close>, which are processes, files and network; the
  layers and files of \<open>setups/\<close>, \<open>ingest/\<close>, the model-driven parts of \<open>builder/\<close>, the
  command line, configuration files, \<open>reports/\<close>, \<open>observability/\<close> and \<open>benchmarks/\<close>.
\<close>

end
